(* ===== verification/Prelude.thy ===== *)
theory Prelude
  imports Complex_Main "HOL-Library.AList"
begin

text \<open>
  Shared ground of the development: Python dictionaries as association lists in insertion
  order, results that are an error or a value, decimal rendering of integers (the
  \<open>f"job-{n}"\<close> identifiers of the code), and the generic list lemmas the components use.

  A Python \<open>dict\<close> is an association list with distinct keys. \<open>AList.update\<close>
  overwrites in place and appends a new key at the end, which is Python's
  \<open>d[k] = v\<close>; \<open>AList.delete\<close> is \<open>del d[k]\<close> / \<open>d.pop(k, None)\<close>;
  \<open>map_of\<close> is \<open>d.get(k)\<close>; \<open>map snd\<close> is \<open>d.values()\<close>.
\<close>

named_theorems state_simps \<open>unfolding rules of state-changing operations\<close>
named_theorems inv_intros \<open>preservation lemmas of component invariants\<close>

type_synonym ('k, 'v) dict = "('k \<times> 'v) list"

text \<open>Timestamps (\<open>datetime\<close> values of an injected clock) are integers.\<close>

type_synonym timestamp = int

section \<open>Results\<close>

definition bind_result :: "'e + 'a \<Rightarrow> ('a \<Rightarrow> 'e + 'b) \<Rightarrow> 'e + 'b" where
  "bind_result r f = (case r of Inl e \<Rightarrow> Inl e | Inr x \<Rightarrow> f x)"

lemma bind_result_simps [simp]:
  "bind_result (Inl e) f = Inl e"
  "bind_result (Inr x) f = f x"
  by (simp_all add: bind_result_def)

lemma bind_result_Inr: "bind_result r f = Inr y \<longleftrightarrow> (\<exists>x. r = Inr x \<and> f x = Inr y)"
  by (cases r) simp_all

lemma bind_result_Inl:
  "bind_result r f = Inl e \<longleftrightarrow> r = Inl e \<or> (\<exists>x. r = Inr x \<and> f x = Inl e)"
  by (cases r) simp_all

definition ensure :: "bool \<Rightarrow> 'e \<Rightarrow> 'e + unit" where
  "ensure b e = (if b then Inr () else Inl e)"

lemma ensure_simps [simp]: "ensure True e = Inr ()" "ensure False e = Inl e"
  by (simp_all add: ensure_def)

lemma ensure_Inr [simp]: "ensure b e = Inr u \<longleftrightarrow> b"
  by (simp add: ensure_def)

lemma ensure_Inl [simp]: "ensure b e = Inl e' \<longleftrightarrow> \<not> b \<and> e' = e"
  by (auto simp: ensure_def)

text \<open>\<open>[f(x) for x in xs]\<close> where \<open>f\<close> may raise.\<close>

fun map_result :: "('a \<Rightarrow> 'e + 'b) \<Rightarrow> 'a list \<Rightarrow> 'e + 'b list" where
  "map_result f [] = Inr []"
| "map_result f (x # xs) = bind_result (f x) (\<lambda>y. bind_result (map_result f xs) (\<lambda>ys. Inr (y # ys)))"

lemma map_result_Inr: "(\<And>x. x \<in> set xs \<Longrightarrow> f (g x) = Inr x) \<Longrightarrow> map_result f (map g xs) = Inr xs"
  by (induction xs) auto

lemma map_result_InrD: "map_result f xs = Inr ys \<Longrightarrow> list_all2 (\<lambda>x y. f x = Inr y) xs ys"
  by (induction xs arbitrary: ys) (auto simp: bind_result_Inr)

lemma map_result_list_all2: "list_all2 (\<lambda>x y. f x = Inr y) xs ys \<Longrightarrow> map_result f xs = Inr ys"
  by (induction xs ys rule: list_all2_induct) auto

text \<open>A stateful call that may raise: the state it leaves behind, also when it raises, and its
  result.\<close>

type_synonym ('s, 'e, 'a) raising = "'s \<Rightarrow> 's \<times> ('e + 'a)"

definition bind_action :: "('s, 'e, 'a) raising \<Rightarrow> ('a \<Rightarrow> ('s, 'e, 'b) raising) \<Rightarrow> ('s, 'e, 'b) raising" where
  "bind_action m f s = (case m s of (s', r) \<Rightarrow> (case r of Inl e \<Rightarrow> (s', Inl e) | Inr x \<Rightarrow> f x s'))"

definition lift_action :: "'e + 'a \<Rightarrow> ('s, 'e, 'a) raising" where
  "lift_action r s = (s, r)"

definition change_action :: "('s \<Rightarrow> 's) \<Rightarrow> ('s, 'e, unit) raising" where
  "change_action f s = (f s, Inr ())"

lemma lift_action_apply [simp]: "lift_action r s = (s, r)"
  by (simp add: lift_action_def)

lemma change_action_apply [simp]: "change_action f s = (f s, Inr ())"
  by (simp add: change_action_def)

lemma bind_action_Inr:
  "bind_action m f s = (s', Inr y) \<longleftrightarrow> (\<exists>t x. m s = (t, Inr x) \<and> f x t = (s', Inr y))"
  by (auto simp: bind_action_def split: prod.splits sum.splits)

lemma bind_action_ok: "m s = (t, Inr x) \<Longrightarrow> bind_action m f s = f x t"
  by (simp add: bind_action_def)

lemma bind_action_lift [simp]: "bind_action (lift_action (Inr x)) f s = f x s" "bind_action (lift_action (Inl e)) f s = (s, Inl e)"
  "bind_action (change_action g) h s = h () (g s)"
  by (simp_all add: bind_action_def)

text \<open>An action keeps a property of the state when it holds afterwards whatever the result.\<close>

definition keeps :: "('s \<Rightarrow> bool) \<Rightarrow> ('s, 'e, 'a) raising \<Rightarrow> bool" where
  "keeps P m \<longleftrightarrow> (\<forall>s. P s \<longrightarrow> P (fst (m s)))"

named_theorems keeps_intros \<open>actions that keep a property of the state\<close>

lemma keepsI: "(\<And>s. P s \<Longrightarrow> P (fst (m s))) \<Longrightarrow> keeps P m"
  by (simp add: keeps_def)

lemma keepsD: "keeps P m \<Longrightarrow> P s \<Longrightarrow> P (fst (m s))"
  by (simp add: keeps_def)

lemma keeps_bind [keeps_intros]: "keeps P m \<Longrightarrow> (\<And>x. keeps P (f x)) \<Longrightarrow> keeps P (bind_action m f)"
  unfolding keeps_def bind_action_def by (auto split: prod.splits sum.splits)

lemma keeps_lift [keeps_intros]: "keeps P (lift_action r)"
  by (simp add: keeps_def)

section \<open>Dictionaries\<close>

abbreviation keys :: "('k, 'v) dict \<Rightarrow> 'k set" where
  "keys d \<equiv> fst ` set d"

abbreviation dict_values :: "('k, 'v) dict \<Rightarrow> 'v list" where
  "dict_values d \<equiv> map snd d"

definition wf_dict :: "('k, 'v) dict \<Rightarrow> bool" where
  "wf_dict d \<longleftrightarrow> distinct (map fst d)"

lemma wf_dict_Nil [simp]: "wf_dict []"
  by (simp add: wf_dict_def)

lemma wf_dict_Cons [simp]: "wf_dict ((k, v) # d) \<longleftrightarrow> k \<notin> keys d \<and> wf_dict d"
  by (simp add: wf_dict_def)

lemma wf_dict_update [simp]: "wf_dict d \<Longrightarrow> wf_dict (AList.update k v d)"
  by (simp add: wf_dict_def distinct_update)

lemma wf_dict_delete [simp]: "wf_dict d \<Longrightarrow> wf_dict (AList.delete k d)"
  by (simp add: wf_dict_def distinct_delete)

lemma wf_dict_filter [simp]: "wf_dict d \<Longrightarrow> wf_dict (filter P d)"
  by (simp add: wf_dict_def distinct_map_filter)

lemma map_of_update [simp]: "map_of (AList.update k v d) = (map_of d)(k \<mapsto> v)"
  by (simp add: update_conv')

lemma map_of_delete [simp]: "map_of (AList.delete k d) = (map_of d)(k := None)"
  by (simp add: delete_conv')

lemma keys_update [simp]: "keys (AList.update k v d) = insert k (keys d)"
  by (simp add: dom_update)

lemma set_update_subset: "set (AList.update k v d) \<subseteq> insert (k, v) (set d)"
  by (induction d) auto

lemma map_of_None_keys: "map_of d k = None \<longleftrightarrow> k \<notin> keys d"
  by (simp add: map_of_eq_None_iff)

lemma wf_dict_map_of_iff: "wf_dict d \<Longrightarrow> map_of d k = Some v \<longleftrightarrow> (k, v) \<in> set d"
  by (simp add: wf_dict_def)

lemma map_of_SomeD_set: "map_of d k = Some v \<Longrightarrow> (k, v) \<in> set d"
  by (rule map_of_SomeD)

lemma update_new_append: "k \<notin> keys d \<Longrightarrow> AList.update k v d = d @ [(k, v)]"
  by (induction d) auto

lemma update_split:
  "wf_dict (xs @ (k, w) # ys) \<Longrightarrow> AList.update k v (xs @ (k, w) # ys) = xs @ (k, v) # ys"
  by (induction xs) (auto simp: wf_dict_def)

lemma delete_split:
  "wf_dict (xs @ (k, w) # ys) \<Longrightarrow> AList.delete k (xs @ (k, w) # ys) = xs @ ys"
  by (induction xs) (auto simp: wf_dict_def AList.delete_eq filter_id_conv image_iff)

lemma map_of_splitE:
  assumes "map_of d k = Some v"
  obtains xs ys where "d = xs @ (k, v) # ys"
  using map_of_SomeD [OF assms] by (meson split_list)

text \<open>Counting entries, and how an overwrite, an insertion or a deletion changes the count.\<close>

definition count_dict :: "('v \<Rightarrow> bool) \<Rightarrow> ('k, 'v) dict \<Rightarrow> nat" where
  "count_dict P d = length (filter (\<lambda>(k, v). P v) d)"

lemma count_dict_simps [simp]:
  "count_dict P [] = 0"
  "count_dict P ((k, v) # d) = (if P v then Suc (count_dict P d) else count_dict P d)"
  "count_dict P (d @ e) = count_dict P d + count_dict P e"
  by (simp_all add: count_dict_def)

lemma count_dict_update_new:
  "k \<notin> keys d \<Longrightarrow> count_dict P (AList.update k v d) = count_dict P d + (if P v then 1 else 0)"
  by (simp add: update_new_append)

lemma count_dict_update_old:
  assumes "wf_dict d" "map_of d k = Some w"
  shows "count_dict P (AList.update k v d) + (if P w then 1 else 0)
       = count_dict P d + (if P v then 1 else 0)"
proof -
  from assms(2) obtain xs ys where d: "d = xs @ (k, w) # ys" by (rule map_of_splitE)
  with assms(1) show ?thesis by (simp add: update_split)
qed

lemma count_dict_delete:
  assumes "wf_dict d" "map_of d k = Some w"
  shows "count_dict P (AList.delete k d) + (if P w then 1 else 0) = count_dict P d"
proof -
  from assms(2) obtain xs ys where d: "d = xs @ (k, w) # ys" by (rule map_of_splitE)
  with assms(1) show ?thesis by (simp add: delete_split)
qed

lemma count_dict_delete_le: "count_dict P (AList.delete k d) \<le> count_dict P d"
  by (induction d) (auto split: if_splits)

lemma count_dict_map_entry:
  "map_of d k = Some w \<Longrightarrow>
     count_dict P (AList.map_entry k f d) + (if P w then 1 else 0)
     = count_dict P d + (if P (f w) then 1 else 0)"
  by (induction d) (auto split: if_splits)

lemma count_dict_map_entry_same:
  assumes "\<And>v. P (f v) = P v"
  shows "count_dict P (AList.map_entry k f d) = count_dict P d"
proof (cases "map_of d k")
  case None
  then have "AList.map_entry k f d = d" by (induction d) (auto split: if_splits)
  then show ?thesis by simp
next
  case (Some w)
  from count_dict_map_entry [OF Some, of P f] assms [of w] show ?thesis
    by (cases "P w") auto
qed

lemma keys_map_entry [simp]: "keys (AList.map_entry k f d) = keys d"
  by (simp add: dom_map_entry)

lemma wf_dict_map_entry [simp]: "wf_dict (AList.map_entry k f d) = wf_dict d"
proof -
  have "map fst (AList.map_entry k f d) = map fst d" by (induction d) auto
  then show ?thesis by (simp add: wf_dict_def)
qed

lemma map_of_map_entry [simp]:
  "map_of (AList.map_entry k f d) = (map_of d)(k := map_option f (map_of d k))"
  by (induction d) (auto simp: fun_eq_iff)

lemma count_dict_cong:
  "(\<And>k v. (k, v) \<in> set d \<Longrightarrow> P v = Q v) \<Longrightarrow> count_dict P d = count_dict Q d"
  unfolding count_dict_def by (rule arg_cong [where f = length], rule filter_cong) auto

section \<open>Decimal rendering\<close>

definition digit_char :: "nat \<Rightarrow> char" where
  "digit_char n = char_of (48 + n)"

fun str_nat :: "nat \<Rightarrow> string" where
  "str_nat n = (if n < 10 then [digit_char n] else str_nat (n div 10) @ [digit_char (n mod 10)])"

declare str_nat.simps [simp del]

fun nat_of_str :: "string \<Rightarrow> nat" where
  "nat_of_str s = foldl (\<lambda>a c. 10 * a + (of_char c - 48)) 0 s"

lemma of_char_digit: "n < 10 \<Longrightarrow> (of_char (digit_char n) :: nat) = 48 + n"
  by (simp add: digit_char_def)

lemma nat_of_str_nat: "nat_of_str (str_nat n) = n"
proof (induction n rule: str_nat.induct)
  case (1 n)
  show ?case
  proof (cases "n < 10")
    case True
    then show ?thesis by (simp add: str_nat.simps [of n] of_char_digit)
  next
    case False
    with "1.IH" show ?thesis by (simp add: str_nat.simps [of n] of_char_digit)
  qed
qed

lemma str_nat_inject [simp]: "str_nat m = str_nat n \<longleftrightarrow> m = n"
  by (metis nat_of_str_nat)

lemma str_nat_not_Nil [simp]: "str_nat n \<noteq> []"
  by (subst str_nat.simps) simp

definition str_int :: "int \<Rightarrow> string" where
  "str_int i = (if i < 0 then ''-'' @ str_nat (nat (- i)) else str_nat (nat i))"

end
