(* ===== verification/PyValue.thy ===== *)
theory PyValue
  imports Prelude "HOL-Library.Char_ord" "HOL-Library.List_Lexorder"
begin

text \<open>
  Python values and the string functions of the standard library the code uses.

  Strings are \<open>string\<close>: one \<open>char\<close> per code point, code points 0 to 255. A
  \<open>pyval\<close> is what the code calls \<open>Any\<close> after JSON decoding. \<open>py_eq\<close> is
  Python's \<open>==\<close> on such values: booleans, integers and floats compare as numbers,
  dictionaries compare without regard to insertion order. A finite float is the rational its
  shortest decimal \<open>repr\<close> denotes. Strings are ordered by code point
  (\<open>List_Lexorder\<close>), which is the order \<open>sorted\<close> uses.
\<close>

section \<open>Values\<close>

datatype pyfloat = Finite rat | PosInf | NegInf | NaN

datatype pyval =
    PNone
  | PBool bool
  | PInt int
  | PFloat pyfloat
  | PStr string
  | PList "pyval list"
  | PDict "(string \<times> pyval) list"

type_synonym pydict = "(string, pyval) dict"

fun num_of :: "pyval \<Rightarrow> rat option" where
  "num_of (PBool b) = Some (if b then 1 else 0)"
| "num_of (PInt i) = Some (of_int i)"
| "num_of (PFloat (Finite r)) = Some r"
| "num_of _ = None"

fun py_eq :: "pyval \<Rightarrow> pyval \<Rightarrow> bool"
and py_eq_list :: "pyval list \<Rightarrow> pyval list \<Rightarrow> bool"
and py_eq_items :: "(string \<times> pyval) list \<Rightarrow> (string \<times> pyval) list \<Rightarrow> bool" where
  "py_eq PNone b = (b = PNone)"
| "py_eq (PBool x) b = (num_of b = num_of (PBool x))"
| "py_eq (PInt i) b = (num_of b = num_of (PInt i))"
| "py_eq (PFloat f) b = (case f of
      Finite r \<Rightarrow> num_of b = Some r
    | PosInf \<Rightarrow> b = PFloat PosInf
    | NegInf \<Rightarrow> b = PFloat NegInf
    | NaN \<Rightarrow> False)"
| "py_eq (PStr s) b = (b = PStr s)"
| "py_eq (PList xs) b = (case b of PList ys \<Rightarrow> py_eq_list xs ys | _ \<Rightarrow> False)"
| "py_eq (PDict d) b =
     (case b of PDict e \<Rightarrow> length d = length e \<and> py_eq_items d e | _ \<Rightarrow> False)"
| "py_eq_list [] ys = (ys = [])"
| "py_eq_list (x # xs) ys =
     (case ys of [] \<Rightarrow> False | y # zs \<Rightarrow> py_eq x y \<and> py_eq_list xs zs)"
| "py_eq_items [] e = True"
| "py_eq_items ((k, v) # d) e =
     (case map_of e k of None \<Rightarrow> False | Some w \<Rightarrow> py_eq v w \<and> py_eq_items d e)"

text \<open>
  A value is plain when its dictionaries have distinct keys and no float in it is NaN. Every
  value that \<open>json.dumps(..., allow_nan=False)\<close> accepts is plain, and on plain values
  \<open>py_eq\<close> is reflexive.
\<close>

fun plain :: "pyval \<Rightarrow> bool" where
  "plain (PFloat f) = (case f of Finite r \<Rightarrow> True | _ \<Rightarrow> False)"
| "plain (PList xs) = (\<forall>x \<in> set xs. plain x)"
| "plain (PDict d) = (distinct (map fst d) \<and> (\<forall>p \<in> set d. plain (snd p)))"
| "plain _ = True"

lemma py_eq_items_alt:
  "py_eq_items d e \<longleftrightarrow> (\<forall>(k, v) \<in> set d. \<exists>w. map_of e k = Some w \<and> py_eq v w)"
  by (induction d) (auto split: option.splits)

lemma py_eq_list_alt: "py_eq_list xs ys \<longleftrightarrow> list_all2 py_eq xs ys"
  by (induction xs arbitrary: ys) (auto split: list.splits simp: list_all2_Cons1)

lemma py_eq_refl: "plain v \<Longrightarrow> py_eq v v"
proof (induction v rule: plain.induct)
  case (2 xs)
  then show ?case by (auto simp: py_eq_list_alt list_all2_same)
next
  case (3 d)
  then show ?case by (fastforce simp: py_eq_items_alt)
qed (auto split: pyfloat.splits)

text \<open>Truthiness: \<open>bool(v)\<close>.\<close>

fun truthy :: "pyval \<Rightarrow> bool" where
  "truthy PNone = False"
| "truthy (PBool b) = b"
| "truthy (PInt i) = (i \<noteq> 0)"
| "truthy (PFloat f) = (f \<noteq> Finite 0)"
| "truthy (PStr s) = (s \<noteq> [])"
| "truthy (PList xs) = (xs \<noteq> [])"
| "truthy (PDict d) = (d \<noteq> [])"

section \<open>Strings\<close>

text \<open>\<open>str.isspace\<close> on code points 0 to 255.\<close>

definition is_space :: "char \<Rightarrow> bool" where
  "is_space c = (let n = (of_char c :: nat) in
     (9 \<le> n \<and> n \<le> 13) \<or> (28 \<le> n \<and> n \<le> 32) \<or> n = 133 \<or> n = 160)"

definition lstrip :: "string \<Rightarrow> string" where
  "lstrip s = dropWhile is_space s"

definition strip :: "string \<Rightarrow> string" where
  "strip s = rev (dropWhile is_space (rev (dropWhile is_space s)))"

lemma strip_Nil [simp]: "strip [] = []"
  by (simp add: strip_def)

lemma strip_eq_Nil: "strip s = [] \<longleftrightarrow> (\<forall>c \<in> set s. is_space c)"
proof -
  have "strip s = [] \<longleftrightarrow> (\<forall>c \<in> set (dropWhile is_space s). is_space c)"
    by (simp add: strip_def dropWhile_eq_Nil_conv)
  also have "\<dots> \<longleftrightarrow> (\<forall>c \<in> set s. is_space c)"
    by (induction s) auto
  finally show ?thesis .
qed

lemma strip_keeps_prefix:
  assumes "w \<noteq> []" "\<forall>x \<in> set w. \<not> is_space x" "\<not> is_space c"
  shows "\<exists>t. strip (w @ [c] @ rest) = w @ c # t"
proof -
  have "dropWhile is_space (w @ [c] @ rest) = w @ [c] @ rest"
    using assms(1,2) by (cases w) auto
  moreover have "\<exists>t. rev (dropWhile is_space (rev (w @ [c] @ rest))) = w @ c # t"
  proof (induction rest rule: rev_induct)
    case Nil
    show ?case using assms(3) by simp
  next
    case (snoc x xs)
    then show ?case by (cases "is_space x") auto
  qed
  ultimately show ?thesis by (simp add: strip_def)
qed

text \<open>\<open>s.partition(sep)\<close> for a one-character separator: the head, whether the separator
  was found, and the tail.\<close>

definition partition_at :: "char \<Rightarrow> string \<Rightarrow> string \<times> bool \<times> string" where
  "partition_at c s =
     (takeWhile (\<lambda>x. x \<noteq> c) s, c \<in> set s, tl (dropWhile (\<lambda>x. x \<noteq> c) s))"

fun split_on :: "char \<Rightarrow> string \<Rightarrow> string list" where
  "split_on c [] = [[]]"
| "split_on c (x # s) = (case split_on c s of
      [] \<Rightarrow> []
    | w # ws \<Rightarrow> if x = c then [] # w # ws else (x # w) # ws)"

definition replace_char :: "char \<Rightarrow> char \<Rightarrow> string \<Rightarrow> string" where
  "replace_char a b s = map (\<lambda>c. if c = a then b else c) s"

fun join :: "string \<Rightarrow> string list \<Rightarrow> string" where
  "join sep [] = []"
| "join sep [x] = x"
| "join sep (x # y # xs) = x @ sep @ join sep (y # xs)"

lemma split_on_not_Nil [simp]: "split_on c s \<noteq> []"
  by (induction s) (auto split: list.splits)

lemma join_split_on: "join [c] (split_on c s) = s"
proof (induction s)
  case (Cons x s)
  show ?case
  proof (cases "split_on c s")
    case (Cons w ws)
    with Cons.IH show ?thesis by (cases ws) auto
  qed simp
qed simp

lemma partition_at_join:
  "partition_at c s = (a, True, b) \<Longrightarrow> s = a @ c # b \<and> c \<notin> set a"
  unfolding partition_at_def
  by (induction s arbitrary: a) (auto split: if_splits)

lemma partition_at_append: "c \<notin> set a \<Longrightarrow> partition_at c (a @ c # b) = (a, True, b)"
  unfolding partition_at_def by (induction a) auto

section \<open>Rendering: \<open>repr\<close>, \<open>str\<close> and \<open>json.dumps\<close>\<close>

definition hex_digit :: "nat \<Rightarrow> char" where
  "hex_digit n = (if n < 10 then char_of (48 + n) else char_of (87 + n))"

definition hex2 :: "nat \<Rightarrow> string" where
  "hex2 n = [hex_digit (n div 16), hex_digit (n mod 16)]"

text \<open>The decimal digits of a float: the least number of decimals that represents it exactly, and
  the positional or scientific notation \<open>repr\<close> chooses from its exponent.\<close>

fun decimals :: "nat \<Rightarrow> rat \<Rightarrow> nat" where
  "decimals 0 r = 0"
| "decimals (Suc fuel) r = (if r = of_int \<lfloor>r\<rfloor> then 0 else Suc (decimals fuel (r * 10)))"

definition float_digits :: "rat \<Rightarrow> string \<times> int" where
  "float_digits r = (let k = decimals 400 r; ds = str_nat (nat \<lfloor>r * 10 ^ k\<rfloor>)
     in (ds, int (length ds) - 1 - int k))"

definition rstrip_zeros :: "string \<Rightarrow> string" where
  "rstrip_zeros ds = rev (dropWhile (\<lambda>c. c = CHR ''0'') (rev ds))"

definition unsigned_float_repr :: "rat \<Rightarrow> string" where
  "unsigned_float_repr r = (case float_digits r of (ds, e) \<Rightarrow>
     if - 4 \<le> e \<and> e < 16 then
       (if e < 0 then ''0.'' @ replicate (nat (- e - 1)) CHR ''0'' @ dropWhile (\<lambda>c. c = CHR ''0'') ds
        else (let (a, b) = (take (nat e + 1) ds, drop (nat e + 1) ds)
              in a @ ''.'' @ (if b = [] then ''0'' else b)))
     else (let m = rstrip_zeros ds; x = str_nat (nat \<bar>e\<bar>)
           in take 1 m @ (if length m = 1 then [] else ''.'' @ drop 1 m) @ ''e''
              @ (if e < 0 then ''-'' else ''+'') @ (if length x = 1 then ''0'' @ x else x)))"

fun float_repr :: "pyfloat \<Rightarrow> string" where
  "float_repr (Finite r) =
     (if r = 0 then ''0.0'' else if r < 0 then ''-'' @ unsigned_float_repr (- r)
      else unsigned_float_repr r)"
| "float_repr PosInf = ''inf''"
| "float_repr NegInf = ''-inf''"
| "float_repr NaN = ''nan''"

definition repr_char :: "char \<Rightarrow> char \<Rightarrow> string" where
  "repr_char q c = (let n = (of_char c :: nat) in
     if c = q \<or> c = CHR 0x5C then [CHR 0x5C, c]
     else if n = 10 then [CHR 0x5C, CHR ''n''] else if n = 13 then [CHR 0x5C, CHR ''r'']
     else if n = 9 then [CHR 0x5C, CHR ''t'']
     else if n < 32 \<or> (127 \<le> n \<and> n \<le> 160) \<or> n = 173 then [CHR 0x5C, CHR ''x''] @ hex2 n
     else [c])"

definition str_repr :: "string \<Rightarrow> string" where
  "str_repr s = (let q = (if CHR 0x27 \<in> set s \<and> CHR 0x22 \<notin> set s then CHR 0x22 else CHR 0x27)
     in [q] @ concat (map (repr_char q) s) @ [q])"

fun py_repr :: "pyval \<Rightarrow> string" where
  "py_repr PNone = ''None''"
| "py_repr (PBool b) = (if b then ''True'' else ''False'')"
| "py_repr (PInt i) = str_int i"
| "py_repr (PFloat f) = float_repr f"
| "py_repr (PStr s) = str_repr s"
| "py_repr (PList xs) = ''['' @ join '', '' (map py_repr xs) @ '']''"
| "py_repr (PDict d) =
     ''{'' @ join '', '' (map (\<lambda>p. str_repr (fst p) @ '': '' @ py_repr (snd p)) d) @ ''}''"

definition py_str :: "pyval \<Rightarrow> string" where
  "py_str v = (case v of PStr s \<Rightarrow> s | _ \<Rightarrow> py_repr v)"

lemma py_str_PStr [simp]: "py_str (PStr s) = s"
  by (simp add: py_str_def)

text \<open>\<open>str(d.get(k) or "")\<close>, the reading every \<open>from_dict\<close> of the code uses.\<close>

definition get_str :: "pydict \<Rightarrow> string \<Rightarrow> string" where
  "get_str d k = (case map_of d k of
      None \<Rightarrow> [] | Some v \<Rightarrow> if truthy v then py_str v else [])"

text \<open>\<open>json.dumps(v, ensure_ascii=False, separators=(",", ":"), sort_keys=True)\<close>.\<close>

definition json_char :: "char \<Rightarrow> string" where
  "json_char c = (let n = (of_char c :: nat) in
     if n = 34 \<or> n = 92 then [CHR 0x5C, c]
     else if n = 10 then [CHR 0x5C, CHR ''n''] else if n = 13 then [CHR 0x5C, CHR ''r'']
     else if n = 9 then [CHR 0x5C, CHR ''t''] else if n = 8 then [CHR 0x5C, CHR ''b'']
     else if n = 12 then [CHR 0x5C, CHR ''f'']
     else if n < 32 then [CHR 0x5C, CHR ''u'', CHR ''0'', CHR ''0''] @ hex2 n
     else [c])"

definition json_str :: "string \<Rightarrow> string" where
  "json_str s = CHR 0x22 # concat (map json_char s) @ [CHR 0x22]"

fun json_float :: "pyfloat \<Rightarrow> string" where
  "json_float (Finite r) = float_repr (Finite r)"
| "json_float PosInf = ''Infinity''"
| "json_float NegInf = ''-Infinity''"
| "json_float NaN = ''NaN''"

fun json_text :: "pyval \<Rightarrow> string" where
  "json_text PNone = ''null''"
| "json_text (PBool b) = (if b then ''true'' else ''false'')"
| "json_text (PInt i) = str_int i"
| "json_text (PFloat f) = json_float f"
| "json_text (PStr s) = json_str s"
| "json_text (PList xs) = ''['' @ join '','' (map json_text xs) @ '']''"
| "json_text (PDict d) =
     ''{'' @ join '','' (map (\<lambda>q. json_str (fst q) @ '':'' @ snd q)
        (sort_key fst (map (\<lambda>p. (fst p, json_text (snd p))) d))) @ ''}''"

text \<open>One character of a JSON string literal can be read back, so the literal determines the string
  and where it ends.\<close>

definition hex_value :: "char \<Rightarrow> nat" where
  "hex_value c = (let n = of_char c in if n < 58 then n - 48 else n - 87)"

definition json_unchar :: "string \<Rightarrow> char \<times> string" where
  "json_unchar s = (if hd s = CHR 0x5C then
       (let d = s ! 1; r = drop 2 s in
        if d = CHR ''n'' then (char_of (10::nat), r) else if d = CHR ''r'' then (char_of (13::nat), r)
        else if d = CHR ''t'' then (char_of (9::nat), r) else if d = CHR ''b'' then (char_of (8::nat), r)
        else if d = CHR ''f'' then (char_of (12::nat), r)
        else if d = CHR ''u'' then (char_of (16 * hex_value (s ! 4) + hex_value (s ! 5)), drop 6 s)
        else (d, r))
     else (hd s, tl s))"

lemma hex_value_digit: "n < 16 \<Longrightarrow> hex_value (hex_digit n) = n"
  by (simp add: hex_value_def hex_digit_def)

lemma of_char_eqD: "(of_char c :: nat) = n \<Longrightarrow> c = char_of n"
  by auto

lemma json_unchar_char: "json_unchar (json_char c @ r) = (c, r)"
proof -
  let ?n = "of_char c :: nat"
  consider "?n = 34" | "?n = 92" | "?n = 10" | "?n = 13" | "?n = 9" | "?n = 8" | "?n = 12"
    | "?n < 32" "?n \<notin> {10, 13, 9, 8, 12}" | "32 \<le> ?n" "?n \<noteq> 34" "?n \<noteq> 92" by fastforce
  then show ?thesis
  proof cases
    case 8
    then have "json_char c = [CHR 0x5C, CHR ''u'', CHR ''0'', CHR ''0''] @ hex2 ?n"
      by (simp add: json_char_def Let_def)
    moreover have "?n div 16 < 16" "?n mod 16 < 16" using 8 by simp_all
    moreover have "16 * (?n div 16) + ?n mod 16 = ?n" by simp
    ultimately show ?thesis
      by (simp add: json_unchar_def hex2_def hex_value_digit del: mult_div_mod_eq)
  next
    case 9
    then have "c \<noteq> CHR 0x5C" by auto
    with 9 show ?thesis by (simp add: json_char_def json_unchar_def Let_def)
  qed (auto simp: json_char_def json_unchar_def dest: of_char_eqD)
qed

lemma json_char_hd: "json_char c \<noteq> [] \<and> hd (json_char c) \<noteq> CHR 0x22"
  by (cases "c = CHR 0x22") (auto simp: json_char_def Let_def)

lemma json_str_body:
  "concat (map json_char s) @ CHR 0x22 # r = concat (map json_char t) @ CHR 0x22 # u \<Longrightarrow> s = t \<and> r = u"
proof (induction s arbitrary: t)
  case Nil
  show ?case
  proof (cases t)
    case (Cons d v)
    with Nil show ?thesis using json_char_hd [of d] by (cases "json_char d") auto
  qed (use Nil in simp)
next
  case (Cons c s)
  show ?case
  proof (cases t)
    case Nil
    with Cons.prems show ?thesis using json_char_hd [of c] by (cases "json_char c") auto
  next
    case t: (Cons d v)
    with Cons.prems have "json_char c @ (concat (map json_char s) @ CHR 0x22 # r)
        = json_char d @ (concat (map json_char v) @ CHR 0x22 # u)" by simp
    from this [THEN arg_cong [where f = json_unchar]]
    have "c = d" "concat (map json_char s) @ CHR 0x22 # r = concat (map json_char v) @ CHR 0x22 # u"
      by (simp_all add: json_unchar_char)
    with Cons.IH t show ?thesis by blast
  qed
qed

lemma json_str_prefix: "json_str s @ r = json_str t @ u \<longleftrightarrow> s = t \<and> r = u"
  using json_str_body [of s r t u] by (auto simp: json_str_def)
lemma json_str_inject [simp]: "json_str s = json_str t \<longleftrightarrow> s = t"
  using json_str_prefix [of s "[]" t "[]"] by simp

section \<open>Reading values\<close>

definition py_get :: "pydict \<Rightarrow> string \<Rightarrow> pyval" where
  "py_get d k = (case map_of d k of None \<Rightarrow> PNone | Some v \<Rightarrow> v)"

definition unhashable :: "pyval \<Rightarrow> bool" where
  "unhashable v = (case v of PList _ \<Rightarrow> True | PDict _ \<Rightarrow> True | _ \<Rightarrow> False)"

text \<open>Iterating a value: lists give their items, strings their characters, dictionaries their keys;
  other values raise \<open>TypeError\<close>.\<close>

fun py_iter :: "pyval \<Rightarrow> pyval list option" where
  "py_iter (PList xs) = Some xs"
| "py_iter (PStr s) = Some (map (\<lambda>c. PStr [c]) s)"
| "py_iter (PDict d) = Some (map (\<lambda>p. PStr (fst p)) d)"
| "py_iter _ = None"

definition dict_items :: "pyval list \<Rightarrow> pydict list" where
  "dict_items vs = concat (map (\<lambda>v. case v of PDict d \<Rightarrow> [d] | _ \<Rightarrow> []) vs)"

lemma dict_items_map [simp]: "dict_items (map PDict ds) = ds"
  by (induction ds) (auto simp: dict_items_def)

text \<open>\<open>int(v)\<close>: digits with an optional sign and single underscores between them.\<close>

definition is_digit :: "char \<Rightarrow> bool" where
  "is_digit c = (let n = (of_char c :: nat) in 48 \<le> n \<and> n \<le> 57)"

fun digits_ok :: "string \<Rightarrow> bool" where
  "digits_ok [] = False"
| "digits_ok [c] = is_digit c"
| "digits_ok (c # d # s) = (is_digit c \<and>
      (if d = CHR ''_'' then digits_ok s else digits_ok (d # s)))"

definition parse_int :: "string \<Rightarrow> int option" where
  "parse_int s = (let t = strip s;
     (sgn, body) = (case t of
         c # r \<Rightarrow> if c = CHR ''-'' then (- 1, r) else if c = CHR ''+'' then (1, r) else (1, t)
       | [] \<Rightarrow> (1, t))
     in if digits_ok body then Some (sgn * int (nat_of_str (filter is_digit body))) else None)"

fun py_int :: "pyval \<Rightarrow> int option" where
  "py_int (PBool b) = Some (if b then 1 else 0)"
| "py_int (PInt i) = Some i"
| "py_int (PFloat (Finite r)) = Some (if 0 \<le> r then \<lfloor>r\<rfloor> else \<lceil>r\<rceil>)"
| "py_int (PStr s) = parse_int s"
| "py_int _ = None"

text \<open>\<open>any(f(x) for x in xs)\<close> where \<open>f\<close> may raise.\<close>

fun any_result :: "('a \<Rightarrow> 'e + bool) \<Rightarrow> 'a list \<Rightarrow> 'e + bool" where
  "any_result f [] = Inr False"
| "any_result f (x # xs) = bind_result (f x) (\<lambda>b. if b then Inr True else any_result f xs)"

lemma any_result_False: "any_result f xs = Inr False \<longleftrightarrow> (\<forall>x \<in> set xs. f x = Inr False)"
  by (induction xs) (auto simp: bind_result_Inr)

end
