(* ===== verification/JobBase.thy ===== *)
theory JobBase
  imports PyValue
begin

text \<open>
  The job lifecycle contract of \<open>backend/src/jobs/base.py\<close>: job states and kinds, the
  immutable snapshot \<open>JobInfo\<close>, the notification \<open>JobStateChange\<close> and the state
  machine of the abstract class \<open>Job\<close>.

  A \<open>Job\<close> object is the record \<open>job\<close>. Every method takes the clock value it would
  read as an argument and returns the updated job together with the notification that
  \<open>_notify\<close> dispatches outside the lock: \<open>None\<close> when there are no listeners, otherwise
  the set of listeners and the change they receive. Listener identities are natural numbers.
  \<open>cancel\<close> also says whether the carrier's \<open>_request_cancel\<close> is called.
\<close>

section \<open>States, kinds, snapshots\<close>

datatype JobState = PENDING | RUNNING | SUCCEEDED | FAILED | CANCELLED

fun JobState_value :: "JobState \<Rightarrow> string" where
  "JobState_value PENDING = ''pending''"
| "JobState_value RUNNING = ''running''"
| "JobState_value SUCCEEDED = ''succeeded''"
| "JobState_value FAILED = ''failed''"
| "JobState_value CANCELLED = ''cancelled''"

datatype JobKind = SUBPROCESS_KIND | THREAD_KIND | SERVICE_KIND

definition TERMINAL_STATES :: "JobState set" where
  "TERMINAL_STATES = {SUCCEEDED, FAILED, CANCELLED}"

datatype JobStateError = JobStateError string string string

record JobInfo =
  info_id :: string
  info_kind :: JobKind
  info_state :: JobState
  info_started_at :: "timestamp option"
  info_finished_at :: "timestamp option"
  info_error :: "string option"
  info_pids :: "int list"
  info_exit_code :: "int option"
  info_cancel_requested_at :: "timestamp option"
  info_health :: "string option"
  info_sandbox :: "pydict option"

record JobStateChange =
  job_info :: JobInfo
  previous_state :: JobState
  reason :: string

type_synonym notification = "(nat set \<times> JobStateChange) option"

record job =
  j_id :: string
  j_kind :: JobKind
  j_listeners :: "nat set"
  j_done :: bool
  j_state :: JobState
  j_started_at :: "timestamp option"
  j_finished_at :: "timestamp option"
  j_error :: "string option"
  j_pids :: "int list"
  j_exit_code :: "int option"
  j_cancel_requested_at :: "timestamp option"
  j_sandbox :: "pydict option"

section \<open>Operations\<close>

definition new_job :: "string \<Rightarrow> JobKind \<Rightarrow> nat option \<Rightarrow> job" where
  "new_job job_id kind listener = \<lparr>
     j_id = job_id, j_kind = kind,
     j_listeners = (case listener of None \<Rightarrow> {} | Some l \<Rightarrow> {l}),
     j_done = False, j_state = PENDING, j_started_at = None, j_finished_at = None,
     j_error = None, j_pids = [], j_exit_code = None, j_cancel_requested_at = None,
     j_sandbox = None\<rparr>"

definition info :: "job \<Rightarrow> JobInfo" where
  "info j = \<lparr>
     info_id = j_id j, info_kind = j_kind j, info_state = j_state j,
     info_started_at = j_started_at j, info_finished_at = j_finished_at j,
     info_error = j_error j, info_pids = j_pids j, info_exit_code = j_exit_code j,
     info_cancel_requested_at = j_cancel_requested_at j, info_health = None,
     info_sandbox = j_sandbox j\<rparr>"

definition notify :: "job \<Rightarrow> JobState \<Rightarrow> string \<Rightarrow> notification" where
  "notify j previous rsn =
     (if j_listeners j = {} then None
      else Some (j_listeners j,
                 \<lparr>job_info = info j, previous_state = previous, reason = rsn\<rparr>))"

definition require :: "job \<Rightarrow> JobState \<Rightarrow> JobState \<Rightarrow> JobStateError + unit" where
  "require j expected target =
     ensure (j_state j = expected)
       (JobStateError (j_id j) (JobState_value (j_state j)) (JobState_value target))"

definition mark_running :: "timestamp \<Rightarrow> job \<Rightarrow> JobStateError + (job \<times> notification)" where
  "mark_running now j =
     bind_result (require j PENDING RUNNING) (\<lambda>_.
       let j' = j\<lparr>j_state := RUNNING, j_started_at := Some now\<rparr>
       in Inr (j', notify j' PENDING ''started''))"

definition start :: "timestamp \<Rightarrow> job \<Rightarrow> JobStateError + (job \<times> notification)" where
  "start now j = mark_running now j"

definition finish ::
    "timestamp \<Rightarrow> JobState \<Rightarrow> int option \<Rightarrow> int list \<Rightarrow> job \<Rightarrow> JobStateError + (job \<times> notification)"
  where
  "finish now st code ps j =
     bind_result (require j RUNNING st) (\<lambda>_.
       let j' = j\<lparr>j_state := st, j_exit_code := code, j_pids := ps,
                  j_finished_at := Some now, j_done := True\<rparr>
       in Inr (j', notify j' RUNNING (JobState_value st)))"

definition mark_succeeded ::
    "timestamp \<Rightarrow> int option \<Rightarrow> int list \<Rightarrow> job \<Rightarrow> JobStateError + (job \<times> notification)" where
  "mark_succeeded now code ps j = finish now SUCCEEDED code ps j"

definition mark_cancelled ::
    "timestamp \<Rightarrow> int option \<Rightarrow> int list \<Rightarrow> job \<Rightarrow> JobStateError + (job \<times> notification)" where
  "mark_cancelled now code ps j = finish now CANCELLED code ps j"

text \<open>\<open>err\<close> is the text the injected \<open>ErrorFormatter\<close> makes of the exception.\<close>

definition mark_failed ::
    "timestamp \<Rightarrow> string \<Rightarrow> int option \<Rightarrow> int list \<Rightarrow> job \<Rightarrow> JobStateError + (job \<times> notification)"
  where
  "mark_failed now err code ps j =
     bind_result (require j RUNNING FAILED) (\<lambda>_.
       let j' = j\<lparr>j_state := FAILED, j_error := Some err, j_exit_code := code, j_pids := ps,
                  j_finished_at := Some now, j_done := True\<rparr>
       in Inr (j', notify j' RUNNING ''failed''))"

record cancel_result =
  c_job :: job
  c_notification :: notification
  c_request_stop :: bool
  c_accepted :: bool

definition cancel :: "timestamp \<Rightarrow> job \<Rightarrow> cancel_result" where
  "cancel now j =
     (if j_state j = PENDING then
        let j' = j\<lparr>j_state := CANCELLED, j_finished_at := Some now, j_done := True\<rparr>
        in \<lparr>c_job = j', c_notification = notify j' PENDING ''cancelled'',
            c_request_stop = False, c_accepted = True\<rparr>
      else if j_state j = RUNNING then
        let j' = (if j_cancel_requested_at j = None
                  then j\<lparr>j_cancel_requested_at := Some now\<rparr> else j)
        in \<lparr>c_job = j', c_notification = notify j' RUNNING ''cancellation_requested'',
            c_request_stop = True, c_accepted = True\<rparr>
      else \<lparr>c_job = j, c_notification = None, c_request_stop = False, c_accepted = False\<rparr>)"

text \<open>
  \<open>wait\<close> blocks on the event that the terminal transitions set; \<open>signalled\<close> says
  whether another thread sets it before the timeout.
\<close>

definition wait :: "bool \<Rightarrow> job \<Rightarrow> bool" where
  "wait signalled j \<longleftrightarrow> j_state j \<in> TERMINAL_STATES \<or> j_done j \<or> signalled"

text \<open>\<open>close\<close> cancels and waits; waiting itself changes nothing of the job.\<close>

definition close :: "timestamp \<Rightarrow> job \<Rightarrow> cancel_result" where
  "close now j =
     (if info_state (info j) \<notin> TERMINAL_STATES then cancel now j
      else \<lparr>c_job = j, c_notification = None, c_request_stop = False, c_accepted = False\<rparr>)"

definition add_listener :: "nat \<Rightarrow> job \<Rightarrow> job" where
  "add_listener l j = j\<lparr>j_listeners := insert l (j_listeners j)\<rparr>"

definition remove_listener :: "nat \<Rightarrow> job \<Rightarrow> job" where
  "remove_listener l j = j\<lparr>j_listeners := j_listeners j - {l}\<rparr>"

definition set_process_info :: "int list \<Rightarrow> int option \<Rightarrow> job \<Rightarrow> job" where
  "set_process_info ps code j =
     (let j' = j\<lparr>j_pids := ps\<rparr>
      in if code = None then j' else j'\<lparr>j_exit_code := code\<rparr>)"

definition set_sandbox_info :: "pydict option \<Rightarrow> job \<Rightarrow> job" where
  "set_sandbox_info v j = j\<lparr>j_sandbox := v\<rparr>"

lemmas job_ops = start_def mark_running_def finish_def mark_succeeded_def mark_cancelled_def
  mark_failed_def cancel_def close_def add_listener_def remove_listener_def
  set_process_info_def set_sandbox_info_def require_def info_def

section \<open>The state machine\<close>

text \<open>One step is one call of a public method or of a protected helper by the adapter.\<close>

inductive job_step :: "job \<Rightarrow> job \<Rightarrow> bool" where
  step_start: "start now j = Inr (j', n) \<Longrightarrow> job_step j j'"
| step_succeeded: "mark_succeeded now code ps j = Inr (j', n) \<Longrightarrow> job_step j j'"
| step_failed: "mark_failed now err code ps j = Inr (j', n) \<Longrightarrow> job_step j j'"
| step_cancelled: "mark_cancelled now code ps j = Inr (j', n) \<Longrightarrow> job_step j j'"
| step_cancel: "job_step j (c_job (cancel now j))"
| step_close: "job_step j (c_job (close now j))"
| step_add: "job_step j (add_listener l j)"
| step_remove: "job_step j (remove_listener l j)"
| step_process: "job_step j (set_process_info ps code j)"
| step_sandbox: "job_step j (set_sandbox_info v j)"

inductive job_reachable :: "job \<Rightarrow> bool" where
  reach_new: "job_reachable (new_job i k l)"
| reach_step: "job_reachable j \<Longrightarrow> job_step j j' \<Longrightarrow> job_reachable j'"

text \<open>What the fields say about each other.\<close>

definition job_inv :: "job \<Rightarrow> bool" where
  "job_inv j \<longleftrightarrow>
     (j_done j \<longleftrightarrow> j_state j \<in> TERMINAL_STATES) \<and>
     (j_finished_at j \<noteq> None \<longleftrightarrow> j_state j \<in> TERMINAL_STATES) \<and>
     (j_state j \<in> {RUNNING, SUCCEEDED, FAILED} \<longrightarrow> j_started_at j \<noteq> None) \<and>
     (j_state j = PENDING \<longrightarrow> j_started_at j = None) \<and>
     (j_error j \<noteq> None \<longleftrightarrow> j_state j = FAILED) \<and>
     (j_cancel_requested_at j \<noteq> None \<longrightarrow> j_started_at j \<noteq> None)"

lemma job_inv_new: "job_inv (new_job i k l)"
  by (simp add: job_inv_def new_job_def TERMINAL_STATES_def)

lemma job_inv_step: "job_step j j' \<Longrightarrow> job_inv j \<Longrightarrow> job_inv j'"
  by (induction rule: job_step.induct)
    (auto simp: job_ops job_inv_def TERMINAL_STATES_def bind_result_Inr Let_def)

text \<open>The allowed moves between states.\<close>

definition allowed_moves :: "(JobState \<times> JobState) set" where
  "allowed_moves = {(PENDING, RUNNING), (PENDING, CANCELLED), (RUNNING, SUCCEEDED),
                    (RUNNING, FAILED), (RUNNING, CANCELLED)}"

lemma job_step_move:
  "job_step j j' \<Longrightarrow> j_state j' = j_state j \<or> (j_state j, j_state j') \<in> allowed_moves"
  by (induction rule: job_step.induct)
    (auto simp: job_ops allowed_moves_def bind_result_Inr Let_def TERMINAL_STATES_def)

lemma job_step_terminal:
  "job_step j j' \<Longrightarrow> j_state j \<in> TERMINAL_STATES \<Longrightarrow>
     j_state j' = j_state j \<and> j_finished_at j' = j_finished_at j \<and> j_error j' = j_error j"
  by (induction rule: job_step.induct)
    (auto simp: job_ops TERMINAL_STATES_def bind_result_Inr Let_def)

lemma job_id_step: "job_step j j' \<Longrightarrow> j_id j' = j_id j"
  by (induction rule: job_step.induct)
    (auto simp: job_ops bind_result_Inr Let_def)

text \<open>In every state a job can reach from its construction, whatever its carrier calls and in
  whatever order, the fields agree: the done event is set exactly in the terminal states, so is
  \<open>finished_at\<close>; a started job has \<open>started_at\<close>; an error text is present exactly on
  failed jobs; a recorded cancellation request implies that the job was started.
\<close>

theorem job_reachable_inv: "job_reachable j \<Longrightarrow> job_inv j"
  by (induction rule: job_reachable.induct) (auto intro: job_inv_new job_inv_step)

theorem job_reachable_inv_witness:
  "job_inv (c_job (cancel 7 (new_job ''job-1'' THREAD_KIND None)))"
proof -
  have "job_reachable (c_job (cancel 7 (new_job ''job-1'' THREAD_KIND None)))"
    by (rule reach_step [OF reach_new step_cancel])
  then show ?thesis by (rule job_reachable_inv)
qed

text \<open>Terminal states are final: after any number of further calls a terminal job still has the
  same state, the same finish time and the same error text.
\<close>

theorem job_terminal_final:
  assumes "job_step\<^sup>*\<^sup>* j j'" and "j_state j \<in> TERMINAL_STATES"
  shows "j_state j' = j_state j \<and> j_finished_at j' = j_finished_at j \<and> j_error j' = j_error j"
  using assms
proof (induction rule: rtranclp_induct)
  case base
  then show ?case by simp
next
  case (step y z)
  then show ?case using job_step_terminal [of y z] by simp
qed

theorem job_terminal_final_witness:
  "j_state (set_process_info [4] None (c_job (cancel 7 (new_job ''a'' THREAD_KIND None)))) = CANCELLED"
proof -
  let ?j = "c_job (cancel 7 (new_job ''a'' THREAD_KIND None))"
  have st: "j_state ?j = CANCELLED" by (simp add: cancel_def new_job_def Let_def)
  have "job_step\<^sup>*\<^sup>* ?j (set_process_info [4] None ?j)"
    by (rule r_into_rtranclp, rule step_process)
  from job_terminal_final [OF this] st show ?thesis by (simp add: TERMINAL_STATES_def)
qed

end
