(* ===== verification/JobScope.thy ===== *)
theory JobScope
  imports JobBase
begin

text \<open>
  Ownership scopes (\<open>backend/src/jobs/scope.py\<close>) and the scheduling vocabulary
  (\<open>backend/src/jobs/scheduling.py\<close>): lanes, slot and queue modes, limits, admission
  policies and slot leases.

  A \<open>JobScope\<close> object is immutable and points to its parent, so a scope is a datatype value
  that contains its ancestors; the walks along \<open>parent\<close> are structural recursions. The
  object identity \<open>is\<close> of the code is equality of scopes: the registry gives every scope a
  fresh \<open>scope_id\<close>.
\<close>

section \<open>Scopes and owners\<close>

datatype JobScopeKind = SYSTEM | SESSION | THREAD | RUN | TASK

record JobOwner =
  session_id :: "string option"
  thread_id :: "string option"
  run_id :: "string option"

datatype JobScope =
  JobScope (scope_id: string) (scope_kind: JobScopeKind) (scope_parent: "JobScope option")
    (scope_parent_job_id: "string option") (scope_owner: JobOwner)

datatype RegistryError =
    JobRegistrationError string
  | JobNotFound string
  | JobScopeClosed string
  | JobAdmissionRejected string
  | JobAdmissionTimeout string
  | JobQueueFull string
  | ScopeValueError string
  | StartRaised string
  | Hangs

definition merge_field :: "string option \<Rightarrow> string option \<Rightarrow> RegistryError + string option" where
  "merge_field inherited given =
     (if given \<noteq> None \<and> inherited \<noteq> None \<and> inherited \<noteq> given
      then Inl (ScopeValueError ''cannot override inherited owner field'')
      else Inr (if given = None then inherited else given))"

definition merge_owner ::
    "JobOwner \<Rightarrow> string option \<Rightarrow> string option \<Rightarrow> string option \<Rightarrow> RegistryError + JobOwner"
  where
  "merge_owner parent sess thr rn =
     bind_result (merge_field (session_id parent) sess) (\<lambda>s.
     bind_result (merge_field (thread_id parent) thr) (\<lambda>t.
     bind_result (merge_field (run_id parent) rn) (\<lambda>r.
       Inr \<lparr>session_id = s, thread_id = t, run_id = r\<rparr>)))"

fun depth :: "JobScope \<Rightarrow> nat" where
  "depth (JobScope _ _ None _ _) = 0"
| "depth (JobScope _ _ (Some p) _ _) = Suc (depth p)"

text \<open>The scope itself and its ancestors, innermost first.\<close>

fun scope_chain :: "JobScope \<Rightarrow> JobScope list" where
  "scope_chain (JobScope i k None pj ow) = [JobScope i k None pj ow]"
| "scope_chain (JobScope i k (Some p) pj ow) = JobScope i k (Some p) pj ow # scope_chain p"

text \<open>\<open>_thread_key_locked\<close>: the id of the nearest thread scope.\<close>

fun thread_key :: "JobScope \<Rightarrow> string option" where
  "thread_key (JobScope i k None _ _) = (if k = THREAD then Some i else None)"
| "thread_key (JobScope i k (Some p) _ _) = (if k = THREAD then Some i else thread_key p)"

text \<open>\<open>_scope_contains_locked\<close>.\<close>

fun scope_contains :: "JobScope \<Rightarrow> JobScope \<Rightarrow> bool" where
  "scope_contains ancestor (JobScope i k None pj ow) =
     (JobScope i k None pj ow = ancestor)"
| "scope_contains ancestor (JobScope i k (Some p) pj ow) =
     (JobScope i k (Some p) pj ow = ancestor \<or> scope_contains ancestor p)"

lemma scope_contains_chain: "scope_contains a s \<longleftrightarrow> a \<in> set (scope_chain s)"
  by (induction s rule: scope_chain.induct) auto

lemma depth_chain: "depth s = length (scope_chain s) - 1"
proof -
  have "Suc (depth s) = length (scope_chain s)"
    by (induction s rule: scope_chain.induct) auto
  then show ?thesis by simp
qed

lemma scope_contains_refl [simp]: "scope_contains s s"
  by (cases s rule: scope_chain.cases) auto

lemma scope_contains_depth: "scope_contains a s \<Longrightarrow> depth a \<le> depth s"
  by (induction a s rule: scope_contains.induct) auto

lemma scope_contains_trans:
  "scope_contains b c \<Longrightarrow> scope_contains a b \<Longrightarrow> scope_contains a c"
  by (induction b c rule: scope_contains.induct) auto

lemma thread_key_chain:
  "thread_key s = map_option scope_id (List.find (\<lambda>x. scope_kind x = THREAD) (scope_chain s))"
  by (induction s rule: scope_chain.induct) auto

lemma merge_owner_defined:
  "(\<exists>ow. merge_owner parent sess thr rn = Inr ow) \<longleftrightarrow>
     (sess = None \<or> session_id parent \<in> {None, sess}) \<and>
     (thr = None \<or> thread_id parent \<in> {None, thr}) \<and>
     (rn = None \<or> run_id parent \<in> {None, rn})"
  by (auto simp: merge_owner_def merge_field_def bind_result_Inr split: if_splits)

lemma merge_owner_keeps:
  "merge_owner parent sess thr rn = Inr ow \<Longrightarrow>
     (session_id parent \<noteq> None \<longrightarrow> session_id ow = session_id parent) \<and>
     (thread_id parent \<noteq> None \<longrightarrow> thread_id ow = thread_id parent) \<and>
     (run_id parent \<noteq> None \<longrightarrow> run_id ow = run_id parent)"
  by (auto simp: merge_owner_def merge_field_def bind_result_Inr split: if_splits)

section \<open>Lanes, limits and leases\<close>

datatype JobLane = FOREGROUND | BACKGROUND | SERVICE

datatype SlotMode = COUNTED | INHERIT | UNMETERED

datatype QueueMode = WAIT | REJECT

record LaneLimits =
  max_running :: int
  max_queued :: int

record JobLimitPolicy =
  system_limits :: "JobLane \<Rightarrow> LaneLimits"
  session_limits :: "JobLane \<Rightarrow> LaneLimits"
  thread_limits :: "JobLane \<Rightarrow> LaneLimits"

fun default_system :: "JobLane \<Rightarrow> LaneLimits" where
  "default_system FOREGROUND = \<lparr>max_running = 8, max_queued = 256\<rparr>"
| "default_system BACKGROUND = \<lparr>max_running = 2, max_queued = 256\<rparr>"
| "default_system SERVICE = \<lparr>max_running = 16, max_queued = 256\<rparr>"

fun default_session :: "JobLane \<Rightarrow> LaneLimits" where
  "default_session FOREGROUND = \<lparr>max_running = 4, max_queued = 32\<rparr>"
| "default_session BACKGROUND = \<lparr>max_running = 1, max_queued = 32\<rparr>"
| "default_session SERVICE = \<lparr>max_running = 8, max_queued = 32\<rparr>"

fun default_thread :: "JobLane \<Rightarrow> LaneLimits" where
  "default_thread FOREGROUND = \<lparr>max_running = 4, max_queued = 16\<rparr>"
| "default_thread BACKGROUND = \<lparr>max_running = 2, max_queued = 16\<rparr>"
| "default_thread SERVICE = \<lparr>max_running = 8, max_queued = 16\<rparr>"

definition default_policy :: JobLimitPolicy where
  "default_policy = \<lparr>system_limits = default_system, session_limits = default_session,
                     thread_limits = default_thread\<rparr>"

text \<open>The queue timeout is in seconds on the clock of \<open>time.monotonic\<close>.\<close>

record AdmissionPolicy =
  queue_mode :: QueueMode
  queue_timeout_seconds :: "int option"
  slot_mode :: SlotMode

definition default_admission :: AdmissionPolicy where
  "default_admission = \<lparr>queue_mode = WAIT, queue_timeout_seconds = Some 30, slot_mode = COUNTED\<rparr>"

record SlotLease =
  lease_lane :: JobLane
  counted :: bool
  released :: bool

definition new_lease :: "JobLane \<Rightarrow> bool \<Rightarrow> SlotLease" where
  "new_lease lane c = \<lparr>lease_lane = lane, counted = c, released = False\<rparr>"

definition release :: "SlotLease \<Rightarrow> SlotLease \<times> bool" where
  "release l = (if released l then (l, False) else (l\<lparr>released := True\<rparr>, True))"

lemma release_once: "snd (release (fst (release l))) = False"
  by (simp add: release_def)

end
