(* ===== verification/JobRegistry.thy ===== *)
theory JobRegistry
  imports JobScope
begin

text \<open>
  The job registry of \<open>backend/src/jobs/registry\<close>: records, hierarchical lane admission,
  queueing and slot accounting (\<open>admission.py\<close>), terminal handling, queue draining and
  history pruning (\<open>lifecycle.py\<close>), registration and lookup (\<open>core.py\<close>), scope
  creation and close (\<open>scopes.py\<close>).

  The registry object is the record \<open>registry\<close>; the jobs it knows are part of their
  \<open>_Record\<close>, so that every change of a job is a change of the registry state. A method that
  takes the lock once is one function; \<open>start\<close> takes it twice and is the composition of
  \<open>start_decide\<close> and \<open>finish_admission\<close>, so that interleavings can be expressed.

  What the carriers do is a parameter \<open>carrier\<close>: whether launching a job raises (and the
  formatted text of the exception), and the text made of a \<open>JobStateError\<close>. The listener of
  the registry has the identity \<open>REGISTRY\<close>.
\<close>

section \<open>State\<close>

record job_record =
  r_job :: job
  r_scope :: JobScope
  r_owner :: JobOwner
  r_lane :: JobLane
  r_admission :: AdmissionPolicy
  r_parent_job_id :: "string option"
  r_lease :: "SlotLease option"
  r_queued_at :: timestamp
  r_admitted_at :: "timestamp option"
  r_terminal :: bool

record JobQuery =
  q_lanes :: "JobLane list option"
  q_states :: "JobState list option"
  q_session_id :: "string option"

record ScopedJobInfo =
  s_info :: JobInfo
  s_lane :: JobLane
  s_scope_id :: string
  s_scope_kind :: JobScopeKind
  s_parent_job_id :: "string option"
  s_queued_at :: "timestamp option"
  s_admitted_at :: "timestamp option"
  s_slot_mode :: SlotMode
  s_holds_slot :: bool

record CloseReport =
  rep_closed :: "string list"
  rep_timed_out :: "string list"
  rep_failed :: "string list"

record registry =
  policy :: JobLimitPolicy
  history_limit :: int
  session_history_limit :: int
  id_seq :: nat
  scope_seq :: nat
  records :: "(string, job_record) dict"
  scopes :: "(string, JobScope) dict"
  closed_scopes :: "string set"
  queues :: "JobLane \<Rightarrow> string list"
  running :: "JobLane \<Rightarrow> int"
  running_by_session :: "(string \<times> JobLane, int) dict"
  running_by_thread :: "(string \<times> JobLane, int) dict"
  root :: JobScope

record carrier =
  launch :: "string \<Rightarrow> string option"
  format_state_error :: "JobStateError \<Rightarrow> string"

definition REGISTRY :: nat where
  "REGISTRY = 0"

definition root_scope_of :: JobScope where
  "root_scope_of = JobScope (''scope-'' @ str_nat 1) SYSTEM None None
     \<lparr>session_id = None, thread_id = None, run_id = None\<rparr>"

definition new_registry :: "JobLimitPolicy \<Rightarrow> int \<Rightarrow> int \<Rightarrow> registry" where
  "new_registry pol hist shist = \<lparr>
     policy = pol, history_limit = hist, session_history_limit = shist,
     id_seq = 0, scope_seq = 1, records = [],
     scopes = [(scope_id root_scope_of, root_scope_of)], closed_scopes = {},
     queues = (\<lambda>_. []), running = (\<lambda>_. 0), running_by_session = [], running_by_thread = [],
     root = root_scope_of\<rparr>"

definition new_job_id :: "registry \<Rightarrow> registry \<times> string" where
  "new_job_id reg =
     (let n = Suc (id_seq reg) in (reg\<lparr>id_seq := n\<rparr>, ''job-'' @ str_nat n))"

definition next_scope_id :: "registry \<Rightarrow> registry \<times> string" where
  "next_scope_id reg =
     (let n = Suc (scope_seq reg) in (reg\<lparr>scope_seq := n\<rparr>, ''scope-'' @ str_nat n))"

text \<open>Reading a counter with default 0, changing the job or the record under an id.\<close>

definition get0 :: "('k, int) dict \<Rightarrow> 'k \<Rightarrow> int" where
  "get0 d k = (case map_of d k of None \<Rightarrow> 0 | Some n \<Rightarrow> n)"

definition bump :: "int \<Rightarrow> 'k \<Rightarrow> ('k, int) dict \<Rightarrow> ('k, int) dict" where
  "bump n k d = AList.update k (get0 d k + n) d"

definition set_record :: "string \<Rightarrow> (job_record \<Rightarrow> job_record) \<Rightarrow> registry \<Rightarrow> registry" where
  "set_record i f reg = reg\<lparr>records := AList.map_entry i f (records reg)\<rparr>"

definition set_job :: "string \<Rightarrow> job \<Rightarrow> registry \<Rightarrow> registry" where
  "set_job i j reg = set_record i (\<lambda>r. r\<lparr>r_job := j\<rparr>) reg"

definition record_state :: "job_record \<Rightarrow> JobState" where
  "record_state r = info_state (info (r_job r))"

section \<open>Projection helpers\<close>

definition holds_slot :: "job_record \<Rightarrow> bool" where
  "holds_slot r = (case r_lease r of None \<Rightarrow> False | Some l \<Rightarrow> counted l \<and> \<not> released l)"

definition build_info :: "job_record \<Rightarrow> ScopedJobInfo" where
  "build_info r = \<lparr>
     s_info = info (r_job r), s_lane = r_lane r, s_scope_id = scope_id (r_scope r),
     s_scope_kind = scope_kind (r_scope r), s_parent_job_id = r_parent_job_id r,
     s_queued_at = Some (r_queued_at r), s_admitted_at = r_admitted_at r,
     s_slot_mode = slot_mode (r_admission r), s_holds_slot = holds_slot r\<rparr>"

definition matches :: "job_record \<Rightarrow> JobQuery option \<Rightarrow> bool" where
  "matches r query = (case query of None \<Rightarrow> True | Some q \<Rightarrow>
     (case q_lanes q of None \<Rightarrow> True | Some ls \<Rightarrow> r_lane r \<in> set ls) \<and>
     (case q_states q of None \<Rightarrow> True | Some ss \<Rightarrow> record_state r \<in> set ss) \<and>
     (q_session_id q = None \<or> session_id (r_owner r) = q_session_id q))"

definition require_open_scope :: "registry \<Rightarrow> JobScope \<Rightarrow> RegistryError + unit" where
  "require_open_scope reg sc =
     ensure (scope_id sc \<notin> closed_scopes reg) (JobScopeClosed (scope_id sc))"

section \<open>Admission\<close>

text \<open>
  \<open>_inherited_lease_locked\<close> follows \<open>parent_job_id\<close> through the records. The result is
  \<open>None\<close> when the walk never ends, \<open>Some None\<close> when it finds no live lease of the lane.
\<close>

partial_function (option) inherited_lease_loop ::
    "(string, job_record) dict \<Rightarrow> JobLane \<Rightarrow> string option \<Rightarrow> SlotLease option option" where
  "inherited_lease_loop recs lane current = (case current of
       None \<Rightarrow> Some None
     | Some c \<Rightarrow> (case map_of recs c of
         None \<Rightarrow> Some None
       | Some parent \<Rightarrow>
           if (case r_lease parent of None \<Rightarrow> False
               | Some l \<Rightarrow> lease_lane l = lane \<and> \<not> released l)
           then Some (r_lease parent)
           else inherited_lease_loop recs lane (r_parent_job_id parent)))"

definition inherited_lease :: "registry \<Rightarrow> job_record \<Rightarrow> SlotLease option option" where
  "inherited_lease reg r = inherited_lease_loop (records reg) (r_lane r) (r_parent_job_id r)"

definition can_admit :: "registry \<Rightarrow> job_record \<Rightarrow> bool" where
  "can_admit reg r = (let lane = r_lane r in
     running reg lane < max_running (system_limits (policy reg) lane) \<and>
     (case session_id (r_owner r) of None \<Rightarrow> True
      | Some s \<Rightarrow> get0 (running_by_session reg) (s, lane)
                    < max_running (session_limits (policy reg) lane)) \<and>
     (case thread_key (r_scope r) of None \<Rightarrow> True
      | Some t \<Rightarrow> get0 (running_by_thread reg) (t, lane)
                    < max_running (thread_limits (policy reg) lane)))"

definition queued_with :: "registry \<Rightarrow> JobLane \<Rightarrow> (job_record \<Rightarrow> bool) \<Rightarrow> int" where
  "queued_with reg lane P = int (length (filter (\<lambda>i.
     case map_of (records reg) i of None \<Rightarrow> False | Some r \<Rightarrow> P r) (queues reg lane)))"

definition check_queue_capacity :: "registry \<Rightarrow> job_record \<Rightarrow> RegistryError + unit" where
  "check_queue_capacity reg r = (let lane = r_lane r in
     ensure
       (int (length (queues reg lane)) < max_queued (system_limits (policy reg) lane) \<and>
        (case session_id (r_owner r) of None \<Rightarrow> True
         | Some s \<Rightarrow> queued_with reg lane (\<lambda>q. session_id (r_owner q) = Some s)
                       < max_queued (session_limits (policy reg) lane)) \<and>
        (case thread_key (r_scope r) of None \<Rightarrow> True
         | Some t \<Rightarrow> queued_with reg lane (\<lambda>q. thread_key (r_scope q) = Some t)
                       < max_queued (thread_limits (policy reg) lane)))
       (JobQueueFull (j_id (r_job r))))"

datatype action = Admit | Queue | Reject

definition quota_decision :: "registry \<Rightarrow> job_record \<Rightarrow> RegistryError + action" where
  "quota_decision reg r =
     (if can_admit reg r then Inr Admit
      else if queue_mode (r_admission r) = REJECT then Inr Reject
      else bind_result (check_queue_capacity reg r) (\<lambda>_. Inr Queue))"

definition admission_decision :: "registry \<Rightarrow> job_record \<Rightarrow> RegistryError + action" where
  "admission_decision reg r =
     (case slot_mode (r_admission r) of
        UNMETERED \<Rightarrow> Inr Admit
      | INHERIT \<Rightarrow> (case inherited_lease reg r of
            None \<Rightarrow> Inl Hangs
          | Some (Some _) \<Rightarrow> Inr Admit
          | Some None \<Rightarrow> quota_decision reg r)
      | COUNTED \<Rightarrow> quota_decision reg r)"

text \<open>
  \<open>_admit_locked\<close>. A walk that never ends does not get here: the decision hangs first.
\<close>

definition admit_counted :: "registry \<Rightarrow> job_record \<Rightarrow> bool" where
  "admit_counted reg r =
     (case slot_mode (r_admission r) of
        UNMETERED \<Rightarrow> False
      | INHERIT \<Rightarrow> (case inherited_lease reg r of Some (Some _) \<Rightarrow> False | _ \<Rightarrow> True)
      | COUNTED \<Rightarrow> True)"

definition count_slot :: "int \<Rightarrow> job_record \<Rightarrow> registry \<Rightarrow> registry" where
  "count_slot n r reg = reg\<lparr>
     running := (running reg)(r_lane r := running reg (r_lane r) + n),
     running_by_session :=
       (case session_id (r_owner r) of None \<Rightarrow> running_by_session reg
        | Some s \<Rightarrow> bump n (s, r_lane r) (running_by_session reg)),
     running_by_thread :=
       (case thread_key (r_scope r) of None \<Rightarrow> running_by_thread reg
        | Some t \<Rightarrow> bump n (t, r_lane r) (running_by_thread reg))\<rparr>"

definition admit :: "timestamp \<Rightarrow> string \<Rightarrow> registry \<Rightarrow> registry" where
  "admit now i reg = (case map_of (records reg) i of
       None \<Rightarrow> reg
     | Some r \<Rightarrow>
         let c = admit_counted reg r;
             reg1 = set_record i (\<lambda>r. r\<lparr>r_admitted_at := Some now,
                                       r_lease := Some (new_lease (r_lane r) c)\<rparr>) reg
         in if c then count_slot 1 r reg1 else reg1)"

section \<open>Draining, pruning, terminal handling\<close>

definition in_opt :: "'a option \<Rightarrow> 'a set \<Rightarrow> bool" where
  "in_opt x S = (case x of None \<Rightarrow> False | Some a \<Rightarrow> a \<in> S)"

definition add_opt :: "'a option \<Rightarrow> 'a set \<Rightarrow> 'a set" where
  "add_opt x S = (case x of None \<Rightarrow> S | Some a \<Rightarrow> insert a S)"

text \<open>The loop of \<open>_drain_queue_locked\<close>: registry, jobs to start, remaining queue.\<close>

fun drain_loop ::
    "timestamp \<Rightarrow> string list \<Rightarrow> string set \<Rightarrow> string set \<Rightarrow> registry
      \<Rightarrow> registry \<times> string list \<times> string list" where
  "drain_loop now [] ss ts reg = (reg, [], [])"
| "drain_loop now (i # q) ss ts reg = (case map_of (records reg) i of
       None \<Rightarrow> drain_loop now q ss ts reg
     | Some r \<Rightarrow>
         if record_state r \<noteq> PENDING then drain_loop now q ss ts reg
         else
           let s = session_id (r_owner r); t = thread_key (r_scope r) in
           if in_opt s ss \<or> in_opt t ts \<or> \<not> can_admit reg r then
             (case drain_loop now q ss ts reg of (reg', st, rest) \<Rightarrow> (reg', st, i # rest))
           else
             (case drain_loop now q (add_opt s ss) (add_opt t ts) (admit now i reg) of
                (reg', st, rest) \<Rightarrow> (reg', i # st, rest)))"

definition drain_queue :: "timestamp \<Rightarrow> JobLane \<Rightarrow> registry \<Rightarrow> registry \<times> string list" where
  "drain_queue now lane reg =
     (case drain_loop now (queues reg lane) {} {} reg of
        (reg', st, rest) \<Rightarrow> (reg'\<lparr>queues := (queues reg')(lane := rest)\<rparr>, st))"

definition record_id :: "job_record \<Rightarrow> string" where
  "record_id r = info_id (info (r_job r))"

text \<open>The oldest entries beyond the limit, by the time they were registered.\<close>

definition excess :: "int \<Rightarrow> job_record list \<Rightarrow> job_record list" where
  "excess limit rs =
     (if int (length rs) > limit
      then take (nat (int (length rs) - limit)) (sort_key r_queued_at rs) else [])"

definition drop_records :: "job_record list \<Rightarrow> registry \<Rightarrow> registry" where
  "drop_records rs reg =
     reg\<lparr>records := fold (\<lambda>r. AList.delete (record_id r)) rs (records reg)\<rparr>"

definition group_by_session :: "job_record list \<Rightarrow> (string, job_record list) dict" where
  "group_by_session rs = foldl (\<lambda>d r. case session_id (r_owner r) of
       None \<Rightarrow> d
     | Some s \<Rightarrow> if r_terminal r
                 then AList.update s ((case map_of d s of None \<Rightarrow> [] | Some xs \<Rightarrow> xs) @ [r]) d
                 else d) [] rs"

definition prune_history :: "registry \<Rightarrow> registry" where
  "prune_history reg =
     (let reg1 = drop_records
            (excess (history_limit reg) (filter r_terminal (dict_values (records reg)))) reg
      in drop_records
           (concat (map (excess (session_history_limit reg))
              (dict_values (group_by_session (dict_values (records reg1)))))) reg1)"

text \<open>
  The locked part of \<open>_on_terminal\<close> for a record that is not terminal yet. The counters of
  a counted lease exist (admission created them), so the decrement never raises.
\<close>

definition release_slot :: "string \<Rightarrow> job_record \<Rightarrow> registry \<Rightarrow> registry" where
  "release_slot i r reg = (case r_lease r of
       None \<Rightarrow> reg
     | Some l \<Rightarrow>
         let (l', did) = release l;
             reg1 = set_record i (\<lambda>r. r\<lparr>r_lease := Some l'\<rparr>) reg
         in if did \<and> counted l then count_slot (- 1) r reg1 else reg1)"

definition terminal_locked ::
    "timestamp \<Rightarrow> string \<Rightarrow> job_record \<Rightarrow> registry \<Rightarrow> registry \<times> string list" where
  "terminal_locked now i r reg =
     (let lane = r_lane r;
          reg1 = set_record i (\<lambda>r. r\<lparr>r_terminal := True\<rparr>) reg;
          reg2 = reg1\<lparr>queues := (queues reg1)(lane := remove1 i (queues reg1 lane))\<rparr>;
          reg3 = release_slot i r reg2
      in drain_queue now lane (prune_history reg3))"

definition reaches_registry :: "notification \<Rightarrow> bool" where
  "reaches_registry n = (case n of None \<Rightarrow> False
     | Some (ls, change) \<Rightarrow>
         REGISTRY \<in> ls \<and> info_state (job_info change) \<in> TERMINAL_STATES)"

text \<open>
  One iteration of \<open>_start_jobs\<close>: the adapter calls \<open>super().start()\<close> and launches
  its carrier; an exception marks the job failed, or cancels it when that is not allowed, and is
  raised again. The result has the raised text and whether the registry is told of a terminal
  state.
\<close>

definition start_failed ::
    "timestamp \<Rightarrow> string \<Rightarrow> string \<Rightarrow> job \<Rightarrow> registry \<Rightarrow> registry \<times> string option \<times> bool" where
  "start_failed now i exn j reg = (case mark_failed now exn None [] j of
       Inr (j', n) \<Rightarrow> (set_job i j' reg, Some exn, reaches_registry n)
     | Inl _ \<Rightarrow> (let c = cancel now j
                in (set_job i (c_job c) reg, Some exn, reaches_registry (c_notification c))))"

definition start_one ::
    "carrier \<Rightarrow> timestamp \<Rightarrow> string \<Rightarrow> registry \<Rightarrow> registry \<times> string option \<times> bool" where
  "start_one c now i reg = (case map_of (records reg) i of
       None \<Rightarrow> (reg, None, False)
     | Some r \<Rightarrow> (case start now (r_job r) of
           Inr (j, n) \<Rightarrow> (case launch c i of
               None \<Rightarrow> (set_job i j reg, None, False)
             | Some exn \<Rightarrow> start_failed now i exn j (set_job i j reg))
         | Inl e \<Rightarrow> start_failed now i (format_state_error c e) (r_job r) reg))"

definition live_count :: "registry \<Rightarrow> nat" where
  "live_count reg = count_dict (\<lambda>r. \<not> r_terminal r) (records reg)"

text \<open>Every step of the terminal handling leaves the number of live records or lowers it.\<close>

lemma live_set_record:
  "(\<And>r. r_terminal (f r) = r_terminal r) \<Longrightarrow> live_count (set_record i f reg) = live_count reg"
  by (simp add: live_count_def set_record_def count_dict_map_entry_same)

lemma live_set_job [simp]: "live_count (set_job i j reg) = live_count reg"
  by (simp add: set_job_def live_set_record)

lemma live_count_slot [simp]: "live_count (count_slot n r reg) = live_count reg"
  by (simp add: live_count_def count_slot_def)

lemma live_admit [simp]: "live_count (admit now i reg) = live_count reg"
  by (simp add: admit_def Let_def live_set_record split: option.splits)

lemma live_drain_loop:
  "drain_loop now q ss ts reg = (reg', st, rest) \<Longrightarrow> live_count reg' = live_count reg"
  by (induction now q ss ts reg arbitrary: reg' st rest rule: drain_loop.induct)
    (auto simp: Let_def split: option.splits if_splits prod.splits)

lemma live_drain_queue [simp]: "live_count (fst (drain_queue now lane reg)) = live_count reg"
proof -
  obtain reg' st rest where d: "drain_loop now (queues reg lane) {} {} reg = (reg', st, rest)"
    by (cases "drain_loop now (queues reg lane) {} {} reg") auto
  then have "live_count reg' = live_count reg" by (rule live_drain_loop)
  with d show ?thesis by (simp add: drain_queue_def live_count_def)
qed

lemma live_drop_records: "live_count (drop_records rs reg) \<le> live_count reg"
proof -
  have "count_dict P (fold (\<lambda>r. AList.delete (record_id r)) rs d) \<le> count_dict P d"
    for P and d :: "(string, job_record) dict"
    by (induction rs arbitrary: d) (auto intro: order_trans [OF _ count_dict_delete_le])
  then show ?thesis by (simp add: live_count_def drop_records_def)
qed

lemma live_prune_history: "live_count (prune_history reg) \<le> live_count reg"
  unfolding prune_history_def Let_def
  by (rule order_trans [OF live_drop_records live_drop_records])

lemma live_release_slot [simp]: "live_count (release_slot i r reg) = live_count reg"
  by (simp add: release_slot_def Let_def live_set_record split: option.splits prod.splits)

lemma live_terminal_locked:
  assumes "map_of (records reg) i = Some r" and "\<not> r_terminal r"
  shows "live_count (fst (terminal_locked now i r' reg)) < live_count reg"
proof -
  let ?reg1 = "set_record i (\<lambda>r. r\<lparr>r_terminal := True\<rparr>) reg"
  have lt: "live_count ?reg1 < live_count reg"
    using count_dict_map_entry [OF assms(1), of "\<lambda>r. \<not> r_terminal r" "\<lambda>r. r\<lparr>r_terminal := True\<rparr>"]
      assms(2) by (simp add: live_count_def set_record_def)
  have q: "live_count (reg\<lparr>queues := x\<rparr>) = live_count reg" for x reg
    by (simp add: live_count_def)
  show ?thesis
    unfolding terminal_locked_def Let_def live_drain_queue
    by (rule le_less_trans [OF live_prune_history]) (simp only: live_release_slot q lt)
qed

lemma live_start_one [simp]: "live_count (fst (start_one c now i reg)) = live_count reg"
  by (simp add: start_one_def start_failed_def Let_def split: option.splits sum.splits prod.splits)

text \<open>
  \<open>_start_jobs\<close> and \<open>_on_terminal\<close> call each other: a job that fails to start is
  terminal, which drains the queue and starts further jobs. The exception of the inner call is
  swallowed by the listener dispatch of \<open>Job._notify\<close>; the outer one leaves the loop. The
  recursion ends because every terminal call uses up a live record.
\<close>

function start_jobs ::
    "carrier \<Rightarrow> timestamp \<Rightarrow> string list \<Rightarrow> registry \<Rightarrow> registry \<times> string option"
and on_terminal ::
    "carrier \<Rightarrow> timestamp \<Rightarrow> string \<Rightarrow> registry \<Rightarrow> registry \<times> string option" where
  "start_jobs c now [] reg = (reg, None)"
| "start_jobs c now (i # is) reg =
     (let (reg1, raised, told) = start_one c now i reg in
      if raised = None then start_jobs c now is reg1
      else ((if told then fst (on_terminal c now i reg1) else reg1), raised))"
| "on_terminal c now i reg = (case map_of (records reg) i of
       None \<Rightarrow> (reg, None)
     | Some r \<Rightarrow>
         if r_terminal r then (reg, None)
         else (let (reg1, to_start) = terminal_locked now i r reg in start_jobs c now to_start reg1))"
  by pat_completeness auto
termination
proof (relation "measures
    [\<lambda>x. case x of Inl (c, now, is, reg) \<Rightarrow> live_count reg | Inr (c, now, i, reg) \<Rightarrow> live_count reg,
     \<lambda>x. case x of Inl (c, now, is, reg) \<Rightarrow> Suc (length is) | Inr (c, now, i, reg) \<Rightarrow> 0]", goal_cases)
  case 1
  show ?case by simp
next
  case (2 c now i "is" reg x xa y xb ya)
  then have "reg1 = fst (start_one c now i reg)" if "reg1 = xa" for reg1
    using that by (metis fst_conv)
  then show ?case using live_start_one [of c now i reg] by simp
next
  case (3 c now i "is" reg x xa y xb ya)
  then have "reg1 = fst (start_one c now i reg)" if "reg1 = xa" for reg1
    using that by (metis fst_conv)
  then show ?case using live_start_one [of c now i reg] by simp
next
  case (4 c now i reg r x reg1 to_start)
  then have "reg1 = fst (terminal_locked now i r reg)" by (metis fst_conv)
  with 4 live_terminal_locked [of reg i r now r] show ?case by simp
qed

declare start_jobs.simps(2) [simp del] on_terminal.simps [simp del]

section \<open>Registration, start, lookup\<close>

text \<open>\<open>on_job_state_change\<close>: terminal changes go to \<open>_on_terminal\<close>.\<close>

definition dispatch :: "carrier \<Rightarrow> timestamp \<Rightarrow> string \<Rightarrow> notification \<Rightarrow> registry \<Rightarrow> registry" where
  "dispatch c now i n reg = (if reaches_registry n then fst (on_terminal c now i reg) else reg)"

definition reg_register ::
    "timestamp \<Rightarrow> job \<Rightarrow> JobScope \<Rightarrow> JobLane \<Rightarrow> AdmissionPolicy \<Rightarrow> registry
      \<Rightarrow> RegistryError + (registry \<times> ScopedJobInfo)" where
  "reg_register now j sc lane adm reg =
     bind_result (require_open_scope reg sc) (\<lambda>_.
     bind_result (ensure (map_of (records reg) (j_id j) = None) (JobRegistrationError (j_id j))) (\<lambda>_.
     bind_result (ensure (j_state j = PENDING) (JobRegistrationError (j_id j))) (\<lambda>_.
       let r = \<lparr>r_job = j, r_scope = sc, r_owner = scope_owner sc, r_lane = lane,
                r_admission = adm, r_parent_job_id = scope_parent_job_id sc, r_lease = None,
                r_queued_at = now, r_admitted_at = None, r_terminal = False\<rparr>;
           reg1 = reg\<lparr>records := AList.update (j_id j) r (records reg)\<rparr>
       in Inr (set_job (j_id j) (add_listener REGISTRY j) reg1, build_info r))))"

text \<open>\<open>job.cancel()\<close> on a registered job, and the carrier's terminal reports.\<close>

definition cancel_job :: "carrier \<Rightarrow> timestamp \<Rightarrow> string \<Rightarrow> registry \<Rightarrow> registry \<times> bool" where
  "cancel_job c now i reg = (case map_of (records reg) i of
       None \<Rightarrow> (reg, False)
     | Some r \<Rightarrow>
         let res = cancel now (r_job r)
         in (dispatch c now i (c_notification res) (set_job i (c_job res) reg), c_accepted res))"

datatype report = Succeeded "int option" "int list" | Failed string "int option" "int list"
  | Cancelled "int option" "int list"

definition apply_report ::
    "timestamp \<Rightarrow> report \<Rightarrow> job \<Rightarrow> JobStateError + (job \<times> notification)" where
  "apply_report now rep j = (case rep of
       Succeeded code ps \<Rightarrow> mark_succeeded now code ps j
     | Failed err code ps \<Rightarrow> mark_failed now err code ps j
     | Cancelled code ps \<Rightarrow> mark_cancelled now code ps j)"

definition carrier_report ::
    "carrier \<Rightarrow> timestamp \<Rightarrow> string \<Rightarrow> report \<Rightarrow> registry \<Rightarrow> registry" where
  "carrier_report c now i rep reg = (case map_of (records reg) i of
       None \<Rightarrow> reg
     | Some r \<Rightarrow> (case apply_report now rep (r_job r) of
           Inl _ \<Rightarrow> reg
         | Inr (j, n) \<Rightarrow> dispatch c now i n (set_job i j reg)))"

datatype start_outcome = Returned ScopedJobInfo | Waiting

text \<open>
  The first critical section of \<open>start\<close>: the decision, without changing anything. A full
  queue cancels the job after the lock is released.
\<close>

definition start_decide :: "string \<Rightarrow> registry \<Rightarrow> RegistryError + action" where
  "start_decide i reg = (case map_of (records reg) i of
       None \<Rightarrow> Inl (JobNotFound i)
     | Some r \<Rightarrow>
         bind_result (ensure (record_state r = PENDING) (JobRegistrationError i)) (\<lambda>_.
           admission_decision reg r))"

definition current_info :: "string \<Rightarrow> registry \<Rightarrow> RegistryError + start_outcome" where
  "current_info i reg = (case map_of (records reg) i of
       None \<Rightarrow> Inl (JobNotFound i) | Some r \<Rightarrow> Inr (Returned (build_info r)))"

definition finish_admission ::
    "carrier \<Rightarrow> timestamp \<Rightarrow> string \<Rightarrow> action \<Rightarrow> registry
      \<Rightarrow> registry \<times> (RegistryError + start_outcome)" where
  "finish_admission c now i act reg = (case act of
       Admit \<Rightarrow>
         (let (reg1, raised) = start_jobs c now [i] (admit now i reg) in
          (reg1, case raised of Some e \<Rightarrow> Inl (StartRaised e) | None \<Rightarrow> current_info i reg1))
     | Reject \<Rightarrow> (fst (cancel_job c now i reg), Inl (JobAdmissionRejected i))
     | Queue \<Rightarrow> (case map_of (records reg) i of
           None \<Rightarrow> (reg, Inl (JobNotFound i))
         | Some r \<Rightarrow>
             if record_state r \<noteq> PENDING then (reg, Inr (Returned (build_info r)))
             else (reg\<lparr>queues := (queues reg)(r_lane r := queues reg (r_lane r) @ [i])\<rparr>,
                   Inr Waiting)))"

text \<open>
  \<open>start\<close> when no other call runs between its two acquisitions of the lock; an interleaved run is written
  with \<open>start_decide\<close> and \<open>finish_admission\<close> on the registries that the two halves find.
\<close>

definition reg_start ::
    "carrier \<Rightarrow> timestamp \<Rightarrow> string \<Rightarrow> registry \<Rightarrow> registry \<times> (RegistryError + start_outcome)" where
  "reg_start c now i reg = (case start_decide i reg of
       Inr act \<Rightarrow> finish_admission c now i act reg
     | Inl (JobQueueFull k) \<Rightarrow> (fst (cancel_job c now i reg), Inl (JobQueueFull k))
     | Inl e \<Rightarrow> (reg, Inl e))"

text \<open>
  One round of the loop of \<open>_wait_for_admission\<close>; \<open>expired\<close> says whether the
  deadline has passed. \<open>Waiting\<close> is the next round.
\<close>

definition wait_for_admission ::
    "carrier \<Rightarrow> timestamp \<Rightarrow> bool \<Rightarrow> string \<Rightarrow> registry
      \<Rightarrow> registry \<times> (RegistryError + start_outcome)" where
  "wait_for_admission c now expired i reg = (case map_of (records reg) i of
       None \<Rightarrow> (reg, Inl (JobNotFound i))
     | Some r \<Rightarrow>
         if r_admitted_at r \<noteq> None then (reg, Inr (Returned (build_info r)))
         else if record_state r \<noteq> PENDING then (reg, Inr (Returned (build_info r)))
         else if expired then (fst (cancel_job c now i reg), Inl (JobAdmissionTimeout i))
         else (reg, Inr Waiting))"

definition reg_submit ::
    "carrier \<Rightarrow> timestamp \<Rightarrow> job \<Rightarrow> JobScope \<Rightarrow> JobLane \<Rightarrow> AdmissionPolicy \<Rightarrow> registry
      \<Rightarrow> registry \<times> (RegistryError + start_outcome)" where
  "reg_submit c now j sc lane adm reg = (case reg_register now j sc lane adm reg of
       Inl e \<Rightarrow> (reg, Inl e)
     | Inr (reg1, _) \<Rightarrow> reg_start c now (j_id j) reg1)"

definition reg_get :: "string \<Rightarrow> registry \<Rightarrow> ScopedJobInfo option" where
  "reg_get i reg = map_option build_info (map_of (records reg) i)"

definition reg_list :: "JobQuery option \<Rightarrow> registry \<Rightarrow> ScopedJobInfo list" where
  "reg_list query reg = map build_info (filter (\<lambda>r. matches r query) (dict_values (records reg)))"

definition active_count :: "JobLane option \<Rightarrow> JobScope option \<Rightarrow> registry \<Rightarrow> nat" where
  "active_count lane sc reg = length (filter (\<lambda>r.
     record_state r \<in> {PENDING, RUNNING} \<and>
     (case lane of None \<Rightarrow> True | Some l \<Rightarrow> r_lane r = l) \<and>
     (case sc of None \<Rightarrow> True | Some s \<Rightarrow> scope_contains s (r_scope r)))
     (dict_values (records reg)))"

definition reg_unregister :: "string \<Rightarrow> registry \<Rightarrow> RegistryError + registry" where
  "reg_unregister i reg = (case map_of (records reg) i of
       None \<Rightarrow> Inl (JobNotFound i)
     | Some r \<Rightarrow>
         if record_state r \<notin> TERMINAL_STATES then Inl (JobRegistrationError i)
         else Inr (reg\<lparr>records := AList.delete i (records reg)\<rparr>))"

section \<open>Scopes\<close>

definition create_scope ::
    "JobScope \<Rightarrow> JobScopeKind \<Rightarrow> string option \<Rightarrow> string option \<Rightarrow> string option \<Rightarrow> string option
      \<Rightarrow> registry \<Rightarrow> RegistryError + (registry \<times> JobScope)" where
  "create_scope parent kind sess thr rn pj reg =
     bind_result (ensure (kind \<noteq> SYSTEM)
       (ScopeValueError ''only the registry root may be a system scope'')) (\<lambda>_.
     bind_result (require_open_scope reg parent) (\<lambda>_.
     bind_result (merge_owner (scope_owner parent) sess thr rn) (\<lambda>ow.
       let (reg1, i) = next_scope_id reg;
           sc = JobScope i kind (Some parent) pj ow
       in Inr (reg1\<lparr>scopes := AList.update i sc (scopes reg1)\<rparr>, sc))))"

definition is_scope_closed :: "registry \<Rightarrow> JobScope \<Rightarrow> bool" where
  "is_scope_closed reg sc \<longleftrightarrow> scope_id sc \<in> closed_scopes reg"

definition proper_descendant :: "JobScope \<Rightarrow> JobScope \<Rightarrow> bool" where
  "proper_descendant sc s =
     (case scope_parent s of None \<Rightarrow> False | Some p \<Rightarrow> scope_contains sc p)"

definition collect_scopes :: "JobScope \<Rightarrow> registry \<Rightarrow> JobScope list" where
  "collect_scopes sc reg =
     sc # filter (\<lambda>s. s \<noteq> sc \<and> proper_descendant sc s) (dict_values (scopes reg))"

text \<open>
  What happens to a running job while its scope closes: the shared deadline has passed, the
  carrier stops the job in time, it keeps running, or its \<open>close\<close> raises.
\<close>

datatype close_behaviour = DeadlinePassed | Stops | KeepsRunning | CloseRaises

fun cancel_pending ::
    "carrier \<Rightarrow> timestamp \<Rightarrow> string list \<Rightarrow> registry \<Rightarrow> registry \<times> string list" where
  "cancel_pending c now [] reg = (reg, [])"
| "cancel_pending c now (i # is) reg = (case map_of (records reg) i of
       None \<Rightarrow> cancel_pending c now is reg
     | Some r \<Rightarrow>
         if record_state r = PENDING then
           (let (reg', closed) = cancel_pending c now is (fst (cancel_job c now i reg))
            in (reg', i # closed))
         else cancel_pending c now is reg)"

definition job_state_in :: "registry \<Rightarrow> string \<Rightarrow> JobState option" where
  "job_state_in reg i = map_option record_state (map_of (records reg) i)"

definition close_running_job ::
    "carrier \<Rightarrow> timestamp \<Rightarrow> bool \<Rightarrow> string \<Rightarrow> registry \<Rightarrow> registry" where
  "close_running_job c now stops i reg = (case job_state_in reg i of
       None \<Rightarrow> reg
     | Some st \<Rightarrow>
         if st \<in> TERMINAL_STATES then reg
         else (let reg1 = fst (cancel_job c now i reg)
               in if stops then carrier_report c now i (Cancelled None []) reg1 else reg1))"

text \<open>A job whose record is gone was terminal when the history was pruned.\<close>

definition stopped_in :: "registry \<Rightarrow> string \<Rightarrow> bool" where
  "stopped_in reg i = (case job_state_in reg i of None \<Rightarrow> True | Some st \<Rightarrow> st \<in> TERMINAL_STATES)"

fun close_running ::
    "carrier \<Rightarrow> timestamp \<Rightarrow> (string \<Rightarrow> close_behaviour) \<Rightarrow> string list \<Rightarrow> registry
      \<Rightarrow> registry \<times> CloseReport" where
  "close_running c now beh [] reg = (reg, \<lparr>rep_closed = [], rep_timed_out = [], rep_failed = []\<rparr>)"
| "close_running c now beh (i # is) reg = (case beh i of
       DeadlinePassed \<Rightarrow>
         (let (reg', rep) = close_running c now beh is reg
          in (reg', rep\<lparr>rep_timed_out := i # rep_timed_out rep\<rparr>))
     | CloseRaises \<Rightarrow>
         (let (reg', rep) = close_running c now beh is reg
          in (reg', rep\<lparr>rep_failed := i # rep_failed rep\<rparr>))
     | b \<Rightarrow>
         (let reg1 = close_running_job c now (b = Stops) i reg;
              (reg', rep) = close_running c now beh is reg1
          in if stopped_in reg1 i
             then (reg', rep\<lparr>rep_closed := i # rep_closed rep\<rparr>)
             else (reg', rep\<lparr>rep_timed_out := i # rep_timed_out rep\<rparr>)))"

definition jobs_in_scopes :: "JobState \<Rightarrow> JobScope list \<Rightarrow> registry \<Rightarrow> job_record list" where
  "jobs_in_scopes st scs reg =
     filter (\<lambda>r. r_scope r \<in> set scs \<and> record_state r = st) (dict_values (records reg))"

definition close_scope ::
    "carrier \<Rightarrow> timestamp \<Rightarrow> (string \<Rightarrow> close_behaviour) \<Rightarrow> JobScope \<Rightarrow> registry
      \<Rightarrow> registry \<times> CloseReport" where
  "close_scope c now beh sc reg =
     (if scope_id sc \<in> closed_scopes reg
      then (reg, \<lparr>rep_closed = [], rep_timed_out = [], rep_failed = []\<rparr>)
      else
        (let scs = collect_scopes sc reg;
             reg1 = reg\<lparr>closed_scopes := closed_scopes reg \<union> set (map scope_id scs)\<rparr>;
             pending = map record_id (jobs_in_scopes PENDING scs reg1);
             run = map record_id (sort_key (\<lambda>r. - int (depth (r_scope r)))
                     (jobs_in_scopes RUNNING scs reg1));
             (reg2, closed) = cancel_pending c now pending reg1;
             (reg3, rep) = close_running c now beh run reg2
         in (reg3, rep\<lparr>rep_closed := closed @ rep_closed rep\<rparr>)))"

definition close_all ::
    "carrier \<Rightarrow> timestamp \<Rightarrow> (string \<Rightarrow> close_behaviour) \<Rightarrow> registry \<Rightarrow> registry \<times> CloseReport" where
  "close_all c now beh reg = close_scope c now beh (root reg) reg"

section \<open>Scope-bound delegation\<close>

definition record_in_scope :: "JobScope \<Rightarrow> string \<Rightarrow> registry \<Rightarrow> job_record option" where
  "record_in_scope sc i reg = (case map_of (records reg) i of
       None \<Rightarrow> None | Some r \<Rightarrow> if scope_contains sc (r_scope r) then Some r else None)"

definition start_in_scope ::
    "carrier \<Rightarrow> timestamp \<Rightarrow> JobScope \<Rightarrow> string \<Rightarrow> registry
      \<Rightarrow> registry \<times> (RegistryError + start_outcome)" where
  "start_in_scope c now sc i reg = (case record_in_scope sc i reg of
       None \<Rightarrow> (reg, Inl (JobNotFound i)) | Some _ \<Rightarrow> reg_start c now i reg)"

definition get_in_scope :: "JobScope \<Rightarrow> string \<Rightarrow> registry \<Rightarrow> ScopedJobInfo option" where
  "get_in_scope sc i reg = map_option build_info (record_in_scope sc i reg)"

definition list_in_scope :: "JobScope \<Rightarrow> JobQuery option \<Rightarrow> registry \<Rightarrow> ScopedJobInfo list" where
  "list_in_scope sc query reg = map build_info
     (filter (\<lambda>r. scope_contains sc (r_scope r) \<and> matches r query) (dict_values (records reg)))"

definition cancel_in_scope ::
    "carrier \<Rightarrow> timestamp \<Rightarrow> JobScope \<Rightarrow> string \<Rightarrow> registry \<Rightarrow> registry \<times> bool" where
  "cancel_in_scope c now sc i reg = (case record_in_scope sc i reg of
       None \<Rightarrow> (reg, False) | Some _ \<Rightarrow> cancel_job c now i reg)"

text \<open>\<open>JobScope.close\<close>: the root closes everything.\<close>

definition scope_close ::
    "carrier \<Rightarrow> timestamp \<Rightarrow> (string \<Rightarrow> close_behaviour) \<Rightarrow> JobScope \<Rightarrow> registry
      \<Rightarrow> registry \<times> CloseReport" where
  "scope_close c now beh sc reg =
     (if scope_parent sc = None then close_all c now beh reg else close_scope c now beh sc reg)"

end
