(* ===== verification/JobRegistryInv.thy ===== *)
theory JobRegistryInv
  imports JobRegistry
begin

text \<open>
  The invariant of the job registry and its preservation by every operation: the lane counters
  equal the number of records that hold a slot, system-wide, per session and per thread; no
  counter exceeds its limit; a terminal job holds no slot; queued jobs are live and not admitted.
\<close>

section \<open>The invariant\<close>

abbreviation rec_at :: "registry \<Rightarrow> string \<Rightarrow> job_record option" where
  "rec_at reg i \<equiv> map_of (records reg) i"

definition slots :: "(job_record \<Rightarrow> bool) \<Rightarrow> registry \<Rightarrow> int" where
  "slots P reg = int (count_dict (\<lambda>r. holds_slot r \<and> P r) (records reg))"

definition in_lane :: "JobLane \<Rightarrow> job_record \<Rightarrow> bool" where
  "in_lane lane r \<longleftrightarrow> r_lane r = lane"

definition in_session :: "string \<times> JobLane \<Rightarrow> job_record \<Rightarrow> bool" where
  "in_session k r \<longleftrightarrow> r_lane r = snd k \<and> session_id (r_owner r) = Some (fst k)"

definition in_thread :: "string \<times> JobLane \<Rightarrow> job_record \<Rightarrow> bool" where
  "in_thread k r \<longleftrightarrow> r_lane r = snd k \<and> thread_key (r_scope r) = Some (fst k)"

definition counters_ok :: "registry \<Rightarrow> bool" where
  "counters_ok reg \<longleftrightarrow>
     (\<forall>lane. running reg lane = slots (in_lane lane) reg) \<and>
     (\<forall>k. get0 (running_by_session reg) k = slots (in_session k) reg) \<and>
     (\<forall>k. get0 (running_by_thread reg) k = slots (in_thread k) reg)"

definition limits_ok :: "registry \<Rightarrow> bool" where
  "limits_ok reg \<longleftrightarrow>
     (\<forall>lane. running reg lane \<le> max 0 (max_running (system_limits (policy reg) lane))) \<and>
     (\<forall>s lane. get0 (running_by_session reg) (s, lane)
                 \<le> max 0 (max_running (session_limits (policy reg) lane))) \<and>
     (\<forall>t lane. get0 (running_by_thread reg) (t, lane)
                 \<le> max 0 (max_running (thread_limits (policy reg) lane)))"

definition record_ok :: "string \<Rightarrow> job_record \<Rightarrow> bool" where
  "record_ok i r \<longleftrightarrow>
     j_id (r_job r) = i \<and> REGISTRY \<in> j_listeners (r_job r) \<and>
     (r_terminal r \<longrightarrow> \<not> holds_slot r \<and> record_state r \<in> TERMINAL_STATES) \<and>
     (r_lease r = None \<longleftrightarrow> r_admitted_at r = None)"

definition core_inv :: "registry \<Rightarrow> bool" where
  "core_inv reg \<longleftrightarrow> wf_dict (records reg) \<and> counters_ok reg \<and> limits_ok reg \<and>
     (\<forall>i r. rec_at reg i = Some r \<longrightarrow> record_ok i r)"

definition queued_ok :: "registry \<Rightarrow> JobLane \<Rightarrow> string \<Rightarrow> bool" where
  "queued_ok reg lane i \<longleftrightarrow>
     (\<exists>r. rec_at reg i = Some r \<and> r_lease r = None \<and> r_lane r = lane \<and> \<not> r_terminal r)"

definition queue_inv :: "registry \<Rightarrow> bool" where
  "queue_inv reg \<longleftrightarrow>
     (\<forall>lane. distinct (queues reg lane) \<and> (\<forall>i \<in> set (queues reg lane). queued_ok reg lane i))"

text \<open>Terminal jobs are handled; while a report is being handled all but one of them.\<close>

definition settled_but :: "string set \<Rightarrow> registry \<Rightarrow> bool" where
  "settled_but X reg \<longleftrightarrow>
     (\<forall>i r. rec_at reg i = Some r \<longrightarrow> i \<notin> X \<longrightarrow> record_state r \<in> TERMINAL_STATES \<longrightarrow> r_terminal r)"

definition reg_inv :: "registry \<Rightarrow> bool" where
  "reg_inv reg \<longleftrightarrow> core_inv reg \<and> queue_inv reg \<and> settled_but {} reg"

section \<open>Counters\<close>

lemma get0_bump [simp]: "get0 (bump n k d) k' = (if k' = k then get0 d k + n else get0 d k')"
  by (simp add: get0_def bump_def)

lemma record_state_simp [simp]: "record_state r = j_state (r_job r)"
  by (simp add: record_state_def info_def)

lemma record_id_simp [simp]: "record_id r = j_id (r_job r)"
  by (simp add: record_id_def info_def)

lemma slots_set_record:
  assumes "rec_at reg i = Some r" "P (f r) = P r"
  shows "slots P (set_record i f reg) =
    slots P reg + (if P r then of_bool (holds_slot (f r)) - of_bool (holds_slot r) else 0)"
  using count_dict_map_entry [OF assms(1), of "\<lambda>r. holds_slot r \<and> P r" f] assms(2)
  by (auto simp: slots_def set_record_def split: if_splits)

lemma slots_count_slot [simp]: "slots P (count_slot n r reg) = slots P reg"
  by (simp add: slots_def count_slot_def)

lemma slots_queues [simp]: "slots P (reg\<lparr>queues := q\<rparr>) = slots P reg"
  by (simp add: slots_def)

lemma counters_ok_queues [simp]: "counters_ok (reg\<lparr>queues := q\<rparr>) = counters_ok reg"
  by (simp add: counters_ok_def)

lemma limits_ok_queues [simp]: "limits_ok (reg\<lparr>queues := q\<rparr>) = limits_ok reg"
  by (simp add: limits_ok_def)

definition same_place :: "job_record \<Rightarrow> job_record \<Rightarrow> bool" where
  "same_place r r' \<longleftrightarrow> r_lane r' = r_lane r \<and> r_owner r' = r_owner r \<and> r_scope r' = r_scope r"

lemma same_place_in:
  "same_place r r' \<Longrightarrow> in_lane l r' = in_lane l r"
  "same_place r r' \<Longrightarrow> in_session k r' = in_session k r"
  "same_place r r' \<Longrightarrow> in_thread k r' = in_thread k r"
  by (simp_all add: same_place_def in_lane_def in_session_def in_thread_def)

lemma counters_ok_shift:
  assumes "counters_ok reg" "rec_at reg i = Some r" "same_place r (f r)"
    "n = of_bool (holds_slot (f r)) - of_bool (holds_slot r)"
  shows "counters_ok (count_slot n r (set_record i f reg))"
  using assms(1,4) slots_set_record [where f = f, OF assms(2)] same_place_in [OF assms(3)]
  unfolding counters_ok_def
  by (auto simp: count_slot_def set_record_def in_lane_def in_session_def in_thread_def
      slots_def split: option.splits)

lemma counters_ok_same:
  assumes "counters_ok reg" "rec_at reg i = Some r" "same_place r (f r)"
    "holds_slot (f r) = holds_slot r"
  shows "counters_ok (set_record i f reg)"
  using assms(1,4) slots_set_record [where f = f, OF assms(2)] same_place_in [OF assms(3)]
  unfolding counters_ok_def
  by (auto simp: set_record_def slots_def)

lemma rec_at_set_record [simp]:
  "rec_at (set_record i f reg) k = (if k = i then map_option f (rec_at reg i) else rec_at reg k)"
  by (simp add: set_record_def)

lemma set_record_fields [simp]:
  "policy (set_record i f reg) = policy reg" "queues (set_record i f reg) = queues reg"
  "running (set_record i f reg) = running reg"
  "running_by_session (set_record i f reg) = running_by_session reg"
  "running_by_thread (set_record i f reg) = running_by_thread reg"
  "wf_dict (records (set_record i f reg)) = wf_dict (records reg)"
  by (simp_all add: set_record_def)

lemma count_slot_fields [simp]:
  "policy (count_slot n r reg) = policy reg" "queues (count_slot n r reg) = queues reg"
  "records (count_slot n r reg) = records reg"
  by (simp_all add: count_slot_def)

lemma limits_ok_set_record [simp]: "limits_ok (set_record i f reg) = limits_ok reg"
  by (simp add: limits_ok_def)

lemma limits_ok_admit:
  "limits_ok reg \<Longrightarrow> can_admit reg r \<Longrightarrow> limits_ok (count_slot 1 r (set_record i f reg))"
  unfolding limits_ok_def can_admit_def Let_def
  by (auto simp: count_slot_def split: option.splits)

lemma int_dec_le: "a \<le> b \<Longrightarrow> a - 1 \<le> (b :: int)"
  by simp

lemma limits_ok_release: "limits_ok reg \<Longrightarrow> limits_ok (count_slot (- 1) r (set_record i f reg))"
  unfolding limits_ok_def
  by (auto simp: count_slot_def split: option.splits intro: int_dec_le)

section \<open>Single records\<close>

lemma core_invD:
  "core_inv reg \<Longrightarrow> rec_at reg i = Some r \<Longrightarrow> record_ok i r"
  by (simp add: core_inv_def)

lemma core_inv_same:
  assumes "core_inv reg" "rec_at reg i = Some r" "same_place r (f r)"
    "holds_slot (f r) = holds_slot r" "record_ok i (f r)"
  shows "core_inv (set_record i f reg)"
  using assms counters_ok_same [of reg i r f] by (auto simp: core_inv_def)

lemma core_inv_queues [simp]: "core_inv (reg\<lparr>queues := q\<rparr>) = core_inv reg"
  by (simp add: core_inv_def)

lemma admit_records:
  assumes "rec_at reg i = Some r"
  shows "rec_at (admit now i reg) k =
    (if k = i then Some (r\<lparr>r_admitted_at := Some now,
        r_lease := Some (new_lease (r_lane r) (admit_counted reg r))\<rparr>) else rec_at reg k)"
  using assms by (simp add: admit_def Let_def)

lemma admit_fields [simp]: "queues (admit now i reg) = queues reg" "policy (admit now i reg) = policy reg"
  by (simp_all add: admit_def Let_def split: option.splits)

lemma core_inv_admit:
  assumes inv: "core_inv reg" and r: "rec_at reg i = Some r" and "r_lease r = None"
    and "\<not> r_terminal r" and can: "admit_counted reg r \<Longrightarrow> can_admit reg r"
  shows "core_inv (admit now i reg)"
proof -
  let ?c = "admit_counted reg r"
  let ?f = "\<lambda>r. r\<lparr>r_admitted_at := Some now, r_lease := Some (new_lease (r_lane r) ?c)\<rparr>"
  have place: "same_place r (?f r)" by (simp add: same_place_def)
  have h: "holds_slot (?f r) = ?c" "\<not> holds_slot r"
    using assms(3) by (simp_all add: holds_slot_def new_lease_def)
  have ok: "record_ok i (?f r)"
    using core_invD [OF inv r] assms(4) by (simp add: record_ok_def)
  show ?thesis
  proof (cases ?c)
    case True
    with h have n: "(1 :: int) = of_bool (holds_slot (?f r)) - of_bool (holds_slot r)" by simp
    have "counters_ok (count_slot 1 r (set_record i ?f reg))"
      using counters_ok_shift [where f = ?f, OF _ r place n] inv by (simp add: core_inv_def)
    moreover have "limits_ok (count_slot 1 r (set_record i ?f reg))"
      using limits_ok_admit inv can [OF True] by (simp add: core_inv_def)
    ultimately show ?thesis
      using True inv r ok by (auto simp: core_inv_def admit_def Let_def)
  next
    case False
    with h have "holds_slot (?f r) = holds_slot r" by simp
    from core_inv_same [where f = ?f, OF inv r place this ok] False r show ?thesis
      by (simp add: admit_def Let_def)
  qed
qed

section \<open>Draining\<close>

definition waiting :: "registry \<Rightarrow> string \<Rightarrow> bool" where
  "waiting reg i \<longleftrightarrow> (\<forall>r. rec_at reg i = Some r \<longrightarrow> r_lease r = None)"

text \<open>
  What draining guarantees: the rest is part of the queue, records outside the queue and of the
  rest are untouched, and no job and no terminal flag changes.
\<close>

definition same_jobs :: "registry \<Rightarrow> registry \<Rightarrow> bool" where
  "same_jobs reg reg' \<longleftrightarrow> (\<forall>i r'. rec_at reg' i = Some r' \<longrightarrow>
     (\<exists>r. rec_at reg i = Some r \<and> r_job r = r_job r' \<and> r_terminal r = r_terminal r'))"

definition drained :: "string list \<Rightarrow> registry \<Rightarrow> registry \<Rightarrow> string list \<Rightarrow> bool" where
  "drained q reg reg' rest \<longleftrightarrow> core_inv reg' \<and> set rest \<subseteq> set q \<and> distinct rest \<and>
     queues reg' = queues reg \<and> same_jobs reg reg' \<and>
     (\<forall>i. i \<notin> set q \<or> i \<in> set rest \<longrightarrow> rec_at reg' i = rec_at reg i)"

lemma same_jobs_refl [simp]: "same_jobs reg reg"
  by (simp add: same_jobs_def)

lemma same_jobs_trans: "same_jobs reg reg1 \<Longrightarrow> same_jobs reg1 reg2 \<Longrightarrow> same_jobs reg reg2"
  unfolding same_jobs_def by fastforce

lemma same_jobs_admit: "same_jobs reg (admit now i reg)"
proof (cases "rec_at reg i")
  case None
  then show ?thesis by (simp add: admit_def)
next
  case (Some r)
  then show ?thesis by (auto simp: same_jobs_def admit_records [OF Some])
qed

lemma drained_skip: "drained q reg reg' rest \<Longrightarrow> drained (i # q) reg reg' rest"
  unfolding drained_def by auto

lemma drained_keep: "drained q reg reg' rest \<Longrightarrow> i \<notin> set q \<Longrightarrow> drained (i # q) reg reg' (i # rest)"
  unfolding drained_def by auto

lemma drained_admit:
  assumes "drained q (admit now i reg) reg' rest" "rec_at reg i = Some r" "i \<notin> set q"
  shows "drained (i # q) reg reg' rest"
  using assms same_jobs_trans [OF same_jobs_admit, of now i reg reg']
  unfolding drained_def by (auto simp: admit_records [OF assms(2)])

lemma core_inv_pending:
  "core_inv reg \<Longrightarrow> rec_at reg i = Some r \<Longrightarrow> record_state r = PENDING \<Longrightarrow> \<not> r_terminal r"
  by (auto dest: core_invD simp: record_ok_def TERMINAL_STATES_def)

lemma drain_loop_inv:
  assumes "drain_loop now q ss ts reg = (reg', st, rest)" "core_inv reg" "distinct q"
    "\<forall>i \<in> set q. waiting reg i"
  shows "drained q reg reg' rest"
  using assms
proof (induction now q ss ts reg arbitrary: reg' st rest rule: drain_loop.induct)
  case (1 now ss ts reg)
  then show ?case by (simp add: drained_def)
next
  case (2 now i q ss ts reg)
  from "2.prems" have q: "distinct q" "i \<notin> set q" "\<forall>k \<in> set q. waiting reg k" "waiting reg i" by auto
  show ?case
  proof (cases "rec_at reg i")
    case None
    with "2.prems"(1) have "drain_loop now q ss ts reg = (reg', st, rest)" by simp
    with "2.IH"(1) [OF None] "2.prems"(2) q show ?thesis by (simp add: drained_skip)
  next
    case (Some r)
    show ?thesis
    proof (cases "record_state r = PENDING")
      case False
      with Some "2.prems"(1) have "drain_loop now q ss ts reg = (reg', st, rest)" by simp
      with "2.IH"(2) [OF Some False] "2.prems"(2) q show ?thesis by (simp add: drained_skip)
    next
      case True
      then have pending: "\<not> record_state r \<noteq> PENDING" by simp
      let ?s = "session_id (r_owner r)" and ?t = "thread_key (r_scope r)"
      show ?thesis
      proof (cases "in_opt ?s ss \<or> in_opt ?t ts \<or> \<not> can_admit reg r")
        case skip: True
        obtain rest1 where "drain_loop now q ss ts reg = (reg', st, rest1)" "rest = i # rest1"
          using "2.prems"(1) Some True skip by (auto simp: Let_def split: prod.splits)
        with "2.IH"(3) [OF Some pending refl refl skip] "2.prems"(2) q show ?thesis
          by (simp add: drained_keep)
      next
        case go: False
        obtain st1 where d: "drain_loop now q (add_opt ?s ss) (add_opt ?t ts) (admit now i reg)
            = (reg', st1, rest)"
          using "2.prems"(1) Some True go by (auto simp: Let_def split: prod.splits)
        have lease: "r_lease r = None" using q(4) Some by (simp add: waiting_def)
        have inv: "core_inv (admit now i reg)"
          using core_inv_admit [OF "2.prems"(2) Some lease core_inv_pending [OF "2.prems"(2) Some True]]
            go by simp
        have "\<forall>k \<in> set q. waiting (admit now i reg) k"
          using q by (auto simp: waiting_def admit_records [OF Some])
        with "2.IH"(4) [OF Some pending refl refl go d inv] q(1) have
          "drained q (admit now i reg) reg' rest" by simp
        with drained_admit [OF _ Some] q(2) show ?thesis by simp
      qed
    qed
  qed
qed

section \<open>Pruning\<close>

text \<open>Dropping terminal records changes no counter and touches no live record.\<close>

lemma count_dict_delete_none:
  assumes "\<forall>v. map_of d k = Some v \<longrightarrow> \<not> P v" "wf_dict d"
  shows "count_dict P (AList.delete k d) = count_dict P d"
proof (cases "map_of d k")
  case None
  then have "AList.delete k d = d" by (simp add: map_of_None_keys delete_id)
  then show ?thesis by simp
next
  case (Some w)
  with assms count_dict_delete [OF assms(2) Some, of P] show ?thesis by simp
qed

lemma drop_records_rec_at:
  "rec_at (drop_records rs reg) i = (if i \<in> record_id ` set rs then None else rec_at reg i)"
proof -
  have "map_of (fold (\<lambda>r. AList.delete (record_id r)) rs d) i =
      (if i \<in> record_id ` set rs then None else map_of d i)" for d :: "(string, job_record) dict"
    by (induction rs arbitrary: d) auto
  then show ?thesis by (simp add: drop_records_def)
qed

lemma drop_records_wf: "wf_dict (records reg) \<Longrightarrow> wf_dict (records (drop_records rs reg))"
proof -
  have "wf_dict d \<Longrightarrow> wf_dict (fold (\<lambda>r. AList.delete (record_id r)) rs d)"
    for d :: "(string, job_record) dict"
    by (induction rs arbitrary: d) auto
  then show "wf_dict (records reg) \<Longrightarrow> ?thesis" by (simp add: drop_records_def)
qed

lemma drop_records_fields [simp]:
  "policy (drop_records rs reg) = policy reg" "queues (drop_records rs reg) = queues reg"
  "running (drop_records rs reg) = running reg"
  "running_by_session (drop_records rs reg) = running_by_session reg"
  "running_by_thread (drop_records rs reg) = running_by_thread reg"
  by (simp_all add: drop_records_def)

definition droppable :: "registry \<Rightarrow> job_record list \<Rightarrow> bool" where
  "droppable reg rs \<longleftrightarrow>
     (\<forall>r \<in> set rs. \<forall>r'. rec_at reg (record_id r) = Some r' \<longrightarrow> r_terminal r')"

lemma drop_records_slots:
  assumes "core_inv reg" "droppable reg rs"
  shows "slots P (drop_records rs reg) = slots P reg"
proof -
  let ?Q = "\<lambda>r. holds_slot r \<and> P r"
  have "count_dict ?Q (fold (\<lambda>r. AList.delete (record_id r)) rs d) = count_dict ?Q d"
    if "wf_dict d" "\<forall>r \<in> set rs. \<forall>r'. map_of d (record_id r) = Some r' \<longrightarrow> \<not> holds_slot r'"
    for d :: "(string, job_record) dict"
    using that
  proof (induction rs arbitrary: d)
    case (Cons r rs)
    then have "count_dict ?Q (AList.delete (record_id r) d) = count_dict ?Q d"
      by (intro count_dict_delete_none) auto
    with Cons show ?case by auto
  qed simp
  moreover have "\<forall>r \<in> set rs. \<forall>r'. rec_at reg (record_id r) = Some r' \<longrightarrow> \<not> holds_slot r'"
    using assms by (auto simp: droppable_def record_ok_def dest: core_invD)
  ultimately show ?thesis
    using assms(1) by (simp add: slots_def drop_records_def core_inv_def)
qed

lemma core_inv_drop_records:
  assumes "core_inv reg" "droppable reg rs"
  shows "core_inv (drop_records rs reg)"
  using assms drop_records_slots [OF assms] drop_records_wf [of reg rs]
  by (auto simp: core_inv_def counters_ok_def limits_ok_def drop_records_rec_at split: if_splits)

lemma excess_subset: "set (excess l rs) \<subseteq> set rs"
  unfolding excess_def using set_take_subset [of _ "sort_key r_queued_at rs"] by auto

lemma group_by_session_subset:
  "xs \<in> set (dict_values (group_by_session rs)) \<Longrightarrow> set xs \<subseteq> {r \<in> set rs. r_terminal r}"
proof -
  let ?step = "\<lambda>d r. case session_id (r_owner r) of None \<Rightarrow> d
     | Some s \<Rightarrow> if r_terminal r
        then AList.update s ((case map_of d s of None \<Rightarrow> [] | Some xs \<Rightarrow> xs) @ [r]) d else d"
  let ?ok = "\<lambda>S d. \<forall>p \<in> set (d :: (string, job_record list) dict). set (snd p) \<subseteq> S"
  have upd: "?ok S (AList.update k v d)" if "?ok S d" "set v \<subseteq> S" for S k v d
    using that set_update_subset [of k v d] by fastforce
  have "?ok S (foldl ?step d rs)" if "?ok S d" "{r \<in> set rs. r_terminal r} \<subseteq> S" for S d
    using that
  proof (induction rs arbitrary: d)
    case (Cons r rs)
    have "set xs \<subseteq> S" if "map_of d s = Some xs" for s xs
      using that Cons.prems(1) map_of_SomeD by fastforce
    moreover have "r_terminal r \<Longrightarrow> r \<in> S" using Cons.prems(2) by auto
    ultimately have "?ok S (AList.update s ((case map_of d s of None \<Rightarrow> [] | Some xs \<Rightarrow> xs) @ [r]) d)"
      if "r_terminal r" for s
      using that by (intro upd [OF Cons.prems(1)], cases "map_of d s") auto
    then have "?ok S (?step d r)"
      using Cons.prems(1) by (cases "session_id (r_owner r)") simp_all
    with Cons show ?case by auto
  qed simp
  from this [of "[]" "{r \<in> set rs. r_terminal r}"]
  show "xs \<in> set (dict_values (group_by_session rs)) \<Longrightarrow> ?thesis"
    by (auto simp: group_by_session_def)
qed

lemma core_inv_values:
  assumes "core_inv reg" "r \<in> set (dict_values (records reg))"
  shows "rec_at reg (record_id r) = Some r"
proof -
  from assms(2) obtain k where "(k, r) \<in> set (records reg)" by auto
  with assms(1) have "rec_at reg k = Some r" by (simp add: core_inv_def wf_dict_map_of_iff)
  with core_invD [OF assms(1) this] show ?thesis by (simp add: record_ok_def)
qed

lemma droppable_terminal:
  assumes "core_inv reg" "set rs \<subseteq> {r \<in> set (dict_values (records reg)). r_terminal r}"
  shows "droppable reg rs"
  using assms(2) core_inv_values [OF assms(1)] by (fastforce simp: droppable_def)

lemma prune_history_drops:
  assumes "core_inv reg"
  obtains rs rs' where "prune_history reg = drop_records rs' (drop_records rs reg)"
    "droppable reg rs" "droppable (drop_records rs reg) rs'"
proof -
  let ?rs = "excess (history_limit reg) (filter r_terminal (dict_values (records reg)))"
  let ?reg1 = "drop_records ?rs reg"
  let ?rs' = "concat (map (excess (session_history_limit reg))
              (dict_values (group_by_session (dict_values (records ?reg1)))))"
  have a: "droppable reg ?rs"
    by (rule droppable_terminal [OF assms]) (use excess_subset in fastforce)
  have "set ?rs' \<subseteq> {r \<in> set (dict_values (records ?reg1)). r_terminal r}"
    using excess_subset group_by_session_subset [of _ "dict_values (records ?reg1)"] by fastforce
  then have b: "droppable ?reg1 ?rs'"
    by (rule droppable_terminal [OF core_inv_drop_records [OF assms a]])
  have "prune_history reg = drop_records ?rs' ?reg1"
    by (simp add: prune_history_def Let_def)
  then show thesis using a b by (rule that)
qed

lemma core_inv_prune: "core_inv reg \<Longrightarrow> core_inv (prune_history reg)"
  by (metis prune_history_drops core_inv_drop_records)

lemma prune_fields [simp]: "queues (prune_history reg) = queues reg"
  by (simp add: prune_history_def Let_def)

lemma prune_rec_at:
  assumes "core_inv reg"
  shows "rec_at (prune_history reg) i = rec_at reg i \<or>
     (rec_at (prune_history reg) i = None \<and> (\<exists>r. rec_at reg i = Some r \<and> r_terminal r))"
proof -
  obtain rs rs' where p: "prune_history reg = drop_records rs' (drop_records rs reg)"
    and d: "droppable reg rs" "droppable (drop_records rs reg) rs'"
    using prune_history_drops [OF assms] by blast
  show ?thesis
  proof (cases "rec_at reg i")
    case None
    then show ?thesis by (simp add: p drop_records_rec_at)
  next
    case (Some r)
    show ?thesis
    proof (cases "r_terminal r")
      case True
      with Some show ?thesis by (auto simp: p drop_records_rec_at)
    next
      case False
      with Some d(1) have "i \<notin> record_id ` set rs" by (auto simp: droppable_def)
      moreover from this False Some d(2) have "i \<notin> record_id ` set rs'"
        by (auto simp: droppable_def drop_records_rec_at)
      ultimately show ?thesis by (simp add: p drop_records_rec_at)
    qed
  qed
qed

section \<open>Terminal handling\<close>

definition inv_but :: "string set \<Rightarrow> registry \<Rightarrow> bool" where
  "inv_but X reg \<longleftrightarrow> core_inv reg \<and> queue_inv reg \<and> settled_but X reg"

lemma reg_inv_but: "reg_inv reg = inv_but {} reg"
  by (simp add: reg_inv_def inv_but_def)

lemma set_record_twice: "set_record i g (set_record i f reg) = set_record i (\<lambda>r. g (f r)) reg"
proof -
  have "AList.map_entry i g (AList.map_entry i f d) = AList.map_entry i (\<lambda>r. g (f r)) d"
    for d :: "(string, job_record) dict"
    by (induction d) auto
  then show ?thesis by (simp add: set_record_def)
qed

definition retire :: "job_record \<Rightarrow> job_record \<Rightarrow> job_record" where
  "retire r r0 = (case r_lease r of
       None \<Rightarrow> r0\<lparr>r_terminal := True\<rparr>
     | Some l \<Rightarrow> r0\<lparr>r_terminal := True, r_lease := Some (l\<lparr>released := True\<rparr>)\<rparr>)"

lemma release_terminal_eq:
  "release_slot i r ((set_record i (\<lambda>r. r\<lparr>r_terminal := True\<rparr>) reg)\<lparr>queues := q\<rparr>) =
   (if holds_slot r then count_slot (- 1) r (set_record i (retire r) reg)
    else set_record i (retire r) reg)\<lparr>queues := q\<rparr>"
proof (cases "r_lease r")
  case None
  then show ?thesis
    by (simp add: release_slot_def holds_slot_def retire_def [abs_def])
next
  case (Some l)
  have rel: "released l \<Longrightarrow> l\<lparr>released := True\<rparr> = l" by (cases l) simp
  have comm: "set_record i f (reg\<lparr>queues := q\<rparr>) = (set_record i f reg)\<lparr>queues := q\<rparr>"
    "count_slot n r (reg\<lparr>queues := q\<rparr>) = (count_slot n r reg)\<lparr>queues := q\<rparr>" for f reg n
    by (simp_all add: set_record_def count_slot_def split: option.split)
  show ?thesis
    using Some
    by (cases "released l")
      (simp_all add: release_slot_def holds_slot_def Let_def split_beta comm set_record_twice
        retire_def [abs_def] release_def rel)
qed

lemma core_inv_retire:
  assumes inv: "core_inv reg" and r: "rec_at reg i = Some r"
    and st: "record_state r \<in> TERMINAL_STATES"
  shows "core_inv (if holds_slot r then count_slot (- 1) r (set_record i (retire r) reg)
                   else set_record i (retire r) reg)"
proof -
  have place: "same_place r (retire r r)"
    by (simp add: same_place_def retire_def split: option.splits)
  have h: "\<not> holds_slot (retire r r)"
    by (simp add: holds_slot_def retire_def split: option.splits)
  have ok: "record_ok i (retire r r)"
    using core_invD [OF inv r] st h
    by (auto simp: record_ok_def retire_def split: option.splits)
  show ?thesis
  proof (cases "holds_slot r")
    case True
    with h have n: "(- 1 :: int) = of_bool (holds_slot (retire r r)) - of_bool (holds_slot r)" by simp
    have "counters_ok (count_slot (- 1) r (set_record i (retire r) reg))"
      using counters_ok_shift [where f = "retire r", OF _ r place n] inv by (simp add: core_inv_def)
    moreover have "limits_ok (count_slot (- 1) r (set_record i (retire r) reg))"
      using limits_ok_release inv by (simp add: core_inv_def)
    ultimately show ?thesis using True inv r ok by (auto simp: core_inv_def)
  next
    case False
    with h have "holds_slot (retire r r) = holds_slot r" by simp
    from core_inv_same [where f = "retire r", OF inv r place this ok] False show ?thesis by simp
  qed
qed

lemma drain_queue_inv:
  assumes "inv_but X reg"
  shows "inv_but X (fst (drain_queue now lane reg))"
proof -
  obtain reg' st rest where d: "drain_loop now (queues reg lane) {} {} reg = (reg', st, rest)"
    by (cases "drain_loop now (queues reg lane) {} {} reg") auto
  have w: "\<forall>i \<in> set (queues reg lane). waiting reg i"
    using assms by (fastforce simp: inv_but_def queue_inv_def queued_ok_def waiting_def)
  have dr: "drained (queues reg lane) reg reg' rest"
    using drain_loop_inv [OF d] assms w by (simp add: inv_but_def queue_inv_def)
  let ?reg = "reg'\<lparr>queues := (queues reg')(lane := rest)\<rparr>"
  have "queued_ok ?reg l i" if "i \<in> set (queues ?reg l)" for l i
  proof -
    have old: "queued_ok reg l i"
      using that assms dr by (auto simp: inv_but_def queue_inv_def drained_def split: if_splits)
    have "i \<notin> set (queues reg lane) \<or> i \<in> set rest"
    proof (cases "l = lane")
      case True
      with that show ?thesis by simp
    next
      case False
      then show ?thesis
        using old assms by (fastforce simp: inv_but_def queue_inv_def queued_ok_def)
    qed
    with dr have "rec_at ?reg i = rec_at reg i" by (simp add: drained_def)
    with old show ?thesis by (simp add: queued_ok_def)
  qed
  then have "queue_inv ?reg"
    using dr assms by (simp add: queue_inv_def drained_def inv_but_def)
  moreover have "settled_but X ?reg"
    using dr assms by (fastforce simp: settled_but_def drained_def inv_but_def same_jobs_def)
  ultimately show ?thesis
    using d dr by (simp add: inv_but_def drain_queue_def drained_def)
qed

lemma prune_history_inv:
  assumes "inv_but X reg"
  shows "inv_but X (prune_history reg)"
proof -
  have core: "core_inv reg" using assms by (simp add: inv_but_def)
  have "queued_ok (prune_history reg) l i" if "queued_ok reg l i" for l i
    using that prune_rec_at [OF core, of i] by (auto simp: queued_ok_def)
  moreover have "rec_at (prune_history reg) i = Some r \<Longrightarrow> rec_at reg i = Some r" for i r
    using prune_rec_at [OF core, of i] by auto
  ultimately show ?thesis
    using assms core_inv_prune [OF core]
    unfolding inv_but_def queue_inv_def settled_but_def prune_fields by blast
qed

lemma terminal_locked_inv:
  assumes inv: "inv_but {i} reg" and r: "rec_at reg i = Some r"
    and st: "record_state r \<in> TERMINAL_STATES"
  shows "reg_inv (fst (terminal_locked now i r reg))"
proof -
  let ?q = "(queues reg)(r_lane r := remove1 i (queues reg (r_lane r)))"
  let ?reg = "(if holds_slot r then count_slot (- 1) r (set_record i (retire r) reg)
               else set_record i (retire r) reg)\<lparr>queues := ?q\<rparr>"
  have core: "core_inv ?reg"
    using core_inv_retire [OF _ r st] inv by (simp add: inv_but_def)
  have at: "rec_at ?reg k = (if k = i then Some (retire r r) else rec_at reg k)" for k
    using r by simp
  have "queued_ok ?reg l k" if "k \<in> set (?q l)" for l k
  proof -
    have "k \<in> set (queues reg l)" using that set_remove1_subset [of i "queues reg (r_lane r)"] by (auto split: if_splits)
    then have old: "queued_ok reg l k" using inv by (simp add: inv_but_def queue_inv_def)
    have "distinct (queues reg l)" using inv by (simp add: inv_but_def queue_inv_def)
    with that old r have "k \<noteq> i" by (auto simp: queued_ok_def split: if_splits)
    with old show ?thesis by (simp add: queued_ok_def at)
  qed
  moreover have "distinct (?q l)" for l
    using inv by (simp add: inv_but_def queue_inv_def)
  ultimately have "queue_inv ?reg" by (simp add: queue_inv_def)
  moreover have "settled_but {} ?reg"
    using inv by (auto simp: settled_but_def at inv_but_def retire_def split: option.splits)
  ultimately have "inv_but {} (prune_history ?reg)"
    using core by (intro prune_history_inv) (simp add: inv_but_def)
  then show ?thesis
    using release_terminal_eq [where i = i and r = r and reg = reg and q = ?q] drain_queue_inv
    by (simp add: terminal_locked_def Let_def reg_inv_but)
qed

section \<open>Job changes\<close>

lemma set_job_inv:
  assumes "inv_but X reg" and r: "rec_at reg i = Some r"
    and j: "j_id j = i" "REGISTRY \<in> j_listeners j" "r_terminal r \<Longrightarrow> j_state j \<in> TERMINAL_STATES"
  shows "inv_but (insert i X) (set_job i j reg)"
    and "j_state j \<notin> TERMINAL_STATES \<Longrightarrow> inv_but X (set_job i j reg)"
proof -
  let ?f = "\<lambda>r. r\<lparr>r_job := j\<rparr>"
  have inv: "core_inv reg" using assms(1) by (simp add: inv_but_def)
  have "core_inv (set_job i j reg)"
    unfolding set_job_def using core_invD [OF inv r] j
    by (intro core_inv_same [OF inv r])
      (auto simp: same_place_def holds_slot_def record_ok_def)
  moreover have "queue_inv (set_job i j reg)"
    using assms(1) unfolding inv_but_def queue_inv_def queued_ok_def set_job_def by fastforce
  ultimately show "inv_but (insert i X) (set_job i j reg)"
    "j_state j \<notin> TERMINAL_STATES \<Longrightarrow> inv_but X (set_job i j reg)"
    using assms(1) by (auto simp: inv_but_def settled_but_def set_job_def)
qed

lemma rec_at_set_job:
  "rec_at reg i = Some r \<Longrightarrow>
     rec_at (set_job i j reg) k = (if k = i then Some (r\<lparr>r_job := j\<rparr>) else rec_at reg k)"
  by (simp add: set_job_def)

text \<open>What a raising or reporting operation leaves behind, by whether the registry is told.\<close>

definition told_inv :: "string \<Rightarrow> bool \<Rightarrow> registry \<Rightarrow> bool" where
  "told_inv i told reg \<longleftrightarrow>
     (if told then inv_but {i} reg \<and> (\<forall>r. rec_at reg i = Some r \<longrightarrow> record_state r \<in> TERMINAL_STATES)
      else reg_inv reg)"

lemma set_job_told:
  assumes "reg_inv reg" "rec_at reg i = Some r" "j_id j = i" "REGISTRY \<in> j_listeners j"
    "r_terminal r \<Longrightarrow> j_state j \<in> TERMINAL_STATES"
    "told \<longleftrightarrow> j_state j \<in> TERMINAL_STATES"
  shows "told_inv i told (set_job i j reg)"
  using assms set_job_inv [of "{}" reg i r j]
  by (auto simp: told_inv_def reg_inv_but rec_at_set_job)

lemma reaches_registry_notify:
  "REGISTRY \<in> j_listeners j \<Longrightarrow> reaches_registry (notify j p rsn) \<longleftrightarrow> j_state j \<in> TERMINAL_STATES"
  by (auto simp: reaches_registry_def notify_def info_def)

lemma reg_invD:
  "reg_inv reg \<Longrightarrow> rec_at reg i = Some r \<Longrightarrow> record_ok i r"
  "reg_inv reg \<Longrightarrow> rec_at reg i = Some r \<Longrightarrow> j_state (r_job r) \<in> TERMINAL_STATES \<Longrightarrow> r_terminal r"
  by (auto simp: reg_inv_def settled_but_def dest: core_invD)

lemma reg_inv_live:
  "reg_inv reg \<Longrightarrow> rec_at reg i = Some r \<Longrightarrow> record_state r \<notin> TERMINAL_STATES \<Longrightarrow> \<not> r_terminal r"
  by (auto dest: reg_invD(1) simp: record_ok_def)

text \<open>A change of a job that tells the registry exactly when the job becomes terminal.\<close>

definition telling :: "job \<Rightarrow> job \<Rightarrow> bool \<Rightarrow> bool" where
  "telling j j' told \<longleftrightarrow> j_id j' = j_id j \<and> j_listeners j' = j_listeners j \<and>
     (j_state j \<in> TERMINAL_STATES \<longrightarrow> j_state j' = j_state j) \<and>
     (told \<longleftrightarrow> j_state j \<notin> TERMINAL_STATES \<and> j_state j' \<in> TERMINAL_STATES)"

lemma telling_cancel:
  "REGISTRY \<in> j_listeners j \<Longrightarrow>
     telling j (c_job (cancel now j)) (reaches_registry (c_notification (cancel now j)))"
  by (cases "j_state j")
    (auto simp: telling_def cancel_def Let_def reaches_registry_notify TERMINAL_STATES_def,
     simp_all add: reaches_registry_def)

lemma telling_failed:
  "REGISTRY \<in> j_listeners j \<Longrightarrow> mark_failed now err code ps j = Inr (j', n) \<Longrightarrow>
     telling j j' (reaches_registry n)"
  by (auto simp: telling_def mark_failed_def require_def bind_result_Inr Let_def
      reaches_registry_notify TERMINAL_STATES_def)

lemma telling_report:
  "REGISTRY \<in> j_listeners j \<Longrightarrow> apply_report now rep j = Inr (j', n) \<Longrightarrow>
     telling j j' (reaches_registry n)"
  by (cases rep)
    (auto simp: apply_report_def telling_failed,
     auto simp: telling_def mark_succeeded_def mark_cancelled_def finish_def require_def
       bind_result_Inr Let_def reaches_registry_notify TERMINAL_STATES_def)

lemma set_job_telling:
  assumes inv: "reg_inv reg" and r: "rec_at reg i = Some r" and t: "telling (r_job r) j told"
  shows "told_inv i told (set_job i j reg)"
proof -
  note ok = reg_invD(1) [OF inv r] reg_invD(2) [OF inv r]
  have j: "j_id j = i" "REGISTRY \<in> j_listeners j" "r_terminal r \<Longrightarrow> j_state j \<in> TERMINAL_STATES"
    using ok t by (auto simp: record_ok_def telling_def)
  note set = set_job_inv [of "{}", OF _ r j]
  show ?thesis
  proof (cases told)
    case True
    with set(1) inv r t show ?thesis
      by (auto simp: told_inv_def reg_inv_but rec_at_set_job telling_def)
  next
    case False
    show ?thesis
    proof (cases "j_state j \<in> TERMINAL_STATES")
      case True
      with False t have "j_state (r_job r) \<in> TERMINAL_STATES" by (auto simp: telling_def)
      with ok have "r_terminal r" by simp
      then have "inv_but {} (set_job i j reg)"
        using set(1) inv r by (auto simp: reg_inv_but inv_but_def settled_but_def rec_at_set_job)
      with False show ?thesis by (simp add: told_inv_def reg_inv_but)
    next
      case nt: False
      with set(2) inv False show ?thesis by (simp add: told_inv_def reg_inv_but)
    qed
  qed
qed

lemma start_failed_told:
  assumes inv: "reg_inv reg" and r: "rec_at reg i = Some r"
    and res: "start_failed now i exn (r_job r) reg = (reg1, raised, told)"
  shows "told_inv i told reg1 \<and> raised \<noteq> None"
proof -
  have l: "REGISTRY \<in> j_listeners (r_job r)" using reg_invD(1) [OF inv r] by (simp add: record_ok_def)
  show ?thesis
  proof (cases "mark_failed now exn None [] (r_job r)")
    case (Inl e)
    with res set_job_telling [OF inv r telling_cancel [OF l, of now]] show ?thesis
      by (auto simp: start_failed_def Let_def)
  next
    case (Inr p)
    then obtain j n where m: "mark_failed now exn None [] (r_job r) = Inr (j, n)" by (cases p) auto
    with res set_job_telling [OF inv r telling_failed [OF l m]] show ?thesis
      by (auto simp: start_failed_def)
  qed
qed

lemma start_one_told:
  assumes inv: "reg_inv reg" and res: "start_one c now i reg = (reg1, raised, told)"
  shows "told_inv i told reg1 \<and> (raised = None \<longrightarrow> \<not> told)"
proof (cases "rec_at reg i")
  case None
  with inv res show ?thesis by (simp add: start_one_def told_inv_def)
next
  case (Some r)
  show ?thesis
  proof (cases "JobBase.start now (r_job r)")
    case (Inl e)
    with res Some have "start_failed now i (format_state_error c e) (r_job r) reg = (reg1, raised, told)"
      by (simp add: start_one_def)
    from start_failed_told [OF inv Some this] show ?thesis by auto
  next
    case (Inr p)
    obtain j n where p: "p = (j, n)" by (cases p)
    have tel: "telling (r_job r) j False"
      using Inr p by (auto simp: JobBase.start_def mark_running_def require_def bind_result_Inr
          Let_def telling_def TERMINAL_STATES_def)
    have inv1: "reg_inv (set_job i j reg)"
      using set_job_telling [OF inv Some tel] by (simp add: told_inv_def)
    have at: "rec_at (set_job i j reg) i = Some (r\<lparr>r_job := j\<rparr>)"
      by (simp add: rec_at_set_job [OF Some])
    show ?thesis
    proof (cases "launch c i")
      case None
      with Inr p Some res inv1 show ?thesis by (auto simp: start_one_def told_inv_def)
    next
      case (Some exn)
      with Inr p \<open>rec_at reg i = Some r\<close> res
      have "start_failed now i exn j (set_job i j reg) = (reg1, raised, told)"
        by (simp add: start_one_def)
      with start_failed_told [OF inv1 at, of now exn reg1 raised told] show ?thesis by auto
    qed
  qed
qed

lemma settle:
  assumes "inv_but {i} reg" "\<forall>r. rec_at reg i = Some r \<longrightarrow> r_terminal r"
  shows "reg_inv reg"
proof -
  have "settled_but {} reg"
    using assms unfolding inv_but_def settled_but_def by blast
  with assms show ?thesis by (simp add: inv_but_def reg_inv_def)
qed

text \<open>The two mutually recursive operations keep the invariant.\<close>

lemma terminal_inv:
  "reg_inv reg \<Longrightarrow> reg_inv (fst (start_jobs c now is reg))"
  "inv_but {i} reg \<Longrightarrow> (\<forall>r. rec_at reg i = Some r \<longrightarrow> record_state r \<in> TERMINAL_STATES) \<Longrightarrow>
     reg_inv (fst (on_terminal c now i reg))"
proof (induction c now "is" reg and c now i reg rule: start_jobs_on_terminal.induct)
  case (1 c now reg)
  then show ?case by simp
next
  case (2 c now i "is" reg)
  obtain reg1 raised told where s: "start_one c now i reg = (reg1, raised, told)"
    by (cases "start_one c now i reg") auto
  from start_one_told [OF "2.prems" s] have t: "told_inv i told reg1" "raised = None \<longrightarrow> \<not> told"
    by auto
  show ?case
  proof (cases "raised = None")
    case True
    with t s "2.IH"(1) [OF s [symmetric] refl refl True] show ?thesis
      by (simp add: start_jobs.simps(2) told_inv_def)
  next
    case False
    with t s "2.IH"(2) [OF s [symmetric] refl refl False] show ?thesis
      by (cases told) (auto simp: start_jobs.simps(2) told_inv_def)
  qed
next
  case (3 c now i reg)
  show ?case
  proof (cases "rec_at reg i")
    case None
    with settle [OF "3.prems"(1)] show ?thesis by (simp add: on_terminal.simps)
  next
    case (Some r)
    show ?thesis
    proof (cases "r_terminal r")
      case True
      with Some settle [OF "3.prems"(1)] show ?thesis by (simp add: on_terminal.simps)
    next
      case False
      obtain reg1 st where t: "terminal_locked now i r reg = (reg1, st)"
        by (cases "terminal_locked now i r reg")
      have "reg_inv reg1"
        using terminal_locked_inv [OF "3.prems"(1) Some, of now] "3.prems"(2) Some t by simp
      with "3.IH" [OF Some False t [symmetric] refl] Some False t show ?thesis
        by (simp add: on_terminal.simps)
    qed
  qed
qed

lemma dispatch_inv:
  "told_inv i (reaches_registry n) reg \<Longrightarrow> reg_inv (dispatch c now i n reg)"
  by (auto simp: dispatch_def told_inv_def intro: terminal_inv split: if_splits)

section \<open>Public operations\<close>

lemma cancel_job_inv: "reg_inv reg \<Longrightarrow> reg_inv (fst (cancel_job c now i reg))"
proof (cases "rec_at reg i")
  case None
  then show "reg_inv reg \<Longrightarrow> ?thesis" by (simp add: cancel_job_def)
next
  case (Some r)
  assume inv: "reg_inv reg"
  have l: "REGISTRY \<in> j_listeners (r_job r)"
    using reg_invD(1) [OF inv Some] by (simp add: record_ok_def)
  from dispatch_inv [OF set_job_telling [OF inv Some telling_cancel [OF l]]] Some
  show ?thesis by (simp add: cancel_job_def Let_def)
qed

lemma carrier_report_inv: "reg_inv reg \<Longrightarrow> reg_inv (carrier_report c now i rep reg)"
proof (cases "rec_at reg i")
  case None
  then show "reg_inv reg \<Longrightarrow> ?thesis" by (simp add: carrier_report_def)
next
  case (Some r)
  assume inv: "reg_inv reg"
  have l: "REGISTRY \<in> j_listeners (r_job r)"
    using reg_invD(1) [OF inv Some] by (simp add: record_ok_def)
  show ?thesis
  proof (cases "apply_report now rep (r_job r)")
    case (Inl e)
    with inv Some show ?thesis by (simp add: carrier_report_def)
  next
    case (Inr p)
    then obtain j n where a: "apply_report now rep (r_job r) = Inr (j, n)" by (cases p) auto
    from dispatch_inv [OF set_job_telling [OF inv Some telling_report [OF l a]]] Some a
    show ?thesis by (simp add: carrier_report_def)
  qed
qed

text \<open>A job that was not started yet: it holds no lease and is in no queue.\<close>

definition fresh_job :: "registry \<Rightarrow> string \<Rightarrow> bool" where
  "fresh_job reg i \<longleftrightarrow> (\<forall>r. rec_at reg i = Some r \<longrightarrow> r_lease r = None) \<and>
     (\<forall>lane. i \<notin> set (queues reg lane))"

lemma admit_inv:
  assumes inv: "reg_inv reg" and "fresh_job reg i" and r: "rec_at reg i = Some r"
    and st: "record_state r = PENDING" and can: "admit_counted reg r \<Longrightarrow> can_admit reg r"
  shows "reg_inv (admit now i reg)"
proof -
  have lease: "r_lease r = None" using assms(2) r by (simp add: fresh_job_def)
  have nt: "\<not> r_terminal r" using reg_inv_live [OF inv r] st by (simp add: TERMINAL_STATES_def)
  have core: "core_inv (admit now i reg)"
    using core_inv_admit [OF _ r lease nt] can inv by (simp add: reg_inv_def)
  have "queued_ok (admit now i reg) l k" if "k \<in> set (queues reg l)" for l k
    using that assms(2) inv
    by (auto simp: reg_inv_def queue_inv_def queued_ok_def fresh_job_def admit_records [OF r])
  then have "queue_inv (admit now i reg)"
    using inv by (simp add: reg_inv_def queue_inv_def)
  moreover have "settled_but {} (admit now i reg)"
    using inv r by (auto simp: reg_inv_def settled_but_def admit_records [OF r])
  ultimately show ?thesis using core by (simp add: reg_inv_def)
qed

lemma enqueue_inv:
  assumes inv: "reg_inv reg" and f: "fresh_job reg i" and r: "rec_at reg i = Some r"
    and st: "record_state r = PENDING"
  shows "reg_inv (reg\<lparr>queues := (queues reg)(r_lane r := queues reg (r_lane r) @ [i])\<rparr>)"
proof -
  have "\<not> r_terminal r" using reg_inv_live [OF inv r] st by (simp add: TERMINAL_STATES_def)
  then have "queued_ok reg (r_lane r) i" using f r by (simp add: queued_ok_def fresh_job_def)
  with inv f show ?thesis
    by (auto simp: reg_inv_def queue_inv_def settled_but_def fresh_job_def queued_ok_def)
qed

lemma decision_admit:
  "admission_decision reg r = Inr Admit \<Longrightarrow> admit_counted reg r \<Longrightarrow> can_admit reg r"
  by (auto simp: admission_decision_def admit_counted_def quota_decision_def bind_result_Inr
      split: SlotMode.splits option.splits if_splits)

lemma finish_admission_inv:
  assumes inv: "reg_inv reg" and f: "fresh_job reg i" and d: "start_decide i reg = Inr act"
  shows "reg_inv (fst (finish_admission c now i act reg))"
proof -
  from d obtain r where r: "rec_at reg i = Some r" and st: "record_state r = PENDING"
    and a: "admission_decision reg r = Inr act"
    by (auto simp: start_decide_def bind_result_Inr split: option.splits)
  show ?thesis
  proof (cases act)
    case Admit
    have "reg_inv (admit now i reg)"
      by (rule admit_inv [OF inv f r st]) (use decision_admit a Admit in blast)
    then have "reg_inv (fst (start_jobs c now [i] (admit now i reg)))" by (rule terminal_inv)
    with Admit show ?thesis by (simp add: finish_admission_def split_beta Let_def)
  next
    case Queue
    with enqueue_inv [OF inv f r st] r st show ?thesis by (simp add: finish_admission_def)
  next
    case Reject
    with cancel_job_inv [OF inv] show ?thesis by (simp add: finish_admission_def)
  qed
qed

lemma reg_start_inv:
  assumes inv: "reg_inv reg" and f: "fresh_job reg i"
  shows "reg_inv (fst (reg_start c now i reg))"
proof (cases "start_decide i reg")
  case (Inl e)
  with inv cancel_job_inv [OF inv] show ?thesis
    by (cases e) (simp_all add: reg_start_def)
next
  case (Inr act)
  with finish_admission_inv [OF inv f Inr] show ?thesis by (simp add: reg_start_def)
qed

lemma wait_for_admission_inv:
  "reg_inv reg \<Longrightarrow> reg_inv (fst (wait_for_admission c now ex i reg))"
  by (auto simp: wait_for_admission_def cancel_job_inv split: option.splits)

lemma reg_register_inv:
  assumes inv: "reg_inv reg" and res: "reg_register now j sc lane adm reg = Inr (reg1, nfo)"
  shows "reg_inv reg1 \<and> fresh_job reg1 (j_id j)"
proof -
  let ?i = "j_id j"
  from res have new: "rec_at reg ?i = None" and st: "j_state j = PENDING"
    by (auto simp: reg_register_def bind_result_Inr)
  define r where "r = \<lparr>r_job = j, r_scope = sc, r_owner = scope_owner sc, r_lane = lane,
    r_admission = adm, r_parent_job_id = scope_parent_job_id sc, r_lease = None,
    r_queued_at = now, r_admitted_at = None, r_terminal = False\<rparr>"
  define r' where "r' = r\<lparr>r_job := add_listener REGISTRY j\<rparr>"
  have reg1: "reg1 = reg\<lparr>records := AList.update ?i r' (records reg)\<rparr>"
  proof -
    have "AList.map_entry ?i (\<lambda>r. r\<lparr>r_job := add_listener REGISTRY j\<rparr>) (AList.update ?i r d)
        = AList.update ?i r' d" if "map_of d ?i = None" for d :: "(string, job_record) dict"
      using that by (induction d) (auto simp: r'_def split: if_splits)
    with new res show ?thesis
      by (auto simp: reg_register_def bind_result_Inr set_job_def set_record_def r_def Let_def)
  qed
  have h: "\<not> holds_slot r'" by (simp add: r'_def r_def holds_slot_def)
  have at: "rec_at reg1 k = (if k = ?i then Some r' else rec_at reg k)" for k
    by (simp add: reg1)
  have "slots P reg1 = slots P reg" for P
    using new h count_dict_update_new [of ?i "records reg"]
    by (simp add: slots_def reg1 map_of_None_keys)
  then have "counters_ok reg1 = counters_ok reg"
    by (simp add: counters_ok_def) (simp add: reg1)
  moreover have "limits_ok reg1 = limits_ok reg"
    by (simp add: limits_ok_def reg1)
  ultimately have cnt: "counters_ok reg1" "limits_ok reg1"
    using inv by (simp_all add: reg_inv_def core_inv_def)
  have ok: "record_ok ?i r'"
    by (simp add: record_ok_def r'_def r_def add_listener_def)
  have core: "core_inv reg1"
    using inv cnt ok at by (auto simp: reg_inv_def core_inv_def reg1)
  have q: "?i \<notin> set (queues reg l)" for l
    using inv new by (fastforce simp: reg_inv_def queue_inv_def queued_ok_def)
  have "queue_inv reg1"
    using inv q at by (fastforce simp: reg_inv_def queue_inv_def queued_ok_def reg1)
  moreover have "settled_but {} reg1"
    using inv at st by (auto simp: reg_inv_def settled_but_def r'_def r_def add_listener_def
        TERMINAL_STATES_def)
  moreover have "fresh_job reg1 ?i"
    using at q by (simp add: fresh_job_def r'_def r_def reg1)
  ultimately show ?thesis using core by (simp add: reg_inv_def)
qed

lemma reg_submit_inv: "reg_inv reg \<Longrightarrow> reg_inv (fst (reg_submit c now j sc lane adm reg))"
  by (auto simp: reg_submit_def reg_start_inv dest: reg_register_inv split: sum.splits prod.splits)

lemma delete_record_inv:
  assumes inv: "reg_inv reg" and r: "rec_at reg i = Some r" "r_terminal r"
  shows "reg_inv (reg\<lparr>records := AList.delete i (records reg)\<rparr>)"
proof -
  have "reg\<lparr>records := AList.delete i (records reg)\<rparr> = drop_records [r] reg"
    using reg_invD(1) [OF inv r(1)] by (simp add: drop_records_def record_ok_def)
  moreover have "inv_but {} (drop_records [r] reg)"
  proof -
    have d: "droppable reg [r]"
      using reg_invD(1) [OF inv r(1)] r by (simp add: droppable_def record_ok_def)
    have core: "core_inv (drop_records [r] reg)"
      using core_inv_drop_records [OF _ d] inv by (simp add: reg_inv_def)
    have "queued_ok (drop_records [r] reg) l k" if "queued_ok reg l k" for l k
      using that r reg_invD(1) [OF inv r(1)]
      by (auto simp: queued_ok_def drop_records_rec_at record_ok_def)
    then show ?thesis
      using inv core
      by (auto simp: inv_but_def reg_inv_def queue_inv_def settled_but_def drop_records_rec_at
          split: if_splits)
  qed
  ultimately show ?thesis by (simp add: reg_inv_but)
qed

lemma reg_unregister_inv: "reg_inv reg \<Longrightarrow> reg_unregister i reg = Inr reg1 \<Longrightarrow> reg_inv reg1"
  by (auto simp: reg_unregister_def intro: delete_record_inv reg_invD(2) split: option.splits if_splits)

text \<open>Fields the invariant does not read.\<close>

lemma reg_inv_cong:
  assumes "reg_inv reg" "policy reg1 = policy reg" "records reg1 = records reg"
    "queues reg1 = queues reg" "running reg1 = running reg"
    "running_by_session reg1 = running_by_session reg"
    "running_by_thread reg1 = running_by_thread reg"
  shows "reg_inv reg1"
proof -
  have "counters_ok reg1 = counters_ok reg" "limits_ok reg1 = limits_ok reg"
    by (simp_all only: counters_ok_def limits_ok_def slots_def assms(2-7))
  then show ?thesis
    using assms by (simp add: reg_inv_def core_inv_def queue_inv_def settled_but_def queued_ok_def)
qed

lemma create_scope_inv:
  "reg_inv reg \<Longrightarrow> create_scope p k s t r pj reg = Inr (reg1, sc) \<Longrightarrow> reg_inv reg1"
  by (auto simp: create_scope_def next_scope_id_def bind_result_Inr Let_def intro: reg_inv_cong)

lemma new_job_id_inv: "reg_inv reg \<Longrightarrow> reg_inv (fst (new_job_id reg))"
  by (auto simp: new_job_id_def Let_def intro: reg_inv_cong)

lemma cancel_pending_inv: "reg_inv reg \<Longrightarrow> reg_inv (fst (cancel_pending c now is reg))"
  by (induction c now "is" reg rule: cancel_pending.induct)
    (auto simp: cancel_job_inv Let_def split_beta split: option.splits)

lemma close_running_job_inv: "reg_inv reg \<Longrightarrow> reg_inv (close_running_job c now st i reg)"
  by (auto simp: close_running_job_def Let_def cancel_job_inv carrier_report_inv
      split: option.splits)

lemma close_running_inv: "reg_inv reg \<Longrightarrow> reg_inv (fst (close_running c now beh is reg))"
  by (induction c now beh "is" reg rule: close_running.induct)
    (auto simp: close_running_job_inv Let_def split_beta split: close_behaviour.splits)

lemma close_scope_inv: "reg_inv reg \<Longrightarrow> reg_inv (fst (close_scope c now beh sc reg))"
proof -
  assume inv: "reg_inv reg"
  have "reg_inv (reg\<lparr>closed_scopes := X\<rparr>)" for X
    by (rule reg_inv_cong [OF inv]) simp_all
  then show ?thesis
    using inv by (simp add: close_scope_def Let_def split_beta close_running_inv cancel_pending_inv)
qed

lemma reg_inv_new: "reg_inv (new_registry pol h sh)"
  by (simp add: reg_inv_def core_inv_def queue_inv_def settled_but_def new_registry_def
      counters_ok_def limits_ok_def slots_def get0_def)

section \<open>Registries of sequential calls\<close>

text \<open>
  A step is one whole call of the registry or one whole report of a carrier. This is a restriction:
  \<open>start\<close> takes the lock twice, to decide and to admit, and in the code another call can run in
  between; and nothing in the code keeps a caller from starting a job a second time while it waits. A
  sequential registry is one reached by calls none of which runs inside a \<open>start\<close>, with each job started
  at most once (\<open>fresh_job\<close>), as \<open>submit\<close> and the carriers of the repository do. What goes wrong without these
  conditions is shown below on \<open>start_decide\<close> and \<open>finish_admission\<close>, the two halves of \<open>start\<close>.
\<close>

inductive reg_step :: "registry \<Rightarrow> registry \<Rightarrow> bool" where
  rs_new_id: "reg_step reg (fst (new_job_id reg))"
| rs_register: "reg_register now j sc lane adm reg = Inr (reg1, nfo) \<Longrightarrow> reg_step reg reg1"
| rs_start: "fresh_job reg i \<Longrightarrow> reg_step reg (fst (reg_start c now i reg))"
| rs_submit: "reg_step reg (fst (reg_submit c now j sc lane adm reg))"
| rs_wait: "reg_step reg (fst (wait_for_admission c now ex i reg))"
| rs_cancel: "reg_step reg (fst (cancel_job c now i reg))"
| rs_report: "reg_step reg (carrier_report c now i rep reg)"
| rs_unregister: "reg_unregister i reg = Inr reg1 \<Longrightarrow> reg_step reg reg1"
| rs_scope: "create_scope p k s t r pj reg = Inr (reg1, sc) \<Longrightarrow> reg_step reg reg1"
| rs_close: "reg_step reg (fst (close_scope c now beh sc reg))"

inductive reg_sequential :: "registry \<Rightarrow> bool" where
  rr_new: "reg_sequential (new_registry pol h sh)"
| rr_step: "reg_sequential reg \<Longrightarrow> reg_step reg reg1 \<Longrightarrow> reg_sequential reg1"

lemma reg_step_inv: "reg_step reg reg1 \<Longrightarrow> reg_inv reg \<Longrightarrow> reg_inv reg1"
  by (induction rule: reg_step.induct)
    (auto intro: new_job_id_inv reg_start_inv reg_submit_inv wait_for_admission_inv cancel_job_inv
      carrier_report_inv reg_unregister_inv create_scope_inv close_scope_inv dest: reg_register_inv)

lemma reg_sequential_inv: "reg_sequential reg \<Longrightarrow> reg_inv reg"
  by (induction rule: reg_sequential.induct) (auto intro: reg_inv_new reg_step_inv)

section \<open>Properties\<close>

text \<open>Concrete registries for the witnesses: a policy with one limit everywhere, simple jobs.\<close>

definition flat_policy :: "int \<Rightarrow> JobLimitPolicy" where
  "flat_policy n = (let l = (\<lambda>_. \<lparr>max_running = n, max_queued = 9\<rparr>) in
     \<lparr>system_limits = l, session_limits = l, thread_limits = l\<rparr>)"

definition failing_carrier :: "string option \<Rightarrow> carrier" where
  "failing_carrier x = \<lparr>launch = (\<lambda>i. if Some i = x then Some ''boom'' else None),
                        format_state_error = (\<lambda>_. ''state error'')\<rparr>"

definition sample_job :: "string \<Rightarrow> job" where
  "sample_job i = new_job i THREAD_KIND None"

definition sample_submit :: "string \<Rightarrow> registry \<Rightarrow> registry" where
  "sample_submit i reg = fst (reg_submit (failing_carrier None) 1 (sample_job i) root_scope_of
     FOREGROUND default_admission reg)"

lemma sample_submit_sequential: "reg_sequential reg \<Longrightarrow> reg_sequential (sample_submit i reg)"
  unfolding sample_submit_def by (rule rr_step [OF _ rs_submit])

text \<open>
  C5. Slot accounting is exact in every registry reached by calls that do not interleave with a start
  and start each job at most once: the running counter of each lane is the number of records that
  hold a slot in it, and the per-session and per-thread counters are the numbers for that session
  and thread. No sequence of such submissions, starts, cancellations, carrier reports, failed launches,
  timeouts, unregistrations, scope closes and prunings leaks or double-counts a slot.
\<close>

theorem registry_counters_exact:
  assumes "reg_sequential reg"
  shows "running reg lane = slots (in_lane lane) reg \<and>
    get0 (running_by_session reg) (s, lane) = slots (in_session (s, lane)) reg \<and>
    get0 (running_by_thread reg) (t, lane) = slots (in_thread (t, lane)) reg"
  using reg_sequential_inv [OF assms] by (simp add: reg_inv_def core_inv_def counters_ok_def)

theorem registry_counters_exact_witness:
  "running (sample_submit ''a'' (new_registry (flat_policy 1) 9 9)) FOREGROUND = 1 \<and>
   slots (in_lane FOREGROUND) (sample_submit ''a'' (new_registry (flat_policy 1) 9 9)) = 1"
proof -
  have "running (sample_submit ''a'' (new_registry (flat_policy 1) 9 9)) FOREGROUND = 1"
    by code_simp
  with registry_counters_exact [OF sample_submit_sequential [OF rr_new], of "''a''" "flat_policy 1" 9 9
      FOREGROUND "''s''" "''t''"]
  show ?thesis by simp
qed

text \<open>
  C26. In every registry reached by calls that do not interleave with a start and start each job at most
  once, the limits are never exceeded: the number of slots held in a
  lane is at most the system limit, the number held by one session at most the session limit, the
  number held under one thread scope at most the thread limit (a negative limit counts as 0).
\<close>

theorem registry_limits_respected:
  assumes "reg_sequential reg"
  shows "slots (in_lane lane) reg \<le> max 0 (max_running (system_limits (policy reg) lane)) \<and>
    slots (in_session (s, lane)) reg \<le> max 0 (max_running (session_limits (policy reg) lane)) \<and>
    slots (in_thread (t, lane)) reg \<le> max 0 (max_running (thread_limits (policy reg) lane))"
proof -
  have "counters_ok reg" "limits_ok reg"
    using reg_sequential_inv [OF assms] by (simp_all add: reg_inv_def core_inv_def)
  then show ?thesis unfolding counters_ok_def limits_ok_def by metis
qed

theorem registry_limits_respected_witness:
  "slots (in_lane FOREGROUND) (sample_submit ''b'' (sample_submit ''a'' (new_registry (flat_policy 1) 9 9)))
     \<le> 1 \<and>
   queues (sample_submit ''b'' (sample_submit ''a'' (new_registry (flat_policy 1) 9 9))) FOREGROUND = [''b'']"
proof -
  let ?reg = "sample_submit ''b'' (sample_submit ''a'' (new_registry (flat_policy 1) 9 9))"
  have "reg_sequential ?reg" by (intro sample_submit_sequential rr_new)
  note lim = registry_limits_respected [OF this, of FOREGROUND "''s''" "''t''"]
  have "max_running (system_limits (policy ?reg) FOREGROUND) = 1" by code_simp
  moreover have "queues ?reg FOREGROUND = [''b'']" by code_simp
  ultimately show ?thesis using lim by simp
qed

text \<open>A slot is released when its job ends: in every sequential registry a job in a terminal state
  is marked terminal, its public projection does not hold a slot, and it is in no queue.
\<close>

theorem terminal_job_holds_no_slot:
  assumes "reg_sequential reg" "rec_at reg i = Some r" "record_state r \<in> TERMINAL_STATES"
  shows "r_terminal r \<and> \<not> s_holds_slot (build_info r) \<and> i \<notin> set (queues reg lane)"
proof -
  have inv: "reg_inv reg" by (rule reg_sequential_inv [OF assms(1)])
  have t: "r_terminal r" using reg_invD(2) [OF inv assms(2)] assms(3) by simp
  moreover have "\<not> holds_slot r" using reg_invD(1) [OF inv assms(2)] t by (simp add: record_ok_def)
  moreover have "i \<notin> set (queues reg lane)"
    using inv assms(2) t by (fastforce simp: reg_inv_def queue_inv_def queued_ok_def)
  ultimately show ?thesis by (simp add: build_info_def)
qed

theorem terminal_job_holds_no_slot_witness:
  "\<not> s_holds_slot (build_info (the (rec_at (fst (cancel_job (failing_carrier None) 2 ''b''
      (sample_submit ''b'' (sample_submit ''a'' (new_registry (flat_policy 1) 9 9))))) ''b'')))"
proof -
  let ?reg = "fst (cancel_job (failing_carrier None) 2 ''b''
      (sample_submit ''b'' (sample_submit ''a'' (new_registry (flat_policy 1) 9 9))))"
  have reach: "reg_sequential ?reg"
    by (rule rr_step [OF _ rs_cancel]) (intro sample_submit_sequential rr_new)
  have "map_option record_state (rec_at ?reg ''b'') = Some CANCELLED" by code_simp
  then obtain r where r: "rec_at ?reg ''b'' = Some r" "record_state r = CANCELLED" by auto
  then have "record_state r \<in> TERMINAL_STATES" by (simp add: TERMINAL_STATES_def)
  from terminal_job_holds_no_slot [OF reach r(1) this, of FOREGROUND] r(1) show ?thesis by simp
qed

definition two_pending :: registry where
  "two_pending = fold (\<lambda>i reg. case reg_register 0 (sample_job i) root_scope_of FOREGROUND
       default_admission reg of Inr (reg1, _) \<Rightarrow> reg1 | Inl _ \<Rightarrow> reg)
     [''a'', ''b''] (new_registry (flat_policy 1) 9 9)"

text \<open>
  The limits hold only because no call interleaves with a start. \<open>start\<close> decides under the
  lock and admits under a second acquisition without looking again: two threads that both decide
  before either admits take two slots of a lane whose limit is one.
\<close>

theorem interleaved_starts_exceed_limit:
  "start_decide ''a'' two_pending = Inr Admit \<and> start_decide ''b'' two_pending = Inr Admit \<and>
   max_running (system_limits (policy two_pending) FOREGROUND) = 1 \<and>
   running (fst (finish_admission (failing_carrier None) 1 ''b'' Admit
     (fst (finish_admission (failing_carrier None) 1 ''a'' Admit two_pending)))) FOREGROUND = 2"
  by code_simp

text \<open>
  A cancellation between the two halves leaks a slot for good: the job is decided to be admitted, becomes
  terminal, and is then admitted; its launch fails because it is not pending, and the terminal report that would have
  released the slot has already been handled. After the record is gone the lane still counts it.
\<close>

definition admitted_after_cancel :: registry where
  "admitted_after_cancel = fst (finish_admission (failing_carrier None) 2 ''a'' Admit
     (fst (cancel_job (failing_carrier None) 1 ''a'' two_pending)))"

theorem cancel_inside_start_leaks_slot:
  "start_decide ''a'' two_pending = Inr Admit \<and> job_state_in admitted_after_cancel ''a'' = Some CANCELLED \<and>
   (case reg_unregister ''a'' admitted_after_cancel of Inl _ \<Rightarrow> False
    | Inr reg \<Rightarrow> rec_at reg ''a'' = None \<and> running reg FOREGROUND = 1 \<and> slots (in_lane FOREGROUND) reg = 0)"
  by code_simp

definition drained_batch :: "registry \<times> string list" where
  "drained_batch = drain_queue 1 FOREGROUND
     (two_pending\<lparr>policy := flat_policy 2,
                   queues := (queues two_pending)(FOREGROUND := [''a'', ''b''])\<rparr>)"

text \<open>A job that fails to launch takes the rest of its batch with it: the exception leaves the loop
  of \<open>_start_jobs\<close>, so a job admitted in the same drain after it stays pending, in no queue,
  with its slot held; nothing starts it later. Here one drain of a lane with two free slots admits
  both queued jobs and the first one raises.
\<close>

theorem failed_launch_strands_batch:
  "snd drained_batch = [''a'', ''b''] \<and>
   (let reg = fst (start_jobs (failing_carrier (Some ''a'')) 2 (snd drained_batch) (fst drained_batch))
    in job_state_in reg ''a'' = Some FAILED \<and> job_state_in reg ''b'' = Some PENDING \<and>
       map_option holds_slot (rec_at reg ''b'') = Some True \<and> queues reg FOREGROUND = [])"
  by code_simp

text \<open>The walk to an inherited lease does not end when a job is registered below itself: the
  registry lock is then held forever.
\<close>

theorem self_parent_never_returns:
  assumes "map_of recs i = Some r" "r_parent_job_id r = Some i" "r_lease r = None"
  shows "inherited_lease_loop recs lane (Some i) = None"
proof (rule ccontr)
  assume "inherited_lease_loop recs lane (Some i) \<noteq> None"
  then obtain y where ret: "inherited_lease_loop recs lane (Some i) = Some y" by blast
  have "recs = recs \<longrightarrow> \<not> (map_of recs i = Some r \<and> Some i = Some i)"
  proof (rule inherited_lease_loop.raw_induct
      [where P = "\<lambda>rs l cur y. rs = recs \<longrightarrow> \<not> (map_of rs i = Some r \<and> cur = Some i)", OF _ ret])
    fix f rs l cur y
    assume IH: "\<And>rs l cur y. f rs l cur = Some y \<Longrightarrow> rs = recs \<longrightarrow> \<not> (map_of rs i = Some r \<and> cur = Some i)"
      and eq: "(case cur of None \<Rightarrow> Some None
        | Some c \<Rightarrow> (case map_of rs c of None \<Rightarrow> Some None
          | Some parent \<Rightarrow>
              if (case r_lease parent of None \<Rightarrow> False
                  | Some la \<Rightarrow> lease_lane la = l \<and> \<not> released la)
              then Some (r_lease parent) else f rs l (r_parent_job_id parent))) = Some y"
    show "rs = recs \<longrightarrow> \<not> (map_of rs i = Some r \<and> cur = Some i)"
    proof (intro impI notI)
      assume "rs = recs" "map_of rs i = Some r \<and> cur = Some i"
      with eq assms have "f recs l (Some i) = Some y" by simp
      from IH [OF this] assms show False by simp
    qed
  qed
  with assms show False by simp
qed

definition self_parent :: job_record where
  "self_parent = \<lparr>r_job = sample_job ''a'', r_scope = root_scope_of,
      r_owner = scope_owner root_scope_of, r_lane = SERVICE, r_admission = default_admission,
      r_parent_job_id = Some ''a'', r_lease = None, r_queued_at = 0, r_admitted_at = None,
      r_terminal = False\<rparr>"

theorem self_parent_never_returns_witness:
  "inherited_lease_loop [(''a'', self_parent)] SERVICE (Some ''a'') = None"
  by (rule self_parent_never_returns [where r = self_parent]) (simp_all add: self_parent_def)

end
