(* ===== verification/FilePaths.thy ===== *)
theory FilePaths
  imports PyValue "HOL-Library.Sublist"
begin

text \<open>
  \<open>domain/file_paths.py\<close>: the syntax of path references and the confinement of paths to the
  session's workspace, the project and extra read roots.

  A \<open>Path\<close> is the list of its components, the anchor first. What the operating system
  answers is a parameter, the record \<open>host\<close>: whether a string is an absolute path, its
  components, the form under which two components compare (the component itself on POSIX, in lower case on
  Windows), \<open>os.path.abspath\<close>, \<open>lstat\<close> and \<open>Path.resolve\<close>. A
  \<open>ValueError\<close> is the constructor of \<open>path_error\<close> named after its message; \<open>ResolveRaised\<close>
  is the exception of a \<open>resolve\<close> that the code does not convert.
\<close>

type_synonym path = "string list"

datatype lstat_result = Missing | StatFailed | Entry bool

record host =
  host_is_abs :: "string \<Rightarrow> bool"
  host_parts :: "string \<Rightarrow> path"
  host_fold :: "string \<Rightarrow> string"
  host_abspath :: "path \<Rightarrow> path"
  host_lstat :: "path \<Rightarrow> lstat_result"
  host_resolve :: "path \<Rightarrow> path option"

datatype path_error =
    NoProjectDirectory | UnknownPrefix | CannotInspect | LinkNotSupported | EmptyPath
  | NotRelativeAfterPrefix | DriveRelative | OutsideWorkspace | CannotResolve | MustIdentifyEntry
  | ResolveRaised

definition FILE_SOURCES :: "string set" where
  "FILE_SOURCES = {''workspace'', ''project'', ''upload''}"

definition path_segments :: "string \<Rightarrow> string list" where
  "path_segments s = split_on CHR ''/'' (replace_char CHR 0x5C CHR ''/'' s)"

definition is_reference_path :: "(string \<Rightarrow> bool) \<Rightarrow> pyval \<Rightarrow> bool" where
  "is_reference_path is_abs value = (case value of
      PStr s \<Rightarrow> s \<noteq> [] \<and> (is_abs s \<or>
        (case partition_at CHR '':'' s of (scope, separator, relative) \<Rightarrow>
           separator \<and> scope \<in> {''workspace'', ''project''} \<and> relative \<noteq> [] \<and>
           hd relative \<notin> {CHR ''/'', CHR 0x5C} \<and>
           ''..'' \<notin> set (path_segments relative) \<and>
           CHR '':'' \<notin> set relative \<and> CHR 0x00 \<notin> set relative))
    | _ \<Rightarrow> False)"

record ScopedPaths =
  sp_workspace :: path
  sp_project :: "path option"

definition new_scoped_paths :: "host \<Rightarrow> path \<Rightarrow> path option \<Rightarrow> ScopedPaths" where
  "new_scoped_paths h workspace project =
     \<lparr>sp_workspace = host_abspath h workspace, sp_project = map_option (host_abspath h) project\<rparr>"

definition scope_root :: "ScopedPaths \<Rightarrow> string \<Rightarrow> path_error + path" where
  "scope_root sp scope =
     (if scope = ''workspace'' then Inr (sp_workspace sp)
      else if scope = ''project'' then
        (case sp_project sp of None \<Rightarrow> Inl NoProjectDirectory | Some p \<Rightarrow> Inr p)
      else Inl UnknownPrefix)"

text \<open>\<open>is_relative_to\<close> and \<open>==\<close> of paths compare the folded components.\<close>

definition below :: "host \<Rightarrow> path \<Rightarrow> path \<Rightarrow> bool" where
  "below h base p \<longleftrightarrow> prefix (map (host_fold h) base) (map (host_fold h) p)"

definition same_entry :: "host \<Rightarrow> path \<Rightarrow> path \<Rightarrow> bool" where
  "same_entry h p q \<longleftrightarrow> map (host_fold h) p = map (host_fold h) q"

text \<open>\<open>reject_links\<close>: the root itself, then every path on the way down. The loop stops at the
  first entry that is a link or cannot be inspected; a missing entry is skipped.\<close>

fun reject_from :: "host \<Rightarrow> path \<Rightarrow> string list \<Rightarrow> path_error + unit" where
  "reject_from h current parts = (case host_lstat h current of
      StatFailed \<Rightarrow> Inl CannotInspect
    | Entry True \<Rightarrow> Inl LinkNotSupported
    | _ \<Rightarrow> (case parts of [] \<Rightarrow> Inr () | p # ps \<Rightarrow> reject_from h (current @ [p]) ps))"

declare reject_from.simps [simp del]

definition reject_links :: "host \<Rightarrow> path \<Rightarrow> path \<Rightarrow> path_error + unit" where
  "reject_links h p base = reject_from h base (drop (length base) p)"

text \<open>\<open>root / s\<close> for a relative \<open>s\<close>: empty and \<open>.\<close> components vanish.\<close>

definition join_relative :: "path \<Rightarrow> string \<Rightarrow> path" where
  "join_relative base s = base @ filter (\<lambda>p. p \<noteq> [] \<and> p \<noteq> ''.'') (split_on CHR ''/'' s)"

definition is_drive :: "string \<Rightarrow> bool" where
  "is_drive s = (case s of a # b # _ \<Rightarrow> b = CHR '':'' \<and>
      (let n = (of_char a :: nat) in (65 \<le> n \<and> n \<le> 90) \<or> (97 \<le> n \<and> n \<le> 122)) | _ \<Rightarrow> False)"

text \<open>The first half of \<open>resolve\<close>: the candidate, the roots it may lie in and the components
  to look for \<open>..\<close> in.\<close>

definition resolve_candidate ::
  "host \<Rightarrow> ScopedPaths \<Rightarrow> path list \<Rightarrow> string \<Rightarrow> path_error + path \<times> path list \<times> string list" where
  "resolve_candidate h sp read_roots normalized =
     (case partition_at CHR '':'' normalized of (scope, separator, relative) \<Rightarrow>
      if separator \<and> scope \<in> {''workspace'', ''project''} then
        bind_result (scope_root sp scope) (\<lambda>root.
          if (relative \<noteq> [] \<and> hd relative = CHR ''/'') \<or> CHR '':'' \<in> set relative
          then Inl NotRelativeAfterPrefix
          else Inr (join_relative root relative, [root], split_on CHR ''/'' relative))
      else
        (let drive = is_drive normalized; absolute = host_is_abs h normalized in
         if drive \<and> \<not> absolute then Inl DriveRelative
         else if CHR '':'' \<in> set (drop 2 normalized) \<or> (CHR '':'' \<in> set normalized \<and> \<not> drive)
         then Inl UnknownPrefix
         else if absolute then
           Inr (host_parts h normalized,
                sp_workspace sp # (case sp_project sp of None \<Rightarrow> [] | Some p \<Rightarrow> [p]) @ read_roots,
                split_on CHR ''/'' normalized)
         else (let root = (case sp_project sp of None \<Rightarrow> sp_workspace sp | Some p \<Rightarrow> p) in
           Inr (join_relative root normalized, [root], split_on CHR ''/'' normalized))))"

fun resolve_in :: "host \<Rightarrow> bool \<Rightarrow> path \<Rightarrow> path list \<Rightarrow> path_error + path" where
  "resolve_in h allow_root lexical [] = Inl OutsideWorkspace"
| "resolve_in h allow_root lexical (r # roots) =
     (let root = host_abspath h r in
      if \<not> below h root lexical then resolve_in h allow_root lexical roots
      else bind_result (reject_links h lexical root) (\<lambda>_.
        case host_resolve h lexical of None \<Rightarrow> Inl CannotResolve
        | Some resolved \<Rightarrow> (case host_resolve h root of None \<Rightarrow> Inl ResolveRaised
          | Some real_root \<Rightarrow>
              if \<not> below h real_root resolved then resolve_in h allow_root lexical roots
              else if same_entry h resolved real_root \<and> \<not> allow_root then Inl MustIdentifyEntry
              else Inr resolved)))"

definition resolve_path ::
  "host \<Rightarrow> ScopedPaths \<Rightarrow> bool \<Rightarrow> path list \<Rightarrow> string \<Rightarrow> path_error + path" where
  "resolve_path h sp allow_root read_roots value =
     (if strip value = [] then Inl EmptyPath
      else (let normalized = replace_char CHR 0x5C CHR ''/'' (strip value) in
        bind_result (resolve_candidate h sp read_roots normalized) (\<lambda>(candidate, roots, parts).
          if ''..'' \<in> set parts \<or> CHR 0x00 \<in> set normalized then Inl OutsideWorkspace
          else resolve_in h allow_root (host_abspath h candidate) roots)))"

definition format_under :: "string \<Rightarrow> path \<Rightarrow> path \<Rightarrow> string" where
  "format_under name base resolved = name @ '':'' @ join ''/'' (drop (length base) resolved)"

fun format_in :: "host \<Rightarrow> ScopedPaths \<Rightarrow> path \<Rightarrow> string list \<Rightarrow> path_error + string" where
  "format_in h sp resolved [] = Inl OutsideWorkspace"
| "format_in h sp resolved (name # names) =
     (if name = ''project'' \<and> sp_project sp = None then format_in h sp resolved names
      else bind_result (scope_root sp name) (\<lambda>r. case host_resolve h r of
          None \<Rightarrow> Inl ResolveRaised
        | Some base \<Rightarrow> if below h base resolved then Inr (format_under name base resolved)
                       else format_in h sp resolved names))"

definition format_path :: "host \<Rightarrow> ScopedPaths \<Rightarrow> string option \<Rightarrow> path \<Rightarrow> path_error + string" where
  "format_path h sp scope p = (case host_resolve h p of None \<Rightarrow> Inl ResolveRaised
     | Some resolved \<Rightarrow> format_in h sp resolved
         (case scope of Some s \<Rightarrow> if s = [] then [''workspace'', ''project''] else [s]
          | None \<Rightarrow> [''workspace'', ''project'']))"

section \<open>Confinement\<close>

definition no_link :: "host \<Rightarrow> path \<Rightarrow> bool" where
  "no_link h p \<longleftrightarrow> host_lstat h p = Missing \<or> host_lstat h p = Entry False"

lemma reject_from_Nil: "reject_from h cur [] = Inr () \<longleftrightarrow> no_link h cur"
  by (subst reject_from.simps) (auto simp: no_link_def split: lstat_result.splits bool.splits)

lemma reject_from_Cons:
  "reject_from h cur (p # ps) = Inr () \<longleftrightarrow> no_link h cur \<and> reject_from h (cur @ [p]) ps = Inr ()"
  by (subst reject_from.simps) (auto simp: no_link_def split: lstat_result.splits bool.splits)

lemma reject_from_ok:
  "reject_from h cur parts = Inr () \<Longrightarrow> prefix q parts \<Longrightarrow> no_link h (cur @ q)"
proof (induction parts arbitrary: cur q)
  case Nil
  then show ?case by (simp add: reject_from_Nil)
next
  case (Cons p ps)
  then show ?case by (cases q) (auto simp: reject_from_Cons dest: Cons.IH [of "cur @ [p]"])
qed

text \<open>No entry on the way from \<open>base\<close> down to \<open>p\<close>, both included, is a link.\<close>

definition link_free :: "host \<Rightarrow> path \<Rightarrow> path \<Rightarrow> bool" where
  "link_free h base p \<longleftrightarrow> (\<forall>q. prefix q (drop (length base) p) \<longrightarrow> no_link h (base @ q))"

lemma reject_links_ok: "reject_links h p base = Inr () \<Longrightarrow> link_free h base p"
  by (auto simp: reject_links_def link_free_def intro: reject_from_ok)

definition confined :: "host \<Rightarrow> bool \<Rightarrow> path list \<Rightarrow> path \<Rightarrow> path \<Rightarrow> bool" where
  "confined h allow_root roots lexical p \<longleftrightarrow>
     (\<exists>r \<in> set roots. \<exists>real. host_resolve h (host_abspath h r) = Some real \<and> below h real p \<and>
        (same_entry h p real \<longrightarrow> allow_root) \<and> below h (host_abspath h r) lexical \<and>
        link_free h (host_abspath h r) lexical)"

lemma resolve_in_confined:
  assumes "resolve_in h allow_root lexical roots = Inr p"
  shows "host_resolve h lexical = Some p \<and> confined h allow_root roots lexical p"
  using assms
proof (induction roots)
  case (Cons r roots)
  let ?base = "host_abspath h r"
  consider (skip) "resolve_in h allow_root lexical roots = Inr p"
    | (here) real where "below h ?base lexical" "reject_links h lexical ?base = Inr ()"
        "host_resolve h lexical = Some p" "host_resolve h ?base = Some real" "below h real p"
        "same_entry h p real \<longrightarrow> allow_root"
    using Cons.prems by (auto simp: Let_def bind_result_Inr split: if_splits option.splits)
  then show ?case
  proof cases
    case skip
    with Cons.IH show ?thesis by (auto simp: confined_def)
  next
    case here
    with reject_links_ok [OF here(2)] show ?thesis by (auto simp: confined_def)
  qed
qed simp

lemma resolve_pathE:
  assumes "resolve_path h sp allow_root read_roots value = Inr p"
  obtains candidate roots parts where
    "resolve_candidate h sp read_roots (replace_char CHR 0x5C CHR ''/'' (strip value))
       = Inr (candidate, roots, parts)"
    "''..'' \<notin> set parts" "resolve_in h allow_root (host_abspath h candidate) roots = Inr p"
  using assms that by (auto simp: resolve_path_def Let_def bind_result_Inr split: if_splits)

lemma resolve_candidate_roots:
  assumes "resolve_candidate h sp read_roots s = Inr (candidate, roots, parts)"
  shows "set roots \<subseteq> insert (sp_workspace sp) (set_option (sp_project sp)) \<union> set read_roots"
  using assms
  by (cases "partition_at CHR '':'' s")
    (auto simp: resolve_candidate_def scope_root_def Let_def bind_result_Inr
      split: if_splits option.splits)

text \<open>
  C25. Confinement: the request names a candidate without \<open>..\<close>, and a path that \<open>resolve\<close> returns is what
  the file system resolves the absolute form of that candidate to. It lies inside the workspace, the project or
  one of the read roots, as the file system resolves that root and compares paths; it is the root itself only when
  the caller allows that; and no entry on the way from the root to the candidate is a symbolic link or a
  reparse point.
\<close>

theorem resolve_path_confined:
  assumes "resolve_path h sp allow_root read_roots value = Inr p"
  shows "\<exists>lexical candidate roots parts. host_resolve h lexical = Some p \<and>
      confined h allow_root (sp_workspace sp # (case sp_project sp of None \<Rightarrow> [] | Some q \<Rightarrow> [q]) @ read_roots)
        lexical p \<and>
      resolve_candidate h sp read_roots (replace_char CHR 0x5C CHR ''/'' (strip value)) = Inr (candidate, roots, parts) \<and>
      lexical = host_abspath h candidate \<and> ''..'' \<notin> set parts"
proof -
  from assms obtain candidate roots parts where
    c: "resolve_candidate h sp read_roots (replace_char CHR 0x5C CHR ''/'' (strip value))
         = Inr (candidate, roots, parts)" "''..'' \<notin> set parts"
    and r: "resolve_in h allow_root (host_abspath h candidate) roots = Inr p"
    by (rule resolve_pathE)
  have "set roots \<subseteq> set (sp_workspace sp # (case sp_project sp of None \<Rightarrow> [] | Some q \<Rightarrow> [q]) @ read_roots)"
    using resolve_candidate_roots [OF c(1)] by (auto split: option.splits)
  with resolve_in_confined [OF r] have "confined h allow_root (sp_workspace sp # (case sp_project sp of None \<Rightarrow> [] | Some q \<Rightarrow> [q]) @ read_roots)
      (host_abspath h candidate) p"
    unfolding confined_def by blast
  with resolve_in_confined [OF r] c show ?thesis by blast
qed

text \<open>A file system without links, whose paths are already absolute and resolved.\<close>

definition flat_host :: host where
  "flat_host = \<lparr>host_is_abs = (\<lambda>s. take 1 s = ''/''),
     host_parts = (\<lambda>s. ''/'' # filter (\<lambda>p. p \<noteq> []) (split_on CHR ''/'' s)),
     host_fold = id, host_abspath = id, host_lstat = (\<lambda>_. Entry False), host_resolve = Some\<rparr>"

definition sample_paths :: ScopedPaths where
  "sample_paths = \<lparr>sp_workspace = [''/'', ''w''], sp_project = Some [''/'', ''p'']\<rparr>"

lemma sample_resolve:
  "resolve_path flat_host sample_paths False [] ''workspace:src/a.py''
     = Inr [''/'', ''w'', ''src'', ''a.py'']"
  by code_simp

theorem resolve_path_confined_witness:
  "\<exists>lexical. host_resolve flat_host lexical = Some [''/'', ''w'', ''src'', ''a.py''] \<and>
      confined flat_host False [[''/'', ''w''], [''/'', ''p'']] lexical
        [''/'', ''w'', ''src'', ''a.py'']"
  using resolve_path_confined [OF sample_resolve] by (auto simp: sample_paths_def)

text \<open>A prefix selects its root: a request \<open>workspace:...\<close> or \<open>project:...\<close> that
  resolves does so below that root and no other, whatever read roots the caller passes.
\<close>

theorem resolve_prefix_selects_root:
  assumes "resolve_path h sp allow_root read_roots (scope @ '':'' @ rel) = Inr p"
    and "scope \<in> {''workspace'', ''project''}"
  shows "\<exists>base lexical. scope_root sp scope = Inr base \<and> confined h allow_root [base] lexical p"
proof -
  let ?s = "replace_char CHR 0x5C CHR ''/'' (strip (scope @ '':'' @ rel))"
  from assms(1) obtain candidate roots parts where
    c: "resolve_candidate h sp read_roots ?s = Inr (candidate, roots, parts)"
    and r: "resolve_in h allow_root (host_abspath h candidate) roots = Inr p"
    by (rule resolve_pathE)
  have scope: "\<forall>x \<in> set scope. \<not> is_space x \<and> x \<noteq> CHR 0x5C \<and> x \<noteq> CHR '':''" "scope \<noteq> []"
    using assms(2) by (auto simp: is_space_def)
  have "\<exists>t. strip (scope @ '':'' @ rel) = scope @ CHR '':'' # t"
    by (rule strip_keeps_prefix) (use scope in \<open>auto simp: is_space_def\<close>)
  then obtain t where t: "strip (scope @ '':'' @ rel) = scope @ CHR '':'' # t" by blast
  have "map (\<lambda>c. if c = CHR 0x5C then CHR ''/'' else c) scope = scope"
    using scope(1) by (intro map_idI) auto
  then have "?s = scope @ CHR '':'' # replace_char CHR 0x5C CHR ''/'' t"
    using t by (simp add: replace_char_def)
  then have "partition_at CHR '':'' ?s = (scope, True, replace_char CHR 0x5C CHR ''/'' t)"
    using partition_at_append scope(1) by auto
  with c assms(2) have "\<exists>base. scope_root sp scope = Inr base \<and> roots = [base]"
    by (auto simp: resolve_candidate_def bind_result_Inr split: if_splits)
  with resolve_in_confined [OF r] show ?thesis by blast
qed

theorem resolve_prefix_selects_root_witness:
  "\<exists>base lexical. scope_root sample_paths ''workspace'' = Inr base \<and>
      confined flat_host False [base] lexical [''/'', ''w'', ''src'', ''a.py'']"
  using resolve_prefix_selects_root
    [of flat_host sample_paths False "[]" "''workspace''" "''src/a.py''" "[''/'', ''w'', ''src'', ''a.py'']"]
    sample_resolve by simp

end
