(* ===== verification/MessageQueue.thy ===== *)
theory MessageQueue
  imports FilePaths
begin

text \<open>
  \<open>domain/message_queue.py\<close>, \<open>storage/message_queue_support.py\<close>,
  \<open>storage/memory_message_queue.py\<close> and \<open>storage/message_mailbox.py\<close>: queued user
  messages, delivery envelopes, and the in-memory queue with its turn, thread, report and
  turn-start streams.

  The state kinds of the code are the strings it validates. Two things are parameters, the record
  \<open>msg_host\<close>: \<open>Path(s).is_absolute()\<close> and the SHA-256 digest of a text. Every
  operation takes the current time as the string \<open>queue_utc_now()\<close> returns. An operation
  that raises before it changes anything returns \<open>Inl\<close>; \<open>ack\<close> and
  \<open>release_turn\<close>, which can raise after a change, return the changed state with the error.
\<close>

datatype queue_error =
    IdRequired | StateInvalid | ContentRequired | InvalidReference
  | EnvelopeIdsRequired | SenderKindInvalid | TargetKindInvalid | SourceIdsInvalid
  | AttemptsInvalid | WrongDispatchKind | TypeErr | KeyErr
  | QueueItemNotFound | QueueItemConflict | QueueItemStateConflict | DeliveryConflict

record msg_host =
  mh_is_abs :: "string \<Rightarrow> bool"
  mh_digest :: "string \<Rightarrow> string"

record QueuedMessage =
  qm_id :: string
  qm_thread_id :: string
  qm_content :: string
  qm_references :: "pydict list"
  qm_state :: string
  qm_created_at :: string
  qm_updated_at :: string

record MessageEnvelope =
  me_delivery_id :: string
  me_sender_kind :: string
  me_source_thread_id :: string
  me_target_kind :: string
  me_target_id :: string
  me_session_id :: string
  me_thread_id :: string
  me_payload :: pydict
  me_source_message_ids :: "string list"
  me_created_at :: string
  me_correlation_id :: "string option"
  me_attempts :: int

record ClaimedEnvelope =
  ce_stream_id :: string
  ce_envelope :: MessageEnvelope

section \<open>Validation\<close>

text \<open>The reference check of queued messages and of envelopes not sent by an agent: true when the
  reference is invalid. Membership in a frozen set raises on a value that cannot be hashed.\<close>

definition invalid_user_reference :: "msg_host \<Rightarrow> pydict \<Rightarrow> queue_error + bool" where
  "invalid_user_reference h reference =
     (if unhashable (py_get reference ''source'') then Inl TypeErr
      else Inr (py_get reference ''source'' \<notin> PStr ` FILE_SOURCES
        \<or> \<not> truthy (py_get reference ''path'') \<or> \<not> truthy (py_get reference ''display_path'')
        \<or> \<not> is_reference_path (mh_is_abs h) (py_get reference ''path'')))"

definition invalid_agent_reference :: "msg_host \<Rightarrow> pydict \<Rightarrow> queue_error + bool" where
  "invalid_agent_reference h reference =
     (let path_ok = truthy (py_get reference ''path'') \<and>
                    is_reference_path (mh_is_abs h) (py_get reference ''path'')
      in if keys reference = {''path''} then Inr (\<not> path_ok)
         else if keys reference = {''source'', ''path'', ''display_path''} then
           (if unhashable (py_get reference ''source'') then Inl TypeErr
            else Inr (\<not> (py_get reference ''source'' \<in> PStr ` FILE_SOURCES \<and> path_ok \<and>
                         truthy (py_get reference ''display_path''))))
         else Inr True)"

definition queued_post_init :: "msg_host \<Rightarrow> QueuedMessage \<Rightarrow> queue_error + unit" where
  "queued_post_init h m =
     bind_result (ensure (qm_id m \<noteq> [] \<and> qm_thread_id m \<noteq> []) IdRequired) (\<lambda>_.
     bind_result (ensure (qm_state m \<in> {''pending'', ''dispatched''}) StateInvalid) (\<lambda>_.
     bind_result (ensure (strip (qm_content m) \<noteq> [] \<or> qm_references m \<noteq> []) ContentRequired) (\<lambda>_.
     bind_result (any_result (invalid_user_reference h) (qm_references m)) (\<lambda>bad.
     ensure (\<not> bad) InvalidReference))))"

definition queued_to_dict :: "QueuedMessage \<Rightarrow> pydict" where
  "queued_to_dict m =
     [(''id'', PStr (qm_id m)), (''thread_id'', PStr (qm_thread_id m)),
      (''content'', PStr (qm_content m)), (''references'', PList (map PDict (qm_references m))),
      (''state'', PStr (qm_state m)), (''created_at'', PStr (qm_created_at m)),
      (''updated_at'', PStr (qm_updated_at m))]"

text \<open>\<open>value.get(k, [])\<close> as an iterable.\<close>

definition get_iter :: "pydict \<Rightarrow> string \<Rightarrow> queue_error + pyval list" where
  "get_iter d k = (case map_of d k of None \<Rightarrow> Inr []
     | Some v \<Rightarrow> (case py_iter v of None \<Rightarrow> Inl TypeErr | Some vs \<Rightarrow> Inr vs))"

definition or_default :: "string \<Rightarrow> string \<Rightarrow> string" where
  "or_default s d = (if s = [] then d else s)"

definition queued_from_dict :: "msg_host \<Rightarrow> string \<Rightarrow> pydict \<Rightarrow> queue_error + QueuedMessage" where
  "queued_from_dict h now value =
     bind_result (get_iter value ''references'') (\<lambda>refs.
       let m = \<lparr>qm_id = get_str value ''id'', qm_thread_id = get_str value ''thread_id'',
                qm_content = get_str value ''content'', qm_references = dict_items refs,
                qm_state = get_str value ''state'',
                qm_created_at = or_default (get_str value ''created_at'') now,
                qm_updated_at = or_default (get_str value ''updated_at'') now\<rparr>
       in bind_result (queued_post_init h m) (\<lambda>_. Inr m))"

definition envelope_content :: "MessageEnvelope \<Rightarrow> string" where
  "envelope_content e = get_str (me_payload e) ''content''"

definition envelope_references :: "MessageEnvelope \<Rightarrow> queue_error + pydict list" where
  "envelope_references e =
     bind_result (get_iter (me_payload e) ''references'') (\<lambda>vs. Inr (dict_items vs))"

definition envelope_post_init :: "msg_host \<Rightarrow> MessageEnvelope \<Rightarrow> queue_error + unit" where
  "envelope_post_init h e =
     bind_result (ensure (me_delivery_id e \<noteq> [] \<and> me_source_thread_id e \<noteq> [] \<and> me_target_id e \<noteq> []
         \<and> me_session_id e \<noteq> [] \<and> me_thread_id e \<noteq> []) EnvelopeIdsRequired) (\<lambda>_.
     bind_result (ensure (me_sender_kind e \<in> {''user'', ''agent'', ''system''}) SenderKindInvalid) (\<lambda>_.
     bind_result (ensure (me_target_kind e \<in> {''turn'', ''turn_start'', ''thread'', ''report''})
         TargetKindInvalid) (\<lambda>_.
     bind_result (ensure (me_source_message_ids e \<noteq> [] \<and> distinct (me_source_message_ids e))
         SourceIdsInvalid) (\<lambda>_.
     bind_result (ensure (0 \<le> me_attempts e) AttemptsInvalid) (\<lambda>_.
     bind_result (envelope_references e) (\<lambda>refs.
     bind_result (ensure (strip (envelope_content e) \<noteq> [] \<or> refs \<noteq> []) ContentRequired) (\<lambda>_.
     bind_result (any_result (if me_sender_kind e = ''agent'' then invalid_agent_reference h
                              else invalid_user_reference h) refs) (\<lambda>bad.
     ensure (\<not> bad) InvalidReference))))))))"

definition envelope_to_dict :: "MessageEnvelope \<Rightarrow> pydict" where
  "envelope_to_dict e =
     [(''delivery_id'', PStr (me_delivery_id e)), (''sender_kind'', PStr (me_sender_kind e)),
      (''source_thread_id'', PStr (me_source_thread_id e)),
      (''target_kind'', PStr (me_target_kind e)), (''target_id'', PStr (me_target_id e)),
      (''session_id'', PStr (me_session_id e)), (''thread_id'', PStr (me_thread_id e)),
      (''payload'', PDict (me_payload e)),
      (''source_message_ids'', PList (map PStr (me_source_message_ids e))),
      (''created_at'', PStr (me_created_at e)),
      (''correlation_id'', case me_correlation_id e of None \<Rightarrow> PNone | Some c \<Rightarrow> PStr c),
      (''attempts'', PInt (me_attempts e))]"

text \<open>\<open>dict(v or {})\<close>: a dictionary is copied, a falsy value gives the empty one, a list is read
  as key-value pairs; anything else raises.\<close>

fun pair_item :: "pyval \<Rightarrow> (string \<times> pyval) option" where
  "pair_item (PList [PStr k, v]) = Some (k, v)"
| "pair_item (PStr [a, b]) = Some ([a], PStr [b])"
| "pair_item _ = None"

definition dict_of :: "pyval \<Rightarrow> queue_error + pydict" where
  "dict_of v = (if \<not> truthy v then Inr [] else case v of
      PDict d \<Rightarrow> Inr d
    | PList xs \<Rightarrow> if (\<forall>x \<in> set xs. pair_item x \<noteq> None)
        then Inr (foldl (\<lambda>d x. AList.update (fst (the (pair_item x))) (snd (the (pair_item x))) d) [] xs)
        else Inl TypeErr
    | _ \<Rightarrow> Inl TypeErr)"

definition envelope_from_dict :: "msg_host \<Rightarrow> string \<Rightarrow> pydict \<Rightarrow> queue_error + MessageEnvelope" where
  "envelope_from_dict h now value =
     bind_result (dict_of (py_get value ''payload'')) (\<lambda>payload.
     bind_result (get_iter value ''source_message_ids'') (\<lambda>ids.
     bind_result (case py_int (if truthy (py_get value ''attempts'') then py_get value ''attempts''
         else PInt 0) of None \<Rightarrow> Inl TypeErr | Some i \<Rightarrow> Inr i) (\<lambda>attempts.
     let e = \<lparr>me_delivery_id = get_str value ''delivery_id'',
              me_sender_kind = get_str value ''sender_kind'',
              me_source_thread_id = get_str value ''source_thread_id'',
              me_target_kind = get_str value ''target_kind'',
              me_target_id = get_str value ''target_id'',
              me_session_id = get_str value ''session_id'',
              me_thread_id = get_str value ''thread_id'', me_payload = payload,
              me_source_message_ids = map py_str ids,
              me_created_at = or_default (get_str value ''created_at'') now,
              me_correlation_id = (if truthy (py_get value ''correlation_id'')
                then Some (py_str (py_get value ''correlation_id'')) else None),
              me_attempts = attempts\<rparr>
     in bind_result (envelope_post_init h e) (\<lambda>_. Inr e))))"

section \<open>Fingerprints and merging\<close>

definition fingerprint :: "msg_host \<Rightarrow> string \<Rightarrow> string \<Rightarrow> string list \<Rightarrow> string" where
  "fingerprint h thread_id turn_id message_ids =
     mh_digest h (json_text (PDict [(''thread_id'', PStr thread_id), (''turn_id'', PStr turn_id),
        (''message_ids'', PList (map PStr (sort message_ids)))]))"

definition envelope_fingerprint :: "msg_host \<Rightarrow> MessageEnvelope \<Rightarrow> string" where
  "envelope_fingerprint h e =
     mh_digest h (json_text (PDict (envelope_to_dict (e\<lparr>me_attempts := 0\<rparr>))))"

definition reference_key :: "pydict \<Rightarrow> string \<times> string" where
  "reference_key r = (get_str r ''source'', get_str r ''path'')"

fun merge_references :: "(string \<times> string) list \<Rightarrow> pydict list \<Rightarrow> pydict list" where
  "merge_references seen [] = []"
| "merge_references seen (r # rs) =
     (if reference_key r \<in> set seen then merge_references seen rs
      else r # merge_references (reference_key r # seen) rs)"

definition merge_messages :: "QueuedMessage list \<Rightarrow> string \<times> pydict list" where
  "merge_messages messages =
     (join [CHR 0x0A, CHR 0x0A] (map qm_content messages),
      merge_references [] (concat (map qm_references messages)))"

definition same_create :: "QueuedMessage \<Rightarrow> QueuedMessage \<Rightarrow> bool" where
  "same_create a b \<longleftrightarrow> qm_id a = qm_id b \<and> qm_thread_id a = qm_thread_id b \<and>
     qm_content a = qm_content b \<and>
     py_eq_list (map PDict (qm_references a)) (map PDict (qm_references b))"

section \<open>Round trips and merging\<close>

lemma get_str_PStr: "map_of d k = Some (PStr s) \<Longrightarrow> get_str d k = s"
  by (simp add: get_str_def py_str_def)

lemma get_iter_PList: "map_of d k = Some (PList xs) \<Longrightarrow> get_iter d k = Inr xs"
  by (simp add: get_iter_def)

lemma dict_of_PDict [simp]: "dict_of (PDict d) = Inr d"
  by (simp add: dict_of_def)

text \<open>Serialising an envelope and reading it back gives the same envelope, for every valid envelope
  with a creation time and no empty correlation id: the receipts and streams that store envelopes
  as dictionaries lose nothing.
\<close>

theorem envelope_roundtrip:
  assumes "envelope_post_init h e = Inr ()" "me_created_at e \<noteq> []" "me_correlation_id e \<noteq> Some []"
  shows "envelope_from_dict h now (envelope_to_dict e) = Inr e"
proof -
  let ?d = "envelope_to_dict e"
  have strs: "get_str ?d ''delivery_id'' = me_delivery_id e" "get_str ?d ''sender_kind'' = me_sender_kind e"
    "get_str ?d ''source_thread_id'' = me_source_thread_id e" "get_str ?d ''target_kind'' = me_target_kind e"
    "get_str ?d ''target_id'' = me_target_id e" "get_str ?d ''session_id'' = me_session_id e"
    "get_str ?d ''thread_id'' = me_thread_id e" "get_str ?d ''created_at'' = me_created_at e"
    by (simp_all add: envelope_to_dict_def get_str_PStr)
  have vals: "py_get ?d ''payload'' = PDict (me_payload e)" "py_get ?d ''attempts'' = PInt (me_attempts e)"
    "py_get ?d ''correlation_id'' = (case me_correlation_id e of None \<Rightarrow> PNone | Some c \<Rightarrow> PStr c)"
    "get_iter ?d ''source_message_ids'' = Inr (map PStr (me_source_message_ids e))"
    by (simp_all add: envelope_to_dict_def py_get_def get_iter_PList)
  have att: "py_int (if truthy (PInt (me_attempts e)) then PInt (me_attempts e) else PInt 0) = Some (me_attempts e)"
    by simp
  have corr: "(if truthy (py_get ?d ''correlation_id'') then Some (py_str (py_get ?d ''correlation_id'')) else None)
      = me_correlation_id e"
    using assms(3) by (cases "me_correlation_id e") (auto simp: vals)
  have created: "or_default (me_created_at e) now = me_created_at e"
    using assms(2) by (simp add: or_default_def)
  have rec: "\<lparr>me_delivery_id = me_delivery_id e, me_sender_kind = me_sender_kind e,
      me_source_thread_id = me_source_thread_id e, me_target_kind = me_target_kind e,
      me_target_id = me_target_id e, me_session_id = me_session_id e, me_thread_id = me_thread_id e,
      me_payload = me_payload e, me_source_message_ids = map py_str (map PStr (me_source_message_ids e)),
      me_created_at = me_created_at e, me_correlation_id = me_correlation_id e,
      me_attempts = me_attempts e\<rparr> = e"
    by (cases e) (simp add: comp_def)
  show ?thesis
    unfolding envelope_from_dict_def strs created corr vals(1,2,4) dict_of_PDict bind_result_simps att option.case rec Let_def
    by (simp add: assms(1))
qed

definition sample_envelope :: MessageEnvelope where
  "sample_envelope = \<lparr>me_delivery_id = ''d'', me_sender_kind = ''agent'', me_source_thread_id = ''a'',
     me_target_kind = ''thread'', me_target_id = ''t'', me_session_id = ''s'', me_thread_id = ''t'',
     me_payload = [(''content'', PStr ''hi'')], me_source_message_ids = [''m''], me_created_at = ''0'',
     me_correlation_id = Some ''c'', me_attempts = 2\<rparr>"

theorem envelope_roundtrip_witness:
  "envelope_from_dict \<lparr>mh_is_abs = (\<lambda>_. False), mh_digest = id\<rparr> ''9'' (envelope_to_dict sample_envelope)
     = Inr sample_envelope"
  by (rule envelope_roundtrip) (code_simp, simp_all add: sample_envelope_def)

lemma merge_references_keys:
  "set (map reference_key (merge_references seen rs)) = set (map reference_key rs) - set seen \<and>
   distinct (map reference_key (merge_references seen rs)) \<and> set (merge_references seen rs) \<subseteq> set rs"
  by (induction seen rs rule: merge_references.induct) auto

text \<open>Merging queued messages joins their texts in queue order, separated by blank lines, and keeps
  each referenced file once: the merged references are among the messages' references, no two name
  the same source and path, and every referenced source and path is kept.
\<close>

theorem merge_messages_spec:
  "fst (merge_messages ms) = join [CHR 0x0A, CHR 0x0A] (map qm_content ms) \<and>
   set (snd (merge_messages ms)) \<subseteq> (\<Union>m \<in> set ms. set (qm_references m)) \<and>
   distinct (map reference_key (snd (merge_messages ms))) \<and>
   reference_key ` set (snd (merge_messages ms)) = reference_key ` (\<Union>m \<in> set ms. set (qm_references m))"
  using merge_references_keys [of "[]" "concat (map qm_references ms)"]
  by (auto simp: merge_messages_def)

end
