(* ===== verification/MemoryQueue.thy ===== *)
theory MemoryQueue
  imports MessageQueue
begin

text \<open>
  \<open>storage/memory_message_queue.py\<close>: the class \<open>MemoryMessageQueue\<close>. Its lock makes every
  method one atomic step. \<open>mq_receipts\<close> holds, per delivery id, the fingerprint, the delivery
  state and the envelope as first dispatched.
\<close>

record stream_entry =
  en_stream_id :: string
  en_envelope :: MessageEnvelope
  en_claimed_at :: int
  en_owner :: "string option"

type_synonym receipt = "string \<times> string \<times> MessageEnvelope"

record memory_queue =
  mq_queues :: "(string, QueuedMessage list) dict"
  mq_streams :: "(string, stream_entry list) dict"
  mq_thread_streams :: "(string, stream_entry list) dict"
  mq_report_streams :: "(string, stream_entry list) dict"
  mq_turn_start :: "stream_entry list"
  mq_receipts :: "(string, receipt) dict"
  mq_counter :: nat

definition new_memory_queue :: memory_queue where
  "new_memory_queue = \<lparr>mq_queues = [], mq_streams = [], mq_thread_streams = [],
     mq_report_streams = [], mq_turn_start = [], mq_receipts = [], mq_counter = 0\<rparr>"

text \<open>\<open>d.get(k, [])\<close>.\<close>

definition dget :: "('k, 'v list) dict \<Rightarrow> 'k \<Rightarrow> 'v list" where
  "dget d k = (case map_of d k of None \<Rightarrow> [] | Some xs \<Rightarrow> xs)"

definition mq_list :: "string \<Rightarrow> memory_queue \<Rightarrow> QueuedMessage list" where
  "mq_list thread_id q = dget (mq_queues q) thread_id"

definition mq_create ::
  "QueuedMessage \<Rightarrow> memory_queue \<Rightarrow> queue_error + memory_queue \<times> QueuedMessage \<times> bool" where
  "mq_create item q = (let items = dget (mq_queues q) (qm_thread_id item) in
     case find (\<lambda>v. qm_id v = qm_id item) items of
       Some existing \<Rightarrow>
         if same_create existing item then Inr (q, existing, False) else Inl QueueItemConflict
     | None \<Rightarrow> Inr (q\<lparr>mq_queues := AList.update (qm_thread_id item) (items @ [item]) (mq_queues q)\<rparr>,
                    item, True))"

text \<open>The loops of \<open>update\<close> and \<open>delete\<close> act on the first item with the id.\<close>

fun update_item ::
  "msg_host \<Rightarrow> string \<Rightarrow> string \<Rightarrow> string \<Rightarrow> pydict list \<Rightarrow> QueuedMessage list
     \<Rightarrow> queue_error + QueuedMessage list \<times> QueuedMessage" where
  "update_item h now message_id content refs [] = Inl QueueItemNotFound"
| "update_item h now message_id content refs (item # items) =
     (if qm_id item \<noteq> message_id then
        bind_result (update_item h now message_id content refs items)
          (\<lambda>(items', changed). Inr (item # items', changed))
      else if qm_state item \<noteq> ''pending'' then Inl QueueItemStateConflict
      else (let item' = item\<lparr>qm_content := content, qm_references := refs, qm_updated_at := now\<rparr>
        in bind_result (queued_post_init h item') (\<lambda>_. Inr (item' # items, item'))))"

definition mq_update ::
  "msg_host \<Rightarrow> string \<Rightarrow> string \<Rightarrow> string \<Rightarrow> string \<Rightarrow> pydict list \<Rightarrow> memory_queue
     \<Rightarrow> queue_error + memory_queue \<times> QueuedMessage" where
  "mq_update h now thread_id message_id content refs q =
     bind_result (update_item h now message_id content refs (dget (mq_queues q) thread_id))
       (\<lambda>(items, changed).
          Inr (q\<lparr>mq_queues := AList.update thread_id items (mq_queues q)\<rparr>, changed))"

fun delete_item :: "string \<Rightarrow> QueuedMessage list \<Rightarrow> queue_error + QueuedMessage list" where
  "delete_item message_id [] = Inl QueueItemNotFound"
| "delete_item message_id (item # items) =
     (if qm_id item \<noteq> message_id then
        bind_result (delete_item message_id items) (\<lambda>items'. Inr (item # items'))
      else if qm_state item \<noteq> ''pending'' then Inl QueueItemStateConflict
      else Inr items)"

definition mq_delete :: "string \<Rightarrow> string \<Rightarrow> memory_queue \<Rightarrow> queue_error + memory_queue" where
  "mq_delete thread_id message_id q =
     bind_result (delete_item message_id (dget (mq_queues q) thread_id))
       (\<lambda>items. Inr (q\<lparr>mq_queues := AList.update thread_id items (mq_queues q)\<rparr>))"

text \<open>\<open>replace(item, state=..., updated_at=now)\<close>. The replacement validates the message again;
  that cannot fail for a message that was valid (\<open>queued_post_init_set_state\<close>).\<close>

definition set_state :: "string \<Rightarrow> string \<Rightarrow> string set \<Rightarrow> QueuedMessage list \<Rightarrow> QueuedMessage list" where
  "set_state st now ids items =
     map (\<lambda>item. if qm_id item \<in> ids then item\<lparr>qm_state := st, qm_updated_at := now\<rparr> else item) items"

definition drop_ids :: "string set \<Rightarrow> QueuedMessage list \<Rightarrow> QueuedMessage list" where
  "drop_ids ids items = filter (\<lambda>item. qm_id item \<notin> ids) items"

definition next_stream_id :: "memory_queue \<Rightarrow> string" where
  "next_stream_id q = str_nat (mq_counter q + 1) @ ''-0''"

definition new_entry :: "memory_queue \<Rightarrow> MessageEnvelope \<Rightarrow> stream_entry" where
  "new_entry q e = \<lparr>en_stream_id = next_stream_id q, en_envelope = e, en_claimed_at = 0, en_owner = None\<rparr>"

definition push :: "string \<Rightarrow> stream_entry \<Rightarrow> (string, stream_entry list) dict
    \<Rightarrow> (string, stream_entry list) dict" where
  "push k e d = AList.update k (dget d k @ [e]) d"

definition by_id :: "QueuedMessage list \<Rightarrow> (string, QueuedMessage) dict" where
  "by_id items = foldl (\<lambda>d item. AList.update (qm_id item) item d) [] items"

definition select_items :: "string list \<Rightarrow> QueuedMessage list \<Rightarrow> QueuedMessage list" where
  "select_items message_ids items =
     map (\<lambda>item. the (map_of (by_id items) (qm_id item)))
       (filter (\<lambda>item. qm_id item \<in> set message_ids) items)"

definition dispatch_payload :: "QueuedMessage list \<Rightarrow> pydict option \<Rightarrow> pydict" where
  "dispatch_payload selected command_payload =
     (case merge_messages selected of (content, refs) \<Rightarrow>
        let payload = [(''content'', PStr content), (''references'', PList (map PDict refs))]
        in case command_payload of None \<Rightarrow> payload
           | Some cp \<Rightarrow> AList.update ''queued'' (PBool True)
               (foldl (\<lambda>d (k, v). AList.update k v d) payload cp))"

definition dispatch_envelope ::
  "string \<Rightarrow> string \<Rightarrow> string \<Rightarrow> string \<Rightarrow> string \<Rightarrow> string option \<Rightarrow> pydict option
     \<Rightarrow> QueuedMessage list \<Rightarrow> MessageEnvelope" where
  "dispatch_envelope now did session_id thread_id turn_id correlation_id command_payload selected =
     \<lparr>me_delivery_id = did, me_sender_kind = ''user'', me_source_thread_id = thread_id,
      me_target_kind = (if command_payload \<noteq> None then ''turn_start'' else ''turn''),
      me_target_id = turn_id, me_session_id = session_id, me_thread_id = thread_id,
      me_payload = dispatch_payload selected command_payload,
      me_source_message_ids = map qm_id selected, me_created_at = now,
      me_correlation_id = correlation_id, me_attempts = 0\<rparr>"

text \<open>The end of \<open>dispatch\<close>: mark the messages, append the entry, store the receipt.\<close>

definition dispatch_commit ::
  "string \<Rightarrow> string \<Rightarrow> string \<Rightarrow> string \<Rightarrow> string \<Rightarrow> bool \<Rightarrow> MessageEnvelope \<Rightarrow> QueuedMessage list
     \<Rightarrow> memory_queue \<Rightarrow> memory_queue" where
  "dispatch_commit now fp did thread_id turn_id to_start e items q =
     (let entry = new_entry q e;
          q1 = q\<lparr>mq_queues := AList.update thread_id
                   (set_state ''dispatched'' now (set (me_source_message_ids e)) items) (mq_queues q),
                 mq_counter := mq_counter q + 1,
                 mq_receipts := AList.update did (fp, ''dispatched'', e) (mq_receipts q)\<rparr>
      in if to_start then q1\<lparr>mq_turn_start := mq_turn_start q @ [entry]\<rparr>
         else q1\<lparr>mq_streams := push turn_id entry (mq_streams q)\<rparr>)"

definition mq_dispatch ::
  "msg_host \<Rightarrow> string \<Rightarrow> string \<Rightarrow> string list \<Rightarrow> string \<Rightarrow> string \<Rightarrow> string \<Rightarrow> string option
     \<Rightarrow> pydict option \<Rightarrow> memory_queue \<Rightarrow> queue_error + memory_queue \<times> MessageEnvelope" where
  "mq_dispatch h now did message_ids session_id thread_id turn_id correlation_id command_payload q =
     (let fp = fingerprint h thread_id turn_id message_ids;
          receipt = map_of (mq_receipts q) did;
          items = dget (mq_queues q) thread_id;
          selected = select_items message_ids items;
          send = (\<lambda>old.
            if length selected \<noteq> length message_ids then Inl QueueItemNotFound
            else if (\<exists>item \<in> set selected. qm_state item \<noteq> ''pending'') then Inl QueueItemStateConflict
            else
              bind_result (case old of Some e \<Rightarrow> Inr e
                | None \<Rightarrow> (let e = dispatch_envelope now did session_id thread_id turn_id
                              correlation_id command_payload selected
                           in bind_result (envelope_post_init h e) (\<lambda>_. Inr e))) (\<lambda>e.
              if map_of (mq_queues q) thread_id = None then Inl KeyErr
              else Inr (dispatch_commit now fp did thread_id turn_id (command_payload \<noteq> None)
                          e items q, e)))
      in case receipt of
           None \<Rightarrow> send None
         | Some (fp', st, e) \<Rightarrow>
             if fp' \<noteq> fp then Inl DeliveryConflict
             else if st \<noteq> ''returned'' then Inr (q, e) else send (Some e))"

text \<open>The three envelope dispatches share their body; the stream they append to differs.\<close>

definition dispatch_canonical ::
  "msg_host \<Rightarrow> (stream_entry \<Rightarrow> memory_queue \<Rightarrow> memory_queue) \<Rightarrow> MessageEnvelope \<Rightarrow> memory_queue
     \<Rightarrow> queue_error + memory_queue \<times> MessageEnvelope" where
  "dispatch_canonical h append_to e q =
     (let fp = envelope_fingerprint h e in
      case map_of (mq_receipts q) (me_delivery_id e) of
        Some (fp', _, stored) \<Rightarrow> if fp' \<noteq> fp then Inl DeliveryConflict else Inr (q, stored)
      | None \<Rightarrow> (let canonical = e\<lparr>me_attempts := 0\<rparr> in
          Inr ((append_to (new_entry q canonical) q)
                 \<lparr>mq_counter := mq_counter q + 1,
                  mq_receipts := AList.update (me_delivery_id e) (fp, ''dispatched'', canonical)
                    (mq_receipts q)\<rparr>, canonical)))"

definition mq_dispatch_turn_start ::
  "msg_host \<Rightarrow> MessageEnvelope \<Rightarrow> memory_queue \<Rightarrow> queue_error + memory_queue \<times> MessageEnvelope" where
  "mq_dispatch_turn_start h e q =
     (if me_sender_kind e \<noteq> ''user'' \<or> me_target_kind e \<noteq> ''turn_start'' then Inl WrongDispatchKind
      else dispatch_canonical h (\<lambda>en q. q\<lparr>mq_turn_start := mq_turn_start q @ [en]\<rparr>) e q)"

definition mq_dispatch_agent ::
  "msg_host \<Rightarrow> MessageEnvelope \<Rightarrow> memory_queue \<Rightarrow> queue_error + memory_queue \<times> MessageEnvelope" where
  "mq_dispatch_agent h e q =
     (if me_sender_kind e \<noteq> ''agent'' \<or> me_target_kind e \<noteq> ''thread'' then Inl WrongDispatchKind
      else dispatch_canonical h
        (\<lambda>en q. q\<lparr>mq_thread_streams := push (me_target_id e) en (mq_thread_streams q)\<rparr>) e q)"

definition mq_dispatch_report ::
  "msg_host \<Rightarrow> MessageEnvelope \<Rightarrow> memory_queue \<Rightarrow> queue_error + memory_queue \<times> MessageEnvelope" where
  "mq_dispatch_report h e q =
     (if me_sender_kind e \<noteq> ''agent'' \<or> me_target_kind e \<noteq> ''report'' then Inl WrongDispatchKind
      else dispatch_canonical h
        (\<lambda>en q. q\<lparr>mq_report_streams := push (me_target_id e) en (mq_report_streams q)\<rparr>) e q)"

section \<open>Claims\<close>

definition claim_entry :: "string \<Rightarrow> stream_entry \<Rightarrow> stream_entry" where
  "claim_entry consumer en = en\<lparr>en_envelope := (en_envelope en)\<lparr>me_attempts := me_attempts (en_envelope en) + 1\<rparr>,
     en_claimed_at := en_claimed_at en + 1, en_owner := Some consumer\<rparr>"

fun claim_first :: "(stream_entry \<Rightarrow> bool) \<Rightarrow> string \<Rightarrow> stream_entry list
    \<Rightarrow> (ClaimedEnvelope \<times> stream_entry list) option" where
  "claim_first P consumer [] = None"
| "claim_first P consumer (en # ens) =
     (if P en then (let c = claim_entry consumer en in
        Some (\<lparr>ce_stream_id = en_stream_id c, ce_envelope = en_envelope c\<rparr>, c # ens))
      else map_option (\<lambda>(c, ens'). (c, en # ens')) (claim_first P consumer ens))"

definition unowned :: "stream_entry \<Rightarrow> bool" where
  "unowned en \<longleftrightarrow> en_owner en = None"

definition mq_claim :: "string \<Rightarrow> string \<Rightarrow> memory_queue \<Rightarrow> memory_queue \<times> ClaimedEnvelope option" where
  "mq_claim turn_id consumer q =
     (case claim_first unowned consumer (dget (mq_streams q) turn_id) of
        None \<Rightarrow> (q, None)
      | Some (c, ens) \<Rightarrow> (q\<lparr>mq_streams := AList.update turn_id ens (mq_streams q)\<rparr>, Some c))"

definition mq_claim_turn_start ::
  "string \<Rightarrow> bool \<Rightarrow> memory_queue \<Rightarrow> memory_queue \<times> ClaimedEnvelope option" where
  "mq_claim_turn_start consumer recover q =
     (case claim_first (\<lambda>en. unowned en \<or> recover) consumer (mq_turn_start q) of
        None \<Rightarrow> (q, None)
      | Some (c, ens) \<Rightarrow> (q\<lparr>mq_turn_start := ens\<rparr>, Some c))"

definition mq_claim_thread ::
  "string \<Rightarrow> string \<Rightarrow> memory_queue \<Rightarrow> memory_queue \<times> ClaimedEnvelope option" where
  "mq_claim_thread thread_id consumer q =
     (case claim_first unowned consumer (dget (mq_thread_streams q) thread_id) of
        None \<Rightarrow> (q, None)
      | Some (c, ens) \<Rightarrow> (q\<lparr>mq_thread_streams := AList.update thread_id ens (mq_thread_streams q)\<rparr>, Some c))"

definition mq_claim_thread_recovery ::
  "string \<Rightarrow> string \<Rightarrow> memory_queue \<Rightarrow> memory_queue \<times> ClaimedEnvelope option" where
  "mq_claim_thread_recovery thread_id consumer q =
     (case claim_first (\<lambda>_. True) consumer (dget (mq_thread_streams q) thread_id) of
        None \<Rightarrow> (q, None)
      | Some (c, ens) \<Rightarrow> (q\<lparr>mq_thread_streams := AList.update thread_id ens (mq_thread_streams q)\<rparr>, Some c))"

definition mq_claim_report ::
  "string \<Rightarrow> string \<Rightarrow> bool \<Rightarrow> memory_queue \<Rightarrow> memory_queue \<times> ClaimedEnvelope option" where
  "mq_claim_report thread_id consumer recover q =
     (case claim_first (\<lambda>en. unowned en \<or> recover) consumer (dget (mq_report_streams q) thread_id) of
        None \<Rightarrow> (q, None)
      | Some (c, ens) \<Rightarrow> (q\<lparr>mq_report_streams := AList.update thread_id ens (mq_report_streams q)\<rparr>, Some c))"

definition mq_peek_thread :: "string \<Rightarrow> memory_queue \<Rightarrow> MessageEnvelope option" where
  "mq_peek_thread thread_id q = (case dget (mq_thread_streams q) thread_id of
     [] \<Rightarrow> None | en # _ \<Rightarrow> Some (en_envelope en))"

section \<open>Acknowledgement and release\<close>

definition set_receipt :: "string \<Rightarrow> string \<Rightarrow> memory_queue \<Rightarrow> memory_queue \<times> queue_error option" where
  "set_receipt st did q = (case map_of (mq_receipts q) did of
      None \<Rightarrow> (q, Some KeyErr)
    | Some (fp, _, stored) \<Rightarrow>
        (q\<lparr>mq_receipts := AList.update did (fp, st, stored) (mq_receipts q)\<rparr>, None))"

definition remove_stream_id :: "string \<Rightarrow> stream_entry list \<Rightarrow> stream_entry list" where
  "remove_stream_id sid ens = filter (\<lambda>en. en_stream_id en \<noteq> sid) ens"

definition remove_from :: "string \<Rightarrow> string \<Rightarrow> (string, stream_entry list) dict
    \<Rightarrow> (string, stream_entry list) dict" where
  "remove_from k sid d = AList.update k (remove_stream_id sid (dget d k)) d"

definition drop_sources :: "MessageEnvelope \<Rightarrow> memory_queue \<Rightarrow> memory_queue" where
  "drop_sources e q = q\<lparr>mq_queues := AList.update (me_thread_id e)
     (drop_ids (set (me_source_message_ids e)) (dget (mq_queues q) (me_thread_id e))) (mq_queues q)\<rparr>"

definition ack_remove :: "ClaimedEnvelope \<Rightarrow> memory_queue \<Rightarrow> memory_queue" where
  "ack_remove claimed q =
     (let e = ce_envelope claimed; sid = ce_stream_id claimed in
      if me_target_kind e = ''thread'' then
        q\<lparr>mq_thread_streams := remove_from (me_target_id e) sid (mq_thread_streams q)\<rparr>
      else if me_target_kind e = ''report'' then
        q\<lparr>mq_report_streams := remove_from (me_target_id e) sid (mq_report_streams q)\<rparr>
      else if me_target_kind e = ''turn_start'' then
        (let q1 = q\<lparr>mq_turn_start := remove_stream_id sid (mq_turn_start q)\<rparr>
         in if truthy (py_get (me_payload e) ''queued'') then drop_sources e q1 else q1)
      else drop_sources e (q\<lparr>mq_streams := remove_from (me_target_id e) sid (mq_streams q)\<rparr>))"

definition mq_ack :: "ClaimedEnvelope \<Rightarrow> memory_queue \<Rightarrow> memory_queue \<times> queue_error option" where
  "mq_ack claimed q = set_receipt ''acknowledged'' (me_delivery_id (ce_envelope claimed)) (ack_remove claimed q)"

definition return_sources :: "string \<Rightarrow> MessageEnvelope \<Rightarrow> memory_queue \<Rightarrow> memory_queue" where
  "return_sources now e q = q\<lparr>mq_queues := AList.update (me_thread_id e)
     (set_state ''pending'' now (set (me_source_message_ids e)) (dget (mq_queues q) (me_thread_id e)))
     (mq_queues q)\<rparr>"

fun release_entries :: "string \<Rightarrow> stream_entry list \<Rightarrow> memory_queue \<Rightarrow> memory_queue \<times> queue_error option" where
  "release_entries now [] q = (q, None)"
| "release_entries now (en # ens) q =
     (case set_receipt ''returned'' (me_delivery_id (en_envelope en)) (return_sources now (en_envelope en) q) of
        (q1, Some err) \<Rightarrow> (q1, Some err)
      | (q1, None) \<Rightarrow> release_entries now ens q1)"

definition mq_release_turn :: "string \<Rightarrow> string \<Rightarrow> memory_queue \<Rightarrow> memory_queue \<times> queue_error option" where
  "mq_release_turn now turn_id q =
     release_entries now (dget (mq_streams q) turn_id) (q\<lparr>mq_streams := AList.delete turn_id (mq_streams q)\<rparr>)"

definition all_entries :: "memory_queue \<Rightarrow> stream_entry list" where
  "all_entries q = concat (dict_values (mq_streams q)) @ concat (dict_values (mq_thread_streams q))
     @ concat (dict_values (mq_report_streams q)) @ mq_turn_start q"

definition mq_pending_deliveries :: "memory_queue \<Rightarrow> ClaimedEnvelope list" where
  "mq_pending_deliveries q =
     map (\<lambda>en. \<lparr>ce_stream_id = en_stream_id en, ce_envelope = en_envelope en\<rparr>) (all_entries q)"

section \<open>Mailboxes\<close>

text \<open>
  \<open>RedisTurnMailbox\<close> and \<open>RedisAgentMailbox\<close> work over any queue: the claim functions of the
  queue are arguments. An item's \<open>_ack\<close> callback is the claim it acknowledges.
\<close>

record mailbox_item =
  mi_delivery_id :: string
  mi_content :: string
  mi_references :: "pydict list"
  mi_source_thread_id :: string
  mi_need_reply :: bool
  mi_ack :: ClaimedEnvelope

definition mailbox_item_of :: "ClaimedEnvelope \<Rightarrow> queue_error + mailbox_item" where
  "mailbox_item_of c = (let e = ce_envelope c in
     bind_result (envelope_references e) (\<lambda>refs.
       Inr \<lparr>mi_delivery_id = me_delivery_id e, mi_content = envelope_content e, mi_references = refs,
            mi_source_thread_id = me_source_thread_id e,
            mi_need_reply = truthy (py_get (me_payload e) ''need_reply''), mi_ack = c\<rparr>))"

record TurnMailbox =
  mb_turn_id :: string
  mb_consumer :: string
  mb_closed :: bool

definition mailbox_close :: "TurnMailbox \<Rightarrow> TurnMailbox" where
  "mailbox_close mb = mb\<lparr>mb_closed := True\<rparr>"

definition turn_take ::
  "(string \<Rightarrow> string \<Rightarrow> 'q \<Rightarrow> 'q \<times> ClaimedEnvelope option) \<Rightarrow> TurnMailbox \<Rightarrow> 'q
     \<Rightarrow> 'q \<times> (queue_error + mailbox_item list)" where
  "turn_take claim mb q =
     (if mb_closed mb then (q, Inr [])
      else case claim (mb_turn_id mb) (mb_consumer mb) q of
          (q1, None) \<Rightarrow> (q1, Inr [])
        | (q1, Some c) \<Rightarrow> (q1, bind_result (mailbox_item_of c) (\<lambda>item. Inr [item])))"

record AgentMailbox = TurnMailbox +
  mb_thread_id :: string

definition agent_take ::
  "(string \<Rightarrow> string \<Rightarrow> 'q \<Rightarrow> 'q \<times> ClaimedEnvelope option)
     \<Rightarrow> (string \<Rightarrow> string \<Rightarrow> 'q \<Rightarrow> 'q \<times> ClaimedEnvelope option) \<Rightarrow> AgentMailbox \<Rightarrow> 'q
     \<Rightarrow> 'q \<times> (queue_error + mailbox_item list)" where
  "agent_take claim claim_thread mb q =
     (case turn_take claim (TurnMailbox.truncate mb) q of
        (q1, Inl err) \<Rightarrow> (q1, Inl err)
      | (q1, Inr items) \<Rightarrow>
          if items \<noteq> [] \<or> mb_closed mb then (q1, Inr items)
          else case claim_thread (mb_thread_id mb) (mb_consumer mb) q1 of
              (q2, None) \<Rightarrow> (q2, Inr [])
            | (q2, Some c) \<Rightarrow> (q2, bind_result (mailbox_item_of c) (\<lambda>item. Inr [item])))"

end
