(* ===== verification/MemoryQueueInv.thy ===== *)
theory MemoryQueueInv
  imports MemoryQueue "HOL-Library.Multiset"
begin

text \<open>
  Correctness of the in-memory message queue. The invariant is stated over an abstract view: the
  entries of each stream location, the items of each thread and the receipt of each delivery as
  functions. Every method changes the view at one location, so each preservation lemma is about one
  function update.
\<close>

section \<open>The abstract view\<close>

datatype location = Turn_stream string | Thread_stream string | Report_stream string | Start_stream

fun stream_at :: "memory_queue \<Rightarrow> location \<Rightarrow> stream_entry list" where
  "stream_at q (Turn_stream t) = dget (mq_streams q) t"
| "stream_at q (Thread_stream t) = dget (mq_thread_streams q) t"
| "stream_at q (Report_stream t) = dget (mq_report_streams q) t"
| "stream_at q Start_stream = mq_turn_start q"

text \<open>An entry is seen as its stream id and its envelope without the attempt counter.\<close>

type_synonym view = "location \<Rightarrow> (string \<times> MessageEnvelope) list"

definition env0 :: "MessageEnvelope \<Rightarrow> MessageEnvelope" where
  "env0 e = e\<lparr>me_attempts := 0\<rparr>"

definition entry_view :: "stream_entry \<Rightarrow> string \<times> MessageEnvelope" where
  "entry_view en = (en_stream_id en, env0 (en_envelope en))"

definition entries :: "memory_queue \<Rightarrow> view" where
  "entries q loc = map entry_view (stream_at q loc)"

abbreviation items :: "memory_queue \<Rightarrow> string \<Rightarrow> QueuedMessage list" where
  "items q \<equiv> dget (mq_queues q)"

abbreviation receipts :: "memory_queue \<Rightarrow> string \<Rightarrow> receipt option" where
  "receipts q \<equiv> map_of (mq_receipts q)"

lemma dget_update [simp]: "dget (AList.update k v d) = (dget d)(k := v)"
  by (auto simp: dget_def fun_eq_iff)

lemma dget_delete [simp]: "dget (AList.delete k d) = (dget d)(k := [])"
  by (auto simp: dget_def fun_eq_iff)

lemma dget_push [simp]: "dget (push k e d) = (dget d)(k := dget d k @ [e])"
  by (simp add: push_def)

lemma dget_remove_from [simp]:
  "dget (remove_from k sid d) = (dget d)(k := remove_stream_id sid (dget d k))"
  by (simp add: remove_from_def)

lemma env0_fields [simp]:
  "me_delivery_id (env0 e) = me_delivery_id e" "me_target_kind (env0 e) = me_target_kind e"
  "me_target_id (env0 e) = me_target_id e" "me_thread_id (env0 e) = me_thread_id e"
  "me_source_message_ids (env0 e) = me_source_message_ids e" "me_payload (env0 e) = me_payload e"
  "me_attempts (env0 e) = 0" "env0 (e\<lparr>me_attempts := k\<rparr>) = env0 e" "env0 (env0 e) = env0 e"
  by (simp_all add: env0_def)

lemma env0_eqD:
  assumes "env0 a = env0 b"
  shows "me_delivery_id a = me_delivery_id b" "me_target_kind a = me_target_kind b"
    "me_target_id a = me_target_id b" "me_thread_id a = me_thread_id b"
    "me_source_message_ids a = me_source_message_ids b" "me_payload a = me_payload b"
  using arg_cong [OF assms, of me_delivery_id] arg_cong [OF assms, of me_target_kind]
    arg_cong [OF assms, of me_target_id] arg_cong [OF assms, of me_thread_id]
    arg_cong [OF assms, of me_source_message_ids] arg_cong [OF assms, of me_payload]
  by simp_all

definition sid :: "nat \<Rightarrow> string" where
  "sid k = str_nat k @ ''-0''"

lemma sid_inject [simp]: "sid j = sid k \<longleftrightarrow> j = k"
  by (simp add: sid_def)

section \<open>The invariant\<close>

text \<open>Queue items: ids are unique in a thread and every item is a valid message of it.\<close>

definition items_inv :: "msg_host \<Rightarrow> (string \<Rightarrow> QueuedMessage list) \<Rightarrow> bool" where
  "items_inv h Q \<longleftrightarrow> (\<forall>t. distinct (map qm_id (Q t)) \<and>
     (\<forall>m \<in> set (Q t). qm_thread_id m = t \<and> queued_post_init h m = Inr ()))"

text \<open>Stream identifiers come from the counter and no two entries share one.\<close>

definition ids_inv :: "view \<Rightarrow> nat \<Rightarrow> bool" where
  "ids_inv E n \<longleftrightarrow>
     (\<forall>loc. distinct (map fst (E loc)) \<and> fst ` set (E loc) \<subseteq> sid ` {..n}) \<and>
     (\<forall>loc loc'. loc \<noteq> loc' \<longrightarrow>
        fst ` set (E loc) \<inter> fst ` set (E loc') = {})"

text \<open>Every entry has a receipt with its envelope, and its kind agrees with its stream.\<close>

fun at_location :: "msg_host \<Rightarrow> location \<Rightarrow> MessageEnvelope \<Rightarrow> string \<Rightarrow> bool" where
  "at_location h (Turn_stream t) e fp \<longleftrightarrow> me_target_kind e = ''turn'' \<and> me_target_id e = t \<and>
     fp = fingerprint h (me_thread_id e) t (me_source_message_ids e)"
| "at_location h (Thread_stream t) e fp \<longleftrightarrow> me_target_kind e = ''thread'' \<and> me_target_id e = t"
| "at_location h (Report_stream t) e fp \<longleftrightarrow> me_target_kind e = ''report'' \<and> me_target_id e = t"
| "at_location h Start_stream e fp \<longleftrightarrow> me_target_kind e \<in> {''turn'', ''turn_start''}"

definition entry_ok :: "msg_host \<Rightarrow> (string \<Rightarrow> receipt option) \<Rightarrow> location \<Rightarrow> string \<times> MessageEnvelope \<Rightarrow> bool" where
  "entry_ok h R loc en \<longleftrightarrow> (\<exists>fp st. R (me_delivery_id (snd en)) = Some (fp, st, snd en)
      \<and> env0 (snd en) = snd en \<and> at_location h loc (snd en) fp)"

definition entries_inv :: "msg_host \<Rightarrow> view \<Rightarrow> (string \<Rightarrow> receipt option) \<Rightarrow> bool" where
  "entries_inv h E R \<longleftrightarrow> (\<forall>loc. \<forall>en \<in> set (E loc). entry_ok h R loc en)"

definition receipts_inv :: "msg_host \<Rightarrow> (string \<Rightarrow> receipt option) \<Rightarrow> bool" where
  "receipts_inv h R \<longleftrightarrow> (\<forall>d fp st e. R d = Some (fp, st, e) \<longrightarrow> me_delivery_id e = d \<and> env0 e = e \<and>
     (st = ''returned'' \<longrightarrow> at_location h (Turn_stream (me_target_id e)) e fp))"

text \<open>A message that is not pending is on its way: some outstanding delivery carries it.\<close>

definition covers :: "MessageEnvelope \<Rightarrow> bool" where
  "covers e \<longleftrightarrow> me_target_kind e = ''turn'' \<or>
     (me_target_kind e = ''turn_start'' \<and> truthy (py_get (me_payload e) ''queued''))"

definition carried :: "view \<Rightarrow> string \<Rightarrow> string \<Rightarrow> bool" where
  "carried E t i \<longleftrightarrow> (\<exists>loc. \<exists>en \<in> set (E loc). covers (snd en) \<and>
     me_thread_id (snd en) = t \<and> i \<in> set (me_source_message_ids (snd en)))"

definition cover_inv :: "view \<Rightarrow> (string \<Rightarrow> QueuedMessage list) \<Rightarrow> bool" where
  "cover_inv E Q \<longleftrightarrow> (\<forall>t. \<forall>m \<in> set (Q t). qm_state m \<noteq> ''pending'' \<longrightarrow> carried E t (qm_id m))"

text \<open>Claims that were handed out still name the envelope of the entry they came from.\<close>

definition issued_inv :: "view \<Rightarrow> (string \<Rightarrow> receipt option) \<Rightarrow> nat
    \<Rightarrow> ClaimedEnvelope set \<Rightarrow> bool" where
  "issued_inv E R n I \<longleftrightarrow> (\<forall>c \<in> I. (\<exists>k \<le> n. ce_stream_id c = sid k) \<and>
     R (me_delivery_id (ce_envelope c)) \<noteq> None \<and>
     (\<forall>loc. \<forall>en \<in> set (E loc). fst en = ce_stream_id c \<longrightarrow>
        snd en = env0 (ce_envelope c)))"

definition dicts_inv :: "memory_queue \<Rightarrow> bool" where
  "dicts_inv q \<longleftrightarrow> wf_dict (mq_queues q) \<and> wf_dict (mq_streams q) \<and> wf_dict (mq_thread_streams q) \<and>
     wf_dict (mq_report_streams q) \<and> wf_dict (mq_receipts q)"

definition mq_inv :: "msg_host \<Rightarrow> memory_queue \<Rightarrow> ClaimedEnvelope set \<Rightarrow> bool" where
  "mq_inv h q I \<longleftrightarrow> dicts_inv q \<and> items_inv h (items q) \<and> ids_inv (entries q) (mq_counter q) \<and>
     entries_inv h (entries q) (receipts q) \<and> receipts_inv h (receipts q) \<and>
     cover_inv (entries q) (items q) \<and> issued_inv (entries q) (receipts q) (mq_counter q) I"

lemmas mq_inv_defs = mq_inv_def dicts_inv_def items_inv_def ids_inv_def entries_inv_def
  receipts_inv_def cover_inv_def issued_inv_def

section \<open>Changes of one component\<close>

lemma queued_post_init_set_state:
  "queued_post_init h m = Inr () \<Longrightarrow> st \<in> {''pending'', ''dispatched''} \<Longrightarrow>
     queued_post_init h (m\<lparr>qm_state := st, qm_updated_at := now\<rparr>) = Inr ()"
  by (auto simp: queued_post_init_def bind_result_Inr)

lemma set_state_ids [simp]: "map qm_id (set_state st now ids xs) = map qm_id xs"
  by (simp add: set_state_def)

lemma items_inv_set_state [inv_intros]:
  assumes "items_inv h Q" "st \<in> {''pending'', ''dispatched''}"
  shows "items_inv h (Q(t := set_state st now ids (Q t)))"
proof -
  have "qm_thread_id m = t \<and> queued_post_init h m = Inr ()"
    if m: "m \<in> set (set_state st now ids (Q t))" for m
  proof -
    from m obtain m0 where "m0 \<in> set (Q t)"
      and eq: "m = (if qm_id m0 \<in> ids then m0\<lparr>qm_state := st, qm_updated_at := now\<rparr> else m0)"
      by (auto simp: set_state_def)
    with assms(1) have "qm_thread_id m0 = t" "queued_post_init h m0 = Inr ()"
      by (auto simp: items_inv_def)
    with eq queued_post_init_set_state [OF _ assms(2)] show ?thesis by auto
  qed
  with assms(1) show ?thesis by (auto simp: items_inv_def)
qed

lemma items_inv_drop_ids [inv_intros]:
  "items_inv h Q \<Longrightarrow> items_inv h (Q(t := drop_ids ids (Q t)))"
  by (auto simp: items_inv_def drop_ids_def distinct_map_filter)

text \<open>Receipts only change their delivery state or are added for a fresh id.\<close>

definition receipts_ext :: "(string \<Rightarrow> receipt option) \<Rightarrow> (string \<Rightarrow> receipt option) \<Rightarrow> bool" where
  "receipts_ext R R' \<longleftrightarrow> (\<forall>d fp st e. R d = Some (fp, st, e) \<longrightarrow> (\<exists>st'. R' d = Some (fp, st', e)))"

lemma entries_inv_ext: "entries_inv h E R \<Longrightarrow> receipts_ext R R' \<Longrightarrow> entries_inv h E R'"
  unfolding entries_inv_def entry_ok_def receipts_ext_def by blast

lemma issued_inv_ext:
  assumes "issued_inv E R n I" "receipts_ext R R'"
  shows "issued_inv E R' n I"
proof -
  have "R' d \<noteq> None" if "R d \<noteq> None" for d
    using that assms(2) by (cases "R d") (fastforce simp: receipts_ext_def)+
  with assms(1) show ?thesis unfolding issued_inv_def by blast
qed

lemma receipts_ext_upd:
  "(case R d of None \<Rightarrow> True | Some (fp0, st0, e0) \<Rightarrow> fp0 = fp \<and> e0 = e) \<Longrightarrow>
     receipts_ext R (R(d \<mapsto> (fp, st, e)))"
  by (auto simp: receipts_ext_def split: option.splits)

lemma receipts_inv_upd:
  "receipts_inv h R \<Longrightarrow> me_delivery_id e = d \<Longrightarrow> env0 e = e \<Longrightarrow>
     (st = ''returned'' \<Longrightarrow> at_location h (Turn_stream (me_target_id e)) e fp) \<Longrightarrow>
     receipts_inv h (R(d \<mapsto> (fp, st, e)))"
  by (auto simp: receipts_inv_def)

text \<open>Appending an entry with the next identifier.\<close>

lemma ids_inv_push:
  assumes "ids_inv E n" "fst en = sid (Suc n)"
  shows "ids_inv (E(loc := E loc @ [en])) (Suc n)"
proof -
  have fresh: "sid (Suc n) \<notin> fst ` set (E l)" for l
  proof
    assume "sid (Suc n) \<in> fst ` set (E l)"
    with assms(1) have "sid (Suc n) \<in> sid ` {..n}" by (auto simp: ids_inv_def)
    then show False by auto
  qed
  have bound: "fst ` set (E l) \<subseteq> sid ` {..Suc n}" for l
  proof -
    have "fst ` set (E l) \<subseteq> sid ` {..n}" using assms(1) by (simp add: ids_inv_def)
    also have "\<dots> \<subseteq> sid ` {..Suc n}" by (intro image_mono) simp
    finally show ?thesis .
  qed
  show ?thesis unfolding ids_inv_def
  proof (intro conjI allI impI)
    fix l show "distinct (map fst ((E(loc := E loc @ [en])) l))"
      using assms fresh [of loc] by (auto simp: ids_inv_def)
    show "fst ` set ((E(loc := E loc @ [en])) l) \<subseteq> sid ` {..Suc n}"
      using bound [of l] assms(2) by auto
  next
    fix l l' :: location assume "l \<noteq> l'"
    with assms(1) have "fst ` set (E l) \<inter> fst ` set (E l') = {}"
      by (simp add: ids_inv_def)
    with \<open>l \<noteq> l'\<close> fresh [of l] fresh [of l'] assms(2)
    show "fst ` set ((E(loc := E loc @ [en])) l) \<inter>
          fst ` set ((E(loc := E loc @ [en])) l') = {}" by auto
  qed
qed

lemma entries_inv_push:
  "entries_inv h E R \<Longrightarrow> entry_ok h R loc en \<Longrightarrow> entries_inv h (E(loc := E loc @ [en])) R"
  by (auto simp: entries_inv_def)

lemma carried_push: "carried E t i \<Longrightarrow> carried (E(loc := E loc @ [en])) t i"
  unfolding carried_def by (metis fun_upd_apply UnCI set_append)

lemma carried_pushed:
  "covers (snd en) \<Longrightarrow> me_thread_id (snd en) = t \<Longrightarrow>
     i \<in> set (me_source_message_ids (snd en)) \<Longrightarrow> carried (E(loc := E loc @ [en])) t i"
  unfolding carried_def by (rule exI [of _ loc]) auto

lemma issued_inv_push:
  assumes "issued_inv E R n I" "fst en = sid (Suc n)"
  shows "issued_inv (E(loc := E loc @ [en])) R (Suc n) I"
proof -
  have "ce_stream_id c \<noteq> sid (Suc n) \<and> (\<exists>k \<le> Suc n. ce_stream_id c = sid k)" if "c \<in> I" for c
    using assms(1) that by (fastforce simp: issued_inv_def)
  with assms show ?thesis by (auto simp: issued_inv_def)
qed

lemma push_inv:
  assumes inv: "mq_inv h q I" and "dicts_inv q'" "items_inv h (items q')"
    and E: "entries q' = (entries q)(loc := entries q loc @ [(sid (Suc (mq_counter q)), e)])"
    and R: "receipts q' = (receipts q)(me_delivery_id e \<mapsto> (fp, ''dispatched'', e))"
    and n: "mq_counter q' = Suc (mq_counter q)"
    and e: "env0 e = e" "at_location h loc e fp"
    and old: "case receipts q (me_delivery_id e) of None \<Rightarrow> True | Some (fp0, st0, e0) \<Rightarrow> fp0 = fp \<and> e0 = e"
    and "cover_inv (entries q') (items q')"
  shows "mq_inv h q' I"
proof -
  have ext: "receipts_ext (receipts q) (receipts q')" unfolding R by (rule receipts_ext_upd) (rule old)
  have "ids_inv (entries q') (mq_counter q')"
    unfolding E n by (rule ids_inv_push) (use inv in \<open>simp_all add: mq_inv_def\<close>)
  moreover have "entries_inv h (entries q') (receipts q')"
    unfolding E
    by (rule entries_inv_push, rule entries_inv_ext [OF _ ext])
      (use inv e in \<open>simp_all add: mq_inv_def R entry_ok_def\<close>)
  moreover have "receipts_inv h (receipts q')"
    unfolding R by (rule receipts_inv_upd) (use inv e in \<open>simp_all add: mq_inv_def\<close>)
  moreover have "issued_inv (entries q') (receipts q') (mq_counter q') I"
    unfolding E n
    by (rule issued_inv_push, rule issued_inv_ext [OF _ ext]) (use inv in \<open>simp_all add: mq_inv_def\<close>)
  ultimately show ?thesis using assms by (simp add: mq_inv_def)
qed

lemma cover_inv_push: "cover_inv E Q \<Longrightarrow> cover_inv (E(loc := E loc @ [en])) Q"
  by (auto simp: cover_inv_def intro: carried_push)

section \<open>The operations preserve the invariant\<close>

text \<open>Only the items of one thread change.\<close>

lemma items_change_inv:
  assumes inv: "mq_inv h q I" and "items_inv h ((items q)(t := xs))"
    and "\<And>m. m \<in> set xs \<Longrightarrow> qm_state m \<noteq> ''pending'' \<Longrightarrow> carried (entries q) t (qm_id m)"
  shows "mq_inv h (q\<lparr>mq_queues := AList.update t xs (mq_queues q)\<rparr>) I"
proof -
  let ?q = "q\<lparr>mq_queues := AList.update t xs (mq_queues q)\<rparr>"
  have E: "entries ?q = entries q"
  proof (rule ext)
    fix loc show "entries ?q loc = entries q loc" by (cases loc) (simp_all add: entries_def)
  qed
  with assms show ?thesis
    by (auto simp: mq_inv_def dicts_inv_def cover_inv_def)
qed

lemma find_None_id: "find (\<lambda>v. qm_id v = i) xs = None \<longleftrightarrow> i \<notin> qm_id ` set xs"
  by (induction xs) auto

lemma mq_create_inv [inv_intros]:
  assumes "mq_inv h q I" "mq_create item q = Inr (q', r)"
    and "queued_post_init h item = Inr ()" "qm_state item = ''pending''"
  shows "mq_inv h q' I"
proof (cases "find (\<lambda>v. qm_id v = qm_id item) (items q (qm_thread_id item))")
  case None
  with assms(2) have q': "q' = q\<lparr>mq_queues := AList.update (qm_thread_id item)
      (items q (qm_thread_id item) @ [item]) (mq_queues q)\<rparr>"
    by (simp add: mq_create_def)
  show ?thesis unfolding q'
    by (rule items_change_inv [OF assms(1)])
      (use assms None in \<open>auto simp: mq_inv_def items_inv_def cover_inv_def find_None_id\<close>)
next
  case Some
  with assms show ?thesis by (auto simp: mq_create_def split: if_splits)
qed

lemma update_item_ok:
  assumes "update_item h now i c refs xs = Inr (ys, m')"
  shows "map qm_id ys = map qm_id xs \<and>
    (\<forall>m \<in> set ys. m \<in> set xs \<or> (m = m' \<and> qm_state m = ''pending'' \<and> queued_post_init h m = Inr () \<and>
       (\<exists>m0 \<in> set xs. qm_thread_id m0 = qm_thread_id m)))"
  using assms
proof (induction xs arbitrary: ys)
  case (Cons x xs)
  then show ?case by (fastforce simp: Let_def bind_result_Inr split: if_splits)
qed simp

lemma mq_update_inv [inv_intros]:
  assumes "mq_inv h q I" "mq_update h now t i c refs q = Inr (q', m')"
  shows "mq_inv h q' I"
proof -
  from assms(2) obtain ys where ys: "update_item h now i c refs (items q t) = Inr (ys, m')"
    and q': "q' = q\<lparr>mq_queues := AList.update t ys (mq_queues q)\<rparr>"
    by (auto simp: mq_update_def bind_result_Inr)
  note ok = update_item_ok [OF ys]
  show ?thesis unfolding q'
  proof (rule items_change_inv [OF assms(1)])
    have "qm_thread_id m = t \<and> queued_post_init h m = Inr ()" if "m \<in> set ys" for m
      using ok that assms(1) by (force simp: mq_inv_def items_inv_def)
    with ok assms(1) show "items_inv h ((items q)(t := ys))" by (simp add: mq_inv_def items_inv_def)
    show "carried (entries q) t (qm_id m)" if "m \<in> set ys" "qm_state m \<noteq> ''pending''" for m
      using ok that assms(1) by (auto simp: mq_inv_def cover_inv_def)
  qed
qed

lemma delete_item_ok:
  "delete_item i xs = Inr ys \<Longrightarrow> set ys \<subseteq> set xs \<and> (distinct (map qm_id xs) \<longrightarrow> distinct (map qm_id ys))"
proof (induction xs arbitrary: ys)
  case (Cons x xs)
  then show ?case by (fastforce simp: bind_result_Inr split: if_splits)
qed simp

lemma mq_delete_inv [inv_intros]:
  assumes "mq_inv h q I" "mq_delete t i q = Inr q'"
  shows "mq_inv h q' I"
proof -
  from assms(2) obtain ys where ys: "delete_item i (items q t) = Inr ys"
    and q': "q' = q\<lparr>mq_queues := AList.update t ys (mq_queues q)\<rparr>"
    by (auto simp: mq_delete_def bind_result_Inr)
  show ?thesis unfolding q'
    by (rule items_change_inv [OF assms(1)])
      (use delete_item_ok [OF ys] assms(1) in \<open>auto simp: mq_inv_def items_inv_def cover_inv_def\<close>)
qed

text \<open>Envelope dispatches.\<close>

fun push_at :: "location \<Rightarrow> stream_entry \<Rightarrow> memory_queue \<Rightarrow> memory_queue" where
  "push_at (Turn_stream t) en q = q\<lparr>mq_streams := push t en (mq_streams q)\<rparr>"
| "push_at (Thread_stream t) en q = q\<lparr>mq_thread_streams := push t en (mq_thread_streams q)\<rparr>"
| "push_at (Report_stream t) en q = q\<lparr>mq_report_streams := push t en (mq_report_streams q)\<rparr>"
| "push_at Start_stream en q = q\<lparr>mq_turn_start := mq_turn_start q @ [en]\<rparr>"

lemma entries_push_at [simp]:
  "entries (push_at loc en q) = (entries q)(loc := entries q loc @ [entry_view en])"
proof (rule ext)
  fix l show "entries (push_at loc en q) l = ((entries q)(loc := entries q loc @ [entry_view en])) l"
    by (cases loc; cases l) (auto simp: entries_def)
qed

lemma push_at_other [simp]:
  "mq_queues (push_at loc en q) = mq_queues q" "mq_receipts (push_at loc en q) = mq_receipts q"
  "mq_counter (push_at loc en q) = mq_counter q"
  by (cases loc; simp)+

lemma dicts_inv_push_at: "dicts_inv q \<Longrightarrow> dicts_inv (push_at loc en q)"
  by (cases loc) (auto simp: dicts_inv_def push_def)

lemma entries_other_fields [simp]:
  "entries (q\<lparr>mq_counter := n\<rparr>) = entries q"
  "entries (q\<lparr>mq_counter := n, mq_receipts := R\<rparr>) = entries q"
  "entries (q\<lparr>mq_queues := Q, mq_counter := n, mq_receipts := R\<rparr>) = entries q"
  "entries (q\<lparr>mq_queues := Q\<rparr>) = entries q" "entries (q\<lparr>mq_receipts := R\<rparr>) = entries q"
  by (rule ext, rename_tac loc, case_tac loc, simp_all add: entries_def)+

lemma entry_view_new [simp]: "entry_view (new_entry q e) = (sid (Suc (mq_counter q)), env0 e)"
  by (simp add: entry_view_def new_entry_def next_stream_id_def sid_def)

lemma dispatch_canonical_inv:
  assumes inv: "mq_inv h q I"
    and res: "dispatch_canonical h (push_at loc) e q = Inr (q', r)"
    and loc: "at_location h loc (env0 e) (envelope_fingerprint h e)"
  shows "mq_inv h q' I"
proof (cases "receipts q (me_delivery_id e)")
  case None
  define fp where "fp = envelope_fingerprint h e"
  from None res have q': "q' = (push_at loc (new_entry q (env0 e)) q)
      \<lparr>mq_counter := mq_counter q + 1,
       mq_receipts := AList.update (me_delivery_id e) (fp, ''dispatched'', env0 e) (mq_receipts q)\<rparr>"
    by (auto simp: dispatch_canonical_def Let_def env0_def fp_def)
  show ?thesis
  proof (rule push_inv [OF inv, where e = "env0 e" and fp = fp and loc = loc])
    show "dicts_inv q'"
      using dicts_inv_push_at [of q loc] inv by (simp add: q' mq_inv_def dicts_inv_def)
    show "cover_inv (entries q') (items q')"
      using inv by (auto simp: q' mq_inv_def intro: cover_inv_push)
  qed (use inv loc None in \<open>simp_all add: q' fp_def mq_inv_def\<close>)
next
  case (Some rc)
  with res inv show ?thesis
    by (cases rc) (auto simp: dispatch_canonical_def Let_def split: if_splits)
qed

lemma push_at_lam:
  "push_at (Turn_stream t) = (\<lambda>en q. q\<lparr>mq_streams := push t en (mq_streams q)\<rparr>)"
  "push_at (Thread_stream t) = (\<lambda>en q. q\<lparr>mq_thread_streams := push t en (mq_thread_streams q)\<rparr>)"
  "push_at (Report_stream t) = (\<lambda>en q. q\<lparr>mq_report_streams := push t en (mq_report_streams q)\<rparr>)"
  "push_at Start_stream = (\<lambda>en q. q\<lparr>mq_turn_start := mq_turn_start q @ [en]\<rparr>)"
  by (simp_all add: fun_eq_iff)

lemma mq_dispatch_turn_start_inv [inv_intros]:
  assumes "mq_inv h q I" "mq_dispatch_turn_start h e q = Inr (q', r)"
  shows "mq_inv h q' I"
  by (rule dispatch_canonical_inv [OF assms(1), where loc = Start_stream])
    (use assms(2) in \<open>auto simp: mq_dispatch_turn_start_def push_at_lam split: if_splits\<close>)

lemma mq_dispatch_agent_inv [inv_intros]:
  assumes "mq_inv h q I" "mq_dispatch_agent h e q = Inr (q', r)"
  shows "mq_inv h q' I"
  by (rule dispatch_canonical_inv [OF assms(1), where loc = "Thread_stream (me_target_id e)"])
    (use assms(2) in \<open>auto simp: mq_dispatch_agent_def push_at_lam split: if_splits\<close>)

lemma mq_dispatch_report_inv [inv_intros]:
  assumes "mq_inv h q I" "mq_dispatch_report h e q = Inr (q', r)"
  shows "mq_inv h q' I"
  by (rule dispatch_canonical_inv [OF assms(1), where loc = "Report_stream (me_target_id e)"])
    (use assms(2) in \<open>auto simp: mq_dispatch_report_def push_at_lam split: if_splits\<close>)

text \<open>Dispatch of queued messages. The fingerprint determines thread, turn and messages, because
  the digest has no collisions and the JSON text determines them.\<close>

lemma join_json_prefix:
  assumes "join '','' (map json_str xs) @ CHR '']'' # r = join '','' (map json_str ys) @ CHR '']'' # u"
  shows "xs = ys \<and> r = u"
  using assms
proof (induction xs arbitrary: ys)
  case Nil
  then show ?case
  proof (cases ys)
    case (Cons y zs)
    with Nil show ?thesis by (cases zs) (simp_all add: json_str_def)
  qed simp
next
  case (Cons x xs)
  show ?case
  proof (cases ys)
    case Nil
    with Cons.prems show ?thesis by (cases xs) (simp_all add: json_str_def)
  next
    case ys: (Cons y zs)
    have tail: "join '','' (map json_str (a # as)) @ CHR '']'' # v
        = json_str a @ (case as of [] \<Rightarrow> CHR '']'' # v
            | _ \<Rightarrow> CHR '','' # join '','' (map json_str as) @ CHR '']'' # v)" for a as v
      by (cases as) simp_all
    from Cons.prems [unfolded ys tail] show ?thesis
      using Cons.IH [of zs] unfolding json_str_prefix by (cases xs; cases zs) (auto simp: ys)
  qed
qed

lemma sort_three:
  fixes a b c :: "'a :: linorder"
  shows "c < a \<Longrightarrow> a < b \<Longrightarrow> sort_key fst [(a, x), (b, y), (c, z)] = [(c, z), (a, x), (b, y)]"
  by (auto dest: less_trans)

lemma fingerprint_keys: "''message_ids'' < ''thread_id''" "''thread_id'' < ''turn_id''"
  by code_simp+

lemma fingerprint_text:
  "json_text (PDict [(''thread_id'', PStr a), (''turn_id'', PStr b), (''message_ids'', PList (map PStr xs))])
   = ''{'' @ json_str ''message_ids'' @ '':['' @ join '','' (map json_str xs) @ ''],'' @
     json_str ''thread_id'' @ '':'' @ json_str a @ '','' @ json_str ''turn_id'' @ '':'' @ json_str b @ ''}''"
  using sort_three [OF fingerprint_keys] by (simp add: comp_def)

lemma fingerprint_inject:
  assumes "inj (mh_digest h)" "fingerprint h a b xs = fingerprint h a' b' ys"
  shows "a = a' \<and> b = b' \<and> mset xs = mset ys"
proof -
  define A where "A = json_text (PDict [(''thread_id'', PStr a), (''turn_id'', PStr b), (''message_ids'', PList (map PStr (sort xs)))])"
  define B where "B = json_text (PDict [(''thread_id'', PStr a'), (''turn_id'', PStr b'), (''message_ids'', PList (map PStr (sort ys)))])"
  from assms(2) have "mh_digest h A = mh_digest h B" by (simp only: fingerprint_def A_def B_def)
  with assms(1) have "A = B" by (simp only: inj_eq)
  then have
    "join '','' (map json_str (sort xs)) @ CHR '']'' # '','' @ json_str ''thread_id'' @ '':'' @ json_str a @ '','' @ json_str ''turn_id'' @ '':'' @ json_str b @ ''}''
     = join '','' (map json_str (sort ys)) @ CHR '']'' # '','' @ json_str ''thread_id'' @ '':'' @ json_str a' @ '','' @ json_str ''turn_id'' @ '':'' @ json_str b' @ ''}''"
    unfolding A_def B_def fingerprint_text by (simp only: append_Cons append_Nil list.inject same_append_eq append_assoc)
  from join_json_prefix [OF this] have "sort xs = sort ys" "a = a'" "b = b'"
    by (simp_all add: json_str_prefix)
  then show ?thesis by (metis mset_sort)
qed

lemma dispatch_commit_view:
  assumes q': "q' = dispatch_commit now fp did t turn start e (items q t) q"
    and loc: "loc = (if start then Start_stream else Turn_stream turn)"
  shows "entries q' = (entries q)(loc := entries q loc @ [(sid (Suc (mq_counter q)), env0 e)])"
    "items q' = (items q)(t := set_state ''dispatched'' now (set (me_source_message_ids e)) (items q t))"
    "receipts q' = (receipts q)(did \<mapsto> (fp, ''dispatched'', e))"
    "mq_counter q' = Suc (mq_counter q)" "dicts_inv q \<Longrightarrow> dicts_inv q'"
proof -
  define q1 where "q1 = q\<lparr>mq_queues := AList.update t
      (set_state ''dispatched'' now (set (me_source_message_ids e)) (items q t)) (mq_queues q),
    mq_counter := mq_counter q + 1, mq_receipts := AList.update did (fp, ''dispatched'', e) (mq_receipts q)\<rparr>"
  have *: "q' = push_at loc (new_entry q e) q1"
    unfolding q' loc q1_def dispatch_commit_def Let_def by simp
  show "entries q' = (entries q)(loc := entries q loc @ [(sid (Suc (mq_counter q)), env0 e)])"
    "items q' = (items q)(t := set_state ''dispatched'' now (set (me_source_message_ids e)) (items q t))"
    "receipts q' = (receipts q)(did \<mapsto> (fp, ''dispatched'', e))" "mq_counter q' = Suc (mq_counter q)"
    unfolding * by (simp_all add: q1_def)
  show "dicts_inv q'" if "dicts_inv q"
    unfolding * by (rule dicts_inv_push_at) (use that in \<open>simp add: q1_def dicts_inv_def\<close>)
qed

lemma set_state_cover:
  assumes "cover_inv E Q" and "\<And>i. i \<in> ids \<Longrightarrow> carried E' t i"
    and "\<And>u i. carried E u i \<Longrightarrow> carried E' u i"
  shows "cover_inv E' (Q(t := set_state st now ids (Q t)))"
  using assms by (auto simp: cover_inv_def set_state_def)

lemma dispatch_commit_inv:
  assumes inv: "mq_inv h q I"
    and q': "q' = dispatch_commit now fp (me_delivery_id e) t turn start e (items q t) q"
    and e: "env0 e = e" "covers e" "me_thread_id e = t"
    and at: "at_location h (if start then Start_stream else Turn_stream turn) e fp"
    and old: "case receipts q (me_delivery_id e) of None \<Rightarrow> True | Some (fp0, st0, e0) \<Rightarrow> fp0 = fp \<and> e0 = e"
  shows "mq_inv h q' I"
proof -
  note v = dispatch_commit_view [OF q' refl]
  show ?thesis
  proof (rule push_inv [OF inv _ _ v(1) [unfolded e(1)] v(3,4) e(1) at old])
    show "dicts_inv q'" using v(5) inv by (simp add: mq_inv_def)
    show "items_inv h (items q')"
      unfolding v(2) by (rule items_inv_set_state) (use inv in \<open>simp_all add: mq_inv_def\<close>)
    show "cover_inv (entries q') (items q')"
      unfolding v(1,2) e(1)
      by (rule set_state_cover [where E = "entries q"])
        (use inv e in \<open>auto simp: mq_inv_def intro: carried_push carried_pushed\<close>)
  qed
qed

lemma map_of_foldl_update_fresh:
  "k \<notin> fst ` set kvs \<Longrightarrow> map_of (foldl (\<lambda>d (k, v). AList.update k v d) d kvs) k = map_of d k"
  by (induction kvs arbitrary: d) auto

lemma dispatch_envelope_simps [simp]:
  "me_delivery_id (dispatch_envelope now did s t turn corr cp sel) = did"
  "me_thread_id (dispatch_envelope now did s t turn corr cp sel) = t"
  "me_target_id (dispatch_envelope now did s t turn corr cp sel) = turn"
  "me_source_message_ids (dispatch_envelope now did s t turn corr cp sel) = map qm_id sel"
  "me_target_kind (dispatch_envelope now did s t turn corr cp sel) = (if cp \<noteq> None then ''turn_start'' else ''turn'')"
  "env0 (dispatch_envelope now did s t turn corr cp sel) = dispatch_envelope now did s t turn corr cp sel"
  by (simp_all add: dispatch_envelope_def env0_def)

lemma dispatch_envelope_covers: "covers (dispatch_envelope now did s t turn corr cp sel)"
  by (cases cp) (auto simp: covers_def dispatch_envelope_def dispatch_payload_def py_get_def Let_def
      split: prod.splits)

lemma map_of_by_id:
  "distinct (map qm_id xs) \<Longrightarrow> m \<in> set xs \<Longrightarrow> map_of (by_id xs) (qm_id m) = Some m"
proof (induction xs rule: rev_induct)
  case (snoc x xs)
  then show ?case by (auto simp: by_id_def) (metis image_eqI)
qed simp

lemma select_items_filter:
  assumes "distinct (map qm_id xs)"
  shows "select_items ids xs = filter (\<lambda>m. qm_id m \<in> set ids) xs"
  unfolding select_items_def by (rule map_idI) (simp add: map_of_by_id [OF assms])

lemma distinct_subset_length_sort:
  fixes xs ys :: "'a :: linorder list"
  assumes "distinct xs" "set xs \<subseteq> set ys" "length xs = length ys"
  shows "sort ys = sort xs"
proof -
  have "card (set ys) \<le> length ys" by (rule card_length)
  moreover have c: "card (set xs) = length xs" using assms(1) by (rule distinct_card)
  ultimately have "set xs = set ys" using assms(2,3) by (intro card_seteq) auto
  moreover have "distinct ys" using c assms(3) \<open>set xs = set ys\<close> by (intro card_distinct) simp
  ultimately have "mset xs = mset ys" using assms(1) by (metis set_eq_iff_mset_eq_distinct)
  then show ?thesis by (metis properties_for_sort mset_sort sorted_sort)
qed

lemma mq_dispatchE:
  assumes "mq_dispatch h now did ids s t turn corr cp q = Inr (q', e)"
  obtains (same) fp st where "q' = q" "receipts q did = Some (fp, st, e)" "st \<noteq> ''returned''"
      "fp = fingerprint h t turn ids"
  | (fresh) "receipts q did = None" "length (select_items ids (items q t)) = length ids"
      "e = dispatch_envelope now did s t turn corr cp (select_items ids (items q t))"
      "q' = dispatch_commit now (fingerprint h t turn ids) did t turn (cp \<noteq> None) e (items q t) q"
      "envelope_post_init h e = Inr ()"
      "\<forall>m \<in> set (select_items ids (items q t)). qm_state m = ''pending''"
  | (again) "receipts q did = Some (fingerprint h t turn ids, ''returned'', e)"
      "q' = dispatch_commit now (fingerprint h t turn ids) did t turn (cp \<noteq> None) e (items q t) q"
proof (cases "receipts q did")
  case None
  with assms fresh show ?thesis
    by (auto simp: mq_dispatch_def Let_def bind_result_Inr split: if_splits)
next
  case (Some rc)
  with assms same again show ?thesis
    by (cases rc) (auto simp: mq_dispatch_def Let_def bind_result_Inr split: if_splits)
qed

lemma mq_dispatch_inv [inv_intros]:
  assumes inv: "mq_inv h q I" and inj: "inj (mh_digest h)"
    and res: "mq_dispatch h now did ids s t turn corr cp q = Inr (q', e)"
  shows "mq_inv h q' I"
  using res
proof (cases rule: mq_dispatchE)
  case same
  with inv show ?thesis by simp
next
  case fresh
  let ?sel = "select_items ids (items q t)"
  have dist: "distinct (map qm_id (items q t))" using inv by (simp add: mq_inv_def items_inv_def)
  have sel: "?sel = filter (\<lambda>m. qm_id m \<in> set ids) (items q t)" by (rule select_items_filter [OF dist])
  have "sort ids = sort (map qm_id ?sel)"
    using fresh(2) dist by (intro distinct_subset_length_sort) (auto simp: sel distinct_map_filter)
  then have fp: "fingerprint h t turn ids = fingerprint h t turn (map qm_id ?sel)"
    by (simp add: fingerprint_def)
  show ?thesis
    by (rule dispatch_commit_inv [OF inv, where e = e and start = "cp \<noteq> None" and turn = turn and t = t])
      (use fresh fp dispatch_envelope_covers in \<open>auto simp del: not_None_eq\<close>)
next
  case again
  have "receipts_inv h (receipts q)" using inv by (simp add: mq_inv_def)
  with again(1) have e: "me_delivery_id e = did" "env0 e = e"
    "at_location h (Turn_stream (me_target_id e)) e (fingerprint h t turn ids)"
    unfolding receipts_inv_def by blast+
  from e(3) have "fingerprint h t turn ids = fingerprint h (me_thread_id e) (me_target_id e) (me_source_message_ids e)"
    by simp
  from fingerprint_inject [OF inj this] have t: "me_thread_id e = t" "me_target_id e = turn" by simp_all
  show ?thesis
    by (rule dispatch_commit_inv [OF inv, where e = e and start = "cp \<noteq> None" and turn = turn and t = t])
      (use again e t in \<open>auto simp: covers_def simp del: not_None_eq\<close>)
qed

section \<open>Claims, acknowledgement, release\<close>

text \<open>A claim changes no view: it marks one entry and returns what the view shows of it.\<close>

lemma claim_first_view:
  assumes "claim_first P consumer ens = Some (c, ens')"
  shows "map entry_view ens' = map entry_view ens \<and>
    (ce_stream_id c, env0 (ce_envelope c)) \<in> set (map entry_view ens)"
  using assms
proof (induction ens arbitrary: ens')
  case (Cons en ens)
  show ?case
  proof (cases "P en")
    case True
    with Cons.prems show ?thesis by (auto simp: Let_def claim_entry_def entry_view_def)
  next
    case False
    with Cons.prems obtain ens1 where "claim_first P consumer ens = Some (c, ens1)" "ens' = en # ens1"
      by auto
    with Cons.IH show ?thesis by auto
  qed
qed simp

definition same_view :: "memory_queue \<Rightarrow> memory_queue \<Rightarrow> bool" where
  "same_view q q' \<longleftrightarrow> entries q' = entries q \<and> mq_queues q' = mq_queues q \<and>
     mq_receipts q' = mq_receipts q \<and> mq_counter q' = mq_counter q \<and> (dicts_inv q \<longrightarrow> dicts_inv q')"

lemma claim_inv:
  assumes inv: "mq_inv h q I" and same: "same_view q q'"
    and c: "\<And>c. r = Some c \<Longrightarrow> \<exists>loc. (ce_stream_id c, env0 (ce_envelope c)) \<in> set (entries q loc)"
  shows "mq_inv h q' (set_option r \<union> I)"
proof -
  have "(\<exists>k \<le> mq_counter q. ce_stream_id c = sid k) \<and> receipts q (me_delivery_id (ce_envelope c)) \<noteq> None \<and>
     (\<forall>loc. \<forall>en \<in> set (entries q loc). fst en = ce_stream_id c \<longrightarrow> snd en = env0 (ce_envelope c))"
    if r: "r = Some c" for c
  proof -
    from c [OF r] obtain loc where loc: "(ce_stream_id c, env0 (ce_envelope c)) \<in> set (entries q loc)" by blast
    have ids: "ids_inv (entries q) (mq_counter q)" using inv by (simp add: mq_inv_def)
    have mem: "ce_stream_id c \<in> fst ` set (entries q loc)" using loc by (metis fst_conv image_eqI)
    have "fst ` set (entries q loc) \<subseteq> sid ` {..mq_counter q}" using ids by (simp add: ids_inv_def)
    with mem have "ce_stream_id c \<in> sid ` {..mq_counter q}" by blast
    moreover have "entry_ok h (receipts q) loc (ce_stream_id c, env0 (ce_envelope c))"
      using inv loc by (auto simp: mq_inv_def entries_inv_def)
    moreover have "snd en = env0 (ce_envelope c)"
      if en: "en \<in> set (entries q loc')" "fst en = ce_stream_id c" for en loc'
    proof -
      have "ce_stream_id c \<in> fst ` set (entries q loc')" using en by (metis image_eqI)
      then have "loc' = loc" using ids mem unfolding ids_inv_def by blast
      moreover have "distinct (map fst (entries q loc))" using ids by (simp add: ids_inv_def)
      ultimately show ?thesis using en loc by (metis eq_key_imp_eq_value prod.collapse)
    qed
    ultimately show ?thesis by (auto simp: entry_ok_def)
  qed
  with inv same show ?thesis
    by (cases r) (auto simp: same_view_def mq_inv_def issued_inv_def)
qed

lemma entries_eqI: "(\<And>loc. map entry_view (stream_at q' loc) = map entry_view (stream_at q loc)) \<Longrightarrow> entries q' = entries q"
  by (auto simp: entries_def fun_eq_iff)

lemma claim_at_inv:
  assumes inv: "mq_inv h q I"
    and res: "(q', r) = (case claim_first P consumer (stream_at q loc) of None \<Rightarrow> (q, None)
        | Some (c, ens) \<Rightarrow> (upd ens, Some c))"
    and upd: "\<And>ens. stream_at (upd ens) = (stream_at q)(loc := ens)"
      "\<And>ens. mq_queues (upd ens) = mq_queues q \<and> mq_receipts (upd ens) = mq_receipts q \<and> mq_counter (upd ens) = mq_counter q"
      "\<And>ens. dicts_inv q \<Longrightarrow> dicts_inv (upd ens)"
  shows "mq_inv h q' (set_option r \<union> I)"
proof (cases "claim_first P consumer (stream_at q loc)")
  case None
  with inv res show ?thesis by simp
next
  case (Some a)
  then obtain c ens where cf: "claim_first P consumer (stream_at q loc) = Some (c, ens)" by (cases a) auto
  note v = claim_first_view [OF cf]
  from res cf have q': "q' = upd ens" "r = Some c" by simp_all
  show ?thesis
  proof (rule claim_inv [OF inv])
    have "entries q' = entries q" by (rule entries_eqI) (use v in \<open>simp add: q' upd\<close>)
    then show "same_view q q'" using upd by (simp add: same_view_def q')
    show "\<exists>loc. (ce_stream_id c', env0 (ce_envelope c')) \<in> set (entries q loc)" if "r = Some c'" for c'
      using v that q' by (auto simp: entries_def intro!: exI [of _ loc])
  qed
qed

lemma stream_at_upd:
  "stream_at (q\<lparr>mq_streams := AList.update t ens (mq_streams q)\<rparr>) = (stream_at q)(Turn_stream t := ens)"
  "stream_at (q\<lparr>mq_thread_streams := AList.update t ens (mq_thread_streams q)\<rparr>) = (stream_at q)(Thread_stream t := ens)"
  "stream_at (q\<lparr>mq_report_streams := AList.update t ens (mq_report_streams q)\<rparr>) = (stream_at q)(Report_stream t := ens)"
  "stream_at (q\<lparr>mq_turn_start := ens\<rparr>) = (stream_at q)(Start_stream := ens)"
  "stream_at (q\<lparr>mq_streams := AList.delete t (mq_streams q)\<rparr>) = (stream_at q)(Turn_stream t := [])"
  by (rule ext, rename_tac loc, case_tac loc, simp_all)+

lemma dicts_inv_upd:
  "dicts_inv q \<Longrightarrow> dicts_inv (q\<lparr>mq_streams := AList.update t ens (mq_streams q)\<rparr>)"
  "dicts_inv q \<Longrightarrow> dicts_inv (q\<lparr>mq_thread_streams := AList.update t ens (mq_thread_streams q)\<rparr>)"
  "dicts_inv q \<Longrightarrow> dicts_inv (q\<lparr>mq_report_streams := AList.update t ens (mq_report_streams q)\<rparr>)"
  "dicts_inv q \<Longrightarrow> dicts_inv (q\<lparr>mq_turn_start := ens\<rparr>)"
  "dicts_inv q \<Longrightarrow> dicts_inv (q\<lparr>mq_streams := AList.delete t (mq_streams q)\<rparr>)"
  "dicts_inv q \<Longrightarrow> dicts_inv (q\<lparr>mq_queues := AList.update t xs (mq_queues q)\<rparr>)"
  "dicts_inv q \<Longrightarrow> dicts_inv (q\<lparr>mq_receipts := AList.update d rc (mq_receipts q)\<rparr>)"
  by (auto simp: dicts_inv_def)

lemma mq_claim_inv [inv_intros]:
  "mq_inv h q I \<Longrightarrow> mq_claim t consumer q = (q', r) \<Longrightarrow> mq_inv h q' (set_option r \<union> I)"
  by (rule claim_at_inv [where loc = "Turn_stream t" and P = unowned and consumer = consumer and
        upd = "\<lambda>ens. q\<lparr>mq_streams := AList.update t ens (mq_streams q)\<rparr>"])
    (auto simp: mq_claim_def stream_at_upd intro: dicts_inv_upd)

lemma mq_claim_turn_start_inv [inv_intros]:
  "mq_inv h q I \<Longrightarrow> mq_claim_turn_start consumer recover q = (q', r) \<Longrightarrow> mq_inv h q' (set_option r \<union> I)"
  by (rule claim_at_inv [where loc = Start_stream and P = "\<lambda>en. unowned en \<or> recover" and consumer = consumer and
        upd = "\<lambda>ens. q\<lparr>mq_turn_start := ens\<rparr>"])
    (auto simp: mq_claim_turn_start_def stream_at_upd intro: dicts_inv_upd)

lemma mq_claim_thread_inv [inv_intros]:
  "mq_inv h q I \<Longrightarrow> mq_claim_thread t consumer q = (q', r) \<Longrightarrow> mq_inv h q' (set_option r \<union> I)"
  by (rule claim_at_inv [where loc = "Thread_stream t" and P = unowned and consumer = consumer and
        upd = "\<lambda>ens. q\<lparr>mq_thread_streams := AList.update t ens (mq_thread_streams q)\<rparr>"])
    (auto simp: mq_claim_thread_def stream_at_upd intro: dicts_inv_upd)

lemma mq_claim_thread_recovery_inv [inv_intros]:
  "mq_inv h q I \<Longrightarrow> mq_claim_thread_recovery t consumer q = (q', r) \<Longrightarrow> mq_inv h q' (set_option r \<union> I)"
  by (rule claim_at_inv [where loc = "Thread_stream t" and P = "\<lambda>_. True" and consumer = consumer and
        upd = "\<lambda>ens. q\<lparr>mq_thread_streams := AList.update t ens (mq_thread_streams q)\<rparr>"])
    (auto simp: mq_claim_thread_recovery_def stream_at_upd intro: dicts_inv_upd)

lemma mq_claim_report_inv [inv_intros]:
  "mq_inv h q I \<Longrightarrow> mq_claim_report t consumer recover q = (q', r) \<Longrightarrow> mq_inv h q' (set_option r \<union> I)"
  by (rule claim_at_inv [where loc = "Report_stream t" and P = "\<lambda>en. unowned en \<or> recover" and consumer = consumer and
        upd = "\<lambda>ens. q\<lparr>mq_report_streams := AList.update t ens (mq_report_streams q)\<rparr>"])
    (auto simp: mq_claim_report_def stream_at_upd intro: dicts_inv_upd)

text \<open>Removing entries: the identifiers, receipts and claims stay right; only the cover of the
  removed messages has to be argued. \<open>base_inv\<close> is the invariant without the cover.\<close>

definition base_inv :: "msg_host \<Rightarrow> memory_queue \<Rightarrow> ClaimedEnvelope set \<Rightarrow> bool" where
  "base_inv h q I \<longleftrightarrow> dicts_inv q \<and> items_inv h (items q) \<and> ids_inv (entries q) (mq_counter q) \<and>
     entries_inv h (entries q) (receipts q) \<and> receipts_inv h (receipts q) \<and>
     issued_inv (entries q) (receipts q) (mq_counter q) I"

lemma mq_inv_base: "mq_inv h q I \<longleftrightarrow> base_inv h q I \<and> cover_inv (entries q) (items q)"
  by (auto simp: mq_inv_def base_inv_def)

lemma base_inv_remove:
  assumes "base_inv h q I" and E: "entries q' = (entries q)(loc := filter P (entries q loc))"
    and "mq_receipts q' = mq_receipts q" "mq_counter q' = mq_counter q"
    and "dicts_inv q'" "items_inv h (items q')"
  shows "base_inv h q' I"
proof -
  have sub: "set (entries q' l) \<subseteq> set (entries q l)" for l unfolding E by simp
  have dist: "distinct (map fst (entries q l)) \<Longrightarrow> distinct (map fst (entries q' l))" for l
    unfolding E by (auto simp: distinct_map_filter)
  have "ids_inv (entries q') (mq_counter q')"
    unfolding ids_inv_def
  proof (intro conjI allI impI)
    fix l
    have ids: "distinct (map fst (entries q l))" "fst ` set (entries q l) \<subseteq> sid ` {..mq_counter q'}"
      using assms(1,4) by (simp_all add: base_inv_def ids_inv_def)
    from dist [OF ids(1)] show "distinct (map fst (entries q' l))" .
    from sub [of l] ids(2) show "fst ` set (entries q' l) \<subseteq> sid ` {..mq_counter q'}" by blast
  next
    fix l l' :: location assume "l \<noteq> l'"
    with assms(1) have "fst ` set (entries q l) \<inter> fst ` set (entries q l') = {}"
      by (simp add: base_inv_def ids_inv_def)
    with sub [of l] sub [of l'] show "fst ` set (entries q' l) \<inter> fst ` set (entries q' l') = {}" by blast
  qed
  moreover have "entries_inv h (entries q') (receipts q')"
    using assms(1,3) sub unfolding base_inv_def entries_inv_def by fastforce
  moreover have "issued_inv (entries q') (receipts q') (mq_counter q') I"
    using assms(1,3,4) sub unfolding base_inv_def issued_inv_def by fastforce
  ultimately show ?thesis using assms by (simp add: base_inv_def)
qed

lemma set_receipt_base:
  assumes "base_inv h q I" "receipts q did = Some (fp, st0, e)"
    and "st = ''returned'' \<Longrightarrow> at_location h (Turn_stream (me_target_id e)) e fp"
  shows "\<exists>q'. set_receipt st did q = (q', None) \<and> base_inv h q' I \<and> entries q' = entries q \<and>
    mq_queues q' = mq_queues q \<and> mq_streams q' = mq_streams q \<and> receipts_ext (receipts q) (receipts q')"
proof -
  let ?q = "q\<lparr>mq_receipts := AList.update did (fp, st, e) (mq_receipts q)\<rparr>"
  have ext: "receipts_ext (receipts q) (receipts ?q)"
    using assms(2) by (auto simp: receipts_ext_def)
  from assms(1,2) have e: "me_delivery_id e = did" "env0 e = e"
    unfolding base_inv_def receipts_inv_def by blast+
  have "receipts_inv h (receipts ?q)"
    using assms e by (auto simp: base_inv_def intro: receipts_inv_upd)
  then have "base_inv h ?q I"
    using assms(1) ext entries_inv_ext issued_inv_ext dicts_inv_upd(7) unfolding base_inv_def
    by (simp add: dicts_inv_def) blast
  with assms(2) ext show ?thesis by (simp add: set_receipt_def)
qed

fun loc_of :: "MessageEnvelope \<Rightarrow> location" where
  "loc_of e = (if me_target_kind e = ''thread'' then Thread_stream (me_target_id e)
     else if me_target_kind e = ''report'' then Report_stream (me_target_id e)
     else if me_target_kind e = ''turn_start'' then Start_stream else Turn_stream (me_target_id e))"

lemma view_remove: "map entry_view (remove_stream_id i ens) = filter (\<lambda>en. fst en \<noteq> i) (map entry_view ens)"
  by (simp add: remove_stream_id_def filter_map comp_def entry_view_def)

definition drops :: "MessageEnvelope \<Rightarrow> bool" where
  "drops e \<longleftrightarrow> me_target_kind e \<notin> {''thread'', ''report'', ''turn_start''} \<or>
     (me_target_kind e = ''turn_start'' \<and> truthy (py_get (me_payload e) ''queued''))"

lemma ack_remove_view:
  fixes c q
  defines "e \<equiv> ce_envelope c"
  shows "stream_at (ack_remove c q) = (stream_at q)(loc_of e := remove_stream_id (ce_stream_id c) (stream_at q (loc_of e)))"
    "mq_receipts (ack_remove c q) = mq_receipts q" "mq_counter (ack_remove c q) = mq_counter q"
    "items (ack_remove c q) = (if drops e then (items q)(me_thread_id e :=
        drop_ids (set (me_source_message_ids e)) (items q (me_thread_id e))) else items q)"
    "dicts_inv q \<Longrightarrow> dicts_inv (ack_remove c q)"
proof -
  have drop: "stream_at (drop_sources e q) = stream_at q" for q
    by (rule ext, rename_tac loc, case_tac loc, simp_all add: drop_sources_def)
  show "stream_at (ack_remove c q) = (stream_at q)(loc_of e := remove_stream_id (ce_stream_id c) (stream_at q (loc_of e)))"
    by (simp add: ack_remove_def remove_from_def stream_at_upd drop Let_def e_def [symmetric])
  show "mq_receipts (ack_remove c q) = mq_receipts q" "mq_counter (ack_remove c q) = mq_counter q"
    "items (ack_remove c q) = (if drops e then (items q)(me_thread_id e :=
        drop_ids (set (me_source_message_ids e)) (items q (me_thread_id e))) else items q)"
    by (auto simp: ack_remove_def drop_sources_def Let_def drops_def e_def [symmetric])
  show "dicts_inv q \<Longrightarrow> dicts_inv (ack_remove c q)"
    by (auto simp: ack_remove_def drop_sources_def Let_def dicts_inv_def remove_from_def)
qed

lemma covers_drops: "covers e \<Longrightarrow> drops e"
  by (auto simp: covers_def drops_def)

lemma ack_remove_inv:
  assumes inv: "mq_inv h q I" and c: "c \<in> I"
  shows "mq_inv h (ack_remove c q) I"
proof -
  define e where "e = ce_envelope c"
  define q' where "q' = ack_remove c q"
  note v = ack_remove_view [where c = c and q = q, folded e_def q'_def]
  have E: "entries q' = (entries q)(loc_of e := filter (\<lambda>en. fst en \<noteq> ce_stream_id c) (entries q (loc_of e)))"
    unfolding entries_def [abs_def] v(1) by (auto simp: fun_eq_iff view_remove)
  have base: "base_inv h q' I"
  proof (rule base_inv_remove [OF _ E])
    show "base_inv h q I" using inv by (simp add: mq_inv_base)
    show "items_inv h (items q')"
      unfolding v(4) using inv items_inv_drop_ids by (simp add: mq_inv_def)
    show "dicts_inv q'" using v(5) inv by (simp add: mq_inv_def)
  qed (use v in simp_all)
  have "carried (entries q') t (qm_id m)" if m: "m \<in> set (items q' t)" "qm_state m \<noteq> ''pending''" for t m
  proof -
    from m(1) have mq: "m \<in> set (items q t)" by (auto simp: v(4) drop_ids_def split: if_splits)
    with inv m(2) have "carried (entries q) t (qm_id m)" by (simp add: mq_inv_def cover_inv_def)
    then obtain loc en where en: "en \<in> set (entries q loc)" "covers (snd en)" "me_thread_id (snd en) = t"
      "qm_id m \<in> set (me_source_message_ids (snd en))" unfolding carried_def by blast
    show ?thesis
    proof (cases "fst en = ce_stream_id c")
      case True
      have "snd en = env0 e" using inv c en(1) True by (simp add: mq_inv_def issued_inv_def e_def)
      with en covers_drops [of e] have "drops e" "me_thread_id e = t" "qm_id m \<in> set (me_source_message_ids e)"
        by (auto simp: covers_def)
      with m(1) show ?thesis by (simp add: v(4) drop_ids_def)
    next
      case False
      then have "en \<in> set (entries q' loc)" using en(1) by (auto simp: E simp del: loc_of.simps)
      with en show ?thesis unfolding carried_def by blast
    qed
  qed
  with base show ?thesis by (simp add: mq_inv_base cover_inv_def q'_def)
qed

lemma mq_ack_inv [inv_intros]:
  assumes inv: "mq_inv h q I" and c: "c \<in> I" and res: "mq_ack c q = (q', r)"
  shows "mq_inv h q' I \<and> r = None"
proof -
  let ?q = "ack_remove c q" and ?d = "me_delivery_id (ce_envelope c)"
  have i: "mq_inv h ?q I" by (rule ack_remove_inv [OF inv c])
  then have "receipts ?q ?d \<noteq> None" using c by (simp add: mq_inv_def issued_inv_def)
  then obtain fp st0 e where rc: "receipts ?q ?d = Some (fp, st0, e)" by (metis option.exhaust prod_cases3)
  from i have base: "base_inv h ?q I" and cov: "cover_inv (entries ?q) (items ?q)" by (simp_all add: mq_inv_base)
  obtain q1 where "set_receipt ''acknowledged'' ?d ?q = (q1, None)" "base_inv h q1 I"
    "entries q1 = entries ?q" "mq_queues q1 = mq_queues ?q"
    using set_receipt_base [OF base rc, of "''acknowledged''"] by auto
  with res cov show ?thesis by (simp add: mq_ack_def mq_inv_base)
qed

text \<open>\<open>release_turn\<close> drops the turn's stream first and then returns the messages of its entries
  one by one, so inside the loop a message is covered by the streams or by an entry still to come.\<close>

lemma return_sources_base:
  assumes "base_inv h q I"
  shows "base_inv h (return_sources now e q) I"
  using assms items_inv_set_state [of h "items q" "''pending''"] dicts_inv_upd(6)
  unfolding base_inv_def return_sources_def by simp

lemma release_entries_inv:
  assumes "base_inv h q I"
    and "\<forall>en \<in> set ens. entry_ok h (receipts q) (Turn_stream turn) (entry_view en)"
    and "\<forall>t. \<forall>m \<in> set (items q t). qm_state m \<noteq> ''pending'' \<longrightarrow> carried (entries q) t (qm_id m) \<or>
      (\<exists>en \<in> set ens. me_thread_id (en_envelope en) = t \<and> qm_id m \<in> set (me_source_message_ids (en_envelope en)))"
  shows "\<exists>q'. release_entries now ens q = (q', None) \<and> mq_inv h q' I \<and> entries q' = entries q"
  using assms
proof (induction ens arbitrary: q)
  case Nil
  then show ?case by (auto simp: mq_inv_base cover_inv_def)
next
  case (Cons en ens)
  let ?e = "en_envelope en" and ?q = "return_sources now (en_envelope en) q"
  have base: "base_inv h ?q I" by (rule return_sources_base [OF Cons.prems(1)])
  have q: "entries ?q = entries q" "receipts ?q = receipts q"
    "items ?q = (items q)(me_thread_id ?e := set_state ''pending'' now (set (me_source_message_ids ?e)) (items q (me_thread_id ?e)))"
    by (simp_all add: return_sources_def)
  from Cons.prems(2) obtain fp st where rc: "receipts ?q (me_delivery_id ?e) = Some (fp, st, env0 ?e)"
    and at: "at_location h (Turn_stream turn) (env0 ?e) fp"
    by (auto simp: entry_ok_def entry_view_def q)
  obtain q1 where q1: "set_receipt ''returned'' (me_delivery_id ?e) ?q = (q1, None)" "base_inv h q1 I"
    "entries q1 = entries q" "mq_queues q1 = mq_queues ?q" "receipts_ext (receipts q) (receipts q1)"
    using set_receipt_base [OF base rc, of "''returned''"] at by (auto simp: q)
  have "\<exists>q'. release_entries now ens q1 = (q', None) \<and> mq_inv h q' I \<and> entries q' = entries q1"
  proof (rule Cons.IH [OF q1(2)])
    show "\<forall>en \<in> set ens. entry_ok h (receipts q1) (Turn_stream turn) (entry_view en)"
      using Cons.prems(2) q1(5) unfolding entry_ok_def receipts_ext_def by (meson list.set_intros(2))
    show "\<forall>t. \<forall>m \<in> set (items q1 t). qm_state m \<noteq> ''pending'' \<longrightarrow> carried (entries q1) t (qm_id m) \<or>
      (\<exists>en \<in> set ens. me_thread_id (en_envelope en) = t \<and> qm_id m \<in> set (me_source_message_ids (en_envelope en)))"
      using Cons.prems(3) unfolding q1(3,4) q(3) by (auto simp: set_state_def split: if_splits)
  qed
  with q1 show ?case by simp
qed

lemma mq_release_turn_inv [inv_intros]:
  assumes inv: "mq_inv h q I" and res: "mq_release_turn now turn q = (q', r)"
  shows "mq_inv h q' I \<and> r = None"
proof -
  let ?q = "q\<lparr>mq_streams := AList.delete turn (mq_streams q)\<rparr>"
  have E: "entries ?q = (entries q)(Turn_stream turn := filter (\<lambda>_. False) (entries q (Turn_stream turn)))"
    unfolding entries_def [abs_def] stream_at_upd by (auto simp: fun_eq_iff)
  have base: "base_inv h ?q I"
    by (rule base_inv_remove [OF _ E]) (use inv in \<open>auto simp: mq_inv_base base_inv_def intro: dicts_inv_upd\<close>)
  have "\<exists>q'. release_entries now (dget (mq_streams q) turn) ?q = (q', None) \<and> mq_inv h q' I \<and> entries q' = entries ?q"
  proof (rule release_entries_inv [OF base, where turn = turn])
    show "\<forall>en \<in> set (dget (mq_streams q) turn). entry_ok h (receipts ?q) (Turn_stream turn) (entry_view en)"
      using inv by (auto simp: mq_inv_def entries_inv_def entries_def)
    show "\<forall>t. \<forall>m \<in> set (items ?q t). qm_state m \<noteq> ''pending'' \<longrightarrow> carried (entries ?q) t (qm_id m) \<or>
      (\<exists>en \<in> set (dget (mq_streams q) turn). me_thread_id (en_envelope en) = t \<and>
         qm_id m \<in> set (me_source_message_ids (en_envelope en)))"
    proof (intro allI ballI impI)
      fix t m assume "m \<in> set (items ?q t)" "qm_state m \<noteq> ''pending''"
      with inv have "carried (entries q) t (qm_id m)" by (simp add: mq_inv_def cover_inv_def)
      then obtain loc en where en: "en \<in> set (entries q loc)" "covers (snd en)" "me_thread_id (snd en) = t"
        "qm_id m \<in> set (me_source_message_ids (snd en))" unfolding carried_def by blast
      show "carried (entries ?q) t (qm_id m) \<or> (\<exists>en \<in> set (dget (mq_streams q) turn).
          me_thread_id (en_envelope en) = t \<and> qm_id m \<in> set (me_source_message_ids (en_envelope en)))"
      proof (cases "loc = Turn_stream turn")
        case True
        with en show ?thesis by (auto simp: entries_def entry_view_def)
      next
        case False
        with en(1) have "en \<in> set (entries ?q loc)" by (simp add: E)
        with en show ?thesis unfolding carried_def by blast
      qed
    qed
  qed
  with res show ?thesis by (auto simp: mq_release_turn_def)
qed

section \<open>Reachable queues\<close>

text \<open>
  A run of the queue: every method, with the claims handed out so far and the ledger of the messages that are
  in its care. The ledger is kept by what the callers see, as pairs of a thread and a message id: an accepted
  \<open>create\<close> enters the message, a successful \<open>delete\<close> strikes it out, and so does the acknowledgement of a delivery
  of queued messages for its source messages; nothing else touches it. The callers' side of the contract is explicit:
  messages and envelopes are constructed values, a new message is pending, and only claims that the queue
  handed out are acknowledged.
\<close>

definition acked_messages :: "MessageEnvelope \<Rightarrow> (string \<times> string) set" where
  "acked_messages e = (if drops e then {me_thread_id e} \<times> set (me_source_message_ids e) else {})"

inductive mq_run :: "msg_host \<Rightarrow> memory_queue \<Rightarrow> ClaimedEnvelope set \<Rightarrow> (string \<times> string) set \<Rightarrow> bool" for h where
  mr_new: "mq_run h new_memory_queue {} {}"
| mr_create: "mq_run h q I L \<Longrightarrow> queued_post_init h item = Inr () \<Longrightarrow> qm_state item = ''pending'' \<Longrightarrow>
    mq_create item q = Inr (q', r) \<Longrightarrow> mq_run h q' I (insert (qm_thread_id item, qm_id item) L)"
| mr_update: "mq_run h q I L \<Longrightarrow> mq_update h now t i c refs q = Inr (q', m) \<Longrightarrow> mq_run h q' I L"
| mr_delete: "mq_run h q I L \<Longrightarrow> mq_delete t i q = Inr q' \<Longrightarrow> mq_run h q' I (L - {(t, i)})"
| mr_dispatch: "mq_run h q I L \<Longrightarrow> mq_dispatch h now did ids s t turn corr cp q = Inr (q', e) \<Longrightarrow>
    mq_run h q' I L"
| mr_turn_start: "mq_run h q I L \<Longrightarrow> mq_dispatch_turn_start h e q = Inr (q', e') \<Longrightarrow> mq_run h q' I L"
| mr_agent: "mq_run h q I L \<Longrightarrow> mq_dispatch_agent h e q = Inr (q', e') \<Longrightarrow> mq_run h q' I L"
| mr_report: "mq_run h q I L \<Longrightarrow> mq_dispatch_report h e q = Inr (q', e') \<Longrightarrow> mq_run h q' I L"
| mr_claim: "mq_run h q I L \<Longrightarrow> mq_claim t consumer q = (q', cl) \<Longrightarrow> mq_run h q' (set_option cl \<union> I) L"
| mr_claim_start: "mq_run h q I L \<Longrightarrow> mq_claim_turn_start consumer recover q = (q', cl) \<Longrightarrow>
    mq_run h q' (set_option cl \<union> I) L"
| mr_claim_thread: "mq_run h q I L \<Longrightarrow> mq_claim_thread t consumer q = (q', cl) \<Longrightarrow>
    mq_run h q' (set_option cl \<union> I) L"
| mr_claim_recovery: "mq_run h q I L \<Longrightarrow> mq_claim_thread_recovery t consumer q = (q', cl) \<Longrightarrow>
    mq_run h q' (set_option cl \<union> I) L"
| mr_claim_report: "mq_run h q I L \<Longrightarrow> mq_claim_report t consumer recover q = (q', cl) \<Longrightarrow>
    mq_run h q' (set_option cl \<union> I) L"
| mr_ack: "mq_run h q I L \<Longrightarrow> cl \<in> I \<Longrightarrow> mq_ack cl q = (q', err) \<Longrightarrow>
    mq_run h q' I (L - acked_messages (ce_envelope cl))"
| mr_release: "mq_run h q I L \<Longrightarrow> mq_release_turn now t q = (q', err) \<Longrightarrow> mq_run h q' I L"

definition mq_reachable :: "msg_host \<Rightarrow> memory_queue \<Rightarrow> ClaimedEnvelope set \<Rightarrow> bool" where
  "mq_reachable h q I \<longleftrightarrow> (\<exists>L. mq_run h q I L)"

lemma new_queue_inv: "mq_inv h new_memory_queue {}"
proof -
  have "entries new_memory_queue = (\<lambda>_. [])"
    by (rule ext, rename_tac loc, case_tac loc, simp_all add: entries_def new_memory_queue_def dget_def)
  then show ?thesis by (simp add: mq_inv_defs) (simp add: new_memory_queue_def dget_def)
qed

lemma mq_run_inv:
  assumes "mq_run h q I L" "inj (mh_digest h)"
  shows "mq_inv h q I"
  using assms(1)
  by induction
    (blast intro: new_queue_inv mq_create_inv mq_update_inv mq_delete_inv mq_dispatch_inv [OF _ assms(2)]
      mq_dispatch_turn_start_inv mq_dispatch_agent_inv mq_dispatch_report_inv mq_claim_inv
      mq_claim_turn_start_inv mq_claim_thread_inv mq_claim_thread_recovery_inv mq_claim_report_inv
      dest: mq_ack_inv mq_release_turn_inv)+

lemma mq_reachable_inv: "mq_reachable h q I \<Longrightarrow> inj (mh_digest h) \<Longrightarrow> mq_inv h q I"
  by (auto simp: mq_reachable_def intro: mq_run_inv)

section \<open>The ledger\<close>

text \<open>The messages that the queue lists, and what each method does to them.\<close>

definition in_queue :: "memory_queue \<Rightarrow> (string \<times> string) set" where
  "in_queue q = {(t, i). i \<in> qm_id ` set (items q t)}"

lemma in_queue_iff: "(t, i) \<in> in_queue q \<longleftrightarrow> i \<in> qm_id ` set (items q t)"
  by (simp add: in_queue_def)

lemma pair_set_eqI: "(\<And>a b. (a, b) \<in> A \<longleftrightarrow> (a, b) \<in> B) \<Longrightarrow> A = B"
  by auto

lemma in_queue_same: "mq_queues q' = mq_queues q \<Longrightarrow> in_queue q' = in_queue q"
  by (simp add: in_queue_def)

lemma in_queue_update: "mq_queues q' = AList.update t xs (mq_queues q) \<Longrightarrow>
    in_queue q' = {(t', i). if t' = t then i \<in> qm_id ` set xs else (t', i) \<in> in_queue q}"
  by (rule pair_set_eqI) (simp add: in_queue_iff)

lemma in_queue_update_same:
  assumes "mq_queues q' = AList.update t xs (mq_queues q)" "map qm_id xs = map qm_id (items q t)"
  shows "in_queue q' = in_queue q"
proof -
  have "qm_id ` set xs = qm_id ` set (items q t)" using assms(2) by (metis set_map)
  then show ?thesis unfolding in_queue_update [OF assms(1)] by (intro pair_set_eqI) (simp add: in_queue_iff)
qed

lemma in_queue_create: "mq_create item q = Inr (q', r) \<Longrightarrow> in_queue q' = insert (qm_thread_id item, qm_id item) (in_queue q)"
  by (auto simp: mq_create_def Let_def in_queue_def find_None_iff find_Some_iff image_iff split: option.splits if_splits)
    (metis nth_mem)

lemma delete_item_ids: "delete_item i xs = Inr ys \<Longrightarrow> distinct (map qm_id xs) \<Longrightarrow> qm_id ` set ys = qm_id ` set xs - {i}"
proof (induction xs arbitrary: ys)
  case (Cons x xs)
  show ?case
  proof (cases "qm_id x = i")
    case True
    then show ?thesis using Cons.prems by (auto split: if_splits)
  next
    case False
    then obtain zs where zs: "delete_item i xs = Inr zs" "ys = x # zs" using Cons.prems(1) by (auto simp: bind_result_Inr)
    have "qm_id ` set zs = qm_id ` set xs - {i}" using Cons.IH [OF zs(1)] Cons.prems(2) by simp
    then show ?thesis using False by (simp add: zs(2) insert_Diff_if)
  qed
qed simp

lemma in_queue_delete:
  assumes "mq_delete t i q = Inr q'" "distinct (map qm_id (items q t))"
  shows "in_queue q' = in_queue q - {(t, i)}"
proof -
  from assms(1) obtain ys where ys: "delete_item i (items q t) = Inr ys"
    and q': "mq_queues q' = AList.update t ys (mq_queues q)"
    by (auto simp: mq_delete_def bind_result_Inr)
  show ?thesis unfolding in_queue_update [OF q'] delete_item_ids [OF ys assms(2)] by (auto simp: in_queue_def)
qed

lemma in_queue_mq_update: "mq_update h now t i c refs q = Inr (q', m) \<Longrightarrow> in_queue q' = in_queue q"
  by (auto simp: mq_update_def bind_result_Inr dest!: update_item_ok intro!: in_queue_update_same)

lemma in_queue_dispatch: "mq_dispatch h now did ids s t turn corr cp q = Inr (q', e) \<Longrightarrow> in_queue q' = in_queue q"
  by (erule mq_dispatchE) (auto simp: dispatch_commit_def Let_def intro!: in_queue_update_same)

lemma in_queue_canonical:
  "mq_dispatch_turn_start h e q = Inr (q', e') \<Longrightarrow> in_queue q' = in_queue q"
  "mq_dispatch_agent h e q = Inr (q', e') \<Longrightarrow> in_queue q' = in_queue q"
  "mq_dispatch_report h e q = Inr (q', e') \<Longrightarrow> in_queue q' = in_queue q"
  by (auto simp: mq_dispatch_turn_start_def mq_dispatch_agent_def mq_dispatch_report_def dispatch_canonical_def Let_def
      in_queue_def split: if_splits option.splits)

lemma in_queue_claim:
  "mq_claim t consumer q = (q', cl) \<Longrightarrow> in_queue q' = in_queue q"
  "mq_claim_turn_start consumer recover q = (q', cl) \<Longrightarrow> in_queue q' = in_queue q"
  "mq_claim_thread t consumer q = (q', cl) \<Longrightarrow> in_queue q' = in_queue q"
  "mq_claim_thread_recovery t consumer q = (q', cl) \<Longrightarrow> in_queue q' = in_queue q"
  "mq_claim_report t consumer recover q = (q', cl) \<Longrightarrow> in_queue q' = in_queue q"
  by (auto simp: mq_claim_def mq_claim_turn_start_def mq_claim_thread_def mq_claim_thread_recovery_def mq_claim_report_def
      in_queue_def split: option.splits)

lemma set_receipt_queues: "set_receipt st d q = (q', err) \<Longrightarrow> mq_queues q' = mq_queues q"
  by (auto simp: set_receipt_def split: option.splits)

lemma in_queue_ack:
  assumes "mq_ack c q = (q', err)"
  shows "in_queue q' = in_queue q - acked_messages (ce_envelope c)"
proof -
  have "in_queue q' = in_queue (ack_remove c q)" by (rule in_queue_same, rule set_receipt_queues) (use assms in \<open>simp add: mq_ack_def\<close>)
  also have "\<dots> = in_queue q - acked_messages (ce_envelope c)"
    by (rule pair_set_eqI) (auto simp: in_queue_iff ack_remove_view(4) acked_messages_def drop_ids_def split: if_splits)
  finally show ?thesis .
qed

lemma in_queue_release_entries: "release_entries now ens q = (q', err) \<Longrightarrow> in_queue q' = in_queue q"
proof (induction ens arbitrary: q)
  case (Cons en ens)
  obtain q1 e1 where st: "set_receipt ''returned'' (me_delivery_id (en_envelope en)) (return_sources now (en_envelope en) q) = (q1, e1)"
    by force
  have "in_queue (return_sources now (en_envelope en) q) = in_queue q"
    by (rule in_queue_update_same [OF _ set_state_ids]) (simp add: return_sources_def)
  then have "in_queue q1 = in_queue q" using in_queue_same [OF set_receipt_queues [OF st]] by simp
  then show ?case using Cons st by (auto split: option.splits)
qed simp

lemma in_queue_release: "mq_release_turn now t q = (q', err) \<Longrightarrow> in_queue q' = in_queue q"
  using in_queue_release_entries in_queue_same [of "q\<lparr>mq_streams := AList.delete t (mq_streams q)\<rparr>" q]
  by (fastforce simp: mq_release_turn_def)

lemma mq_run_ledger:
  assumes "mq_run h q I L" "inj (mh_digest h)"
  shows "in_queue q = L"
  using assms(1)
proof induction
  case mr_new
  show ?case by (simp add: in_queue_def new_memory_queue_def dget_def)
next
  case (mr_delete q I L t i q')
  have "distinct (map qm_id (items q t))"
    using mq_run_inv [OF mr_delete.hyps(1) assms(2)] by (simp add: mq_inv_def items_inv_def)
  then show ?case using mr_delete by (simp add: in_queue_delete)
qed (simp_all add: in_queue_create in_queue_mq_update in_queue_dispatch in_queue_canonical in_queue_claim in_queue_ack in_queue_release)

section \<open>Properties of reachable queues\<close>

lemma dget_concat: "x \<in> set (dget d k) \<Longrightarrow> x \<in> set (concat (dict_values d))"
  by (auto simp: dget_def split: option.splits) (metis map_of_SomeD snd_conv)

lemma entries_pending:
  assumes "en \<in> set (entries q loc)"
  shows "\<exists>c \<in> set (mq_pending_deliveries q). en = (ce_stream_id c, env0 (ce_envelope c))"
proof -
  from assms obtain x where x: "x \<in> set (stream_at q loc)" "en = entry_view x" by (auto simp: entries_def)
  then have "x \<in> set (all_entries q)"
    by (cases loc) (auto simp: all_entries_def dest!: dget_concat)
  with x(2) show ?thesis by (force simp: mq_pending_deliveries_def entry_view_def)
qed

text \<open>The outstanding entries, location by location.\<close>

definition locations :: "memory_queue \<Rightarrow> location list" where
  "locations q = map (Turn_stream \<circ> fst) (mq_streams q) @ map (Thread_stream \<circ> fst) (mq_thread_streams q)
     @ map (Report_stream \<circ> fst) (mq_report_streams q) @ [Start_stream]"

lemma dict_values_dget: "wf_dict d \<Longrightarrow> dict_values d = map (\<lambda>kv. dget d (fst kv)) d"
  by (auto simp: dget_def wf_dict_def intro!: map_cong)

lemma all_entries_locations:
  assumes "dicts_inv q"
  shows "all_entries q = concat (map (stream_at q) (locations q))"
  using assms
  by (simp add: all_entries_def locations_def dicts_inv_def dict_values_dget [of "mq_streams q"]
      dict_values_dget [of "mq_thread_streams q"] dict_values_dget [of "mq_report_streams q"] comp_def)

lemma distinct_locations: "dicts_inv q \<Longrightarrow> distinct (locations q)"
  by (auto simp: locations_def dicts_inv_def wf_dict_def distinct_map inj_on_def)

lemma distinct_concat_map:
  assumes "distinct ls" "\<And>l. distinct (map f (g l))"
    and "\<And>l l'. l \<noteq> l' \<Longrightarrow> f ` set (g l) \<inter> f ` set (g l') = {}"
  shows "distinct (map f (concat (map g ls)))"
  using assms(1)
proof (induction ls)
  case (Cons l ls)
  moreover have "f ` set (g l) \<inter> f ` set (g l') = {}" if "l' \<in> set ls" for l'
    using Cons.prems that by (intro assms(3)) auto
  ultimately show ?case using assms(2) by fastforce
qed simp

lemma in_queue_message:
  assumes inv: "mq_inv h q I" and m: "m \<in> set (mq_list t q)"
  shows "qm_state m = ''pending'' \<or> (qm_state m = ''dispatched'' \<and>
    (\<exists>c \<in> set (mq_pending_deliveries q). me_thread_id (ce_envelope c) = t \<and> qm_id m \<in> set (me_source_message_ids (ce_envelope c))))"
proof -
  have st: "qm_state m \<in> {''pending'', ''dispatched''}"
    using inv m by (fastforce simp: mq_inv_def items_inv_def mq_list_def queued_post_init_def bind_result_Inr)
  have "\<exists>c \<in> set (mq_pending_deliveries q). me_thread_id (ce_envelope c) = t \<and>
      qm_id m \<in> set (me_source_message_ids (ce_envelope c))" if "qm_state m \<noteq> ''pending''"
  proof -
    have "carried (entries q) t (qm_id m)"
      using inv m that by (simp add: mq_inv_def cover_inv_def mq_list_def)
    then obtain loc en where en: "en \<in> set (entries q loc)" "me_thread_id (snd en) = t"
      "qm_id m \<in> set (me_source_message_ids (snd en))" unfolding carried_def by blast
    from entries_pending [OF en(1)] obtain c where "c \<in> set (mq_pending_deliveries q)"
      "snd en = env0 (ce_envelope c)" by force
    with en show ?thesis by auto
  qed
  with st show ?thesis by auto
qed

text \<open>
  C6. No message is lost, and none appears: after any run of the queue, the messages it lists are exactly those
  that were accepted and neither deleted nor acknowledged, each once; and every one of them is pending, or
  dispatched and carried by an outstanding delivery of its thread.
\<close>

theorem message_never_lost:
  assumes "mq_run h q I L" "inj (mh_digest h)"
  shows "((t, i) \<in> L \<longleftrightarrow> (\<exists>m \<in> set (mq_list t q). qm_id m = i)) \<and> distinct (map qm_id (mq_list t q)) \<and>
    (\<forall>m \<in> set (mq_list t q). qm_state m = ''pending'' \<or> (qm_state m = ''dispatched'' \<and>
      (\<exists>c \<in> set (mq_pending_deliveries q). me_thread_id (ce_envelope c) = t \<and> qm_id m \<in> set (me_source_message_ids (ce_envelope c)))))"
proof -
  have inv: "mq_inv h q I" by (rule mq_run_inv [OF assms])
  have "(t, i) \<in> L \<longleftrightarrow> (\<exists>m \<in> set (mq_list t q). qm_id m = i)"
    using mq_run_ledger [OF assms] by (auto simp: in_queue_def mq_list_def)
  then show ?thesis using inv in_queue_message [OF inv] by (auto simp: mq_inv_def items_inv_def mq_list_def)
qed

text \<open>No two outstanding deliveries share a stream id, in whatever streams they are.
\<close>

theorem delivery_ids_unique:
  assumes "mq_reachable h q I" "inj (mh_digest h)"
  shows "distinct (map ce_stream_id (mq_pending_deliveries q))"
proof -
  let ?S = "\<lambda>loc. en_stream_id ` set (stream_at q loc)"
  have inv: "mq_inv h q I" by (rule mq_reachable_inv [OF assms])
  have key: "map fst (entries q loc) = map en_stream_id (stream_at q loc)" for loc
    by (simp add: entries_def entry_view_def)
  then have set_key: "fst ` set (entries q loc) = ?S loc" for loc by (metis set_map)
  have dist: "distinct (map en_stream_id (stream_at q loc))"
    and disj: "loc \<noteq> loc' \<Longrightarrow> ?S loc \<inter> ?S loc' = {}" for loc loc'
    using inv unfolding mq_inv_def ids_inv_def key set_key by blast+
  have d: "dicts_inv q" using inv by (simp add: mq_inv_def)
  have "distinct (map en_stream_id (all_entries q))"
    unfolding all_entries_locations [OF d]
    by (rule distinct_concat_map [OF distinct_locations [OF d] dist disj])
  then show ?thesis by (simp add: mq_pending_deliveries_def comp_def)
qed

text \<open>Acknowledging a claim that the queue handed out, and releasing a turn, never raise
  \<open>KeyError\<close>: the receipt is always there.
\<close>

theorem ack_and_release_never_raise:
  assumes "mq_reachable h q I" "inj (mh_digest h)"
  shows "(\<forall>c \<in> I. snd (mq_ack c q) = None) \<and> snd (mq_release_turn now turn q) = None"
  using mq_ack_inv mq_release_turn_inv mq_reachable_inv [OF assms] by (metis prod.collapse)

lemma claim_first_unowned:
  assumes "claim_first unowned consumer ens = Some (c, ens')" "distinct (map en_stream_id ens)"
  shows "map en_stream_id ens' = map en_stream_id ens \<and> ce_stream_id c \<in> en_stream_id ` set ens \<and>
    (\<forall>en \<in> set ens'. en_stream_id en = ce_stream_id c \<longrightarrow> \<not> unowned en)"
  using assms
proof (induction ens arbitrary: ens')
  case (Cons en ens)
  show ?case
  proof (cases "unowned en")
    case True
    with Cons.prems show ?thesis
      by (auto simp: Let_def claim_entry_def unowned_def) (metis image_eqI)
  next
    case False
    with Cons.prems obtain ens1 where *: "claim_first unowned consumer ens = Some (c, ens1)" "ens' = en # ens1"
      by auto
    from Cons.IH [OF this(1)] Cons.prems(2) * False show ?thesis by auto
  qed
qed simp

lemma claim_first_was_unowned:
  "claim_first unowned consumer ens = Some (c, ens') \<Longrightarrow>
     \<exists>en \<in> set ens. unowned en \<and> en_stream_id en = ce_stream_id c"
proof (induction ens arbitrary: ens')
  case (Cons en ens)
  then show ?case by (cases "unowned en") (auto simp: Let_def claim_entry_def)
qed simp

text \<open>A delivery has one consumer: two claims of a turn, one after the other, return different
  deliveries.
\<close>

theorem claims_are_exclusive:
  assumes "mq_reachable h q I" "inj (mh_digest h)"
    and "mq_claim turn a q = (q1, Some c1)" "mq_claim turn b q1 = (q2, Some c2)"
  shows "ce_stream_id c1 \<noteq> ce_stream_id c2"
proof
  assume eq: "ce_stream_id c1 = ce_stream_id c2"
  have "ids_inv (entries q) (mq_counter q)" using mq_reachable_inv [OF assms(1,2)] by (simp add: mq_inv_def)
  then have "distinct (map fst (entries q (Turn_stream turn)))" by (simp add: ids_inv_def)
  then have d: "distinct (map en_stream_id (dget (mq_streams q) turn))"
    by (simp add: entries_def entry_view_def comp_def)
  obtain ens1 where 1: "claim_first unowned a (dget (mq_streams q) turn) = Some (c1, ens1)"
      "dget (mq_streams q1) turn = ens1"
    using assms(3) by (auto simp: mq_claim_def split: option.splits)
  obtain ens2 where 2: "claim_first unowned b (dget (mq_streams q1) turn) = Some (c2, ens2)"
    using assms(4) by (auto simp: mq_claim_def split: option.splits)
  from claim_first_was_unowned [OF 2] obtain en where
    "en \<in> set ens1" "unowned en" "en_stream_id en = ce_stream_id c2" using 1(2) by auto
  with claim_first_unowned [OF 1(1) d] eq show False by auto
qed

text \<open>Dispatch is idempotent: repeating a successful dispatch with the same delivery id, thread,
  turn and messages returns the same envelope and changes nothing, whatever else the retry passes.
\<close>

theorem dispatch_idempotent:
  assumes "mq_dispatch h now did ids s t turn corr cp q = Inr (q', e)"
  shows "mq_dispatch h now' did ids s' t turn corr' cp' q' = Inr (q', e)"
proof -
  have "\<exists>st. receipts q' did = Some (fingerprint h t turn ids, st, e) \<and> st \<noteq> ''returned''"
    using assms
  proof (cases rule: mq_dispatchE)
    case fresh
    with dispatch_commit_view(3) [OF fresh(4) refl] show ?thesis by simp
  next
    case again
    with dispatch_commit_view(3) [OF again(2) refl] show ?thesis by simp
  qed auto
  then show ?thesis by (auto simp: mq_dispatch_def Let_def)
qed

section \<open>Concrete runs\<close>

definition sample_host :: msg_host where
  "sample_host = \<lparr>mh_is_abs = (\<lambda>s. take 1 s = ''/''), mh_digest = id\<rparr>"

definition sample_message :: "string \<Rightarrow> string \<Rightarrow> QueuedMessage" where
  "sample_message i c = \<lparr>qm_id = i, qm_thread_id = ''t'', qm_content = c, qm_references = [],
     qm_state = ''pending'', qm_created_at = ''0'', qm_updated_at = ''0''\<rparr>"

definition queue_of :: "queue_error + memory_queue \<times> 'r \<Rightarrow> memory_queue" where
  "queue_of r = (case r of Inr (q, _) \<Rightarrow> q | Inl _ \<Rightarrow> new_memory_queue)"

definition created :: memory_queue where
  "created = queue_of (mq_create (sample_message ''m'' ''draft'') new_memory_queue)"

definition sample_dispatch :: "pydict option \<Rightarrow> memory_queue \<Rightarrow> queue_error + memory_queue \<times> MessageEnvelope" where
  "sample_dispatch cp q = mq_dispatch sample_host ''1'' ''d'' [''m''] ''s'' ''t'' ''u'' None cp q"

definition dispatched :: memory_queue where
  "dispatched = queue_of (sample_dispatch None created)"

lemma sample_inj: "inj (mh_digest sample_host)"
  by (simp add: sample_host_def)

lemma created_run: "mq_run sample_host created {} {(''t'', ''m'')}"
proof -
  have "mq_run sample_host created {} (insert (qm_thread_id (sample_message ''m'' ''draft''), qm_id (sample_message ''m'' ''draft'')) {})"
  proof (rule mr_create [OF mr_new])
    show "mq_create (sample_message ''m'' ''draft'') new_memory_queue = Inr (created, sample_message ''m'' ''draft'', True)"
      by code_simp
    show "queued_post_init sample_host (sample_message ''m'' ''draft'') = Inr ()" by code_simp
  qed (simp add: sample_message_def)
  then show ?thesis by (simp add: sample_message_def)
qed

lemma dispatched_result: "\<exists>e. sample_dispatch None created = Inr (dispatched, e)"
proof -
  have "\<not> isl (sample_dispatch None created)" by code_simp
  then show ?thesis by (cases "sample_dispatch None created") (auto simp: dispatched_def queue_of_def)
qed

lemma dispatched_run: "mq_run sample_host dispatched {} {(''t'', ''m'')}"
  using dispatched_result created_run mr_dispatch unfolding sample_dispatch_def by blast

lemma dispatched_reachable: "mq_reachable sample_host dispatched {}"
  using dispatched_run by (auto simp: mq_reachable_def)

theorem message_never_lost_witness:
  "\<exists>m \<in> set (mq_list ''t'' (fst (mq_release_turn ''2'' ''u'' dispatched))). qm_id m = ''m'' \<and> qm_state m = ''pending''"
proof -
  define q where "q = fst (mq_release_turn ''2'' ''u'' dispatched)"
  have "mq_run sample_host q {} {(''t'', ''m'')}"
    by (rule mr_release [OF dispatched_run, of "''2''" "''u''" _ "snd (mq_release_turn ''2'' ''u'' dispatched)"]) (simp add: q_def)
  from message_never_lost [OF this sample_inj, of "''t''" "''m''"]
  have "\<exists>m \<in> set (mq_list ''t'' q). qm_id m = ''m''" by simp
  moreover have "mq_pending_deliveries q = []" unfolding q_def by code_simp
  ultimately show ?thesis
    using message_never_lost [OF \<open>mq_run sample_host q {} _\<close> sample_inj, of "''t''" "''m''"] unfolding q_def by auto
qed

theorem delivery_ids_unique_witness: "distinct (map ce_stream_id (mq_pending_deliveries dispatched))"
  by (rule delivery_ids_unique [OF dispatched_reachable sample_inj])

theorem ack_and_release_never_raise_witness: "snd (mq_release_turn ''2'' ''u'' dispatched) = None"
  using ack_and_release_never_raise [OF dispatched_reachable sample_inj] by blast

theorem dispatch_idempotent_witness:
  "\<exists>e. mq_dispatch sample_host ''9'' ''d'' [''m''] ''s'' ''t'' ''u'' None None dispatched = Inr (dispatched, e)"
  using dispatched_result dispatch_idempotent unfolding sample_dispatch_def by blast

definition two_dispatched :: memory_queue where
  "two_dispatched = queue_of (mq_dispatch sample_host ''1'' ''d2'' [''n''] ''s'' ''t'' ''u'' None None
     (queue_of (mq_create (sample_message ''n'' ''more'') dispatched)))"

lemma two_dispatched_reachable: "mq_reachable sample_host two_dispatched {}"
proof -
  define q where "q = queue_of (mq_create (sample_message ''n'' ''more'') dispatched)"
  have "mq_create (sample_message ''n'' ''more'') dispatched = Inr (q, sample_message ''n'' ''more'', True)"
    unfolding q_def by code_simp
  then have q: "mq_run sample_host q {} (insert (qm_thread_id (sample_message ''n'' ''more''), qm_id (sample_message ''n'' ''more'')) {(''t'', ''m'')})"
    by (rule mr_create [OF dispatched_run, rotated 2]) (code_simp, simp add: sample_message_def)
  have "\<not> isl (mq_dispatch sample_host ''1'' ''d2'' [''n''] ''s'' ''t'' ''u'' None None q)"
    unfolding q_def by code_simp
  then obtain e where "mq_dispatch sample_host ''1'' ''d2'' [''n''] ''s'' ''t'' ''u'' None None q
      = Inr (two_dispatched, e)"
    by (cases "mq_dispatch sample_host ''1'' ''d2'' [''n''] ''s'' ''t'' ''u'' None None q")
      (auto simp: two_dispatched_def queue_of_def q_def)
  with q show ?thesis unfolding mq_reachable_def by (blast intro: mr_dispatch)
qed

theorem claims_are_exclusive_witness:
  "\<exists>q1 c1 q2 c2. mq_claim ''u'' ''a'' two_dispatched = (q1, Some c1) \<and> mq_claim ''u'' ''b'' q1 = (q2, Some c2) \<and>
     ce_stream_id c1 \<noteq> ce_stream_id c2"
proof -
  have 1: "snd (mq_claim ''u'' ''a'' two_dispatched) \<noteq> None"
    "snd (mq_claim ''u'' ''b'' (fst (mq_claim ''u'' ''a'' two_dispatched))) \<noteq> None" by code_simp+
  then obtain q1 c1 q2 c2 where "mq_claim ''u'' ''a'' two_dispatched = (q1, Some c1)"
    "mq_claim ''u'' ''b'' q1 = (q2, Some c2)" by (metis option.exhaust prod.collapse)
  with claims_are_exclusive [OF two_dispatched_reachable sample_inj] show ?thesis by blast
qed

text \<open>An edit made between release and retry is lost: a message is dispatched, its turn is released,
  the user replaces its text, and the retry with the same delivery id is accepted and marks the
  message dispatched, but it sends the envelope stored at the first attempt, with the old text.
\<close>

theorem redispatch_sends_stale_content:
  "let q1 = fst (mq_release_turn ''2'' ''u'' dispatched);
       q2 = queue_of (mq_update sample_host ''3'' ''t'' ''m'' ''final'' [] q1)
   in map qm_content (mq_list ''t'' q2) = [''final''] \<and>
      (case sample_dispatch None q2 of Inl _ \<Rightarrow> False
       | Inr (q3, e) \<Rightarrow> envelope_content e = ''draft'' \<and> map qm_state (mq_list ''t'' q3) = [''dispatched''])"
  by code_simp

text \<open>
  A delivery can outlive its acknowledgement: when a released turn delivery is retried with a
  command payload, the stored envelope of kind \<open>turn\<close> is appended to the turn-start stream;
  \<open>ack\<close> looks for it in the turn's stream, so it stays and recovery delivers it again although
  the message is gone.
\<close>

lemma start_entry_survives_ack:
  "let q1 = fst (mq_release_turn ''2'' ''u'' dispatched);
       q2 = queue_of (sample_dispatch (Some [(''cmd'', PStr ''x'')]) q1);
       (q3, c) = mq_claim_turn_start ''w'' False q2;
       q4 = fst (mq_ack (the c) q3)
   in map ce_stream_id (mq_pending_deliveries q4) = [ce_stream_id (the c)] \<and> mq_list ''t'' q4 = [] \<and>
      map_option ce_stream_id (snd (mq_claim_turn_start ''w'' True q4)) = Some (ce_stream_id (the c))"
  by code_simp

end
