(* ===== verification/MailboxPort.thy ===== *)
theory MailboxPort
  imports MemoryQueueInv
begin

text \<open>
  The interface between the mailboxes of \<open>storage/message_mailbox.py\<close> and the queue below
  them. The locale fixes what a mailbox calls and states what it relies on; the mailbox lemmas are
  proved from that alone, and the in-memory queue is an instance.
\<close>

locale delivery_port =
  fixes claim :: "string \<Rightarrow> string \<Rightarrow> 'q \<Rightarrow> 'q \<times> ClaimedEnvelope option"
    and claim_thread :: "string \<Rightarrow> string \<Rightarrow> 'q \<Rightarrow> 'q \<times> ClaimedEnvelope option"
    and ack :: "ClaimedEnvelope \<Rightarrow> 'q \<Rightarrow> 'q \<times> queue_error option"
    and pending :: "'q \<Rightarrow> string set"
    and ok :: "'q \<Rightarrow> ClaimedEnvelope set \<Rightarrow> bool"
  assumes claim_ok: "ok q I \<Longrightarrow> claim t k q = (q', r) \<Longrightarrow> ok q' (set_option r \<union> I)"
    and claim_thread_ok: "ok q I \<Longrightarrow> claim_thread t k q = (q', r) \<Longrightarrow> ok q' (set_option r \<union> I)"
    and claim_kind: "ok q I \<Longrightarrow> claim t k q = (q', Some c) \<Longrightarrow> me_target_kind (ce_envelope c) = ''turn''"
    and claim_thread_kind:
      "ok q I \<Longrightarrow> claim_thread t k q = (q', Some c) \<Longrightarrow> me_target_kind (ce_envelope c) = ''thread''"
    and ack_ok: "ok q I \<Longrightarrow> c \<in> I \<Longrightarrow> ack c q = (q', err) \<Longrightarrow> ok q' I \<and> err = None"
    and ack_removes: "ok q I \<Longrightarrow> c \<in> I \<Longrightarrow> me_target_kind (ce_envelope c) \<in> {''turn'', ''thread''} \<Longrightarrow>
      ack c q = (q', err) \<Longrightarrow> ce_stream_id c \<notin> pending q'"
begin

definition handed_out :: "'q \<Rightarrow> ClaimedEnvelope set \<Rightarrow> queue_error + mailbox_item list \<Rightarrow> bool" where
  "handed_out q I r \<longleftrightarrow> (\<forall>its. r = Inr its \<longrightarrow> length its \<le> 1 \<and> ok q (mi_ack ` set its \<union> I) \<and>
     (\<forall>it \<in> set its. me_target_kind (ce_envelope (mi_ack it)) \<in> {''turn'', ''thread''} \<and>
        mailbox_item_of (mi_ack it) = Inr it))"

lemma item_of_ack: "mailbox_item_of c = Inr it \<Longrightarrow> mi_ack it = c"
  by (auto simp: mailbox_item_of_def Let_def bind_result_Inr)

lemma item_of_content: "mailbox_item_of c = Inr it \<Longrightarrow> mi_content it = envelope_content (ce_envelope c)"
  by (auto simp: mailbox_item_of_def Let_def bind_result_Inr)

lemma handed_out_claim:
  assumes "ok q (insert c I)" "me_target_kind (ce_envelope c) \<in> {''turn'', ''thread''}"
  shows "handed_out q I (bind_result (mailbox_item_of c) (\<lambda>item. Inr [item]))"
  using assms item_of_ack by (auto simp: handed_out_def bind_result_Inr)

lemma turn_take_handed_out:
  assumes "ok q I" "turn_take claim mb q = (q', r)"
  shows "handed_out q' I r"
proof (cases "mb_closed mb")
  case True
  with assms show ?thesis by (auto simp: turn_take_def handed_out_def)
next
  case False
  obtain q1 c where cl: "claim (mb_turn_id mb) (mb_consumer mb) q = (q1, c)" by fastforce
  note k = claim_ok [OF assms(1) cl] claim_kind [OF assms(1), of "mb_turn_id mb" "mb_consumer mb" q1]
  show ?thesis
  proof (cases c)
    case None
    with False cl assms k show ?thesis by (auto simp: turn_take_def handed_out_def)
  next
    case (Some d)
    with False cl assms(2) have "q' = q1" "r = bind_result (mailbox_item_of d) (\<lambda>item. Inr [item])"
      by (simp_all add: turn_take_def)
    with k Some cl show ?thesis using handed_out_claim by simp
  qed
qed

lemma agent_take_handed_out:
  assumes "ok q I" "agent_take claim claim_thread mb q = (q', r)"
  shows "handed_out q' I r"
proof -
  obtain q1 r1 where t: "turn_take claim (TurnMailbox.truncate mb) q = (q1, r1)" by fastforce
  have h1: "handed_out q1 I r1" by (rule turn_take_handed_out [OF assms(1) t])
  show ?thesis
  proof (cases "r1 = Inr [] \<and> \<not> mb_closed mb")
    case False
    with t assms(2) have "q' = q1" "r = r1" by (auto simp: agent_take_def split: sum.splits if_splits)
    with h1 show ?thesis by simp
  next
    case True
    with h1 have ok1: "ok q1 I" by (auto simp: handed_out_def)
    obtain q2 c where cl: "claim_thread (mb_thread_id mb) (mb_consumer mb) q1 = (q2, c)" by fastforce
    note k = claim_thread_ok [OF ok1 cl] claim_thread_kind [OF ok1, of "mb_thread_id mb" "mb_consumer mb" q2]
    show ?thesis
    proof (cases c)
      case None
      with True t cl assms(2) k show ?thesis by (auto simp: agent_take_def handed_out_def)
    next
      case (Some d)
      with True t cl assms(2) have "q' = q2" "r = bind_result (mailbox_item_of d) (\<lambda>item. Inr [item])"
        by (simp_all add: agent_take_def)
      with k Some cl show ?thesis using handed_out_claim by simp
    qed
  qed
qed

lemma handed_out_ack:
  assumes "handed_out q I (Inr its)" "it \<in> set its" "ack (mi_ack it) q = (q', err)"
  shows "err = None \<and> ce_stream_id (mi_ack it) \<notin> pending q'"
proof -
  from assms(1,2) have "ok q (mi_ack ` set its \<union> I)" "mi_ack it \<in> mi_ack ` set its \<union> I"
    "me_target_kind (ce_envelope (mi_ack it)) \<in> {''turn'', ''thread''}"
    by (auto simp: handed_out_def)
  with ack_ok ack_removes assms(3) show ?thesis by blast
qed

end

section \<open>The in-memory queue is a delivery port\<close>

definition mailbox_pending :: "memory_queue \<Rightarrow> string set" where
  "mailbox_pending q = (\<Union>t. fst ` set (entries q (Turn_stream t)) \<union> fst ` set (entries q (Thread_stream t)))"

lemma claim_at_kind:
  assumes "mq_inv h q I" "claim_first P k (stream_at q loc) = Some (c, ens)"
  shows "\<exists>fp. at_location h loc (ce_envelope c) fp"
proof -
  have "(ce_stream_id c, env0 (ce_envelope c)) \<in> set (entries q loc)"
    using claim_first_view [OF assms(2)] by (simp add: entries_def)
  with assms(1) have "entry_ok h (receipts q) loc (ce_stream_id c, env0 (ce_envelope c))"
    by (auto simp: mq_inv_def entries_inv_def)
  then obtain fp where "at_location h loc (env0 (ce_envelope c)) fp" by (auto simp: entry_ok_def)
  then show ?thesis by (cases loc) auto
qed

lemma mq_ack_removes:
  assumes inv: "mq_inv h q I" and c: "c \<in> I" and kind: "me_target_kind (ce_envelope c) \<in> {''turn'', ''thread''}"
    and res: "mq_ack c q = (q', err)"
  shows "ce_stream_id c \<notin> mailbox_pending q'"
proof
  let ?e = "ce_envelope c"
  assume "ce_stream_id c \<in> mailbox_pending q'"
  then obtain loc en where en: "en \<in> set (entries q' loc)" "fst en = ce_stream_id c"
    and loc: "loc \<in> range Turn_stream \<union> range Thread_stream" by (fastforce simp: mailbox_pending_def)
  have E: "entries q' = (entries q)(loc_of ?e := filter (\<lambda>en. fst en \<noteq> ce_stream_id c) (entries q (loc_of ?e)))"
  proof -
    have "entries q' = entries (ack_remove c q)"
      using res by (auto simp: mq_ack_def set_receipt_def split: option.splits prod.splits)
    also have "\<dots> = (\<lambda>l. map entry_view (stream_at (ack_remove c q) l))"
      by (auto simp: entries_def)
    finally show ?thesis
      unfolding ack_remove_view(1) by (auto simp: entries_def fun_eq_iff view_remove)
  qed
  then have "loc \<noteq> loc_of ?e" and old: "en \<in> set (entries q loc)"
    using en by (auto simp del: loc_of.simps split: if_splits)
  moreover have "loc = loc_of ?e"
  proof -
    have "snd en = env0 ?e" using inv c old en(2) by (simp add: mq_inv_def issued_inv_def)
    moreover have "entry_ok h (receipts q) loc en" using inv old by (auto simp: mq_inv_def entries_inv_def)
    ultimately obtain fp where "at_location h loc ?e fp" by (cases loc) (auto simp: entry_ok_def)
    with loc kind show ?thesis by (cases loc) auto
  qed
  ultimately show False by simp
qed

interpretation memory_port: delivery_port mq_claim mq_claim_thread mq_ack mailbox_pending "mq_inv h" for h
proof
  fix q I t k q' r c err
  show "mq_inv h q I \<Longrightarrow> mq_claim t k q = (q', r) \<Longrightarrow> mq_inv h q' (set_option r \<union> I)"
    by (rule mq_claim_inv)
  show "mq_inv h q I \<Longrightarrow> mq_claim_thread t k q = (q', r) \<Longrightarrow> mq_inv h q' (set_option r \<union> I)"
    by (rule mq_claim_thread_inv)
  show "mq_inv h q I \<Longrightarrow> c \<in> I \<Longrightarrow> mq_ack c q = (q', err) \<Longrightarrow> mq_inv h q' I \<and> err = None"
    by (rule mq_ack_inv)
  show "mq_inv h q I \<Longrightarrow> c \<in> I \<Longrightarrow> me_target_kind (ce_envelope c) \<in> {''turn'', ''thread''} \<Longrightarrow>
      mq_ack c q = (q', err) \<Longrightarrow> ce_stream_id c \<notin> mailbox_pending q'"
    by (rule mq_ack_removes)
  show "mq_inv h q I \<Longrightarrow> mq_claim t k q = (q', Some c) \<Longrightarrow> me_target_kind (ce_envelope c) = ''turn''"
    using claim_at_kind [of h q I unowned k "Turn_stream t" c]
    by (auto simp: mq_claim_def split: option.splits)
  show "mq_inv h q I \<Longrightarrow> mq_claim_thread t k q = (q', Some c) \<Longrightarrow> me_target_kind (ce_envelope c) = ''thread''"
    using claim_at_kind [of h q I unowned k "Thread_stream t" c]
    by (auto simp: mq_claim_thread_def split: option.splits)
qed

text \<open>The mailbox round trip over the in-memory queue: what an agent's mailbox takes is at most one
  item, which shows the content of the claimed envelope; running the item's acknowledgement later
  succeeds and the delivery is then outstanding in no turn or thread stream.
\<close>

theorem agent_mailbox_take_then_ack:
  assumes "mq_reachable h q I" "inj (mh_digest h)"
    and "agent_take mq_claim mq_claim_thread mb q = (q1, Inr its)" "it \<in> set its"
    and "mq_ack (mi_ack it) q1 = (q2, err)"
  shows "its = [it] \<and> mi_content it = envelope_content (ce_envelope (mi_ack it)) \<and> err = None \<and>
    ce_stream_id (mi_ack it) \<notin> mailbox_pending q2"
proof -
  have "memory_port.handed_out h q1 I (Inr its)"
    by (rule memory_port.agent_take_handed_out [OF mq_reachable_inv [OF assms(1,2)] assms(3)])
  note h = this
  have "its = [it]" using h assms(4) by (cases its) (auto simp: memory_port.handed_out_def)
  moreover have "mailbox_item_of (mi_ack it) = Inr it" using h assms(4) by (auto simp: memory_port.handed_out_def)
  then have "mi_content it = envelope_content (ce_envelope (mi_ack it))"
    by (rule memory_port.item_of_content)
  ultimately show ?thesis using memory_port.handed_out_ack [OF h assms(4,5)] by blast
qed

definition sample_mailbox :: AgentMailbox where
  "sample_mailbox = \<lparr>mb_turn_id = ''u'', mb_consumer = ''w'', mb_closed = False, mb_thread_id = ''t''\<rparr>"

theorem agent_mailbox_take_then_ack_witness:
  "\<exists>q1 it. agent_take mq_claim mq_claim_thread sample_mailbox dispatched = (q1, Inr [it]) \<and>
     mi_content it = ''draft'' \<and> ce_stream_id (mi_ack it) \<notin> mailbox_pending (fst (mq_ack (mi_ack it) q1))"
proof -
  have "(case snd (agent_take mq_claim mq_claim_thread sample_mailbox dispatched) of
      Inr [it] \<Rightarrow> mi_content it = ''draft'' | _ \<Rightarrow> False)" by code_simp
  then obtain q1 it where t: "agent_take mq_claim mq_claim_thread sample_mailbox dispatched = (q1, Inr [it])"
    "mi_content it = ''draft''"
    by (cases "agent_take mq_claim mq_claim_thread sample_mailbox dispatched")
      (auto split: sum.splits list.splits)
  from agent_mailbox_take_then_ack [OF dispatched_reachable sample_inj t(1), of it] t show ?thesis
    by (metis list.set_intros(1) prod.collapse)
qed

end
