(* ===== verification/Todo.thy ===== *)
theory Todo
  imports PyValue
begin

text \<open>
  \<open>domain/todo.py\<close>: the todo list of a turn and the batch of operations that changes it.

  An operation is the JSON value the tool call carried. A rejected batch is
  \<open>TodoStateError\<close> with the code of the source; messages are not modelled. The ids of added
  items are an argument, as in the source.
\<close>

definition TODO_STATUSES :: "string list" where
  "TODO_STATUSES = [''pending'', ''in_progress'', ''completed'']"

definition MAX_TODOS :: nat where
  "MAX_TODOS = 100"

record TodoItem =
  todo_id :: string
  todo_content :: string
  todo_status :: string

record TodoSnapshot =
  ts_revision :: int
  ts_todos :: "TodoItem list"

definition empty_snapshot :: TodoSnapshot where
  "empty_snapshot = \<lparr>ts_revision = 0, ts_todos = []\<rparr>"

record TodoUpdateResult =
  tur_turn_id :: string
  tur_snapshot :: TodoSnapshot
  tur_applied :: "(string, string) dict list"

datatype todo_error = TodoStateError string "TodoSnapshot option" | AttributeErr | TodoKeyErr | TodoTypeErr
  | Unavailable

section \<open>Dictionaries\<close>

definition item_to_dict :: "TodoItem \<Rightarrow> (string, string) dict" where
  "item_to_dict t = [(''id'', todo_id t), (''content'', todo_content t), (''status'', todo_status t)]"

definition str_dict :: "(string, string) dict \<Rightarrow> pyval" where
  "str_dict d = PDict (map (\<lambda>(k, v). (k, PStr v)) d)"

text \<open>\<open>TodoItem.from_dict\<close>: a missing field raises \<open>TodoKeyError\<close>. The status is kept as it is,
  so a status that is not a string has no place in the record; the codec below never stores one.\<close>

definition item_from_dict :: "pydict \<Rightarrow> todo_error + TodoItem" where
  "item_from_dict d = (case (map_of d ''id'', map_of d ''content'', map_of d ''status'') of
      (Some i, Some c, Some s) \<Rightarrow>
        Inr \<lparr>todo_id = py_str i, todo_content = py_str c, todo_status = py_str s\<rparr>
    | _ \<Rightarrow> Inl TodoKeyErr)"

definition unfinished :: "TodoSnapshot \<Rightarrow> TodoItem list" where
  "unfinished snapshot = filter (\<lambda>t. todo_status t \<noteq> ''completed'') (ts_todos snapshot)"

definition snapshot_counts :: "TodoSnapshot \<Rightarrow> pyval" where
  "snapshot_counts snapshot = PDict (map (\<lambda>s. (s, PInt (int (length (filter (\<lambda>t. todo_status t = s)
     (ts_todos snapshot)))))) TODO_STATUSES)"

definition snapshot_to_dict :: "TodoSnapshot \<Rightarrow> pydict" where
  "snapshot_to_dict snapshot =
     [(''revision'', PInt (ts_revision snapshot)),
      (''todos'', PList (map (str_dict \<circ> item_to_dict) (ts_todos snapshot))),
      (''counts'', snapshot_counts snapshot)]"

definition iter_default :: "pydict \<Rightarrow> string \<Rightarrow> todo_error + pyval list" where
  "iter_default d k = (case map_of d k of None \<Rightarrow> Inr []
     | Some v \<Rightarrow> (case py_iter v of None \<Rightarrow> Inl TodoTypeErr | Some vs \<Rightarrow> Inr vs))"

definition snapshot_from_dict :: "pydict \<Rightarrow> todo_error + TodoSnapshot" where
  "snapshot_from_dict d =
     bind_result (case py_int (case map_of d ''revision'' of None \<Rightarrow> PInt 0 | Some v \<Rightarrow> v) of
       None \<Rightarrow> Inl TodoTypeErr | Some r \<Rightarrow> Inr r) (\<lambda>r.
     bind_result (iter_default d ''todos'') (\<lambda>raw.
     bind_result (map_result item_from_dict (dict_items raw)) (\<lambda>ts.
       Inr \<lparr>ts_revision = r, ts_todos = ts\<rparr>)))"

definition result_to_dict :: "TodoUpdateResult \<Rightarrow> pydict" where
  "result_to_dict r =
     [(''turn_id'', PStr (tur_turn_id r)), (''revision'', PInt (ts_revision (tur_snapshot r))),
      (''applied_operations'', PList (map str_dict (tur_applied r))),
      (''counts'', snapshot_counts (tur_snapshot r)),
      (''todos'', PList (map (str_dict \<circ> item_to_dict) (ts_todos (tur_snapshot r))))]"

definition result_from_dict :: "pydict \<Rightarrow> todo_error + TodoUpdateResult" where
  "result_from_dict d =
     bind_result (snapshot_from_dict d) (\<lambda>snapshot.
     bind_result (iter_default d ''applied_operations'') (\<lambda>operations.
     bind_result (case map_of d ''turn_id'' of None \<Rightarrow> Inl TodoKeyErr | Some v \<Rightarrow> Inr (py_str v)) (\<lambda>turn.
       Inr \<lparr>tur_turn_id = turn, tur_snapshot = snapshot,
            tur_applied = map (map (\<lambda>(k, v). (k, py_str v))) (dict_items operations)\<rparr>)))"

section \<open>Applying a batch\<close>

definition reject :: "string \<Rightarrow> todo_error + 'a" where
  "reject code = Inl (TodoStateError code None)"

definition is_hex :: "char \<Rightarrow> bool" where
  "is_hex c = (let n = (of_char c :: nat) in (48 \<le> n \<and> n \<le> 57) \<or> (97 \<le> n \<and> n \<le> 102))"

text \<open>The pattern \<open>^todo_[0-9a-f]{32}$\<close> under \<open>fullmatch\<close>.\<close>

definition valid_todo_id :: "string \<Rightarrow> bool" where
  "valid_todo_id s \<longleftrightarrow> take 5 s = ''todo_'' \<and> length s = 37 \<and> (\<forall>c \<in> set (drop 5 s). is_hex c)"

definition validate_todo_id :: "pyval \<Rightarrow> todo_error + string" where
  "validate_todo_id v = (case v of PStr s \<Rightarrow> if valid_todo_id s then Inr s else reject ''invalid_operation''
     | _ \<Rightarrow> reject ''invalid_operation'')"

definition validate_content :: "pyval \<Rightarrow> todo_error + string" where
  "validate_content v = (case v of
      PStr s \<Rightarrow> if strip s = [] then reject ''invalid_content''
                 else if length s > 500 then reject ''invalid_content'' else Inr s
    | _ \<Rightarrow> reject ''invalid_content'')"

definition validate_status :: "pyval \<Rightarrow> todo_error + string" where
  "validate_status v = (case v of PStr s \<Rightarrow> if s \<in> set TODO_STATUSES then Inr s else reject ''invalid_status''
     | _ \<Rightarrow> reject ''invalid_status'')"

definition validate_fields :: "pydict \<Rightarrow> string set \<Rightarrow> string set \<Rightarrow> todo_error + unit" where
  "validate_fields operation required optional =
     (if required \<subseteq> keys operation \<and> keys operation \<subseteq> required \<union> optional then Inr ()
      else reject ''invalid_operation'')"

text \<open>The local variables of the loop.\<close>

record batch =
  b_todos :: "TodoItem list"
  b_by_id :: "(string, nat) dict"
  b_targeted :: "string set"
  b_generated :: "string list"
  b_applied :: "(string, string) dict list"

definition index_todos :: "TodoItem list \<Rightarrow> (string, nat) dict" where
  "index_todos todos = foldl (\<lambda>d (i, t). AList.update (todo_id t) i d) [] (enumerate 0 todos)"

definition remove_nth :: "nat \<Rightarrow> 'a list \<Rightarrow> 'a list" where
  "remove_nth i xs = take i xs @ drop (Suc i) xs"

definition apply_add :: "pydict \<Rightarrow> batch \<Rightarrow> todo_error + batch" where
  "apply_add operation b =
     bind_result (validate_fields operation {''op'', ''content'', ''status''} {}) (\<lambda>_.
     bind_result (validate_content (py_get operation ''content'')) (\<lambda>content.
     bind_result (validate_status (py_get operation ''status'')) (\<lambda>status.
     case b_generated b of [] \<Rightarrow> reject ''invalid_operation''
     | new_id # rest \<Rightarrow>
         bind_result (validate_todo_id (PStr new_id)) (\<lambda>_.
         if map_of (b_by_id b) new_id \<noteq> None then reject ''duplicate_id''
         else (let todo = \<lparr>todo_id = new_id, todo_content = content, todo_status = status\<rparr> in
           Inr (b\<lparr>b_by_id := AList.update new_id (length (b_todos b)) (b_by_id b),
                  b_todos := b_todos b @ [todo], b_generated := rest,
                  b_applied := b_applied b @ [AList.update ''op'' ''add'' (item_to_dict todo)]\<rparr>))))))"

definition apply_remove :: "pydict \<Rightarrow> string \<Rightarrow> nat \<Rightarrow> batch \<Rightarrow> todo_error + batch" where
  "apply_remove operation tid i b =
     bind_result (validate_fields operation {''op'', ''id''} {}) (\<lambda>_.
       let todos = remove_nth i (b_todos b) in
       Inr (b\<lparr>b_todos := todos, b_by_id := index_todos todos,
              b_applied := b_applied b @ [[(''op'', ''remove''), (''id'', tid)]]\<rparr>))"

definition apply_update :: "pydict \<Rightarrow> string \<Rightarrow> nat \<Rightarrow> batch \<Rightarrow> todo_error + batch" where
  "apply_update operation tid i b =
     bind_result (validate_fields operation {''op'', ''id''} {''content'', ''status''}) (\<lambda>_.
       let current = b_todos b ! i;
           has_content = (''content'' \<in> keys operation); has_status = (''status'' \<in> keys operation) in
       if \<not> has_content \<and> \<not> has_status then reject ''invalid_operation''
       else
         bind_result (validate_content (if has_content then py_get operation ''content''
             else PStr (todo_content current))) (\<lambda>content.
         bind_result (validate_status (if has_status then py_get operation ''status''
             else PStr (todo_status current))) (\<lambda>status.
         if content = todo_content current \<and> status = todo_status current then reject ''no_change''
         else Inr (b\<lparr>b_todos := (b_todos b)[i := \<lparr>todo_id = tid, todo_content = content, todo_status = status\<rparr>],
            b_applied := b_applied b @ [[(''op'', ''update''), (''id'', tid)]
              @ (if has_content then [(''content'', content)] else [])
              @ (if has_status then [(''status'', status)] else [])]\<rparr>))))"

definition apply_operation :: "pyval \<Rightarrow> batch \<Rightarrow> todo_error + batch" where
  "apply_operation op_value b = (case op_value of
      PDict operation \<Rightarrow>
        (if py_get operation ''op'' = PStr ''add'' then apply_add operation b
         else
           bind_result (validate_todo_id (py_get operation ''id'')) (\<lambda>tid.
           if tid \<in> b_targeted b then reject ''duplicate_target''
           else (let b1 = b\<lparr>b_targeted := insert tid (b_targeted b)\<rparr> in
             case map_of (b_by_id b) tid of
               None \<Rightarrow> reject ''todo_not_found''
             | Some i \<Rightarrow>
                 if py_get operation ''op'' = PStr ''remove'' then apply_remove operation tid i b1
                 else if py_get operation ''op'' \<noteq> PStr ''update'' then reject ''invalid_operation''
                 else apply_update operation tid i b1)))
    | _ \<Rightarrow> reject ''invalid_operation'')"

fun apply_all :: "pyval list \<Rightarrow> batch \<Rightarrow> todo_error + batch" where
  "apply_all [] b = Inr b"
| "apply_all (op # ops) b = bind_result (apply_operation op b) (apply_all ops)"

definition apply_todo_operations ::
  "TodoSnapshot \<Rightarrow> pyval list \<Rightarrow> string list \<Rightarrow> todo_error + TodoSnapshot \<times> (string, string) dict list" where
  "apply_todo_operations snapshot operations generated_ids =
     (if \<not> (1 \<le> length operations \<and> length operations \<le> MAX_TODOS) then reject ''invalid_operations''
      else bind_result (apply_all operations \<lparr>b_todos = ts_todos snapshot, b_by_id = index_todos (ts_todos snapshot),
             b_targeted = {}, b_generated = generated_ids, b_applied = []\<rparr>) (\<lambda>b.
        if length (b_todos b) > MAX_TODOS then reject ''todo_limit''
        else Inr (\<lparr>ts_revision = ts_revision snapshot + 1, ts_todos = b_todos b\<rparr>, b_applied b)))"

section \<open>The list stays well formed\<close>

definition valid_item :: "TodoItem \<Rightarrow> bool" where
  "valid_item t \<longleftrightarrow> valid_todo_id (todo_id t) \<and> strip (todo_content t) \<noteq> [] \<and>
     length (todo_content t) \<le> 500 \<and> todo_status t \<in> set TODO_STATUSES"

definition wf_todos :: "TodoItem list \<Rightarrow> bool" where
  "wf_todos ts \<longleftrightarrow> distinct (map todo_id ts) \<and> (\<forall>t \<in> set ts. valid_item t)"

definition wf_snapshot :: "TodoSnapshot \<Rightarrow> bool" where
  "wf_snapshot s \<longleftrightarrow> wf_todos (ts_todos s) \<and> length (ts_todos s) \<le> MAX_TODOS \<and> 0 \<le> ts_revision s"

text \<open>The reference meaning of a batch: the applied operations, one after the other, each found by
  the id of its item.\<close>

definition replay :: "TodoItem list \<Rightarrow> (string, string) dict \<Rightarrow> TodoItem list" where
  "replay ts op = (let tid = the (map_of op ''id'') in
     if map_of op ''op'' = Some ''add'' then
       ts @ [\<lparr>todo_id = tid, todo_content = the (map_of op ''content''), todo_status = the (map_of op ''status'')\<rparr>]
     else if map_of op ''op'' = Some ''remove'' then filter (\<lambda>t. todo_id t \<noteq> tid) ts
     else map (\<lambda>t. if todo_id t \<noteq> tid then t else
       \<lparr>todo_id = tid,
        todo_content = (case map_of op ''content'' of None \<Rightarrow> todo_content t | Some c \<Rightarrow> c),
        todo_status = (case map_of op ''status'' of None \<Rightarrow> todo_status t | Some st \<Rightarrow> st)\<rparr>) ts)"

definition index_ok :: "TodoItem list \<Rightarrow> (string, nat) dict \<Rightarrow> bool" where
  "index_ok ts d \<longleftrightarrow> (\<forall>tid i. map_of d tid = Some i \<longleftrightarrow> i < length ts \<and> todo_id (ts ! i) = tid)"

lemma index_ok_append:
  assumes "index_ok ts d" "todo_id t \<notin> todo_id ` set ts"
  shows "index_ok (ts @ [t]) (AList.update (todo_id t) (length ts) d)"
proof -
  have "i < length ts \<Longrightarrow> todo_id (ts ! i) \<noteq> todo_id t" for i
    using assms(2) by (metis image_eqI nth_mem)
  with assms(1) show ?thesis
    by (auto simp: index_ok_def nth_append less_Suc_eq split: if_splits)
qed

lemma index_todos_ok: "distinct (map todo_id ts) \<Longrightarrow> index_ok ts (index_todos ts)"
proof (induction ts rule: rev_induct)
  case Nil
  show ?case by (simp add: index_ok_def index_todos_def)
next
  case (snoc t ts)
  have "index_todos (ts @ [t]) = AList.update (todo_id t) (length ts) (index_todos ts)"
    by (simp add: index_todos_def enumerate_append_eq)
  with snoc index_ok_append [of ts "index_todos ts" t] show ?case by simp
qed

definition batch_ok :: "TodoItem list \<Rightarrow> batch \<Rightarrow> bool" where
  "batch_ok ts0 b \<longleftrightarrow> wf_todos (b_todos b) \<and> index_ok (b_todos b) (b_by_id b) \<and>
     foldl replay ts0 (b_applied b) = b_todos b"

lemma validate_simps:
  "validate_todo_id v = Inr s \<longleftrightarrow> v = PStr s \<and> valid_todo_id s"
  "validate_content v = Inr s \<longleftrightarrow> v = PStr s \<and> strip s \<noteq> [] \<and> length s \<le> 500"
  "validate_status v = Inr s \<longleftrightarrow> v = PStr s \<and> s \<in> set TODO_STATUSES"
  by (cases v; auto simp: validate_todo_id_def validate_content_def validate_status_def reject_def)+

lemma reject_not_Inr [simp]: "reject c \<noteq> Inr x" "Inr x \<noteq> reject c"
  by (simp_all add: reject_def)

lemma apply_add_ok:
  assumes "batch_ok ts0 b" "apply_add operation b = Inr b'"
  shows "batch_ok ts0 b'"
proof -
  obtain new_id rest where g: "b_generated b = new_id # rest"
    using assms(2) by (cases "b_generated b") (auto simp: apply_add_def bind_result_Inr)
  obtain content status where v: "strip content \<noteq> []" "length content \<le> 500"
      "status \<in> set TODO_STATUSES" "valid_todo_id new_id" "map_of (b_by_id b) new_id = None"
    and b': "b' = b\<lparr>b_by_id := AList.update new_id (length (b_todos b)) (b_by_id b),
       b_todos := b_todos b @ [\<lparr>todo_id = new_id, todo_content = content, todo_status = status\<rparr>], b_generated := rest,
       b_applied := b_applied b @ [AList.update ''op'' ''add''
          (item_to_dict \<lparr>todo_id = new_id, todo_content = content, todo_status = status\<rparr>)]\<rparr>"
    using assms(2)
    by (auto simp: apply_add_def bind_result_Inr validate_simps Let_def g simp del: not_None_eq
        split: if_splits)
  have new: "new_id \<notin> todo_id ` set (b_todos b)"
  proof
    assume "new_id \<in> todo_id ` set (b_todos b)"
    then obtain i where "i < length (b_todos b)" "todo_id (b_todos b ! i) = new_id"
      by (auto simp: in_set_conv_nth)
    then have "map_of (b_by_id b) new_id = Some i" using assms(1) by (simp add: batch_ok_def index_ok_def)
    with v(5) show False by simp
  qed
  with assms(1) v index_ok_append [of "b_todos b" "b_by_id b"
      "\<lparr>todo_id = new_id, todo_content = content, todo_status = status\<rparr>"]
  show ?thesis
    by (simp add: b' batch_ok_def wf_todos_def valid_item_def replay_def item_to_dict_def)
qed

lemma remove_nth_filter:
  assumes "distinct (map todo_id ts)" "i < length ts" "todo_id (ts ! i) = tid"
  shows "remove_nth i ts = filter (\<lambda>t. todo_id t \<noteq> tid) ts"
proof -
  have ts: "ts = take i ts @ ts ! i # drop (Suc i) ts" using assms(2) by (rule id_take_nth_drop)
  have "distinct (map todo_id (take i ts) @ tid # map todo_id (drop (Suc i) ts))"
    using assms(1,3) by (subst (asm) ts) simp
  then have "\<forall>t \<in> set (take i ts) \<union> set (drop (Suc i) ts). todo_id t \<noteq> tid" by auto
  then have "filter (\<lambda>t. todo_id t \<noteq> tid) (take i ts @ ts ! i # drop (Suc i) ts) = take i ts @ drop (Suc i) ts"
    using assms(3) by (simp add: filter_id_conv)
  with ts show ?thesis by (simp add: remove_nth_def)
qed

lemma update_nth_map:
  assumes "distinct (map todo_id ts)" "i < length ts" "todo_id (ts ! i) = tid"
  shows "ts[i := f (ts ! i)] = map (\<lambda>t. if todo_id t \<noteq> tid then t else f t) ts"
proof (rule nth_equalityI)
  fix j assume j: "j < length (ts[i := f (ts ! i)])"
  have "todo_id (ts ! j) = tid \<longleftrightarrow> j = i"
    using assms j nth_eq_iff_index_eq [OF assms(1), of j i] by auto
  with assms j show "ts[i := f (ts ! i)] ! j = map (\<lambda>t. if todo_id t \<noteq> tid then t else f t) ts ! j"
    by (simp add: nth_list_update)
qed simp

lemma apply_remove_ok:
  assumes "batch_ok ts0 b" "map_of (b_by_id b) tid = Some i" "apply_remove operation tid i b = Inr b'"
  shows "batch_ok ts0 b'"
proof -
  have i: "i < length (b_todos b)" "todo_id (b_todos b ! i) = tid" and d: "distinct (map todo_id (b_todos b))"
    using assms(1,2) by (simp_all add: batch_ok_def index_ok_def wf_todos_def)
  note f = remove_nth_filter [OF d i]
  have wf: "wf_todos (filter (\<lambda>t. todo_id t \<noteq> tid) (b_todos b))"
    using assms(1) by (auto simp: batch_ok_def wf_todos_def distinct_map_filter)
  show ?thesis
    using assms(1,3) wf index_todos_ok [of "filter (\<lambda>t. todo_id t \<noteq> tid) (b_todos b)"]
    by (auto simp: apply_remove_def bind_result_Inr Let_def f batch_ok_def replay_def wf_todos_def)
qed

lemma apply_update_ok:
  assumes "batch_ok ts0 b" "map_of (b_by_id b) tid = Some i" "apply_update operation tid i b = Inr b'"
  shows "batch_ok ts0 b'"
proof -
  let ?ts = "b_todos b"
  have i: "i < length ?ts" "todo_id (?ts ! i) = tid" and wf: "wf_todos ?ts"
    using assms(1,2) by (simp_all add: batch_ok_def index_ok_def)
  then have d: "distinct (map todo_id ?ts)" and cur: "valid_item (?ts ! i)" by (simp_all add: wf_todos_def)
  define hc hs where "hc \<longleftrightarrow> ''content'' \<in> keys operation" and "hs \<longleftrightarrow> ''status'' \<in> keys operation"
  obtain content status where v: "strip content \<noteq> []" "length content \<le> 500" "status \<in> set TODO_STATUSES"
      "\<not> hc \<longrightarrow> content = todo_content (?ts ! i)" "\<not> hs \<longrightarrow> status = todo_status (?ts ! i)"
    and b': "b' = b\<lparr>b_todos := ?ts[i := \<lparr>todo_id = tid, todo_content = content, todo_status = status\<rparr>],
       b_applied := b_applied b @ [[(''op'', ''update''), (''id'', tid)]
         @ (if hc then [(''content'', content)] else []) @ (if hs then [(''status'', status)] else [])]\<rparr>"
    using assms(3) unfolding apply_update_def Let_def hc_def [symmetric] hs_def [symmetric]
    by (auto simp: bind_result_Inr validate_simps split: if_splits)
  let ?new = "\<lparr>todo_id = tid, todo_content = content, todo_status = status\<rparr>"
  have ids: "map todo_id (?ts[i := ?new]) = map todo_id ?ts"
    using i by (metis (no_types, lifting) TodoItem.select_convs(1) list_update_id map_update)
  have "valid_item t" if "t \<in> set (?ts[i := ?new])" for t
    using that wf v cur i set_update_subset_insert [of ?ts i ?new] by (auto simp: wf_todos_def valid_item_def)
  with ids d have wf': "wf_todos (?ts[i := ?new])" by (simp add: wf_todos_def)
  have idx: "index_ok (?ts[i := ?new]) (b_by_id b)"
  proof -
    have "todo_id (?ts[i := ?new] ! j) = todo_id (?ts ! j)" if "j < length ?ts" for j
      using that i by (auto simp: nth_list_update)
    then show ?thesis using assms(1) by (auto simp: batch_ok_def index_ok_def)
  qed
  let ?op = "[(''op'', ''update''), (''id'', tid)]
         @ (if hc then [(''content'', content)] else []) @ (if hs then [(''status'', status)] else [])"
  have "?ts[i := ?new] = replay ?ts ?op"
    using update_nth_map [OF d i, of "\<lambda>t. \<lparr>todo_id = tid,
        todo_content = (case map_of ?op ''content'' of None \<Rightarrow> todo_content t | Some c \<Rightarrow> c),
        todo_status = (case map_of ?op ''status'' of None \<Rightarrow> todo_status t | Some st \<Rightarrow> st)\<rparr>"] v(4,5)
    by (cases hc; cases hs) (simp_all add: replay_def Let_def)
  with wf' idx assms(1) show ?thesis by (simp add: b' batch_ok_def)
qed

lemma apply_operation_ok:
  assumes "batch_ok ts0 b" "apply_operation op b = Inr b'"
  shows "batch_ok ts0 b'"
proof -
  have t: "batch_ok ts0 (b\<lparr>b_targeted := X\<rparr>)" for X using assms(1) by (simp add: batch_ok_def)
  show ?thesis
    using assms(2) apply_add_ok [OF assms(1)] apply_remove_ok [OF t] apply_update_ok [OF t]
    by (fastforce simp: apply_operation_def bind_result_Inr Let_def
        split: pyval.splits if_splits option.splits)
qed

lemma apply_all_ok: "batch_ok ts0 b \<Longrightarrow> apply_all ops b = Inr b' \<Longrightarrow> batch_ok ts0 b'"
  by (induction ops arbitrary: b) (auto simp: bind_result_Inr dest: apply_operation_ok)

lemma initial_batch_ok:
  "wf_todos ts \<Longrightarrow> batch_ok ts \<lparr>b_todos = ts, b_by_id = index_todos ts, b_targeted = {},
     b_generated = g, b_applied = []\<rparr>"
  by (simp add: batch_ok_def wf_todos_def index_todos_ok)

lemma apply_todo_operations_ok:
  assumes "wf_snapshot s" "apply_todo_operations s ops ids = Inr (s', applied)"
  shows "wf_snapshot s' \<and> ts_revision s' = ts_revision s + 1 \<and> ts_todos s' = foldl replay (ts_todos s) applied"
proof -
  from assms(2) obtain b where b: "apply_all ops \<lparr>b_todos = ts_todos s, b_by_id = index_todos (ts_todos s),
      b_targeted = {}, b_generated = ids, b_applied = []\<rparr> = Inr b"
    and s': "s' = \<lparr>ts_revision = ts_revision s + 1, ts_todos = b_todos b\<rparr>" "applied = b_applied b"
      "length (b_todos b) \<le> MAX_TODOS"
    by (auto simp: apply_todo_operations_def bind_result_Inr split: if_splits)
  have "wf_todos (ts_todos s)" using assms(1) by (simp add: wf_snapshot_def)
  from apply_all_ok [OF initial_batch_ok [OF this] b] s' assms(1) show ?thesis
    by (simp add: batch_ok_def wf_snapshot_def)
qed

text \<open>
  C7. An accepted batch is a correct batch: from a well-formed list it produces a well-formed list
  (unique valid ids, non-blank contents of at most 500 characters, known statuses, at most 100
  items) with the revision increased by one, and the new list is what the reported operations
  produce when each is carried out on the item with its id. So the positional index that the loop
  maintains across additions and removals never goes stale.
\<close>

theorem apply_todo_operations_correct:
  assumes "wf_snapshot s" "apply_todo_operations s ops ids = Inr (s', applied)"
  shows "wf_snapshot s' \<and> ts_revision s' = ts_revision s + 1 \<and> ts_todos s' = foldl replay (ts_todos s) applied"
  using assms by (rule apply_todo_operations_ok)

definition sample_id :: "char \<Rightarrow> string" where
  "sample_id c = ''todo_'' @ replicate 32 c"

definition sample_ops :: "pyval list" where
  "sample_ops =
     [PDict [(''op'', PStr ''add''), (''content'', PStr ''write''), (''status'', PStr ''pending'')],
      PDict [(''op'', PStr ''add''), (''content'', PStr ''test''), (''status'', PStr ''pending'')],
      PDict [(''op'', PStr ''remove''), (''id'', PStr (sample_id CHR ''a''))],
      PDict [(''op'', PStr ''update''), (''id'', PStr (sample_id CHR ''b'')), (''status'', PStr ''completed'')]]"

definition sample_outcome :: "TodoSnapshot \<times> (string, string) dict list" where
  "sample_outcome = projr (apply_todo_operations empty_snapshot sample_ops [sample_id CHR ''a'', sample_id CHR ''b''])"

lemma sample_apply:
  "apply_todo_operations empty_snapshot sample_ops [sample_id CHR ''a'', sample_id CHR ''b'']
     = Inr (fst sample_outcome, snd sample_outcome)"
proof -
  have "\<not> isl (apply_todo_operations empty_snapshot sample_ops [sample_id CHR ''a'', sample_id CHR ''b''])"
    by code_simp
  then show ?thesis by (simp add: sample_outcome_def)
qed

theorem apply_todo_operations_correct_witness:
  "wf_snapshot (fst sample_outcome) \<and> ts_revision (fst sample_outcome) = 1 \<and>
   ts_todos (fst sample_outcome) = foldl replay [] (snd sample_outcome) \<and>
   map todo_status (ts_todos (fst sample_outcome)) = [''completed'']"
proof -
  have "wf_snapshot empty_snapshot" by (simp add: wf_snapshot_def wf_todos_def empty_snapshot_def)
  from apply_todo_operations_correct [OF this sample_apply]
  have "wf_snapshot (fst sample_outcome)" "ts_revision (fst sample_outcome) = 1"
    "ts_todos (fst sample_outcome) = foldl replay [] (snd sample_outcome)"
    by (simp_all add: empty_snapshot_def)
  moreover have "map todo_status (ts_todos (fst sample_outcome)) = [''completed'']" by code_simp
  ultimately show ?thesis by blast
qed

section \<open>Codecs\<close>

lemma str_dict_PDict: "str_dict d = PDict (map (\<lambda>(k, v). (k, PStr v)) d)"
  by (simp add: str_dict_def)

lemma item_roundtrip: "item_from_dict (map (\<lambda>(k, v). (k, PStr v)) (item_to_dict t)) = Inr t"
  by (cases t) (simp add: item_from_dict_def item_to_dict_def)

lemma dict_items_str_dict:
  "dict_items (map str_dict ds) = map (map (\<lambda>(k, v). (k, PStr v))) ds"
  by (induction ds) (auto simp: dict_items_def str_dict_def)

lemma dict_items_items:
  "dict_items (map (str_dict \<circ> item_to_dict) ts) = map (\<lambda>t. map (\<lambda>(k, v). (k, PStr v)) (item_to_dict t)) ts"
  using dict_items_str_dict [of "map item_to_dict ts"] by (simp add: comp_def)

lemma snapshot_fields:
  assumes "map_of d ''revision'' = Some (PInt (ts_revision s))"
    "map_of d ''todos'' = Some (PList (map (str_dict \<circ> item_to_dict) (ts_todos s)))"
  shows "snapshot_from_dict d = Inr s"
  using assms
  by (simp add: snapshot_from_dict_def iter_default_def dict_items_items map_result_Inr item_roundtrip)

text \<open>Stored results come back unchanged: reading the dictionary form of a snapshot or of an update
  result gives the same value, so a replayed receipt reports what the first call reported.
\<close>

theorem todo_codecs_roundtrip:
  "snapshot_from_dict (snapshot_to_dict s) = Inr s \<and> result_from_dict (result_to_dict r) = Inr r"
proof -
  have "snapshot_from_dict (snapshot_to_dict s) = Inr s"
    by (rule snapshot_fields) (simp_all add: snapshot_to_dict_def)
  moreover have "snapshot_from_dict (result_to_dict r) = Inr (tur_snapshot r)"
    by (rule snapshot_fields) (simp_all add: result_to_dict_def)
  moreover have "iter_default (result_to_dict r) ''applied_operations'' = Inr (map str_dict (tur_applied r))"
    "map_of (result_to_dict r) ''turn_id'' = Some (PStr (tur_turn_id r))"
    by (simp_all add: result_to_dict_def iter_default_def)
  moreover have "map (map (\<lambda>(k, v). (k, py_str v))) (dict_items (map str_dict ops)) = ops" for ops
    unfolding dict_items_str_dict by (simp add: comp_def case_prod_unfold)
  ultimately show ?thesis by (cases r) (simp add: result_from_dict_def)
qed

end
