(* ===== verification/TodoStore.thy ===== *)
theory TodoStore
  imports Todo
begin

text \<open>
  \<open>storage/todo_list.py\<close> and the protocol \<open>TodoListStore\<close> of \<open>domain/todo.py\<close>. The
  protocol is the locale \<open>todo_store\<close>; its clients' lemmas (a revision grows by one per accepted
  update, a turn is finalized at most once) are proved there and hold of the in-memory store by
  interpretation. The lock makes every method atomic.
\<close>

section \<open>The protocol\<close>

datatype 'id todo_command =
    Update_cmd 'id 'id 'id pyval "pyval list" "nat \<Rightarrow> string"
  | Claim_cmd 'id 'id

locale todo_store =
  fixes update :: "(nat \<Rightarrow> string) \<Rightarrow> string \<Rightarrow> string \<Rightarrow> string \<Rightarrow> pyval \<Rightarrow> pyval list \<Rightarrow> 'st
      \<Rightarrow> todo_error + 'st \<times> TodoUpdateResult"
    and snapshot :: "string \<Rightarrow> string \<Rightarrow> 'st \<Rightarrow> TodoSnapshot"
    and claim :: "string \<Rightarrow> string \<Rightarrow> 'st \<Rightarrow> 'st \<times> bool"
    and claimed :: "string \<Rightarrow> string \<Rightarrow> 'st \<Rightarrow> bool"
    and ok :: "'st \<Rightarrow> bool"
  assumes update_ok: "ok st \<Longrightarrow> update fresh s t c er ops st = Inr (st', r) \<Longrightarrow> ok st'"
    and update_replay: "update fresh s t c er ops st = Inr (st', r) \<Longrightarrow>
      update fresh' s t c er ops st' = Inr (st', r)"
    and update_effect: "ok st \<Longrightarrow> update fresh s t c er ops st = Inr (st', r) \<Longrightarrow>
      st' = st \<or> (er = PInt (ts_revision (snapshot s t st)) \<and> snapshot s t st' = tur_snapshot r \<and>
        ts_revision (snapshot s t st') = ts_revision (snapshot s t st) + 1)"
    and update_frame: "update fresh s t c er ops st = Inr (st', r) \<Longrightarrow> (s', t') \<noteq> (s, t) \<Longrightarrow>
      snapshot s' t' st' = snapshot s' t' st"
    and update_wf: "ok st \<Longrightarrow> wf_snapshot (snapshot s t st)"
    and update_claimed: "update fresh s t c er ops st = Inr (st', r) \<Longrightarrow> claimed s' t' st' = claimed s' t' st"
    and claim_effect: "claim s t st = (st', b) \<Longrightarrow> (\<forall>s' t'. snapshot s' t' st' = snapshot s' t' st) \<and>
      b = (unfinished (snapshot s t st) \<noteq> [] \<and> \<not> claimed s t st) \<and>
      (\<forall>s' t'. claimed s' t' st' = (claimed s' t' st \<or> ((s', t') = (s, t) \<and> b)))"
    and claim_ok: "ok st \<Longrightarrow> claim s t st = (st', b) \<Longrightarrow> ok st'"
begin

fun run :: "string todo_command list \<Rightarrow> 'st \<Rightarrow> 'st \<times> (string \<times> string) list" where
  "run [] st = (st, [])"
| "run (Update_cmd s t c er ops fresh # cmds) st =
     (case update fresh s t c er ops st of Inl _ \<Rightarrow> run cmds st | Inr (st1, _) \<Rightarrow> run cmds st1)"
| "run (Claim_cmd s t # cmds) st =
     (case claim s t st of (st1, b) \<Rightarrow>
        case run cmds st1 of (st2, won) \<Rightarrow> (st2, if b then (s, t) # won else won))"

lemma run_claims:
  "run cmds st = (st', won) \<Longrightarrow> distinct won \<and> (\<forall>(s, t) \<in> set won. \<not> claimed s t st \<and> claimed s t st') \<and>
     (\<forall>s t. claimed s t st \<longrightarrow> claimed s t st')"
proof (induction cmds arbitrary: st st' won)
  case (Cons cmd cmds)
  show ?case
  proof (cases cmd)
    case (Update_cmd s t c er ops fresh)
    then show ?thesis
      using Cons update_claimed by (auto split: sum.splits prod.splits) blast+
  next
    case (Claim_cmd s t)
    obtain st1 b where c: "claim s t st = (st1, b)" by fastforce
    obtain st2 won2 where r: "run cmds st1 = (st2, won2)" by fastforce
    have IH: "distinct won2 \<and> (\<forall>(s, t) \<in> set won2. \<not> claimed s t st1 \<and> claimed s t st2) \<and>
        (\<forall>s t. claimed s t st1 \<longrightarrow> claimed s t st2)" by (rule Cons.IH [OF r])
    from Cons.prems c r have eq: "st' = st2" "won = (if b then (s, t) # won2 else won2)"
      by (simp_all add: Claim_cmd)
    from claim_effect [OF c] IH show ?thesis unfolding eq by auto
  qed
qed simp

lemma run_ok: "ok st \<Longrightarrow> run cmds st = (st', won) \<Longrightarrow> ok st'"
proof (induction cmds arbitrary: st won)
  case (Cons cmd cmds)
  then show ?case
    by (cases cmd) (auto split: sum.splits prod.splits dest: update_ok claim_ok)
qed simp

lemma run_revision:
  "ok st \<Longrightarrow> run cmds st = (st', won) \<Longrightarrow> ts_revision (snapshot s t st) \<le> ts_revision (snapshot s t st')"
proof (induction cmds arbitrary: st won)
  case (Cons cmd cmds)
  show ?case
  proof (cases cmd)
    case (Update_cmd s1 t1 c er ops fresh)
    show ?thesis
    proof (cases "update fresh s1 t1 c er ops st")
      case (Inl e)
      with Cons Update_cmd show ?thesis by simp
    next
      case (Inr p)
      then obtain st1 r where u: "update fresh s1 t1 c er ops st = Inr (st1, r)" by (cases p) auto
      then have "ts_revision (snapshot s t st) \<le> ts_revision (snapshot s t st1)"
        using update_effect [OF Cons.prems(1) u] update_frame [OF u, of s t]
        by (cases "(s, t) = (s1, t1)") auto
      also have "\<dots> \<le> ts_revision (snapshot s t st')"
        using Cons u update_ok [OF Cons.prems(1) u] by (simp add: Update_cmd)
      finally show ?thesis .
    qed
  next
    case (Claim_cmd s1 t1)
    obtain st1 b where c: "claim s1 t1 st = (st1, b)" by fastforce
    obtain st2 won2 where r: "run cmds st1 = (st2, won2)" by fastforce
    with Cons.prems(2) c have "st2 = st'" by (simp add: Claim_cmd)
    with Cons.IH [OF claim_ok [OF Cons.prems(1) c]] r claim_effect [OF c] show ?thesis by auto
  qed
qed simp

end

section \<open>The in-memory store\<close>

record memory_todo =
  mt_states :: "(string \<times> string, TodoSnapshot) dict"
  mt_receipts :: "(string \<times> string \<times> string, string \<times> TodoUpdateResult) dict"
  mt_finalization :: "(string \<times> string) set"

definition new_memory_todo :: memory_todo where
  "new_memory_todo = \<lparr>mt_states = [], mt_receipts = [], mt_finalization = {}\<rparr>"

definition todo_fingerprint :: "(string \<Rightarrow> string) \<Rightarrow> pyval \<Rightarrow> pyval list \<Rightarrow> string" where
  "todo_fingerprint digest expected_revision operations =
     digest (json_text (PDict [(''expected_revision'', expected_revision), (''operations'', PList operations)]))"

definition valid_revision :: "pyval \<Rightarrow> bool" where
  "valid_revision v = (case v of PInt r \<Rightarrow> 0 \<le> r | _ \<Rightarrow> False)"

text \<open>One fresh id per add operation; \<open>operation.get\<close> raises on anything but a dictionary.\<close>

definition generate_ids :: "(nat \<Rightarrow> string) \<Rightarrow> pyval list \<Rightarrow> todo_error + string list" where
  "generate_ids fresh operations =
     (if \<exists>v \<in> set operations. (case v of PDict _ \<Rightarrow> False | _ \<Rightarrow> True) then Inl AttributeErr
      else Inr (map fresh [0..<length (filter (\<lambda>v. case v of PDict d \<Rightarrow> py_get d ''op'' = PStr ''add'' | _ \<Rightarrow> False)
        operations)]))"

definition memory_snapshot :: "string \<Rightarrow> string \<Rightarrow> memory_todo \<Rightarrow> TodoSnapshot" where
  "memory_snapshot s t st = (case map_of (mt_states st) (s, t) of None \<Rightarrow> empty_snapshot | Some x \<Rightarrow> x)"

definition memory_update :: "(string \<Rightarrow> string) \<Rightarrow> (nat \<Rightarrow> string) \<Rightarrow> string \<Rightarrow> string \<Rightarrow> string \<Rightarrow> pyval \<Rightarrow> pyval list
    \<Rightarrow> memory_todo \<Rightarrow> todo_error + memory_todo \<times> TodoUpdateResult" where
  "memory_update digest fresh s t c expected operations st =
     (if \<not> valid_revision expected then reject ''invalid_revision''
      else (let fp = todo_fingerprint digest expected operations in
        case map_of (mt_receipts st) (s, t, c) of
          Some (fp', result) \<Rightarrow> if fp' \<noteq> fp then reject ''call_id_conflict'' else Inr (st, result)
        | None \<Rightarrow>
            (let current = memory_snapshot s t st in
             if PInt (ts_revision current) \<noteq> expected
             then Inl (TodoStateError ''revision_conflict'' (Some current))
             else bind_result (generate_ids fresh operations) (\<lambda>generated.
               bind_result (apply_todo_operations current operations generated) (\<lambda>(updated, applied).
                 let result = \<lparr>tur_turn_id = t, tur_snapshot = updated, tur_applied = applied\<rparr> in
                 Inr (st\<lparr>mt_states := AList.update (s, t) updated (mt_states st),
                         mt_receipts := AList.update (s, t, c) (fp, result) (mt_receipts st)\<rparr>, result))))))"

definition memory_receipt :: "string \<Rightarrow> string \<Rightarrow> string \<Rightarrow> memory_todo \<Rightarrow> TodoUpdateResult option" where
  "memory_receipt s t c st = map_option snd (map_of (mt_receipts st) (s, t, c))"

definition memory_finalization_claimed :: "string \<Rightarrow> string \<Rightarrow> memory_todo \<Rightarrow> bool" where
  "memory_finalization_claimed s t st \<longleftrightarrow> (s, t) \<in> mt_finalization st"

definition memory_claim_finalization :: "string \<Rightarrow> string \<Rightarrow> memory_todo \<Rightarrow> memory_todo \<times> bool" where
  "memory_claim_finalization s t st =
     (if unfinished (memory_snapshot s t st) = [] \<or> (s, t) \<in> mt_finalization st then (st, False)
      else (st\<lparr>mt_finalization := insert (s, t) (mt_finalization st)\<rparr>, True))"

definition memory_ok :: "memory_todo \<Rightarrow> bool" where
  "memory_ok st \<longleftrightarrow> (\<forall>s t. wf_snapshot (memory_snapshot s t st))"

lemma wf_empty_snapshot: "wf_snapshot empty_snapshot"
  by (simp add: wf_snapshot_def wf_todos_def empty_snapshot_def)

lemma memory_updateE:
  assumes "memory_update digest fresh s t c expected operations st = Inr (st', r)"
  obtains (replayed) "st' = st" "valid_revision expected"
      "map_of (mt_receipts st) (s, t, c) = Some (todo_fingerprint digest expected operations, r)"
  | (applied) updated log ids where
      "expected = PInt (ts_revision (memory_snapshot s t st))" "valid_revision expected"
      "apply_todo_operations (memory_snapshot s t st) operations ids = Inr (updated, log)"
      "r = \<lparr>tur_turn_id = t, tur_snapshot = updated, tur_applied = log\<rparr>"
      "st' = st\<lparr>mt_states := AList.update (s, t) updated (mt_states st),
         mt_receipts := AList.update (s, t, c) (todo_fingerprint digest expected operations, r) (mt_receipts st)\<rparr>"
proof (cases "map_of (mt_receipts st) (s, t, c)")
  case None
  let ?cur = "memory_snapshot s t st"
  from assms None obtain ids updated log where
    e: "PInt (ts_revision ?cur) = expected" "valid_revision expected"
    and a: "apply_todo_operations ?cur operations ids = Inr (updated, log)"
    and r: "r = \<lparr>tur_turn_id = t, tur_snapshot = updated, tur_applied = log\<rparr>"
    and st': "st' = st\<lparr>mt_states := AList.update (s, t) updated (mt_states st),
         mt_receipts := AList.update (s, t, c) (todo_fingerprint digest expected operations, r) (mt_receipts st)\<rparr>"
    by (auto simp: memory_update_def Let_def bind_result_Inr split: if_splits)
  from applied [OF e(1) [symmetric] e(2) a r st'] show ?thesis .
next
  case (Some p)
  with assms show ?thesis
    by (cases p) (auto simp: memory_update_def Let_def split: if_splits intro: replayed)
qed

lemma memory_snapshot_update:
  "memory_snapshot s' t' (st\<lparr>mt_states := AList.update (s, t) u (mt_states st), mt_receipts := R\<rparr>)
     = (if (s', t') = (s, t) then u else memory_snapshot s' t' st)"
  by (auto simp: memory_snapshot_def)

interpretation memory_store: todo_store "memory_update digest" memory_snapshot memory_claim_finalization
    memory_finalization_claimed memory_ok for digest
proof
  fix st fresh fresh' s t c er ops st' r s' t' b
  {
    assume st: "memory_ok st" and u: "memory_update digest fresh s t c er ops st = Inr (st', r)"
    from u show "memory_ok st'"
    proof (cases rule: memory_updateE)
      case (applied updated log ids)
      have "wf_snapshot updated"
        using apply_todo_operations_ok [OF _ applied(3)] st by (simp add: memory_ok_def)
      with st show ?thesis unfolding applied(5) memory_ok_def memory_snapshot_update by simp
    qed (use st in simp)
    from u show "st' = st \<or> (er = PInt (ts_revision (memory_snapshot s t st)) \<and>
        memory_snapshot s t st' = tur_snapshot r \<and>
        ts_revision (memory_snapshot s t st') = ts_revision (memory_snapshot s t st) + 1)"
    proof (cases rule: memory_updateE)
      case (applied updated log ids)
      have "ts_revision updated = ts_revision (memory_snapshot s t st) + 1"
        using apply_todo_operations_ok [OF _ applied(3)] st by (simp add: memory_ok_def)
      with applied show ?thesis by (simp add: memory_snapshot_update)
    qed simp
  }
  {
    assume u: "memory_update digest fresh s t c er ops st = Inr (st', r)"
    have "map_of (mt_receipts st') (s, t, c) = Some (todo_fingerprint digest er ops, r) \<and> valid_revision er"
      using u by (cases rule: memory_updateE) simp_all
    then show "memory_update digest fresh' s t c er ops st' = Inr (st', r)"
      by (simp add: memory_update_def)
    show "(s', t') \<noteq> (s, t) \<Longrightarrow> memory_snapshot s' t' st' = memory_snapshot s' t' st"
      using u by (cases rule: memory_updateE) (auto simp: memory_snapshot_update)
    show "memory_finalization_claimed s' t' st' = memory_finalization_claimed s' t' st"
      using u by (cases rule: memory_updateE) (simp_all add: memory_finalization_claimed_def)
  }
  show "memory_ok st \<Longrightarrow> wf_snapshot (memory_snapshot s t st)" by (simp add: memory_ok_def)
  {
    assume c: "memory_claim_finalization s t st = (st', b)"
    have snap: "memory_snapshot s' t' (st\<lparr>mt_finalization := F\<rparr>) = memory_snapshot s' t' st" for s' t' F
      by (simp add: memory_snapshot_def)
    from c show "(\<forall>s' t'. memory_snapshot s' t' st' = memory_snapshot s' t' st) \<and>
      b = (unfinished (memory_snapshot s t st) \<noteq> [] \<and> \<not> memory_finalization_claimed s t st) \<and>
      (\<forall>s' t'. memory_finalization_claimed s' t' st' =
         (memory_finalization_claimed s' t' st \<or> ((s', t') = (s, t) \<and> b)))"
      by (auto simp: memory_claim_finalization_def memory_finalization_claimed_def snap split: if_splits)
    from c show "memory_ok st \<Longrightarrow> memory_ok st'"
      by (auto simp: memory_claim_finalization_def memory_ok_def snap split: if_splits)
  }
qed

section \<open>Properties\<close>

lemma new_memory_ok: "memory_ok new_memory_todo"
  by (simp add: memory_ok_def memory_snapshot_def new_memory_todo_def wf_empty_snapshot)

text \<open>Whatever sequence of updates and finalization claims a turn's clients issue, accepted or
  rejected: each turn is won by at most one finalization claim, every stored list is well formed,
  and no revision ever decreases.
\<close>

theorem todo_runs_safe:
  assumes "memory_store.run digest (cmds @ later) new_memory_todo = (st, won)"
    and "memory_store.run digest cmds new_memory_todo = (st0, won0)"
  shows "distinct won \<and> wf_snapshot (memory_snapshot s t st) \<and>
    ts_revision (memory_snapshot s t st0) \<le> ts_revision (memory_snapshot s t st)"
proof -
  have split: "memory_store.run digest (cmds @ later) st1 = (st3, won3) \<Longrightarrow>
      memory_store.run digest cmds st1 = (st2, won2) \<Longrightarrow>
      \<exists>won'. memory_store.run digest later st2 = (st3, won')" for st1 st2 st3 won2 won3
  proof (induction cmds arbitrary: st1 won2 won3)
    case (Cons cmd cmds)
    then show ?case by (cases cmd) (force split: sum.splits prod.splits)+
  qed auto
  from split [OF assms] obtain won' where later: "memory_store.run digest later st0 = (st, won')" by blast
  have ok: "memory_ok st0" by (rule memory_store.run_ok [OF new_memory_ok assms(2)])
  show ?thesis
    using memory_store.run_claims [OF assms(1)] memory_store.run_ok [OF new_memory_ok assms(1)]
      memory_store.run_revision [OF ok later] by (simp add: memory_ok_def)
qed

theorem todo_runs_safe_witness:
  "distinct (snd (memory_store.run id [Update_cmd ''s'' ''t'' ''c'' (PInt 0) [hd sample_ops] (\<lambda>_. sample_id CHR ''a''),
      Claim_cmd ''s'' ''t'', Claim_cmd ''s'' ''t''] new_memory_todo))"
proof -
  obtain st won where r: "memory_store.run id ([] @ [Update_cmd ''s'' ''t'' ''c'' (PInt 0) [hd sample_ops] (\<lambda>_. sample_id CHR ''a''),
      Claim_cmd ''s'' ''t'', Claim_cmd ''s'' ''t'']) new_memory_todo = (st, won)" by fastforce
  have "memory_store.run id [] new_memory_todo = (new_memory_todo, [])" by simp
  from todo_runs_safe [OF r this] r show ?thesis by simp
qed

text \<open>
  C34. Updates are not lost. An update that takes effect expected exactly the revision that was current,
  leaves the snapshot it returns at the next revision, and touches no other turn. Repeating the
  call with its call id then returns the stored result and changes nothing, and every other call that
  expects another revision than the new one, the old one in particular, is rejected with the current snapshot.
\<close>

theorem todo_update_optimistic:
  assumes "memory_ok st" "memory_update digest fresh s t c er ops st = Inr (st', r)" "st' \<noteq> st"
    and "map_of (mt_receipts st) (s, t, c') = None" "c' \<noteq> c"
  shows "er = PInt (ts_revision (memory_snapshot s t st)) \<and> memory_snapshot s t st' = tur_snapshot r
    \<and> ts_revision (tur_snapshot r) = ts_revision (memory_snapshot s t st) + 1
    \<and> ((s', t') \<noteq> (s, t) \<longrightarrow> memory_snapshot s' t' st' = memory_snapshot s' t' st)
    \<and> memory_update digest fresh' s t c er ops st' = Inr (st', r)
    \<and> memory_update digest fresh' s t c' er ops' st' = Inl (TodoStateError ''revision_conflict'' (Some (tur_snapshot r)))
    \<and> (valid_revision er' \<and> er' \<noteq> PInt (ts_revision (tur_snapshot r)) \<longrightarrow>
        memory_update digest fresh' s t c' er' ops' st' = Inl (TodoStateError ''revision_conflict'' (Some (tur_snapshot r))))"
proof -
  have eff: "er = PInt (ts_revision (memory_snapshot s t st))" "memory_snapshot s t st' = tur_snapshot r"
    "ts_revision (memory_snapshot s t st') = ts_revision (memory_snapshot s t st) + 1"
    using memory_store.update_effect [OF assms(1,2)] assms(3) by auto
  have new: "valid_revision er \<and> map_of (mt_receipts st') (s, t, c') = None"
    using assms(2) by (cases rule: memory_updateE) (use assms(4,5) in auto)
  have conflict: "memory_update digest fresh' s t c' e ops' st' = Inl (TodoStateError ''revision_conflict'' (Some (tur_snapshot r)))"
    if "valid_revision e" "e \<noteq> PInt (ts_revision (tur_snapshot r))" for e
    using new eff(2) that by (auto simp: memory_update_def)
  have "memory_snapshot s' t' st' = memory_snapshot s' t' st" if "(s', t') \<noteq> (s, t)"
    using assms(2) by (cases rule: memory_updateE) (use that in \<open>auto simp: memory_snapshot_def\<close>)
  then show ?thesis using eff new conflict [of er] conflict [of er'] memory_store.update_replay [OF assms(2)] by auto
qed

definition sample_update :: "string \<Rightarrow> memory_todo \<Rightarrow> todo_error + memory_todo \<times> TodoUpdateResult" where
  "sample_update c st = memory_update id (\<lambda>_. sample_id CHR ''a'') ''s'' ''t'' c (PInt 0) [hd sample_ops] st"

theorem todo_update_optimistic_witness:
  "\<exists>st' r. sample_update ''c'' new_memory_todo = Inr (st', r) \<and>
     sample_update ''d'' st' = Inl (TodoStateError ''revision_conflict'' (Some (tur_snapshot r)))"
proof -
  have "(case sample_update ''c'' new_memory_todo of Inl _ \<Rightarrow> False | Inr (st', _) \<Rightarrow> mt_receipts st' \<noteq> [])"
    by code_simp
  then obtain st' r where u: "sample_update ''c'' new_memory_todo = Inr (st', r)" "mt_receipts st' \<noteq> []"
    by (auto split: sum.splits)
  then have "st' \<noteq> new_memory_todo" by (auto simp: new_memory_todo_def)
  from todo_update_optimistic [OF new_memory_ok u(1) [unfolded sample_update_def] this, of "''d''"] u(1)
  show ?thesis by (auto simp: sample_update_def new_memory_todo_def)
qed

end
