(* ===== verification/TurnContract.thy ===== *)
theory TurnContract
  imports PyValue
begin

text \<open>
  \<open>domain/runtime_state/contract.py\<close>: the payload of a turn and its validation. Every
  \<open>RuntimeStateValidationError\<close> is \<open>ValidationError\<close>; membership tests in a frozen set
  raise \<open>RsTypeError\<close> on lists and dictionaries. A message is a dictionary, a version a list of
  messages, and the data of a turn a list of versions. \<open>_clone\<close> is the identity.
\<close>

datatype rs_error = ValidationError | RsTypeError | RsKeyError | RsValueError | RsIndexError | RsOverflowError

type_synonym message = pydict
type_synonym version = "message list"
type_synonym turn_data = "version list"

definition APP_VERSION :: string where
  "APP_VERSION = ''0.0.2''"

definition DEFAULT_FIRST_KEPT_ITEM_SIZE :: int where
  "DEFAULT_FIRST_KEPT_ITEM_SIZE = 8"

definition NODE_STATUSES :: "string set" where
  "NODE_STATUSES = {''running'', ''success'', ''paused'', ''failed''}"

definition ITEM_STATUSES :: "string set" where
  "ITEM_STATUSES = {''running'', ''failed'', ''success''}"

definition PERMISSION_MODES :: "string set" where
  "PERMISSION_MODES = {''read_only'', ''workspace_write'', ''full_access''}"

definition RUNNING_MODES :: "string set" where
  "RUNNING_MODES = {''agent'', ''plan''}"

definition REASONING_EFFORTS :: "string set" where
  "REASONING_EFFORTS = {''low'', ''medium'', ''high'', ''xhigh'', ''max''}"

definition THINKING_MODES :: "string set" where
  "THINKING_MODES = {''enable'', ''disable''}"

definition MESSAGE_ROLES :: "string set" where
  "MESSAGE_ROLES = {''user'', ''assistant''}"

definition CONTENT_BLOCK_TYPES :: "string set" where
  "CONTENT_BLOCK_TYPES = {''text'', ''reasoning'', ''tool_call'', ''tool_result'', ''bash'', ''plan'',
     ''approval'', ''question'', ''subagent'', ''skill_snapshot'', ''compaction'', ''retry'', ''error''}"

definition USAGE_FIELDS :: "string list" where
  "USAGE_FIELDS = [''input_tokens'', ''cached_tokens'', ''output_tokens'', ''reasoning_tokens'', ''total_tokens'']"

definition DEFAULT_MODEL :: pydict where
  "DEFAULT_MODEL = [(''reasoning_effort'', PStr ''medium''), (''current_model'', PStr ''unknown''),
     (''context_length'', PInt 128000), (''output_length'', PInt 8192), (''thinking'', PStr ''enable''),
     (''temperature'', PFloat (Finite 0))]"

section \<open>Helpers\<close>

definition check :: "bool \<Rightarrow> rs_error + unit" where
  "check b = ensure b ValidationError"

text \<open>\<open>v in S\<close> for a frozen set of strings.\<close>

definition check_member :: "pyval \<Rightarrow> string set \<Rightarrow> rs_error + unit" where
  "check_member v S = (if unhashable v then Inl RsTypeError else check (v \<in> PStr ` S))"

text \<open>\<open>_json\<close>: \<open>json.dumps(..., allow_nan=False)\<close> rejects infinities and NaN.\<close>

fun json_finite :: "pyval \<Rightarrow> bool" where
  "json_finite (PFloat f) = (case f of Finite r \<Rightarrow> True | _ \<Rightarrow> False)"
| "json_finite (PList xs) = (\<forall>x \<in> set xs. json_finite x)"
| "json_finite (PDict d) = (\<forall>p \<in> set d. json_finite (snd p))"
| "json_finite _ = True"

definition json_value :: "pyval \<Rightarrow> rs_error + pyval" where
  "json_value v = bind_result (check (json_finite v)) (\<lambda>_. Inr v)"

definition json_dict :: "pydict \<Rightarrow> rs_error + pydict" where
  "json_dict d = bind_result (check (json_finite (PDict d))) (\<lambda>_. Inr d)"

definition mapping :: "pyval \<Rightarrow> rs_error + pydict" where
  "mapping v = (case v of PDict d \<Rightarrow> Inr d | _ \<Rightarrow> Inl ValidationError)"

definition string_field :: "pydict \<Rightarrow> string \<Rightarrow> string \<Rightarrow> rs_error + string" where
  "string_field d name dflt = (case map_of d name of None \<Rightarrow> Inr dflt
     | Some (PStr s) \<Rightarrow> Inr s | _ \<Rightarrow> Inl ValidationError)"

text \<open>\<open>Path.expanduser\<close>, \<open>resolve\<close> and \<open>normpath\<close> are the host's answer for a non-empty
  path; \<open>None\<close> when the path is not absolute or cannot be resolved.\<close>

definition normalize_cwd :: "(string \<Rightarrow> string option) \<Rightarrow> string \<Rightarrow> rs_error + string" where
  "normalize_cwd resolve value = (if value = [] then Inr []
     else case resolve value of None \<Rightarrow> Inl ValidationError | Some p \<Rightarrow> Inr p)"

definition py_update :: "pydict \<Rightarrow> pydict \<Rightarrow> pydict" where
  "py_update d e = foldl (\<lambda>d (k, v). AList.update k v d) d e"

definition is_pos_int :: "pyval \<Rightarrow> bool" where
  "is_pos_int v = (case v of PInt i \<Rightarrow> 1 \<le> i | _ \<Rightarrow> False)"

definition is_nonneg_int :: "pyval \<Rightarrow> bool" where
  "is_nonneg_int v = (case v of PInt i \<Rightarrow> 0 \<le> i | _ \<Rightarrow> False)"

definition is_nonempty_str :: "pyval \<Rightarrow> bool" where
  "is_nonempty_str v = (case v of PStr s \<Rightarrow> s \<noteq> [] | _ \<Rightarrow> False)"

definition is_str :: "pyval \<Rightarrow> bool" where
  "is_str v = (case v of PStr s \<Rightarrow> True | _ \<Rightarrow> False)"

definition is_bool :: "pyval \<Rightarrow> bool" where
  "is_bool v = (case v of PBool b \<Rightarrow> True | _ \<Rightarrow> False)"

definition is_dict :: "pyval \<Rightarrow> bool" where
  "is_dict v = (case v of PDict d \<Rightarrow> True | _ \<Rightarrow> False)"

definition is_number :: "pyval \<Rightarrow> bool" where
  "is_number v = (case v of PInt i \<Rightarrow> True | PFloat f \<Rightarrow> True | _ \<Rightarrow> False)"

definition get_default :: "pydict \<Rightarrow> string \<Rightarrow> pyval \<Rightarrow> pyval" where
  "get_default d k v = (case map_of d k of None \<Rightarrow> v | Some w \<Rightarrow> w)"

section \<open>Model settings and usage\<close>

definition check_model :: "pydict \<Rightarrow> rs_error + unit" where
  "check_model result =
     bind_result (check_member (py_get result ''reasoning_effort'') REASONING_EFFORTS) (\<lambda>_.
     bind_result (check_member (py_get result ''thinking'') THINKING_MODES) (\<lambda>_.
     bind_result (check (is_nonempty_str (py_get result ''current_model''))) (\<lambda>_.
     bind_result (check (is_pos_int (py_get result ''context_length''))) (\<lambda>_.
     bind_result (check (is_pos_int (py_get result ''output_length''))) (\<lambda>_.
     bind_result (check (is_number (py_get result ''temperature''))) (\<lambda>_.
     check (json_finite (PDict result))))))))"

definition normalize_model :: "pyval \<Rightarrow> rs_error + pydict" where
  "normalize_model value =
     bind_result (if value = PNone then Inr DEFAULT_MODEL else
       bind_result (mapping value) (\<lambda>supplied.
       bind_result (check (keys supplied \<subseteq> keys DEFAULT_MODEL)) (\<lambda>_.
         Inr (py_update DEFAULT_MODEL supplied)))) (\<lambda>result.
     bind_result (check_model result) (\<lambda>_. Inr result))"

definition usage_ok :: "pyval \<Rightarrow> bool" where
  "usage_ok v \<longleftrightarrow> v = PNone \<or> is_nonneg_int v"

definition normalize_usage :: "pyval \<Rightarrow> rs_error + pydict" where
  "normalize_usage value =
     bind_result (if value = PNone then Inr (map (\<lambda>n. (n, PNone)) USAGE_FIELDS) else
       bind_result (mapping value) (\<lambda>supplied.
       bind_result (check (keys supplied \<subseteq> set USAGE_FIELDS)) (\<lambda>_.
         Inr (py_update (map (\<lambda>n. (n, PNone)) USAGE_FIELDS) supplied)))) (\<lambda>raw.
     bind_result (check (\<forall>(n, v) \<in> set raw. usage_ok v)) (\<lambda>_.
       Inr (map (\<lambda>n. (n, py_get raw n)) USAGE_FIELDS)))"

section \<open>Items\<close>

definition tool_call_ok :: "pydict \<Rightarrow> bool" where
  "tool_call_ok item \<longleftrightarrow> is_nonempty_str (py_get item ''call_id'') \<and> is_nonempty_str (py_get item ''name'') \<and>
     is_dict (get_default item ''arguments'' (PDict [])) \<and> is_bool (get_default item ''replay_safe'' (PBool True))"

definition compaction_ok :: "pydict \<Rightarrow> bool" where
  "compaction_ok item \<longleftrightarrow> is_str (py_get item ''summary'') \<and> is_nonneg_int (py_get item ''kept_item_count'')"

definition delay_ok :: "pyval \<Rightarrow> bool" where
  "delay_ok v = (case v of PInt i \<Rightarrow> 0 \<le> i | PFloat (Finite r) \<Rightarrow> 0 \<le> r | _ \<Rightarrow> False)"

definition retry_ok :: "pydict \<Rightarrow> bool" where
  "retry_ok item \<longleftrightarrow> py_get item ''event'' = PStr ''model_retry'' \<and> py_get item ''category'' = PStr ''network'' \<and>
     is_nonempty_str (py_get item ''message'') \<and> is_pos_int (py_get item ''attempt'') \<and>
     (case (py_get item ''attempt'', py_get item ''max_retries'') of (PInt a, PInt m) \<Rightarrow> a \<le> m | _ \<Rightarrow> False) \<and>
     delay_ok (py_get item ''delay_seconds'')"

definition error_ok :: "pydict \<Rightarrow> bool" where
  "error_ok item \<longleftrightarrow> is_nonempty_str (py_get item ''category'') \<and> is_nonempty_str (py_get item ''message'') \<and>
     is_bool (py_get item ''retryable'')"

definition kind_ok :: "string \<Rightarrow> pydict \<Rightarrow> bool" where
  "kind_ok kind item \<longleftrightarrow>
     (kind \<in> {''text'', ''reasoning'', ''bash''} \<longrightarrow> is_str (py_get item ''text'')) \<and>
     (kind = ''tool_call'' \<longrightarrow> tool_call_ok item) \<and>
     (kind = ''tool_result'' \<longrightarrow> is_nonempty_str (py_get item ''call_id'')) \<and>
     (kind = ''compaction'' \<longrightarrow> compaction_ok item) \<and>
     (kind = ''retry'' \<longrightarrow> retry_ok item) \<and> (kind = ''error'' \<longrightarrow> error_ok item)"

definition normalize_item :: "pyval \<Rightarrow> rs_error + pydict" where
  "normalize_item value =
     bind_result (mapping value) (\<lambda>item.
     bind_result (check_member (py_get item ''type'') CONTENT_BLOCK_TYPES) (\<lambda>_.
     bind_result (check_member (py_get item ''status'') ITEM_STATUSES) (\<lambda>_.
     bind_result (check (case py_get item ''type'' of PStr kind \<Rightarrow> kind_ok kind item | _ \<Rightarrow> True)) (\<lambda>_.
     json_dict item))))"

definition normalize_content :: "pyval \<Rightarrow> rs_error + pydict list" where
  "normalize_content content = (case content of
      PNone \<Rightarrow> Inr []
    | PStr s \<Rightarrow> map_result normalize_item
        [PDict [(''type'', PStr ''text''), (''text'', PStr s), (''status'', PStr ''success'')]]
    | PDict d \<Rightarrow> map_result normalize_item [PDict d]
    | PList vs \<Rightarrow> map_result normalize_item vs
    | _ \<Rightarrow> Inl ValidationError)"

section \<open>Messages and turns\<close>

text \<open>\<open>{**item, "status": "success"}\<close>; unpacking anything but a mapping raises.\<close>

definition with_success :: "pyval \<Rightarrow> rs_error + pyval" where
  "with_success v = (case v of PDict d \<Rightarrow> Inr (PDict (AList.update ''status'' (PStr ''success'') d))
     | _ \<Rightarrow> Inl RsTypeError)"

definition message_payload :: "string \<Rightarrow> pyval \<Rightarrow> pydict \<Rightarrow> rs_error + message" where
  "message_payload role content metadata =
     bind_result (check (role \<in> MESSAGE_ROLES)) (\<lambda>_.
     bind_result (if role = ''user'' then (case content of
           PDict d \<Rightarrow> bind_result (with_success content) (\<lambda>v. Inr (PList [v]))
         | PList vs \<Rightarrow> bind_result (map_result with_success vs) (\<lambda>ws. Inr (PList ws))
         | _ \<Rightarrow> Inr content) else Inr content) (\<lambda>content1.
     bind_result (normalize_content content1) (\<lambda>its.
     let message = [(''role'', PStr role), (''content'', PList (map PDict its))] in
     if metadata = [] then Inr message
     else bind_result (json_dict metadata) (\<lambda>md. Inr (py_update message md)))))"

definition turn_payload :: "pyval \<Rightarrow> pyval \<Rightarrow> pydict \<Rightarrow> rs_error + turn_data" where
  "turn_payload user assistant user_metadata =
     bind_result (message_payload ''user'' user user_metadata) (\<lambda>u.
     bind_result (message_payload ''assistant'' assistant []) (\<lambda>a. Inr [[u, a]]))"

definition compaction_payload :: "string \<Rightarrow> pydict list \<Rightarrow> pydict" where
  "compaction_payload summary kept_items =
     [(''type'', PStr ''compaction''), (''summary'', PStr summary),
      (''kept_item_count'', PInt (int (length kept_items))), (''status'', PStr ''success'')]"

definition terminal_error_payload :: "string \<Rightarrow> string \<Rightarrow> bool \<Rightarrow> string \<Rightarrow> rs_error + pydict" where
  "terminal_error_payload category message retryable code =
     bind_result (normalize_content (PDict ([(''type'', PStr ''error''), (''category'', PStr category),
       (''message'', PStr message), (''retryable'', PBool retryable), (''status'', PStr ''failed'')]
       @ (if code = [] then [] else [(''code'', PStr code)])))) (\<lambda>its. Inr (hd its))"

definition terminal_error_text :: "pydict \<Rightarrow> string" where
  "terminal_error_text e = get_str e ''message''"

text \<open>One message of \<open>validate_data\<close>, at its index and after the previous role.\<close>

definition validate_message :: "bool \<Rightarrow> string option \<Rightarrow> pyval \<Rightarrow> rs_error + string \<times> message" where
  "validate_message first previous raw =
     bind_result (mapping raw) (\<lambda>message.
     let role = py_get message ''role'' in
     bind_result (check (first \<longrightarrow> role = PStr ''user'')) (\<lambda>_.
     bind_result (check_member role MESSAGE_ROLES) (\<lambda>_.
     bind_result (check (\<not> (role = PStr ''user'' \<and> previous = Some ''user''))) (\<lambda>_.
     bind_result (normalize_content (py_get message ''content'')) (\<lambda>its.
     bind_result (check (role = PStr ''user'' \<longrightarrow> length its = 1)) (\<lambda>_.
     bind_result (check (role = PStr ''user'' \<longrightarrow>
       py_get (hd its) ''type'' = PStr ''text'' \<and> is_str (py_get (hd its) ''text''))) (\<lambda>_.
     bind_result (json_dict (AList.update ''content'' (PList (map PDict its)) message)) (\<lambda>m.
       Inr (py_str role, m)))))))))"

fun validate_messages :: "bool \<Rightarrow> string option \<Rightarrow> pyval list \<Rightarrow> rs_error + version" where
  "validate_messages first previous [] = Inr []"
| "validate_messages first previous (raw # raws) =
     bind_result (validate_message first previous raw) (\<lambda>(role, m).
     bind_result (validate_messages False (Some role) raws) (\<lambda>ms. Inr (m # ms)))"

definition validate_version :: "pyval \<Rightarrow> rs_error + version" where
  "validate_version v = (case v of PList raws \<Rightarrow>
       if raws = [] then Inl ValidationError else validate_messages True None raws
     | _ \<Rightarrow> Inl ValidationError)"

definition validate_data :: "pyval \<Rightarrow> rs_error + turn_data" where
  "validate_data v = (case v of PList versions \<Rightarrow>
       if versions = [] then Inl ValidationError else map_result validate_version versions
     | _ \<Rightarrow> Inl ValidationError)"

section \<open>Validation is sound and idempotent\<close>

lemma check_Inr [simp]: "check b = Inr u \<longleftrightarrow> b"
  by (simp add: check_def)

lemma check_True [simp]: "check True = Inr ()"
  by (simp add: check_def)

lemma check_member_Inr: "check_member v S = Inr u \<longleftrightarrow> v \<in> PStr ` S"
  by (auto simp: check_member_def unhashable_def split: pyval.splits)

lemma mapping_Inr: "mapping v = Inr d \<longleftrightarrow> v = PDict d"
  by (cases v) (auto simp: mapping_def)

lemma json_dict_Inr: "json_dict d = Inr e \<longleftrightarrow> e = d \<and> json_finite (PDict d)"
  by (auto simp: json_dict_def bind_result_Inr)

lemma normalize_item_Inr:
  "normalize_item v = Inr item \<longleftrightarrow> v = PDict item \<and> py_get item ''type'' \<in> PStr ` CONTENT_BLOCK_TYPES \<and>
     py_get item ''status'' \<in> PStr ` ITEM_STATUSES \<and>
     (case py_get item ''type'' of PStr kind \<Rightarrow> kind_ok kind item | _ \<Rightarrow> True) \<and> json_finite (PDict item)"
  by (auto simp: normalize_item_def bind_result_Inr mapping_Inr check_member_Inr json_dict_Inr)

definition item_ok :: "pydict \<Rightarrow> bool" where
  "item_ok item \<longleftrightarrow> normalize_item (PDict item) = Inr item"

lemma normalize_item_ok: "normalize_item v = Inr item \<longleftrightarrow> v = PDict item \<and> item_ok item"
  by (auto simp: item_ok_def normalize_item_Inr)

lemma map_result_items: "map_result normalize_item vs = Inr its \<longleftrightarrow> vs = map PDict its \<and> list_all item_ok its"
proof (induction vs arbitrary: its)
  case (Cons v vs)
  then show ?case by (cases its) (auto simp: bind_result_Inr normalize_item_ok)
qed auto

lemma normalize_content_ok: "normalize_content v = Inr its \<Longrightarrow> list_all item_ok its"
proof (cases v)
  case (PStr s)
  assume "normalize_content v = Inr its"
  with PStr have "map_result normalize_item
      [PDict [(''type'', PStr ''text''), (''text'', PStr s), (''status'', PStr ''success'')]] = Inr its"
    by (simp only: normalize_content_def pyval.case)
  then show ?thesis unfolding map_result_items by blast
next
  case (PDict d)
  assume "normalize_content v = Inr its"
  with PDict have "map_result normalize_item [PDict d] = Inr its"
    by (simp only: normalize_content_def pyval.case)
  then show ?thesis unfolding map_result_items by blast
qed (auto simp: normalize_content_def map_result_items)

lemma normalize_content_PList: "list_all item_ok its \<Longrightarrow> normalize_content (PList (map PDict its)) = Inr its"
  by (simp add: normalize_content_def map_result_items)

text \<open>What validation guarantees about one message, given whether it comes first and the role before
  it.\<close>

definition message_ok :: "bool \<Rightarrow> string option \<Rightarrow> message \<Rightarrow> bool" where
  "message_ok first previous m \<longleftrightarrow> (\<exists>role its. py_get m ''role'' = PStr role \<and> role \<in> MESSAGE_ROLES \<and>
     map_of m ''content'' = Some (PList (map PDict its)) \<and> list_all item_ok its \<and> json_finite (PDict m) \<and>
     (first \<longrightarrow> role = ''user'') \<and> \<not> (role = ''user'' \<and> previous = Some ''user'') \<and>
     (role = ''user'' \<longrightarrow> (\<exists>it. its = [it] \<and> py_get it ''type'' = PStr ''text'' \<and> is_str (py_get it ''text''))))"

lemma py_get_update: "py_get (AList.update k v d) k' = (if k' = k then v else py_get d k')"
  by (simp add: py_get_def)

lemma validate_message_ok:
  assumes "validate_message first previous raw = Inr (role, m)"
  shows "message_ok first previous m \<and> py_get m ''role'' = PStr role"
proof -
  from assms obtain message its where raw: "raw = PDict message"
    and r: "first \<longrightarrow> py_get message ''role'' = PStr ''user''" "py_get message ''role'' \<in> PStr ` MESSAGE_ROLES"
      "\<not> (py_get message ''role'' = PStr ''user'' \<and> previous = Some ''user'')"
    and c: "normalize_content (py_get message ''content'') = Inr its"
      "py_get message ''role'' = PStr ''user'' \<longrightarrow> length its = 1"
      "py_get message ''role'' = PStr ''user'' \<longrightarrow>
         py_get (hd its) ''type'' = PStr ''text'' \<and> is_str (py_get (hd its) ''text'')"
    and m: "m = AList.update ''content'' (PList (map PDict its)) message" "json_finite (PDict m)"
    and role: "role = py_str (py_get message ''role'')"
    by (auto simp: validate_message_def bind_result_Inr mapping_Inr check_member_Inr json_dict_Inr Let_def)
  from r(2) obtain ro where ro: "py_get message ''role'' = PStr ro" "ro \<in> MESSAGE_ROLES" by blast
  have "py_get m ''role'' = PStr ro" "map_of m ''content'' = Some (PList (map PDict its))"
    using ro by (simp_all add: m(1) py_get_update)
  moreover have "\<exists>it. its = [it] \<and> py_get it ''type'' = PStr ''text'' \<and> is_str (py_get it ''text'')"
    if "ro = ''user''"
    using c(2,3) ro that by (cases its) auto
  ultimately show ?thesis
    using ro r role m(2) normalize_content_ok [OF c(1)] by (auto simp: message_ok_def)
qed

lemma message_ok_validate:
  assumes "message_ok first previous m" "py_get m ''role'' = PStr role"
  shows "validate_message first previous (PDict m) = Inr (role, m)"
proof -
  from assms obtain its where its: "map_of m ''content'' = Some (PList (map PDict its))" "list_all item_ok its"
    and j: "json_finite (PDict m)" and r: "role \<in> MESSAGE_ROLES" "first \<longrightarrow> role = ''user''"
      "\<not> (role = ''user'' \<and> previous = Some ''user'')"
      "role = ''user'' \<longrightarrow> (\<exists>it. its = [it] \<and> py_get it ''type'' = PStr ''text'' \<and> is_str (py_get it ''text''))"
    by (auto simp: message_ok_def)
  have c: "normalize_content (py_get m ''content'') = Inr its"
    using its by (simp add: py_get_def normalize_content_PList)
  have u: "AList.update ''content'' (PList (map PDict its)) m = m" using its(1) by (rule update_triv)
  have mem: "check_member (PStr role) MESSAGE_ROLES = Inr ()" using r(1) by (simp add: check_member_Inr)
  show ?thesis
    using r j by (auto simp: validate_message_def assms(2) c u mem mapping_def json_dict_def check_def)
qed

fun version_ok :: "bool \<Rightarrow> string option \<Rightarrow> version \<Rightarrow> bool" where
  "version_ok first previous [] = True"
| "version_ok first previous (m # ms) \<longleftrightarrow> message_ok first previous m \<and> version_ok False (Some (py_str (py_get m ''role''))) ms"

lemma validate_messages_ok:
  "validate_messages first previous raws = Inr ms \<Longrightarrow> version_ok first previous ms \<and> length ms = length raws"
proof (induction raws arbitrary: first previous ms)
  case (Cons raw raws)
  from Cons.prems obtain role m ms' where m: "validate_message first previous raw = Inr (role, m)"
    and ms': "validate_messages False (Some role) raws = Inr ms'" "ms = m # ms'"
    by (auto simp: bind_result_Inr)
  from validate_message_ok [OF m] Cons.IH [OF ms'(1)] ms'(2) show ?case by simp
qed simp

lemma version_ok_validate:
  "version_ok first previous ms \<Longrightarrow> validate_messages first previous (map PDict ms) = Inr ms"
proof (induction ms arbitrary: first previous)
  case (Cons m ms)
  then obtain role where role: "py_get m ''role'' = PStr role" by (auto simp: message_ok_def)
  with Cons message_ok_validate [OF _ role, of first previous] show ?case by simp
qed simp

definition data_value :: "turn_data \<Rightarrow> pyval" where
  "data_value ds = PList (map (\<lambda>ms. PList (map PDict ms)) ds)"

definition turn_ok :: "turn_data \<Rightarrow> bool" where
  "turn_ok ds \<longleftrightarrow> ds \<noteq> [] \<and> (\<forall>ms \<in> set ds. ms \<noteq> [] \<and> version_ok True None ms)"

lemma validate_version_ok: "validate_version v = Inr ms \<Longrightarrow> ms \<noteq> [] \<and> version_ok True None ms"
  by (auto simp: validate_version_def split: pyval.splits if_splits dest: validate_messages_ok)

lemma validate_data_turn_ok: "validate_data v = Inr ds \<Longrightarrow> turn_ok ds"
proof -
  assume "validate_data v = Inr ds"
  then obtain vs where vs: "vs \<noteq> []" "list_all2 (\<lambda>x y. validate_version x = Inr y) vs ds"
    by (auto simp: validate_data_def split: pyval.splits if_splits dest: map_result_InrD)
  from vs(2) have "\<forall>ms \<in> set ds. ms \<noteq> [] \<and> version_ok True None ms"
    by (induction rule: list_all2_induct) (auto dest: validate_version_ok)
  with vs show ?thesis by (auto simp: turn_ok_def)
qed

lemma turn_ok_validate: "turn_ok ds \<Longrightarrow> validate_data (data_value ds) = Inr ds"
  by (auto simp: validate_data_def data_value_def turn_ok_def validate_version_def version_ok_validate
      intro!: map_result_Inr)

text \<open>The roles of a version, in order.\<close>

definition roles :: "version \<Rightarrow> string list" where
  "roles ms = map (\<lambda>m. py_str (py_get m ''role'')) ms"

lemma version_ok_alternates:
  "version_ok first previous ms \<Longrightarrow> (\<forall>i. Suc i < length ms \<longrightarrow> \<not> (roles ms ! i = ''user'' \<and> roles ms ! Suc i = ''user''))
     \<and> (\<forall>r \<in> set (roles ms). r \<in> MESSAGE_ROLES) \<and> (first \<and> ms \<noteq> [] \<longrightarrow> hd (roles ms) = ''user'')"
proof (induction ms arbitrary: first previous)
  case (Cons m ms)
  then have ok: "message_ok first previous m" and "version_ok False (Some (py_str (py_get m ''role''))) ms" by simp_all
  note IH = Cons.IH [OF this(2)]
  have step: "\<not> (py_str (py_get m ''role'') = ''user'' \<and> roles ms ! 0 = ''user'')" if "ms \<noteq> []"
    using that Cons.prems by (cases ms) (auto simp: message_ok_def roles_def)
  have "\<not> (roles (m # ms) ! i = ''user'' \<and> roles (m # ms) ! Suc i = ''user'')" if "Suc i < length (m # ms)" for i
    using that IH step by (cases i) (auto simp: roles_def)
  moreover have "\<forall>r \<in> set (roles (m # ms)). r \<in> MESSAGE_ROLES" "first \<longrightarrow> hd (roles (m # ms)) = ''user''"
    using ok IH by (auto simp: message_ok_def roles_def)
  ultimately show ?case by blast
qed (simp add: roles_def)

text \<open>Validated turn data has the shape the module promises: at least one version, every version
  starts with a user message and has no two consecutive user messages, all roles are known; and
  validating it again changes nothing, so reloading a stored turn cannot alter or reject it.
\<close>

theorem validate_data_sound:
  assumes "validate_data v = Inr ds"
  shows "ds \<noteq> [] \<and> (\<forall>ms \<in> set ds. ms \<noteq> [] \<and> hd (roles ms) = ''user'' \<and> set (roles ms) \<subseteq> MESSAGE_ROLES \<and>
      (\<forall>i. Suc i < length ms \<longrightarrow> \<not> (roles ms ! i = ''user'' \<and> roles ms ! Suc i = ''user''))) \<and>
    validate_data (data_value ds) = Inr ds"
proof -
  have ok: "turn_ok ds" by (rule validate_data_turn_ok [OF assms])
  have "hd (roles ms) = ''user'' \<and> set (roles ms) \<subseteq> MESSAGE_ROLES \<and>
      (\<forall>i. Suc i < length ms \<longrightarrow> \<not> (roles ms ! i = ''user'' \<and> roles ms ! Suc i = ''user''))" if "ms \<in> set ds" for ms
    using ok that version_ok_alternates [of True None ms] by (auto simp: turn_ok_def)
  with ok turn_ok_validate [OF ok] show ?thesis by (auto simp: turn_ok_def)
qed

definition sample_turn :: turn_data where
  "sample_turn = projr (turn_payload (PStr ''hi'') PNone [])"

theorem validate_data_sound_witness:
  "hd (roles (hd sample_turn)) = ''user'' \<and> validate_data (data_value sample_turn) = Inr sample_turn"
proof -
  have v: "validate_data (data_value sample_turn) = Inr sample_turn" by code_simp
  from validate_data_sound [OF v] show ?thesis by (auto simp: hd_in_set)
qed

end
