(* ===== verification/TurnModels.thy ===== *)
theory TurnModels
  imports TurnContract
begin

text \<open>
  \<open>domain/runtime_state/models.py\<close>: the root of a session and the turn node.

  \<open>turn_args\<close> are the constructor's arguments, dynamically typed where the source checks the type;
  \<open>RuntimeState\<close> is the object after \<open>__post_init__\<close>. Two answers of the platform are
  parameters: the resolution of a working directory and whether a timestamp parses as UTC.
\<close>

record rs_host =
  rh_cwd :: "string \<Rightarrow> string option"
  rh_timestamp :: "string \<Rightarrow> bool"

record RuntimeRootState =
  rr_session_id :: string
  rr_thread_id :: string
  rr_id :: string

definition root_post_init :: "RuntimeRootState \<Rightarrow> rs_error + RuntimeRootState" where
  "root_post_init r =
     bind_result (check (rr_session_id r \<noteq> [] \<and> rr_thread_id r \<noteq> [] \<and> rr_id r \<noteq> [])) (\<lambda>_.
     bind_result (check (rr_thread_id r = rr_session_id r)) (\<lambda>_. Inr r))"

definition root_to_dict :: "RuntimeRootState \<Rightarrow> pydict" where
  "root_to_dict r = [(''session_id'', PStr (rr_session_id r)), (''thread_id'', PStr (rr_thread_id r)),
     (''id'', PStr (rr_id r))]"

definition root_from_dict :: "pyval \<Rightarrow> rs_error + RuntimeRootState" where
  "root_from_dict value =
     bind_result (mapping value) (\<lambda>raw.
     bind_result (check (keys raw = {''session_id'', ''thread_id'', ''id''})) (\<lambda>_.
     bind_result (string_field raw ''session_id'' []) (\<lambda>session_id.
     bind_result (string_field raw ''thread_id'' []) (\<lambda>thread_id.
     bind_result (string_field raw ''id'' []) (\<lambda>i.
       root_post_init \<lparr>rr_session_id = session_id, rr_thread_id = thread_id, rr_id = i\<rparr>)))))"

text \<open>\<open>RuntimeRootState.create\<close>; \<open>fresh\<close> is the id \<open>new_node_id()\<close> would return.\<close>

definition root_create :: "string \<Rightarrow> string \<Rightarrow> string option \<Rightarrow> rs_error + RuntimeRootState" where
  "root_create fresh session_id i = root_post_init \<lparr>rr_session_id = session_id, rr_thread_id = session_id,
     rr_id = (case i of None \<Rightarrow> fresh | Some s \<Rightarrow> if s = [] then fresh else s)\<rparr>"

record RuntimeState =
  rs_thread_id :: string
  rs_parent_thread_id :: string
  rs_session_id :: string
  rs_parent_session_id :: string
  rs_id :: string
  rs_parent_id :: string
  rs_version :: string
  rs_first_kept_item_size :: int
  rs_compaction_id :: string
  rs_user :: string
  rs_provider_name :: string
  rs_model :: pydict
  rs_permission_mode :: string
  rs_running_mode :: string
  rs_usage :: pydict
  rs_cwd :: string
  rs_project_cwd :: string
  rs_timestamp :: string
  rs_status :: string
  rs_current_data_idx :: int
  rs_data :: turn_data

record turn_args =
  ta_thread_id :: string
  ta_parent_thread_id :: string
  ta_session_id :: string
  ta_parent_session_id :: string
  ta_id :: string
  ta_parent_id :: string
  ta_version :: string
  ta_first_kept_item_size :: pyval
  ta_compaction_id :: string
  ta_user :: string
  ta_provider_name :: string
  ta_model :: pyval
  ta_permission_mode :: pyval
  ta_running_mode :: pyval
  ta_usage :: pyval
  ta_cwd :: string
  ta_project_cwd :: string
  ta_timestamp :: string
  ta_status :: pyval
  ta_current_data_idx :: pyval
  ta_data :: pyval

text \<open>The parent fields of a turn.\<close>

definition parents_ok :: "turn_args \<Rightarrow> bool" where
  "parents_ok a \<longleftrightarrow> (ta_parent_id a \<noteq> []) = (ta_parent_session_id a \<noteq> []) \<and>
     \<not> (ta_parent_id a = [] \<and> ta_parent_session_id a \<noteq> []) \<and>
     \<not> (ta_parent_id a = [] \<and> ta_thread_id a = ta_session_id a \<and> ta_parent_thread_id a \<noteq> []) \<and>
     \<not> (ta_parent_id a = [] \<and> ta_thread_id a \<noteq> ta_session_id a \<and> ta_parent_thread_id a = [])"

definition message_items :: "message \<Rightarrow> pydict list" where
  "message_items m = (case py_get m ''content'' of PList vs \<Rightarrow> dict_items vs | _ \<Rightarrow> [])"

definition message_role :: "message \<Rightarrow> pyval" where
  "message_role m = py_get m ''role''"

text \<open>A turn that is not running ends with an assistant message in every version and has no running
  item.\<close>

definition settled :: "turn_data \<Rightarrow> bool" where
  "settled ds \<longleftrightarrow> (\<forall>ms \<in> set ds. message_role (last ms) = PStr ''assistant'') \<and>
     (\<forall>ms \<in> set ds. \<forall>m \<in> set ms. \<forall>it \<in> set (message_items m). py_get it ''status'' \<noteq> PStr ''running'')"

definition int_of :: "pyval \<Rightarrow> rs_error + int" where
  "int_of v = (case v of PInt i \<Rightarrow> Inr i | _ \<Rightarrow> Inl ValidationError)"

definition post_init :: "rs_host \<Rightarrow> turn_args \<Rightarrow> rs_error + RuntimeState" where
  "post_init h a =
     bind_result (check (ta_thread_id a \<noteq> [] \<and> ta_session_id a \<noteq> [] \<and> ta_id a \<noteq> [])) (\<lambda>_.
     bind_result (check (ta_version a = APP_VERSION)) (\<lambda>_.
     bind_result (check_member (ta_status a) NODE_STATUSES) (\<lambda>_.
     bind_result (check_member (ta_permission_mode a) PERMISSION_MODES) (\<lambda>_.
     bind_result (check_member (ta_running_mode a) RUNNING_MODES) (\<lambda>_.
     bind_result (check (parents_ok a)) (\<lambda>_.
     bind_result (int_of (ta_first_kept_item_size a)) (\<lambda>kept.
     bind_result (check (0 \<le> kept)) (\<lambda>_.
     bind_result (check (rh_timestamp h (ta_timestamp a))) (\<lambda>_.
     bind_result (normalize_cwd (rh_cwd h) (ta_cwd a)) (\<lambda>cwd.
     bind_result (normalize_cwd (rh_cwd h) (ta_project_cwd a)) (\<lambda>project_cwd.
     bind_result (normalize_model (ta_model a)) (\<lambda>model.
     bind_result (normalize_usage (ta_usage a)) (\<lambda>usage.
     bind_result (validate_data (ta_data a)) (\<lambda>ds.
     bind_result (int_of (ta_current_data_idx a)) (\<lambda>idx.
     bind_result (check (0 \<le> idx \<and> idx < int (length ds))) (\<lambda>_.
     bind_result (check (ta_status a \<noteq> PStr ''running'' \<longrightarrow> settled ds)) (\<lambda>_.
       Inr \<lparr>rs_thread_id = ta_thread_id a, rs_parent_thread_id = ta_parent_thread_id a,
            rs_session_id = ta_session_id a, rs_parent_session_id = ta_parent_session_id a,
            rs_id = ta_id a, rs_parent_id = ta_parent_id a, rs_version = ta_version a,
            rs_first_kept_item_size = kept,
            rs_compaction_id = (if ta_compaction_id a = [] then ta_id a else ta_compaction_id a),
            rs_user = ta_user a, rs_provider_name = ta_provider_name a, rs_model = model,
            rs_permission_mode = py_str (ta_permission_mode a), rs_running_mode = py_str (ta_running_mode a),
            rs_usage = usage, rs_cwd = cwd, rs_project_cwd = project_cwd, rs_timestamp = ta_timestamp a,
            rs_status = py_str (ta_status a), rs_current_data_idx = idx, rs_data = ds\<rparr>)))))))))))))))))"

section \<open>Views of a turn\<close>

definition selected_messages :: "RuntimeState \<Rightarrow> version" where
  "selected_messages s = rs_data s ! nat (rs_current_data_idx s)"

definition user_message :: "RuntimeState \<Rightarrow> message" where
  "user_message s = hd (selected_messages s)"

definition assistant_message :: "RuntimeState \<Rightarrow> message" where
  "assistant_message s = (case find (\<lambda>m. message_role m = PStr ''assistant'') (rev (selected_messages s)) of
      Some m \<Rightarrow> m
    | None \<Rightarrow> [(''role'', PStr ''assistant''), (''content'', PList [])])"

definition assistant_items :: "RuntimeState \<Rightarrow> pydict list" where
  "assistant_items s = message_items (assistant_message s)"

definition is_terminal :: "RuntimeState \<Rightarrow> bool" where
  "is_terminal s \<longleftrightarrow> rs_status s \<noteq> ''running''"

section \<open>Dictionaries\<close>

definition state_to_dict :: "RuntimeState \<Rightarrow> pydict" where
  "state_to_dict s =
     [(''thread_id'', PStr (rs_thread_id s)), (''parent_thread_id'', PStr (rs_parent_thread_id s)),
      (''session_id'', PStr (rs_session_id s)), (''parent_session_id'', PStr (rs_parent_session_id s)),
      (''id'', PStr (rs_id s)), (''parent_id'', PStr (rs_parent_id s)), (''version'', PStr (rs_version s)),
      (''firstKeptItemSize'', PInt (rs_first_kept_item_size s)),
      (''compactionId'', PStr (rs_compaction_id s)), (''user'', PStr (rs_user s)),
      (''provider_name'', PStr (rs_provider_name s)), (''model'', PDict (rs_model s)),
      (''permission_mode'', PStr (rs_permission_mode s)), (''running_mode'', PStr (rs_running_mode s)),
      (''usage'', PDict (rs_usage s)), (''cwd'', PStr (rs_cwd s)), (''project_cwd'', PStr (rs_project_cwd s)),
      (''timestamp'', PStr (rs_timestamp s)), (''status'', PStr (rs_status s)),
      (''current_data_idx'', PInt (rs_current_data_idx s)), (''data'', data_value (rs_data s))]"

definition state_fields :: "string list" where
  "state_fields = [''thread_id'', ''parent_thread_id'', ''session_id'', ''parent_session_id'', ''id'',
     ''parent_id'', ''version'', ''firstKeptItemSize'', ''compactionId'', ''user'', ''provider_name'',
     ''model'', ''permission_mode'', ''running_mode'', ''usage'', ''cwd'', ''project_cwd'', ''timestamp'',
     ''status'', ''current_data_idx'', ''data'']"

definition state_from_dict :: "rs_host \<Rightarrow> pyval \<Rightarrow> rs_error + RuntimeState" where
  "state_from_dict h value =
     bind_result (mapping value) (\<lambda>raw.
     bind_result (check (set state_fields \<subseteq> keys raw)) (\<lambda>_.
     bind_result (string_field raw ''thread_id'' []) (\<lambda>thread_id.
     bind_result (string_field raw ''parent_thread_id'' []) (\<lambda>parent_thread_id.
     bind_result (string_field raw ''session_id'' []) (\<lambda>session_id.
     bind_result (string_field raw ''parent_session_id'' []) (\<lambda>parent_session_id.
     bind_result (string_field raw ''id'' []) (\<lambda>i.
     bind_result (string_field raw ''parent_id'' []) (\<lambda>parent_id.
     bind_result (string_field raw ''version'' []) (\<lambda>ver.
     bind_result (string_field raw ''compactionId'' []) (\<lambda>compaction_id.
     bind_result (string_field raw ''user'' []) (\<lambda>user.
     bind_result (string_field raw ''provider_name'' []) (\<lambda>provider_name.
     bind_result (mapping (py_get raw ''model'')) (\<lambda>model.
     bind_result (mapping (py_get raw ''usage'')) (\<lambda>usage.
     bind_result (string_field raw ''cwd'' []) (\<lambda>cwd.
     bind_result (string_field raw ''project_cwd'' []) (\<lambda>project_cwd.
     bind_result (string_field raw ''timestamp'' []) (\<lambda>timestamp.
       post_init h \<lparr>ta_thread_id = thread_id, ta_parent_thread_id = parent_thread_id,
         ta_session_id = session_id, ta_parent_session_id = parent_session_id, ta_id = i,
         ta_parent_id = parent_id, ta_version = ver,
         ta_first_kept_item_size = py_get raw ''firstKeptItemSize'', ta_compaction_id = compaction_id,
         ta_user = user, ta_provider_name = provider_name, ta_model = PDict model,
         ta_permission_mode = py_get raw ''permission_mode'', ta_running_mode = py_get raw ''running_mode'',
         ta_usage = PDict usage, ta_cwd = cwd, ta_project_cwd = project_cwd, ta_timestamp = timestamp,
         ta_status = py_get raw ''status'', ta_current_data_idx = py_get raw ''current_data_idx'',
         ta_data = py_get raw ''data''\<rparr>)))))))))))))))))"

text \<open>\<open>RuntimeState.from_dict(self.to_dict())\<close>: how the code clones and revalidates.\<close>

definition revalidate :: "rs_host \<Rightarrow> RuntimeState \<Rightarrow> rs_error + RuntimeState" where
  "revalidate h s = state_from_dict h (PDict (state_to_dict s))"

section \<open>Creation\<close>

datatype RuntimeNode = RootNode RuntimeRootState | TurnNode RuntimeState

fun node_session_id :: "RuntimeNode \<Rightarrow> string" where
  "node_session_id (RootNode r) = rr_session_id r"
| "node_session_id (TurnNode s) = rs_session_id s"

fun node_thread_id :: "RuntimeNode \<Rightarrow> string" where
  "node_thread_id (RootNode r) = rr_thread_id r"
| "node_thread_id (TurnNode s) = rs_thread_id s"

fun node_id :: "RuntimeNode \<Rightarrow> string" where
  "node_id (RootNode r) = rr_id r"
| "node_id (TurnNode s) = rs_id s"

definition node_key :: "RuntimeNode \<Rightarrow> string \<times> string" where
  "node_key n = (node_session_id n, node_id n)"

record create_args =
  ca_session_id :: string
  ca_thread_id :: string
  ca_user_content :: pyval
  ca_parent :: "RuntimeNode option"
  ca_id :: string
  ca_user :: string
  ca_provider_name :: string
  ca_model :: pydict
  ca_permission_mode :: pyval
  ca_running_mode :: pyval
  ca_cwd :: string
  ca_project_cwd :: string
  ca_first_kept_item_size :: pyval
  ca_compaction_id :: string
  ca_data :: pyval
  ca_status :: pyval
  ca_timestamp :: string

text \<open>\<open>RuntimeState.create\<close>: an empty id, model, compaction id or timestamp, or data \<open>None\<close>,
  takes the default; \<open>fresh\<close> and \<open>now\<close> are what \<open>new_node_id\<close> and \<open>utc_iso\<close> return.\<close>

definition state_create :: "rs_host \<Rightarrow> string \<Rightarrow> string \<Rightarrow> create_args \<Rightarrow> rs_error + RuntimeState" where
  "state_create h fresh now a =
     (let turn_id = (if ca_id a = [] then fresh else ca_id a);
          parent_compaction = (case ca_parent a of Some (TurnNode p) \<Rightarrow> rs_compaction_id p | _ \<Rightarrow> turn_id) in
      bind_result (if ca_data a = PNone then bind_result (turn_payload (ca_user_content a) PNone [])
           (\<lambda>ds. Inr (data_value ds)) else Inr (ca_data a)) (\<lambda>dat.
      post_init h \<lparr>ta_thread_id = ca_thread_id a,
        ta_parent_thread_id = (case ca_parent a of None \<Rightarrow> [] | Some p \<Rightarrow> node_thread_id p),
        ta_session_id = ca_session_id a,
        ta_parent_session_id = (case ca_parent a of None \<Rightarrow> [] | Some p \<Rightarrow> node_session_id p),
        ta_id = turn_id, ta_parent_id = (case ca_parent a of None \<Rightarrow> [] | Some p \<Rightarrow> node_id p),
        ta_version = APP_VERSION, ta_first_kept_item_size = ca_first_kept_item_size a,
        ta_compaction_id = (if ca_compaction_id a = [] then parent_compaction else ca_compaction_id a),
        ta_user = ca_user a, ta_provider_name = ca_provider_name a,
        ta_model = PDict (if ca_model a = [] then DEFAULT_MODEL else ca_model a),
        ta_permission_mode = ca_permission_mode a, ta_running_mode = ca_running_mode a, ta_usage = PNone,
        ta_cwd = ca_cwd a, ta_project_cwd = ca_project_cwd a,
        ta_timestamp = (if ca_timestamp a = [] then now else ca_timestamp a), ta_status = ca_status a,
        ta_current_data_idx = PInt 0, ta_data = dat\<rparr>))"

definition with_assistant_items :: "rs_host \<Rightarrow> pyval \<Rightarrow> RuntimeState \<Rightarrow> rs_error + RuntimeState" where
  "with_assistant_items h its s =
     bind_result (revalidate h s) (\<lambda>result.
     let idx = nat (rs_current_data_idx result); ms = rs_data result ! idx;
         ms1 = (if message_role (last ms) \<noteq> PStr ''assistant''
                then ms @ [[(''role'', PStr ''assistant''), (''content'', PList [])]] else ms) in
     bind_result (normalize_content its) (\<lambda>content.
     let target = AList.update ''content'' (PList (map PDict content)) (last ms1);
         ds = (rs_data result)[idx := butlast ms1 @ [target]] in
     bind_result (validate_data (data_value ds)) (\<lambda>ds'. Inr (result\<lparr>rs_data := ds'\<rparr>))))"

text \<open>\<open>_runtime_node_sort_key\<close> and the structural union of stored nodes.\<close>

fun node_sort_key :: "RuntimeNode \<Rightarrow> nat \<times> string \<times> string" where
  "node_sort_key (RootNode r) = (0, [], rr_id r)"
| "node_sort_key (TurnNode s) = (1, rs_timestamp s, rs_id s)"

definition runtime_node_from_dict :: "rs_host \<Rightarrow> pyval \<Rightarrow> rs_error + RuntimeNode" where
  "runtime_node_from_dict h value =
     bind_result (mapping value) (\<lambda>raw.
     if keys raw = {''session_id'', ''thread_id'', ''id''}
     then bind_result (root_from_dict (PDict raw)) (\<lambda>r. Inr (RootNode r))
     else bind_result (state_from_dict h (PDict raw)) (\<lambda>s. Inr (TurnNode s)))"

definition runtime_node_to_dict :: "RuntimeNode \<Rightarrow> pydict" where
  "runtime_node_to_dict n = (case n of RootNode r \<Rightarrow> root_to_dict r | TurnNode s \<Rightarrow> state_to_dict s)"

section \<open>Normalisation is idempotent\<close>

lemma py_update_Cons: "py_update d ((k, v) # e) = py_update (AList.update k v d) e"
  by (simp add: py_update_def)

lemma py_update_Nil [simp]: "py_update d [] = d"
  by (simp add: py_update_def)

lemma map_fst_update: "k \<in> keys d \<Longrightarrow> map fst (AList.update k v d) = map fst d"
  by (induction d) auto

lemma map_fst_py_update: "keys e \<subseteq> keys d \<Longrightarrow> map fst (py_update d e) = map fst d"
proof (induction e arbitrary: d)
  case (Cons kv e)
  obtain k v where kv: "kv = (k, v)" by (cases kv)
  have "map fst (AList.update k v d) = map fst d" using Cons.prems kv by (intro map_fst_update) auto
  moreover from this have "keys (AList.update k v d) = keys d" by (metis set_map)
  ultimately show ?case using Cons.IH [of "AList.update k v d"] Cons.prems kv by (simp add: py_update_Cons)
qed simp

lemma py_update_absorb_append:
  "map fst d = map fst m \<Longrightarrow> distinct (map fst (a @ m)) \<Longrightarrow> py_update (a @ d) m = a @ m"
proof (induction m arbitrary: a d)
  case (Cons kv m)
  obtain k v where kv: "kv = (k, v)" by (cases kv)
  from Cons.prems kv obtain w d' where d: "d = (k, w) # d'" "map fst d' = map fst m"
    by (cases d) auto
  have "AList.update k v (a @ (k, w) # d') = a @ (k, v) # d'"
    using Cons.prems d kv by (intro update_split) (auto simp: wf_dict_def)
  with Cons.IH [of d' "a @ [(k, v)]"] Cons.prems d kv show ?case by (simp add: py_update_Cons)
qed simp

lemma py_update_absorb: "map fst d = map fst m \<Longrightarrow> distinct (map fst m) \<Longrightarrow> py_update d m = m"
  using py_update_absorb_append [of d m "[]"] by simp

lemma normalize_model_idem:
  assumes "normalize_model v = Inr m"
  shows "normalize_model (PDict m) = Inr m"
proof -
  have dist: "distinct (map fst DEFAULT_MODEL)" by (simp add: DEFAULT_MODEL_def)
  have fst: "map fst m = map fst DEFAULT_MODEL" and ok: "check_model m = Inr ()"
    using assms by (auto simp: normalize_model_def bind_result_Inr map_fst_py_update split: if_splits)
  then have "keys m = keys DEFAULT_MODEL" by (metis set_map)
  moreover have "py_update DEFAULT_MODEL m = m" using fst dist by (intro py_update_absorb) simp_all
  ultimately show ?thesis using ok by (simp add: normalize_model_def mapping_def)
qed

lemma normalize_usage_idem:
  assumes "normalize_usage v = Inr u"
  shows "normalize_usage (PDict u) = Inr u"
proof -
  let ?null = "map (\<lambda>n. (n, PNone)) USAGE_FIELDS"
  from assms obtain raw where raw: "\<forall>(n, v) \<in> set raw. usage_ok v" and u: "u = map (\<lambda>n. (n, py_get raw n)) USAGE_FIELDS"
    by (auto simp: normalize_usage_def bind_result_Inr)
  have fst: "map fst u = USAGE_FIELDS" by (simp add: u comp_def)
  have dist: "distinct USAGE_FIELDS" by (simp add: USAGE_FIELDS_def)
  have get: "py_get raw n = PNone \<or> usage_ok (py_get raw n)" for n
    using raw by (auto simp: py_get_def split: option.splits dest: map_of_SomeD)
  have "py_update ?null u = u" by (rule py_update_absorb) (simp_all add: fst dist comp_def)
  moreover have "keys u = set USAGE_FIELDS" using fst by (metis set_map)
  moreover have "\<forall>(n, v) \<in> set u. usage_ok v" using get by (auto simp: u usage_ok_def)
  moreover have "map (\<lambda>n. (n, py_get u n)) USAGE_FIELDS = u"
  proof -
    have "py_get u n = py_get raw n" if "n \<in> set USAGE_FIELDS" for n
      using that by (simp add: u py_get_def map_of_map_restrict)
    then show ?thesis by (simp add: u)
  qed
  ultimately show ?thesis by (simp add: normalize_usage_def mapping_def)
qed

text \<open>What the platform promises: a resolved directory is not empty and resolves to itself.\<close>

definition host_ok :: "rs_host \<Rightarrow> bool" where
  "host_ok h \<longleftrightarrow> (\<forall>c p. rh_cwd h c = Some p \<longrightarrow> p \<noteq> [] \<and> rh_cwd h p = Some p)"

lemma normalize_cwd_idem: "host_ok h \<Longrightarrow> normalize_cwd (rh_cwd h) c = Inr p \<Longrightarrow> normalize_cwd (rh_cwd h) p = Inr p"
  by (auto simp: normalize_cwd_def host_ok_def split: if_splits option.splits)

definition args_of :: "RuntimeState \<Rightarrow> turn_args" where
  "args_of s = \<lparr>ta_thread_id = rs_thread_id s, ta_parent_thread_id = rs_parent_thread_id s,
     ta_session_id = rs_session_id s, ta_parent_session_id = rs_parent_session_id s, ta_id = rs_id s,
     ta_parent_id = rs_parent_id s, ta_version = rs_version s,
     ta_first_kept_item_size = PInt (rs_first_kept_item_size s), ta_compaction_id = rs_compaction_id s,
     ta_user = rs_user s, ta_provider_name = rs_provider_name s, ta_model = PDict (rs_model s),
     ta_permission_mode = PStr (rs_permission_mode s), ta_running_mode = PStr (rs_running_mode s),
     ta_usage = PDict (rs_usage s), ta_cwd = rs_cwd s, ta_project_cwd = rs_project_cwd s,
     ta_timestamp = rs_timestamp s, ta_status = PStr (rs_status s),
     ta_current_data_idx = PInt (rs_current_data_idx s), ta_data = data_value (rs_data s)\<rparr>"

text \<open>The invariant of a constructed turn.\<close>

definition state_ok :: "rs_host \<Rightarrow> RuntimeState \<Rightarrow> bool" where
  "state_ok h s \<longleftrightarrow> rs_thread_id s \<noteq> [] \<and> rs_session_id s \<noteq> [] \<and> rs_id s \<noteq> [] \<and> rs_version s = APP_VERSION \<and>
     rs_status s \<in> NODE_STATUSES \<and> rs_permission_mode s \<in> PERMISSION_MODES \<and> rs_running_mode s \<in> RUNNING_MODES \<and>
     parents_ok (args_of s) \<and> 0 \<le> rs_first_kept_item_size s \<and> rs_compaction_id s \<noteq> [] \<and>
     rh_timestamp h (rs_timestamp s) \<and> normalize_cwd (rh_cwd h) (rs_cwd s) = Inr (rs_cwd s) \<and>
     normalize_cwd (rh_cwd h) (rs_project_cwd s) = Inr (rs_project_cwd s) \<and>
     normalize_model (PDict (rs_model s)) = Inr (rs_model s) \<and>
     normalize_usage (PDict (rs_usage s)) = Inr (rs_usage s) \<and> turn_ok (rs_data s) \<and>
     0 \<le> rs_current_data_idx s \<and> rs_current_data_idx s < int (length (rs_data s)) \<and>
     (rs_status s \<noteq> ''running'' \<longrightarrow> settled (rs_data s))"

lemma int_of_Inr: "int_of v = Inr i \<longleftrightarrow> v = PInt i"
  by (cases v) (auto simp: int_of_def)

lemma parents_ok_cong:
  "rs_parent_id s = ta_parent_id a \<Longrightarrow> rs_parent_session_id s = ta_parent_session_id a \<Longrightarrow>
   rs_thread_id s = ta_thread_id a \<Longrightarrow> rs_session_id s = ta_session_id a \<Longrightarrow>
   rs_parent_thread_id s = ta_parent_thread_id a \<Longrightarrow> parents_ok (args_of s) = parents_ok a"
  by (simp add: parents_ok_def args_of_def)

lemma post_init_ok:
  assumes "host_ok h" "post_init h a = Inr s"
  shows "state_ok h s"
proof -
  have "parents_ok (args_of s) = parents_ok a"
    using assms(2) by (intro parents_ok_cong) (auto simp: post_init_def bind_result_Inr)
  with assms(2) normalize_cwd_idem [OF assms(1)] normalize_model_idem normalize_usage_idem validate_data_turn_ok
  show ?thesis
    by (auto simp: post_init_def bind_result_Inr check_member_Inr int_of_Inr state_ok_def split: if_splits)
qed

lemma state_ok_post_init:
  assumes "state_ok h s"
  shows "post_init h (args_of s) = Inr s"
proof -
  have mem: "check_member (PStr (rs_status s)) NODE_STATUSES = Inr ()"
    "check_member (PStr (rs_permission_mode s)) PERMISSION_MODES = Inr ()"
    "check_member (PStr (rs_running_mode s)) RUNNING_MODES = Inr ()"
    using assms by (simp_all add: state_ok_def check_member_Inr)
  have d: "validate_data (data_value (rs_data s)) = Inr (rs_data s)"
    using assms by (simp add: state_ok_def turn_ok_validate)
  have p: "parents_ok (args_of s)" using assms by (simp add: state_ok_def)
  show ?thesis
    using assms p
    by (cases s) (simp add: post_init_def args_of_def state_ok_def mem [simplified] check_def int_of_def
        d [simplified] check_member_def unhashable_def turn_ok_validate)
qed

lemma string_field_PStr: "map_of d k = Some (PStr s) \<Longrightarrow> string_field d k x = Inr s"
  by (simp add: string_field_def)

lemma state_from_to_dict: "state_from_dict h (PDict (state_to_dict s)) = post_init h (args_of s)"
proof -
  let ?d = "state_to_dict s"
  have m: "mapping (PDict ?d) = Inr ?d" by (simp add: mapping_def)
  have k: "check (set state_fields \<subseteq> keys ?d) = Inr ()"
    by (simp add: state_fields_def state_to_dict_def check_def)
  have strs: "string_field ?d ''thread_id'' [] = Inr (rs_thread_id s)"
    "string_field ?d ''parent_thread_id'' [] = Inr (rs_parent_thread_id s)"
    "string_field ?d ''session_id'' [] = Inr (rs_session_id s)"
    "string_field ?d ''parent_session_id'' [] = Inr (rs_parent_session_id s)"
    "string_field ?d ''id'' [] = Inr (rs_id s)" "string_field ?d ''parent_id'' [] = Inr (rs_parent_id s)"
    "string_field ?d ''version'' [] = Inr (rs_version s)" "string_field ?d ''compactionId'' [] = Inr (rs_compaction_id s)"
    "string_field ?d ''user'' [] = Inr (rs_user s)" "string_field ?d ''provider_name'' [] = Inr (rs_provider_name s)"
    "string_field ?d ''cwd'' [] = Inr (rs_cwd s)" "string_field ?d ''project_cwd'' [] = Inr (rs_project_cwd s)"
    "string_field ?d ''timestamp'' [] = Inr (rs_timestamp s)"
    by (simp_all add: state_to_dict_def string_field_PStr)
  have vals: "py_get ?d ''model'' = PDict (rs_model s)" "py_get ?d ''usage'' = PDict (rs_usage s)"
    "py_get ?d ''firstKeptItemSize'' = PInt (rs_first_kept_item_size s)"
    "py_get ?d ''permission_mode'' = PStr (rs_permission_mode s)"
    "py_get ?d ''running_mode'' = PStr (rs_running_mode s)" "py_get ?d ''status'' = PStr (rs_status s)"
    "py_get ?d ''current_data_idx'' = PInt (rs_current_data_idx s)" "py_get ?d ''data'' = data_value (rs_data s)"
    by (simp_all add: state_to_dict_def py_get_def)
  show ?thesis
    unfolding state_from_dict_def m k strs vals bind_result_simps by (simp add: mapping_def args_of_def)
qed

lemma revalidate_ok: "state_ok h s \<Longrightarrow> revalidate h s = Inr s"
  by (simp add: revalidate_def state_from_to_dict state_ok_post_init)

lemma revalidate_Inr_ok: "host_ok h \<Longrightarrow> revalidate h s = Inr s' \<Longrightarrow> state_ok h s'"
  unfolding revalidate_def state_from_to_dict by (rule post_init_ok)

definition node_ok :: "rs_host \<Rightarrow> RuntimeNode \<Rightarrow> bool" where
  "node_ok h n = (case n of RootNode r \<Rightarrow> root_post_init r = Inr r | TurnNode s \<Rightarrow> state_ok h s)"

lemma root_roundtrip: "root_post_init r = Inr r \<Longrightarrow> root_from_dict (PDict (root_to_dict r)) = Inr r"
  by (cases r) (auto simp: root_from_dict_def mapping_def root_to_dict_def string_field_def check_def)

lemma state_keys: "keys (state_to_dict s) \<noteq> {''session_id'', ''thread_id'', ''id''}"
proof
  assume "keys (state_to_dict s) = {''session_id'', ''thread_id'', ''id''}"
  moreover have "''data'' \<in> keys (state_to_dict s)" by (simp add: state_to_dict_def)
  ultimately show False by simp
qed

lemma node_roundtrip:
  assumes "node_ok h n"
  shows "runtime_node_from_dict h (PDict (runtime_node_to_dict n)) = Inr n"
proof (cases n)
  case (RootNode r)
  have "keys (root_to_dict r) = {''session_id'', ''thread_id'', ''id''}" by (auto simp: root_to_dict_def)
  with assms RootNode root_roundtrip [of r] show ?thesis
    by (simp add: runtime_node_from_dict_def runtime_node_to_dict_def node_ok_def mapping_def)
next
  case (TurnNode s)
  with assms state_keys [of s] revalidate_ok [of h s] show ?thesis
    by (simp add: runtime_node_from_dict_def runtime_node_to_dict_def node_ok_def mapping_def revalidate_def)
qed

text \<open>
  C36. A node survives storage: whatever arguments a turn was constructed from, the dictionary form
  of the constructed turn parses back to the same turn, through the strict union that storage and
  the list API use; so cloning and reloading never change a turn. The only assumption is that a
  resolved working directory resolves to itself.
\<close>

theorem turn_roundtrip:
  assumes "host_ok h" "post_init h a = Inr s"
  shows "runtime_node_from_dict h (PDict (state_to_dict s)) = Inr (TurnNode s) \<and> revalidate h s = Inr s"
  using node_roundtrip [of h "TurnNode s"] post_init_ok [OF assms] revalidate_ok
  by (simp add: node_ok_def runtime_node_to_dict_def)

definition flat_rs_host :: rs_host where
  "flat_rs_host = \<lparr>rh_cwd = (\<lambda>c. if take 1 c = ''/'' then Some c else None), rh_timestamp = (\<lambda>_. True)\<rparr>"

lemma flat_rs_host_ok: "host_ok flat_rs_host"
  by (auto simp: host_ok_def flat_rs_host_def split: if_splits)

definition sample_create :: "RuntimeNode option \<Rightarrow> string \<Rightarrow> create_args" where
  "sample_create parent i = \<lparr>ca_session_id = ''s'', ca_thread_id = ''s'', ca_user_content = PStr ''hi'',
     ca_parent = parent, ca_id = i, ca_user = [], ca_provider_name = [], ca_model = [],
     ca_permission_mode = PStr ''read_only'', ca_running_mode = PStr ''agent'', ca_cwd = ''/w'',
     ca_project_cwd = [], ca_first_kept_item_size = PInt 8, ca_compaction_id = [], ca_data = PNone,
     ca_status = PStr ''running'', ca_timestamp = ''0''\<rparr>"

definition sample_root :: RuntimeRootState where
  "sample_root = \<lparr>rr_session_id = ''s'', rr_thread_id = ''s'', rr_id = ''r''\<rparr>"

definition sample_state :: RuntimeState where
  "sample_state = projr (state_create flat_rs_host ''f'' ''0'' (sample_create (Some (RootNode sample_root)) ''a''))"

lemma sample_state_ok: "post_init flat_rs_host (args_of sample_state) = Inr sample_state"
  by code_simp

theorem turn_roundtrip_witness:
  "runtime_node_from_dict flat_rs_host (PDict (state_to_dict sample_state)) = Inr (TurnNode sample_state)"
  using turn_roundtrip [OF flat_rs_host_ok sample_state_ok] by blast

text \<open>A turn that has stopped is complete: whatever it was constructed from, a turn whose status is
  not \<open>running\<close> ends every version with an assistant message and contains no running item, and
  its selected version exists.
\<close>

theorem stopped_turn_settled:
  assumes "host_ok h" "post_init h a = Inr s"
  shows "rs_data s \<noteq> [] \<and> nat (rs_current_data_idx s) < length (rs_data s) \<and>
    (is_terminal s \<longrightarrow> (\<forall>ms \<in> set (rs_data s). message_role (last ms) = PStr ''assistant'' \<and>
       (\<forall>m \<in> set ms. \<forall>it \<in> set (message_items m). py_get it ''status'' \<noteq> PStr ''running'')))"
  using post_init_ok [OF assms] by (auto simp: state_ok_def turn_ok_def is_terminal_def settled_def)

theorem stopped_turn_settled_witness:
  "\<exists>s. post_init flat_rs_host ((args_of sample_state)\<lparr>ta_status := PStr ''success''\<rparr>) = Inr s \<and>
     (\<forall>ms \<in> set (rs_data s). message_role (last ms) = PStr ''assistant'')"
proof -
  have "(case post_init flat_rs_host ((args_of sample_state)\<lparr>ta_status := PStr ''success''\<rparr>) of
      Inl _ \<Rightarrow> False | Inr s \<Rightarrow> rs_status s = ''success'')" by code_simp
  then obtain s where s: "post_init flat_rs_host ((args_of sample_state)\<lparr>ta_status := PStr ''success''\<rparr>) = Inr s"
    "rs_status s = ''success''" by (auto split: sum.splits)
  from stopped_turn_settled [OF flat_rs_host_ok s(1)] s show ?thesis by (auto simp: is_terminal_def)
qed

end
