(* ===== verification/NodeTree.thy ===== *)
theory NodeTree
  imports TurnModels "HOL-Library.Product_Lexorder" "HOL-Library.Sublist"
begin

text \<open>
  \<open>domain/runtime_state/tree.py\<close>: the in-memory node store and the tree operations over stored
  nodes. A store is the dictionary from \<open>(session, id)\<close> to nodes in insertion order. Stored nodes
  are constructed values, so \<open>clone()\<close> is the identity (\<open>revalidate_ok\<close>).
\<close>

type_synonym tree_key = "string \<times> string"
type_synonym nodes = "(tree_key, RuntimeNode) dict"

fun is_root :: "RuntimeNode \<Rightarrow> bool" where
  "is_root (RootNode r) = True"
| "is_root (TurnNode s) = False"

section \<open>The in-memory store\<close>

definition root_count :: "nodes \<Rightarrow> string \<Rightarrow> nat" where
  "root_count ns session_id = length (filter (\<lambda>n. is_root n \<and> node_session_id n = session_id) (dict_values ns))"

definition validate_root_counts :: "nodes \<Rightarrow> rs_error + unit" where
  "validate_root_counts ns = check (\<forall>n \<in> set (dict_values ns). root_count ns (node_session_id n) \<le> 1)"

definition index_nodes :: "RuntimeNode list \<Rightarrow> nodes" where
  "index_nodes xs = foldl (\<lambda>d n. AList.update (node_key n) n d) [] xs"

definition new_store :: "RuntimeNode list \<Rightarrow> rs_error + nodes" where
  "new_store xs = bind_result (validate_root_counts (index_nodes xs)) (\<lambda>_. Inr (index_nodes xs))"

definition ensure_root_node :: "string \<Rightarrow> string \<Rightarrow> string option \<Rightarrow> nodes \<Rightarrow> rs_error + nodes \<times> RuntimeRootState" where
  "ensure_root_node fresh session_id i ns =
     (case filter (\<lambda>n. node_session_id n = session_id \<and> is_root n) (dict_values ns) of
        RootNode r # rest \<Rightarrow> if rest \<noteq> [] then Inl ValidationError else Inr (ns, r)
      | _ \<Rightarrow>
         if \<exists>n \<in> set (dict_values ns). node_session_id n = session_id then Inl ValidationError
         else bind_result (root_create fresh session_id i) (\<lambda>r.
           Inr (AList.update (node_key (RootNode r)) (RootNode r) ns, r)))"

definition create_node :: "RuntimeState \<Rightarrow> nodes \<Rightarrow> rs_error + nodes" where
  "create_node s ns =
     (if map_of ns (rs_session_id s, rs_id s) \<noteq> None then Inl RsValueError
      else if rs_parent_id s = [] then Inl RsValueError
      else case map_of ns (rs_parent_session_id s, rs_parent_id s) of
          None \<Rightarrow> Inl RsValueError
        | Some parent \<Rightarrow>
            if rs_parent_session_id s \<noteq> rs_session_id s then Inl RsValueError
            else if rs_parent_thread_id s \<noteq> node_thread_id parent then Inl RsValueError
            else if (\<exists>n \<in> set (dict_values ns). \<not> is_root n \<and> node_thread_id n = rs_thread_id s \<and>
                       (case n of TurnNode t \<Rightarrow> rs_status t = ''running'' | RootNode _ \<Rightarrow> False))
            then Inl RsValueError
            else Inr (AList.update (rs_session_id s, rs_id s) (TurnNode s) ns))"

definition update_node :: "RuntimeState \<Rightarrow> nodes \<Rightarrow> rs_error + nodes" where
  "update_node s ns =
     (if map_of ns (rs_session_id s, rs_id s) = None then Inl RsKeyError
      else Inr (AList.update (rs_session_id s, rs_id s) (TurnNode s) ns))"

definition get_node :: "string \<Rightarrow> string \<Rightarrow> nodes \<Rightarrow> RuntimeNode option" where
  "get_node session_id i ns = map_of ns (session_id, i)"

definition find_node :: "string \<Rightarrow> nodes \<Rightarrow> rs_error + RuntimeNode option" where
  "find_node i ns = (case filter (\<lambda>n. node_id n = i) (dict_values ns) of
      [] \<Rightarrow> Inr None | [n] \<Rightarrow> Inr (Some n) | _ \<Rightarrow> Inl ValidationError)"

definition load_nodes :: "string \<Rightarrow> nodes \<Rightarrow> RuntimeNode list" where
  "load_nodes session_id ns =
     sort_key node_sort_key (filter (\<lambda>n. node_session_id n = session_id) (dict_values ns))"

section \<open>Ancestors\<close>

text \<open>The loop of \<open>ancestors\<close>: the path from a node up to its root. It ends because every round
  either stops or adds a new key to \<open>seen\<close>.\<close>

function ancestors_loop :: "nodes \<Rightarrow> RuntimeNode \<Rightarrow> tree_key set \<Rightarrow> rs_error + RuntimeNode list" where
  "ancestors_loop ns current seen =
     (if node_key current \<in> seen then Inl ValidationError
      else case current of
          RootNode r \<Rightarrow> Inr [current]
        | TurnNode s \<Rightarrow>
            if rs_parent_id s = [] then Inl ValidationError
            else case map_of ns (rs_parent_session_id s, rs_parent_id s) of
                None \<Rightarrow> Inl ValidationError
              | Some parent \<Rightarrow>
                  if rs_parent_session_id s \<noteq> rs_session_id s then Inl ValidationError
                  else if rs_parent_thread_id s \<noteq> node_thread_id parent then Inl ValidationError
                  else bind_result (ancestors_loop ns parent (insert (node_key current) seen))
                         (\<lambda>path. Inr (current # path)))"
  by pat_completeness auto

termination
proof (relation "measure (\<lambda>(ns, current, seen).
    card (insert (node_key current) (node_key ` set (dict_values ns)) - seen))", goal_cases)
  case (2 ns current seen s parent)
  let ?U = "node_key ` set (dict_values ns)"
  from 2 have "(\<lambda>k. map_of ns k) (rs_parent_session_id s, rs_parent_id s) = Some parent" by simp
  then have "parent \<in> set (dict_values ns)" by (metis map_of_SomeD image_eqI snd_conv set_map)
  then have "insert (node_key parent) ?U = ?U" by auto
  moreover have "?U - insert (node_key current) seen \<subset> insert (node_key current) ?U - seen"
    using 2(1) by auto
  ultimately show ?case by (auto intro: psubset_card_mono)
qed simp

declare ancestors_loop.simps [simp del]

definition ancestors :: "nodes \<Rightarrow> RuntimeNode \<Rightarrow> rs_error + RuntimeNode list" where
  "ancestors ns source = bind_result (ancestors_loop ns source {}) (\<lambda>path. Inr (rev path))"

definition tree_get :: "nodes \<Rightarrow> string \<Rightarrow> string \<Rightarrow> rs_error + RuntimeNode" where
  "tree_get ns session_id i = (case map_of ns (session_id, i) of None \<Rightarrow> Inl RsKeyError | Some n \<Rightarrow> Inr n)"

fun node_items :: "RuntimeNode \<Rightarrow> pydict list" where
  "node_items (RootNode r) = []"
| "node_items (TurnNode s) = concat (map message_items (selected_messages s))"

definition path_items :: "RuntimeNode list \<Rightarrow> pydict list" where
  "path_items turns = concat (map node_items turns)"

definition turns_of :: "RuntimeNode list \<Rightarrow> RuntimeState list" where
  "turns_of ns = concat (map (\<lambda>n. case n of RootNode _ \<Rightarrow> [] | TurnNode s \<Rightarrow> [s]) ns)"

text \<open>The last index of a node with the given id, if any: \<open>matches[-1]\<close>.\<close>

definition last_index :: "string \<Rightarrow> RuntimeNode list \<Rightarrow> nat option" where
  "last_index i path = (case filter (\<lambda>k. node_id (path ! k) = i) [0..<length path] of
      [] \<Rightarrow> None | ks \<Rightarrow> Some (last ks))"

definition model_input :: "nodes \<Rightarrow> RuntimeNode \<Rightarrow> rs_error + RuntimeState list" where
  "model_input ns source =
     bind_result (ancestors ns source) (\<lambda>path.
     case last path of
       RootNode _ \<Rightarrow> Inl ValidationError
     | TurnNode current \<Rightarrow>
         (case last_index (rs_compaction_id current) path of
            None \<Rightarrow> Inl ValidationError
          | Some k \<Rightarrow> Inr (turns_of (drop k path))))"

definition compact :: "rs_host \<Rightarrow> string \<Rightarrow> string \<Rightarrow> nodes \<Rightarrow> RuntimeState \<Rightarrow> string \<Rightarrow> string option
    \<Rightarrow> rs_error + RuntimeState" where
  "compact h fresh now ns source summary i =
     bind_result (ancestors ns (TurnNode source)) (\<lambda>path.
     case last_index (rs_compaction_id source) path of
       None \<Rightarrow> Inl ValidationError
     | Some k \<Rightarrow>
         (let its = path_items (drop k path);
              kept = (if rs_first_kept_item_size source = 0 then []
                      else drop (length its - nat (rs_first_kept_item_size source)) its) in
          bind_result (message_payload ''assistant''
            (PList (map PDict (compaction_payload summary kept # kept))) []) (\<lambda>assistant.
          bind_result (state_create h fresh now
            \<lparr>ca_session_id = rs_session_id source, ca_thread_id = rs_thread_id source,
             ca_user_content = py_get (user_message source) ''content'', ca_parent = Some (TurnNode source),
             ca_id = (case i of None \<Rightarrow> [] | Some s \<Rightarrow> s), ca_user = rs_user source,
             ca_provider_name = rs_provider_name source, ca_model = rs_model source,
             ca_permission_mode = PStr (rs_permission_mode source), ca_running_mode = PStr (rs_running_mode source),
             ca_cwd = rs_cwd source, ca_project_cwd = rs_project_cwd source,
             ca_first_kept_item_size = PInt (rs_first_kept_item_size source), ca_compaction_id = [],
             ca_data = data_value [[user_message source, assistant]], ca_status = PStr ''running'',
             ca_timestamp = []\<rparr>) (\<lambda>result.
            Inr (result\<lparr>rs_compaction_id := rs_id result\<rparr>)))))"

definition fork :: "rs_host \<Rightarrow> string \<Rightarrow> string \<Rightarrow> string \<Rightarrow> nodes \<Rightarrow> RuntimeState \<Rightarrow> string option \<Rightarrow> string option
    \<Rightarrow> rs_error + RuntimeState" where
  "fork h fresh fresh_thread now ns source i thread_id =
     bind_result (if rs_parent_id source = [] then Inr None
       else bind_result (tree_get ns (rs_parent_session_id source) (rs_parent_id source)) (\<lambda>p. Inr (Some p))) (\<lambda>parent.
     let new_id = (case i of None \<Rightarrow> fresh | Some s \<Rightarrow> if s = [] then fresh else s) in
     revalidate h (source\<lparr>rs_id := new_id,
       rs_thread_id := (case thread_id of None \<Rightarrow> fresh_thread | Some s \<Rightarrow> if s = [] then fresh_thread else s),
       rs_parent_thread_id := (case parent of None \<Rightarrow> [] | Some p \<Rightarrow> node_thread_id p),
       rs_parent_id := (case parent of None \<Rightarrow> [] | Some p \<Rightarrow> node_id p),
       rs_parent_session_id := (case parent of None \<Rightarrow> [] | Some p \<Rightarrow> node_session_id p),
       rs_timestamp := now,
       rs_compaction_id := (if rs_compaction_id source = rs_id source then new_id else rs_compaction_id source)\<rparr>))"

definition all_nodes :: "string option \<Rightarrow> nodes \<Rightarrow> RuntimeNode list" where
  "all_nodes session_id ns = sort_key node_sort_key
     (filter (\<lambda>n. session_id = None \<or> Some (node_session_id n) = session_id) (dict_values ns))"

section \<open>Properties of ancestor paths\<close>

definition child_of :: "RuntimeNode \<Rightarrow> RuntimeNode \<Rightarrow> bool" where
  "child_of n p = (case n of RootNode _ \<Rightarrow> False | TurnNode s \<Rightarrow>
     rs_parent_session_id s = rs_session_id s \<and> rs_parent_thread_id s = node_thread_id p)"

text \<open>A path upwards: each node is followed by the stored node its parent fields name, and it ends at
  a root.\<close>

fun up_path :: "nodes \<Rightarrow> RuntimeNode list \<Rightarrow> bool" where
  "up_path ns [] = False"
| "up_path ns [n] = is_root n"
| "up_path ns (n # p # path) = ((case n of RootNode _ \<Rightarrow> False
     | TurnNode s \<Rightarrow> map_of ns (rs_parent_session_id s, rs_parent_id s) = Some p) \<and> child_of n p \<and> up_path ns (p # path))"

lemma ancestors_loop_sound:
  "ancestors_loop ns current seen = Inr path \<Longrightarrow> up_path ns path \<and> hd path = current \<and>
     distinct (map node_key path) \<and> set (map node_key path) \<inter> seen = {}"
proof (induction ns current seen arbitrary: path rule: ancestors_loop.induct)
  case (1 ns current seen)
  have new: "node_key current \<notin> seen" using "1.prems" by (subst (asm) ancestors_loop.simps) (auto split: if_splits)
  show ?case
  proof (cases current)
    case (RootNode r)
    with "1.prems" new have "path = [current]" by (subst (asm) ancestors_loop.simps) simp
    with RootNode new show ?thesis by simp
  next
    case (TurnNode s)
    from "1.prems" new TurnNode obtain parent rest where
      p: "rs_parent_id s \<noteq> []" "map_of ns (rs_parent_session_id s, rs_parent_id s) = Some parent"
        "rs_parent_session_id s = rs_session_id s" "rs_parent_thread_id s = node_thread_id parent"
      and r: "ancestors_loop ns parent (insert (node_key current) seen) = Inr rest" "path = current # rest"
      by (subst (asm) ancestors_loop.simps) (auto simp: bind_result_Inr split: if_splits option.splits)
    from "1.IH" [OF new TurnNode p(1) p(2) _ _ r(1)] p(3,4)
    have IH: "up_path ns rest" "hd rest = parent" "distinct (map node_key rest)"
      "set (map node_key rest) \<inter> insert (node_key current) seen = {}" by auto
    then obtain q qs where "rest = q # qs" by (cases rest) auto
    with IH p r TurnNode new show ?thesis by (auto simp: child_of_def)
  qed
qed

lemma ancestors_path:
  assumes "ancestors ns source = Inr path"
  shows "path \<noteq> [] \<and> is_root (hd path) \<and> last path = source \<and> distinct (map node_key path) \<and> up_path ns (rev path)"
proof -
  from assms obtain up where up: "ancestors_loop ns source {} = Inr up" "path = rev up"
    by (auto simp: ancestors_def bind_result_Inr)
  have root: "up_path ns xs \<Longrightarrow> xs \<noteq> [] \<and> is_root (last xs)" for xs
    by (induction ns xs rule: up_path.induct) auto
  from ancestors_loop_sound [OF up(1)] root [of up] show ?thesis
    by (auto simp: up(2) hd_rev last_rev rev_map [symmetric])
qed

text \<open>The ancestors of a node are its real history: the path starts at a root, ends with the node
  itself, visits no node twice, and each node on it is the stored parent of the next one, in the
  same session and with the recorded parent thread. The search always ends, cycles included.
\<close>

theorem ancestors_correct:
  assumes "ancestors ns source = Inr path"
  shows "path \<noteq> [] \<and> is_root (hd path) \<and> last path = source \<and> distinct (map node_key path) \<and> up_path ns (rev path)"
  using assms by (rule ancestors_path)

section \<open>The store keeps the history linked\<close>

text \<open>Every stored turn comes after its parent in insertion order, in the same session and with the
  recorded parent thread; a session has at most one root, and keys name their nodes.\<close>

definition linked :: "nodes \<Rightarrow> bool" where
  "linked ns \<longleftrightarrow> (\<forall>xs k s ys. ns = xs @ (k, TurnNode s) # ys \<longrightarrow> rs_parent_id s \<noteq> [] \<and>
     rs_parent_session_id s = rs_session_id s \<and>
     (\<exists>p. map_of xs (rs_parent_session_id s, rs_parent_id s) = Some p \<and> rs_parent_thread_id s = node_thread_id p))"

definition keyed :: "nodes \<Rightarrow> bool" where
  "keyed ns \<longleftrightarrow> wf_dict ns \<and> (\<forall>(k, n) \<in> set ns. node_key n = k)"

definition store_inv :: "nodes \<Rightarrow> bool" where
  "store_inv ns \<longleftrightarrow> keyed ns \<and> linked ns \<and> (\<forall>session. root_count ns session \<le> 1)"

text \<open>Appending and replacing keep the links.\<close>

lemma linked_append_turn:
  assumes "linked ns" "rs_parent_id s \<noteq> []" "rs_parent_session_id s = rs_session_id s"
    and "map_of ns (rs_parent_session_id s, rs_parent_id s) = Some p" "rs_parent_thread_id s = node_thread_id p"
  shows "linked (ns @ [(k, TurnNode s)])"
  unfolding linked_def
proof (intro allI impI)
  fix xs k' t ys assume eq: "ns @ [(k, TurnNode s)] = xs @ (k', TurnNode t) # ys"
  show "rs_parent_id t \<noteq> [] \<and> rs_parent_session_id t = rs_session_id t \<and>
     (\<exists>p. map_of xs (rs_parent_session_id t, rs_parent_id t) = Some p \<and> rs_parent_thread_id t = node_thread_id p)"
  proof (cases ys rule: rev_cases)
    case Nil
    with eq assms show ?thesis by auto
  next
    case (snoc zs z)
    with eq have "ns = xs @ (k', TurnNode t) # zs" by (metis append_Cons append_assoc butlast_snoc)
    with assms(1) show ?thesis unfolding linked_def by blast
  qed
qed

lemma linked_append_root:
  assumes "linked ns"
  shows "linked (ns @ [(k, RootNode r)])"
  unfolding linked_def
proof (intro allI impI)
  fix xs k' t ys assume eq: "ns @ [(k, RootNode r)] = xs @ (k', TurnNode t) # ys"
  then obtain zs z where "ys = zs @ [z]" by (cases ys rule: rev_cases) auto
  with eq have "ns = xs @ (k', TurnNode t) # zs" by (metis append_Cons append_assoc butlast_snoc)
  with assms show "rs_parent_id t \<noteq> [] \<and> rs_parent_session_id t = rs_session_id t \<and>
     (\<exists>p. map_of xs (rs_parent_session_id t, rs_parent_id t) = Some p \<and> rs_parent_thread_id t = node_thread_id p)"
    unfolding linked_def by blast
qed

text \<open>Two versions of a turn that agree on identity and parents.\<close>

definition same_identity :: "RuntimeState \<Rightarrow> RuntimeState \<Rightarrow> bool" where
  "same_identity s t \<longleftrightarrow> rs_session_id s = rs_session_id t \<and> rs_id s = rs_id t \<and> rs_thread_id s = rs_thread_id t \<and>
     rs_parent_session_id s = rs_parent_session_id t \<and> rs_parent_id s = rs_parent_id t \<and>
     rs_parent_thread_id s = rs_parent_thread_id t"

lemma map_of_replace_thread:
  assumes "map_of (us @ (k, old) # vs) key = Some p" "node_thread_id new = node_thread_id old"
  shows "\<exists>q. map_of (us @ (k, new) # vs) key = Some q \<and> node_thread_id q = node_thread_id p"
  using assms by (induction us) auto

lemma linked_replace:
  assumes "linked (us @ (k, TurnNode old) # vs)" "same_identity new old"
  shows "linked (us @ (k, TurnNode new) # vs)"
  unfolding linked_def
proof (intro allI impI)
  fix xs k' t ys assume eq: "us @ (k, TurnNode new) # vs = xs @ (k', TurnNode t) # ys"
  let ?goal = "rs_parent_id t \<noteq> [] \<and> rs_parent_session_id t = rs_session_id t \<and>
     (\<exists>p. map_of xs (rs_parent_session_id t, rs_parent_id t) = Some p \<and> rs_parent_thread_id t = node_thread_id p)"
  note l = assms(1) [unfolded linked_def, rule_format]
  from eq consider (before) zs where "us = xs @ (k', TurnNode t) # zs"
    | (here) "xs = us" "t = new" "ys = vs"
    | (after) zs where "xs = us @ (k, TurnNode new) # zs" "vs = zs @ (k', TurnNode t) # ys"
    by (auto simp: append_eq_append_conv2 append_eq_Cons_conv Cons_eq_append_conv)
  then show ?goal
  proof cases
    case before
    show ?thesis by (rule l [where ys = "zs @ (k, TurnNode old) # vs"]) (simp add: before)
  next
    case here
    from l [of us k old vs] assms(2) here show ?thesis by (auto simp: same_identity_def)
  next
    case after
    have "us @ (k, TurnNode old) # vs = (us @ (k, TurnNode old) # zs) @ (k', TurnNode t) # ys"
      by (simp add: after(2))
    from l [OF this] obtain p where p: "rs_parent_id t \<noteq> []" "rs_parent_session_id t = rs_session_id t"
      "map_of (us @ (k, TurnNode old) # zs) (rs_parent_session_id t, rs_parent_id t) = Some p"
      "rs_parent_thread_id t = node_thread_id p" by blast
    have "node_thread_id (TurnNode new) = node_thread_id (TurnNode old)"
      using assms(2) by (simp add: same_identity_def)
    from map_of_replace_thread [OF p(3) this] p(1,2,4) show ?thesis unfolding after(1) by metis
  qed
qed

lemma root_count_append: "root_count (ns @ [(k, n)]) session =
    root_count ns session + (if is_root n \<and> node_session_id n = session then 1 else 0)"
  by (simp add: root_count_def)

lemma create_node_inv [inv_intros]:
  assumes "store_inv ns" "create_node s ns = Inr ns'"
  shows "store_inv ns'"
proof -
  from assms(2) obtain parent where c: "map_of ns (rs_session_id s, rs_id s) = None" "rs_parent_id s \<noteq> []"
      "map_of ns (rs_parent_session_id s, rs_parent_id s) = Some parent"
      "rs_parent_session_id s = rs_session_id s" "rs_parent_thread_id s = node_thread_id parent"
    and ns': "ns' = AList.update (rs_session_id s, rs_id s) (TurnNode s) ns"
    by (auto simp: create_node_def split: if_splits option.splits)
  from c(1) have new: "(rs_session_id s, rs_id s) \<notin> keys ns" by (simp add: map_of_None_keys)
  have app: "ns' = ns @ [((rs_session_id s, rs_id s), TurnNode s)]" unfolding ns' by (rule update_new_append [OF new])
  have "keyed ns'" using assms(1) by (auto simp: store_inv_def keyed_def ns' app [unfolded ns'] wf_dict_def node_key_def new)
  moreover have "linked ns'" unfolding app
    by (rule linked_append_turn [OF _ c(2) c(4) c(3) c(5)]) (use assms(1) in \<open>simp add: store_inv_def\<close>)
  ultimately show ?thesis using assms(1) by (simp add: store_inv_def app root_count_append)
qed

lemma ensure_root_node_inv [inv_intros]:
  assumes "store_inv ns" "ensure_root_node fresh session_id i ns = Inr (ns', r)"
  shows "store_inv ns'"
proof (cases "filter (\<lambda>n. node_session_id n = session_id \<and> is_root n) (dict_values ns)")
  case (Cons n rest)
  then have "n \<in> set (filter (\<lambda>n. node_session_id n = session_id \<and> is_root n) (dict_values ns))" by simp
  then have "is_root n" by simp
  then obtain r0 where "n = RootNode r0" by (cases n) auto
  with Cons assms show ?thesis by (simp add: ensure_root_node_def split: if_splits)
next
  case Nil
  with assms(2) have none: "\<forall>n \<in> set (dict_values ns). node_session_id n \<noteq> session_id"
    and r: "root_create fresh session_id i = Inr r" and ns': "ns' = AList.update (node_key (RootNode r)) (RootNode r) ns"
    by (auto simp: ensure_root_node_def bind_result_Inr split: if_splits)
  have rs: "rr_session_id r = session_id" using r by (auto simp: root_create_def root_post_init_def bind_result_Inr)
  have new: "node_key (RootNode r) \<notin> keys ns"
  proof
    assume "node_key (RootNode r) \<in> keys ns"
    then obtain n where "(node_key (RootNode r), n) \<in> set ns" by auto
    moreover from this have "node_key n = node_key (RootNode r)" using assms(1) by (auto simp: store_inv_def keyed_def)
    ultimately show False using none rs by (force simp: node_key_def)
  qed
  have app: "ns' = ns @ [(node_key (RootNode r), RootNode r)]" unfolding ns' by (rule update_new_append [OF new])
  have zero: "root_count ns session_id = 0" using none by (auto simp: root_count_def filter_empty_conv)
  have "keyed ns'" using assms(1) new by (auto simp: store_inv_def keyed_def app wf_dict_def)
  moreover have "linked ns'" unfolding app
    by (rule linked_append_root) (use assms(1) in \<open>simp add: store_inv_def\<close>)
  moreover have "root_count ns' session \<le> 1" for session
    using assms(1) zero rs by (auto simp: store_inv_def app root_count_append)
  ultimately show ?thesis by (simp add: store_inv_def)
qed

lemma update_node_inv [inv_intros]:
  assumes "store_inv ns" "update_node s ns = Inr ns'"
    and old: "map_of ns (rs_session_id s, rs_id s) = Some (TurnNode t)" "same_identity s t"
  shows "store_inv ns'"
proof -
  let ?k = "(rs_session_id s, rs_id s)"
  from old(1) obtain us vs where ns: "ns = us @ (?k, TurnNode t) # vs" by (rule map_of_splitE)
  have wf: "wf_dict ns" using assms(1) by (simp add: store_inv_def keyed_def)
  have ns': "ns' = us @ (?k, TurnNode s) # vs"
    using assms(2) update_split [OF wf [unfolded ns]] by (auto simp: update_node_def ns split: if_splits)
  have "keyed ns'"
    using assms(1) by (auto simp: store_inv_def keyed_def ns ns' wf_dict_def node_key_def)
  moreover have "linked ns'" unfolding ns'
    by (rule linked_replace [OF _ old(2)]) (use assms(1) in \<open>simp add: store_inv_def ns\<close>)
  moreover have "root_count ns' session = root_count ns session" for session
    by (simp add: root_count_def ns ns')
  ultimately show ?thesis using assms(1) by (simp add: store_inv_def)
qed

text \<open>In a linked store every stored node has its ancestors: the walk strictly moves towards the front
  of the dictionary, so it meets no key twice and never misses a parent.\<close>

lemma ancestors_loop_complete:
  assumes "linked ns" "keyed ns" "ns = xs @ (k, n) # ys" "seen \<inter> insert k (keys xs) = {}"
  shows "\<exists>path. ancestors_loop ns n seen = Inr path"
  using assms(3,4)
proof (induction "length xs" arbitrary: xs k n ys seen rule: less_induct)
  case less
  have key: "node_key n = k" using assms(2) less.prems(1) by (auto simp: keyed_def)
  then have new: "node_key n \<notin> seen" using less.prems(2) by auto
  show ?case
  proof (cases n)
    case (RootNode r)
    with new show ?thesis by (subst ancestors_loop.simps) simp
  next
    case (TurnNode s)
    have "ns = xs @ (k, TurnNode s) # ys" using less.prems(1) TurnNode by simp
    with assms(1) obtain p where p: "rs_parent_id s \<noteq> []" "rs_parent_session_id s = rs_session_id s"
      "map_of xs (rs_parent_session_id s, rs_parent_id s) = Some p" "rs_parent_thread_id s = node_thread_id p"
      unfolding linked_def by blast
    let ?pk = "(rs_parent_session_id s, rs_parent_id s)"
    from p(3) obtain us vs where xs: "xs = us @ (?pk, p) # vs" by (rule map_of_splitE)
    have "wf_dict ns" using assms(2) by (simp add: keyed_def)
    then have k: "k \<notin> insert ?pk (keys us)" by (auto simp: less.prems(1) xs wf_dict_def)
    have get: "map_of ns ?pk = Some p"
    proof -
      have "(?pk, p) \<in> set ns" by (simp add: less.prems(1) xs)
      then show ?thesis using \<open>wf_dict ns\<close> by (simp add: wf_dict_map_of_iff)
    qed
    have "\<exists>path. ancestors_loop ns p (insert (node_key n) seen) = Inr path"
      by (rule less.hyps [of us]) (use less.prems xs k key in auto)
    with new p get TurnNode show ?thesis
      by (subst ancestors_loop.simps) (auto simp: bind_result_def)
  qed
qed

lemma ancestors_complete:
  assumes "store_inv ns" "map_of ns k = Some n"
  shows "\<exists>path. ancestors ns n = Inr path"
proof -
  from assms(2) obtain xs ys where "ns = xs @ (k, n) # ys" by (rule map_of_splitE)
  with assms(1) ancestors_loop_complete [of ns xs k n ys "{}"] show ?thesis
    by (auto simp: store_inv_def ancestors_def)
qed

text \<open>Stores reachable by the operations; an update keeps identity and parents, which is what the
  writer guarantees.\<close>

inductive store_reachable :: "nodes \<Rightarrow> bool" where
  sr_empty: "store_reachable []"
| sr_root: "store_reachable ns \<Longrightarrow> ensure_root_node fresh session_id i ns = Inr (ns', r) \<Longrightarrow> store_reachable ns'"
| sr_create: "store_reachable ns \<Longrightarrow> create_node s ns = Inr ns' \<Longrightarrow> store_reachable ns'"
| sr_update: "store_reachable ns \<Longrightarrow> map_of ns (rs_session_id s, rs_id s) = Some (TurnNode t) \<Longrightarrow>
    same_identity s t \<Longrightarrow> update_node s ns = Inr ns' \<Longrightarrow> store_reachable ns'"

lemma store_reachable_inv: "store_reachable ns \<Longrightarrow> store_inv ns"
proof (induction rule: store_reachable.induct)
  case sr_empty
  show ?case by (simp add: store_inv_def keyed_def linked_def root_count_def)
qed (blast intro: ensure_root_node_inv create_node_inv update_node_inv)+

lemma history_complete:
  assumes "store_reachable ns" "get_node session i ns = Some n"
  shows "(\<exists>path. ancestors ns n = Inr path \<and> is_root (hd path) \<and> last path = n \<and>
      (\<forall>a \<in> set path. node_session_id a = session)) \<and> root_count ns session \<le> 1"
proof -
  have inv: "store_inv ns" by (rule store_reachable_inv [OF assms(1)])
  from ancestors_complete [OF inv assms(2) [unfolded get_node_def]]
  obtain path where path: "ancestors ns n = Inr path" by blast
  have keyed: "map_of ns k = Some a \<Longrightarrow> node_key a = k" for k a
    using inv by (auto simp: store_inv_def keyed_def dest: map_of_SomeD)
  have sess: "up_path ns xs \<Longrightarrow> \<forall>a \<in> set xs. node_session_id a = node_session_id (hd xs)" for xs
  proof (induction xs rule: induct_list012)
    case (3 a p xs)
    then obtain s where s: "a = TurnNode s" "rs_parent_session_id s = rs_session_id s"
      "map_of ns (rs_parent_session_id s, rs_parent_id s) = Some p" "up_path ns (p # xs)"
      by (cases a) (auto simp: child_of_def)
    from keyed [OF s(3)] s(1,2) have "node_session_id p = node_session_id a" by (simp add: node_key_def)
    with "3.IH"(2) [OF s(4)] show ?case by simp
  qed auto
  note c = ancestors_path [OF path]
  have "node_session_id n = session"
    using keyed [OF assms(2) [unfolded get_node_def]] by (simp add: node_key_def)
  moreover have "hd (rev path) = n" using c by (simp add: hd_rev)
  ultimately have "\<forall>a \<in> set path. node_session_id a = session" using sess [of "rev path"] c by simp
  with path c inv show ?thesis by (auto simp: store_inv_def)
qed

text \<open>
  C8. History is never broken: in every store built by the operations, every session has at most
  one root, and walking up from any stored node succeeds and ends at a root of the same session.
\<close>

theorem stored_history_complete:
  assumes "store_reachable ns" "get_node session i ns = Some n"
  shows "(\<exists>path. ancestors ns n = Inr path \<and> is_root (hd path) \<and> last path = n \<and>
      (\<forall>a \<in> set path. node_session_id a = session)) \<and> root_count ns session \<le> 1"
  using assms by (rule history_complete)

definition sample_store :: nodes where
  "sample_store = projr (bind_result (ensure_root_node ''r'' ''s'' None []) (\<lambda>(ns, _). create_node sample_state ns))"

lemma sample_store_reachable: "store_reachable sample_store"
proof -
  have "ensure_root_node ''r'' ''s'' None [] = Inr ([((''s'', ''r''), RootNode sample_root)], sample_root)" by code_simp
  from sr_root [OF sr_empty this] have "store_reachable [((''s'', ''r''), RootNode sample_root)]" .
  moreover have "create_node sample_state [((''s'', ''r''), RootNode sample_root)] = Inr sample_store" by code_simp
  ultimately show ?thesis by (rule sr_create)
qed

lemma sample_store_get: "get_node ''s'' ''a'' sample_store = Some (TurnNode sample_state)"
  by code_simp

theorem stored_history_complete_witness:
  "\<exists>path. ancestors sample_store (TurnNode sample_state) = Inr path \<and> is_root (hd path)"
  using stored_history_complete [OF sample_store_reachable sample_store_get] by blast

theorem ancestors_correct_witness:
  "ancestors sample_store (TurnNode sample_state) = Inr [RootNode sample_root, TurnNode sample_state] \<and>
   is_root (hd [RootNode sample_root, TurnNode sample_state])"
proof -
  have a: "ancestors sample_store (TurnNode sample_state) = Inr [RootNode sample_root, TurnNode sample_state]"
    by code_simp
  from ancestors_correct [OF a] a show ?thesis by blast
qed

section \<open>Model input and compaction\<close>

lemma sorted_le_last: "sorted (xs :: nat list) \<Longrightarrow> j \<in> set xs \<Longrightarrow> j \<le> last xs"
  by (induction xs) auto

lemma last_index_Some:
  assumes "last_index i path = Some k"
  shows "k < length path \<and> node_id (path ! k) = i \<and> (\<forall>j. k < j \<and> j < length path \<longrightarrow> node_id (path ! j) \<noteq> i)"
proof -
  let ?ks = "filter (\<lambda>k. node_id (path ! k) = i) [0..<length path]"
  from assms have ne: "?ks \<noteq> []" and k: "k = last ?ks"
    by (auto simp: last_index_def split: list.splits)
  have mem: "k \<in> set ?ks" using ne k last_in_set by blast
  have "sorted ?ks" by (simp add: sorted_filter [of id, simplified])
  then have "j \<le> k" if "j \<in> set ?ks" for j
    using that unfolding k by (rule sorted_le_last)
  with mem show ?thesis by (auto simp: not_less [symmetric])
qed

text \<open>The model sees exactly the turns since the last compaction: \<open>model_input\<close> returns the turns
  of the ancestor path from the last node whose id is the current turn's compaction id, in order,
  ending with the current turn; no later node of the path has that id.
\<close>

theorem model_input_correct:
  assumes "model_input ns (TurnNode s) = Inr turns"
  shows "turns \<noteq> [] \<and> last turns = s \<and> (\<exists>path k. ancestors ns (TurnNode s) = Inr path \<and> k < length path \<and>
    node_id (path ! k) = rs_compaction_id s \<and> turns = turns_of (drop k path) \<and>
    (\<forall>j. k < j \<and> j < length path \<longrightarrow> node_id (path ! j) \<noteq> rs_compaction_id s))"
proof -
  from assms obtain path where path: "ancestors ns (TurnNode s) = Inr path" by (auto simp: model_input_def bind_result_Inr)
  have l: "last path = TurnNode s" using ancestors_path [OF path] by blast
  with assms path obtain k where k: "last_index (rs_compaction_id s) path = Some k" "turns = turns_of (drop k path)"
    by (auto simp: model_input_def split: option.splits)
  note li = last_index_Some [OF k(1)]
  have dp: "drop k path = butlast (drop k path) @ [TurnNode s]"
    using li l by (metis append_butlast_last_id drop_eq_Nil last_drop not_less)
  have "turns = turns_of (butlast (drop k path)) @ [s]"
    unfolding k(2) by (subst dp) (simp add: turns_of_def)
  then have "turns \<noteq> [] \<and> last turns = s" by simp
  with path k li show ?thesis by blast
qed

theorem model_input_correct_witness:
  "last [sample_state] = sample_state \<and> model_input sample_store (TurnNode sample_state) = Inr [sample_state]"
proof -
  have m: "model_input sample_store (TurnNode sample_state) = Inr [sample_state]" by code_simp
  from model_input_correct [OF m] m show ?thesis by blast
qed

lemma validate_message_items:
  assumes "validate_message f p (PDict m) = Inr (role, m')" "py_get m ''content'' = PList (map PDict its)"
  shows "message_items m' = its"
proof -
  from assms obtain its' where "normalize_content (PList (map PDict its)) = Inr its'"
    "m' = AList.update ''content'' (PList (map PDict its')) m"
    by (auto simp: validate_message_def bind_result_Inr mapping_Inr json_dict_Inr Let_def)
  moreover from this(1) have "map PDict its = map PDict its'"
    by (simp add: normalize_content_def map_result_items)
  then have "its = its'" by (simp add: inj_map_eq_map inj_def)
  ultimately show ?thesis by (simp add: message_items_def py_get_def)
qed

text \<open>The user message of a constructed turn passes validation unchanged.\<close>

lemma user_message_ok:
  assumes "state_ok h s"
  shows "validate_message True None (PDict (user_message s)) = Inr (''user'', user_message s)"
proof -
  have "selected_messages s \<in> set (rs_data s)"
    using assms by (auto simp: state_ok_def selected_messages_def)
  then have "selected_messages s \<noteq> []" "version_ok True None (selected_messages s)"
    using assms by (auto simp: state_ok_def turn_ok_def)
  then obtain m ms where m: "selected_messages s = m # ms" "message_ok True None m"
    by (cases "selected_messages s") auto
  then have "py_get m ''role'' = PStr ''user''" by (auto simp: message_ok_def)
  then show ?thesis using message_ok_validate [OF m(2)] m(1) by (simp add: user_message_def)
qed

text \<open>
  C35. Compacting a constructed turn yields a constructed turn: all invariants of a turn hold of the
  result and it is accepted again by validation. It is a running child of the compacted turn in the same
  session and thread, starts its own compaction segment, and has one version with two messages: the user
  message of the compacted turn, unchanged, and an assistant message with the summary item followed by the last
  items since the previous compaction, exactly as many as the turn is configured to keep (all of them when
  there are fewer).
\<close>

theorem compact_correct:
  assumes "compact h fresh now ns source summary i = Inr r" "host_ok h" "state_ok h source"
  shows "\<exists>path k kept assistant. ancestors ns (TurnNode source) = Inr path \<and>
    last_index (rs_compaction_id source) path = Some k \<and> suffix kept (path_items (drop k path)) \<and>
    length kept = min (nat (rs_first_kept_item_size source)) (length (path_items (drop k path))) \<and>
    state_ok h r \<and> post_init h (args_of r) = Inr r \<and> rs_status r = ''running'' \<and>
    rs_compaction_id r = rs_id r \<and> rs_parent_id r = rs_id source \<and> rs_parent_session_id r = rs_session_id source \<and>
    rs_session_id r = rs_session_id source \<and> rs_thread_id r = rs_thread_id source \<and>
    rs_data r = [[user_message source, assistant]] \<and> message_role assistant = PStr ''assistant'' \<and>
    message_items assistant = compaction_payload summary kept # kept"
proof -
  from assms(1) obtain path k where path: "ancestors ns (TurnNode source) = Inr path"
    and k: "last_index (rs_compaction_id source) path = Some k"
    by (auto simp: compact_def bind_result_Inr split: option.splits)
  define its where "its = path_items (drop k path)"
  define kept where "kept = (if rs_first_kept_item_size source = 0 then []
      else drop (length its - nat (rs_first_kept_item_size source)) its)"
  from assms(1) path k obtain assistant a r0 where
    msg: "message_payload ''assistant'' (PList (map PDict (compaction_payload summary kept # kept))) [] = Inr assistant"
    and post: "post_init h a = Inr r0"
    and a: "ta_data a = data_value [[user_message source, assistant]]" "ta_parent_id a = rs_id source"
      "ta_parent_session_id a = rs_session_id source" "ta_session_id a = rs_session_id source"
      "ta_thread_id a = rs_thread_id source" "ta_status a = PStr ''running''"
    and r: "r = r0\<lparr>rs_compaction_id := rs_id r0\<rparr>"
    by (auto simp: compact_def bind_result_Inr its_def kept_def Let_def state_create_def data_value_def
        simp del: list.map split: if_splits)
  have r0: "rs_parent_id r0 = rs_id source" "rs_parent_session_id r0 = rs_session_id source"
      "rs_session_id r0 = rs_session_id source" "rs_thread_id r0 = rs_thread_id source" "rs_status r0 = ''running''"
    and ds: "validate_data (data_value [[user_message source, assistant]]) = Inr (rs_data r0)"
    using post a by (auto simp: post_init_def bind_result_Inr check_member_Inr)
  have ok0: "state_ok h r0" by (rule post_init_ok [OF assms(2) post])
  have "parents_ok (args_of r) = parents_ok (args_of r0)" by (rule parents_ok_cong) (simp_all add: r args_of_def)
  with ok0 have ok: "state_ok h r" by (simp add: r state_ok_def)
  have content: "py_get assistant ''content'' = PList (map PDict (compaction_payload summary kept # kept))"
    using msg by (auto simp: message_payload_def bind_result_Inr py_get_def normalize_content_def
        map_result_items simp del: list.map)
  obtain u' role a' where ds2: "[[u', a']] = rs_data r0"
    and um: "validate_message True None (PDict (user_message source)) = Inr (''user'', u')"
    and am: "validate_message False (Some ''user'') (PDict assistant) = Inr (role, a')"
    using ds user_message_ok [OF assms(3)] by (auto simp: validate_data_def data_value_def validate_version_def bind_result_Inr)
  have "py_get a' ''role'' = PStr ''assistant''"
  proof -
    have "py_get assistant ''role'' = PStr ''assistant''"
      using msg by (auto simp: message_payload_def bind_result_Inr py_get_def simp del: list.map)
    moreover have "py_get a' ''role'' = py_get assistant ''role''"
      using am by (auto simp: validate_message_def bind_result_Inr mapping_Inr json_dict_Inr Let_def py_get_update)
    ultimately show ?thesis by simp
  qed
  moreover have "u' = user_message source" using um user_message_ok [OF assms(3)] by simp
  moreover have "0 \<le> rs_first_kept_item_size source" using assms(3) by (simp add: state_ok_def)
  then have "length kept = min (nat (rs_first_kept_item_size source)) (length its)" "suffix kept its"
    by (auto simp: kept_def suffix_drop)
  moreover have "message_items a' = compaction_payload summary kept # kept"
    by (rule validate_message_items [OF am content])
  ultimately show ?thesis using path k r0 r ds2 [symmetric] ok state_ok_post_init [OF ok]
    by (auto simp: its_def message_role_def)
qed

lemma sample_compact:
  "\<exists>r. compact flat_rs_host ''c'' ''1'' sample_store sample_state ''sum'' None = Inr r \<and> rs_id r = ''c''"
proof -
  have "(case compact flat_rs_host ''c'' ''1'' sample_store sample_state ''sum'' None of
      Inl _ \<Rightarrow> False | Inr r \<Rightarrow> rs_id r = ''c'')" by code_simp
  then show ?thesis by (auto split: sum.splits)
qed

theorem compact_correct_witness:
  "\<exists>r. compact flat_rs_host ''c'' ''1'' sample_store sample_state ''sum'' None = Inr r \<and>
     state_ok flat_rs_host r \<and> rs_compaction_id r = ''c'' \<and> rs_parent_id r = ''a''"
proof -
  obtain r where r: "compact flat_rs_host ''c'' ''1'' sample_store sample_state ''sum'' None = Inr r" "rs_id r = ''c''"
    using sample_compact by blast
  have "rs_id sample_state = ''a''" by code_simp
  with compact_correct [OF r(1) flat_rs_host_ok post_init_ok [OF flat_rs_host_ok sample_state_ok]] r show ?thesis by auto
qed

end
