(* ===== verification/TurnFrames.thy ===== *)
theory TurnFrames
  imports TurnModels "HOL-Library.Sublist"
begin

text \<open>
  \<open>domain/runtime_state/frames.py\<close>: the append-only deltas between two states of a turn and the
  frames that carry them to clients.

  An operation dictionary is a constructor of \<open>delta_op\<close> named after its \<open>op\<close> field. The
  comparisons are Python's \<open>==\<close> (\<open>py_eq\<close>). The data compared belongs to constructed turns, whose
  item types and statuses are strings, so the set memberships cannot raise. \<open>apply_ops\<close> is the
  reference meaning of a delta: what a client that holds the old state does with it.
\<close>

section \<open>Delta operations\<close>

datatype delta_op =
    Append_message int int pyval
  | Append_item int int int pyval
  | Set_item_status int int int pyval
  | Append_text int int int string

fun item_delta :: "int \<Rightarrow> int \<Rightarrow> int \<Rightarrow> pyval \<Rightarrow> pyval \<Rightarrow> delta_op list option" where
  "item_delta d m i (PDict before) (PDict after) =
     (let before_fields = AList.delete ''status'' before; after_fields = AList.delete ''status'' after;
          before_status = py_get before ''status''; after_status = py_get after ''status'' in
      if py_eq (PDict before_fields) (PDict after_fields) \<and> \<not> py_eq before_status after_status \<and>
         after_status \<in> PStr ` ITEM_STATUSES
      then Some [Set_item_status d m i after_status]
      else
        (let before_rest = AList.delete ''text'' before_fields; after_rest = AList.delete ''text'' after_fields in
         case (py_get before_fields ''text'', py_get after_fields ''text'') of
           (PStr before_text, PStr after_text) \<Rightarrow>
             if \<not> py_eq (PDict before_rest) (PDict after_rest) \<or>
                py_get before_rest ''type'' \<notin> {PStr ''text'', PStr ''reasoning''} \<or> \<not> prefix before_text after_text
             then None
             else Some [Append_text d m i (drop (length before_text) after_text)]
         | _ \<Rightarrow> None))"
| "item_delta d m i _ _ = None"

definition changed_indices :: "pyval list \<Rightarrow> pyval list \<Rightarrow> nat list" where
  "changed_indices before after = filter (\<lambda>i. \<not> py_eq (before ! i) (after ! i)) [0..<length before]"

fun message_delta :: "int \<Rightarrow> int \<Rightarrow> pyval \<Rightarrow> pyval \<Rightarrow> delta_op list option" where
  "message_delta d m (PDict before) (PDict after) =
     (if py_get before ''role'' \<noteq> PStr ''assistant'' \<or> py_get after ''role'' \<noteq> PStr ''assistant'' then None
      else case (py_get before ''content'', py_get after ''content'') of
          (PList before_items, PList after_items) \<Rightarrow>
            if \<not> py_eq (PDict (AList.delete ''content'' before)) (PDict (AList.delete ''content'' after)) then None
            else if py_eq_list before_items (take (length before_items) after_items) then
              Some (map (\<lambda>(i, it). Append_item d m (int i) it)
                (enumerate (length before_items) (drop (length before_items) after_items)))
            else if length before_items \<noteq> length after_items then None
            else (case changed_indices before_items after_items of
                [i] \<Rightarrow> item_delta d m (int i) (before_items ! i) (after_items ! i)
              | _ \<Rightarrow> None)
        | _ \<Rightarrow> None)"
| "message_delta d m _ _ = None"

definition version_delta :: "int \<Rightarrow> pyval \<Rightarrow> pyval \<Rightarrow> delta_op list option" where
  "version_delta d before_version after_version =
     (if py_eq before_version after_version then Some []
      else case (before_version, after_version) of
          (PList before, PList after) \<Rightarrow>
            if length after > length before \<and> py_eq_list before (take (length before) after) then
              (if \<forall>m \<in> set (drop (length before) after). is_dict m then
                 Some (map (\<lambda>(i, m). Append_message d (int i) m) (enumerate (length before) (drop (length before) after)))
               else None)
            else if length before \<noteq> length after then None
            else (case changed_indices before after of
                [m] \<Rightarrow> message_delta d (int m) (before ! m) (after ! m)
              | _ \<Rightarrow> None)
        | _ \<Rightarrow> None)"

fun versions_delta :: "nat \<Rightarrow> pyval list \<Rightarrow> pyval list \<Rightarrow> delta_op list option" where
  "versions_delta d (b # bs) (a # as) =
     (case version_delta (int d) b a of None \<Rightarrow> None
      | Some ops \<Rightarrow> map_option (\<lambda>rest. ops @ rest) (versions_delta (Suc d) bs as))"
| "versions_delta d _ _ = Some []"

definition data_delta_operations :: "pyval list \<Rightarrow> pyval list \<Rightarrow> delta_op list option" where
  "data_delta_operations before after =
     (if length before \<noteq> length after then None else versions_delta 0 before after)"

fun op_to_dict :: "delta_op \<Rightarrow> pydict" where
  "op_to_dict (Append_message d m msg) = [(''op'', PStr ''append_message''), (''data_idx'', PInt d),
     (''message_idx'', PInt m), (''message'', msg)]"
| "op_to_dict (Append_item d m i it) = [(''op'', PStr ''append_item''), (''data_idx'', PInt d),
     (''message_idx'', PInt m), (''item_idx'', PInt i), (''item'', it)]"
| "op_to_dict (Set_item_status d m i st) = [(''op'', PStr ''set_item_status''), (''data_idx'', PInt d),
     (''message_idx'', PInt m), (''item_idx'', PInt i), (''status'', st)]"
| "op_to_dict (Append_text d m i t) = [(''op'', PStr ''append_text''), (''data_idx'', PInt d),
     (''message_idx'', PInt m), (''item_idx'', PInt i), (''delta'', PStr t)]"

section \<open>Frames\<close>

definition TURN_IDENTITY_FIELDS :: "string list" where
  "TURN_IDENTITY_FIELDS = [''session_id'', ''id'', ''thread_id'', ''parent_session_id'', ''parent_id'', ''parent_thread_id'']"

record NodeFrame =
  nf_type :: string
  nf_session_id :: string
  nf_turn_id :: string
  nf_revision :: int
  nf_turn :: "RuntimeState option"
  nf_patch :: pydict
  nf_operations :: "pydict list"

definition frame_snapshot :: "RuntimeState \<Rightarrow> NodeFrame" where
  "frame_snapshot s = \<lparr>nf_type = ''turn.snapshot'', nf_session_id = rs_session_id s, nf_turn_id = rs_id s,
     nf_revision = 0, nf_turn = Some s, nf_patch = [], nf_operations = []\<rparr>"

text \<open>The fields outside identity and data whose value changed.\<close>

definition turn_patch :: "pydict \<Rightarrow> pydict \<Rightarrow> pydict" where
  "turn_patch before after = filter (\<lambda>(name, value). name \<notin> set TURN_IDENTITY_FIELDS \<and> name \<noteq> ''data'' \<and>
     \<not> py_eq (py_get before name) value) after"

definition data_list :: "pydict \<Rightarrow> pyval list" where
  "data_list d = (case py_get d ''data'' of PList vs \<Rightarrow> vs | _ \<Rightarrow> [])"

definition frame_delta :: "RuntimeState \<Rightarrow> RuntimeState \<Rightarrow> int \<Rightarrow> rs_error + NodeFrame option" where
  "frame_delta before after revision =
     (let b = state_to_dict before; a = state_to_dict after in
      if \<exists>name \<in> set TURN_IDENTITY_FIELDS. \<not> py_eq (py_get b name) (py_get a name) then Inl ValidationError
      else case data_delta_operations (data_list b) (data_list a) of
          None \<Rightarrow> Inl ValidationError
        | Some ops \<Rightarrow>
            let patch = turn_patch b a in
            if patch = [] \<and> ops = [] then Inr None
            else Inr (Some \<lparr>nf_type = ''turn.delta'', nf_session_id = rs_session_id after, nf_turn_id = rs_id after,
              nf_revision = revision, nf_turn = None, nf_patch = patch, nf_operations = map op_to_dict ops\<rparr>))"

definition frame_to_dict :: "NodeFrame \<Rightarrow> rs_error + pydict" where
  "frame_to_dict f =
     (if nf_type f = ''turn.snapshot'' then
        (case nf_turn f of None \<Rightarrow> Inl ValidationError
         | Some s \<Rightarrow> Inr [(''type'', PStr (nf_type f)), (''revision'', PInt (nf_revision f)),
                          (''turn'', PDict (state_to_dict s))])
      else Inr ([(''type'', PStr (nf_type f)), (''session_id'', PStr (nf_session_id f)),
          (''turn_id'', PStr (nf_turn_id f)), (''revision'', PInt (nf_revision f))]
          @ (if nf_patch f = [] then [] else [(''patch'', PDict (nf_patch f))])
          @ (if nf_operations f = [] then [] else [(''operations'', PList (map PDict (nf_operations f)))])))"

definition frame_int :: "pydict \<Rightarrow> string \<Rightarrow> rs_error + int" where
  "frame_int d k = (let v = py_get d k in
     if \<not> truthy v then Inr 0 else case py_int v of Some i \<Rightarrow> Inr i
       | None \<Rightarrow> (case v of PStr _ \<Rightarrow> Inl RsValueError | PFloat NaN \<Rightarrow> Inl RsValueError
         | PFloat _ \<Rightarrow> Inl RsOverflowError | _ \<Rightarrow> Inl RsTypeError))"

definition frame_from_dict :: "rs_host \<Rightarrow> pydict \<Rightarrow> rs_error + NodeFrame" where
  "frame_from_dict h value =
     (let frame_type = get_str value ''type'' in
      if frame_type = ''turn.snapshot'' then
        (case py_get value ''turn'' of
           PDict raw_turn \<Rightarrow>
             bind_result (state_from_dict h (PDict raw_turn)) (\<lambda>turn.
             bind_result (frame_int value ''revision'') (\<lambda>revision.
               Inr \<lparr>nf_type = ''turn.snapshot'', nf_session_id = rs_session_id turn, nf_turn_id = rs_id turn,
                    nf_revision = revision, nf_turn = Some turn, nf_patch = [], nf_operations = []\<rparr>))
         | _ \<Rightarrow> Inl ValidationError)
      else if frame_type \<noteq> ''turn.delta'' then Inl ValidationError
      else case get_default value ''operations'' (PList []) of
          PList operations \<Rightarrow>
            (case get_default value ''patch'' (PDict []) of
               PDict patch \<Rightarrow>
                 bind_result (frame_int value ''revision'') (\<lambda>revision.
                   Inr \<lparr>nf_type = ''turn.delta'', nf_session_id = get_str value ''session_id'',
                        nf_turn_id = get_str value ''turn_id'', nf_revision = revision, nf_turn = None,
                        nf_patch = patch, nf_operations = dict_items operations\<rparr>)
             | _ \<Rightarrow> Inl ValidationError)
        | _ \<Rightarrow> Inl ValidationError)"

text \<open>\<open>json.dumps(v, ensure_ascii=False, separators=(",", ":"))\<close>, keys in insertion order.\<close>

fun json_dump :: "pyval \<Rightarrow> string" where
  "json_dump (PList xs) = ''['' @ join '','' (map json_dump xs) @ '']''"
| "json_dump (PDict d) = ''{'' @ join '','' (map (\<lambda>p. json_str (fst p) @ '':'' @ json_dump (snd p)) d) @ ''}''"
| "json_dump v = json_text v"

definition frame_to_json :: "NodeFrame \<Rightarrow> rs_error + string" where
  "frame_to_json f = bind_result (frame_to_dict f) (\<lambda>d. Inr (json_dump (PDict d)))"

definition as_sse :: "NodeFrame \<Rightarrow> rs_error + string" where
  "as_sse f = bind_result (frame_to_json f) (\<lambda>t. Inr (''data: '' @ t @ [CHR 0x0A, CHR 0x0A]))"

section \<open>The meaning of a delta\<close>

text \<open>A client refuses an index outside its copy, a negative index, an append that is not at the end
  and a text delta whose target holds no text.\<close>

fun op_data_idx :: "delta_op \<Rightarrow> int" where
  "op_data_idx (Append_message d _ _) = d"
| "op_data_idx (Append_item d _ _ _) = d"
| "op_data_idx (Set_item_status d _ _ _) = d"
| "op_data_idx (Append_text d _ _ _) = d"

definition update_at :: "int \<Rightarrow> ('a \<Rightarrow> 'a option) \<Rightarrow> 'a list \<Rightarrow> 'a list option" where
  "update_at i f xs = (if 0 \<le> i \<and> i < int (length xs)
     then map_option (\<lambda>y. xs[nat i := y]) (f (xs ! nat i)) else None)"

definition on_list :: "(pyval list \<Rightarrow> pyval list option) \<Rightarrow> pyval \<Rightarrow> pyval option" where
  "on_list f v = (case v of PList xs \<Rightarrow> map_option PList (f xs) | _ \<Rightarrow> None)"

definition on_field :: "string \<Rightarrow> (pyval \<Rightarrow> pyval option) \<Rightarrow> pyval \<Rightarrow> pyval option" where
  "on_field k f v = (case v of PDict d \<Rightarrow> map_option (\<lambda>w. PDict (AList.update k w d)) (f (py_get d k)) | _ \<Rightarrow> None)"

definition append_at :: "int \<Rightarrow> 'a \<Rightarrow> 'a list \<Rightarrow> 'a list option" where
  "append_at i x xs = (if i = int (length xs) then Some (xs @ [x]) else None)"

definition extend_text :: "string \<Rightarrow> pyval \<Rightarrow> pyval option" where
  "extend_text t v = (case v of PStr s \<Rightarrow> Some (PStr (s @ t)) | _ \<Rightarrow> None)"

fun apply_in :: "delta_op \<Rightarrow> pyval list \<Rightarrow> pyval list option" where
  "apply_in (Append_message _ m msg) ms = append_at m msg ms"
| "apply_in (Append_item _ m i it) ms = update_at m (on_field ''content'' (on_list (append_at i it))) ms"
| "apply_in (Set_item_status _ m i st) ms =
     update_at m (on_field ''content'' (on_list (update_at i (on_field ''status'' (\<lambda>_. Some st))))) ms"
| "apply_in (Append_text _ m i t) ms =
     update_at m (on_field ''content'' (on_list (update_at i (on_field ''text'' (extend_text t))))) ms"

definition apply_op :: "delta_op \<Rightarrow> pyval list \<Rightarrow> pyval list option" where
  "apply_op op vs = update_at (op_data_idx op) (on_list (apply_in op)) vs"

fun fold_option :: "('a \<Rightarrow> 'b \<Rightarrow> 'b option) \<Rightarrow> 'a list \<Rightarrow> 'b \<Rightarrow> 'b option" where
  "fold_option f [] b = Some b"
| "fold_option f (x # xs) b = Option.bind (f x b) (fold_option f xs)"

definition apply_ops :: "delta_op list \<Rightarrow> pyval list \<Rightarrow> pyval list option" where
  "apply_ops ops vs = fold_option apply_op ops vs"

section \<open>Replaying a delta\<close>

lemma py_eq_PDict: "py_eq (PDict d) (PDict e) \<longleftrightarrow>
    length d = length e \<and> (\<forall>(k, v) \<in> set d. \<exists>w. map_of e k = Some w \<and> py_eq v w)"
  by (simp add: py_eq_items_alt)

lemma py_get_SomeD: "py_get d k = v \<Longrightarrow> v \<noteq> PNone \<Longrightarrow> map_of d k = Some v"
  by (auto simp: py_get_def split: option.splits)

lemma length_delete: "wf_dict d \<Longrightarrow> map_of d k = Some v \<Longrightarrow> length d = Suc (length (AList.delete k d))"
  by (erule map_of_splitE) (simp add: delete_split)

lemma length_update: "wf_dict d \<Longrightarrow> length (AList.update k v d) = Suc (length (AList.delete k d))"
proof (cases "map_of d k")
  case None
  then have k: "k \<notin> keys d" by (simp add: map_of_None_keys)
  then have "AList.delete k d = d" by (auto simp: AList.delete_eq filter_id_conv image_iff)
  with k show ?thesis by (simp add: update_new_append)
next
  case (Some w)
  assume "wf_dict d"
  with Some show ?thesis by (elim map_of_splitE) (simp add: update_split delete_split)
qed

text \<open>Overwriting one key makes two dictionaries equal when they agree on all other keys.\<close>

lemma py_eq_overwrite:
  assumes wf: "wf_dict d" "wf_dict e" and k: "map_of e k = Some w" "py_eq v w"
    and rest: "py_eq (PDict (AList.delete k d)) (PDict (AList.delete k e))"
  shows "py_eq (PDict (AList.update k v d)) (PDict e)"
proof -
  have "length (AList.update k v d) = length e"
    using rest length_update [OF wf(1), of k v] length_delete [OF wf(2) k(1)] by (simp add: py_eq_PDict)
  moreover have "\<exists>y. map_of e k' = Some y \<and> py_eq x y" if "(k', x) \<in> set (AList.update k v d)" for k' x
  proof (cases "k' = k")
    case True
    moreover have "wf_dict (AList.update k v d)" using wf by simp
    ultimately have "map_of (AList.update k v d) k = Some x" using that by (metis wf_dict_map_of_iff)
    with True k show ?thesis by auto
  next
    case False
    with that have "(k', x) \<in> set (AList.delete k d)"
      using set_update_subset [of k v d] by (auto simp: AList.delete_eq)
    with rest have "\<exists>w. map_of (AList.delete k e) k' = Some w \<and> py_eq x w" unfolding py_eq_PDict by blast
    with False show ?thesis by simp
  qed
  ultimately show ?thesis unfolding py_eq_PDict by blast
qed

lemma changed_indices_single:
  assumes "changed_indices xs ys = [i]" "length xs = length ys" "py_eq x (ys ! i)"
  shows "i < length xs \<and> py_eq_list (xs[i := x]) ys"
proof -
  have "set (changed_indices xs ys) = {i}" using assms(1) by simp
  then have i: "i < length xs" and "\<forall>j < length xs. j \<noteq> i \<longrightarrow> py_eq (xs ! j) (ys ! j)"
    by (auto simp: changed_indices_def)
  with assms(2,3) show ?thesis
    by (auto simp: py_eq_list_alt list_all2_conv_all_nth nth_list_update)
qed

lemma appended_eq:
  assumes "py_eq_list xs (take (length xs) ys)" "\<forall>y \<in> set ys. plain y"
  shows "py_eq_list (xs @ drop (length xs) ys) ys"
proof -
  have "list_all2 py_eq (drop (length xs) ys) (drop (length xs) ys)"
    using assms(2) by (auto simp: list_all2_same dest!: in_set_dropD intro: py_eq_refl)
  with assms(1) have "list_all2 py_eq (xs @ drop (length xs) ys) (take (length xs) ys @ drop (length xs) ys)"
    unfolding py_eq_list_alt by (rule list_all2_appendI)
  then show ?thesis by (simp add: py_eq_list_alt)
qed

lemma fold_append_message:
  "fold_option apply_in (map (\<lambda>(i, m). Append_message d (int i) m) (enumerate (length ms) ys)) ms = Some (ms @ ys)"
proof (induction ys arbitrary: ms)
  case (Cons y ys)
  from Cons.IH [of "ms @ [y]"] show ?case by (simp add: append_at_def)
qed simp

lemma update_twice: "AList.update k v (AList.update k w d) = AList.update k v d"
  by (induction d) auto

lemma on_content:
  assumes "py_get d ''content'' = PList xs" "f xs = Some ys"
  shows "on_field ''content'' (on_list f) (PDict d) = Some (PDict (AList.update ''content'' (PList ys) d))"
  using assms by (simp add: on_field_def on_list_def)

lemma fold_append_item:
  assumes "m < length ms" "ms ! m = PDict d" "py_get d ''content'' = PList xs"
  shows "fold_option apply_in (map (\<lambda>(i, it). Append_item k (int m) (int i) it) (enumerate (length xs) ys)) ms
    = Some (ms[m := PDict (AList.update ''content'' (PList (xs @ ys)) d)])"
  using assms
proof (induction ys arbitrary: ms d xs)
  case Nil
  then have "AList.update ''content'' (PList xs) d = d" by (intro update_triv) (simp add: py_get_SomeD)
  with Nil list_update_id [of ms m] show ?case by simp
next
  case (Cons y ys)
  let ?d = "AList.update ''content'' (PList (xs @ [y])) d"
  have "append_at (int (length xs)) y xs = Some (xs @ [y])" by (simp add: append_at_def)
  from on_content [where f = "append_at (int (length xs)) y", OF Cons.prems(3) this]
  have step: "apply_in (Append_item k (int m) (int (length xs)) y) ms = Some (ms[m := PDict ?d])"
    using Cons.prems by (simp add: update_at_def)
  from Cons.IH [of "ms[m := PDict ?d]" ?d "xs @ [y]"] Cons.prems show ?case
    by (simp add: step [simplified] py_get_update update_twice)
qed

text \<open>The status of the item a delta targets.\<close>

definition item_field :: "string \<Rightarrow> pyval \<Rightarrow> pyval" where
  "item_field k v = (case v of PDict d \<Rightarrow> py_get d k | _ \<Rightarrow> PNone)"

definition content_of :: "pyval \<Rightarrow> pyval list" where
  "content_of v = (case item_field ''content'' v of PList xs \<Rightarrow> xs | _ \<Rightarrow> [])"

definition messages_of :: "pyval \<Rightarrow> pyval list" where
  "messages_of v = (case v of PList ms \<Rightarrow> ms | _ \<Rightarrow> [])"

definition status_at :: "pyval \<Rightarrow> int \<Rightarrow> int \<Rightarrow> pyval" where
  "status_at v m i = item_field ''status'' (content_of (messages_of v ! nat m) ! nat i)"

lemma item_delta_replay:
  assumes some: "item_delta d m i (PDict b) (PDict a) = Some ops" and wf: "wf_dict b" "wf_dict a"
    and st: "\<And>t. ops = [Append_text d m i t] \<Longrightarrow> \<exists>s. py_get b ''status'' = PStr s \<and> py_get a ''status'' = PStr s"
  shows "\<exists>op g x. ops = [op] \<and> op_data_idx op = d \<and> g (PDict b) = Some x \<and> py_eq x (PDict a) \<and>
    (\<forall>ms. apply_in op ms = update_at m (on_field ''content'' (on_list (update_at i g))) ms)"
proof -
  let ?bf = "AList.delete ''status'' b" and ?af = "AList.delete ''status'' a"
  let ?status_only = "py_eq (PDict ?bf) (PDict ?af) \<and> \<not> py_eq (py_get b ''status'') (py_get a ''status'') \<and>
    py_get a ''status'' \<in> PStr ` ITEM_STATUSES"
  show ?thesis
  proof (cases ?status_only)
    case True
    then obtain s where s: "py_get a ''status'' = PStr s" by blast
    have "py_eq (PDict (AList.update ''status'' (PStr s) b)) (PDict a)"
      using True py_get_SomeD [OF s] by (intro py_eq_overwrite [OF wf]) auto
    with True some s show ?thesis
      by (intro exI [of _ "Set_item_status d m i (PStr s)"] exI [of _ "on_field ''status'' (\<lambda>_. Some (PStr s))"])
        (simp add: on_field_def Let_def)
  next
    case False
    with some have "(case (py_get ?bf ''text'', py_get ?af ''text'') of
        (PStr bt, PStr aft) \<Rightarrow>
          if \<not> py_eq (PDict (AList.delete ''text'' ?bf)) (PDict (AList.delete ''text'' ?af)) \<or>
             py_get (AList.delete ''text'' ?bf) ''type'' \<notin> {PStr ''text'', PStr ''reasoning''} \<or> \<not> prefix bt aft
          then None else Some [Append_text d m i (drop (length bt) aft)]
      | _ \<Rightarrow> None) = Some ops" by (auto simp: Let_def)
    then obtain bt aft where t: "py_get b ''text'' = PStr bt" "py_get a ''text'' = PStr aft" "prefix bt aft"
      and rest: "py_eq (PDict (AList.delete ''text'' ?bf)) (PDict (AList.delete ''text'' ?af))"
      and ops: "ops = [Append_text d m i (drop (length bt) aft)]"
      by (auto simp: py_get_def split: pyval.splits if_splits)
    from st [OF ops] obtain s where s: "py_get b ''status'' = PStr s" "py_get a ''status'' = PStr s" by blast
    let ?bt = "AList.delete ''text'' b" and ?at = "AList.delete ''text'' a"
    have "map_of ?bt ''status'' = Some (PStr s)" "map_of ?at ''status'' = Some (PStr s)"
      using s [THEN py_get_SomeD] by simp_all
    with rest wf have "py_eq (PDict (AList.update ''status'' (PStr s) ?bt)) (PDict ?at)"
      by (intro py_eq_overwrite) (simp_all add: delete_twist)
    moreover have "AList.update ''status'' (PStr s) ?bt = ?bt"
      using s [THEN py_get_SomeD] by (intro update_triv) simp
    ultimately have "py_eq (PDict (AList.update ''text'' (PStr aft) b)) (PDict a)"
      using t(2) [THEN py_get_SomeD] by (intro py_eq_overwrite [OF wf]) auto
    moreover have "bt @ drop (length bt) aft = aft" using t(3) by (auto simp: prefix_def)
    ultimately show ?thesis using t(1) ops
      by (intro exI [of _ "Append_text d m i (drop (length bt) aft)"] exI [of _ "on_field ''text'' (extend_text (drop (length bt) aft))"])
        (simp add: on_field_def extend_text_def)
  qed
qed

lemma plain_wf: "plain (PDict d) \<Longrightarrow> wf_dict d"
  by (simp add: wf_dict_def)

lemma plain_get_list: "plain (PDict d) \<Longrightarrow> py_get d k = PList xs \<Longrightarrow> x \<in> set xs \<Longrightarrow> plain x"
  by (fastforce dest: py_get_SomeD map_of_SomeD)

lemma message_delta_cases:
  assumes "message_delta d m (PDict b) (PDict a) = Some ops"
  obtains bs as where "py_get b ''content'' = PList bs" "py_get a ''content'' = PList as"
    "py_eq (PDict (AList.delete ''content'' b)) (PDict (AList.delete ''content'' a))"
    "(py_eq_list bs (take (length bs) as) \<and>
        ops = map (\<lambda>(i, it). Append_item d m (int i) it) (enumerate (length bs) (drop (length bs) as))) \<or>
     (length bs = length as \<and> (\<exists>i. changed_indices bs as = [i] \<and> item_delta d m (int i) (bs ! i) (as ! i) = Some ops))"
  using assms by (auto split: pyval.splits if_splits list.splits)

lemma item_delta_dicts: "item_delta d m i x y = Some ops \<Longrightarrow> \<exists>b a. x = PDict b \<and> y = PDict a"
  by (cases x; cases y) auto

lemma message_delta_replay:
  assumes some: "message_delta d (int m) (PDict b) (PDict a) = Some ops"
    and plain: "plain (PDict b)" "plain (PDict a)" and ms: "m < length ms" "ms ! m = PDict b"
    and st: "\<And>i t. Append_text d (int m) i t \<in> set ops \<Longrightarrow>
      \<exists>s. item_field ''status'' (content_of (PDict b) ! nat i) = PStr s \<and> item_field ''status'' (content_of (PDict a) ! nat i) = PStr s"
  shows "(\<forall>op \<in> set ops. op_data_idx op = d) \<and> (\<exists>x. fold_option apply_in ops ms = Some (ms[m := x]) \<and> py_eq x (PDict a))"
proof -
  note wf = plain [THEN plain_wf]
  from some obtain bs as where c: "py_get b ''content'' = PList bs" "py_get a ''content'' = PList as"
    and rest: "py_eq (PDict (AList.delete ''content'' b)) (PDict (AList.delete ''content'' a))"
    and cas: "(py_eq_list bs (take (length bs) as) \<and>
        ops = map (\<lambda>(i, it). Append_item d (int m) (int i) it) (enumerate (length bs) (drop (length bs) as))) \<or>
     (length bs = length as \<and> (\<exists>i. changed_indices bs as = [i] \<and> item_delta d (int m) (int i) (bs ! i) (as ! i) = Some ops))"
    by (rule message_delta_cases)
  have overwrite: "py_eq (PDict (AList.update ''content'' (PList xs) b)) (PDict a)" if "py_eq_list xs as" for xs
    using that c(2) [THEN py_get_SomeD] by (intro py_eq_overwrite [OF wf _ _ rest]) auto
  from cas show ?thesis
  proof (elim disjE conjE exE)
    assume pre: "py_eq_list bs (take (length bs) as)"
      and ops: "ops = map (\<lambda>(i, it). Append_item d (int m) (int i) it) (enumerate (length bs) (drop (length bs) as))"
    have "py_eq_list (bs @ drop (length bs) as) as"
      using pre plain_get_list [OF plain(2) c(2)] by (intro appended_eq) auto
    from overwrite [OF this] fold_append_item [OF ms c(1), of d "drop (length bs) as"] show ?thesis
      by (auto simp: ops)
  next
    fix i assume len: "length bs = length as" and ch: "changed_indices bs as = [i]"
      and it: "item_delta d (int m) (int i) (bs ! i) (as ! i) = Some ops"
    have i: "i < length bs" using arg_cong [OF ch, of set] by (auto simp: changed_indices_def)
    from item_delta_dicts [OF it] obtain ib ia where ib: "bs ! i = PDict ib" "as ! i = PDict ia" by blast
    have "plain (PDict ib)" "plain (PDict ia)"
      using plain_get_list [OF plain(1) c(1)] plain_get_list [OF plain(2) c(2)] i len ib by (metis nth_mem)+
    moreover have "\<exists>s. py_get ib ''status'' = PStr s \<and> py_get ia ''status'' = PStr s"
      if "ops = [Append_text d (int m) (int i) t]" for t
      using st [of "int i" t] that c ib by (simp add: content_of_def item_field_def)
    ultimately obtain op g x where op: "ops = [op]" "op_data_idx op = d" "g (PDict ib) = Some x" "py_eq x (PDict ia)"
      "\<forall>ms. apply_in op ms = update_at (int m) (on_field ''content'' (on_list (update_at (int i) g))) ms"
      using item_delta_replay [OF it [unfolded ib]] plain_wf by blast
    have "update_at (int i) g bs = Some (bs[i := x])" using i ib op(3) by (simp add: update_at_def)
    from on_content [where f = "update_at (int i) g", OF c(1) this] ms op(5)
    have "apply_in op ms = Some (ms[m := PDict (AList.update ''content'' (PList (bs[i := x])) b)])"
      by (simp add: update_at_def)
    moreover have "py_eq_list (bs[i := x]) as" using changed_indices_single [OF ch len] op(4) ib by simp
    ultimately show ?thesis using overwrite op(1,2) by auto
  qed
qed

lemma version_delta_cases:
  assumes "version_delta d b a = Some ops" "\<not> py_eq b a"
  obtains bs as where "b = PList bs" "a = PList as"
    "(py_eq_list bs (take (length bs) as) \<and>
        ops = map (\<lambda>(i, m). Append_message d (int i) m) (enumerate (length bs) (drop (length bs) as))) \<or>
     (length bs = length as \<and> (\<exists>m. changed_indices bs as = [m] \<and> message_delta d (int m) (bs ! m) (as ! m) = Some ops))"
  using assms unfolding version_delta_def by (auto split: pyval.splits if_splits list.splits)

lemma message_delta_dicts: "message_delta d m x y = Some ops \<Longrightarrow> \<exists>b a. x = PDict b \<and> y = PDict a"
  by (cases x; cases y) auto

lemma version_delta_replay:
  assumes some: "version_delta d b a = Some ops" and plain: "plain b" "plain a"
    and st: "\<And>m i t. Append_text d m i t \<in> set ops \<Longrightarrow> \<exists>s. status_at b m i = PStr s \<and> status_at a m i = PStr s"
  shows "ops = [] \<and> py_eq b a \<or> (\<forall>op \<in> set ops. op_data_idx op = d) \<and>
    (\<exists>ms ms'. b = PList ms \<and> fold_option apply_in ops ms = Some ms' \<and> py_eq (PList ms') a)"
proof (cases "py_eq b a")
  case True
  with some show ?thesis by (simp add: version_delta_def)
next
  case False
  from some this obtain bs as where ba: "b = PList bs" "a = PList as" and cas:
    "(py_eq_list bs (take (length bs) as) \<and>
        ops = map (\<lambda>(i, m). Append_message d (int i) m) (enumerate (length bs) (drop (length bs) as))) \<or>
     (length bs = length as \<and> (\<exists>m. changed_indices bs as = [m] \<and> message_delta d (int m) (bs ! m) (as ! m) = Some ops))"
    by (rule version_delta_cases)
  from cas show ?thesis
  proof (elim disjE conjE exE)
    assume pre: "py_eq_list bs (take (length bs) as)"
      and ops: "ops = map (\<lambda>(i, m). Append_message d (int i) m) (enumerate (length bs) (drop (length bs) as))"
    have "py_eq_list (bs @ drop (length bs) as) as" using pre plain ba by (intro appended_eq) auto
    with fold_append_message [of d bs "drop (length bs) as"] ba ops show ?thesis by auto
  next
    fix m assume len: "length bs = length as" and ch: "changed_indices bs as = [m]"
      and msg: "message_delta d (int m) (bs ! m) (as ! m) = Some ops"
    have m: "m < length bs" using arg_cong [OF ch, of set] by (auto simp: changed_indices_def)
    from message_delta_dicts [OF msg] obtain mb ma where mb: "bs ! m = PDict mb" "as ! m = PDict ma" by blast
    have p: "plain (PDict mb)" "plain (PDict ma)"
      using plain m len mb ba by (metis nth_mem plain.simps(2))+
    have kept: "\<exists>s. item_field ''status'' (content_of (PDict mb) ! nat i) = PStr s \<and>
        item_field ''status'' (content_of (PDict ma) ! nat i) = PStr s" if "Append_text d (int m) i t \<in> set ops" for i t
      using st [OF that] ba mb by (simp add: status_at_def messages_of_def)
    have "(\<forall>op \<in> set ops. op_data_idx op = d) \<and> (\<exists>x. fold_option apply_in ops bs = Some (bs[m := x]) \<and> py_eq x (PDict ma))"
      using message_delta_replay [OF msg [unfolded mb] p m mb(1)] kept by blast
    then obtain x where x: "\<forall>op \<in> set ops. op_data_idx op = d" "fold_option apply_in ops bs = Some (bs[m := x])"
      "py_eq x (PDict ma)" by blast
    have "py_eq_list (bs[m := x]) as" using changed_indices_single [OF ch len] x(3) mb by simp
    with x ba show ?thesis by auto
  qed
qed

lemma fold_option_append: "fold_option f (xs @ ys) b = Option.bind (fold_option f xs b) (fold_option f ys)"
  by (induction xs arbitrary: b) (auto simp: bind_assoc split: Option.bind_splits)

lemma fold_apply_op:
  assumes "fold_option apply_in ops ms = Some ms'" "\<forall>op \<in> set ops. op_data_idx op = int (length pre)"
  shows "fold_option apply_op ops (pre @ PList ms # suf) = Some (pre @ PList ms' # suf)"
  using assms
proof (induction ops arbitrary: ms)
  case (Cons op ops)
  from Cons.prems(1) obtain ms1 where ms1: "apply_in op ms = Some ms1" "fold_option apply_in ops ms1 = Some ms'"
    by (cases "apply_in op ms") auto
  then have "apply_op op (pre @ PList ms # suf) = Some (pre @ PList ms1 # suf)"
    using Cons.prems(2) by (simp add: apply_op_def update_at_def on_list_def)
  with Cons.IH [OF ms1(2)] Cons.prems(2) show ?case by simp
qed simp

lemma item_delta_idx: "item_delta d m i x y = Some ops \<Longrightarrow> op \<in> set ops \<Longrightarrow> op_data_idx op = d"
  by (cases x; cases y) (auto simp: Let_def split: if_splits pyval.splits)

lemma version_delta_idx:
  assumes "version_delta d b a = Some ops" "op \<in> set ops"
  shows "op_data_idx op = d"
proof (cases "py_eq b a")
  case False
  have message: "op_data_idx op = d" if "message_delta d m x y = Some ops" for m x y
  proof -
    from message_delta_dicts [OF that] obtain xb ya where "x = PDict xb" "y = PDict ya" by blast
    with that have "message_delta d m (PDict xb) (PDict ya) = Some ops" by simp
    then show ?thesis by (rule message_delta_cases) (use assms(2) item_delta_idx in auto)
  qed
  from assms(1) False show ?thesis by (rule version_delta_cases) (use assms(2) message in auto)
qed (use assms in \<open>simp add: version_delta_def\<close>)

lemma versions_delta_idx:
  "versions_delta n bs as = Some ops \<Longrightarrow> op \<in> set ops \<Longrightarrow> int n \<le> op_data_idx op"
proof (induction n bs as arbitrary: ops rule: versions_delta.induct)
  case (1 d b bs a as)
  from "1.prems"(1) obtain o1 o2 where o: "version_delta (int d) b a = Some o1" "versions_delta (Suc d) bs as = Some o2"
    "ops = o1 @ o2" by (auto split: option.splits)
  with "1.IH" [of o1 o2] "1.prems"(2) version_delta_idx [OF o(1)] show ?case by fastforce
qed auto

lemma versions_delta_replay:
  assumes "versions_delta (length pre) bs as = Some ops" "length bs = length as"
    "\<forall>v \<in> set bs. plain v" "\<forall>v \<in> set as. plain v"
    "\<And>d m i t. Append_text d m i t \<in> set ops \<Longrightarrow>
       \<exists>s. status_at (bs ! (nat d - length pre)) m i = PStr s \<and> status_at (as ! (nat d - length pre)) m i = PStr s"
  shows "\<exists>vs. fold_option apply_op ops (pre @ bs) = Some (pre @ vs) \<and> py_eq_list vs as"
  using assms
proof (induction bs arbitrary: pre as ops)
  case (Cons b bs)
  then obtain a as' where as: "as = a # as'" by (cases as) auto
  from Cons.prems(1) as obtain o1 o2 where o: "version_delta (int (length pre)) b a = Some o1"
    "versions_delta (Suc (length pre)) bs as' = Some o2" "ops = o1 @ o2" by (auto split: option.splits)
  have "\<exists>s. status_at b m i = PStr s \<and> status_at a m i = PStr s" if "Append_text (int (length pre)) m i t \<in> set o1" for m i t
    using Cons.prems(5) [of "int (length pre)" m i t] that o as by simp
  then have "o1 = [] \<and> py_eq b a \<or> (\<forall>op \<in> set o1. op_data_idx op = int (length pre)) \<and>
      (\<exists>ms ms'. b = PList ms \<and> fold_option apply_in o1 ms = Some ms' \<and> py_eq (PList ms') a)"
    using version_delta_replay [OF o(1)] Cons.prems(3,4) as by simp
  then obtain v where v: "fold_option apply_op o1 (pre @ b # bs) = Some (pre @ v # bs)" "py_eq v a"
    using fold_apply_op [of o1 _ _ pre bs] by fastforce
  have "\<exists>s. status_at (bs ! (nat d - length (pre @ [v]))) m i = PStr s \<and>
      status_at (as' ! (nat d - length (pre @ [v]))) m i = PStr s" if "Append_text d m i t \<in> set o2" for d m i t
  proof -
    have "Suc (length pre) \<le> nat d" using versions_delta_idx [OF o(2) that] by simp
    then obtain k where "nat d = Suc (length pre) + k" by (metis le_add_diff_inverse)
    then show ?thesis using Cons.prems(5) [of d m i t] that o as by simp
  qed
  with Cons.IH [of "pre @ [v]" as' o2] o(2) Cons.prems(2-4) as
  obtain vs where "fold_option apply_op o2 ((pre @ [v]) @ bs) = Some ((pre @ [v]) @ vs)" "py_eq_list vs as'"
    by fastforce
  with v as show ?case unfolding o(3) fold_option_append by (intro exI [of _ "v # vs"]) simp
qed simp

text \<open>The patch carries exactly the changed fields.\<close>

lemma map_of_filter_key:
  "wf_dict d \<Longrightarrow> map_of (filter (\<lambda>(n, v). P n v) d) k = (case map_of d k of Some v \<Rightarrow> if P k v then Some v else None | None \<Rightarrow> None)"
  by (induction d) (auto simp: map_of_None_keys [symmetric] split: option.splits)

lemma py_get_py_update:
  "wf_dict e \<Longrightarrow> py_get (py_update d e) k = (case map_of e k of Some v \<Rightarrow> v | None \<Rightarrow> py_get d k)"
proof (induction e arbitrary: d)
  case (Cons p e)
  then show ?case
    by (cases p) (auto simp: py_update_Cons py_get_update map_of_None_keys [symmetric] split: option.splits)
qed simp

lemma turn_patch_correct:
  assumes "wf_dict a" "map_of a k \<noteq> None" "k \<notin> set TURN_IDENTITY_FIELDS" "k \<noteq> ''data''" "plain (PDict a)"
  shows "py_eq (py_get (py_update b (turn_patch b a)) k) (py_get a k)"
proof -
  from assms(2) obtain v where v: "map_of a k = Some v" by blast
  have "wf_dict (turn_patch b a)" unfolding turn_patch_def using assms(1) by simp
  moreover have "map_of (turn_patch b a) k = (if py_eq (py_get b k) v then None else Some v)"
    using assms v unfolding turn_patch_def
    by (simp add: map_of_filter_key [where P = "\<lambda>n v. n \<notin> set TURN_IDENTITY_FIELDS \<and> n \<noteq> ''data'' \<and> \<not> py_eq (py_get b n) v"])
  moreover have "plain v" using assms(5) v by (fastforce dest: map_of_SomeD)
  ultimately show ?thesis using v by (simp add: py_get_py_update py_eq_refl) (simp add: py_get_def py_eq_refl)
qed

lemma frame_delta_cases:
  assumes "frame_delta s s' n = Inr (Some f)"
  obtains ops where "data_delta_operations (data_list (state_to_dict s)) (data_list (state_to_dict s')) = Some ops"
    "\<forall>name \<in> set TURN_IDENTITY_FIELDS. py_eq (py_get (state_to_dict s) name) (py_get (state_to_dict s') name)"
    "nf_patch f = turn_patch (state_to_dict s) (state_to_dict s')" "nf_operations f = map op_to_dict ops" "nf_revision f = n"
  using assms unfolding frame_delta_def Let_def by (auto split: if_splits option.splits)

lemma data_list_plain:
  assumes "plain (PDict d)"
  shows "\<forall>v \<in> set (data_list d). plain v"
  using plain_get_list [OF assms, of "''data''"] by (cases "py_get d ''data''") (auto simp: data_list_def)

lemma state_fields_keys: "keys (state_to_dict s) = set state_fields"
  by (auto simp: state_to_dict_def state_fields_def)

text \<open>
  C22. A delta frame carries the whole change: a client that holds the old turn, applies the
  operations in order (it never has to refuse one) and overlays the patch, ends with the new turn,
  field by field up to Python equality. The one exception is stated as a hypothesis: an item whose
  text grew must have kept its status.
\<close>

theorem delta_replays:
  assumes "frame_delta s s' n = Inr (Some f)" "plain (PDict (state_to_dict s))" "plain (PDict (state_to_dict s'))"
    "\<forall>d m i t. op_to_dict (Append_text d m i t) \<in> set (nf_operations f) \<longrightarrow>
       (\<exists>st. status_at (data_list (state_to_dict s) ! nat d) m i = PStr st \<and>
            status_at (data_list (state_to_dict s') ! nat d) m i = PStr st)"
  shows "\<exists>ops vs. nf_operations f = map op_to_dict ops \<and> nf_revision f = n \<and>
    apply_ops ops (data_list (state_to_dict s)) = Some vs \<and> py_eq_list vs (data_list (state_to_dict s')) \<and>
    (\<forall>k \<in> set state_fields - {''data''}. py_eq (py_get (py_update (state_to_dict s) (nf_patch f)) k) (py_get (state_to_dict s') k))"
proof -
  let ?b = "state_to_dict s" and ?a = "state_to_dict s'"
  from assms(1) obtain ops where ops: "data_delta_operations (data_list ?b) (data_list ?a) = Some ops"
    and ids: "\<forall>name \<in> set TURN_IDENTITY_FIELDS. py_eq (py_get ?b name) (py_get ?a name)"
    and f: "nf_patch f = turn_patch ?b ?a" "nf_operations f = map op_to_dict ops" "nf_revision f = n"
    by (rule frame_delta_cases)
  have kept: "\<exists>st. status_at (data_list ?b ! (nat d - length [])) m i = PStr st \<and>
      status_at (data_list ?a ! (nat d - length [])) m i = PStr st" if "Append_text d m i t \<in> set ops" for d m i t
  proof -
    have "op_to_dict (Append_text d m i t) \<in> set (nf_operations f)" unfolding f(2) set_map using that by (rule imageI)
    with assms(4) show ?thesis unfolding list.size(3) diff_zero by blast
  qed
  have "\<exists>vs. fold_option apply_op ops ([] @ data_list ?b) = Some ([] @ vs) \<and> py_eq_list vs (data_list ?a)"
    using ops data_list_plain [OF assms(2)] data_list_plain [OF assms(3)]
    by (intro versions_delta_replay kept) (auto simp: data_delta_operations_def split: if_splits)
  moreover have "py_eq (py_get (py_update ?b (turn_patch ?b ?a)) k) (py_get ?a k)" if "k \<in> set state_fields - {''data''}" for k
  proof (cases "k \<in> set TURN_IDENTITY_FIELDS")
    case True
    have "k \<notin> keys (turn_patch ?b ?a)" using True by (auto simp: turn_patch_def)
    then have "map_of (turn_patch ?b ?a) k = None" by (simp only: map_of_None_keys not_False_eq_True)
    moreover have "wf_dict (turn_patch ?b ?a)" unfolding turn_patch_def using plain_wf [OF assms(3)] by simp
    ultimately show ?thesis using ids True by (simp add: py_get_py_update)
  next
    case False
    with that state_fields_keys [of s'] assms(3) show ?thesis
      by (intro turn_patch_correct) (auto simp: plain_wf map_of_None_keys)
  qed
  ultimately show ?thesis using f by (auto simp: apply_ops_def)
qed

definition sample_items :: "pyval \<Rightarrow> pyval \<Rightarrow> pyval" where
  "sample_items txt status = PList [PDict [(''type'', PStr ''text''), (''text'', txt), (''status'', status)]]"

definition sample_with :: "pyval \<Rightarrow> pyval \<Rightarrow> RuntimeState" where
  "sample_with txt status = projr (with_assistant_items flat_rs_host (sample_items txt status) sample_state)"

theorem delta_replays_witness:
  "\<exists>f ops vs. frame_delta (sample_with (PStr ''a'') (PStr ''running'')) (sample_with (PStr ''ab'') (PStr ''running'')) 1 = Inr (Some f) \<and>
     nf_operations f = map op_to_dict ops \<and>
     apply_ops ops (data_list (state_to_dict (sample_with (PStr ''a'') (PStr ''running'')))) = Some vs \<and>
     py_eq_list vs (data_list (state_to_dict (sample_with (PStr ''ab'') (PStr ''running''))))"
proof -
  let ?s = "sample_with (PStr ''a'') (PStr ''running'')" and ?s' = "sample_with (PStr ''ab'') (PStr ''running'')"
  have ex: "(case frame_delta ?s ?s' 1 of Inr (Some f) \<Rightarrow> nf_operations f = [op_to_dict (Append_text 0 1 0 ''b'')] | _ \<Rightarrow> False)"
    by code_simp
  obtain f where f: "frame_delta ?s ?s' 1 = Inr (Some f)" "nf_operations f = [op_to_dict (Append_text 0 1 0 ''b'')]"
    using ex by (auto split: sum.splits option.splits)
  have p: "plain (PDict (state_to_dict ?s))" "plain (PDict (state_to_dict ?s'))" by code_simp+
  have "status_at (data_list (state_to_dict ?s) ! 0) 1 0 = PStr ''running''"
    "status_at (data_list (state_to_dict ?s') ! 0) 1 0 = PStr ''running''" by code_simp+
  then have "\<exists>st. status_at (data_list (state_to_dict ?s) ! nat d) m i = PStr st \<and>
            status_at (data_list (state_to_dict ?s') ! nat d) m i = PStr st"
    if "op_to_dict (Append_text d m i t) \<in> set (nf_operations f)" for d m i t
    using that f(2) by auto
  then show ?thesis using delta_replays [OF f(1) p] f(1) by blast
qed

text \<open>The exception is real: when one update both extends an item's text and changes its status, the
  delta has the text operation only. The status change is dropped without an error, and the
  client's copy of the item keeps the old status.
\<close>

theorem delta_drops_status_change:
  "\<exists>f vs. frame_delta (sample_with (PStr ''a'') (PStr ''running'')) (sample_with (PStr ''ab'') (PStr ''success'')) 1 = Inr (Some f) \<and>
     nf_patch f = [] \<and> nf_operations f = [op_to_dict (Append_text 0 1 0 ''b'')] \<and>
     apply_ops [Append_text 0 1 0 ''b''] (data_list (state_to_dict (sample_with (PStr ''a'') (PStr ''running'')))) = Some vs \<and>
     status_at (vs ! 0) 1 0 = PStr ''running'' \<and>
     status_at (data_list (state_to_dict (sample_with (PStr ''ab'') (PStr ''success''))) ! 0) 1 0 = PStr ''success''"
proof -
  let ?s = "sample_with (PStr ''a'') (PStr ''running'')" and ?s' = "sample_with (PStr ''ab'') (PStr ''success'')"
  have "(case frame_delta ?s ?s' 1 of Inr (Some f) \<Rightarrow> nf_patch f = [] \<and> nf_operations f = [op_to_dict (Append_text 0 1 0 ''b'')] | _ \<Rightarrow> False)"
    "(case apply_ops [Append_text 0 1 0 ''b''] (data_list (state_to_dict ?s)) of Some vs \<Rightarrow> status_at (vs ! 0) 1 0 = PStr ''running'' | None \<Rightarrow> False)"
    "status_at (data_list (state_to_dict ?s') ! 0) 1 0 = PStr ''success''"
    by code_simp+
  then show ?thesis by (auto split: sum.splits option.splits)
qed

section \<open>Frames on the wire\<close>

lemma frame_int_PInt: "py_get d k = PInt i \<Longrightarrow> frame_int d k = Inr i"
  by (simp add: frame_int_def Let_def)

lemma frame_snapshot_roundtrip:
  assumes "state_ok h s"
  shows "bind_result (frame_to_dict (frame_snapshot s)) (frame_from_dict h) = Inr (frame_snapshot s)"
  using revalidate_ok [OF assms]
  by (simp add: frame_snapshot_def frame_to_dict_def frame_from_dict_def get_str_def py_get_def frame_int_def revalidate_def)

lemma frame_delta_roundtrip:
  assumes "nf_type f = ''turn.delta''" "nf_turn f = None"
  shows "bind_result (frame_to_dict f) (frame_from_dict h) = Inr f"
  using assms
  by (cases f; cases "nf_patch f = []"; cases "nf_operations f = []")
    (simp_all add: frame_to_dict_def frame_from_dict_def get_str_def py_get_def frame_int_def get_default_def Let_def
      dict_items_map [of "[]", simplified])

text \<open>Frames survive the journal: the snapshot of a constructed turn and every delta frame are
  recovered exactly from their dictionary form.
\<close>

theorem frame_roundtrip:
  assumes "host_ok h" "post_init h a = Inr s \<and> f = frame_snapshot s \<or> frame_delta before after n = Inr (Some f)"
  shows "bind_result (frame_to_dict f) (frame_from_dict h) = Inr f"
proof -
  have "nf_type f = ''turn.delta'' \<and> nf_turn f = None" if "frame_delta before after n = Inr (Some f)"
    using that unfolding frame_delta_def Let_def by (auto split: if_splits option.splits)
  with assms frame_snapshot_roundtrip frame_delta_roundtrip post_init_ok show ?thesis by blast
qed

theorem frame_roundtrip_witness:
  "bind_result (frame_to_dict (frame_snapshot sample_state)) (frame_from_dict flat_rs_host) = Inr (frame_snapshot sample_state)"
  using frame_roundtrip [OF flat_rs_host_ok, of "args_of sample_state" sample_state] sample_state_ok by blast

text \<open>No rendering of a value contains a line break.\<close>

lemma newline_join: "CHR 0x0A \<in> set (join sep xs) \<Longrightarrow> CHR 0x0A \<in> set sep \<or> (\<exists>x \<in> set xs. CHR 0x0A \<in> set x)"
  by (induction sep xs rule: join.induct) auto

lemma newline_json_str: "CHR 0x0A \<notin> set (json_str s)"
proof -
  have "CHR 0x0A \<notin> set (json_char c)" for c
  proof -
    have "CHR 0x0A \<noteq> hex_digit n" if "n < 16" for n
      using that by (auto simp: hex_digit_def dest: arg_cong [where f = "of_char :: char \<Rightarrow> nat"])
    moreover have "(of_char c :: nat) div 16 < 16" "(of_char c :: nat) mod 16 < 16" using of_char_mod_256 [of c]
      by (simp_all add: less_mult_imp_div_less)
    ultimately show ?thesis by (auto simp: json_char_def hex2_def Let_def)
  qed
  then show ?thesis by (auto simp: json_str_def)
qed

lemma newline_str_nat: "CHR 0x0A \<notin> set (str_nat n)"
proof (induction n rule: str_nat.induct)
  case (1 n)
  have "CHR 0x0A \<noteq> digit_char k" if "k < 10" for k
    using of_char_digit [OF that] by (auto dest: arg_cong [where f = "of_char :: char \<Rightarrow> nat"])
  with 1 show ?case by (subst str_nat.simps) auto
qed

lemma newline_float: "CHR 0x0A \<notin> set (float_repr f)"
proof -
  have "CHR 0x0A \<notin> set (fst (float_digits r))" for r
    by (simp add: float_digits_def Let_def newline_str_nat)
  then have "CHR 0x0A \<notin> set (unsigned_float_repr r)" for r
    unfolding unsigned_float_repr_def
    by (auto simp: Let_def rstrip_zeros_def newline_str_nat split: prod.splits
        dest!: in_set_takeD in_set_dropD set_dropWhileD) (metis fst_conv)+
  then show ?thesis by (cases f) auto
qed

lemma newline_json_float: "CHR 0x0A \<notin> set (json_float f)"
  using newline_float [of f] by (cases f) auto

lemma newline_json_dump: "CHR 0x0A \<notin> set (json_dump v)"
proof (induction v rule: json_dump.induct)
  case (1 xs)
  then show ?case by (auto dest!: newline_join)
next
  case (2 d)
  then show ?case by (auto simp: newline_json_str dest!: newline_join)
qed (auto simp: newline_json_str newline_json_float newline_str_nat str_int_def)

text \<open>
  C39. A frame is one server-sent event: its rendering is the \<open>data: \<close> prefix, one line and the
  blank line that ends an event, and the line itself contains no line break, whatever text the turn
  holds; so a client splits the stream at exactly the frame boundaries.
\<close>

theorem frame_is_one_event:
  assumes "as_sse f = Inr event"
  shows "\<exists>line. event = ''data: '' @ line @ [CHR 0x0A, CHR 0x0A] \<and> CHR 0x0A \<notin> set line"
  using assms newline_json_dump unfolding as_sse_def frame_to_json_def bind_result_Inr by blast

definition broken_frame :: NodeFrame where
  "broken_frame = \<lparr>nf_type = ''turn.delta'', nf_session_id = [CHR 0x0A], nf_turn_id = ''t'', nf_revision = 1,
     nf_turn = None, nf_patch = [], nf_operations = []\<rparr>"

theorem frame_is_one_event_witness:
  "\<exists>event line. as_sse broken_frame = Inr event \<and> event = ''data: '' @ line @ [CHR 0x0A, CHR 0x0A] \<and> CHR 0x0A \<notin> set line"
proof -
  obtain event where "as_sse broken_frame = Inr event"
    by (simp add: as_sse_def frame_to_json_def frame_to_dict_def broken_frame_def)
  with frame_is_one_event [OF this] show ?thesis by blast
qed

end
