(* ===== verification/NodeWriter.thy ===== *)
theory NodeWriter
  imports NodeTree TurnFrames
begin

text \<open>
  \<open>domain/runtime_state/writer.py\<close>: the writer through which a running turn changes.

  A writer holds the store, the dynamic copies of the turns it streams, the last revision published
  for each, and (as a list, oldest first) the frames handed to the \<open>emit\<close> callback. An operation
  is an action: it returns the writer it leaves behind also when it raises. The store is reached
  through \<open>store_ops\<close>; the two optional fields are the \<open>*_with_frame\<close> methods the code looks
  up with \<open>getattr\<close>. Copies of constructed turns are the turns themselves (\<open>revalidate_ok\<close>);
  where a caller supplies the object, \<open>revalidate\<close> is its reconstruction.
  The \<open>emit\<close> callback is taken not to raise: a delivery and the revision recorded for it are one step
  (\<open>publish\<close>). Everything else an operation calls, the store in particular, may fail.
\<close>

section \<open>The writer and the store it uses\<close>

record 'st store_ops =
  so_create :: "RuntimeState \<Rightarrow> 'st \<Rightarrow> rs_error + 'st"
  so_update :: "RuntimeState \<Rightarrow> 'st \<Rightarrow> rs_error + 'st"
  so_get :: "string \<Rightarrow> string \<Rightarrow> 'st \<Rightarrow> RuntimeNode option"
  so_create_with_frame :: "(RuntimeState \<Rightarrow> NodeFrame \<Rightarrow> 'st \<Rightarrow> rs_error + 'st) option"
  so_update_with_frame :: "(RuntimeState \<Rightarrow> NodeFrame \<Rightarrow> 'st \<Rightarrow> rs_error + 'st) option"

record 'st node_writer =
  w_store :: 'st
  w_emits_frames :: bool
  w_dynamic :: "(tree_key, RuntimeState) dict"
  w_revisions :: "(tree_key, int) dict"
  w_emitted :: "NodeFrame list"

type_synonym ('st, 'a) writing = "('st node_writer, rs_error, 'a) raising"

definition new_writer :: "'st \<Rightarrow> bool \<Rightarrow> 'st node_writer" where
  "new_writer st emits = \<lparr>w_store = st, w_emits_frames = emits, w_dynamic = [], w_revisions = [], w_emitted = []\<rparr>"

abbreviation state_key :: "RuntimeState \<Rightarrow> tree_key" where
  "state_key s \<equiv> (rs_session_id s, rs_id s)"

definition in_store :: "('st \<Rightarrow> rs_error + 'st) \<Rightarrow> ('st, unit) writing" where
  "in_store f w = (case f (w_store w) of Inl e \<Rightarrow> (w, Inl e) | Inr st \<Rightarrow> (w\<lparr>w_store := st\<rparr>, Inr ()))"

definition persist_with_frame :: "'st store_ops \<Rightarrow> RuntimeState \<Rightarrow> NodeFrame \<Rightarrow> ('st, unit) writing" where
  "persist_with_frame ops s f = in_store (case so_update_with_frame ops of
      Some g \<Rightarrow> g s f | None \<Rightarrow> so_update ops s)"

definition publish :: "NodeFrame \<Rightarrow> tree_key \<Rightarrow> int \<Rightarrow> ('st, unit) writing" where
  "publish f k n = change_action (\<lambda>w. w\<lparr>w_revisions := AList.update k n (w_revisions w), w_emitted := w_emitted w @ [f]\<rparr>)"

definition do_when :: "bool \<Rightarrow> ('st, unit) writing \<Rightarrow> ('st, unit) writing" where
  "do_when b m = (if b then m else lift_action (Inr ()))"

section \<open>Publishing\<close>

definition emit_snapshot :: "'st store_ops \<Rightarrow> RuntimeState \<Rightarrow> bool \<Rightarrow> ('st, unit) writing" where
  "emit_snapshot ops s persist w =
     (if \<not> w_emits_frames w then do_when persist (in_store (so_update ops s)) w
      else bind_action (do_when persist (persist_with_frame ops s (frame_snapshot s))) (\<lambda>_.
        publish (frame_snapshot s) (state_key s) 0) w)"

definition delta_frame :: "RuntimeState \<Rightarrow> int \<Rightarrow> pydict \<Rightarrow> pydict list \<Rightarrow> NodeFrame" where
  "delta_frame s n patch operations = \<lparr>nf_type = ''turn.delta'', nf_session_id = rs_session_id s, nf_turn_id = rs_id s,
     nf_revision = n, nf_turn = None, nf_patch = patch, nf_operations = operations\<rparr>"

definition emit_delta :: "'st store_ops \<Rightarrow> RuntimeState \<Rightarrow> pydict \<Rightarrow> pydict list \<Rightarrow> bool \<Rightarrow> ('st, unit) writing" where
  "emit_delta ops s patch operations persist w =
     (if \<not> w_emits_frames w \<or> (patch = [] \<and> operations = []) then do_when persist (in_store (so_update ops s)) w
      else case map_of (w_revisions w) (state_key s) of
          None \<Rightarrow> (w, Inl ValidationError)
        | Some previous \<Rightarrow>
            let f = delta_frame s (previous + 1) patch operations in
            bind_action (do_when persist (persist_with_frame ops s f)) (\<lambda>_. publish f (state_key s) (previous + 1)) w)"

definition store_dynamic :: "rs_host \<Rightarrow> RuntimeState \<Rightarrow> ('st, RuntimeState) writing" where
  "store_dynamic h s w = (case revalidate h s of Inl e \<Rightarrow> (w, Inl e)
     | Inr v \<Rightarrow> (w\<lparr>w_dynamic := AList.update (state_key v) v (w_dynamic w)\<rparr>, Inr v))"

section \<open>Creation, baseline and reading\<close>

definition w_create :: "'st store_ops \<Rightarrow> rs_host \<Rightarrow> RuntimeState \<Rightarrow> ('st, RuntimeState) writing" where
  "w_create ops h s =
     bind_action (lift_action (revalidate h s)) (\<lambda>v.
     bind_action (in_store (case so_create_with_frame ops of
         Some g \<Rightarrow> g v (frame_snapshot v) | None \<Rightarrow> so_create ops v)) (\<lambda>_.
     bind_action (change_action (\<lambda>w. w\<lparr>w_dynamic := AList.update (state_key v) v (w_dynamic w)\<rparr>)) (\<lambda>_ w.
       if w_emits_frames w then bind_action (publish (frame_snapshot v) (state_key v) 0) (\<lambda>_. lift_action (Inr v)) w
       else (w, Inr v))))"

definition w_snapshot :: "'st store_ops \<Rightarrow> rs_host \<Rightarrow> RuntimeState \<Rightarrow> ('st, RuntimeState) writing" where
  "w_snapshot ops h s =
     bind_action (store_dynamic h s) (\<lambda>v.
     bind_action (emit_snapshot ops v True) (\<lambda>_. lift_action (Inr v)))"

definition current :: "'st store_ops \<Rightarrow> string \<Rightarrow> string \<Rightarrow> ('st, RuntimeState) writing" where
  "current ops session_id i w = (w, case map_of (w_dynamic w) (session_id, i) of
      Some s \<Rightarrow> Inr s
    | None \<Rightarrow> (case so_get ops session_id i (w_store w) of
        None \<Rightarrow> Inl RsKeyError
      | Some (RootNode _) \<Rightarrow> Inl ValidationError
      | Some (TurnNode s) \<Rightarrow> Inr s))"

section \<open>Mutations\<close>

definition w_update :: "'st store_ops \<Rightarrow> rs_host \<Rightarrow> RuntimeState \<Rightarrow> bool \<Rightarrow> ('st, RuntimeState) writing" where
  "w_update ops h s persist =
     bind_action (current ops (rs_session_id s) (rs_id s)) (\<lambda>previous.
     bind_action (lift_action (revalidate h s)) (\<lambda>v w.
       case map_of (w_revisions w) (state_key v) of
         None \<Rightarrow>
           if w_emits_frames w then (w, Inl ValidationError)
           else bind_action (store_dynamic h v) (\<lambda>v.
             bind_action (do_when persist (in_store (so_update ops v))) (\<lambda>_. lift_action (Inr v))) w
       | Some previous_revision \<Rightarrow>
           bind_action (lift_action (if w_emits_frames w then frame_delta previous v (previous_revision + 1) else Inr None))
             (\<lambda>frame. bind_action (store_dynamic h v) (\<lambda>v.
             bind_action (case frame of
                 None \<Rightarrow> do_when persist (in_store (so_update ops v))
               | Some f \<Rightarrow> bind_action (do_when persist (persist_with_frame ops v f)) (\<lambda>_.
                   publish f (state_key v) (previous_revision + 1))) (\<lambda>_. lift_action (Inr v)))) w))"

definition w_update_data :: "'st store_ops \<Rightarrow> rs_host \<Rightarrow> RuntimeState \<Rightarrow> pyval \<Rightarrow> bool \<Rightarrow> ('st, RuntimeState) writing" where
  "w_update_data ops h s dat persist =
     bind_action (current ops (rs_session_id s) (rs_id s)) (\<lambda>c.
     bind_action (lift_action (validate_data dat)) (\<lambda>ds. w_update ops h (c\<lparr>rs_data := ds\<rparr>) persist))"

text \<open>\<open>_TURN_CONFIG_FIELDS\<close> and the dictionary key \<open>to_dict\<close> gives an attribute. Setting an attribute
  to an arbitrary value and rebuilding from \<open>to_dict\<close> is rebuilding from the dictionary with that
  entry overwritten.\<close>

definition TURN_CONFIG_FIELDS :: "string list" where
  "TURN_CONFIG_FIELDS = [''version'', ''first_kept_item_size'', ''compaction_id'', ''user'', ''provider_name'',
     ''model'', ''permission_mode'', ''running_mode'', ''usage'', ''cwd'', ''project_cwd'', ''timestamp'',
     ''status'', ''current_data_idx'']"

definition attribute_name :: "string \<Rightarrow> string" where
  "attribute_name n = (if n = ''firstKeptItemSize'' then ''first_kept_item_size''
     else if n = ''compactionId'' then ''compaction_id'' else n)"

definition dict_name :: "string \<Rightarrow> string" where
  "dict_name n = (if n = ''first_kept_item_size'' then ''firstKeptItemSize''
     else if n = ''compaction_id'' then ''compactionId'' else n)"

fun set_fields :: "(string \<times> pyval) list \<Rightarrow> pydict \<Rightarrow> rs_error + pydict" where
  "set_fields [] d = Inr d"
| "set_fields ((n, v) # changes) d =
     (if attribute_name n \<notin> set TURN_CONFIG_FIELDS then Inl ValidationError
      else set_fields changes (AList.update (dict_name (attribute_name n)) v d))"

definition w_update_config :: "'st store_ops \<Rightarrow> rs_host \<Rightarrow> RuntimeState \<Rightarrow> (string \<times> pyval) list \<Rightarrow> ('st, RuntimeState) writing" where
  "w_update_config ops h s changes =
     bind_action (current ops (rs_session_id s) (rs_id s)) (\<lambda>c.
     bind_action (lift_action (set_fields changes (state_to_dict c))) (\<lambda>d.
     bind_action (lift_action (state_from_dict h (PDict d))) (\<lambda>v.
     bind_action (store_dynamic h v) (\<lambda>v.
     bind_action (emit_delta ops v (turn_patch (state_to_dict c) (state_to_dict v)) [] True) (\<lambda>_.
       lift_action (Inr v))))))"

text \<open>Python's list indexing: a negative index counts from the end.\<close>

definition py_index :: "'a list \<Rightarrow> int \<Rightarrow> nat option" where
  "py_index xs i = (if 0 \<le> i \<and> i < int (length xs) then Some (nat i)
     else if - int (length xs) \<le> i \<and> i < 0 then Some (nat (int (length xs) + i)) else None)"

definition index_or :: "rs_error \<Rightarrow> 'a list \<Rightarrow> int \<Rightarrow> rs_error + nat" where
  "index_or e xs i = (case py_index xs i of Some n \<Rightarrow> Inr n | None \<Rightarrow> Inl e)"

definition w_append_message :: "'st store_ops \<Rightarrow> rs_host \<Rightarrow> RuntimeState \<Rightarrow> pydict \<Rightarrow> bool \<Rightarrow> ('st, RuntimeState) writing" where
  "w_append_message ops h s message persist =
     bind_action (current ops (rs_session_id s) (rs_id s)) (\<lambda>c.
     bind_action (lift_action (json_dict message)) (\<lambda>m.
     let d = nat (rs_current_data_idx c); ms = rs_data c ! d in
     bind_action (lift_action (validate_data (data_value ((rs_data c)[d := ms @ [m]])))) (\<lambda>ds.
     bind_action (store_dynamic h (c\<lparr>rs_data := ds\<rparr>)) (\<lambda>v.
     bind_action (emit_delta ops v []
         [op_to_dict (Append_message (rs_current_data_idx c) (int (length ms)) (PDict m))] persist) (\<lambda>_.
       lift_action (Inr v))))))"

text \<open>The items appended by \<open>append_items\<close>, normalised one by one.\<close>

fun normalize_items :: "pyval list \<Rightarrow> rs_error + pydict list" where
  "normalize_items [] = Inr []"
| "normalize_items (v # vs) = bind_result (normalize_content (PList [v])) (\<lambda>its.
     bind_result (normalize_items vs) (\<lambda>rest. Inr (hd its # rest)))"

definition append_content :: "turn_data \<Rightarrow> nat \<Rightarrow> nat \<Rightarrow> pydict list \<Rightarrow> turn_data" where
  "append_content ds d t its =
     ds[d := (ds ! d)[t := AList.update ''content'' (PList (map PDict (message_items (ds ! d ! t) @ its))) (ds ! d ! t)]]"

definition w_append_items ::
  "'st store_ops \<Rightarrow> rs_host \<Rightarrow> RuntimeState \<Rightarrow> pyval list \<Rightarrow> int option \<Rightarrow> bool \<Rightarrow> ('st, RuntimeState) writing" where
  "w_append_items ops h s items message_idx persist =
     bind_action (current ops (rs_session_id s) (rs_id s)) (\<lambda>c.
     let d = nat (rs_current_data_idx c); ms = rs_data c ! d;
         target_idx = (case message_idx of None \<Rightarrow> int (length ms) - 1 | Some i \<Rightarrow> i) in
     bind_action (lift_action (index_or ValidationError ms target_idx)) (\<lambda>t.
     bind_action (lift_action (check (message_role (ms ! t) = PStr ''assistant''))) (\<lambda>_.
     bind_action (lift_action (normalize_items items)) (\<lambda>its.
     bind_action (lift_action (validate_data (data_value (append_content (rs_data c) d t its)))) (\<lambda>ds.
     bind_action (store_dynamic h (c\<lparr>rs_data := ds\<rparr>)) (\<lambda>v.
     bind_action (emit_delta ops v []
         (map (\<lambda>(i, it). op_to_dict (Append_item (rs_current_data_idx c) target_idx (int i) (PDict it)))
           (enumerate (length (message_items (ms ! t))) its)) persist) (\<lambda>_.
       lift_action (Inr v))))))))"

definition w_append_item :: "'st store_ops \<Rightarrow> rs_host \<Rightarrow> RuntimeState \<Rightarrow> pydict \<Rightarrow> bool \<Rightarrow> ('st, RuntimeState) writing" where
  "w_append_item ops h s item persist = w_append_items ops h s [PDict item] None persist"

definition replace_item :: "turn_data \<Rightarrow> nat \<Rightarrow> nat \<Rightarrow> nat \<Rightarrow> pydict \<Rightarrow> turn_data" where
  "replace_item ds d m i it =
     ds[d := (ds ! d)[m := AList.update ''content'' (PList (map PDict ((message_items (ds ! d ! m))[i := it]))) (ds ! d ! m)]]"

definition w_set_item_status ::
  "'st store_ops \<Rightarrow> rs_host \<Rightarrow> RuntimeState \<Rightarrow> int \<Rightarrow> int \<Rightarrow> int \<Rightarrow> string \<Rightarrow> bool \<Rightarrow> ('st, RuntimeState) writing" where
  "w_set_item_status ops h s data_idx message_idx item_idx status persist =
     bind_action (lift_action (check (status \<in> ITEM_STATUSES))) (\<lambda>_.
     bind_action (current ops (rs_session_id s) (rs_id s)) (\<lambda>c.
     bind_action (lift_action (index_or ValidationError (rs_data c) data_idx)) (\<lambda>d.
     bind_action (lift_action (index_or ValidationError (rs_data c ! d) message_idx)) (\<lambda>m.
     bind_action (lift_action (index_or ValidationError (message_items (rs_data c ! d ! m)) item_idx)) (\<lambda>i.
     let item = AList.update ''status'' (PStr status) (message_items (rs_data c ! d ! m) ! i) in
     bind_action (lift_action (validate_data (data_value (replace_item (rs_data c) d m i item)))) (\<lambda>ds.
     bind_action (store_dynamic h (c\<lparr>rs_data := ds\<rparr>)) (\<lambda>v.
     bind_action (emit_delta ops v [] [op_to_dict (Set_item_status data_idx message_idx item_idx (PStr status))] persist) (\<lambda>_.
       lift_action (Inr v)))))))))"

definition w_append_text ::
  "'st store_ops \<Rightarrow> rs_host \<Rightarrow> RuntimeState \<Rightarrow> int \<Rightarrow> int option \<Rightarrow> int \<Rightarrow> string \<Rightarrow> bool \<Rightarrow> ('st, RuntimeState) writing" where
  "w_append_text ops h s data_idx message_idx item_idx delta persist =
     (if delta = [] then current ops (rs_session_id s) (rs_id s)
      else bind_action (current ops (rs_session_id s) (rs_id s)) (\<lambda>c.
     bind_action (lift_action (index_or ValidationError (rs_data c) data_idx)) (\<lambda>d.
     let ms = rs_data c ! d;
         target_idx = (case message_idx of None \<Rightarrow> int (length ms) - 1 | Some i \<Rightarrow> i) in
     bind_action (lift_action (index_or ValidationError ms target_idx)) (\<lambda>m.
     bind_action (lift_action (check (message_role (ms ! m) = PStr ''assistant''))) (\<lambda>_.
     bind_action (lift_action (index_or ValidationError (message_items (ms ! m)) item_idx)) (\<lambda>i.
     let item = message_items (ms ! m) ! i in
     bind_action (lift_action (check (py_get item ''type'' \<in> {PStr ''text'', PStr ''reasoning''} \<and> is_str (py_get item ''text'')))) (\<lambda>_.
     let item' = AList.update ''text'' (PStr (py_str (py_get item ''text'') @ delta)) item in
     bind_action (store_dynamic h (c\<lparr>rs_data := replace_item (rs_data c) d m i item'\<rparr>)) (\<lambda>v.
     bind_action (emit_delta ops v [] [op_to_dict (Append_text data_idx target_idx item_idx delta)] persist) (\<lambda>_.
       lift_action (Inr v))))))))))"

definition w_persist :: "'st store_ops \<Rightarrow> rs_host \<Rightarrow> RuntimeState \<Rightarrow> ('st, RuntimeState) writing" where
  "w_persist ops h s = bind_action (store_dynamic h s) (\<lambda>v.
     bind_action (in_store (so_update ops v)) (\<lambda>_. lift_action (Inr v)))"

definition w_finalize :: "'st store_ops \<Rightarrow> rs_host \<Rightarrow> RuntimeState \<Rightarrow> string \<Rightarrow> ('st, RuntimeState) writing" where
  "w_finalize ops h s status =
     bind_action (lift_action (check (status \<noteq> ''running''))) (\<lambda>_.
     bind_action (current ops (rs_session_id s) (rs_id s)) (\<lambda>c.
     bind_action (store_dynamic h (c\<lparr>rs_status := status\<rparr>)) (\<lambda>v.
     bind_action (emit_delta ops v [(''status'', PStr status)] [] True) (\<lambda>_.
     bind_action (change_action (\<lambda>w. w\<lparr>w_dynamic := AList.delete (state_key v) (w_dynamic w)\<rparr>)) (\<lambda>_.
       lift_action (Inr v))))))"

definition w_fail :: "'st store_ops \<Rightarrow> rs_host \<Rightarrow> string \<Rightarrow> string \<Rightarrow> string \<Rightarrow> ('st, RuntimeState) writing" where
  "w_fail ops h session_id i message =
     bind_action (current ops session_id i) (\<lambda>s.
     bind_action (lift_action (terminal_error_payload ''agent'' message False [])) (\<lambda>item.
     bind_action (w_append_item ops h s item True) (\<lambda>s. w_finalize ops h s ''failed'')))"

definition recoverable :: "RuntimeState \<Rightarrow> bool" where
  "recoverable s \<longleftrightarrow> rs_status s = ''paused''"

section \<open>Sequences of calls\<close>

datatype writer_call =
    Create RuntimeState
  | Snapshot RuntimeState
  | Update RuntimeState bool
  | Update_data RuntimeState pyval bool
  | Update_config RuntimeState "(string \<times> pyval) list"
  | Append_msg RuntimeState pydict bool
  | Append_its RuntimeState "pyval list" "int option" bool
  | Set_status RuntimeState int int int string bool
  | Append_txt RuntimeState int "int option" int string bool
  | Persist RuntimeState
  | Finalize RuntimeState string
  | Fail string string string

fun run_call :: "'st store_ops \<Rightarrow> rs_host \<Rightarrow> writer_call \<Rightarrow> ('st, RuntimeState) writing" where
  "run_call ops h (Create s) = w_create ops h s"
| "run_call ops h (Snapshot s) = w_snapshot ops h s"
| "run_call ops h (Update s p) = w_update ops h s p"
| "run_call ops h (Update_data s v p) = w_update_data ops h s v p"
| "run_call ops h (Update_config s cs) = w_update_config ops h s cs"
| "run_call ops h (Append_msg s m p) = w_append_message ops h s m p"
| "run_call ops h (Append_its s its m p) = w_append_items ops h s its m p"
| "run_call ops h (Set_status s d m i st p) = w_set_item_status ops h s d m i st p"
| "run_call ops h (Append_txt s d m i t p) = w_append_text ops h s d m i t p"
| "run_call ops h (Persist s) = w_persist ops h s"
| "run_call ops h (Finalize s st) = w_finalize ops h s st"
| "run_call ops h (Fail session i msg) = w_fail ops h session i msg"

definition run_calls :: "'st store_ops \<Rightarrow> rs_host \<Rightarrow> writer_call list \<Rightarrow> 'st node_writer \<Rightarrow> 'st node_writer" where
  "run_calls ops h calls w = foldl (\<lambda>w c. fst (run_call ops h c w)) w calls"

lemma run_calls_keeps:
  assumes "\<And>c. keeps P (run_call ops h c)" "P w"
  shows "P (run_calls ops h calls w)"
  unfolding run_calls_def using assms(2)
  by (induction calls arbitrary: w) (auto intro: keepsD [OF assms(1)])

lemma revalidate_identity: "revalidate h s = Inr v \<Longrightarrow> same_identity v s"
  unfolding revalidate_def state_from_to_dict
  by (auto simp: post_init_def bind_result_Inr same_identity_def args_of_def)

lemma frame_delta_facts:
  "frame_delta s v n = Inr (Some f) \<Longrightarrow> nf_type f = ''turn.delta'' \<and> nf_session_id f = rs_session_id v \<and>
     nf_turn_id f = rs_id v \<and> nf_revision f = n"
  unfolding frame_delta_def Let_def by (auto split: if_splits option.splits)

text \<open>A property of the writer that the building blocks keep is kept by every operation.\<close>

lemma operations_keep:
  assumes st: "\<And>f. keeps P (in_store f)" and dyn: "\<And>s. keeps P (store_dynamic h s)"
    and put: "\<And>s. keeps P (change_action (\<lambda>w. w\<lparr>w_dynamic := AList.update (state_key s) s (w_dynamic w)\<rparr>) :: ('st, unit) writing)"
    and del: "\<And>k. keeps P (change_action (\<lambda>w. w\<lparr>w_dynamic := AList.delete k (w_dynamic w)\<rparr>) :: ('st, unit) writing)"
    and snap: "\<And>s. keeps P (publish (frame_snapshot s) (state_key s) 0)"
    and delta: "\<And>w f k n. P w \<Longrightarrow> map_of (w_revisions w) k = Some n \<Longrightarrow> nf_type f = ''turn.delta'' \<Longrightarrow>
      (nf_session_id f, nf_turn_id f) = k \<Longrightarrow> nf_revision f = n + 1 \<Longrightarrow> P (fst (publish f k (n + 1) w))"
  shows "keeps P (run_call (ops :: 'st store_ops) h c)"
proof -
  have dw: "keeps P (do_when b (in_store f))" for b f
    by (simp add: do_when_def st keeps_lift)
  have persist: "keeps P (do_when b (persist_with_frame ops s f))" for b s f
    by (simp add: persist_with_frame_def dw)
  have cur: "keeps P (current ops x y)" for x y
    by (simp add: keeps_def current_def)
  have stored: "P (fst (bind_action (do_when b (persist_with_frame ops s f)) (\<lambda>_. publish f k (n + 1)) w))"
    if "P w" "map_of (w_revisions w) k = Some n" "nf_type f = ''turn.delta''" "(nf_session_id f, nf_turn_id f) = k"
      "nf_revision f = n + 1" for b s f k n w
  proof -
    have "w_revisions (fst (do_when b (persist_with_frame ops s f) w)) = w_revisions w"
      by (auto simp: do_when_def persist_with_frame_def in_store_def split: sum.splits)
    with that delta [of "fst (do_when b (persist_with_frame ops s f) w)" k n f] keepsD [OF persist [of b s f] that(1)]
    show ?thesis by (auto simp: bind_action_def split: prod.splits sum.splits)
  qed
  have ed: "keeps P (emit_delta ops s patch operations b)" for s patch operations b
    by (rule keepsI) (auto simp: emit_delta_def Let_def intro!: keepsD [OF dw] stored split: option.splits
        simp: delta_frame_def)
  have es: "keeps P (emit_snapshot ops s b)" for s b
    by (rule keepsI) (auto simp: emit_snapshot_def intro!: keepsD [OF dw] keepsD [OF keeps_bind] persist snap)
  note basic = keeps_bind keeps_lift cur dyn ed es st dw del
  have items: "keeps P (w_append_items ops h s its m p)" for s its m p
    unfolding w_append_items_def Let_def by (intro basic)
  have final: "keeps P (w_finalize ops h s status)" for s status
    unfolding w_finalize_def by (intro basic)
  have upd: "keeps P (w_update ops h s p)" for s p
    unfolding w_update_def
  proof (intro keeps_bind cur keeps_lift keepsI)
    fix prev v w assume w: "P w"
    let ?tail = "\<lambda>frame n v. bind_action (case frame of None \<Rightarrow> do_when p (in_store (so_update ops v))
      | Some f \<Rightarrow> bind_action (do_when p (persist_with_frame ops v f)) (\<lambda>_. publish f (state_key v) (n + 1))) (\<lambda>_. lift_action (Inr v))"
    have plain: "keeps P (bind_action (store_dynamic h v) (?tail None n))" for n
      by (intro basic) (simp add: dw)
    have framed: "P (fst (bind_action (store_dynamic h v) (?tail (Some f) n) w))"
      if "map_of (w_revisions w) (state_key v) = Some n" "frame_delta prev v (n + 1) = Inr (Some f)" for f n
    proof (cases "revalidate h v")
      case (Inr v')
      let ?w = "fst (store_dynamic h v w)"
      have "P (fst (bind_action (do_when p (persist_with_frame ops v' f)) (\<lambda>_. publish f (state_key v') (n + 1)) ?w))"
        using keepsD [OF dyn [of v] w] that frame_delta_facts [OF that(2)] revalidate_identity [OF Inr]
        by (intro stored) (auto simp: store_dynamic_def Inr same_identity_def)
      then show ?thesis using Inr by (auto simp: bind_action_def store_dynamic_def split: prod.splits sum.splits)
    qed (use w in \<open>simp add: bind_action_def store_dynamic_def\<close>)
    show "P (fst (case map_of (w_revisions w) (state_key v) of
         None \<Rightarrow>
           if w_emits_frames w then (w, Inl ValidationError)
           else bind_action (store_dynamic h v) (\<lambda>v.
             bind_action (do_when p (in_store (so_update ops v))) (\<lambda>_. lift_action (Inr v))) w
       | Some n \<Rightarrow>
           bind_action (lift_action (if w_emits_frames w then frame_delta prev v (n + 1) else Inr None))
             (\<lambda>frame. bind_action (store_dynamic h v) (?tail frame n)) w))"
    proof (cases "map_of (w_revisions w) (state_key v)")
      case None
      with w keepsD [OF plain [of 0] w] show ?thesis by simp
    next
      case (Some n)
      let ?r = "if w_emits_frames w then frame_delta prev v (n + 1) else Inr None"
      consider e where "?r = Inl e" | "?r = Inr None" | f where "?r = Inr (Some f)" "frame_delta prev v (n + 1) = Inr (Some f)"
        by (cases ?r; cases "projr ?r") (auto split: if_splits)
      then show ?thesis
      proof cases
        case 3
        then show ?thesis using framed [OF Some 3(2)] Some by simp
      qed (use w Some keepsD [OF plain [of n] w] in simp_all)
    qed
  qed
  have create: "keeps P (w_create ops h s)" for s
  proof -
    have "keeps P (\<lambda>w. if w_emits_frames w then bind_action (publish (frame_snapshot v) (state_key v) 0) (\<lambda>_. lift_action (Inr v)) w
        else (w, Inr v))" for v
      using keepsD [OF keeps_bind [OF snap [of v] keeps_lift]] by (auto intro!: keepsI)
    then show ?thesis unfolding w_create_def by (intro basic put)
  qed
  show ?thesis
    by (cases c) (auto simp: upd items final create w_snapshot_def w_update_data_def w_update_config_def
        w_append_message_def w_set_item_status_def w_append_text_def w_persist_def w_fail_def w_append_item_def Let_def
        intro!: basic)
qed

section \<open>Published revisions\<close>

definition frames_of :: "tree_key \<Rightarrow> NodeFrame list \<Rightarrow> NodeFrame list" where
  "frames_of k fs = filter (\<lambda>f. (nf_session_id f, nf_turn_id f) = k) fs"

text \<open>What a client of one turn requires of its stream: a snapshot starts it (again) at revision 0, and
  a delta comes directly after the revision before it.\<close>

fun consecutive :: "int option \<Rightarrow> NodeFrame list \<Rightarrow> bool" where
  "consecutive r [] \<longleftrightarrow> True"
| "consecutive r (f # fs) \<longleftrightarrow>
     (nf_type f = ''turn.snapshot'' \<and> nf_revision f = 0 \<or>
      nf_type f = ''turn.delta'' \<and> r \<noteq> None \<and> nf_revision f = the r + 1) \<and> consecutive (Some (nf_revision f)) fs"

fun last_revision :: "int option \<Rightarrow> NodeFrame list \<Rightarrow> int option" where
  "last_revision r [] = r"
| "last_revision r (f # fs) = last_revision (Some (nf_revision f)) fs"

lemma consecutive_append:
  "consecutive r (xs @ ys) \<longleftrightarrow> consecutive r xs \<and> consecutive (last_revision r xs) ys"
  by (induction xs arbitrary: r) auto

lemma last_revision_append: "last_revision r (xs @ ys) = last_revision (last_revision r xs) ys"
  by (induction xs arbitrary: r) auto

definition stream_ok :: "'st node_writer \<Rightarrow> bool" where
  "stream_ok w \<longleftrightarrow> (\<forall>k. consecutive None (frames_of k (w_emitted w)) \<and>
     map_of (w_revisions w) k = last_revision None (frames_of k (w_emitted w)))"

lemma stream_ok_cong:
  "w_revisions w' = w_revisions w \<Longrightarrow> w_emitted w' = w_emitted w \<Longrightarrow> stream_ok w \<Longrightarrow> stream_ok w'"
  by (simp add: stream_ok_def)

lemma frames_of_snoc:
  "frames_of k (fs @ [f]) = (if (nf_session_id f, nf_turn_id f) = k then frames_of k fs @ [f] else frames_of k fs)"
  by (simp add: frames_of_def)

lemma stream_ok_keeps: "keeps stream_ok (run_call ops h c)"
proof (rule operations_keep)
  fix w :: "'a node_writer" and f :: NodeFrame and k and n :: int
  assume w: "stream_ok w" "map_of (w_revisions w) k = Some n" and f: "nf_type f = ''turn.delta''"
    "(nf_session_id f, nf_turn_id f) = k" "nf_revision f = n + 1"
  then have "last_revision None (frames_of k (w_emitted w)) = Some n" unfolding stream_ok_def by metis
  with w f show "stream_ok (fst (publish f k (n + 1) w))"
    by (auto simp: stream_ok_def publish_def frames_of_snoc consecutive_append last_revision_append)
next
  fix s
  show "keeps stream_ok (publish (frame_snapshot s) (state_key s) 0 :: ('a, unit) writing)"
    by (rule keepsI) (auto simp: stream_ok_def publish_def frames_of_snoc consecutive_append last_revision_append
        frame_snapshot_def)
qed (auto intro!: keepsI simp: in_store_def store_dynamic_def stream_ok_cong split: sum.splits)

text \<open>
  C9. Every client can follow the stream: whatever calls are made on a writer, in whatever order and
  with whatever failures of the store, the frames published for a turn start with a snapshot at
  revision 0, and each delta carries the revision after the frame before it. Frames of other turns
  in between make no difference.
\<close>

theorem published_revisions_consecutive:
  "consecutive None (frames_of k (w_emitted (run_calls ops h calls (new_writer st emits))))"
proof -
  have "stream_ok (run_calls ops h calls (new_writer st emits))"
    by (rule run_calls_keeps [OF stream_ok_keeps]) (simp add: stream_ok_def new_writer_def frames_of_def)
  then show ?thesis unfolding stream_ok_def by blast
qed

section \<open>Mutations and the frames that carry them\<close>

text \<open>Every message holds a list of items.\<close>

definition listed :: "turn_data \<Rightarrow> bool" where
  "listed ds \<longleftrightarrow> (\<forall>ms \<in> set ds. \<forall>m \<in> set ms. map_of m ''content'' = Some (PList (map PDict (message_items m))))"

lemma message_items_eq: "map_of m ''content'' = Some (PList (map PDict its)) \<Longrightarrow> message_items m = its"
  by (simp add: message_items_def py_get_def)

lemma message_ok_listed: "message_ok first previous m \<Longrightarrow> map_of m ''content'' = Some (PList (map PDict (message_items m)))"
  unfolding message_ok_def using message_items_eq by metis

lemma version_ok_listed:
  "version_ok first previous ms \<Longrightarrow> m \<in> set ms \<Longrightarrow> map_of m ''content'' = Some (PList (map PDict (message_items m)))"
  by (induction first previous ms rule: version_ok.induct) (auto simp: message_ok_listed)

lemma turn_ok_listed: "turn_ok ds \<Longrightarrow> listed ds"
  by (auto simp: turn_ok_def listed_def version_ok_listed)

lemma validate_messages_listed:
  assumes "validate_messages first previous (map PDict ms) = Inr ms'"
    "\<forall>m \<in> set ms. map_of m ''content'' = Some (PList (map PDict (message_items m)))"
  shows "ms' = ms"
  using assms
proof (induction ms arbitrary: first previous ms')
  case (Cons m ms)
  then obtain role m1 ms1 where v: "validate_message first previous (PDict m) = Inr (role, m1)"
    "validate_messages False (Some role) (map PDict ms) = Inr ms1" "ms' = m1 # ms1"
    by (auto simp: bind_result_Inr)
  from Cons.prems(2) have c: "map_of m ''content'' = Some (PList (map PDict (message_items m)))" by simp
  from v(1) obtain its where its: "normalize_content (py_get m ''content'') = Inr its"
    and m1: "m1 = AList.update ''content'' (PList (map PDict its)) m"
    by (auto simp: validate_message_def bind_result_Inr mapping_Inr json_dict_Inr Let_def)
  have "map PDict its = map PDict (message_items m)"
    using its c by (simp add: py_get_def normalize_content_def map_result_items)
  with m1 c have "m1 = m" by (simp add: update_triv)
  with v(3) Cons.IH [OF v(2)] Cons.prems(2) show ?case by simp
qed simp

lemma validate_data_listed:
  assumes "validate_data (data_value ds) = Inr ds'" "listed ds"
  shows "ds' = ds"
proof -
  have "list_all2 (\<lambda>ms ms'. validate_version (PList (map PDict ms)) = Inr ms') ds ds'"
    using assms(1) map_result_InrD
    by (fastforce simp: validate_data_def data_value_def list_all2_map1 split: if_splits)
  then show ?thesis using assms(2)
  proof (induction rule: list_all2_induct)
    case (Cons ms ds ms' ds')
    then have "validate_messages True None (map PDict ms) = Inr ms'"
      by (auto simp: validate_version_def split: if_splits)
    with Cons validate_messages_listed show ?case by (auto simp: listed_def)
  qed simp
qed

lemma revalidate_data:
  assumes "state_ok h c" "revalidate h (c\<lparr>rs_data := ds\<rparr>) = Inr v"
  shows "\<exists>ds'. validate_data (data_value ds) = Inr ds' \<and> v = c\<lparr>rs_data := ds'\<rparr>"
  using assms unfolding revalidate_def state_from_to_dict
  by (cases c) (auto simp: post_init_def bind_result_Inr args_of_def state_ok_def int_of_Inr check_member_def)

lemma stored_data:
  assumes "state_ok h c" "listed ds" "store_dynamic h (c\<lparr>rs_data := ds\<rparr>) w = (w', Inr v)"
  shows "v = c\<lparr>rs_data := ds\<rparr> \<and> w' = w\<lparr>w_dynamic := AList.update (state_key c) v (w_dynamic w)\<rparr>"
proof -
  from assms(3) have r: "revalidate h (c\<lparr>rs_data := ds\<rparr>) = Inr v"
    and w': "w' = w\<lparr>w_dynamic := AList.update (state_key v) v (w_dynamic w)\<rparr>"
    by (auto simp: store_dynamic_def split: sum.splits)
  from revalidate_data [OF assms(1) r] validate_data_listed assms(2) have "v = c\<lparr>rs_data := ds\<rparr>" by blast
  with w' show ?thesis by simp
qed








lemma listed_update:
  assumes "listed ds" "\<And>m. m \<in> set ms \<Longrightarrow> m \<in> set (ds ! d) \<or> map_of m ''content'' = Some (PList (map PDict (message_items m)))" "d < length ds"
  shows "listed (ds[d := ms])"
  using assms unfolding listed_def by (fastforce dest!: set_update_subset_insert [THEN subsetD])

lemma listed_content: "map_of (AList.update ''content'' (PList (map PDict its)) m) ''content''
    = Some (PList (map PDict (message_items (AList.update ''content'' (PList (map PDict its)) m))))"
  by (simp add: message_items_def py_get_update)

lemma listed_append_content:
  assumes "listed ds" "d < length ds"
  shows "listed (append_content ds d t its)"
  unfolding append_content_def
  by (rule listed_update [OF assms(1) _ assms(2)])
    (auto dest!: set_update_subset_insert [THEN subsetD] simp: listed_content simp del: map_of_update map_append)


lemma emit_delta_dynamic: "w_dynamic (fst (emit_delta ops s patch operations p w)) = w_dynamic w"
  by (auto simp: emit_delta_def do_when_def persist_with_frame_def in_store_def bind_action_def publish_def Let_def
      split: option.splits sum.splits)






lemma current_idx: "state_ok h c \<Longrightarrow> nat (rs_current_data_idx c) < length (rs_data c) \<and> int (nat (rs_current_data_idx c)) = rs_current_data_idx c"
  by (auto simp: state_ok_def)

lemma bind_current: "current ops a b w = (w, Inr c) \<Longrightarrow> bind_action (current ops a b) f w = f c w"
  by (simp add: bind_action_def)








section \<open>The in-memory store as the writer's store\<close>

definition memory_ops :: "nodes store_ops" where
  "memory_ops = \<lparr>so_create = create_node, so_update = update_node, so_get = get_node,
     so_create_with_frame = None, so_update_with_frame = None\<rparr>"

definition sample_writer :: "nodes node_writer" where
  "sample_writer = fst (w_snapshot memory_ops flat_rs_host sample_state (new_writer sample_store True))"

lemma sample_writer_eq:
  "sample_writer = \<lparr>w_store = AList.update (''s'', ''a'') (TurnNode sample_state) sample_store, w_emits_frames = True,
     w_dynamic = [((''s'', ''a''), sample_state)], w_revisions = [((''s'', ''a''), 0)],
     w_emitted = [frame_snapshot sample_state]\<rparr>"
proof -
  have k: "rs_session_id sample_state = ''s''" "rs_id sample_state = ''a''" by code_simp+
  have r: "revalidate flat_rs_host sample_state = Inr sample_state"
    by (rule revalidate_ok [OF post_init_ok [OF flat_rs_host_ok sample_state_ok]])
  have g: "map_of sample_store (''s'', ''a'') \<noteq> None" using sample_store_get by (simp add: get_node_def)
  show ?thesis
    using g by (simp add: sample_writer_def w_snapshot_def new_writer_def store_dynamic_def bind_action_def r k emit_snapshot_def
        do_when_def persist_with_frame_def in_store_def memory_ops_def update_node_def publish_def)
qed

lemma sample_writer_current: "current memory_ops ''s'' ''a'' sample_writer = (sample_writer, Inr sample_state)"
  by (simp add: sample_writer_eq current_def)

lemma sample_state_key: "rs_session_id sample_state = ''s''" "rs_id sample_state = ''a''"
  by code_simp+


text \<open>
  What is published is not always what is stored: \<open>append_message\<close> puts the message it was given
  into the frame, and normalises only the stored copy. A message whose content is a string is
  stored as a list with one text item and published with the bare string.
\<close>

lemma appended_message_published_raw:
  "\<exists>w' v. w_append_message memory_ops flat_rs_host sample_state
       [(''role'', PStr ''user''), (''content'', PStr ''go'')] True sample_writer = (w', Inr v) \<and>
     map_of (last (hd (rs_data v))) ''content'' =
       Some (PList [PDict [(''type'', PStr ''text''), (''text'', PStr ''go''), (''status'', PStr ''success'')]]) \<and>
     nf_operations (last (w_emitted w')) =
       [op_to_dict (Append_message 0 2 (PDict [(''role'', PStr ''user''), (''content'', PStr ''go'')]))]"
proof -
  have "(case w_append_message memory_ops flat_rs_host sample_state
       [(''role'', PStr ''user''), (''content'', PStr ''go'')] True sample_writer of (w', Inr v) \<Rightarrow>
     map_of (last (hd (rs_data v))) ''content'' =
       Some (PList [PDict [(''type'', PStr ''text''), (''text'', PStr ''go''), (''status'', PStr ''success'')]]) \<and>
     nf_operations (last (w_emitted w')) =
       [op_to_dict (Append_message 0 2 (PDict [(''role'', PStr ''user''), (''content'', PStr ''go'')]))] | _ \<Rightarrow> False)"
    by code_simp
  then show ?thesis by (auto split: prod.splits sum.splits)
qed

text \<open>A call that raises can still change the turn: on a publishing writer that has no baseline for a
  stored turn, \<open>append_items\<close> raises \<open>A Turn delta requires a baseline snapshot\<close> after it has
  replaced the dynamic copy, so the writer's current turn holds the item that no client was told of.
\<close>

theorem rejected_append_is_kept:
  "\<exists>w' c. w_append_items memory_ops flat_rs_host sample_state
       [PDict [(''type'', PStr ''text''), (''text'', PStr ''a''), (''status'', PStr ''success'')]] None True
       (new_writer sample_store True) = (w', Inl ValidationError) \<and> w_emitted w' = [] \<and>
     current memory_ops (rs_session_id sample_state) (rs_id sample_state) w' = (w', Inr c) \<and>
     assistant_items sample_state = [] \<and> length (assistant_items c) = 1"
proof -
  let ?w = "fst (w_append_items memory_ops flat_rs_host sample_state
       [PDict [(''type'', PStr ''text''), (''text'', PStr ''a''), (''status'', PStr ''success'')]] None True
       (new_writer sample_store True))"
  have "(case w_append_items memory_ops flat_rs_host sample_state
       [PDict [(''type'', PStr ''text''), (''text'', PStr ''a''), (''status'', PStr ''success'')]] None True
       (new_writer sample_store True) of (w', Inl ValidationError) \<Rightarrow> w_emitted w' = [] \<and>
     (case current memory_ops (rs_session_id sample_state) (rs_id sample_state) w' of
        (w2, Inr c) \<Rightarrow> length (assistant_items c) = 1 | _ \<Rightarrow> False) | _ \<Rightarrow> False)"
    "assistant_items sample_state = []"
    by code_simp+
  then show ?thesis by (auto simp: current_def split: prod.splits sum.splits rs_error.splits)
qed

section \<open>The contract of a node store\<close>

text \<open>What the writer relies on: an update, with or without its frame, makes the turn the one that is read
  back, leaves every other node alone, and does not fail for a node that exists.\<close>

definition store_updates :: "'st store_ops \<Rightarrow> RuntimeState \<Rightarrow> 'st \<Rightarrow> (rs_error + 'st) set" where
  "store_updates ops s st = insert (so_update ops s st)
     (case so_update_with_frame ops of None \<Rightarrow> {} | Some g \<Rightarrow> range (\<lambda>f. g s f st))"

locale node_store =
  fixes ops :: "'st store_ops"
  assumes update_kept: "Inr st' \<in> store_updates ops s st \<Longrightarrow> so_get ops (rs_session_id s) (rs_id s) st' = Some (TurnNode s)"
    and update_other: "Inr st' \<in> store_updates ops s st \<Longrightarrow> (a, b) \<noteq> state_key s \<Longrightarrow> so_get ops a b st' = so_get ops a b st"
    and update_known: "so_get ops (rs_session_id s) (rs_id s) st \<noteq> None \<Longrightarrow> r \<in> store_updates ops s st \<Longrightarrow> \<exists>st'. r = Inr st'"
begin

lemma persist_step:
  "\<exists>r \<in> store_updates ops s (w_store w). persist_with_frame ops s f w = (case r of Inl e \<Rightarrow> (w, Inl e) | Inr st \<Rightarrow> (w\<lparr>w_store := st\<rparr>, Inr ()))"
  by (auto simp: persist_with_frame_def in_store_def store_updates_def split: option.splits)

lemma in_store_step:
  "\<exists>r \<in> store_updates ops s (w_store w). in_store (so_update ops s) w = (case r of Inl e \<Rightarrow> (w, Inl e) | Inr st \<Rightarrow> (w\<lparr>w_store := st\<rparr>, Inr ()))"
  by (auto simp: in_store_def store_updates_def)

text \<open>A persisted delta reaches the store and, on a publishing writer with a baseline, cannot fail for a
  known turn.\<close>

lemma emit_delta_persists:
  assumes "so_get ops (rs_session_id s) (rs_id s) (w_store w) \<noteq> None" "w_emits_frames w \<longrightarrow> map_of (w_revisions w) (state_key s) \<noteq> None"
  shows "\<exists>w'. emit_delta ops s patch operations True w = (w', Inr ()) \<and> w_dynamic w' = w_dynamic w \<and>
    so_get ops (rs_session_id s) (rs_id s) (w_store w') = Some (TurnNode s) \<and>
    (\<forall>a b. (a, b) \<noteq> state_key s \<longrightarrow> so_get ops a b (w_store w') = so_get ops a b (w_store w))"
proof -
  have stored: "\<exists>st. x = (w\<lparr>w_store := st\<rparr>, Inr ()) \<and> Inr st \<in> store_updates ops s (w_store w)"
    if "\<exists>r \<in> store_updates ops s (w_store w). x = (case r of Inl e \<Rightarrow> (w, Inl e) | Inr st \<Rightarrow> (w\<lparr>w_store := st\<rparr>, Inr ()))"
    for x :: "'st node_writer \<times> (rs_error + unit)"
    using that update_known [OF assms(1)] by fastforce
  have frame: "\<exists>st. persist_with_frame ops s f w = (w\<lparr>w_store := st\<rparr>, Inr ()) \<and> Inr st \<in> store_updates ops s (w_store w)" for f
    by (rule stored) (rule persist_step)
  have bare: "\<exists>st. in_store (so_update ops s) w = (w\<lparr>w_store := st\<rparr>, Inr ()) \<and> Inr st \<in> store_updates ops s (w_store w)"
    by (rule stored) (rule in_store_step)
  show ?thesis
  proof (cases "\<not> w_emits_frames w \<or> patch = [] \<and> operations = []")
    case True
    from bare obtain st where st: "in_store (so_update ops s) w = (w\<lparr>w_store := st\<rparr>, Inr ())" "Inr st \<in> store_updates ops s (w_store w)"
      by blast
    with True update_kept [OF st(2)] update_other [OF st(2)] show ?thesis
      by (intro exI [of _ "w\<lparr>w_store := st\<rparr>"]) (simp add: emit_delta_def do_when_def)
  next
    case False
    with assms(2) obtain n where n: "map_of (w_revisions w) (state_key s) = Some n" by auto
    let ?f = "delta_frame s (n + 1) patch operations"
    from frame obtain st where st: "persist_with_frame ops s ?f w = (w\<lparr>w_store := st\<rparr>, Inr ())" "Inr st \<in> store_updates ops s (w_store w)"
      by blast
    have "emit_delta ops s patch operations True w = publish ?f (state_key s) (n + 1) (w\<lparr>w_store := st\<rparr>)"
      using False n st(1) by (auto simp: emit_delta_def do_when_def bind_action_def Let_def)
    with update_kept [OF st(2)] update_other [OF st(2)] show ?thesis by (simp add: publish_def)
  qed
qed

lemma finalize_durable:
  assumes c: "current ops (rs_session_id s) (rs_id s) w = (w, Inr c)" "state_ok h c" "state_key c = state_key s"
    and st: "status \<in> NODE_STATUSES" "status \<noteq> ''running''"
    and known: "so_get ops (rs_session_id s) (rs_id s) (w_store w) \<noteq> None"
    and base: "w_emits_frames w \<longrightarrow> map_of (w_revisions w) (state_key s) \<noteq> None" and settled: "settled (rs_data c)"
  shows "\<exists>w'. w_finalize ops h s status w = (w', Inr (c\<lparr>rs_status := status\<rparr>)) \<and>
    so_get ops (rs_session_id s) (rs_id s) (w_store w') = Some (TurnNode (c\<lparr>rs_status := status\<rparr>)) \<and>
    map_of (w_dynamic w') (state_key s) = None \<and>
    (\<forall>a b. (a, b) \<noteq> state_key s \<longrightarrow> so_get ops a b (w_store w') = so_get ops a b (w_store w))"
proof -
  let ?v = "c\<lparr>rs_status := status\<rparr>"
  have "parents_ok (args_of ?v) = parents_ok (args_of c)" by (simp add: parents_ok_def args_of_def)
  then have "state_ok h ?v" using c(2) st settled by (simp add: state_ok_def)
  then have "revalidate h ?v = Inr ?v" by (rule revalidate_ok)
  then have dyn: "store_dynamic h ?v w = (w\<lparr>w_dynamic := AList.update (state_key ?v) ?v (w_dynamic w)\<rparr>, Inr ?v)"
    by (simp add: store_dynamic_def)
  from emit_delta_persists [of ?v "w\<lparr>w_dynamic := AList.update (state_key ?v) ?v (w_dynamic w)\<rparr>" "[(''status'', PStr status)]" "[]"]
    known base c(3)
  obtain w2 where "emit_delta ops ?v [(''status'', PStr status)] [] True
        (w\<lparr>w_dynamic := AList.update (state_key ?v) ?v (w_dynamic w)\<rparr>) = (w2, Inr ())"
    "so_get ops (rs_session_id s) (rs_id s) (w_store w2) = Some (TurnNode ?v)"
    "\<forall>a b. (a, b) \<noteq> state_key s \<longrightarrow> so_get ops a b (w_store w2) = so_get ops a b (w_store w)" by auto
  with st dyn c(1,3) show ?thesis by (simp add: w_finalize_def bind_action_def)
qed

end

lemma finalize_unsettled:
  assumes "current ops (rs_session_id s) (rs_id s) w = (w, Inr c)" "state_ok h c" "status \<in> NODE_STATUSES" "status \<noteq> ''running''" "\<not> settled (rs_data c)"
  shows "w_finalize ops h s status w = (w, Inl ValidationError)"
proof -
  let ?v = "c\<lparr>rs_status := status\<rparr>"
  have "parents_ok (args_of ?v) = parents_ok (args_of c)" by (simp add: parents_ok_def args_of_def)
  with assms(2-5) have "post_init h (args_of ?v) = Inl ValidationError"
    by (auto simp: post_init_def state_ok_def args_of_def check_member_def unhashable_def int_of_def check_def turn_ok_validate)
  then have "revalidate h ?v = Inl ValidationError" by (simp add: revalidate_def state_from_to_dict)
  with assms show ?thesis by (simp add: w_finalize_def bind_action_def store_dynamic_def)
qed

interpretation node_memory: node_store memory_ops
  by unfold_locales (auto simp: store_updates_def memory_ops_def update_node_def get_node_def split: if_splits)

text \<open>
  C27. Finalising is exact: for a valid turn that the store knows and clients have a baseline of, a
  stopping status is accepted if and only if every version ends with an assistant message and no
  item is still running. When accepted, the store returns the turn with that status, the dynamic
  copy is gone and no other node changed; when refused, the writer and the store are untouched.
\<close>

theorem finalize_exact:
  assumes "current memory_ops (rs_session_id s) (rs_id s) w = (w, Inr c)" "state_ok h c" "state_key c = state_key s"
    "status \<in> NODE_STATUSES" "status \<noteq> ''running''" "get_node (rs_session_id s) (rs_id s) (w_store w) \<noteq> None"
    "w_emits_frames w \<longrightarrow> map_of (w_revisions w) (state_key s) \<noteq> None"
  shows "(settled (rs_data c) \<longrightarrow> (\<exists>w'. w_finalize memory_ops h s status w = (w', Inr (c\<lparr>rs_status := status\<rparr>)) \<and>
      get_node (rs_session_id s) (rs_id s) (w_store w') = Some (TurnNode (c\<lparr>rs_status := status\<rparr>)) \<and>
      map_of (w_dynamic w') (state_key s) = None \<and>
      (\<forall>a b. (a, b) \<noteq> state_key s \<longrightarrow> get_node a b (w_store w') = get_node a b (w_store w)))) \<and>
    (\<not> settled (rs_data c) \<longrightarrow> w_finalize memory_ops h s status w = (w, Inl ValidationError))"
proof -
  have get: "so_get memory_ops = get_node" by (simp add: memory_ops_def)
  show ?thesis
    using node_memory.finalize_durable [OF assms(1-5) _ assms(7), unfolded get] finalize_unsettled [OF assms(1,2,4,5)] assms(6)
    by blast
qed

theorem finalize_exact_witness:
  "\<exists>w'. w_finalize memory_ops flat_rs_host sample_state ''success'' sample_writer = (w', Inr (sample_state\<lparr>rs_status := ''success''\<rparr>)) \<and>
     get_node ''s'' ''a'' (w_store w') = Some (TurnNode (sample_state\<lparr>rs_status := ''success''\<rparr>))"
proof -
  have st: "''success'' \<in> NODE_STATUSES" "settled (rs_data sample_state)" by code_simp+
  have ok: "state_ok flat_rs_host sample_state" by (rule post_init_ok [OF flat_rs_host_ok sample_state_ok])
  have w: "get_node ''s'' ''a'' (w_store sample_writer) \<noteq> None" "map_of (w_revisions sample_writer) (''s'', ''a'') \<noteq> None"
    by (simp_all add: sample_writer_eq get_node_def)
  from finalize_exact [of sample_state sample_writer sample_state flat_rs_host "''success''"] st ok w sample_writer_current
  show ?thesis by (auto simp: sample_state_key)
qed

text \<open>Failing a turn: the error item is appended first, and whatever becomes of that, the turn keeps its
  status until it is finalised.\<close>

lemma append_item_result:
  assumes run: "w_append_item ops h s item p w = (w', Inr v)" and c: "current ops (rs_session_id s) (rs_id s) w = (w, Inr c)"
    and ok: "state_ok h c"
  shows "\<exists>t its. v = c\<lparr>rs_data := append_content (rs_data c) (nat (rs_current_data_idx c)) t its\<rparr> \<and>
    map_of (w_dynamic w') (state_key c) = Some v"
proof -
  let ?d = "nat (rs_current_data_idx c)"
  have l: "listed (rs_data c)" using ok turn_ok_listed by (simp add: state_ok_def)
  from run obtain t its ds w1 opl where ds: "validate_data (data_value (append_content (rs_data c) ?d t its)) = Inr ds"
    and w1: "store_dynamic h (c\<lparr>rs_data := ds\<rparr>) w = (w1, Inr v)" and e: "emit_delta ops v [] opl p w1 = (w', Inr ())"
    unfolding w_append_item_def w_append_items_def bind_current [OF c]
    by (auto simp: bind_action_Inr Let_def simp del: normalize_items.simps)
  have ls: "listed (append_content (rs_data c) ?d t its)" using l current_idx [OF ok] by (intro listed_append_content) simp_all
  have "ds = append_content (rs_data c) ?d t its" by (rule validate_data_listed [OF ds ls])
  with stored_data [OF ok ls, of w w1 v] w1
  have v: "v = c\<lparr>rs_data := append_content (rs_data c) ?d t its\<rparr>" "w1 = w\<lparr>w_dynamic := AList.update (state_key c) v (w_dynamic w)\<rparr>" by simp_all
  with emit_delta_dynamic [of ops v "[]" opl p w1] e have "map_of (w_dynamic w') (state_key c) = Some v" by simp
  with v(1) show ?thesis by blast
qed

lemma message_items_update: "message_items (AList.update ''content'' (PList (map PDict its)) m) = its"
  by (rule message_items_eq) simp

definition has_running_item :: "turn_data \<Rightarrow> bool" where
  "has_running_item ds \<longleftrightarrow> (\<exists>ms \<in> set ds. \<exists>m \<in> set ms. \<exists>it \<in> set (message_items m). py_get it ''status'' = PStr ''running'')"

lemma running_item_kept:
  assumes "has_running_item ds" "d < length ds"
  shows "has_running_item (append_content ds d t its)"
proof -
  let ?ds = "append_content ds d t its"
  from assms(1) obtain j q it where j: "j < length ds" "q < length (ds ! j)" "it \<in> set (message_items (ds ! j ! q))"
    "py_get it ''status'' = PStr ''running''" unfolding has_running_item_def by (metis in_set_conv_nth)
  have "message_items (?ds ! j ! q) = (if j = d \<and> q = t then message_items (ds ! j ! q) @ its else message_items (ds ! j ! q))"
    using j by (cases "j = d") (auto simp: append_content_def nth_list_update message_items_update simp del: map_append)
  with j(3) have it: "it \<in> set (message_items (?ds ! j ! q))" by (auto split: if_splits)
  have "length (?ds ! j) = length (ds ! j)" using assms(2) j(1) by (simp add: append_content_def nth_list_update)
  moreover have "length ?ds = length ds" by (simp add: append_content_def)
  ultimately have "?ds ! j ! q \<in> set (?ds ! j)" "?ds ! j \<in> set ?ds" using j by simp_all
  with it j(4) show ?thesis unfolding has_running_item_def by blast
qed

lemma running_not_settled: "has_running_item ds \<Longrightarrow> \<not> settled ds"
  unfolding has_running_item_def settled_def by blast

lemma finalize_running_refused:
  assumes "current ops (rs_session_id v) (rs_id v) w = (w, Inr v)" "listed (rs_data v)" "has_running_item (rs_data v)" "status \<noteq> ''running''"
  shows "\<exists>e. w_finalize ops h v status w = (w, Inl e)"
proof -
  have "revalidate h (v\<lparr>rs_status := status\<rparr>) \<noteq> Inr u" for u
  proof
    assume "revalidate h (v\<lparr>rs_status := status\<rparr>) = Inr u"
    then have "\<exists>ds. validate_data (data_value (rs_data v)) = Inr ds \<and> settled ds"
      unfolding revalidate_def state_from_to_dict using assms(4)
      by (auto simp: post_init_def bind_result_Inr args_of_def)
    then show False using running_not_settled [OF assms(3)] validate_data_listed [OF _ assms(2)] by blast
  qed
  then obtain e where "revalidate h (v\<lparr>rs_status := status\<rparr>) = Inl e" by (cases "revalidate h (v\<lparr>rs_status := status\<rparr>)") auto
  with assms(1,4) show ?thesis by (simp add: w_finalize_def bind_action_def store_dynamic_def)
qed

text \<open>Failing a turn is not total: while an item of the turn is running, \<open>fail\<close> always raises, because
  it finalises the turn and a stopped turn may not contain running items. It does not settle those
  items first, and when its error item was accepted the writer's turn still has its old status.
\<close>

theorem fail_refused_while_running:
  assumes c: "current ops session i w = (w, Inr c)" "state_ok h c" "state_key c = (session, i)" and run: "has_running_item (rs_data c)"
  shows "\<exists>w' e. w_fail ops h session i msg w = (w', Inl e) \<and>
    (\<forall>item v w1. terminal_error_payload ''agent'' msg False [] = Inr item \<longrightarrow> w_append_item ops h c item True w = (w1, Inr v) \<longrightarrow>
       current ops session i w' = (w', Inr v) \<and> rs_status v = rs_status c)"
proof -
  have c': "current ops (rs_session_id c) (rs_id c) w = (w, Inr c)" using c by simp
  have l: "listed (rs_data c)" using c(2) turn_ok_listed by (simp add: state_ok_def)
  have final: "\<exists>e. w_finalize ops h v ''failed'' w1 = (w1, Inl e) \<and> current ops session i w1 = (w1, Inr v) \<and> rs_status v = rs_status c"
    if a: "w_append_item ops h c item True w = (w1, Inr v)" for item w1 v
  proof -
    from append_item_result [OF a c' c(2)] obtain t its where
      v: "v = c\<lparr>rs_data := append_content (rs_data c) (nat (rs_current_data_idx c)) t its\<rparr>"
      and dyn: "map_of (w_dynamic w1) (state_key c) = Some v" by blast
    have "current ops (rs_session_id v) (rs_id v) w1 = (w1, Inr v)" using dyn by (simp add: current_def v)
    moreover have "listed (rs_data v)" "has_running_item (rs_data v)"
      using listed_append_content [OF l] running_item_kept [OF run] current_idx [OF c(2)] by (simp_all add: v)
    ultimately show ?thesis using finalize_running_refused [of ops v w1 "''failed''" h] c(3) by (auto simp: v)
  qed
  show ?thesis
  proof (cases "terminal_error_payload ''agent'' msg False []")
    case (Inl e)
    with c(1) show ?thesis by (simp add: w_fail_def bind_action_def)
  next
    case (Inr item)
    obtain w1 r where a: "w_append_item ops h c item True w = (w1, r)" by fastforce
    show ?thesis
    proof (cases r)
      case (Inl e)
      with a Inr c(1) show ?thesis by (simp add: w_fail_def bind_action_def)
    next
      case r: (Inr v)
      with a Inr c(1) final [of item w1 v] show ?thesis by (auto simp: w_fail_def bind_action_def)
    qed
  qed
qed

definition busy_state :: RuntimeState where
  "busy_state = sample_with (PStr ''a'') (PStr ''running'')"

definition busy_writer :: "nodes node_writer" where
  "busy_writer = sample_writer\<lparr>w_dynamic := [((''s'', ''a''), busy_state)]\<rparr>"

theorem fail_refused_while_running_witness:
  "\<exists>w' e. w_fail memory_ops flat_rs_host ''s'' ''a'' ''boom'' busy_writer = (w', Inl e)"
proof -
  have c: "current memory_ops ''s'' ''a'' busy_writer = (busy_writer, Inr busy_state)"
    by (simp add: current_def busy_writer_def)
  have "post_init flat_rs_host (args_of busy_state) = Inr busy_state" "state_key busy_state = (''s'', ''a'')"
    "has_running_item (rs_data busy_state)" by code_simp+
  with fail_refused_while_running [OF c post_init_ok [OF flat_rs_host_ok]] show ?thesis by blast
qed

section \<open>The writer keeps the history linked\<close>

text \<open>The calls that work on the writer's own copy keep a turn's identity; so the store a writer works on
  stays one of the reachable stores, and the history theorems of the store apply to it. \<open>writer_inv\<close> ties
  the dynamic copies to the stored turns.\<close>

definition writer_inv :: "nodes node_writer \<Rightarrow> bool" where
  "writer_inv w \<longleftrightarrow> store_reachable (w_store w) \<and>
     (\<forall>k s. map_of (w_dynamic w) k = Some s \<longrightarrow> state_key s = k \<and>
        (\<exists>t. map_of (w_store w) k = Some (TurnNode t) \<and> same_identity s t))"

lemma same_identity_trans: "same_identity s t \<Longrightarrow> same_identity t u \<Longrightarrow> same_identity s u"
  by (simp add: same_identity_def)

lemma same_identity_sym: "same_identity s t \<Longrightarrow> same_identity t s"
  by (simp add: same_identity_def)

lemma same_identity_key: "same_identity s t \<Longrightarrow> state_key s = state_key t"
  by (simp add: same_identity_def)

text \<open>An action on a turn: it keeps the invariant when it starts from a turn that is stored under the same
  identity.\<close>

definition tied :: "RuntimeState \<Rightarrow> nodes node_writer \<Rightarrow> bool" where
  "tied s w \<longleftrightarrow> writer_inv w \<and> (\<exists>t. map_of (w_store w) (state_key s) = Some (TurnNode t) \<and> same_identity s t)"

lemma tied_dynamic:
  assumes "tied s w" "same_identity v s"
  shows "tied v (w\<lparr>w_dynamic := AList.update (state_key v) v (w_dynamic w)\<rparr>)"
  using assms same_identity_trans same_identity_key [OF assms(2)]
  unfolding tied_def writer_inv_def by (auto split: if_splits)

lemma tied_update:
  assumes "tied s w" "update_node s (w_store w) = Inr st"
  shows "tied s (w\<lparr>w_store := st\<rparr>)"
proof -
  from assms(1) obtain t where t: "map_of (w_store w) (state_key s) = Some (TurnNode t)" "same_identity s t"
    and inv: "writer_inv w" by (auto simp: tied_def)
  have st: "st = AList.update (state_key s) (TurnNode s) (w_store w)"
    using assms(2) by (auto simp: update_node_def split: if_splits)
  have reach: "store_reachable st"
    using inv t assms(2) by (auto simp: writer_inv_def intro: sr_update)
  have dyn: "state_key d = k \<and> (\<exists>t. map_of st k = Some (TurnNode t) \<and> same_identity d t)" if "map_of (w_dynamic w) k = Some d" for k d
  proof -
    from inv that obtain t' where d: "state_key d = k" "map_of (w_store w) k = Some (TurnNode t')" "same_identity d t'"
      unfolding writer_inv_def by blast
    show ?thesis
    proof (cases "k = state_key s")
      case True
      with d t have "same_identity d s" by (auto intro: same_identity_trans same_identity_sym)
      with True d(1) show ?thesis by (simp add: st)
    next
      case False
      with d show ?thesis by (auto simp: st)
    qed
  qed
  have "map_of st (state_key s) = Some (TurnNode s)" "same_identity s s" by (simp_all add: st same_identity_def)
  with reach dyn show ?thesis unfolding tied_def writer_inv_def by simp
qed

text \<open>Actions that keep the turn \<open>s\<close> tied, whatever they return.\<close>

lemma keeps_tied_in_store:
  assumes "tied s w" "same_identity v s"
  shows "tied s (fst (in_store (update_node v) w))"
proof -
  have "tied v w" using assms same_identity_key [OF assms(2)] same_identity_trans unfolding tied_def by auto
  then have "tied v (fst (in_store (update_node v) w))"
    by (auto simp: in_store_def tied_update split: sum.splits)
  then show ?thesis using assms(2) same_identity_key [OF assms(2)] unfolding tied_def
    by (auto intro: same_identity_trans same_identity_sym)
qed

lemma tied_emit_delta:
  assumes "tied s w" "same_identity v s"
  shows "tied s (fst (emit_delta memory_ops v patch operations p w))"
proof -
  have upd: "tied s (fst (do_when p (in_store (update_node v)) w))"
    using assms keeps_tied_in_store by (simp add: do_when_def)
  have pub: "tied s (fst (publish f k n w1)) = tied s w1" for f k n w1
    by (simp add: publish_def tied_def writer_inv_def)
  show ?thesis
    using upd assms(1)
    by (auto simp: emit_delta_def memory_ops_def persist_with_frame_def bind_action_def pub Let_def split: option.splits prod.splits sum.splits)
qed

lemma tied_lift: "tied c w \<Longrightarrow> tied c (fst (lift_action r w))"
  by simp

lemma tied_bind_lift:
  "tied c w \<Longrightarrow> (\<And>x. r = Inr x \<Longrightarrow> tied c (fst (f x w))) \<Longrightarrow> tied c (fst (bind_action (lift_action r) f w))"
  by (cases r) simp_all

lemma tied_bind_store:
  assumes "tied c w" "same_identity x c" "\<And>v w1. same_identity v c \<Longrightarrow> tied c w1 \<Longrightarrow> tied c (fst (f v w1))"
  shows "tied c (fst (bind_action (store_dynamic h x) f w))"
proof (cases "revalidate h x")
  case (Inr v)
  have v: "same_identity v c" using revalidate_identity [OF Inr] assms(2) by (rule same_identity_trans)
  from tied_dynamic [OF assms(1) v] have "tied c (w\<lparr>w_dynamic := AList.update (state_key v) v (w_dynamic w)\<rparr>)"
    using v same_identity_key [OF v] unfolding tied_def by (auto intro: same_identity_trans same_identity_sym)
  with assms(3) [OF v] Inr show ?thesis by (simp add: bind_action_def store_dynamic_def)
qed (use assms(1) in \<open>simp add: bind_action_def store_dynamic_def\<close>)

lemma tied_bind_emit:
  assumes "tied c w" "same_identity v c" "\<And>w1. tied c w1 \<Longrightarrow> tied c (fst (f () w1))"
  shows "tied c (fst (bind_action (emit_delta memory_ops v patch operations p) f w))"
  using tied_emit_delta [OF assms(1,2), of patch operations p] assms(3)
  by (auto simp: bind_action_def split: prod.splits sum.splits)

lemma current_tied:
  assumes "writer_inv w" "\<And>c. tied c w \<Longrightarrow> current memory_ops a b w = (w, Inr c) \<Longrightarrow> tied c (fst (f c w))"
  shows "writer_inv (fst (bind_action (current memory_ops a b) f w))"
proof (cases "snd (current memory_ops a b w)")
  case (Inl e)
  with assms(1) show ?thesis by (simp add: bind_action_def current_def)
next
  case (Inr c)
  have cur: "current memory_ops a b w = (w, Inr c)" using Inr by (simp add: current_def)
  have "tied c w"
  proof (cases "map_of (w_dynamic w) (a, b)")
    case (Some s)
    with Inr assms(1) show ?thesis by (fastforce simp: current_def tied_def writer_inv_def)
  next
    case None
    with Inr have c: "map_of (w_store w) (a, b) = Some (TurnNode c)"
      by (auto simp: current_def memory_ops_def get_node_def split: option.splits RuntimeNode.splits)
    have "store_inv (w_store w)" using assms(1) store_reachable_inv by (auto simp: writer_inv_def)
    with c have "state_key c = (a, b)" by (fastforce simp: store_inv_def keyed_def node_key_def dest: map_of_SomeD)
    with c assms(1) show ?thesis by (simp add: tied_def same_identity_def)
  qed
  with assms(2) [of c] cur have "writer_inv (fst (f c w))" unfolding tied_def by blast
  with cur show ?thesis by (simp add: bind_current)
qed

lemma current_key:
  assumes "writer_inv w" "current memory_ops a b w = (w, Inr c)"
  shows "state_key c = (a, b)"
proof (cases "map_of (w_dynamic w) (a, b)")
  case (Some s)
  with assms show ?thesis by (auto simp: current_def writer_inv_def)
next
  case None
  with assms(2) have c: "map_of (w_store w) (a, b) = Some (TurnNode c)"
    by (auto simp: current_def memory_ops_def get_node_def split: option.splits RuntimeNode.splits)
  have "store_inv (w_store w)" using assms(1) store_reachable_inv by (auto simp: writer_inv_def)
  with c show ?thesis by (fastforce simp: store_inv_def keyed_def node_key_def dest: map_of_SomeD)
qed

lemmas tied_intros = tied_lift tied_bind_lift tied_bind_store tied_bind_emit

lemma same_identity_data [simp]: "same_identity (c\<lparr>rs_data := ds\<rparr>) c" "same_identity (c\<lparr>rs_status := st\<rparr>) c" "same_identity c c"
  by (simp_all add: same_identity_def)

lemma append_items_inv: "writer_inv w \<Longrightarrow> writer_inv (fst (w_append_items memory_ops h s its m p w))"
  unfolding w_append_items_def Let_def by (erule current_tied) (auto intro!: tied_intros)

lemma append_message_inv: "writer_inv w \<Longrightarrow> writer_inv (fst (w_append_message memory_ops h s m p w))"
  unfolding w_append_message_def Let_def by (erule current_tied) (auto intro!: tied_intros)

lemma append_text_inv: "writer_inv w \<Longrightarrow> writer_inv (fst (w_append_text memory_ops h s d m i t p w))"
  unfolding w_append_text_def Let_def
  by (cases "t = []") (simp add: current_def, auto intro!: tied_intros elim!: current_tied)

lemma set_item_status_inv:
  assumes "writer_inv w"
  shows "writer_inv (fst (w_set_item_status memory_ops h s d m i st p w))"
proof -
  have "w_set_item_status memory_ops h s d m i st p w = (if st \<in> ITEM_STATUSES then
      bind_action (current memory_ops (rs_session_id s) (rs_id s)) (\<lambda>c.
     bind_action (lift_action (index_or ValidationError (rs_data c) d)) (\<lambda>d'.
     bind_action (lift_action (index_or ValidationError (rs_data c ! d') m)) (\<lambda>m'.
     bind_action (lift_action (index_or ValidationError (message_items (rs_data c ! d' ! m')) i)) (\<lambda>i'.
     bind_action (lift_action (validate_data (data_value (replace_item (rs_data c) d' m' i'
       (AList.update ''status'' (PStr st) (message_items (rs_data c ! d' ! m') ! i')))))) (\<lambda>ds.
     bind_action (store_dynamic h (c\<lparr>rs_data := ds\<rparr>)) (\<lambda>v.
     bind_action (emit_delta memory_ops v [] [op_to_dict (Set_item_status d m i (PStr st))] p) (\<lambda>_.
       lift_action (Inr v)))))))) w else (w, Inl ValidationError))"
    by (auto simp: w_set_item_status_def check_def Let_def)
  with assms show ?thesis by (auto intro!: tied_intros elim!: current_tied)
qed

lemma update_config_identity:
  assumes "set_fields changes (state_to_dict c) = Inr d" "state_from_dict h (PDict d) = Inr v"
  shows "same_identity v c"
proof -
  have kept: "set_fields changes e = Inr d \<Longrightarrow> \<forall>k \<in> set TURN_IDENTITY_FIELDS. map_of d k = map_of e k" for e
  proof (induction changes arbitrary: e)
    case (Cons nv changes)
    obtain n v where nv: "nv = (n, v)" by (cases nv)
    with Cons.prems have n: "attribute_name n \<in> set TURN_CONFIG_FIELDS"
      and r: "set_fields changes (AList.update (dict_name (attribute_name n)) v e) = Inr d" by (auto split: if_splits)
    have "dict_name (attribute_name n) \<notin> set TURN_IDENTITY_FIELDS"
      using n by (auto simp: TURN_CONFIG_FIELDS_def TURN_IDENTITY_FIELDS_def dict_name_def)
    with Cons.IH [OF r] show ?case by auto
  qed simp
  have "string_field d k [] = string_field (state_to_dict c) k []" if "k \<in> set TURN_IDENTITY_FIELDS" for k
    using kept [OF assms(1)] that by (simp add: string_field_def)
  then have "string_field d ''thread_id'' [] = Inr (rs_thread_id c)" "string_field d ''parent_thread_id'' [] = Inr (rs_parent_thread_id c)"
    "string_field d ''session_id'' [] = Inr (rs_session_id c)" "string_field d ''parent_session_id'' [] = Inr (rs_parent_session_id c)"
    "string_field d ''id'' [] = Inr (rs_id c)" "string_field d ''parent_id'' [] = Inr (rs_parent_id c)"
    by (simp_all add: TURN_IDENTITY_FIELDS_def state_to_dict_def string_field_PStr)
  with assms(2) show ?thesis
    by (auto simp: state_from_dict_def bind_result_Inr mapping_Inr post_init_def same_identity_def)
qed

lemma update_config_inv: "writer_inv w \<Longrightarrow> writer_inv (fst (w_update_config memory_ops h s changes w))"
  unfolding w_update_config_def by (erule current_tied) (auto intro!: tied_intros update_config_identity)

lemma finalize_inv:
  assumes "writer_inv w"
  shows "writer_inv (fst (w_finalize memory_ops h s status w))"
proof -
  have del: "tied c w1 \<Longrightarrow> tied c (w1\<lparr>w_dynamic := AList.delete k (w_dynamic w1)\<rparr>)" for c w1 k
    by (auto simp: tied_def writer_inv_def)
  show ?thesis
  proof (cases "status = ''running''")
    case False
    have "writer_inv (fst (bind_action (current memory_ops (rs_session_id s) (rs_id s)) (\<lambda>c.
     bind_action (store_dynamic h (c\<lparr>rs_status := status\<rparr>)) (\<lambda>v.
     bind_action (emit_delta memory_ops v [(''status'', PStr status)] [] True) (\<lambda>_.
     bind_action (change_action (\<lambda>w. w\<lparr>w_dynamic := AList.delete (state_key v) (w_dynamic w)\<rparr>)) (\<lambda>_.
       lift_action (Inr v))))) w))"
      using assms by (rule current_tied) (auto intro!: tied_intros del)
    with False show ?thesis by (simp add: w_finalize_def check_def)
  qed (use assms in \<open>simp add: w_finalize_def check_def\<close>)
qed

lemma frame_delta_identity: "frame_delta s v n = Inr r \<Longrightarrow> same_identity v s"
proof -
  assume "frame_delta s v n = Inr r"
  then have "\<forall>k \<in> set TURN_IDENTITY_FIELDS. py_eq (py_get (state_to_dict s) k) (py_get (state_to_dict v) k)"
    unfolding frame_delta_def Let_def by (auto split: if_splits)
  then show ?thesis by (simp add: TURN_IDENTITY_FIELDS_def state_to_dict_def py_get_def same_identity_def)
qed

lemma tied_bind:
  "tied c (fst (m w)) \<Longrightarrow> (\<And>x w1. tied c w1 \<Longrightarrow> tied c (fst (f x w1))) \<Longrightarrow> tied c (fst (bind_action m f w))"
  by (auto simp: bind_action_def split: prod.splits sum.splits)

lemma update_tail_tied:
  assumes "tied c w" "same_identity v c"
  shows "tied c (fst (bind_action (store_dynamic h v) (\<lambda>v. bind_action (case frame of
       None \<Rightarrow> do_when p (in_store (so_update memory_ops v))
     | Some f \<Rightarrow> bind_action (do_when p (persist_with_frame memory_ops v f)) (\<lambda>_. publish f (state_key v) n)) (\<lambda>_. lift_action (Inr v))) w))"
proof (rule tied_bind_store [OF assms], rule tied_bind)
  fix u w1 assume u: "same_identity u c" "tied c w1"
  have dw: "tied c (fst (do_when p (in_store (update_node u)) w1))"
    using keeps_tied_in_store [OF u(2,1)] u(2) by (simp add: do_when_def)
  have pub: "tied c (fst (publish f k n w2)) = tied c w2" for f k n w2
    by (simp add: publish_def tied_def writer_inv_def)
  show "tied c (fst ((case frame of None \<Rightarrow> do_when p (in_store (so_update memory_ops u))
     | Some f \<Rightarrow> bind_action (do_when p (persist_with_frame memory_ops u f)) (\<lambda>_. publish f (state_key u) n)) w1))"
    using dw by (auto simp: memory_ops_def persist_with_frame_def pub split: option.splits intro!: tied_bind)
qed simp

text \<open>\<open>update\<close> checks the identity of the caller's object only when it publishes.\<close>

lemma update_inv:
  assumes w: "writer_inv w" and id: "w_emits_frames w \<or> (\<forall>c. current memory_ops (rs_session_id s) (rs_id s) w = (w, Inr c) \<longrightarrow> same_identity s c)"
  shows "writer_inv (fst (w_update memory_ops h s p w))"
  unfolding w_update_def
proof (rule current_tied [OF w], rule tied_bind_lift)
  fix c v assume c: "tied c w" "current memory_ops (rs_session_id s) (rs_id s) w = (w, Inr c)" and v: "revalidate h s = Inr v"
  have quiet: "same_identity v c" if "\<not> w_emits_frames w"
    using id c(2) that revalidate_identity [OF v] same_identity_trans by blast
  show "tied c (fst (case map_of (w_revisions w) (state_key v) of
         None \<Rightarrow>
           if w_emits_frames w then (w, Inl ValidationError)
           else bind_action (store_dynamic h v) (\<lambda>v.
             bind_action (do_when p (in_store (so_update memory_ops v))) (\<lambda>_. lift_action (Inr v))) w
       | Some previous_revision \<Rightarrow>
           bind_action (lift_action (if w_emits_frames w then frame_delta c v (previous_revision + 1) else Inr None))
             (\<lambda>frame. bind_action (store_dynamic h v) (\<lambda>v.
             bind_action (case frame of
                 None \<Rightarrow> do_when p (in_store (so_update memory_ops v))
               | Some f \<Rightarrow> bind_action (do_when p (persist_with_frame memory_ops v f)) (\<lambda>_.
                   publish f (state_key v) (previous_revision + 1))) (\<lambda>_. lift_action (Inr v)))) w))"
  proof (cases "map_of (w_revisions w) (state_key v)")
    case None
    with c(1) update_tail_tied [OF c(1) quiet, where frame = None and h = h and p = p] show ?thesis by simp
  next
    case (Some n)
    have "tied c (fst (bind_action (lift_action (if w_emits_frames w then frame_delta c v (n + 1) else Inr None))
             (\<lambda>frame. bind_action (store_dynamic h v) (\<lambda>v.
             bind_action (case frame of
                 None \<Rightarrow> do_when p (in_store (so_update memory_ops v))
               | Some f \<Rightarrow> bind_action (do_when p (persist_with_frame memory_ops v f)) (\<lambda>_.
                   publish f (state_key v) (n + 1))) (\<lambda>_. lift_action (Inr v)))) w))"
      by (rule tied_bind_lift [OF c(1)], rule update_tail_tied [OF c(1)])
        (use quiet frame_delta_identity in \<open>auto split: if_splits\<close>)
    with Some show ?thesis by simp
  qed
qed auto

lemma create_inv:
  assumes "writer_inv w"
  shows "writer_inv (fst (w_create memory_ops h s w))"
proof (cases "revalidate h s")
  case (Inr v)
  show ?thesis
  proof (cases "create_node v (w_store w)")
    case (Inr st)
    have st: "st = AList.update (state_key v) (TurnNode v) (w_store w)" "map_of (w_store w) (state_key v) = None"
      using Inr by (auto simp: create_node_def split: if_splits option.splits)
    have reach: "store_reachable st" using assms Inr by (auto simp: writer_inv_def intro: sr_create)
    have w': "w_store (fst (w_create memory_ops h s w)) = st"
      "w_dynamic (fst (w_create memory_ops h s w)) = AList.update (state_key v) v (w_dynamic w)"
      using \<open>revalidate h s = Inr v\<close> Inr by (simp_all add: w_create_def in_store_def bind_action_def memory_ops_def publish_def)
    have "state_key d = k \<and> (\<exists>t. map_of st k = Some (TurnNode t) \<and> same_identity d t)"
      if d: "map_of (AList.update (state_key v) v (w_dynamic w)) k = Some d" for k d
    proof (cases "k = state_key v")
      case False
      with d have "map_of (w_dynamic w) k = Some d" by simp
      with assms have "state_key d = k \<and> (\<exists>t. map_of (w_store w) k = Some (TurnNode t) \<and> same_identity d t)"
        unfolding writer_inv_def by blast
      with False show ?thesis by (simp add: st(1))
    qed (use d in \<open>simp add: st(1)\<close>)
    with reach show ?thesis unfolding writer_inv_def w' by blast
  qed (use assms Inr in \<open>simp add: w_create_def in_store_def bind_action_def memory_ops_def\<close>)
qed (use assms in \<open>simp add: w_create_def bind_action_def\<close>)

lemma update_data_inv:
  assumes "writer_inv w"
  shows "writer_inv (fst (w_update_data memory_ops h s dat p w))"
proof (cases "snd (current memory_ops (rs_session_id s) (rs_id s) w)")
  case (Inl e)
  with assms show ?thesis by (simp add: w_update_data_def bind_action_def current_def)
next
  case (Inr c)
  then have cur: "current memory_ops (rs_session_id s) (rs_id s) w = (w, Inr c)" by (simp add: current_def)
  have "state_key c = (rs_session_id s, rs_id s)" using current_key [OF assms cur] .
  with cur have "writer_inv (fst (w_update memory_ops h (c\<lparr>rs_data := ds\<rparr>) p w))" for ds
    by (intro update_inv [OF assms]) simp
  with assms show ?thesis
    by (cases "validate_data dat") (simp_all add: w_update_data_def bind_current [OF cur])
qed

text \<open>The calls that work on the writer's own copy of the turn, and \<open>update\<close> on a publishing writer.\<close>

fun own_copy :: "bool \<Rightarrow> writer_call \<Rightarrow> bool" where
  "own_copy emits (Snapshot s) = False"
| "own_copy emits (Persist s) = False"
| "own_copy emits (Update s p) = emits"
| "own_copy emits _ = True"

lemma run_call_emits: "w_emits_frames (fst (run_call ops h c w)) = w_emits_frames w"
proof -
  have "keeps (\<lambda>x. w_emits_frames x = w_emits_frames w) (run_call ops h c)"
    by (rule operations_keep) (auto intro!: keepsI simp: in_store_def store_dynamic_def publish_def split: sum.splits)
  then show ?thesis by (simp add: keeps_def)
qed

lemma fail_inv:
  assumes "writer_inv w"
  shows "writer_inv (fst (w_fail memory_ops h session i msg w))"
proof -
  have "keeps writer_inv (w_append_item memory_ops h s item True)" "keeps writer_inv (w_finalize memory_ops h s st)"
    "keeps writer_inv (current memory_ops a b)" for s item st a b
    using append_items_inv finalize_inv by (auto simp: keeps_def w_append_item_def current_def)
  then have "keeps writer_inv (w_fail memory_ops h session i msg)"
    unfolding w_fail_def by (intro keeps_bind keeps_lift)
  with assms show ?thesis by (simp add: keeps_def)
qed

lemma own_copy_inv: "writer_inv w \<Longrightarrow> own_copy (w_emits_frames w) c \<Longrightarrow> writer_inv (fst (run_call memory_ops h c w))"
  by (cases c) (simp_all add: create_inv update_inv update_data_inv update_config_inv append_message_inv append_items_inv
      set_item_status_inv append_text_inv finalize_inv fail_inv)

lemma own_copy_calls_inv:
  "writer_inv w \<Longrightarrow> \<forall>c \<in> set calls. own_copy (w_emits_frames w) c \<Longrightarrow> writer_inv (run_calls memory_ops h calls w)"
proof (induction calls arbitrary: w)
  case (Cons c calls)
  then have "writer_inv (fst (run_call memory_ops h c w))" by (simp add: own_copy_inv)
  with Cons show ?case by (simp add: run_calls_def run_call_emits)
qed (simp add: run_calls_def)

text \<open>Streaming never breaks the history: start a writer on a store that the store's operations built
  and make any sequence of creations, data, configuration, message, item, text and status changes,
  finalisations and failures (and, on a publishing writer, updates). Then walking up from any stored
  node still succeeds and ends at the root of its session, and a session still has at most one root.
\<close>

theorem writer_keeps_history:
  assumes "store_reachable st" "\<forall>c \<in> set calls. own_copy emits c"
    "get_node session i (w_store (run_calls memory_ops h calls (new_writer st emits))) = Some n"
  shows "(\<exists>path. ancestors (w_store (run_calls memory_ops h calls (new_writer st emits))) n = Inr path \<and> is_root (hd path) \<and>
      last path = n \<and> (\<forall>a \<in> set path. node_session_id a = session)) \<and>
    root_count (w_store (run_calls memory_ops h calls (new_writer st emits))) session \<le> 1"
proof -
  have "writer_inv (new_writer st emits)" using assms(1) by (simp add: writer_inv_def new_writer_def)
  with own_copy_calls_inv [of "new_writer st emits" calls h] assms(2)
  have "store_reachable (w_store (run_calls memory_ops h calls (new_writer st emits)))"
    by (simp add: new_writer_def writer_inv_def)
  from history_complete [OF this assms(3)] show ?thesis .
qed

theorem writer_keeps_history_witness:
  "\<exists>path. ancestors (w_store (run_calls memory_ops flat_rs_host [Append_its sample_state [] None True] (new_writer sample_store False)))
     (TurnNode sample_state) = Inr path \<and> is_root (hd path)"
proof -
  have "get_node ''s'' ''a'' (w_store (run_calls memory_ops flat_rs_host [Append_its sample_state [] None True] (new_writer sample_store False)))
      = Some (TurnNode sample_state)" by code_simp
  from writer_keeps_history [OF sample_store_reachable _ this] show ?thesis by auto
qed

end
