(* ===== verification/SandboxPolicy.thy ===== *)
theory SandboxPolicy
  imports PyValue "HOL-Library.Sublist"
begin

text \<open>
  \<open>sandbox/policy.py\<close>: the policy of one sandboxed command and its validation, and
  \<open>sandbox/runtime/resources.py\<close>: the check of a usage sample against the limits.

  The platform is the record \<open>policy_host\<close>: strict resolution of a directory, resolution
  of any path, the form under which two paths compare (case-folded on Windows), the parsers of
  \<open>ipaddress\<close> and of the \<open>idna\<close> codec (canonical text or failure) and the hash function.
  Case mapping is written out for code points 0 to 255; the two whose image lies outside that range
  (181 and, upper case, 255) are left unchanged. Products with 0.10 are exact floors for the sizes a
  disk has (below \<open>2^53\<close> bytes the double product rounds to the right side of the integer).
\<close>

section \<open>Errors, modes and the platform\<close>

datatype sandbox_error =
    PolicyFailed string
  | WorkspaceInvalid string
  | InitFailed string
  | ResourceExceeded string
  | AdmissionTimeout
  | MaintenanceBusy
  | LeaseUnderflow
  | SbTypeError
  | SbOSError
  | SbUntyped
  | SbOverflow
  | SbValueError string

text \<open>A JSON file: absent, not readable as JSON, or the value it holds.\<close>

datatype json_file = NoFile | Unreadable | Holds pyval

record policy_host =
  ph_directory :: "string \<Rightarrow> string option"
  ph_resolve :: "string \<Rightarrow> string"
  ph_path_key :: "string \<Rightarrow> string"
  ph_ip :: "string \<Rightarrow> string option"
  ph_idna :: "string \<Rightarrow> string option"
  ph_sha256 :: "string \<Rightarrow> string"

datatype FileAccessMode = READ_ONLY | WORKSPACE_WRITE | FULL_ACCESS

fun FileAccessMode_value :: "FileAccessMode \<Rightarrow> string" where
  "FileAccessMode_value READ_ONLY = ''read_only''"
| "FileAccessMode_value WORKSPACE_WRITE = ''workspace_write''"
| "FileAccessMode_value FULL_ACCESS = ''full_access''"

datatype NetworkMode = NO_NETWORK | RESTRICTED_NETWORK | FULL_NETWORK

fun NetworkMode_value :: "NetworkMode \<Rightarrow> string" where
  "NetworkMode_value NO_NETWORK = ''no_network''"
| "NetworkMode_value RESTRICTED_NETWORK = ''restricted_network''"
| "NetworkMode_value FULL_NETWORK = ''full_network''"

datatype TerminalKind = CMD | POWERSHELL | PWSH | GIT_BASH

fun TerminalKind_value :: "TerminalKind \<Rightarrow> string" where
  "TerminalKind_value CMD = ''cmd''"
| "TerminalKind_value POWERSHELL = ''powershell''"
| "TerminalKind_value PWSH = ''pwsh''"
| "TerminalKind_value GIT_BASH = ''git_bash''"

text \<open>The constructor of an enumeration applied to a string.\<close>

definition enum_of :: "('a \<Rightarrow> string) \<Rightarrow> 'a list \<Rightarrow> string \<Rightarrow> 'a option" where
  "enum_of val members s = find (\<lambda>x. val x = s) members"

definition normalize_permission_mode :: "FileAccessMode \<Rightarrow> pyval \<Rightarrow> sandbox_error + FileAccessMode" where
  "normalize_permission_mode dflt v =
     (if unhashable v then Inl SbTypeError
      else if v = PNone \<or> v = PStr [] then Inr dflt
      else if v = PStr ''read_only'' then Inr READ_ONLY
      else if v = PStr ''workspace_write'' then Inr WORKSPACE_WRITE
      else if v = PStr ''full_access'' then Inr FULL_ACCESS
      else Inl (PolicyFailed ''permission_mode is invalid''))"

section \<open>Network rules\<close>

definition fold_char :: "char \<Rightarrow> string" where
  "fold_char c = (let n = (of_char c :: nat) in
     if 65 \<le> n \<and> n \<le> 90 \<or> 192 \<le> n \<and> n \<le> 222 \<and> n \<noteq> 215 then [char_of (n + 32)]
     else if n = 223 then ''ss'' else [c])"

definition casefold :: "string \<Rightarrow> string" where
  "casefold s = concat (map fold_char s)"

definition rstrip_dots :: "string \<Rightarrow> string" where
  "rstrip_dots s = rev (dropWhile (\<lambda>c. c = CHR ''.'') (rev s))"

definition canonical_network_host :: "policy_host \<Rightarrow> string \<Rightarrow> sandbox_error + string" where
  "canonical_network_host h v =
     (let host = casefold (rstrip_dots (strip v)); bad = Inl (PolicyFailed ''network host is invalid'') in
      if host = [] \<or> length host > 253 \<or> (\<exists>c \<in> set host. is_space c) \<or> CHR ''*'' \<in> set host \<or> CHR ''/'' \<in> set host
      then bad
      else case ph_ip h (takeWhile (\<lambda>c. c \<noteq> CHR ''%'') host) of
          Some ip \<Rightarrow> Inr ip
        | None \<Rightarrow> (case ph_idna h host of
              None \<Rightarrow> bad
            | Some canonical \<Rightarrow>
                if canonical = [] \<or> length canonical > 253 \<or> [] \<in> set (split_on CHR ''.'' canonical) then bad
                else Inr canonical))"

record NetworkRule =
  nr_host :: string
  nr_port :: "int option"

text \<open>A port that is given must be an integer, not a boolean, in the port range.\<close>

definition port_ok :: "pyval \<Rightarrow> bool" where
  "port_ok v = (case v of PInt p \<Rightarrow> 1 \<le> p \<and> p \<le> 65535 | _ \<Rightarrow> False)"

definition int_value :: "pyval \<Rightarrow> int" where
  "int_value v = (case v of PInt p \<Rightarrow> p | _ \<Rightarrow> 0)"

definition network_rule :: "policy_host \<Rightarrow> string \<Rightarrow> pyval \<Rightarrow> sandbox_error + NetworkRule" where
  "network_rule h host port =
     bind_result (canonical_network_host h host) (\<lambda>canonical.
     if port = PNone then Inr \<lparr>nr_host = canonical, nr_port = None\<rparr>
     else if port_ok port then Inr \<lparr>nr_host = canonical, nr_port = Some (int_value port)\<rparr>
     else Inl (PolicyFailed ''network port must be between 1 and 65535''))"

section \<open>Resource limits\<close>

record ResourceLimits =
  rl_wall_seconds :: pyval
  rl_cpu_seconds :: pyval
  rl_memory_mib :: pyval
  rl_processes :: pyval
  rl_handles :: pyval
  rl_output_chars :: pyval
  rl_write_io_mib :: pyval

definition default_limits :: ResourceLimits where
  "default_limits = \<lparr>rl_wall_seconds = PInt 300, rl_cpu_seconds = PInt 300, rl_memory_mib = PInt 4096,
     rl_processes = PInt 256, rl_handles = PInt 16384, rl_output_chars = PInt 20000, rl_write_io_mib = PInt 0\<rparr>"

text \<open>\<open>isinstance(v, bool) or not lo <= v <= hi\<close>: what does not compare with an integer raises.\<close>

definition in_range :: "int \<Rightarrow> int \<Rightarrow> pyval \<Rightarrow> sandbox_error + bool" where
  "in_range lo hi v = (case v of
      PBool _ \<Rightarrow> Inr False
    | PInt i \<Rightarrow> Inr (lo \<le> i \<and> i \<le> hi)
    | PFloat (Finite r) \<Rightarrow> Inr (of_int lo \<le> r \<and> r \<le> of_int hi)
    | PFloat _ \<Rightarrow> Inr False
    | _ \<Rightarrow> Inl SbTypeError)"

definition require_range :: "string \<Rightarrow> int \<Rightarrow> int \<Rightarrow> pyval \<Rightarrow> sandbox_error + unit" where
  "require_range name lo hi v = bind_result (in_range lo hi v) (\<lambda>ok.
     ensure ok (PolicyFailed (name @ '' must be between '' @ str_int lo @ '' and '' @ str_int hi)))"

definition write_io_ok :: "pyval \<Rightarrow> sandbox_error + bool" where
  "write_io_ok v = (if (case v of PBool _ \<Rightarrow> True | _ \<Rightarrow> False) then Inr False
     else if py_eq v (PInt 0) then Inr True else in_range 1 20480 v)"

definition limits_validate :: "ResourceLimits \<Rightarrow> sandbox_error + unit" where
  "limits_validate l =
     bind_result (require_range ''wall_seconds'' 1 300 (rl_wall_seconds l)) (\<lambda>_.
     bind_result (require_range ''cpu_seconds'' 1 300 (rl_cpu_seconds l)) (\<lambda>_.
     bind_result (require_range ''memory_mib'' 128 4096 (rl_memory_mib l)) (\<lambda>_.
     bind_result (require_range ''processes'' 1 256 (rl_processes l)) (\<lambda>_.
     bind_result (require_range ''handles'' 64 16384 (rl_handles l)) (\<lambda>_.
     bind_result (require_range ''output_chars'' 1000 20000 (rl_output_chars l)) (\<lambda>_.
     bind_result (write_io_ok (rl_write_io_mib l)) (\<lambda>ok.
       ensure ok (PolicyFailed ''write_io_mib must be 0 or between 1 and 20480''))))))))"

definition value_or :: "pydict \<Rightarrow> string \<Rightarrow> pyval \<Rightarrow> pyval" where
  "value_or d k v = (case map_of d k of Some w \<Rightarrow> w | None \<Rightarrow> v)"

definition limits_from_mapping :: "pydict option \<Rightarrow> sandbox_error + ResourceLimits" where
  "limits_from_mapping raw =
     (let d = (case raw of None \<Rightarrow> [] | Some d \<Rightarrow> d); base = default_limits;
          l = \<lparr>rl_wall_seconds = value_or d ''wall_seconds'' (rl_wall_seconds base),
               rl_cpu_seconds = value_or d ''cpu_seconds'' (rl_cpu_seconds base),
               rl_memory_mib = value_or d ''memory_mib'' (rl_memory_mib base),
               rl_processes = value_or d ''processes'' (rl_processes base),
               rl_handles = value_or d ''handles'' (rl_handles base),
               rl_output_chars = value_or d ''output_chars'' (rl_output_chars base),
               rl_write_io_mib = value_or d ''write_io_mib'' (rl_write_io_mib base)\<rparr> in
      bind_result (limits_validate l) (\<lambda>_. Inr l))"

definition limits_to_dict :: "ResourceLimits \<Rightarrow> (string \<times> int) list" where
  "limits_to_dict l = map (\<lambda>(n, v). (n, case py_int v of Some i \<Rightarrow> i | None \<Rightarrow> 0))
     [(''wall_seconds'', rl_wall_seconds l), (''cpu_seconds'', rl_cpu_seconds l), (''memory_mib'', rl_memory_mib l),
      (''processes'', rl_processes l), (''handles'', rl_handles l), (''output_chars'', rl_output_chars l),
      (''write_io_mib'', rl_write_io_mib l)]"

section \<open>The policy\<close>

definition safe_directory :: "policy_host \<Rightarrow> string \<Rightarrow> sandbox_error + string" where
  "safe_directory h p = (case ph_directory h p of Some d \<Rightarrow> Inr d | None \<Rightarrow> Inl (WorkspaceInvalid p))"

record SandboxPolicy =
  pol_workspaces :: "string list"
  pol_session_id :: string
  pol_job_id :: string
  pol_file_mode :: FileAccessMode
  pol_network_mode :: NetworkMode
  pol_network_allowlist :: "NetworkRule list"
  pol_limits :: ResourceLimits
  pol_terminal :: TerminalKind
  pol_proxy_port :: pyval

fun check_workspaces :: "policy_host \<Rightarrow> string list \<Rightarrow> sandbox_error + unit" where
  "check_workspaces h [] = Inr ()"
| "check_workspaces h (w # ws) = bind_result (safe_directory h w) (\<lambda>d.
     bind_result (ensure (ph_path_key h d = ph_path_key h w) (PolicyFailed ''workspace path must resolve to a regular directory'')) (\<lambda>_.
       check_workspaces h ws))"

definition policy_validate :: "policy_host \<Rightarrow> bool \<Rightarrow> SandboxPolicy \<Rightarrow> sandbox_error + unit" where
  "policy_validate h windows p =
     bind_result (ensure windows (PolicyFailed ''Windows sandbox is unavailable on this platform'')) (\<lambda>_.
     bind_result (ensure (pol_session_id p \<noteq> [] \<and> pol_job_id p \<noteq> []) (PolicyFailed ''session_id and job_id are required'')) (\<lambda>_.
     bind_result (ensure (\<not> (pol_network_mode p = RESTRICTED_NETWORK \<and> pol_network_allowlist p = []))
         (PolicyFailed ''restricted_network requires an allowlist'')) (\<lambda>_.
     bind_result (ensure (length (pol_network_allowlist p) \<le> 64) (PolicyFailed ''network allowlist may contain at most 64 rules'')) (\<lambda>_.
     bind_result (ensure (port_ok (pol_proxy_port p)) (PolicyFailed ''proxy_port must be between 1 and 65535'')) (\<lambda>_.
     bind_result (limits_validate (pol_limits p)) (\<lambda>_.
       check_workspaces h (pol_workspaces p)))))))"

text \<open>The loop of \<open>__post_init__\<close> over the workspaces: resolved, first occurrences only.\<close>

fun normalize_workspaces :: "policy_host \<Rightarrow> string list \<Rightarrow> string list \<Rightarrow> sandbox_error + string list" where
  "normalize_workspaces h acc [] = Inr acc"
| "normalize_workspaces h acc (w # ws) = bind_result (safe_directory h w) (\<lambda>d.
     normalize_workspaces h (if ph_path_key h d \<in> ph_path_key h ` set acc then acc else acc @ [d]) ws)"

record policy_args =
  pa_workspaces :: "string list"
  pa_session_id :: string
  pa_job_id :: string
  pa_file_mode :: pyval
  pa_network_mode :: pyval
  pa_network_allowlist :: "NetworkRule list"
  pa_limits :: ResourceLimits
  pa_terminal :: pyval
  pa_proxy_port :: pyval

definition sandbox_policy :: "policy_host \<Rightarrow> policy_args \<Rightarrow> sandbox_error + SandboxPolicy" where
  "sandbox_policy h a =
     bind_result (normalize_workspaces h [] (pa_workspaces a)) (\<lambda>ws.
     bind_result (ensure (ws \<noteq> []) (PolicyFailed ''at least one workspace is required'')) (\<lambda>_.
     bind_result (normalize_permission_mode READ_ONLY (pa_file_mode a)) (\<lambda>fm.
     bind_result (case enum_of NetworkMode_value [NO_NETWORK, RESTRICTED_NETWORK, FULL_NETWORK] (py_str (pa_network_mode a)) of
         Some m \<Rightarrow> Inr m | None \<Rightarrow> Inl (PolicyFailed ''network_mode is invalid'')) (\<lambda>nm.
     bind_result (case enum_of TerminalKind_value [CMD, POWERSHELL, PWSH, GIT_BASH] (py_str (pa_terminal a)) of
         Some t \<Rightarrow> Inr t | None \<Rightarrow> Inl (PolicyFailed ''terminal is invalid'')) (\<lambda>t.
     let p = \<lparr>pol_workspaces = ws, pol_session_id = pa_session_id a, pol_job_id = pa_job_id a, pol_file_mode = fm,
              pol_network_mode = nm, pol_network_allowlist = pa_network_allowlist a, pol_limits = pa_limits a,
              pol_terminal = t, pol_proxy_port = pa_proxy_port a\<rparr> in
     bind_result (policy_validate h True p) (\<lambda>_. Inr p))))))"

definition rule_to_dict :: "NetworkRule \<Rightarrow> pyval" where
  "rule_to_dict r = PDict ((''host'', PStr (nr_host r)) # (case nr_port r of None \<Rightarrow> [] | Some p \<Rightarrow> [(''port'', PInt p)]))"

definition policy_to_dict :: "SandboxPolicy \<Rightarrow> pydict" where
  "policy_to_dict p =
     [(''workspaces'', PList (map PStr (pol_workspaces p))), (''session_id'', PStr (pol_session_id p)),
      (''job_id'', PStr (pol_job_id p)), (''file_mode'', PStr (FileAccessMode_value (pol_file_mode p))),
      (''network_mode'', PStr (NetworkMode_value (pol_network_mode p))),
      (''network_allowlist'', PList (map rule_to_dict (pol_network_allowlist p))),
      (''limits'', PDict (map (\<lambda>(n, i). (n, PInt i)) (limits_to_dict (pol_limits p)))),
      (''terminal'', PStr (TerminalKind_value (pol_terminal p))), (''proxy_port'', pol_proxy_port p)]"

text \<open>\<open>json.dumps(v, sort_keys=True, separators=(",", ":"), ensure_ascii=True)\<close>.\<close>

definition ascii_char :: "char \<Rightarrow> string" where
  "ascii_char c = (let n = (of_char c :: nat) in
     if 127 \<le> n then [CHR 0x5C, CHR ''u'', CHR ''0'', CHR ''0''] @ hex2 n else json_char c)"

definition ascii_str :: "string \<Rightarrow> string" where
  "ascii_str s = CHR 0x22 # concat (map ascii_char s) @ [CHR 0x22]"

fun ascii_text :: "pyval \<Rightarrow> string" where
  "ascii_text (PStr s) = ascii_str s"
| "ascii_text (PList xs) = ''['' @ join '','' (map ascii_text xs) @ '']''"
| "ascii_text (PDict d) =
     ''{'' @ join '','' (map (\<lambda>q. ascii_str (fst q) @ '':'' @ snd q)
        (sort_key fst (map (\<lambda>p. (fst p, ascii_text (snd p))) d))) @ ''}''"
| "ascii_text v = json_text v"

definition policy_hash :: "policy_host \<Rightarrow> SandboxPolicy \<Rightarrow> string" where
  "policy_hash h p = ph_sha256 h (ascii_text (PDict (policy_to_dict p)))"

section \<open>The environment of a command\<close>

definition upper_char :: "char \<Rightarrow> string" where
  "upper_char c = (let n = (of_char c :: nat) in
     if 97 \<le> n \<and> n \<le> 122 \<or> 224 \<le> n \<and> n \<le> 254 \<and> n \<noteq> 247 then [char_of (n - 32)]
     else if n = 223 then ''SS'' else [c])"

definition upper :: "string \<Rightarrow> string" where
  "upper s = concat (map upper_char s)"

definition DEFAULT_ENVIRONMENT :: "string list" where
  "DEFAULT_ENVIRONMENT = [''PATH'', ''PATHEXT'', ''SYSTEMROOT'', ''WINDIR'', ''SYSTEMDRIVE'', ''COMSPEC'',
     ''PROGRAMFILES'', ''PROGRAMFILES(X86)'', ''LOCALAPPDATA'', ''APPDATA'', ''HOMEDRIVE'', ''HOMEPATH'',
     ''NUMBER_OF_PROCESSORS'', ''PROCESSOR_ARCHITECTURE'', ''PROCESSOR_IDENTIFIER'', ''OS'', ''LANG'', ''LANGUAGE'',
     ''PYTHONIOENCODING'', ''PYTHONUTF8'']"

definition SECRET_WORDS :: "string list" where
  "SECRET_WORDS = [''TOKEN'', ''SECRET'', ''PASSWORD'', ''API_KEY'', ''CREDENTIAL'', ''COOKIE'']"

definition env_allowed :: "string \<Rightarrow> bool" where
  "env_allowed name \<longleftrightarrow> (upper name \<in> set DEFAULT_ENVIRONMENT \<or> prefix ''LC_'' (upper name)) \<and>
     \<not> (\<exists>w \<in> set SECRET_WORDS. sublist w (upper name))"

definition copy_environment :: "(string \<times> string) list \<Rightarrow> (string, string) dict" where
  "copy_environment source = foldl (\<lambda>d (n, v). if env_allowed n then AList.update n v d else d) [] source"

definition removeprefix :: "string \<Rightarrow> string \<Rightarrow> string" where
  "removeprefix p s = (if prefix p s then drop (length p) s else s)"

definition environment :: "(string \<times> string) list \<Rightarrow> string \<Rightarrow> string \<Rightarrow> (string, string) dict" where
  "environment source temp drive =
     (let result = AList.delete ''HOMEPATH'' (AList.delete ''HOMEDRIVE'' (copy_environment source));
          result = foldl (\<lambda>d n. AList.update n temp d) result
            [''TEMP'', ''TMP'', ''USERPROFILE'', ''HOME'', ''APPDATA'', ''LOCALAPPDATA''] in
      if drive = [] then result
      else AList.update ''HOMEPATH'' (let rest = removeprefix drive temp in if rest = [] then [CHR 0x5C] else rest)
             (AList.update ''HOMEDRIVE'' drive result))"

section \<open>Ownership, disk reserve and usage\<close>

record SandboxJobContext =
  jc_user_id :: string
  jc_policy :: SandboxPolicy
  jc_job_kind :: string

definition job_context :: "string \<Rightarrow> SandboxPolicy \<Rightarrow> string \<Rightarrow> sandbox_error + SandboxJobContext" where
  "job_context user policy kind =
     bind_result (ensure (user \<noteq> []) (PolicyFailed ''sandbox user_id is required'')) (\<lambda>_.
     bind_result (ensure (kind \<in> {''command'', ''mcp''}) (PolicyFailed ''sandbox job_kind must be command or mcp'')) (\<lambda>_.
       Inr \<lparr>jc_user_id = user, jc_policy = policy, jc_job_kind = kind\<rparr>))"

definition job_context_to_dict :: "SandboxJobContext \<Rightarrow> pydict" where
  "job_context_to_dict c = [(''user_id'', PStr (jc_user_id c)), (''job_kind'', PStr (jc_job_kind c)),
     (''policy'', PDict (policy_to_dict (jc_policy c)))]"

definition MIN_FREE_DISK_BYTES :: int where
  "MIN_FREE_DISK_BYTES = 10 * 1024 * 1024 * 1024"

text \<open>\<open>usage\<close> is the total and the free bytes, or \<open>None\<close> when they could not be read.\<close>

definition ensure_disk_reserve :: "(int \<times> int) option \<Rightarrow> pyval \<Rightarrow> sandbox_error + unit" where
  "ensure_disk_reserve usage required =
     (case required of
        PInt r \<Rightarrow>
          if r < 0 then Inl (PolicyFailed ''required disk bytes must be a non-negative integer'')
          else (case usage of
              None \<Rightarrow> Inl (PolicyFailed ''disk space could not be inspected'')
            | Some (capacity, free) \<Rightarrow>
                ensure (\<not> free - r < max MIN_FREE_DISK_BYTES (capacity div 10)) (PolicyFailed ''machine disk reserve is unavailable''))
      | _ \<Rightarrow> Inl (PolicyFailed ''required disk bytes must be a non-negative integer''))"

record ResourceUsage =
  ru_wall_seconds :: rat
  ru_cpu_seconds :: rat
  ru_memory_bytes :: int
  ru_processes :: int
  ru_handles :: int
  ru_output_chars :: int
  ru_write_io_bytes :: int

text \<open>The limits of a running monitor were validated, so they are numbers.\<close>

definition limit_num :: "pyval \<Rightarrow> rat" where
  "limit_num v = (case num_of v of Some r \<Rightarrow> r | None \<Rightarrow> 0)"

definition usage_checks :: "ResourceLimits \<Rightarrow> ResourceUsage \<Rightarrow> (bool \<times> string) list" where
  "usage_checks l u =
     [(ru_wall_seconds u > limit_num (rl_wall_seconds l), ''wall time limit exceeded''),
      (ru_cpu_seconds u > limit_num (rl_cpu_seconds l), ''CPU limit exceeded''),
      (of_int (ru_memory_bytes u) > limit_num (rl_memory_mib l) * 1024 * 1024, ''memory limit exceeded''),
      (of_int (ru_processes u) > limit_num (rl_processes l), ''process limit exceeded''),
      (of_int (ru_handles u) > limit_num (rl_handles l), ''handle limit exceeded''),
      (of_int (ru_output_chars u) > limit_num (rl_output_chars l), ''output limit exceeded''),
      (limit_num (rl_write_io_mib l) > 0 \<and> of_int (ru_write_io_bytes u) > limit_num (rl_write_io_mib l) * 1024 * 1024,
        ''write I/O limit exceeded'')]"

definition monitor_check :: "ResourceLimits \<Rightarrow> ResourceUsage \<Rightarrow> sandbox_error + unit" where
  "monitor_check l u = (case find fst (usage_checks l u) of Some (_, m) \<Rightarrow> Inl (ResourceExceeded m) | None \<Rightarrow> Inr ())"

text \<open>The polling loop of the monitor: one sample per tick until the monitor is stopped (the list ends), a
  limit is exceeded, the process is gone or the accounting channel fails. The result is what
  \<open>on_exceeded\<close> is called with, and the last usage checked.\<close>

datatype sample = Sampled ResourceUsage | ProcessGone | AccountingFailed

fun monitor_run :: "ResourceLimits \<Rightarrow> ResourceUsage \<Rightarrow> sample list \<Rightarrow> ResourceUsage \<times> string option" where
  "monitor_run l last_usage [] = (last_usage, None)"
| "monitor_run l last_usage (Sampled u # samples) =
     (case monitor_check l u of Inl (ResourceExceeded m) \<Rightarrow> (u, Some m) | _ \<Rightarrow> monitor_run l u samples)"
| "monitor_run l last_usage (ProcessGone # samples) = (last_usage, None)"
| "monitor_run l last_usage (AccountingFailed # samples) = (last_usage, Some ''sandbox resource accounting failed'')"

section \<open>What a constructed policy guarantees\<close>

lemma require_range_Inr:
  "require_range name lo hi v = Inr u \<longleftrightarrow> (\<exists>r. num_of v = Some r \<and> (\<forall>b. v \<noteq> PBool b) \<and> of_int lo \<le> r \<and> r \<le> of_int hi)"
  by (cases v) (auto simp: require_range_def in_range_def bind_result_Inr split: pyfloat.splits)

lemma py_int_range:
  assumes "num_of v = Some r" "of_int lo \<le> r" "r \<le> of_int hi" "0 \<le> lo"
  shows "\<exists>i. py_int v = Some i \<and> lo \<le> i \<and> i \<le> hi"
proof -
  have "0 \<le> r" using assms(2,4) by (meson of_int_0_le_iff order_trans)
  with assms show ?thesis
    by (cases v; cases "case v of PFloat f \<Rightarrow> f | _ \<Rightarrow> NaN")
      (auto split: if_splits simp: le_floor_iff floor_le_iff le_less_trans [OF _ less_add_one])
qed

lemma write_io_Inr:
  assumes "write_io_ok v = Inr True"
  shows "\<exists>i. py_int v = Some i \<and> 0 \<le> i \<and> i \<le> 20480"
proof (cases "py_eq v (PInt 0)")
  case True
  then show ?thesis by (cases v; cases "case v of PFloat f \<Rightarrow> f | _ \<Rightarrow> NaN") auto
next
  case False
  with assms obtain r where "num_of v = Some r" "of_int 1 \<le> r" "r \<le> of_int 20480"
    by (cases v) (auto simp: write_io_ok_def in_range_def split: if_splits pyfloat.splits)
  from py_int_range [OF this] show ?thesis by force
qed

definition limit_ranges :: "(string \<times> int \<times> int) list" where
  "limit_ranges = [(''wall_seconds'', 1, 300), (''cpu_seconds'', 1, 300), (''memory_mib'', 128, 4096), (''processes'', 1, 256),
     (''handles'', 64, 16384), (''output_chars'', 1000, 20000), (''write_io_mib'', 0, 20480)]"

definition limits_bounded :: "ResourceLimits \<Rightarrow> bool" where
  "limits_bounded l = list_all2 (\<lambda>(n, i) (m, lo, hi). n = m \<and> lo \<le> i \<and> i \<le> hi) (limits_to_dict l) limit_ranges"

lemma require_range_int:
  assumes "require_range name lo hi v = Inr u" "0 \<le> lo"
  shows "\<exists>i. py_int v = Some i \<and> lo \<le> i \<and> i \<le> hi"
  using assms py_int_range by (auto simp: require_range_Inr)

lemma limits_validate_bounded:
  assumes "limits_validate l = Inr u"
  shows "limits_bounded l"
proof -
  from assms have r: "require_range ''wall_seconds'' 1 300 (rl_wall_seconds l) = Inr ()"
      "require_range ''cpu_seconds'' 1 300 (rl_cpu_seconds l) = Inr ()"
      "require_range ''memory_mib'' 128 4096 (rl_memory_mib l) = Inr ()"
      "require_range ''processes'' 1 256 (rl_processes l) = Inr ()"
      "require_range ''handles'' 64 16384 (rl_handles l) = Inr ()"
      "require_range ''output_chars'' 1000 20000 (rl_output_chars l) = Inr ()"
      "write_io_ok (rl_write_io_mib l) = Inr True"
    by (auto simp: limits_validate_def bind_result_Inr)
  show ?thesis
    using r(1-6) [THEN require_range_int] r(7) [THEN write_io_Inr]
    by (auto simp: limits_bounded_def limits_to_dict_def limit_ranges_def)
qed

text \<open>A number within bounds, an integer or a finite float; a truth value is not one.\<close>

definition value_between :: "int \<Rightarrow> int \<Rightarrow> pyval \<Rightarrow> bool" where
  "value_between lo hi v \<longleftrightarrow> (\<exists>i. v = PInt i \<and> lo \<le> i \<and> i \<le> hi)
     \<or> (\<exists>q. v = PFloat (Finite q) \<and> of_int lo \<le> q \<and> q \<le> of_int hi)"

definition limit_values_ok :: "ResourceLimits \<Rightarrow> bool" where
  "limit_values_ok l \<longleftrightarrow> value_between 1 300 (rl_wall_seconds l) \<and> value_between 1 300 (rl_cpu_seconds l)
     \<and> value_between 128 4096 (rl_memory_mib l) \<and> value_between 1 256 (rl_processes l)
     \<and> value_between 64 16384 (rl_handles l) \<and> value_between 1000 20000 (rl_output_chars l)
     \<and> (value_between 0 0 (rl_write_io_mib l) \<or> value_between 1 20480 (rl_write_io_mib l))"

definition requested_limits :: "pydict \<Rightarrow> ResourceLimits" where
  "requested_limits d = \<lparr>rl_wall_seconds = value_or d ''wall_seconds'' (PInt 300), rl_cpu_seconds = value_or d ''cpu_seconds'' (PInt 300),
     rl_memory_mib = value_or d ''memory_mib'' (PInt 4096), rl_processes = value_or d ''processes'' (PInt 256),
     rl_handles = value_or d ''handles'' (PInt 16384), rl_output_chars = value_or d ''output_chars'' (PInt 20000),
     rl_write_io_mib = value_or d ''write_io_mib'' (PInt 0)\<rparr>"

lemma in_range_between: "in_range lo hi v = Inr True \<longleftrightarrow> value_between lo hi v"
  by (auto simp: in_range_def value_between_def split: pyval.splits pyfloat.splits)

lemma require_range_between: "require_range n lo hi v = Inr () \<longleftrightarrow> value_between lo hi v"
  by (auto simp: require_range_def bind_result_Inr in_range_between [symmetric])

lemma write_io_between: "write_io_ok v = Inr True \<longleftrightarrow> value_between 0 0 v \<or> value_between 1 20480 v"
  by (cases v) (auto simp: write_io_ok_def in_range_between value_between_def split: pyfloat.splits)

lemma limits_validate_values: "limits_validate l = Inr () \<longleftrightarrow> limit_values_ok l"
  using write_io_between [of "rl_write_io_mib l"]
  by (auto simp: limits_validate_def limit_values_ok_def bind_result_Inr require_range_between)

text \<open>C38. Exactly the limits whose values lie within the documented ranges are accepted from a mapping: each value is the
  one the mapping holds, or the default when it holds none, and must be an integer or a finite float between the
  bounds of its field (fractions are accepted, truth values are not); the write limit may also be zero. What the accepted
  limits are written out as, the whole parts, lies within the same ranges.\<close>

theorem accepted_limits_bounded:
  "(limits_from_mapping raw = Inr l \<longleftrightarrow>
      l = requested_limits (case raw of None \<Rightarrow> [] | Some d \<Rightarrow> d) \<and> limit_values_ok l)
   \<and> (limits_from_mapping raw = Inr l \<longrightarrow> limits_bounded l)"
proof -
  have "limits_from_mapping raw = bind_result (limits_validate (requested_limits (case raw of None \<Rightarrow> [] | Some d \<Rightarrow> d)))
      (\<lambda>_. Inr (requested_limits (case raw of None \<Rightarrow> [] | Some d \<Rightarrow> d)))"
    by (simp add: limits_from_mapping_def requested_limits_def default_limits_def Let_def)
  then have "limits_from_mapping raw = Inr l \<longleftrightarrow>
      l = requested_limits (case raw of None \<Rightarrow> [] | Some d \<Rightarrow> d) \<and> limits_validate l = Inr ()"
    by (auto simp: bind_result_Inr)
  then show ?thesis using limits_validate_values limits_validate_bounded by blast
qed

definition sample_raw_limits :: pydict where
  "sample_raw_limits = [(''wall_seconds'', PFloat (Finite (5 / 2))), (''processes'', PInt 8)]"

definition sample_limits :: ResourceLimits where
  "sample_limits = default_limits\<lparr>rl_wall_seconds := PFloat (Finite (5 / 2)), rl_processes := PInt 8\<rparr>"

lemma sample_limits_accepted: "limits_from_mapping (Some sample_raw_limits) = Inr sample_limits"
  by (simp add: limits_from_mapping_def sample_raw_limits_def value_or_def default_limits_def limits_validate_def
      require_range_def in_range_def write_io_ok_def sample_limits_def)

theorem accepted_limits_bounded_witness:
  "limit_values_ok sample_limits \<and> limits_bounded sample_limits
   \<and> (\<nexists>l. limits_from_mapping (Some [(''wall_seconds'', PFloat (Finite (601 / 2)))]) = Inr l)"
proof -
  have "limits_from_mapping (Some [(''wall_seconds'', PFloat (Finite (601 / 2)))]) \<noteq> Inr l" for l
    using accepted_limits_bounded [of "Some [(''wall_seconds'', PFloat (Finite (601 / 2)))]" l]
    by (auto simp: requested_limits_def value_or_def limit_values_ok_def value_between_def)
  then show ?thesis using accepted_limits_bounded [of "Some sample_raw_limits" sample_limits] sample_limits_accepted by blast
qed

lemma check_workspaces_Inr:
  "check_workspaces h ws = Inr u \<longleftrightarrow> (\<forall>w \<in> set ws. \<exists>d. ph_directory h w = Some d \<and> ph_path_key h d = ph_path_key h w)"
  by (induction ws) (auto simp: bind_result_Inr safe_directory_def split: option.splits)

lemma normalize_workspaces_Inr:
  assumes "normalize_workspaces h acc ws = Inr out" "distinct (map (ph_path_key h) acc)"
  shows "distinct (map (ph_path_key h) out)" "set acc \<subseteq> set out"
    "set out \<subseteq> set acc \<union> {d. \<exists>w \<in> set ws. ph_directory h w = Some d}"
    "\<forall>w \<in> set ws. \<exists>d. ph_directory h w = Some d \<and> ph_path_key h d \<in> ph_path_key h ` set out"
  using assms
proof (induction ws arbitrary: acc)
  case (Cons w ws)
  { case 1 with Cons.IH(1) show ?case by (auto simp: bind_result_Inr safe_directory_def split: option.splits if_splits) }
  { case 2 with Cons.IH(2) show ?case by (fastforce simp: bind_result_Inr safe_directory_def split: option.splits if_splits) }
  { case 3 with Cons.IH(3) show ?case by (fastforce simp: bind_result_Inr safe_directory_def split: option.splits if_splits) }
  { case 4 with Cons.IH(2,4) show ?case by (fastforce simp: bind_result_Inr safe_directory_def split: option.splits if_splits) }
qed auto


text \<open>C32. A policy that was constructed satisfies every check: it validates again on Windows and is
  refused elsewhere, its workspaces are resolved, pairwise different as paths and stand for exactly the
  requested ones, a restricted network has between one and 64 rules, the proxy port is a port and the
  limits are in range.\<close>

theorem constructed_policy_sound:
  assumes "sandbox_policy h a = Inr p"
  shows "policy_validate h True p = Inr () \<and> policy_validate h False p \<noteq> Inr ()
    \<and> pol_workspaces p \<noteq> [] \<and> distinct (map (ph_path_key h) (pol_workspaces p))
    \<and> (\<forall>d \<in> set (pol_workspaces p). \<exists>w \<in> set (pa_workspaces a). ph_directory h w = Some d)
    \<and> (\<forall>w \<in> set (pa_workspaces a). \<exists>d. ph_directory h w = Some d \<and> ph_path_key h d \<in> ph_path_key h ` set (pol_workspaces p))
    \<and> (pol_network_mode p = RESTRICTED_NETWORK \<longrightarrow> pol_network_allowlist p \<noteq> []) \<and> length (pol_network_allowlist p) \<le> 64
    \<and> (\<exists>port. pol_proxy_port p = PInt port \<and> 1 \<le> port \<and> port \<le> 65535) \<and> limits_bounded (pol_limits p)"
proof -
  from assms have n: "normalize_workspaces h [] (pa_workspaces a) = Inr (pol_workspaces p)" and ne: "pol_workspaces p \<noteq> []"
      and v: "policy_validate h True p = Inr ()"
    by (auto simp: sandbox_policy_def bind_result_Inr Let_def)
  note w = normalize_workspaces_Inr [OF n, simplified]
  from v have port: "port_ok (pol_proxy_port p)" and l: "limits_validate (pol_limits p) = Inr ()"
      and net: "pol_network_mode p = RESTRICTED_NETWORK \<longrightarrow> pol_network_allowlist p \<noteq> []" "length (pol_network_allowlist p) \<le> 64"
    by (auto simp: policy_validate_def bind_result_Inr)
  have "\<exists>q. pol_proxy_port p = PInt q \<and> 1 \<le> q \<and> q \<le> 65535"
    using port by (auto simp: port_ok_def split: pyval.splits)
  moreover have "policy_validate h False p \<noteq> Inr ()"
    by (simp add: policy_validate_def)
  moreover have "\<forall>d \<in> set (pol_workspaces p). \<exists>w \<in> set (pa_workspaces a). ph_directory h w = Some d"
    using w(3) by auto
  ultimately show ?thesis
    using v ne w(1,4) net limits_validate_bounded [OF l] by blast
qed

definition sample_policy_host :: policy_host where
  "sample_policy_host = \<lparr>ph_directory = (\<lambda>p. if p = ''/w/link'' \<or> p = ''/w/a'' then Some ''/w/a'' else if p = ''/w/b'' then Some ''/w/b'' else None),
     ph_resolve = (\<lambda>p. if p = ''/w/link'' then ''/w/a'' else p), ph_path_key = casefold, ph_ip = (\<lambda>_. None), ph_idna = Some, ph_sha256 = id\<rparr>"

definition sample_args :: policy_args where
  "sample_args = \<lparr>pa_workspaces = [''/w/link'', ''/w/b'', ''/w/a''], pa_session_id = ''s'', pa_job_id = ''j'',
     pa_file_mode = PStr ''workspace_write'', pa_network_mode = PStr ''restricted_network'',
     pa_network_allowlist = [\<lparr>nr_host = ''example.org'', nr_port = Some 443\<rparr>], pa_limits = default_limits,
     pa_terminal = PStr ''cmd'', pa_proxy_port = PInt 17831\<rparr>"

definition sample_policy :: SandboxPolicy where
  "sample_policy = \<lparr>pol_workspaces = [''/w/a'', ''/w/b''], pol_session_id = ''s'', pol_job_id = ''j'', pol_file_mode = WORKSPACE_WRITE,
     pol_network_mode = RESTRICTED_NETWORK, pol_network_allowlist = [\<lparr>nr_host = ''example.org'', nr_port = Some 443\<rparr>],
     pol_limits = default_limits, pol_terminal = CMD, pol_proxy_port = PInt 17831\<rparr>"

lemma default_limits_valid: "limits_validate default_limits = Inr ()"
  by (simp add: limits_validate_def default_limits_def require_range_def in_range_def write_io_ok_def)

lemma sample_workspaces: "normalize_workspaces sample_policy_host [] [''/w/link'', ''/w/b'', ''/w/a''] = Inr [''/w/a'', ''/w/b'']"
  by code_simp

lemma sample_dirs: "ph_directory sample_policy_host ''/w/a'' = Some ''/w/a''" "ph_directory sample_policy_host ''/w/b'' = Some ''/w/b''"
  by (simp_all add: sample_policy_host_def)

lemma sample_checked: "check_workspaces sample_policy_host [''/w/a'', ''/w/b''] = Inr ()"
  by (simp add: check_workspaces_Inr sample_dirs del: check_workspaces.simps)

lemma sample_policy_constructed: "sandbox_policy sample_policy_host sample_args = Inr sample_policy"
  by (simp add: sandbox_policy_def sample_args_def sample_policy_def sample_workspaces normalize_permission_mode_def enum_of_def unhashable_def
      policy_validate_def port_ok_def default_limits_valid sample_checked del: normalize_workspaces.simps check_workspaces.simps)

theorem constructed_policy_sound_witness:
  "policy_validate sample_policy_host True sample_policy = Inr () \<and> pol_workspaces sample_policy = [''/w/a'', ''/w/b'']"
  using constructed_policy_sound [OF sample_policy_constructed] by (simp add: sample_policy_def)

section \<open>What a command sees of the host's environment\<close>

lemma map_of_copy_environment:
  assumes "map_of (copy_environment source) n = Some v"
  shows "env_allowed n \<and> (n, v) \<in> set source"
proof -
  have "map_of (foldl (\<lambda>d (n, v). if env_allowed n then AList.update n v d else d) acc source) n = Some v \<Longrightarrow>
      map_of acc n = Some v \<or> env_allowed n \<and> (n, v) \<in> set source" for acc
    by (induction source arbitrary: acc) (fastforce simp: update_conv' split: if_splits)+
  from this [of "[]"] assms show ?thesis by (simp add: copy_environment_def)
qed

definition TEMP_NAMES :: "string list" where
  "TEMP_NAMES = [''TEMP'', ''TMP'', ''USERPROFILE'', ''HOME'', ''APPDATA'', ''LOCALAPPDATA'']"

lemma map_of_set_all:
  "map_of (foldl (\<lambda>d n. AList.update n t d) d names) n = (if n \<in> set names then Some t else map_of d n)"
  by (induction names arbitrary: d) (auto simp: update_conv')

lemma distinct_copy_environment: "distinct (map fst (copy_environment source))"
proof -
  have "distinct (map fst acc) \<Longrightarrow>
      distinct (map fst (foldl (\<lambda>d (n, v). if env_allowed n then AList.update n v d else d) acc source))" for acc
    by (induction source arbitrary: acc) (auto simp: distinct_update)
  then show ?thesis by (simp add: copy_environment_def)
qed

lemma map_of_environment:
  "map_of (environment source temp drive) n =
    (if drive \<noteq> [] \<and> n = ''HOMEDRIVE'' then Some drive
     else if drive \<noteq> [] \<and> n = ''HOMEPATH'' then Some (if removeprefix drive temp = [] then [CHR 0x5C] else removeprefix drive temp)
     else if n \<in> set TEMP_NAMES then Some temp
     else if n = ''HOMEDRIVE'' \<or> n = ''HOMEPATH'' then None
     else map_of (copy_environment source) n)"
  by (simp add: environment_def Let_def update_conv' map_of_set_all map_of_delete TEMP_NAMES_def)

text \<open>C31. The environment of a sandboxed command: the profile and temporary directories are the job's own,
  the home drive and path are derived from it and never taken over from the host, and every other variable
  is an allowed variable of the host with its value; in particular no variable whose name contains a secret
  word in any letter case is present.\<close>

theorem environment_redacted:
  assumes "map_of (environment source temp drive) n = Some v"
  shows "(n \<in> set TEMP_NAMES \<longrightarrow> v = temp)
    \<and> (n = ''HOMEDRIVE'' \<longrightarrow> v = drive \<and> drive \<noteq> [])
    \<and> (n = ''HOMEPATH'' \<longrightarrow> drive \<noteq> [] \<and> (v = [CHR 0x5C] \<or> drive @ v = temp \<or> v = temp))
    \<and> (n \<notin> set TEMP_NAMES \<union> {''HOMEDRIVE'', ''HOMEPATH''} \<longrightarrow>
        (n, v) \<in> set source \<and> (upper n \<in> set DEFAULT_ENVIRONMENT \<or> prefix ''LC_'' (upper n))
        \<and> (\<forall>w \<in> set SECRET_WORDS. \<not> sublist w (upper n)))"
proof -
  have "drive @ removeprefix drive temp = temp \<or> removeprefix drive temp = temp"
    by (auto simp: removeprefix_def prefix_def)
  moreover have "n \<in> set TEMP_NAMES \<Longrightarrow> n \<noteq> ''HOMEDRIVE'' \<and> n \<noteq> ''HOMEPATH''"
    by (auto simp: TEMP_NAMES_def)
  ultimately show ?thesis
    using assms map_of_copy_environment [of source n v] by (auto simp: map_of_environment env_allowed_def split: if_splits)
qed

definition sample_source :: "(string \<times> string) list" where
  "sample_source = [(''PATH'', ''/bin''), (''LC_API_KEY'', ''k''), (''HOMEPATH'', ''/home''), (''HOME'', ''/root'')]"

lemma sample_environment:
  "environment sample_source ''C:/t'' ''C:'' =
    [(''PATH'', ''/bin''), (''TEMP'', ''C:/t''), (''TMP'', ''C:/t''), (''USERPROFILE'', ''C:/t''), (''HOME'', ''C:/t''),
     (''APPDATA'', ''C:/t''), (''LOCALAPPDATA'', ''C:/t''), (''HOMEDRIVE'', ''C:''), (''HOMEPATH'', ''/t'')]"
  by code_simp

theorem environment_redacted_witness:
  "map_of (environment sample_source ''C:/t'' ''C:'') ''PATH'' = Some ''/bin'' \<and> upper ''PATH'' \<in> set DEFAULT_ENVIRONMENT \<union> {n. prefix ''LC_'' n}"
proof -
  have m: "map_of (environment sample_source ''C:/t'' ''C:'') ''PATH'' = Some ''/bin''"
    by (simp add: sample_environment)
  have "''PATH'' \<notin> set TEMP_NAMES \<union> {''HOMEDRIVE'', ''HOMEPATH''}" by (simp add: TEMP_NAMES_def)
  with environment_redacted [OF m] m show ?thesis by blast
qed

section \<open>The monitor enforces the limits\<close>

definition within_limits :: "ResourceLimits \<Rightarrow> ResourceUsage \<Rightarrow> bool" where
  "within_limits l u \<longleftrightarrow> (\<forall>(exceeded, m) \<in> set (usage_checks l u). \<not> exceeded)"

lemma monitor_check_cases:
  "monitor_check l u = Inr () \<and> within_limits l u \<or>
   (\<exists>m. monitor_check l u = Inl (ResourceExceeded m) \<and> (True, m) \<in> set (usage_checks l u) \<and> \<not> within_limits l u)"
proof (cases "find fst (usage_checks l u)")
  case None
  then have "within_limits l u" by (auto simp: within_limits_def find_None_iff)
  with None show ?thesis by (simp add: monitor_check_def)
next
  case (Some p)
  then obtain i where i: "i < length (usage_checks l u)" "fst (usage_checks l u ! i)" "p = usage_checks l u ! i"
    by (auto simp: find_Some_iff)
  then have "p \<in> set (usage_checks l u)" "fst p" by auto
  with Some show ?thesis by (cases p) (auto simp: monitor_check_def within_limits_def)
qed

text \<open>The monitor stops a process at the first sample over a limit and at no other sample: after a
  run of samples within the limits it reports nothing and has recorded the last one; the next sample over
  a limit is reported with a limit that is really exceeded, whatever would follow.\<close>

theorem monitor_reports_first_violation:
  assumes "\<forall>u \<in> set good. within_limits l u"
  shows "monitor_run l u0 (map Sampled good) = (last (u0 # good), None)
    \<and> (\<not> within_limits l bad \<longrightarrow>
        (\<exists>m. monitor_run l u0 (map Sampled good @ Sampled bad # rest) = (bad, Some m) \<and> (True, m) \<in> set (usage_checks l bad)))
    \<and> monitor_run l u0 (map Sampled good @ AccountingFailed # rest) = (last (u0 # good), Some ''sandbox resource accounting failed'')"
  using assms
proof (induction good arbitrary: u0)
  case Nil
  then show ?case using monitor_check_cases [of l bad] by auto
next
  case (Cons u good)
  then have "monitor_check l u = Inr ()" using monitor_check_cases [of l u] by auto
  with Cons show ?case by auto
qed

definition sample_usage :: ResourceUsage where
  "sample_usage = \<lparr>ru_wall_seconds = 1, ru_cpu_seconds = 1, ru_memory_bytes = 0, ru_processes = 1, ru_handles = 0,
     ru_output_chars = 0, ru_write_io_bytes = 0\<rparr>"

theorem monitor_reports_first_violation_witness:
  "monitor_run default_limits sample_usage (map Sampled [sample_usage]) = (sample_usage, None)
   \<and> (\<exists>m. monitor_run default_limits sample_usage (map Sampled [sample_usage] @ Sampled (sample_usage\<lparr>ru_processes := 257\<rparr>) # [])
       = (sample_usage\<lparr>ru_processes := 257\<rparr>, Some m))"
proof -
  have g: "\<forall>u \<in> set [sample_usage]. within_limits default_limits u"
    and b: "\<not> within_limits default_limits (sample_usage\<lparr>ru_processes := 257\<rparr>)"
    by (simp_all add: within_limits_def usage_checks_def sample_usage_def default_limits_def limit_num_def)
  show ?thesis using monitor_reports_first_violation [OF g, of sample_usage] b by fastforce
qed

end
