(* ===== verification/SandboxGate.thy ===== *)
theory SandboxGate
  imports SandboxPolicy
begin

text \<open>
  \<open>sandbox/control/maintenance.py\<close>: the process-wide gate between sandboxed commands and maintenance.
  The lease objects handed out are kept in two lists of their \<open>_closed\<close> flags, in the order of their
  creation; closing a lease names it by its position. The methods of the gate run under its lock, each as one
  step. The \<open>close\<close> of a lease does not: it tests the flag, sets it, and only then calls the gate, and
  another thread may run between these three steps, so a \<open>close\<close> in progress is a thread with its program point.
\<close>

section \<open>The gate and its leases\<close>

record gate =
  active_commands :: int
  maintenance_active :: bool
  command_leases :: "bool list"
  maintenance_leases :: "bool list"

definition new_gate :: gate where
  "new_gate = \<lparr>active_commands = 0, maintenance_active = False, command_leases = [], maintenance_leases = []\<rparr>"

definition acquire_command :: "gate \<Rightarrow> gate \<times> (sandbox_error + nat)" where
  "acquire_command g =
     (if maintenance_active g then (g, Inl MaintenanceBusy)
      else (g\<lparr>active_commands := active_commands g + 1, command_leases := command_leases g @ [False]\<rparr>,
            Inr (length (command_leases g))))"

definition acquire_maintenance :: "gate \<Rightarrow> gate \<times> (sandbox_error + nat)" where
  "acquire_maintenance g =
     (if maintenance_active g \<or> active_commands g \<noteq> 0 then (g, Inl MaintenanceBusy)
      else (g\<lparr>maintenance_active := True, maintenance_leases := maintenance_leases g @ [False]\<rparr>,
            Inr (length (maintenance_leases g))))"

definition release_command :: "gate \<Rightarrow> gate \<times> (sandbox_error + unit)" where
  "release_command g =
     (if active_commands g \<le> 0 then (g, Inl LeaseUnderflow)
      else (g\<lparr>active_commands := active_commands g - 1\<rparr>, Inr ()))"

definition release_maintenance :: "gate \<Rightarrow> gate \<times> (sandbox_error + unit)" where
  "release_maintenance g =
     (if \<not> maintenance_active g then (g, Inl LeaseUnderflow) else (g\<lparr>maintenance_active := False\<rparr>, Inr ()))"

text \<open>The two lease classes have the same \<open>close\<close>, on the flag of the lease and with the release of its kind.\<close>

datatype lease = CommandLease nat | MaintenanceLease nat

datatype close_point = AtTest | AtMark | AtRelease

definition error_of :: "sandbox_error + 'a \<Rightarrow> sandbox_error option" where
  "error_of r = (case r of Inl e \<Rightarrow> Some e | Inr _ \<Rightarrow> None)"

fun is_closed :: "gate \<Rightarrow> lease \<Rightarrow> bool" where
  "is_closed g (CommandLease i) = command_leases g ! i"
| "is_closed g (MaintenanceLease i) = maintenance_leases g ! i"

fun mark_closed :: "lease \<Rightarrow> gate \<Rightarrow> gate" where
  "mark_closed (CommandLease i) g = g\<lparr>command_leases := (command_leases g)[i := True]\<rparr>"
| "mark_closed (MaintenanceLease i) g = g\<lparr>maintenance_leases := (maintenance_leases g)[i := True]\<rparr>"

fun give_back :: "lease \<Rightarrow> gate \<Rightarrow> gate \<times> (sandbox_error + unit)" where
  "give_back (CommandLease i) g = release_command g"
| "give_back (MaintenanceLease i) g = release_maintenance g"

text \<open>One step of \<open>close\<close>: the gate after it, where the call goes on (\<open>None\<close> when it is over) and what it raised.\<close>

fun close_step :: "lease \<Rightarrow> close_point \<Rightarrow> gate \<Rightarrow> gate \<times> close_point option \<times> sandbox_error option" where
  "close_step l AtTest g = (g, if is_closed g l then None else Some AtMark, None)"
| "close_step l AtMark g = (mark_closed l g, Some AtRelease, None)"
| "close_step l AtRelease g = (case give_back l g of (g', r) \<Rightarrow> (g', None, error_of r))"

section \<open>Runs\<close>

record gate_system =
  the_gate :: gate
  closing :: "(lease \<times> close_point) option list"

definition new_system :: gate_system where
  "new_system = \<lparr>the_gate = new_gate, closing = []\<rparr>"

text \<open>\<open>StartClose l\<close> is a thread that calls \<open>close\<close> on a lease, \<open>Advance k\<close> the next step of the \<open>k\<close>-th of these threads.\<close>

datatype gate_call = AcquireCommand | AcquireMaintenance | StartClose lease | Advance nat

fun gate_do :: "gate_call \<Rightarrow> gate_system \<Rightarrow> gate_system \<times> sandbox_error option" where
  "gate_do AcquireCommand s = (case acquire_command (the_gate s) of (g, r) \<Rightarrow> (s\<lparr>the_gate := g\<rparr>, error_of r))"
| "gate_do AcquireMaintenance s = (case acquire_maintenance (the_gate s) of (g, r) \<Rightarrow> (s\<lparr>the_gate := g\<rparr>, error_of r))"
| "gate_do (StartClose l) s = (s\<lparr>closing := closing s @ [Some (l, AtTest)]\<rparr>, None)"
| "gate_do (Advance k) s =
     (case closing s ! k of None \<Rightarrow> (s, None)
      | Some (l, point) \<Rightarrow> (case close_step l point (the_gate s) of (g, goes, e) \<Rightarrow>
          (s\<lparr>the_gate := g, closing := (closing s)[k := map_option (Pair l) goes]\<rparr>, e)))"

fun known_lease :: "gate \<Rightarrow> lease \<Rightarrow> bool" where
  "known_lease g (CommandLease i) = (i < length (command_leases g))"
| "known_lease g (MaintenanceLease i) = (i < length (maintenance_leases g))"

text \<open>A lease is an object that was handed out, and its \<open>close\<close> is not called while another thread is inside it.\<close>

fun gate_call_ok :: "gate_system \<Rightarrow> gate_call \<Rightarrow> bool" where
  "gate_call_ok s (StartClose l) = (known_lease (the_gate s) l \<and> (\<forall>c \<in> set (closing s). map_option fst c \<noteq> Some l))"
| "gate_call_ok s (Advance k) = (k < length (closing s))"
| "gate_call_ok s _ = True"

inductive gate_reach :: "gate_system \<Rightarrow> bool" where
  gate_new: "gate_reach new_system"
| gate_step: "gate_reach s \<Longrightarrow> gate_call_ok s c \<Longrightarrow> gate_reach (fst (gate_do c s))"

section \<open>The leases that are held\<close>

text \<open>A lease is held until the gate has taken it back: while its flag is unset, and from then on while the thread
  that set it has not yet released it.\<close>

definition open_leases :: "bool list \<Rightarrow> nat" where
  "open_leases flags = length (filter Not flags)"

fun releases_command :: "(lease \<times> close_point) option \<Rightarrow> bool" where
  "releases_command (Some (CommandLease _, AtRelease)) = True"
| "releases_command _ = False"

fun releases_maintenance :: "(lease \<times> close_point) option \<Rightarrow> bool" where
  "releases_maintenance (Some (MaintenanceLease _, AtRelease)) = True"
| "releases_maintenance _ = False"

definition held_commands :: "gate_system \<Rightarrow> nat" where
  "held_commands s = open_leases (command_leases (the_gate s)) + length (filter releases_command (closing s))"

definition held_maintenance :: "gate_system \<Rightarrow> nat" where
  "held_maintenance s = open_leases (maintenance_leases (the_gate s)) + length (filter releases_maintenance (closing s))"

text \<open>The invariants: the counter and the flag are exactly the held leases, only one kind is held; no two threads
  close one lease, and a lease about to be marked is not marked.\<close>

definition gate_inv :: "gate_system \<Rightarrow> bool" where
  "gate_inv s \<longleftrightarrow> active_commands (the_gate s) = int (held_commands s)
     \<and> held_maintenance s = (if maintenance_active (the_gate s) then 1 else 0)
     \<and> \<not> (maintenance_active (the_gate s) \<and> active_commands (the_gate s) \<noteq> 0)"

definition closers_inv :: "gate_system \<Rightarrow> bool" where
  "closers_inv s \<longleftrightarrow>
     (\<forall>k < length (closing s). \<forall>l point. closing s ! k = Some (l, point) \<longrightarrow>
        known_lease (the_gate s) l \<and> (point = AtMark \<longrightarrow> \<not> is_closed (the_gate s) l)
        \<and> (\<forall>j < length (closing s). \<forall>point'. closing s ! j = Some (l, point') \<longrightarrow> j = k))"

lemma filter_update_length:
  "k < length xs \<Longrightarrow> length (filter P (xs[k := y])) + (if P (xs ! k) then 1 else 0) = length (filter P xs) + (if P y then 1 else 0)"
proof (induction xs arbitrary: k)
  case (Cons x xs)
  then show ?case by (cases k) auto
qed simp

lemma open_leases_new [simp]: "open_leases (flags @ [False]) = Suc (open_leases flags)"
  by (simp add: open_leases_def)

lemma open_leases_close: "i < length flags \<Longrightarrow> \<not> flags ! i \<Longrightarrow> open_leases flags = Suc (open_leases (flags[i := True]))"
  using filter_update_length [of i flags Not True] by (simp add: open_leases_def)

lemma known_acquired [simp]:
  "known_lease g l \<Longrightarrow> known_lease (g\<lparr>active_commands := n, command_leases := command_leases g @ fs\<rparr>) l"
  "known_lease g l \<Longrightarrow> known_lease (g\<lparr>maintenance_active := b, maintenance_leases := maintenance_leases g @ fs\<rparr>) l"
  "known_lease g l \<Longrightarrow> is_closed (g\<lparr>active_commands := n, command_leases := command_leases g @ fs\<rparr>) l = is_closed g l"
  "known_lease g l \<Longrightarrow> is_closed (g\<lparr>maintenance_active := b, maintenance_leases := maintenance_leases g @ fs\<rparr>) l = is_closed g l"
  by (cases l; simp add: nth_append)+

lemma known_marked [simp]: "known_lease (mark_closed l g) l' = known_lease g l'"
  by (cases l; cases l') simp_all

lemma is_closed_marked [simp]: "l' \<noteq> l \<Longrightarrow> is_closed (mark_closed l g) l' = is_closed g l'"
  by (cases l; cases l') auto

lemma released_same [simp]:
  "known_lease (fst (give_back l g)) l' = known_lease g l'" "is_closed (fst (give_back l g)) l' = is_closed g l'"
  by (cases l; cases l'; simp add: release_command_def release_maintenance_def)+

text \<open>A step of one thread keeps what the other threads rely on.\<close>

lemma close_step_frame:
  assumes "close_step l point g = (g', goes, e)"
  shows "known_lease g' l' = known_lease g l'" "l' \<noteq> l \<Longrightarrow> is_closed g' l' = is_closed g l'"
    and "goes = Some AtMark \<Longrightarrow> \<not> is_closed g' l"
proof -
  have g': "g' = (case point of AtTest \<Rightarrow> g | AtMark \<Rightarrow> mark_closed l g | AtRelease \<Rightarrow> fst (give_back l g))"
    using assms by (cases point) (auto split: prod.splits)
  show "known_lease g' l' = known_lease g l'" "l' \<noteq> l \<Longrightarrow> is_closed g' l' = is_closed g l'"
    by (cases point; simp add: g')+
  show "\<not> is_closed g' l" if "goes = Some AtMark"
    using assms that by (cases point) (auto split: prod.splits if_splits)
qed

lemma closers_inv_step:
  assumes inv: "closers_inv s" and ok: "gate_call_ok s c"
  shows "closers_inv (fst (gate_do c s))"
proof (cases c)
  case AcquireCommand
  with inv show ?thesis by (auto simp: closers_inv_def acquire_command_def)
next
  case AcquireMaintenance
  with inv show ?thesis by (auto simp: closers_inv_def acquire_maintenance_def)
next
  case (StartClose l)
  have "closing s ! j \<noteq> Some (l, p)" if "j < length (closing s)" for j p
    using ok StartClose nth_mem [OF that] by fastforce
  with inv ok StartClose show ?thesis
    unfolding closers_inv_def by (fastforce simp: nth_append less_Suc_eq split: if_splits)
next
  case (Advance k)
  show ?thesis
  proof (cases "closing s ! k")
    case None
    then show ?thesis using inv Advance by simp
  next
    case (Some c')
    obtain l point where c': "c' = (l, point)" by force
    obtain g goes e where st: "close_step l point (the_gate s) = (g, goes, e)" using prod_cases3 by blast
    note fr = close_step_frame [OF st]
    have k: "k < length (closing s)" using ok Advance by simp
    have other: "closing s ! j \<noteq> Some (l, p)" if "j < length (closing s)" "j \<noteq> k" for j p
      using inv k Some that unfolding closers_inv_def c' by blast
    have s': "fst (gate_do c s) = s\<lparr>the_gate := g, closing := (closing s)[k := map_option (Pair l) goes]\<rparr>"
      using Some by (simp add: Advance c' st)
    have loc: "(i \<noteq> k \<longrightarrow> closing s ! i = Some (m, p) \<and> m \<noteq> l) \<and> (i = k \<longrightarrow> m = l \<and> goes = Some p)"
      if "i < length (closing s)" "(closing s)[k := map_option (Pair l) goes] ! i = Some (m, p)" for i m p
      using that other by (cases "i = k") auto
    show ?thesis
      unfolding closers_inv_def s'
    proof (clarsimp, intro conjI impI allI)
      fix i m p
      assume i: "i < length (closing s)" and at: "(closing s)[k := map_option (Pair l) goes] ! i = Some (m, p)"
      from loc [OF this] show "known_lease g m" "p = AtMark \<Longrightarrow> \<not> is_closed g m"
        using inv i Some fr k unfolding closers_inv_def c' by metis+
      fix j
      assume j: "j < length (closing s)" and "\<exists>p'. (closing s)[k := map_option (Pair l) goes] ! j = Some (m, p')"
      then obtain p' where "(closing s)[k := map_option (Pair l) goes] ! j = Some (m, p')" by blast
      from loc [OF j this] loc [OF i at] show "j = i" using i j inv unfolding closers_inv_def by metis
    qed
  qed
qed

lemma advance_held:
  assumes "k < length (closing s)" "closing s ! k = Some (l, point)"
    and "closing t = (closing s)[k := map_option (Pair l) goes]"
  shows "length (filter P (closing t)) + (if P (Some (l, point)) then 1 else 0)
    = length (filter P (closing s)) + (if P (map_option (Pair l) goes) then 1 else 0)"
  using filter_update_length [OF assms(1), of P "map_option (Pair l) goes"] assms(2,3) by simp

lemma gate_inv_advance:
  assumes inv: "gate_inv s" "closers_inv s" and k: "k < length (closing s)" and at: "closing s ! k = Some (l, point)"
  shows "gate_inv (fst (gate_do (Advance k) s)) \<and> snd (gate_do (Advance k) s) = None"
proof -
  obtain g goes e where st: "close_step l point (the_gate s) = (g, goes, e)" using prod_cases3 by blast
  define t where "t = s\<lparr>the_gate := g, closing := (closing s)[k := map_option (Pair l) goes]\<rparr>"
  have r: "gate_do (Advance k) s = (t, e)" using at by (simp add: st t_def)
  have g: "the_gate t = g" and h: "closing t = (closing s)[k := map_option (Pair l) goes]" by (simp_all add: t_def)
  note counts = advance_held [OF k at h, of releases_command] advance_held [OF k at h, of releases_maintenance]
  have own: "known_lease (the_gate s) l" "point = AtMark \<Longrightarrow> \<not> is_closed (the_gate s) l"
    using inv(2) k at unfolding closers_inv_def by blast+
  have open_flag: "known_lease (the_gate s) (CommandLease i) \<Longrightarrow> \<not> is_closed (the_gate s) (CommandLease i) \<Longrightarrow>
      open_leases (command_leases (the_gate s)) = Suc (open_leases ((command_leases (the_gate s))[i := True]))"
    "known_lease (the_gate s) (MaintenanceLease i) \<Longrightarrow> \<not> is_closed (the_gate s) (MaintenanceLease i) \<Longrightarrow>
      open_leases (maintenance_leases (the_gate s)) = Suc (open_leases ((maintenance_leases (the_gate s))[i := True]))" for i
    by (simp_all add: open_leases_close)
  have "gate_inv t \<and> e = None"
  proof (cases point)
    case AtTest
    then show ?thesis using inv(1) counts st
      by (cases l; auto simp: gate_inv_def held_commands_def held_maintenance_def g split: if_splits)
  next
    case AtMark
    then show ?thesis using inv(1) counts st own open_flag
      by (cases l; fastforce simp: gate_inv_def held_commands_def held_maintenance_def g split: if_splits)
  next
    case AtRelease
    then show ?thesis using inv(1) counts st
      by (cases l; auto simp: gate_inv_def held_commands_def held_maintenance_def g release_command_def
          release_maintenance_def error_of_def split: if_splits simp flip: length_0_conv)
  qed
  then show ?thesis by (simp only: r fst_conv snd_conv)
qed

lemma gate_do_inv:
  assumes inv: "gate_inv s" "closers_inv s" and ok: "gate_call_ok s c"
  shows "gate_inv (fst (gate_do c s)) \<and> snd (gate_do c s) \<in> {None, Some MaintenanceBusy}"
proof (cases c)
  case AcquireCommand
  with inv show ?thesis
    by (auto simp: gate_inv_def held_commands_def held_maintenance_def acquire_command_def error_of_def)
next
  case AcquireMaintenance
  with inv show ?thesis
    by (auto simp: gate_inv_def held_commands_def held_maintenance_def acquire_maintenance_def error_of_def)
next
  case (StartClose l)
  with inv show ?thesis by (cases l) (auto simp: gate_inv_def held_commands_def held_maintenance_def)
next
  case (Advance k)
  then show ?thesis
  proof (cases "closing s ! k")
    case None
    then show ?thesis using inv Advance by simp
  next
    case (Some c')
    then show ?thesis using gate_inv_advance [OF inv, of k "fst c'" "snd c'"] ok Advance by simp
  qed
qed

lemma gate_reach_inv: "gate_reach s \<Longrightarrow> gate_inv s \<and> closers_inv s"
proof (induction rule: gate_reach.induct)
  case gate_new
  show ?case by (simp add: gate_inv_def closers_inv_def held_commands_def held_maintenance_def new_system_def new_gate_def open_leases_def)
next
  case (gate_step s c)
  then show ?case using gate_do_inv closers_inv_step by blast
qed

text \<open>C33. However the calls of the threads interleave, as long as no lease is closed by two threads at the same
  time: commands and maintenance exclude each other, at most one maintenance lease is held, the counter of the
  gate is exactly the number of command leases that are held (a lease being closed counts until the gate has taken it
  back), an acquisition succeeds exactly when no lease of the excluding kinds is held, no release underflows,
  and closing a lease that is closed changes nothing.\<close>

theorem gate_excludes:
  assumes "gate_reach s" "gate_call_ok s c"
  shows "(held_commands s = 0 \<or> held_maintenance s = 0) \<and> held_maintenance s \<le> 1
    \<and> active_commands (the_gate s) = int (held_commands s) \<and> (maintenance_active (the_gate s) \<longleftrightarrow> held_maintenance s = 1)
    \<and> snd (gate_do c s) \<in> {None, Some MaintenanceBusy}
    \<and> (c = AcquireMaintenance \<longrightarrow> (snd (gate_do c s) = None \<longleftrightarrow> held_commands s = 0 \<and> held_maintenance s = 0))
    \<and> (c = AcquireCommand \<longrightarrow> (snd (gate_do c s) = None \<longleftrightarrow> held_maintenance s = 0))
    \<and> (\<forall>k l point. c = Advance k \<longrightarrow> closing s ! k = Some (l, point) \<longrightarrow> snd (gate_do c s) = None
        \<and> (point = AtTest \<longrightarrow> is_closed (the_gate s) l \<longrightarrow> gate_do c s = (s\<lparr>closing := (closing s)[k := None]\<rparr>, None)))"
proof -
  have inv: "gate_inv s" "closers_inv s" using gate_reach_inv [OF assms(1)] by auto
  have "snd (gate_do c s) \<in> {None, Some MaintenanceBusy}" using gate_do_inv [OF inv assms(2)] by blast
  moreover have "c = AcquireMaintenance \<longrightarrow> (snd (gate_do c s) = None \<longleftrightarrow> held_commands s = 0 \<and> held_maintenance s = 0)"
    "c = AcquireCommand \<longrightarrow> (snd (gate_do c s) = None \<longleftrightarrow> held_maintenance s = 0)"
    using inv(1) by (auto simp: gate_inv_def acquire_maintenance_def acquire_command_def error_of_def split: if_splits)
  moreover have "snd (gate_do c s) = None
      \<and> (point = AtTest \<longrightarrow> is_closed (the_gate s) l \<longrightarrow> gate_do c s = (s\<lparr>closing := (closing s)[k := None]\<rparr>, None))"
    if "c = Advance k" "closing s ! k = Some (l, point)" for k l point
    using gate_inv_advance [OF inv, of k l point] assms(2) that by auto
  ultimately show ?thesis using inv(1) by (auto simp: gate_inv_def split: if_splits)
qed

text \<open>One command lease, its \<open>close\<close> at the point where the flag is set and the gate not yet told.\<close>

definition half_closed :: gate_system where
  "half_closed = \<lparr>the_gate = \<lparr>active_commands = 1, maintenance_active = False, command_leases = [True], maintenance_leases = []\<rparr>,
     closing = [Some (CommandLease 0, AtRelease)]\<rparr>"

theorem gate_excludes_witness:
  "snd (gate_do AcquireMaintenance half_closed) = Some MaintenanceBusy"
proof -
  have "gate_reach (fst (gate_do (Advance 0) (fst (gate_do (Advance 0) (fst (gate_do (StartClose (CommandLease 0))
      (fst (gate_do AcquireCommand new_system))))))))"
    by (intro gate_step gate_new) (simp_all add: acquire_command_def new_gate_def new_system_def)
  then have "gate_reach half_closed"
    by (simp add: acquire_command_def new_gate_def new_system_def half_closed_def)
  moreover have "held_commands half_closed = 1" by (simp add: half_closed_def held_commands_def open_leases_def)
  ultimately show ?thesis using gate_excludes [of half_closed AcquireMaintenance] by (auto simp del: gate_do.simps)
qed

text \<open>Two threads inside the \<open>close\<close> of one lease: both find the flag unset and both release, so that the lease of
  another command, still open, is not counted any more and maintenance is admitted beside it.\<close>

definition gate_run :: "gate_call list \<Rightarrow> gate_system" where
  "gate_run cs = fold (\<lambda>c s. fst (gate_do c s)) cs new_system"

theorem concurrent_close_releases_twice:
  "(let s = gate_run [AcquireCommand, AcquireCommand, StartClose (CommandLease 0), StartClose (CommandLease 0),
      Advance 0, Advance 1, Advance 0, Advance 1, Advance 0, Advance 1]
    in command_leases (the_gate s) = [True, False] \<and> closing s = [None, None] \<and> active_commands (the_gate s) = 0
      \<and> snd (gate_do AcquireMaintenance s) = None)"
  by (simp add: gate_run_def new_system_def new_gate_def acquire_command_def acquire_maintenance_def
      release_command_def error_of_def numeral_nat)

end
