(* ===== verification/PyFloat.thy ===== *)
theory PyFloat
  imports Complex_Main "HOL-Library.Log_Nat"
begin

text \<open>
  Python's \<open>float\<close>: finite IEEE binary64 numbers as the rationals they denote. \<open>float_round\<close> is the
  rounding that every addition, subtraction and multiplication applies to its exact result: 53
  significant bits, to nearest, ties to even, with \<open>2^-1074\<close> as the smallest step. The exact result of an
  addition or a subtraction of two floats is a multiple of that step, so nothing is lost before the rounding;
  overflow beyond the largest float is not represented. The interface that the components use is the locale
  \<open>rounding\<close>, interpreted on \<open>float_round\<close>.
\<close>

section \<open>Rounding a natural number to 53 bits\<close>

definition half_even :: "nat \<Rightarrow> nat \<Rightarrow> nat" where
  "half_even e n = (let q = n div 2 ^ e; r = n mod 2 ^ e in
     if 2 * r < 2 ^ e \<or> (2 * r = 2 ^ e \<and> even q) then q * 2 ^ e else Suc q * 2 ^ e)"

definition round53 :: "nat \<Rightarrow> nat" where
  "round53 n = half_even (floorlog 2 n - 53) n"

lemma half_even_bounds: "n div 2 ^ e * 2 ^ e \<le> half_even e n" "half_even e n \<le> Suc (n div 2 ^ e) * 2 ^ e"
  by (simp_all add: half_even_def Let_def)

lemma half_even_grid: "half_even e (k * 2 ^ e) = k * 2 ^ e"
  by (simp add: half_even_def)

lemma half_even_power:
  assumes "e \<le> j"
  shows "half_even e (2 ^ j) = 2 ^ j"
proof -
  from assms obtain i where "j = i + e" by (metis add.commute le_Suc_ex)
  then show ?thesis using half_even_grid [of e "2 ^ i"] by (simp add: power_add)
qed

lemma half_even_mono:
  assumes "m \<le> n"
  shows "half_even e m \<le> half_even e n"
proof (cases "m div 2 ^ e < n div 2 ^ e")
  case True
  then have "Suc (m div 2 ^ e) * 2 ^ e \<le> n div 2 ^ e * 2 ^ e" by (intro mult_le_mono1) simp
  then show ?thesis using half_even_bounds [of e m] half_even_bounds [of n e] by linarith
next
  case False
  then have q: "m div 2 ^ e = n div 2 ^ e" using div_le_mono [OF assms, of "2 ^ e"] by simp
  then have "m mod 2 ^ e \<le> n mod 2 ^ e"
    using assms div_mult_mod_eq [of m "2 ^ e"] div_mult_mod_eq [of n "2 ^ e"] by (metis add_le_cancel_left)
  with q show ?thesis by (auto simp: half_even_def Let_def)
qed

lemma half_even_dest: "\<exists>q \<le> Suc (n div 2 ^ e). half_even e n = q * 2 ^ e"
proof (cases "half_even e n = n div 2 ^ e * 2 ^ e")
  case False
  then have "half_even e n = Suc (n div 2 ^ e) * 2 ^ e" by (auto simp: half_even_def Let_def split: if_splits)
  then show ?thesis by blast
qed (blast intro: le_SucI)

lemma round53_exact:
  assumes "k \<le> 2 ^ 53"
  shows "round53 (k * 2 ^ j) = k * 2 ^ j"
proof -
  have short: "round53 (k * 2 ^ j) = k * 2 ^ j" if "k < 2 ^ 53" for k j
  proof (cases "k = 0")
    case False
    have "floorlog 2 (k * 2 ^ j) - 53 \<le> j"
      using False floorlog_leI [OF that] by (simp add: floorlog_power)
    then obtain i where "j = i + (floorlog 2 (k * 2 ^ j) - 53)" by (metis add.commute le_add_diff_inverse2)
    then have "k * 2 ^ j = k * 2 ^ i * 2 ^ (floorlog 2 (k * 2 ^ j) - 53)" by (metis mult.assoc power_add)
    then show ?thesis unfolding round53_def by (metis half_even_grid)
  qed (simp add: round53_def half_even_def)
  show ?thesis using assms short [of k j] short [of 1 "53 + j"] by (cases "k = 2 ^ 53") (auto simp: power_add)
qed

lemma top_bits: "n div 2 ^ (floorlog 2 n - 53) < 2 ^ 53"
proof (cases "n = 0")
  case False
  have "n < 2 ^ floorlog 2 n" using floorlog_bounds [of n 2] False by simp
  also have "(2::nat) ^ floorlog 2 n \<le> 2 ^ (53 + (floorlog 2 n - 53))" by (rule power_increasing) simp_all
  finally show ?thesis by (simp add: less_mult_imp_div_less power_add)
qed simp

lemma round53_shape: "\<exists>k \<le> 2 ^ 53. \<exists>j. round53 n = k * 2 ^ j"
proof -
  obtain q where "q \<le> Suc (n div 2 ^ (floorlog 2 n - 53))" "round53 n = q * 2 ^ (floorlog 2 n - 53)"
    using half_even_dest [of n] unfolding round53_def by blast
  then show ?thesis using top_bits [of n] by (intro exI [of _ q]) auto
qed

lemma round53_idem: "round53 (round53 n) = round53 n"
  using round53_shape [of n] round53_exact by metis

text \<open>The rounding does not depend on the scale, so that it can be computed on short numbers.\<close>

lemma half_even_scale: "half_even (e + j) (n * 2 ^ j) = half_even e n * 2 ^ j"
proof -
  have "n * 2 ^ j div 2 ^ (e + j) = n div 2 ^ e" by (simp add: power_add)
  moreover have "n * 2 ^ j mod 2 ^ (e + j) = n mod 2 ^ e * 2 ^ j" by (simp add: power_add mod_mult_mult2)
  moreover have "2 * (r * 2 ^ j) < 2 ^ (e + j) \<longleftrightarrow> 2 * r < 2 ^ e" "2 * (r * 2 ^ j) = 2 ^ (e + j) \<longleftrightarrow> 2 * r = 2 ^ e" for r :: nat
    by (simp_all add: power_add mult.assoc [symmetric])
  ultimately show ?thesis by (simp add: half_even_def Let_def power_add distrib_right)
qed

lemma round53_scale: "round53 (n * 2 ^ j) = round53 n * 2 ^ j"
proof (cases "floorlog 2 n \<le> 53")
  case True
  then have "n \<le> 2 ^ 53" using floorlog_leD [of 2 n 53] by simp
  then show ?thesis using round53_exact [of n j] round53_exact [of n 0] by simp
next
  case False
  then have "0 < n" by (cases n) (simp_all add: floorlog_def)
  then show ?thesis using False half_even_scale [of "floorlog 2 n - 53" j n] by (simp add: round53_def floorlog_power)
qed

lemma round53_mono:
  assumes "m \<le> n"
  shows "round53 m \<le> round53 n"
proof (cases "floorlog 2 m < floorlog 2 n")
  case False
  then have "floorlog 2 m = floorlog 2 n" using floorlog_mono [OF assms, of 2] by simp
  then show ?thesis using half_even_mono [OF assms] by (simp add: round53_def)
next
  case True
  then have "0 < n" by (metis floorlog_eq_zero_iff gr_zeroI not_less0 zero_le)
  define p where "p = (2::nat) ^ (floorlog 2 n - 1)"
  have "p \<le> n" using floorlog_bounds [of n 2] \<open>0 < n\<close> by (simp add: p_def)
  have "m < 2 ^ floorlog 2 m" by (rule floorlog_leD) simp_all
  also have "(2::nat) ^ floorlog 2 m \<le> p" unfolding p_def using True by (intro power_increasing) simp_all
  finally have "m \<le> p" by simp
  have pg: "half_even e p = p" if "e \<le> floorlog 2 n - 1" for e
    using half_even_power [OF that] by (simp add: p_def)
  have "round53 m \<le> p"
    using half_even_mono [OF \<open>m \<le> p\<close>, of "floorlog 2 m - 53"] pg [of "floorlog 2 m - 53"] True by (simp add: round53_def)
  also have "p \<le> round53 n"
    using half_even_mono [OF \<open>p \<le> n\<close>, of "floorlog 2 n - 53"] pg [of "floorlog 2 n - 53"] True by (simp add: round53_def)
  finally show ?thesis .
qed

section \<open>Rounding a rational\<close>

definition float_pos :: "rat \<Rightarrow> rat" where
  "float_pos x = of_nat (round53 (nat \<lfloor>x * 2 ^ 1074\<rfloor>)) / 2 ^ 1074"

definition float_round :: "rat \<Rightarrow> rat" where
  "float_round x = (if x < 0 then - float_pos (- x) else float_pos x)"

definition is_float :: "rat \<Rightarrow> bool" where
  "is_float x \<longleftrightarrow> float_round x = x"

lemma float_pos_nonneg: "0 \<le> float_pos x"
  by (simp add: float_pos_def)

lemma float_pos_mono: "x \<le> y \<Longrightarrow> float_pos x \<le> float_pos y"
  unfolding float_pos_def
  by (intro divide_right_mono of_nat_mono round53_mono nat_mono floor_mono mult_right_mono) simp_all

lemma float_pos_of_nat: "float_pos (of_nat n / 2 ^ 1074) = of_nat (round53 n) / 2 ^ 1074"
  by (simp add: float_pos_def)

lemma float_pos_grid: "\<exists>n. float_pos x = of_nat (round53 n) / 2 ^ 1074"
  by (auto simp: float_pos_def)

lemma float_pos_idem: "float_pos (float_pos x) = float_pos x"
proof -
  obtain n where "float_pos x = of_nat (round53 n) / 2 ^ 1074" using float_pos_grid by blast
  then show ?thesis by (simp only: float_pos_of_nat round53_idem)
qed

lemma float_round_mono: "x \<le> y \<Longrightarrow> float_round x \<le> float_round y"
  using float_pos_mono [of x y] float_pos_mono [of "- y" "- x"] float_pos_nonneg [of y] float_pos_nonneg [of "- x"]
  by (auto simp: float_round_def)

lemma float_round_idem: "float_round (float_round x) = float_round x"
proof -
  have "float_pos 0 = 0" by (simp add: float_pos_def round53_def half_even_def)
  then show ?thesis
    using float_pos_nonneg [of x] float_pos_nonneg [of "- x"] by (auto simp: float_round_def float_pos_idem)
qed

lemma float_round_is_float [simp]: "is_float (float_round x)"
  by (simp add: is_float_def float_round_idem)

lemma float_round_whole:
  assumes "0 \<le> n" "n \<le> 2 ^ 53"
  shows "float_round (of_int n) = of_int n"
proof -
  obtain k where k: "n = int k" using assms(1) by (metis zero_le_imp_eq_int)
  have "nat \<lfloor>rat_of_nat k * 2 ^ 1074\<rfloor> = k * 2 ^ 1074"
    by (metis floor_of_nat nat_int of_nat_mult of_nat_numeral of_nat_power)
  moreover have "round53 (k * 2 ^ 1074) = k * 2 ^ 1074" using assms(2) k by (intro round53_exact) simp
  ultimately show ?thesis using assms(1) k by (simp add: float_round_def float_pos_def)
qed

lemma float_round_numeral: "(numeral k :: int) \<le> 2 ^ 53 \<Longrightarrow> float_round (numeral k) = numeral k"
  using float_round_whole [of "numeral k"] by simp

lemma float_round_dyadic:
  assumes "k \<le> 1074"
  shows "float_round (of_nat n / 2 ^ k) = of_nat (round53 n) / 2 ^ k"
proof -
  obtain j where j: "(1074::nat) = k + j" using assms le_Suc_ex by blast
  have scale: "of_nat m / 2 ^ k = (of_nat (m * 2 ^ j) / 2 ^ 1074 :: rat)" for m
    unfolding j power_add by simp
  have "float_round (of_nat n / 2 ^ k) = float_pos (of_nat n / 2 ^ k)"
    by (simp add: float_round_def not_less [THEN iffD2])
  also have "\<dots> = of_nat (round53 n) / 2 ^ k" unfolding scale float_pos_of_nat round53_scale by (rule refl)
  finally show ?thesis .
qed

lemma is_float_grid:
  assumes "is_float x"
  shows "\<exists>i :: int. x = of_int i / 2 ^ 1074"
proof (cases "x < 0")
  case True
  then have "x = - float_pos (- x)" using assms by (simp add: is_float_def float_round_def)
  then have "x = of_int (- int (round53 (nat \<lfloor>- x * 2 ^ 1074\<rfloor>))) / 2 ^ 1074" by (simp add: float_pos_def)
  then show ?thesis by blast
next
  case False
  then have "x = float_pos x" using assms by (simp add: is_float_def float_round_def)
  then have "x = of_int (int (round53 (nat \<lfloor>x * 2 ^ 1074\<rfloor>))) / 2 ^ 1074" by (simp add: float_pos_def)
  then show ?thesis by blast
qed

lemma round53_pos: "0 < n \<Longrightarrow> 0 < round53 n"
  using round53_mono [of 1 n] round53_exact [of 1 0] by simp

text \<open>A difference of two floats keeps its sign when it is rounded.\<close>

lemma float_diff_sign:
  assumes "is_float x" "is_float y"
  shows "float_round (x - y) \<le> 0 \<longleftrightarrow> x \<le> y"
proof
  assume "x \<le> y"
  then show "float_round (x - y) \<le> 0"
    using float_round_mono [of "x - y" 0] float_round_whole [of 0] by simp
next
  assume r: "float_round (x - y) \<le> 0"
  obtain i j where ij: "x = of_int i / 2 ^ 1074" "y = of_int j / 2 ^ 1074" using assms by (blast dest: is_float_grid)
  have d: "(x - y) * 2 ^ 1074 = of_int (i - j)" by (simp add: ij diff_divide_distrib [symmetric] del: of_int_diff) simp
  show "x \<le> y"
  proof (rule ccontr)
    assume "\<not> x \<le> y"
    then have "0 < nat (i - j)" by (simp add: ij divide_less_cancel)
    then have "0 < float_pos (x - y)" using d by (simp add: float_pos_def round53_pos del: of_int_diff)
    then show False using r \<open>\<not> x \<le> y\<close> by (simp add: float_round_def)
  qed
qed

section \<open>The interface of floating-point arithmetic\<close>

locale rounding =
  fixes rnd :: "rat \<Rightarrow> rat"
  assumes mono: "x \<le> y \<Longrightarrow> rnd x \<le> rnd y"
    and idem: "rnd (rnd x) = rnd x"
    and whole: "0 \<le> n \<Longrightarrow> n \<le> 2 ^ 53 \<Longrightarrow> rnd (of_int n) = of_int n"
begin

lemma zero: "rnd 0 = 0"
  using whole [of 0] by simp

lemma nonneg_keep: "0 \<le> x \<Longrightarrow> 0 \<le> rnd x"
  using mono [of 0 x] zero by simp

text \<open>Taking a non-negative amount away never ends above the start.\<close>

lemma diff_le: "rnd v = v \<Longrightarrow> 0 \<le> r \<Longrightarrow> rnd (v - r) \<le> v"
  using mono [of "v - r" v] by simp

text \<open>A whole number whose rounded value is below \<open>2^53\<close> was not rounded.\<close>

lemma whole_below:
  assumes "0 \<le> n" "rnd (of_int n) \<le> l" "l < 2 ^ 53"
  shows "n < 2 ^ 53" "rnd (of_int n) = of_int n"
proof -
  show n: "n < 2 ^ 53"
  proof (rule ccontr)
    assume "\<not> n < 2 ^ 53"
    then have "(of_int (2 ^ 53) :: rat) \<le> of_int n" by (simp only: of_int_le_iff not_less)
    from mono [OF this] whole [of "2 ^ 53"] assms(2,3) show False by simp
  qed
  then show "rnd (of_int n) = of_int n" using whole assms(1) by simp
qed

end

interpretation fl: rounding float_round
  by unfold_locales (simp_all add: float_round_mono float_round_idem float_round_whole)

end
