(* ===== verification/SandboxAdmission.thy ===== *)
theory SandboxAdmission
  imports SandboxPolicy PyFloat
begin

text \<open>
  \<open>sandbox/runtime/admission.py\<close>: the quota gate in front of the launcher. Percentages and clock readings
  are floats: every sum, difference and product of them is rounded by \<open>float_round\<close>, and \<open>0.80\<close> is the
  double nearest to four fifths. A turn of the wait loop of \<open>acquire\<close> is \<open>acquire_try\<close>; \<open>acquire\<close> runs it over
  the states that the loop finds when it tests its condition, each with the clock that it reads there. Every
  method runs under the lock of the condition, which only \<open>wait\<close> gives up, between two turns.
\<close>

section \<open>Requests and limits\<close>

record ResourceRequest =
  rq_memory_mib :: int
  rq_processes :: int
  rq_handles :: int
  rq_cpu_percent :: rat

definition empty_request :: ResourceRequest where
  "empty_request = \<lparr>rq_memory_mib = 0, rq_processes = 0, rq_handles = 0, rq_cpu_percent = 0\<rparr>"

record AggregateLimits =
  al_memory_mib :: int
  al_processes :: int
  al_handles :: int
  al_cpu_percent :: rat

definition add_request :: "ResourceRequest \<Rightarrow> ResourceRequest \<Rightarrow> ResourceRequest" where
  "add_request l r = \<lparr>rq_memory_mib = rq_memory_mib l + rq_memory_mib r, rq_processes = rq_processes l + rq_processes r,
     rq_handles = rq_handles l + rq_handles r, rq_cpu_percent = float_round (rq_cpu_percent l + rq_cpu_percent r)\<rparr>"

definition subtract_request :: "ResourceRequest \<Rightarrow> ResourceRequest \<Rightarrow> ResourceRequest" where
  "subtract_request l r = \<lparr>rq_memory_mib = max 0 (rq_memory_mib l - rq_memory_mib r),
     rq_processes = max 0 (rq_processes l - rq_processes r), rq_handles = max 0 (rq_handles l - rq_handles r),
     rq_cpu_percent = max 0 (float_round (rq_cpu_percent l - rq_cpu_percent r))\<rparr>"

definition four_fifths :: rat where
  "four_fifths = 3602879701896397 / 4503599627370496"

definition fits_limit :: "ResourceRequest \<Rightarrow> AggregateLimits \<Rightarrow> int option \<Rightarrow> bool" where
  "fits_limit v limit available =
     (let memory_limit = (case available of None \<Rightarrow> al_memory_mib limit
        | Some a \<Rightarrow> min (al_memory_mib limit) (max 0 \<lfloor>float_round (float_round (of_int a) * four_fifths)\<rfloor>)) in
      rq_memory_mib v \<le> memory_limit \<and> rq_processes v \<le> al_processes limit
      \<and> rq_handles v \<le> al_handles limit \<and> rq_cpu_percent v \<le> al_cpu_percent limit)"

text \<open>The machine's memory ceiling from the reported physical bytes.\<close>

definition system_memory_limit_mib :: "int option \<Rightarrow> int" where
  "system_memory_limit_mib reported =
     (case reported of None \<Rightarrow> 1000000 | Some b \<Rightarrow> if b \<le> 0 then 1000000 else max 128 \<lfloor>float_round (float_round (of_int b) * four_fifths) / 1048576\<rfloor>)"

section \<open>The gate\<close>

record admission =
  ad_user_limits :: AggregateLimits
  ad_system_limits :: AggregateLimits
  ad_wait_seconds :: rat
  ad_available :: "int option"
  ad_user :: "string \<rightharpoonup> ResourceRequest"
  ad_system :: ResourceRequest

definition default_user_limits :: AggregateLimits where
  "default_user_limits = \<lparr>al_memory_mib = 8192, al_processes = 512, al_handles = 32768, al_cpu_percent = 75\<rparr>"

definition default_system_limits :: "int option \<Rightarrow> AggregateLimits" where
  "default_system_limits reported =
     \<lparr>al_memory_mib = system_memory_limit_mib reported, al_processes = 2048, al_handles = 131072, al_cpu_percent = 90\<rparr>"

definition clamp_wait :: "rat \<Rightarrow> rat" where
  "clamp_wait s = min (max s 0) 30"

definition new_admission :: "AggregateLimits \<Rightarrow> AggregateLimits option \<Rightarrow> rat \<Rightarrow> int option \<Rightarrow> int option \<Rightarrow> admission" where
  "new_admission ul sl wait available reported =
     \<lparr>ad_user_limits = ul, ad_system_limits = (case sl of None \<Rightarrow> default_system_limits reported | Some l \<Rightarrow> l),
      ad_wait_seconds = clamp_wait wait, ad_available = available, ad_user = Map.empty, ad_system = empty_request\<rparr>"

definition user_usage :: "admission \<Rightarrow> string \<Rightarrow> ResourceRequest" where
  "user_usage a u = (case ad_user a u of None \<Rightarrow> empty_request | Some r \<Rightarrow> r)"

definition usage :: "admission \<Rightarrow> string option \<Rightarrow> ResourceRequest" where
  "usage a u = (case u of None \<Rightarrow> ad_system a | Some n \<Rightarrow> user_usage a n)"

definition fits :: "admission \<Rightarrow> string \<Rightarrow> ResourceRequest \<Rightarrow> bool" where
  "fits a u r \<longleftrightarrow> fits_limit (add_request (user_usage a u) r) (ad_user_limits a) (ad_available a)
     \<and> fits_limit (add_request (ad_system a) r) (ad_system_limits a) None"

definition book :: "string \<Rightarrow> ResourceRequest \<Rightarrow> admission \<Rightarrow> admission" where
  "book u r a = a\<lparr>ad_user := (ad_user a)(u \<mapsto> add_request (user_usage a u) r), ad_system := add_request (ad_system a) r\<rparr>"

datatype admit_outcome = Admitted admission | Waits rat | TimedOut

definition acquire_deadline :: "admission \<Rightarrow> rat \<Rightarrow> rat option \<Rightarrow> rat" where
  "acquire_deadline a now timeout =
     float_round (now + (case timeout of None \<Rightarrow> ad_wait_seconds a | Some t \<Rightarrow> clamp_wait t))"

definition acquire_try :: "string \<Rightarrow> ResourceRequest \<Rightarrow> rat \<Rightarrow> rat \<Rightarrow> admission \<Rightarrow> admit_outcome" where
  "acquire_try u r deadline now a =
     (if fits a u r then Admitted (book u r a)
      else let remaining = float_round (deadline - now) in if remaining \<le> 0 then TimedOut else Waits remaining)"

primrec acquire_loop :: "string \<Rightarrow> ResourceRequest \<Rightarrow> rat \<Rightarrow> (rat \<times> admission) list \<Rightarrow> admit_outcome option" where
  "acquire_loop u r deadline [] = None"
| "acquire_loop u r deadline (look # looks) =
     (case acquire_try u r deadline (fst look) (snd look) of
        Waits _ \<Rightarrow> acquire_loop u r deadline looks
      | out \<Rightarrow> Some out)"

text \<open>\<open>None\<close> is a call that still waits after the last of the looks.\<close>

definition acquire :: "string \<Rightarrow> ResourceRequest \<Rightarrow> rat option \<Rightarrow> rat \<Rightarrow> admission \<Rightarrow> (rat \<times> admission) list \<Rightarrow> admit_outcome option" where
  "acquire u r timeout start a looks = acquire_loop u r (acquire_deadline a start timeout) looks"

definition release_request :: "string \<Rightarrow> ResourceRequest \<Rightarrow> admission \<Rightarrow> admission" where
  "release_request u r a =
     (let left = subtract_request (user_usage a u) r in
      a\<lparr>ad_user := (if left = empty_request then (ad_user a)(u := None) else (ad_user a)(u \<mapsto> left)),
        ad_system := subtract_request (ad_system a) r\<rparr>)"

section \<open>Accounting\<close>

text \<open>A request or a recorded usage: non-negative, with a float as its percentage.\<close>

definition request_ok :: "ResourceRequest \<Rightarrow> bool" where
  "request_ok r \<longleftrightarrow> 0 \<le> rq_memory_mib r \<and> 0 \<le> rq_processes r \<and> 0 \<le> rq_handles r \<and> 0 \<le> rq_cpu_percent r
     \<and> is_float (rq_cpu_percent r)"

definition counts :: "ResourceRequest \<Rightarrow> int \<times> int \<times> int" where
  "counts r = (rq_memory_mib r, rq_processes r, rq_handles r)"

definition total_of :: "ResourceRequest list \<Rightarrow> ResourceRequest" where
  "total_of rs = \<lparr>rq_memory_mib = sum_list (map rq_memory_mib rs), rq_processes = sum_list (map rq_processes rs),
     rq_handles = sum_list (map rq_handles rs), rq_cpu_percent = sum_list (map rq_cpu_percent rs)\<rparr>"

definition whole_percent :: "ResourceRequest \<Rightarrow> bool" where
  "whole_percent r \<longleftrightarrow> of_int \<lfloor>rq_cpu_percent r\<rfloor> = rq_cpu_percent r"

lemma whole_percentD: "whole_percent r \<Longrightarrow> \<exists>n. rq_cpu_percent r = of_int n"
  unfolding whole_percent_def by metis

text \<open>What a user holds, among the requests that were admitted and not yet released.\<close>

definition held_by :: "string \<Rightarrow> (string \<times> ResourceRequest) list \<Rightarrow> ResourceRequest list" where
  "held_by u held = map snd (filter (\<lambda>p. fst p = u) held)"

lemma total_of_Nil [simp]: "total_of [] = empty_request"
  by (simp add: total_of_def empty_request_def)

lemma held_by_simps [simp]:
  "held_by u [] = []" "held_by u ((v, r) # held) = (if v = u then r # held_by u held else held_by u held)"
  by (simp_all add: held_by_def)

lemma request_ok_empty [simp]: "request_ok empty_request"
  by (simp add: request_ok_def empty_request_def is_float_def fl.zero)

lemma request_ok_add [intro]: "request_ok a \<Longrightarrow> request_ok b \<Longrightarrow> request_ok (add_request a b)"
  by (simp add: request_ok_def add_request_def fl.nonneg_keep)

lemma request_ok_subtract [intro]: "request_ok (subtract_request a b)"
  by (simp add: request_ok_def subtract_request_def max_def is_float_def fl.zero float_round_idem)

lemma fits_limit_subtract:
  assumes "fits_limit v l m" "request_ok v" "request_ok r"
  shows "fits_limit (subtract_request v r) l m"
  using assms fl.diff_le [of "rq_cpu_percent v" "rq_cpu_percent r"]
  by (auto simp: fits_limit_def subtract_request_def request_ok_def is_float_def Let_def)

lemma user_usage_book: "user_usage (book u r a) v = (if v = u then add_request (user_usage a u) r else user_usage a v)"
  by (simp add: user_usage_def book_def)

lemma user_usage_release: "user_usage (release_request u r a) v = (if v = u then subtract_request (user_usage a u) r else user_usage a v)"
  by (simp add: user_usage_def release_request_def Let_def)

lemma release_keeps [simp]:
  "ad_system (release_request u r a) = subtract_request (ad_system a) r"
  "ad_user_limits (release_request u r a) = ad_user_limits a" "ad_system_limits (release_request u r a) = ad_system_limits a"
  "ad_available (release_request u r a) = ad_available a" "ad_wait_seconds (release_request u r a) = ad_wait_seconds a"
  by (simp_all add: release_request_def Let_def)

lemma book_keeps [simp]:
  "ad_system (book u r a) = add_request (ad_system a) r"
  "ad_user_limits (book u r a) = ad_user_limits a" "ad_system_limits (book u r a) = ad_system_limits a"
  "ad_available (book u r a) = ad_available a" "ad_wait_seconds (book u r a) = ad_wait_seconds a"
  by (simp_all add: book_def)

text \<open>A run of the gate: its state, the requests that are held and all the requests that were ever admitted.\<close>

inductive admission_run ::
  "admission \<Rightarrow> admission \<Rightarrow> (string \<times> ResourceRequest) list \<Rightarrow> ResourceRequest list \<Rightarrow> bool" for init where
  run_new: "admission_run init init [] []"
| run_admit: "admission_run init a held past \<Longrightarrow> request_ok r \<Longrightarrow> acquire_try u r deadline now a = Admitted a' \<Longrightarrow>
    admission_run init a' ((u, r) # held) (r # past)"
| run_release: "admission_run init a held past \<Longrightarrow> (u, r) \<in> set held \<Longrightarrow>
    admission_run init (release_request u r a) (remove1 (u, r) held) past"

lemma admittedD: "acquire_try u r deadline now a = Admitted a' \<Longrightarrow> fits a u r \<and> a' = book u r a"
  by (auto simp: acquire_try_def Let_def split: if_splits)

lemma run_static:
  "admission_run init a held past \<Longrightarrow> snd ` set held \<subseteq> set past \<and> (\<forall>r \<in> set past. request_ok r)
     \<and> ad_user_limits a = ad_user_limits init \<and> ad_system_limits a = ad_system_limits init
     \<and> ad_available a = ad_available init \<and> ad_wait_seconds a = ad_wait_seconds init"
proof (induction rule: admission_run.induct)
  case (run_release a held past u r)
  then show ?case using set_remove1_subset [of "(u, r)" held] by fastforce
qed (auto dest: admittedD)

definition usage_inv :: "admission \<Rightarrow> (string \<times> ResourceRequest) list \<Rightarrow> bool" where
  "usage_inv a held \<longleftrightarrow> request_ok (ad_system a) \<and> (\<forall>u. request_ok (user_usage a u))
     \<and> (held \<noteq> [] \<longrightarrow> fits_limit (ad_system a) (ad_system_limits a) None)
     \<and> (\<forall>u \<in> fst ` set held. fits_limit (user_usage a u) (ad_user_limits a) (ad_available a))"

lemma run_usage:
  assumes "admission_run init a held past" "ad_user init = Map.empty" "ad_system init = empty_request"
  shows "usage_inv a held"
  using assms(1)
proof induction
  case run_new
  then show ?case using assms(2,3) by (simp add: usage_inv_def user_usage_def)
next
  case (run_admit a held past r u deadline now a')
  then show ?case using admittedD [OF run_admit.hyps(3)] by (auto simp: usage_inv_def user_usage_book fits_def)
next
  case (run_release a held past u r)
  then have r: "request_ok r" using run_static [OF run_release.hyps(1)] by force
  have "held \<noteq> []" using run_release.hyps(2) by auto
  moreover have "fst ` set (remove1 (u, r) held) \<subseteq> fst ` set held" using set_remove1_subset by fast
  moreover have "u \<in> fst ` set held" using run_release.hyps(2) by force
  ultimately show ?case using run_release.IH r
    unfolding usage_inv_def user_usage_release release_keeps
    by (auto simp: fits_limit_subtract simp del: fst_conv)
qed

text \<open>The sum of two requests without rounding, and what the removal of a held request takes from the sums.\<close>

definition plus_request :: "ResourceRequest \<Rightarrow> ResourceRequest \<Rightarrow> ResourceRequest" where
  "plus_request s r = \<lparr>rq_memory_mib = rq_memory_mib s + rq_memory_mib r, rq_processes = rq_processes s + rq_processes r,
     rq_handles = rq_handles s + rq_handles r, rq_cpu_percent = rq_cpu_percent s + rq_cpu_percent r\<rparr>"

lemma total_of_Cons: "total_of (r # rs) = plus_request (total_of rs) r"
  by (simp add: total_of_def plus_request_def)

lemma held_total_remove1: "p \<in> set held \<Longrightarrow> total_of (map snd held) = plus_request (total_of (map snd (remove1 p held))) (snd p)"
  by (simp add: total_of_def plus_request_def comp_def sum_list_map_remove1 [of p held])

lemma held_by_remove1:
  assumes "(u, r) \<in> set held"
  shows "total_of (held_by v held) =
    (if v = u then plus_request (total_of (held_by v (remove1 (u, r) held))) r else total_of (held_by v (remove1 (u, r) held)))"
proof (cases "v = u")
  case True
  then have "(u, r) \<in> set (filter (\<lambda>p. fst p = v) held)" using assms by simp
  from held_total_remove1 [OF this] True show ?thesis by (simp add: held_by_def filter_remove1)
next
  case False
  then have "filter (\<lambda>p. fst p = v) (remove1 (u, r) held) = filter (\<lambda>p. fst p = v) held"
    by (simp add: filter_remove1 remove1_idem)
  with False show ?thesis by (simp add: held_by_def)
qed

definition tallies :: "bool \<Rightarrow> ResourceRequest \<Rightarrow> ResourceRequest \<Rightarrow> bool" where
  "tallies w v s \<longleftrightarrow> counts v = counts s \<and> (w \<longrightarrow> rq_cpu_percent v = rq_cpu_percent s)"

lemma tallies_add:
  assumes "tallies w v s" "w \<Longrightarrow> whole_percent s" "w \<Longrightarrow> whole_percent r" "request_ok v" "request_ok r"
    and "fits_limit (add_request v r) l m" "w \<Longrightarrow> al_cpu_percent l < 2 ^ 53"
  shows "tallies w (add_request v r) (plus_request s r)"
proof -
  have "float_round (rq_cpu_percent v + rq_cpu_percent r) = rq_cpu_percent s + rq_cpu_percent r" if w: w
  proof -
    obtain i j where ij: "rq_cpu_percent v = of_int i" "rq_cpu_percent r = of_int j"
      using assms(1) w whole_percentD [OF assms(2)] whole_percentD [OF assms(3)] unfolding tallies_def by metis
    have "0 \<le> i + j" using assms(4,5) ij by (simp add: request_ok_def)
    then have "float_round (of_int (i + j)) = of_int (i + j)"
      using fl.whole_below [of "i + j" "al_cpu_percent l"] assms(6,7) w ij
      by (auto simp: fits_limit_def add_request_def Let_def)
    then show ?thesis using assms(1) w ij by (simp add: tallies_def)
  qed
  then show ?thesis using assms(1) by (simp add: tallies_def counts_def add_request_def plus_request_def)
qed

lemma tallies_subtract:
  assumes "tallies w v (plus_request s r)" "w \<Longrightarrow> whole_percent s" "request_ok r"
    and "0 \<le> rq_memory_mib s" "0 \<le> rq_processes s" "0 \<le> rq_handles s" "0 \<le> rq_cpu_percent s"
    and "w \<Longrightarrow> rq_cpu_percent v < 2 ^ 53"
  shows "tallies w (subtract_request v r) s"
proof -
  have "max 0 (float_round (rq_cpu_percent v - rq_cpu_percent r)) = rq_cpu_percent s" if w: w
  proof -
    have v: "rq_cpu_percent v = rq_cpu_percent s + rq_cpu_percent r" using assms(1) w by (simp add: tallies_def plus_request_def)
    have "rq_cpu_percent s < 2 ^ 53" using v assms(3,8) w by (simp add: request_ok_def)
    moreover obtain n where n: "rq_cpu_percent s = of_int n" using whole_percentD [OF assms(2)] w by blast
    moreover have "(of_int n :: rat) < of_int (2 ^ 53)" "0 \<le> n" using calculation assms(7) by simp_all
    ultimately have "float_round (rq_cpu_percent s) = rq_cpu_percent s"
      using fl.whole [of n] by (simp only: of_int_less_iff)
    then show ?thesis using v assms(7) by simp
  qed
  then show ?thesis using assms(1,4-6) by (simp add: tallies_def counts_def subtract_request_def plus_request_def)
qed

lemma total_ok:
  assumes "\<forall>r \<in> set rs. request_ok r"
  shows "0 \<le> rq_memory_mib (total_of rs)" "0 \<le> rq_processes (total_of rs)" "0 \<le> rq_handles (total_of rs)" "0 \<le> rq_cpu_percent (total_of rs)"
  using assms by (auto simp: total_of_def request_ok_def intro!: sum_list_nonneg)

lemma total_whole: "\<forall>r \<in> set rs. whole_percent r \<Longrightarrow> whole_percent (total_of rs)"
proof (induction rs)
  case (Cons r rs)
  then obtain i j where "rq_cpu_percent r = of_int i" "rq_cpu_percent (total_of rs) = of_int j"
    by (metis list.set_intros(1) list.set_intros(2) whole_percent_def)
  then have "rq_cpu_percent (total_of (r # rs)) = of_int (j + i)" by (simp add: total_of_Cons plus_request_def)
  then show ?case by (simp only: whole_percent_def floor_of_int)
qed (simp add: whole_percent_def empty_request_def)

text \<open>Under which the floats are exact: whole percentages and limits below \<open>2^53\<close>.\<close>

definition whole_run :: "admission \<Rightarrow> ResourceRequest list \<Rightarrow> bool" where
  "whole_run init past \<longleftrightarrow> (\<forall>r \<in> set past. whole_percent r)
     \<and> al_cpu_percent (ad_user_limits init) < 2 ^ 53 \<and> al_cpu_percent (ad_system_limits init) < 2 ^ 53"

lemma tallies_weaken: "tallies w v s \<Longrightarrow> (w' \<Longrightarrow> w) \<Longrightarrow> tallies w' v s"
  by (simp add: tallies_def)

lemma admit_tallies:
  assumes run: "admission_run init a held past" and init: "ad_user init = Map.empty" "ad_system init = empty_request"
    and r: "request_ok r" and adm: "acquire_try u r deadline now a = Admitted a'"
    and IH: "tallies (whole_run init past) (ad_system a) (total_of (map snd held))
    \<and> (\<forall>v. tallies (whole_run init past) (user_usage a v) (total_of (held_by v held)))"
  shows "tallies (whole_run init (r # past)) (ad_system a') (total_of (map snd ((u, r) # held)))
    \<and> (\<forall>v. tallies (whole_run init (r # past)) (user_usage a' v) (total_of (held_by v ((u, r) # held))))"
proof -
  let ?w = "whole_run init (r # past)"
  have f: "fits a u r" "a' = book u r a" using admittedD [OF adm] by auto
  have st: "snd ` set held \<subseteq> set past" "ad_user_limits a = ad_user_limits init" "ad_system_limits a = ad_system_limits init"
    using run_static [OF run] by auto
  have ok: "request_ok (ad_system a)" "request_ok (user_usage a u)"
    using run_usage [OF run init] by (auto simp: usage_inv_def)
  have whole: "whole_percent (total_of (map snd held))" "whole_percent (total_of (held_by v held))" "whole_percent r" if ?w for v
    using that st(1) by (force simp: whole_run_def held_by_def intro!: total_whole)+
  have old: "tallies ?w (ad_system a) (total_of (map snd held))" "tallies ?w (user_usage a v) (total_of (held_by v held))" for v
    using IH by (auto intro: tallies_weaken simp: whole_run_def)
  have "tallies ?w (add_request (ad_system a) r) (plus_request (total_of (map snd held)) r)"
    using f(1) st(3) by (intro tallies_add [OF old(1) whole(1) whole(3) ok(1) r, of "ad_system_limits a" None])
      (auto simp: fits_def whole_run_def)
  moreover have "tallies ?w (add_request (user_usage a u) r) (plus_request (total_of (held_by u held)) r)"
    using f(1) st(2) by (intro tallies_add [OF old(2) whole(2) whole(3) ok(2) r, of "ad_user_limits a" "ad_available a"])
      (auto simp: fits_def whole_run_def)
  ultimately show ?thesis using old(2) by (simp add: f(2) user_usage_book total_of_Cons)
qed

lemma release_tallies:
  assumes run: "admission_run init a held past" and init: "ad_user init = Map.empty" "ad_system init = empty_request"
    and m: "(u, r) \<in> set held"
    and IH: "tallies (whole_run init past) (ad_system a) (total_of (map snd held))
    \<and> (\<forall>v. tallies (whole_run init past) (user_usage a v) (total_of (held_by v held)))"
  shows "tallies (whole_run init past) (ad_system (release_request u r a)) (total_of (map snd (remove1 (u, r) held)))
    \<and> (\<forall>v. tallies (whole_run init past) (user_usage (release_request u r a) v) (total_of (held_by v (remove1 (u, r) held))))"
proof -
  let ?w = "whole_run init past" and ?held = "remove1 (u, r) held"
  have st: "snd ` set held \<subseteq> set past" "\<forall>r \<in> set past. request_ok r" "ad_user_limits a = ad_user_limits init"
      "ad_system_limits a = ad_system_limits init"
    using run_static [OF run] by auto
  have sub: "snd ` set ?held \<subseteq> set past" using st(1) set_remove1_subset [of "(u, r)" held] by fast
  have r: "request_ok r" using st(1,2) m by force
  have in_past: "\<forall>q \<in> set (map snd ?held). q \<in> set past" "\<forall>q \<in> set (held_by v ?held). q \<in> set past" for v
    using sub by (auto simp: held_by_def)
  have ok: "\<forall>q \<in> set (map snd ?held). request_ok q" "\<forall>q \<in> set (held_by v ?held). request_ok q" for v
    using in_past st(2) by blast+
  have whole: "whole_percent (total_of (map snd ?held))" "whole_percent (total_of (held_by v ?held))" if ?w for v
    using that in_past by (intro total_whole; simp add: whole_run_def)+
  have lim: "fits_limit (ad_system a) (ad_system_limits a) None" "fits_limit (user_usage a u) (ad_user_limits a) (ad_available a)"
    using run_usage [OF run init] m by (force simp: usage_inv_def)+
  have small: "rq_cpu_percent (ad_system a) < 2 ^ 53" "rq_cpu_percent (user_usage a u) < 2 ^ 53" if ?w
    using that lim st(3,4) by (auto simp: fits_limit_def whole_run_def Let_def)
  have "tallies ?w (subtract_request (ad_system a) r) (total_of (map snd ?held))"
    using IH held_total_remove1 [OF m]
    by (intro tallies_subtract [OF _ whole(1) r total_ok [OF ok(1)] small(1)]) simp_all
  moreover have "tallies ?w (subtract_request (user_usage a u) r) (total_of (held_by u ?held))"
    using IH held_by_remove1 [OF m, of u]
    by (intro tallies_subtract [OF _ whole(2) r total_ok [OF ok(2)] small(2)]) (simp_all, metis)
  moreover have "tallies ?w (user_usage a v) (total_of (held_by v ?held))" if "v \<noteq> u" for v
    using IH held_by_remove1 [OF m, of v] that by (metis (full_types))
  ultimately show ?thesis by (simp add: user_usage_release)
qed

lemma run_tallies:
  assumes "admission_run init a held past" "ad_user init = Map.empty" "ad_system init = empty_request"
  shows "tallies (whole_run init past) (ad_system a) (total_of (map snd held))
    \<and> (\<forall>v. tallies (whole_run init past) (user_usage a v) (total_of (held_by v held)))"
  using assms(1)
proof induction
  case run_new
  then show ?case using assms(2,3) by (simp add: tallies_def user_usage_def)
next
  case (run_admit a held past r u deadline now a')
  then show ?case using admit_tallies [OF _ assms(2,3)] by blast
next
  case (run_release a held past u r)
  then show ?case using release_tallies [OF _ assms(2,3)] by blast
qed

lemma tallies_whole: "tallies True v s \<longleftrightarrow> v = s"
  by (auto simp: tallies_def counts_def)

text \<open>C28. After any sequence of admissions of non-negative requests and releases of requests that are held,
  the recorded memory, processes and handles of the machine and of every user are exactly the sums over the
  held requests, and the whole usage, the floating-point percentage included, stays within the configured
  limits. The percentage is the exact sum too, and the usage is exactly zero when nothing is held, when
  all the requested percentages are whole numbers and the limits below \<open>2^53\<close>; with fractions it is not.\<close>

theorem admission_exact_and_bounded:
  assumes "admission_run (new_admission ul sl wait available reported) a held past"
    and "sys = (case sl of None \<Rightarrow> default_system_limits reported | Some l \<Rightarrow> l)"
  shows "counts (usage a None) = counts (total_of (map snd held)) \<and> counts (usage a (Some u)) = counts (total_of (held_by u held))
    \<and> (held \<noteq> [] \<longrightarrow> fits_limit (usage a None) sys None)
    \<and> (u \<in> fst ` set held \<longrightarrow> fits_limit (usage a (Some u)) ul available)
    \<and> ((\<forall>r \<in> set past. whole_percent r) \<and> al_cpu_percent ul < 2 ^ 53 \<and> al_cpu_percent sys < 2 ^ 53 \<longrightarrow>
        usage a None = total_of (map snd held) \<and> usage a (Some u) = total_of (held_by u held)
        \<and> (held = [] \<longrightarrow> usage a None = empty_request \<and> usage a (Some u) = empty_request))"
proof -
  let ?init = "new_admission ul sl wait available reported"
  have init: "ad_user ?init = Map.empty" "ad_system ?init = empty_request" "ad_user_limits ?init = ul"
      "ad_system_limits ?init = sys" "ad_available ?init = available"
    using assms(2) by (simp_all add: new_admission_def)
  have m: "tallies (whole_run ?init past) (usage a None) (total_of (map snd held))"
      "tallies (whole_run ?init past) (usage a (Some u)) (total_of (held_by u held))"
    using run_tallies [OF assms(1) init(1,2)] by (simp_all add: usage_def)
  have l: "held \<noteq> [] \<longrightarrow> fits_limit (usage a None) sys None" "u \<in> fst ` set held \<longrightarrow> fits_limit (usage a (Some u)) ul available"
    using run_usage [OF assms(1) init(1,2)] run_static [OF assms(1)] init(3-5) by (auto simp: usage_inv_def usage_def)
  have "usage a None = total_of (map snd held)" "usage a (Some u) = total_of (held_by u held)" if "whole_run ?init past"
    using m that by (simp_all add: tallies_whole)
  moreover have "whole_run ?init past \<longleftrightarrow> (\<forall>r \<in> set past. whole_percent r) \<and> al_cpu_percent ul < 2 ^ 53 \<and> al_cpu_percent sys < 2 ^ 53"
    by (simp only: whole_run_def init)
  ultimately show ?thesis using m l by (simp add: tallies_def)
qed

definition job_request :: ResourceRequest where
  "job_request = \<lparr>rq_memory_mib = 4096, rq_processes = 256, rq_handles = 0, rq_cpu_percent = 0\<rparr>"

definition sample_admission :: admission where
  "sample_admission = new_admission default_user_limits None 30 None None"

lemma acquire_try_cases:
  "acquire_try u r deadline now a =
    (if fits a u r then Admitted (book u r a) else if float_round (deadline - now) \<le> 0 then TimedOut
     else Waits (float_round (deadline - now)))"
  by (simp add: acquire_try_def Let_def)

lemmas sample_simps = fits_def fits_limit_def add_request_def subtract_request_def user_usage_def empty_request_def job_request_def
  sample_admission_def new_admission_def default_user_limits_def default_system_limits_def system_memory_limit_mib_def
  fl.zero float_round_numeral

lemma sample_admits: "acquire_try ''u'' job_request 30 0 sample_admission = Admitted (book ''u'' job_request sample_admission)"
  by (simp add: acquire_try_cases sample_simps)

lemma sample_run:
  "admission_run sample_admission (book ''u'' job_request sample_admission) [(''u'', job_request)] [job_request]"
  by (rule run_admit [OF run_new _ sample_admits]) (simp add: request_ok_def job_request_def is_float_def fl.zero)

theorem admission_exact_and_bounded_witness:
  "usage (book ''u'' job_request sample_admission) (Some ''u'') = total_of [job_request]
   \<and> fits_limit (usage (book ''u'' job_request sample_admission) (Some ''u'')) default_user_limits None"
proof -
  have "whole_percent job_request" "al_cpu_percent default_user_limits < 2 ^ 53" "al_cpu_percent (default_system_limits None) < 2 ^ 53"
    by (simp_all add: whole_percent_def job_request_def default_user_limits_def default_system_limits_def)
  then show ?thesis
    using admission_exact_and_bounded [OF sample_run [unfolded sample_admission_def] refl, of "''u''"]
    unfolding sample_admission_def by auto
qed

section \<open>Waiting\<close>

lemma acquire_loop_returns:
  assumes "k < length looks" "deadline \<le> fst (looks ! k)" "is_float deadline" "\<forall>l \<in> set looks. is_float (fst l)"
  shows "\<exists>j \<le> k. (\<forall>i < j. \<not> fits (snd (looks ! i)) u r \<and> fst (looks ! i) < deadline)
    \<and> (fits (snd (looks ! j)) u r \<or> deadline \<le> fst (looks ! j))
    \<and> acquire_loop u r deadline looks = Some (if fits (snd (looks ! j)) u r then Admitted (book u r (snd (looks ! j))) else TimedOut)"
  using assms
proof (induction looks arbitrary: k)
  case (Cons l looks)
  have sign: "float_round (deadline - fst l) \<le> 0 \<longleftrightarrow> deadline \<le> fst l"
    using Cons.prems by (simp add: float_diff_sign)
  show ?case
  proof (cases "fits (snd l) u r \<or> deadline \<le> fst l")
    case True
    then show ?thesis using sign by (intro exI [of _ 0]) (auto simp: acquire_try_cases)
  next
    case False
    then obtain k' where k: "k = Suc k'" using Cons.prems(2) by (cases k) auto
    obtain j where "j \<le> k'" "\<forall>i < j. \<not> fits (snd (looks ! i)) u r \<and> fst (looks ! i) < deadline"
        "fits (snd (looks ! j)) u r \<or> deadline \<le> fst (looks ! j)"
        "acquire_loop u r deadline looks = Some (if fits (snd (looks ! j)) u r then Admitted (book u r (snd (looks ! j))) else TimedOut)"
      using Cons.IH [of k'] Cons.prems by (auto simp: k)
    then show ?thesis using False sign k by (intro exI [of _ "Suc j"]) (auto simp: acquire_try_cases less_Suc_eq_0_disj)
  qed
qed simp

text \<open>C37. A call of \<open>acquire\<close> returns, and rightly. Its deadline is at most thirty seconds (in floats) after its
  start, whatever wait or timeout was asked for. Whatever states the wait loop finds, at whatever readings of the
  clock, the call has returned by the first look at or after the deadline: it is admitted at the first look where the
  request fits, and times out only at a look at or after the deadline where neither that state nor an earlier
  one fitted.\<close>

theorem wait_is_bounded:
  assumes "admission_run (new_admission ul sl wait available reported) a held past"
    and "deadline = acquire_deadline a start timeout" "k < length looks" "deadline \<le> fst (looks ! k)" "\<forall>l \<in> set looks. is_float (fst l)"
  shows "deadline \<le> float_round (start + 30) \<and>
    (\<exists>j \<le> k. (\<forall>i < j. \<not> fits (snd (looks ! i)) u r \<and> fst (looks ! i) < deadline)
      \<and> (fits (snd (looks ! j)) u r \<or> deadline \<le> fst (looks ! j))
      \<and> acquire u r timeout start a looks = Some (if fits (snd (looks ! j)) u r then Admitted (book u r (snd (looks ! j))) else TimedOut))"
proof -
  have "ad_wait_seconds a = clamp_wait wait" using run_static [OF assms(1)] by (simp add: new_admission_def)
  then have "deadline \<le> float_round (start + 30)"
    unfolding assms(2) acquire_deadline_def by (intro fl.mono) (simp add: clamp_wait_def split: option.split)
  moreover have "is_float deadline" by (simp add: assms(2) acquire_deadline_def)
  ultimately show ?thesis
    using acquire_loop_returns [OF assms(3,4) _ assms(5), of u r] by (simp add: acquire_def assms(2))
qed

definition one_job :: admission where
  "one_job = book ''u'' job_request sample_admission"

definition big_request :: ResourceRequest where
  "big_request = \<lparr>rq_memory_mib = 8192, rq_processes = 1, rq_handles = 0, rq_cpu_percent = 0\<rparr>"

text \<open>A request for the whole memory of a user whose job runs on looks at once, and again at its deadline.\<close>

theorem wait_is_bounded_witness:
  "acquire ''u'' big_request (Some 1000) 5 one_job [(5, one_job), (35, one_job)] = Some TimedOut"
proof -
  have d: "acquire_deadline one_job 5 (Some 1000) = 35"
    by (simp add: acquire_deadline_def clamp_wait_def float_round_numeral)
  have n: "\<not> fits one_job ''u'' big_request" by (simp add: sample_simps one_job_def big_request_def book_def)
  have fl: "\<forall>l \<in> set [(5 :: rat, one_job), (35, one_job)]. is_float (fst l)" by (simp add: is_float_def float_round_numeral)
  have run: "admission_run (new_admission default_user_limits None 30 None None) one_job [(''u'', job_request)] [job_request]"
    using sample_run by (simp add: one_job_def sample_admission_def)
  have all: "[(5 :: rat, one_job), (35, one_job)] ! j = (if j = 0 then 5 else 35, one_job)" if "j \<le> 1" for j
    using that by (cases j) auto
  show ?thesis
    using wait_is_bounded [OF run d [symmetric], of 1 "[(5, one_job), (35, one_job)]" "''u''" big_request] fl n
    by (auto simp: all d)
qed

text \<open>Waiting is not first in, first out: while a job runs, a request for the user's whole memory waits; a
  later, smaller request is admitted past it; when the running job ends the earlier request still does not fit,
  although it would have fitted without the later one.\<close>

theorem later_request_overtakes:
  "acquire_try ''u'' big_request 30 0 one_job = Waits 30
   \<and> acquire_try ''u'' job_request 31 1 one_job = Admitted (book ''u'' job_request one_job)
   \<and> acquire_try ''u'' big_request 30 2 (release_request ''u'' job_request (book ''u'' job_request one_job)) = Waits 28
   \<and> fits (release_request ''u'' job_request one_job) ''u'' big_request"
  by (simp add: acquire_try_cases sample_simps one_job_def big_request_def book_def release_request_def Let_def)

section \<open>Fractions of a percent\<close>

text \<open>The doubles nearest to 0.1 and 0.2, admitted and released, leave \<open>2^-55\<close> of a percent behind: the entry of
  the user is never equal to the empty request again and stays in the table. The launcher leaves the percentage
  at zero, so its requests are not affected.\<close>

definition cpu_request :: "rat \<Rightarrow> ResourceRequest" where
  "cpu_request x = \<lparr>rq_memory_mib = 0, rq_processes = 1, rq_handles = 0, rq_cpu_percent = x\<rparr>"

definition tenth :: rat where
  "tenth = 3602879701896397 / 36028797018963968"

definition fifth :: rat where
  "fifth = 3602879701896397 / 18014398509481984"

lemma float_steps:
  "float_round tenth = tenth" "float_round (tenth + fifth) = 1351079888211149 / 4503599627370496"
  "float_round (1351079888211149 / 4503599627370496 - tenth) = 7205759403792795 / 36028797018963968"
  "float_round (7205759403792795 / 36028797018963968 - fifth) = 1 / 36028797018963968"
  using float_round_dyadic [of 55 3602879701896397] float_round_dyadic [of 55 10808639105689191]
    float_round_dyadic [of 55 7205759403792795] float_round_dyadic [of 55 1]
  by (simp_all add: tenth_def fifth_def round53_def half_even_def compute_floorlog)

theorem fractions_leave_residue:
  "user_usage (release_request ''u'' (cpu_request fifth) (release_request ''u'' (cpu_request tenth)
     (book ''u'' (cpu_request fifth) (book ''u'' (cpu_request tenth) sample_admission)))) ''u''
   = \<lparr>rq_memory_mib = 0, rq_processes = 0, rq_handles = 0, rq_cpu_percent = 1 / 36028797018963968\<rparr>"
  by (simp add: user_usage_release user_usage_book)
    (simp add: cpu_request_def add_request_def subtract_request_def float_steps sample_admission_def new_admission_def
      user_usage_def empty_request_def)

end
