(* ===== verification/SandboxLeases.thy ===== *)
theory SandboxLeases
  imports SandboxPolicy
begin

text \<open>
  \<open>sandbox/runtime/leases.py\<close>: the persisted ownership of the access-control entries that command jobs
  add, with \<open>AclLeaseEntry\<close> of \<open>sandbox/native_windows/security.py\<close>.

  The state is the manifest file (as the JSON value it holds) together with the calls made to the ACL
  manager and the temporary directories removed. The host is a parameter: the case normalisation of paths,
  whether revoking an entry and removing a directory succeed, and the resolved path of the manifest for the
  messages. Writing is atomic (a temporary file replaces the manifest), so it either happens or raises and
  leaves the manifest as it was. A field whose JSON type is not the annotated one cannot have been written by
  this store; the code would carry such a value on, the model stops with \<open>SbUntyped\<close>.
\<close>

section \<open>Entries and leases\<close>

record AclLeaseEntry =
  ae_path :: string
  ae_object_id :: string
  ae_sid :: string
  ae_ace_type :: string
  ae_mask :: int
  ae_inheritance :: int
  ae_owned :: bool

type_synonym ace_signature = "string \<times> string \<times> string \<times> string \<times> int \<times> int"

record lease_host =
  lh_normcase :: "string \<Rightarrow> string"
  lh_revoke :: "AclLeaseEntry \<Rightarrow> bool"
  lh_remove_temp :: "string \<Rightarrow> bool"
  lh_manifest :: string

definition signature :: "lease_host \<Rightarrow> AclLeaseEntry \<Rightarrow> ace_signature" where
  "signature h e = (lh_normcase h (ae_path e), ae_object_id e, ae_sid e, ae_ace_type e, ae_mask e, ae_inheritance e)"

record CommandLease =
  cl_job_id :: string
  cl_reservation_id :: string
  cl_logon_sid :: string
  cl_account_sid :: string
  cl_service_sid :: string
  cl_workspaces :: "string list"
  cl_cwd :: string
  cl_temp_dir :: string
  cl_file_mode :: string
  cl_workspace_cap_sid :: string
  cl_temp_cap_sid :: string
  cl_capability_digest :: string
  cl_acl_entries :: "AclLeaseEntry list"

definition LEASE_MANIFEST_VERSION :: int where
  "LEASE_MANIFEST_VERSION = 1"

section \<open>The manifest\<close>

definition entry_to_json :: "AclLeaseEntry \<Rightarrow> pyval" where
  "entry_to_json e = PDict [(''path'', PStr (ae_path e)), (''object_id'', PStr (ae_object_id e)), (''sid'', PStr (ae_sid e)),
     (''ace_type'', PStr (ae_ace_type e)), (''mask'', PInt (ae_mask e)), (''inheritance'', PInt (ae_inheritance e)),
     (''owned'', PBool (ae_owned e))]"

definition lease_to_json :: "CommandLease \<Rightarrow> pyval" where
  "lease_to_json l = PDict [(''job_id'', PStr (cl_job_id l)), (''reservation_id'', PStr (cl_reservation_id l)),
     (''logon_sid'', PStr (cl_logon_sid l)), (''account_sid'', PStr (cl_account_sid l)), (''service_sid'', PStr (cl_service_sid l)),
     (''workspaces'', PList (map PStr (cl_workspaces l))), (''cwd'', PStr (cl_cwd l)), (''temp_dir'', PStr (cl_temp_dir l)),
     (''file_mode'', PStr (cl_file_mode l)), (''workspace_cap_sid'', PStr (cl_workspace_cap_sid l)),
     (''temp_cap_sid'', PStr (cl_temp_cap_sid l)), (''capability_digest'', PStr (cl_capability_digest l)),
     (''acl_entries'', PList (map entry_to_json (cl_acl_entries l)))]"

definition manifest_invalid :: "lease_host \<Rightarrow> sandbox_error" where
  "manifest_invalid h = InitFailed (''sandbox lease manifest is invalid: '' @ lh_manifest h)"

text \<open>\<open>Cls(**d)\<close>: exactly the fields of the class.\<close>

definition exact_fields :: "lease_host \<Rightarrow> string list \<Rightarrow> pydict \<Rightarrow> sandbox_error + unit" where
  "exact_fields h names d = ensure (keys d = set names) (manifest_invalid h)"

fun as_str :: "pyval \<Rightarrow> sandbox_error + string" where
  "as_str (PStr s) = Inr s"
| "as_str _ = Inl SbUntyped"

fun as_int :: "pyval \<Rightarrow> sandbox_error + int" where
  "as_int (PInt i) = Inr i"
| "as_int _ = Inl SbUntyped"

fun as_bool :: "pyval \<Rightarrow> sandbox_error + bool" where
  "as_bool (PBool b) = Inr b"
| "as_bool _ = Inl SbUntyped"

definition field_of :: "lease_host \<Rightarrow> (pyval \<Rightarrow> sandbox_error + 'a) \<Rightarrow> pydict \<Rightarrow> string \<Rightarrow> sandbox_error + 'a" where
  "field_of h as d k = (case map_of d k of None \<Rightarrow> Inl (manifest_invalid h) | Some v \<Rightarrow> as v)"

definition entry_from_json :: "lease_host \<Rightarrow> pyval \<Rightarrow> sandbox_error + AclLeaseEntry" where
  "entry_from_json h v = (case v of PDict d \<Rightarrow>
     bind_result (exact_fields h [''path'', ''object_id'', ''sid'', ''ace_type'', ''mask'', ''inheritance'', ''owned''] d) (\<lambda>_.
     bind_result (field_of h as_str d ''path'') (\<lambda>p.
     bind_result (field_of h as_str d ''object_id'') (\<lambda>oid.
     bind_result (field_of h as_str d ''sid'') (\<lambda>sid.
     bind_result (field_of h as_str d ''ace_type'') (\<lambda>ty.
     bind_result (field_of h as_int d ''mask'') (\<lambda>mask.
     bind_result (field_of h as_int d ''inheritance'') (\<lambda>inh.
     bind_result (field_of h as_bool d ''owned'') (\<lambda>own.
       Inr \<lparr>ae_path = p, ae_object_id = oid, ae_sid = sid, ae_ace_type = ty, ae_mask = mask, ae_inheritance = inh, ae_owned = own\<rparr>))))))))
   | _ \<Rightarrow> Inl (manifest_invalid h))"

definition as_list :: "lease_host \<Rightarrow> (pyval \<Rightarrow> sandbox_error + 'a) \<Rightarrow> pyval \<Rightarrow> sandbox_error + 'a list" where
  "as_list h as v = (case v of PList xs \<Rightarrow> map_result as xs | PStr _ \<Rightarrow> Inl SbUntyped | PDict _ \<Rightarrow> Inl SbUntyped | _ \<Rightarrow> Inl (manifest_invalid h))"

definition lease_complete :: "CommandLease \<Rightarrow> bool" where
  "lease_complete l \<longleftrightarrow> cl_job_id l \<noteq> [] \<and> cl_reservation_id l \<noteq> [] \<and> cl_logon_sid l \<noteq> [] \<and> cl_account_sid l \<noteq> []
     \<and> cl_service_sid l \<noteq> [] \<and> cl_workspaces l \<noteq> [] \<and> cl_cwd l \<noteq> [] \<and> cl_temp_dir l \<noteq> [] \<and> cl_workspace_cap_sid l \<noteq> []
     \<and> cl_temp_cap_sid l \<noteq> [] \<and> cl_capability_digest l \<noteq> []"

definition file_mode_ok :: "string \<Rightarrow> bool" where
  "file_mode_ok s \<longleftrightarrow> enum_of FileAccessMode_value [READ_ONLY, WORKSPACE_WRITE, FULL_ACCESS] s \<noteq> None"

definition LEASE_FIELDS :: "string list" where
  "LEASE_FIELDS = [''job_id'', ''reservation_id'', ''logon_sid'', ''account_sid'', ''service_sid'', ''workspaces'', ''cwd'',
     ''temp_dir'', ''file_mode'', ''workspace_cap_sid'', ''temp_cap_sid'', ''capability_digest'', ''acl_entries'']"

definition lease_from_json :: "lease_host \<Rightarrow> pyval \<Rightarrow> sandbox_error + CommandLease" where
  "lease_from_json h v = (case v of PDict d \<Rightarrow>
     bind_result (case map_of d ''acl_entries'' of Some (PList xs) \<Rightarrow> Inr xs | _ \<Rightarrow> Inl (manifest_invalid h)) (\<lambda>raw_entries.
     bind_result (field_of h (as_list h as_str) d ''workspaces'') (\<lambda>ws.
     bind_result (map_result (entry_from_json h) raw_entries) (\<lambda>entries.
     bind_result (exact_fields h LEASE_FIELDS d) (\<lambda>_.
     bind_result (map_result (field_of h as_str d) [''job_id'', ''reservation_id'', ''logon_sid'', ''account_sid'', ''service_sid'', ''cwd'',
         ''temp_dir'', ''file_mode'', ''workspace_cap_sid'', ''temp_cap_sid'', ''capability_digest'']) (\<lambda>s.
     let l = \<lparr>cl_job_id = s ! 0, cl_reservation_id = s ! 1, cl_logon_sid = s ! 2, cl_account_sid = s ! 3, cl_service_sid = s ! 4,
           cl_workspaces = ws, cl_cwd = s ! 5, cl_temp_dir = s ! 6, cl_file_mode = s ! 7, cl_workspace_cap_sid = s ! 8,
           cl_temp_cap_sid = s ! 9, cl_capability_digest = s ! 10, cl_acl_entries = entries\<rparr> in
     bind_result (ensure (file_mode_ok (cl_file_mode l)) (manifest_invalid h)) (\<lambda>_.
     bind_result (ensure (lease_complete l) (manifest_invalid h)) (\<lambda>_. Inr l)))))))
   | _ \<Rightarrow> Inl (manifest_invalid h))"

record lease_world =
  lw_file :: json_file
  lw_writable :: bool
  lw_revoked :: "AclLeaseEntry list"
  lw_removed :: "string list"

definition read_leases :: "lease_host \<Rightarrow> lease_world \<Rightarrow> sandbox_error + CommandLease list" where
  "read_leases h w = (case lw_file w of
      NoFile \<Rightarrow> Inr []
    | Unreadable \<Rightarrow> Inl (manifest_invalid h)
    | Holds v \<Rightarrow>
        (let unsupported = Inl (InitFailed (''sandbox lease manifest version is unsupported: '' @ lh_manifest h)) in
         case v of
           PDict d \<Rightarrow> (case (map_of d ''version'', map_of d ''leases'') of
              (Some ver, Some (PList items)) \<Rightarrow>
                if py_eq ver (PInt LEASE_MANIFEST_VERSION) then map_result (lease_from_json h) items else unsupported
            | _ \<Rightarrow> unsupported)
         | _ \<Rightarrow> unsupported))"

definition manifest_json :: "CommandLease list \<Rightarrow> pyval" where
  "manifest_json ls = PDict [(''version'', PInt LEASE_MANIFEST_VERSION), (''leases'', PList (map lease_to_json ls))]"

definition write_leases :: "CommandLease list \<Rightarrow> (lease_world, sandbox_error, unit) raising" where
  "write_leases ls w = (if lw_writable w then (w\<lparr>lw_file := Holds (manifest_json ls)\<rparr>, Inr ()) else (w, Inl SbOSError))"

section \<open>Operations\<close>

definition add_lease :: "lease_host \<Rightarrow> CommandLease \<Rightarrow> (lease_world, sandbox_error, unit) raising" where
  "add_lease h lease w = (case read_leases h w of
      Inl e \<Rightarrow> (w, Inl e)
    | Inr ls \<Rightarrow> if \<exists>l \<in> set ls. cl_job_id l = cl_job_id lease then (w, Inl (InitFailed ''sandbox lease already exists''))
        else write_leases (ls @ [lease]) w)"

definition remove_lease :: "lease_host \<Rightarrow> string \<Rightarrow> (lease_world, sandbox_error, unit) raising" where
  "remove_lease h job w = (case read_leases h w of
      Inl e \<Rightarrow> (w, Inl e) | Inr ls \<Rightarrow> write_leases (filter (\<lambda>l. cl_job_id l \<noteq> job) ls) w)"

text \<open>The two loops of \<open>_transfer_ownership\<close>: the first entry with the signature becomes owned.\<close>

fun transfer_entries :: "lease_host \<Rightarrow> ace_signature \<Rightarrow> AclLeaseEntry list \<Rightarrow> AclLeaseEntry list option" where
  "transfer_entries h sig [] = None"
| "transfer_entries h sig (e # es) =
     (if signature h e \<noteq> sig then map_option ((#) e) (transfer_entries h sig es)
      else Some ((if ae_owned e then e else e\<lparr>ae_owned := True\<rparr>) # es))"

fun transfer_ownership :: "lease_host \<Rightarrow> AclLeaseEntry \<Rightarrow> CommandLease list \<Rightarrow> CommandLease list option" where
  "transfer_ownership h owner [] = None"
| "transfer_ownership h owner (l # ls) =
     (case transfer_entries h (signature h owner) (cl_acl_entries l) of
        Some es \<Rightarrow> Some (l\<lparr>cl_acl_entries := es\<rparr> # ls)
      | None \<Rightarrow> map_option ((#) l) (transfer_ownership h owner ls))"

text \<open>The loop of \<open>release\<close> over the entries: what remains of the other leases, and the entries the ACL
  manager was asked to revoke.\<close>

fun revoke_entries :: "lease_host \<Rightarrow> AclLeaseEntry list \<Rightarrow> CommandLease list \<Rightarrow> CommandLease list \<times> AclLeaseEntry list" where
  "revoke_entries h [] remaining = (remaining, [])"
| "revoke_entries h (e # es) remaining =
     (if \<not> ae_owned e then revoke_entries h es remaining
      else case transfer_ownership h e remaining of
          Some remaining' \<Rightarrow> revoke_entries h es remaining'
        | None \<Rightarrow> (case revoke_entries h es remaining of (r, revoked) \<Rightarrow> (r, e # revoked)))"

definition release_lease :: "lease_host \<Rightarrow> string \<Rightarrow> (lease_world, sandbox_error, bool) raising" where
  "release_lease h job w = (case read_leases h w of
      Inl e \<Rightarrow> (w, Inl e)
    | Inr ls \<Rightarrow> (case find (\<lambda>l. cl_job_id l = job) ls of
          None \<Rightarrow> (w, Inr True)
        | Some stored \<Rightarrow>
            (case revoke_entries h (rev (cl_acl_entries stored)) (filter (\<lambda>l. cl_job_id l \<noteq> job) ls) of (remaining, revoked) \<Rightarrow>
              let w' = w\<lparr>lw_revoked := lw_revoked w @ revoked, lw_removed := lw_removed w @ [cl_temp_dir stored]\<rparr> in
              if list_all (lh_revoke h) revoked \<and> lh_remove_temp h (cl_temp_dir stored)
              then bind_action (write_leases remaining) (\<lambda>_. lift_action (Inr True)) w'
              else (w', Inr False))))"

fun recover_leases :: "lease_host \<Rightarrow> CommandLease list \<Rightarrow> string list \<Rightarrow> (lease_world, sandbox_error, string list) raising" where
  "recover_leases h [] recovered = lift_action (Inr recovered)"
| "recover_leases h (l # ls) recovered =
     bind_action (release_lease h (cl_job_id l)) (\<lambda>ok. recover_leases h ls (if ok then recovered @ [cl_job_id l] else recovered))"

definition recover :: "lease_host \<Rightarrow> (lease_world, sandbox_error, string list) raising" where
  "recover h w = (case read_leases h w of Inl e \<Rightarrow> (w, Inl e) | Inr ls \<Rightarrow> recover_leases h ls [] w)"

section \<open>The manifest is read back as written\<close>

definition lease_ok :: "CommandLease \<Rightarrow> bool" where
  "lease_ok l \<longleftrightarrow> lease_complete l \<and> file_mode_ok (cl_file_mode l)"

lemma entry_json_roundtrip: "entry_from_json h (entry_to_json e) = Inr e"
  by (simp add: entry_from_json_def entry_to_json_def exact_fields_def field_of_def)

lemma lease_json_roundtrip:
  assumes "lease_ok l"
  shows "lease_from_json h (lease_to_json l) = Inr l"
proof -
  have "map_result as_str (map PStr (cl_workspaces l)) = Inr (cl_workspaces l)"
    and "map_result (entry_from_json h) (map entry_to_json (cl_acl_entries l)) = Inr (cl_acl_entries l)"
    by (auto intro: map_result_Inr entry_json_roundtrip)
  with assms show ?thesis
    by (cases l) (simp add: lease_from_json_def lease_to_json_def exact_fields_def field_of_def as_list_def LEASE_FIELDS_def lease_ok_def Let_def)
qed

lemma manifest_roundtrip:
  assumes "\<forall>l \<in> set ls. lease_ok l"
  shows "read_leases h (w\<lparr>lw_file := Holds (manifest_json ls)\<rparr>) = Inr ls"
proof -
  have "map_result (lease_from_json h) (map lease_to_json ls) = Inr ls"
    using assms by (auto intro: map_result_Inr lease_json_roundtrip)
  then show ?thesis by (simp add: read_leases_def manifest_json_def Let_def)
qed

lemma read_leases_cong: "lw_file w = lw_file w' \<Longrightarrow> read_leases h w = read_leases h w'"
  by (simp add: read_leases_def)

lemma read_leases_ok: "read_leases h w = Inr ls \<Longrightarrow> l \<in> set ls \<Longrightarrow> lease_ok l"
proof -
  have from_json: "lease_from_json h v = Inr l \<Longrightarrow> lease_ok l" for v l
    by (auto simp: lease_from_json_def lease_ok_def bind_result_Inr Let_def split: pyval.splits)
  have items: "map_result (lease_from_json h) items = Inr ls \<Longrightarrow> \<forall>l \<in> set ls. lease_ok l" for items ls
    by (induction items arbitrary: ls) (auto simp: bind_result_Inr dest: from_json)
  show "read_leases h w = Inr ls \<Longrightarrow> l \<in> set ls \<Longrightarrow> lease_ok l"
    using items by (auto simp: read_leases_def Let_def split: json_file.splits pyval.splits option.splits if_splits)
qed

section \<open>Ownership\<close>

definition owned_in :: "lease_host \<Rightarrow> AclLeaseEntry list \<Rightarrow> ace_signature set" where
  "owned_in h es = signature h ` {e \<in> set es. ae_owned e}"

definition owned_sigs :: "lease_host \<Rightarrow> CommandLease list \<Rightarrow> ace_signature set" where
  "owned_sigs h ls = (\<Union>l \<in> set ls. owned_in h (cl_acl_entries l))"

definition held_sigs :: "lease_host \<Rightarrow> CommandLease list \<Rightarrow> ace_signature set" where
  "held_sigs h ls = (\<Union>l \<in> set ls. signature h ` set (cl_acl_entries l))"

lemma owned_in_simps [simp]: "owned_in h [] = {}" "owned_in h (e # es) = (if ae_owned e then insert (signature h e) (owned_in h es) else owned_in h es)"
  "owned_in h (rev es) = owned_in h es"
  by (auto simp: owned_in_def)

lemma sigs_simps [simp]: "owned_sigs h [] = {}" "owned_sigs h (l # ls) = owned_in h (cl_acl_entries l) \<union> owned_sigs h ls"
  "held_sigs h [] = {}" "held_sigs h (l # ls) = signature h ` set (cl_acl_entries l) \<union> held_sigs h ls"
  by (simp_all add: owned_sigs_def held_sigs_def)

lemma owned_held: "owned_sigs h ls \<subseteq> held_sigs h ls"
  by (auto simp: owned_sigs_def held_sigs_def owned_in_def)

lemma signature_owned [simp]: "signature h (e\<lparr>ae_owned := b\<rparr>) = signature h e"
  by (simp add: signature_def)

lemma transfer_entries_None: "transfer_entries h sig es = None \<longleftrightarrow> sig \<notin> signature h ` set es"
  by (induction es) auto

lemma transfer_entries_Some:
  "transfer_entries h sig es = Some es' \<Longrightarrow>
     map (signature h) es' = map (signature h) es \<and> owned_in h es' = insert sig (owned_in h es)"
  by (induction es arbitrary: es') (auto split: if_splits)

text \<open>A change of the leases that keeps everything but ownership flags.\<close>

definition same_lease :: "lease_host \<Rightarrow> CommandLease \<Rightarrow> CommandLease \<Rightarrow> bool" where
  "same_lease h l l' \<longleftrightarrow> l'\<lparr>cl_acl_entries := []\<rparr> = l\<lparr>cl_acl_entries := []\<rparr>
     \<and> map (signature h) (cl_acl_entries l') = map (signature h) (cl_acl_entries l)"

definition same_leases :: "lease_host \<Rightarrow> CommandLease list \<Rightarrow> CommandLease list \<Rightarrow> bool" where
  "same_leases h = list_all2 (same_lease h)"

lemma same_lease_refl [simp]: "same_lease h l l"
  by (simp add: same_lease_def)

lemma same_lease_fields:
  assumes "same_lease h l l'"
  shows "cl_job_id l' = cl_job_id l" "lease_ok l' = lease_ok l"
    "signature h ` set (cl_acl_entries l') = signature h ` set (cl_acl_entries l)"
proof -
  from assms have e: "l'\<lparr>cl_acl_entries := []\<rparr> = l\<lparr>cl_acl_entries := []\<rparr>" by (simp add: same_lease_def)
  show "cl_job_id l' = cl_job_id l" using arg_cong [OF e, of cl_job_id] by simp
  show "lease_ok l' = lease_ok l" using arg_cong [OF e, of lease_ok] by (simp add: lease_ok_def lease_complete_def)
  show "signature h ` set (cl_acl_entries l') = signature h ` set (cl_acl_entries l)"
    using assms by (metis same_lease_def list.set_map)
qed

lemma same_leases_simps [simp]: "same_leases h ls ls" "same_leases h (l # ls) (l' # ls') \<longleftrightarrow> same_lease h l l' \<and> same_leases h ls ls'"
  by (simp_all add: same_leases_def list.rel_refl)

lemma same_leases_trans: "same_leases h a b \<Longrightarrow> same_leases h b c \<Longrightarrow> same_leases h a c"
  unfolding same_leases_def by (rule list_all2_trans) (auto simp: same_lease_def)

lemma same_leases_fields:
  assumes "same_leases h ls ls'"
  shows "map cl_job_id ls' = map cl_job_id ls \<and> held_sigs h ls' = held_sigs h ls \<and> ((\<forall>l \<in> set ls. lease_ok l) \<longrightarrow> (\<forall>l \<in> set ls'. lease_ok l))"
  using assms unfolding same_leases_def
  by (induction rule: list_all2_induct) (auto simp: same_lease_fields)

lemma transfer_ownership_None: "transfer_ownership h owner ls = None \<longleftrightarrow> signature h owner \<notin> held_sigs h ls"
proof (induction ls)
  case (Cons l ls)
  then show ?case
    using transfer_entries_None [of h "signature h owner" "cl_acl_entries l"] by (cases "transfer_entries h (signature h owner) (cl_acl_entries l)") auto
qed simp

lemma transfer_ownership_Some:
  "transfer_ownership h owner ls = Some ls' \<Longrightarrow>
     same_leases h ls ls' \<and> owned_sigs h ls' = insert (signature h owner) (owned_sigs h ls)"
proof (induction ls arbitrary: ls')
  case (Cons l ls)
  show ?case
  proof (cases "transfer_entries h (signature h owner) (cl_acl_entries l)")
    case None
    with Cons show ?thesis by auto
  next
    case (Some es)
    with Cons.prems have "ls' = l\<lparr>cl_acl_entries := es\<rparr> # ls" by simp
    with transfer_entries_Some [OF Some] show ?thesis by (simp add: same_lease_def)
  qed
qed simp

text \<open>Releasing entries revokes exactly the owned ones that no other lease holds; the others become owned by
  a lease that remains.\<close>

lemma revoke_entries_spec:
  assumes "revoke_entries h es remaining = (r, revoked)"
  shows "same_leases h remaining r \<and> set revoked \<subseteq> {e \<in> set es. ae_owned e}
    \<and> signature h ` set revoked = owned_in h es - held_sigs h remaining
    \<and> owned_sigs h r = owned_sigs h remaining \<union> (owned_in h es \<inter> held_sigs h remaining)"
  using assms
proof (induction es arbitrary: remaining revoked)
  case (Cons e es)
  show ?case
  proof (cases "ae_owned e")
    case False
    then have "revoke_entries h es remaining = (r, revoked)" using Cons.prems by simp
    from Cons.IH [OF this] False show ?thesis by auto
  next
    case owned: True
    show ?thesis
    proof (cases "transfer_ownership h e remaining")
      case None
      then obtain rv where rv: "revoke_entries h es remaining = (r, rv)" "revoked = e # rv"
        using Cons.prems owned by (auto split: prod.splits)
      from None have "signature h e \<notin> held_sigs h remaining" by (simp add: transfer_ownership_None)
      with Cons.IH [OF rv(1)] rv(2) owned show ?thesis by auto
    next
      case (Some rem')
      then have rel: "revoke_entries h es rem' = (r, revoked)" using Cons.prems owned by simp
      from Some have "signature h e \<in> held_sigs h remaining" by (metis option.distinct(1) transfer_ownership_None)
      moreover have "held_sigs h rem' = held_sigs h remaining"
        using transfer_ownership_Some [OF Some] same_leases_fields by blast
      moreover have "same_leases h remaining r"
        using Cons.IH [OF rel] transfer_ownership_Some [OF Some] same_leases_trans by blast
      ultimately show ?thesis
        using Cons.IH [OF rel] transfer_ownership_Some [OF Some] owned by auto
    qed
  qed
qed simp

text \<open>The outcome of \<open>release\<close> on a readable manifest with distinct job identifiers.\<close>

definition released :: "lease_host \<Rightarrow> lease_world \<Rightarrow> string \<Rightarrow> CommandLease list \<Rightarrow> lease_world \<Rightarrow> bool" where
  "released h w job ls w' \<longleftrightarrow> (\<exists>stored rv ls'. stored \<in> set ls \<and> cl_job_id stored = job
     \<and> lw_revoked w' = lw_revoked w @ rv \<and> lw_removed w' = lw_removed w @ [cl_temp_dir stored] \<and> lw_writable w'
     \<and> set rv \<subseteq> {e \<in> set (cl_acl_entries stored). ae_owned e}
     \<and> signature h ` set rv = owned_in h (cl_acl_entries stored) - held_sigs h (filter (\<lambda>l. cl_job_id l \<noteq> job) ls)
     \<and> read_leases h w' = Inr ls' \<and> same_leases h (filter (\<lambda>l. cl_job_id l \<noteq> job) ls) ls'
     \<and> owned_sigs h ls' = owned_sigs h ls - signature h ` set rv)"

lemma owned_sigs_split:
  assumes "distinct (map cl_job_id ls)" "stored \<in> set ls"
  shows "owned_sigs h ls = owned_in h (cl_acl_entries stored) \<union> owned_sigs h (filter (\<lambda>l. cl_job_id l \<noteq> cl_job_id stored) ls)"
proof -
  have "{l \<in> set ls. cl_job_id l = cl_job_id stored} = {stored}"
    using assms by (auto simp: distinct_map dest: inj_onD)
  then have "set ls = insert stored (set (filter (\<lambda>l. cl_job_id l \<noteq> cl_job_id stored) ls))" by auto
  then show ?thesis unfolding owned_sigs_def by (metis UN_insert)
qed

lemma release_ok:
  assumes ls: "read_leases h w = Inr ls" "distinct (map cl_job_id ls)" "lw_writable w"
    and stored: "find (\<lambda>l. cl_job_id l = job) ls = Some stored"
    and entries: "revoke_entries h (rev (cl_acl_entries stored)) (filter (\<lambda>l. cl_job_id l \<noteq> job) ls) = (r, rv)"
    and ok: "list_all (lh_revoke h) rv" "lh_remove_temp h (cl_temp_dir stored)"
  shows "\<exists>w'. release_lease h job w = (w', Inr True) \<and> released h w job ls w'"
proof -
  let ?rest = "filter (\<lambda>l. cl_job_id l \<noteq> job) ls"
  let ?w = "w\<lparr>lw_revoked := lw_revoked w @ rv, lw_removed := lw_removed w @ [cl_temp_dir stored], lw_file := Holds (manifest_json r)\<rparr>"
  have m: "stored \<in> set ls" "cl_job_id stored = job"
    using stored by (auto simp: find_Some_iff)
  note sp = revoke_entries_spec [OF entries, simplified]
  have r_ok: "\<forall>l \<in> set r. lease_ok l"
    using same_leases_fields [of h ?rest r] sp read_leases_ok [OF ls(1)] by auto
  have own: "owned_sigs h r = owned_sigs h ls - signature h ` set rv"
    using owned_sigs_split [OF ls(2) m(1), of h] sp owned_held [of h ?rest] unfolding m(2) by blast
  have "release_lease h job w = (?w, Inr True)"
    using ls stored entries ok by (simp add: release_lease_def write_leases_def bind_action_def)
  moreover have "read_leases h ?w = Inr r"
    using manifest_roundtrip [OF r_ok] by (simp add: read_leases_def)
  ultimately show ?thesis
    using m sp own ls(3) unfolding released_def by (intro exI [of _ ?w] conjI exI [of _ stored] exI [of _ rv] exI [of _ r]) auto
qed

lemma find_job: "stored \<in> set ls \<Longrightarrow> distinct (map cl_job_id ls) \<Longrightarrow> find (\<lambda>l. cl_job_id l = cl_job_id stored) ls = Some stored"
  by (induction ls) auto

text \<open>C24. Releasing the lease of a job asks the ACL manager only for entries the job itself inserted and no
  other lease still relies on. When everything succeeds the lease is gone, the other leases are kept with
  their entries, and exactly the revoked entries have lost their owner: an entry that another lease shares
  has an owner among the remaining ones. When a step fails the manifest is unchanged, so the release can be
  repeated.\<close>

theorem release_revokes_only_own:
  assumes "read_leases h w = Inr ls" "distinct (map cl_job_id ls)" "lw_writable w" "stored \<in> set ls"
  shows "(\<exists>w'. release_lease h (cl_job_id stored) w = (w', Inr True) \<and> released h w (cl_job_id stored) ls w')
    \<or> (\<exists>w' rv. release_lease h (cl_job_id stored) w = (w', Inr False) \<and> lw_file w' = lw_file w \<and> lw_revoked w' = lw_revoked w @ rv
         \<and> set rv \<subseteq> {e \<in> set (cl_acl_entries stored). ae_owned e}
         \<and> signature h ` set rv \<inter> held_sigs h (filter (\<lambda>l. cl_job_id l \<noteq> cl_job_id stored) ls) = {}
         \<and> (\<not> list_all (lh_revoke h) rv \<or> \<not> lh_remove_temp h (cl_temp_dir stored)))"
proof -
  let ?rest = "filter (\<lambda>l. cl_job_id l \<noteq> cl_job_id stored) ls"
  obtain r rv where e: "revoke_entries h (rev (cl_acl_entries stored)) ?rest = (r, rv)" by (cases "revoke_entries h (rev (cl_acl_entries stored)) ?rest")
  note f = find_job [OF assms(4,2)] and sp = revoke_entries_spec [OF e, simplified]
  show ?thesis
  proof (cases "list_all (lh_revoke h) rv \<and> lh_remove_temp h (cl_temp_dir stored)")
    case True
    then show ?thesis using release_ok [OF assms(1-3) f e] by blast
  next
    case False
    then have "release_lease h (cl_job_id stored) w =
        (w\<lparr>lw_revoked := lw_revoked w @ rv, lw_removed := lw_removed w @ [cl_temp_dir stored]\<rparr>, Inr False)"
      using assms(1) f e by (auto simp: release_lease_def)
    then show ?thesis using False sp by (intro disjI2) auto
  qed
qed

definition sample_entry :: AclLeaseEntry where
  "sample_entry = \<lparr>ae_path = ''C:/w'', ae_object_id = ''1'', ae_sid = ''S-1'', ae_ace_type = ''allow'', ae_mask = 3, ae_inheritance = 0, ae_owned = True\<rparr>"

definition sample_lease :: "string \<Rightarrow> AclLeaseEntry list \<Rightarrow> CommandLease" where
  "sample_lease job es = \<lparr>cl_job_id = job, cl_reservation_id = ''r'', cl_logon_sid = ''l'', cl_account_sid = ''a'', cl_service_sid = ''s'',
     cl_workspaces = [''C:/w''], cl_cwd = ''C:/w'', cl_temp_dir = ''C:/t'', cl_file_mode = ''read_only'', cl_workspace_cap_sid = ''wc'',
     cl_temp_cap_sid = ''tc'', cl_capability_digest = ''d'', cl_acl_entries = es\<rparr>"

definition sample_lease_host :: lease_host where
  "sample_lease_host = \<lparr>lh_normcase = casefold, lh_revoke = (\<lambda>_. True), lh_remove_temp = (\<lambda>_. True), lh_manifest = ''m''\<rparr>"

definition sample_leases :: "CommandLease list" where
  "sample_leases = [sample_lease ''j1'' [sample_entry], sample_lease ''j2'' [sample_entry\<lparr>ae_owned := False\<rparr>]]"

definition sample_world :: lease_world where
  "sample_world = \<lparr>lw_file = Holds (manifest_json sample_leases), lw_writable = True, lw_revoked = [], lw_removed = []\<rparr>"

lemma sample_world_reads: "read_leases sample_lease_host sample_world = Inr sample_leases"
proof -
  have "\<forall>l \<in> set sample_leases. lease_ok l"
    by (simp add: sample_leases_def sample_lease_def lease_ok_def lease_complete_def file_mode_ok_def enum_of_def)
  from manifest_roundtrip [OF this, of sample_lease_host sample_world] show ?thesis by (simp add: sample_world_def)
qed

theorem release_revokes_only_own_witness:
  "\<exists>w'. release_lease sample_lease_host ''j1'' sample_world = (w', Inr True) \<and> released sample_lease_host sample_world ''j1'' sample_leases w'"
proof -
  have "distinct (map cl_job_id sample_leases)" "lw_writable sample_world" "sample_lease ''j1'' [sample_entry] \<in> set sample_leases"
    "cl_job_id (sample_lease ''j1'' [sample_entry]) = ''j1''"
    by (simp_all add: sample_leases_def sample_lease_def sample_world_def)
  with release_revokes_only_own [OF sample_world_reads] show ?thesis
    by (fastforce simp: sample_lease_host_def list_all_iff)
qed

section \<open>Recovery\<close>

lemma recover_leases_complete:
  assumes "\<forall>e. lh_revoke h e" "\<forall>p. lh_remove_temp h p"
    and "read_leases h w = Inr ls" "map cl_job_id ls = map cl_job_id snap" "distinct (map cl_job_id ls)" "lw_writable w"
  shows "\<exists>w' rv. recover_leases h snap acc w = (w', Inr (acc @ map cl_job_id snap)) \<and> read_leases h w' = Inr []
    \<and> lw_revoked w' = lw_revoked w @ rv \<and> signature h ` set rv = owned_sigs h ls"
  using assms(3-)
proof (induction snap arbitrary: acc w ls)
  case Nil
  then show ?case by (intro exI [of _ w] exI [of _ "[]"]) simp
next
  case (Cons s snap)
  then obtain l rest where ls: "ls = l # rest" "cl_job_id l = cl_job_id s" "map cl_job_id rest = map cl_job_id snap" by auto
  have rest: "filter (\<lambda>k. cl_job_id k \<noteq> cl_job_id l) ls = rest"
    using Cons.prems(3) ls(1) by (auto simp: filter_id_conv image_iff)
  have f: "find (\<lambda>k. cl_job_id k = cl_job_id l) ls = Some l" using ls(1) by simp
  obtain r rv where e: "revoke_entries h (rev (cl_acl_entries l)) (filter (\<lambda>k. cl_job_id k \<noteq> cl_job_id l) ls) = (r, rv)"
    by (cases "revoke_entries h (rev (cl_acl_entries l)) (filter (\<lambda>k. cl_job_id k \<noteq> cl_job_id l) ls)")
  have all_ok: "list_all (lh_revoke h) rv" "lh_remove_temp h (cl_temp_dir l)" using assms(1,2) by (auto simp: list_all_iff)
  from release_ok [OF Cons.prems(1,3,4) f e all_ok] obtain w1
    where w1: "release_lease h (cl_job_id l) w = (w1, Inr True)" "released h w (cl_job_id l) ls w1" by blast
  from w1(2) [unfolded released_def rest] obtain st rv1 ls1 where st: "st \<in> set ls"
      "signature h ` set rv1 = owned_in h (cl_acl_entries st) - held_sigs h rest"
    and r1: "lw_revoked w1 = lw_revoked w @ rv1" "lw_writable w1" "read_leases h w1 = Inr ls1"
      "same_leases h rest ls1" "owned_sigs h ls1 = owned_sigs h ls - signature h ` set rv1" by (elim exE conjE)
  have sub: "signature h ` set rv1 \<subseteq> owned_sigs h ls" using st by (auto simp: owned_sigs_def)
  have ids: "map cl_job_id ls1 = map cl_job_id rest" using same_leases_fields [OF r1(4)] by blast
  with ls(1,3) Cons.prems(3) have "map cl_job_id ls1 = map cl_job_id snap" "distinct (map cl_job_id ls1)" by simp_all
  from Cons.IH [OF r1(3) this r1(2), of "acc @ [cl_job_id s]"] obtain w2 rv2
    where w2: "recover_leases h snap (acc @ [cl_job_id s]) w1 = (w2, Inr (acc @ cl_job_id s # map cl_job_id snap))"
      "read_leases h w2 = Inr []" "lw_revoked w2 = lw_revoked w1 @ rv2" "signature h ` set rv2 = owned_sigs h ls1" by auto
  show ?case
  proof (intro exI conjI)
    show "recover_leases h (s # snap) acc w = (w2, Inr (acc @ map cl_job_id (s # snap)))"
      using w1(1) w2(1) ls(2) by (simp add: bind_action_ok)
    show "lw_revoked w2 = lw_revoked w @ (rv1 @ rv2)" using w2(3) r1(1) by simp
    show "signature h ` set (rv1 @ rv2) = owned_sigs h ls" using r1(5) sub w2(4) by (auto simp: image_Un)
  qed (rule w2(2))
qed

text \<open>Recovery after a crash gives back exactly what the jobs added: when the host lets every step
  succeed, it reports every leased job, leaves an empty manifest, and the entries revoked are exactly the
  owned ones. Entries that were there before any job are never touched.\<close>

theorem recovery_revokes_exactly_owned:
  assumes "\<forall>e. lh_revoke h e" "\<forall>p. lh_remove_temp h p"
    and "read_leases h w = Inr ls" "distinct (map cl_job_id ls)" "lw_writable w"
  shows "\<exists>w' rv. recover h w = (w', Inr (map cl_job_id ls)) \<and> read_leases h w' = Inr []
    \<and> lw_revoked w' = lw_revoked w @ rv \<and> signature h ` set rv = owned_sigs h ls"
  using recover_leases_complete [OF assms(1-3) refl assms(4,5), of "[]"] assms(3) by (simp add: recover_def)

theorem recovery_revokes_exactly_owned_witness:
  "\<exists>w' rv. recover sample_lease_host sample_world = (w', Inr [''j1'', ''j2'']) \<and> read_leases sample_lease_host w' = Inr []
    \<and> lw_revoked w' = rv \<and> signature sample_lease_host ` set rv = {signature sample_lease_host sample_entry}"
proof -
  have h: "\<forall>e. lh_revoke sample_lease_host e" "\<forall>p. lh_remove_temp sample_lease_host p"
    and w: "distinct (map cl_job_id sample_leases)" "lw_writable sample_world" "lw_revoked sample_world = []"
    and ids: "map cl_job_id sample_leases = [''j1'', ''j2'']"
    and o: "owned_sigs sample_lease_host sample_leases = {signature sample_lease_host sample_entry}"
    by (auto simp: sample_lease_host_def sample_leases_def sample_lease_def sample_world_def sample_entry_def)
  from recovery_revokes_exactly_owned [OF h sample_world_reads w(1,2)] show ?thesis by (simp add: w(3) ids o)
qed

section \<open>Adding and removing\<close>

text \<open>Adding a complete lease appends it to the manifest and is refused for a job that has one; removing
  a job takes its lease out; adding and then removing restores the list of leases.\<close>

theorem add_remove_roundtrip:
  assumes "read_leases h w = Inr ls" "lw_writable w" "lease_ok lease"
  shows "(if cl_job_id lease \<in> cl_job_id ` set ls
      then add_lease h lease w = (w, Inl (InitFailed ''sandbox lease already exists''))
      else \<exists>w1 w2. add_lease h lease w = (w1, Inr ()) \<and> read_leases h w1 = Inr (ls @ [lease])
        \<and> remove_lease h (cl_job_id lease) w1 = (w2, Inr ()) \<and> read_leases h w2 = Inr ls)"
proof (cases "cl_job_id lease \<in> cl_job_id ` set ls")
  case True
  then show ?thesis using assms(1) by (auto simp: add_lease_def)
next
  case False
  let ?w1 = "w\<lparr>lw_file := Holds (manifest_json (ls @ [lease]))\<rparr>" and ?w2 = "w\<lparr>lw_file := Holds (manifest_json ls)\<rparr>"
  note ok = read_leases_ok [OF assms(1)]
  have r: "read_leases h ?w1 = Inr (ls @ [lease])" "read_leases h ?w2 = Inr ls"
    using ok assms(3) by (auto intro!: manifest_roundtrip)
  have fl: "filter (\<lambda>l. cl_job_id l \<noteq> cl_job_id lease) (ls @ [lease]) = ls"
    using False by (auto simp: filter_id_conv image_iff)
  have fresh: "\<not> (\<exists>l \<in> set ls. cl_job_id l = cl_job_id lease)" by (metis False imageI)
  have "add_lease h lease w = (?w1, Inr ())" using assms fresh by (simp add: add_lease_def write_leases_def)
  moreover have "remove_lease h (cl_job_id lease) ?w1 = (?w2, Inr ())"
    using r(1) assms(2) fl by (simp add: remove_lease_def write_leases_def)
  ultimately show ?thesis using r False by auto
qed

theorem add_remove_roundtrip_witness:
  "\<exists>w1. add_lease sample_lease_host (sample_lease ''j3'' []) sample_world = (w1, Inr ())"
proof -
  have "lw_writable sample_world" "lease_ok (sample_lease ''j3'' [])" "cl_job_id (sample_lease ''j3'' []) \<notin> cl_job_id ` set sample_leases"
    by (simp_all add: sample_world_def sample_lease_def lease_ok_def lease_complete_def file_mode_ok_def enum_of_def sample_leases_def)
  with add_remove_roundtrip [OF sample_world_reads] show ?thesis by metis
qed

end
