(* ===== verification/SandboxManifest.thy ===== *)
theory SandboxManifest
  imports SandboxPolicy
begin

text \<open>
  \<open>sandbox/runtime/manifest.py\<close>: the broker's record of the resources it owns, one JSON file that is
  replaced atomically. Writing either replaces the file or raises and leaves it as it was.
\<close>

section \<open>Records\<close>

record ResourceRecord =
  rr_installation_id :: string
  rr_backend_instance_id :: string
  rr_user_id :: string
  rr_job_id :: string
  rr_resources :: pydict

definition record_to_dict :: "ResourceRecord \<Rightarrow> pydict" where
  "record_to_dict r = [(''installation_id'', PStr (rr_installation_id r)), (''backend_instance_id'', PStr (rr_backend_instance_id r)),
     (''user_id'', PStr (rr_user_id r)), (''job_id'', PStr (rr_job_id r)), (''resources'', PDict (rr_resources r))]"

definition parse_record :: "pyval \<Rightarrow> ResourceRecord option" where
  "parse_record v = (case v of
      PDict d \<Rightarrow>
        if \<not> truthy (py_get d ''installation_id'') \<or> \<not> truthy (py_get d ''job_id'') then None
        else Some \<lparr>rr_installation_id = py_str (py_get d ''installation_id''),
              rr_backend_instance_id = get_str d ''backend_instance_id'',
              rr_user_id = get_str d ''user_id'', rr_job_id = py_str (py_get d ''job_id''),
              rr_resources = (case py_get d ''resources'' of PDict r \<Rightarrow> r | _ \<Rightarrow> [])\<rparr>
    | _ \<Rightarrow> None)"

section \<open>The manifest\<close>

record manifest =
  mf_file :: json_file
  mf_writable :: bool
  mf_installation_id :: string
  mf_backend_instance_id :: string

definition records :: "manifest \<Rightarrow> ResourceRecord list" where
  "records m = (case mf_file m of
      Holds (PDict d) \<Rightarrow> (case map_of d ''records'' of Some (PList items) \<Rightarrow> List.map_filter parse_record items | _ \<Rightarrow> [])
    | _ \<Rightarrow> [])"

definition write_records :: "ResourceRecord list \<Rightarrow> (manifest, sandbox_error, unit) raising" where
  "write_records rs m =
     (if mf_writable m then (m\<lparr>mf_file := Holds (PDict [(''records'', PList (map (PDict \<circ> record_to_dict) rs))])\<rparr>, Inr ())
      else (m, Inl SbOSError))"

definition backend_of :: "manifest \<Rightarrow> string option \<Rightarrow> string" where
  "backend_of m b = (case b of Some x \<Rightarrow> if x = [] then mf_backend_instance_id m else x | None \<Rightarrow> mf_backend_instance_id m)"

type_synonym owner_key = "string \<times> string \<times> string \<times> string"

definition record_key :: "ResourceRecord \<Rightarrow> owner_key" where
  "record_key r = (rr_installation_id r, rr_backend_instance_id r, rr_user_id r, rr_job_id r)"

definition register_resources :: "string \<Rightarrow> string \<Rightarrow> pydict \<Rightarrow> string option \<Rightarrow> (manifest, sandbox_error, ResourceRecord) raising" where
  "register_resources user job resources backend m =
     (let b = backend_of m backend;
          r = \<lparr>rr_installation_id = mf_installation_id m, rr_backend_instance_id = b, rr_user_id = user, rr_job_id = job, rr_resources = resources\<rparr> in
      bind_action (write_records (filter (\<lambda>x. record_key x \<noteq> (mf_installation_id m, b, user, job)) (records m) @ [r])) (\<lambda>_.
        lift_action (Inr r)) m)"

definition remove_resources :: "string \<Rightarrow> string \<Rightarrow> string option \<Rightarrow> (manifest, sandbox_error, unit) raising" where
  "remove_resources user job backend m =
     write_records (filter (\<lambda>x. record_key x \<noteq> (mf_installation_id m, backend_of m backend, user, job)) (records m)) m"

definition owned_orphans :: "string set \<Rightarrow> string option \<Rightarrow> string option \<Rightarrow> manifest \<Rightarrow> ResourceRecord list" where
  "owned_orphans live backend user m =
     filter (\<lambda>r. rr_installation_id r = mf_installation_id m \<and> rr_backend_instance_id r = backend_of m backend
       \<and> (case user of None \<Rightarrow> True | Some u \<Rightarrow> rr_user_id r = u) \<and> rr_job_id r \<notin> live) (records m)"

section \<open>The manifest is a map from owners to resources\<close>

lemma parse_record_to_dict:
  "rr_installation_id r \<noteq> [] \<Longrightarrow> rr_job_id r \<noteq> [] \<Longrightarrow> parse_record (PDict (record_to_dict r)) = Some r"
  by (simp add: parse_record_def record_to_dict_def py_get_def get_str_def)

definition resource_record_ok :: "ResourceRecord \<Rightarrow> bool" where
  "resource_record_ok r \<longleftrightarrow> rr_installation_id r \<noteq> [] \<and> rr_job_id r \<noteq> []"

lemma records_written:
  assumes "\<forall>r \<in> set rs. resource_record_ok r"
  shows "records (m\<lparr>mf_file := Holds (PDict [(''records'', PList (map (PDict \<circ> record_to_dict) rs))])\<rparr>) = rs"
proof -
  have "List.map_filter parse_record (map (PDict \<circ> record_to_dict) rs) = rs"
    using assms by (induction rs) (auto simp: map_filter_simps parse_record_to_dict resource_record_ok_def)
  then show ?thesis by (simp add: records_def)
qed

text \<open>What a record stands for: the resources of an owner.\<close>

definition resource_map :: "manifest \<Rightarrow> owner_key \<rightharpoonup> pydict" where
  "resource_map m = map_of (map (\<lambda>r. (record_key r, rr_resources r)) (records m))"

definition manifest_wf :: "manifest \<Rightarrow> bool" where
  "manifest_wf m \<longleftrightarrow> (\<forall>r \<in> set (records m). resource_record_ok r) \<and> distinct (map record_key (records m))"

definition empty_manifest :: "string \<Rightarrow> string \<Rightarrow> manifest" where
  "empty_manifest installation backend = \<lparr>mf_file = NoFile, mf_writable = True, mf_installation_id = installation, mf_backend_instance_id = backend\<rparr>"

lemma empty_manifest_wf: "manifest_wf (empty_manifest i b)" "resource_map (empty_manifest i b) = Map.empty"
  by (simp_all add: manifest_wf_def resource_map_def records_def empty_manifest_def)

lemma map_of_drop_key:
  "map_of (map (\<lambda>r. (record_key r, rr_resources r)) (filter (\<lambda>x. record_key x \<noteq> k) rs)) =
     (map_of (map (\<lambda>r. (record_key r, rr_resources r)) rs))(k := None)"
  by (induction rs) auto

lemma write_records_map:
  assumes "mf_writable m" "\<forall>r \<in> set rs. resource_record_ok r" "distinct (map record_key rs)"
  shows "\<exists>m'. write_records rs m = (m', Inr ()) \<and> records m' = rs \<and> manifest_wf m' \<and> mf_writable m'
    \<and> mf_installation_id m' = mf_installation_id m \<and> mf_backend_instance_id m' = mf_backend_instance_id m"
  using assms records_written [OF assms(2), of m] by (simp add: write_records_def manifest_wf_def)

lemma register_records:
  fixes backend :: "string option" and user :: string
  assumes "manifest_wf m" "mf_writable m" "mf_installation_id m \<noteq> []" "job \<noteq> []"
  defines "k \<equiv> (mf_installation_id m, backend_of m backend, user, job)"
  shows "\<exists>m' r. register_resources user job resources backend m = (m', Inr r) \<and> manifest_wf m' \<and> mf_writable m'
    \<and> record_key r = k \<and> rr_resources r = resources \<and> records m' = filter (\<lambda>x. record_key x \<noteq> k) (records m) @ [r]
    \<and> mf_installation_id m' = mf_installation_id m \<and> mf_backend_instance_id m' = mf_backend_instance_id m"
proof -
  let ?r = "\<lparr>rr_installation_id = mf_installation_id m, rr_backend_instance_id = backend_of m backend, rr_user_id = user, rr_job_id = job, rr_resources = resources\<rparr>"
  let ?rs = "filter (\<lambda>x. record_key x \<noteq> k) (records m) @ [?r]"
  have "\<forall>r \<in> set ?rs. resource_record_ok r" "distinct (map record_key ?rs)"
    using assms by (auto simp: manifest_wf_def resource_record_ok_def record_key_def distinct_map_filter)
  from write_records_map [OF assms(2) this] obtain m' where m': "write_records ?rs m = (m', Inr ())" "records m' = ?rs" "manifest_wf m'"
      "mf_writable m'" "mf_installation_id m' = mf_installation_id m" "mf_backend_instance_id m' = mf_backend_instance_id m" by blast
  then have "register_resources user job resources backend m = (m', Inr ?r)"
    by (simp add: register_resources_def Let_def bind_action_ok k_def)
  moreover have "record_key ?r = k" by (simp add: record_key_def k_def)
  ultimately show ?thesis using m' by auto
qed

lemma remove_records:
  assumes "manifest_wf m" "mf_writable m"
  shows "\<exists>m'. remove_resources user job backend m = (m', Inr ()) \<and> manifest_wf m' \<and> mf_writable m'
    \<and> records m' = filter (\<lambda>x. record_key x \<noteq> (mf_installation_id m, backend_of m backend, user, job)) (records m)
    \<and> mf_installation_id m' = mf_installation_id m \<and> mf_backend_instance_id m' = mf_backend_instance_id m"
  using assms write_records_map [of m "filter (\<lambda>x. record_key x \<noteq> (mf_installation_id m, backend_of m backend, user, job)) (records m)"]
  by (auto simp: remove_resources_def manifest_wf_def distinct_map_filter)

text \<open>C29. The manifest implements a finite map from the owner of a job (installation, backend, user, job) to its
  resources: registering overwrites exactly one entry, removing deletes exactly one, both keep the manifest
  well formed, and what is registered is what is read back. When the file cannot be written nothing changes.\<close>

theorem manifest_refines_map:
  fixes backend :: "string option" and user :: string
  assumes "manifest_wf m" "mf_installation_id m \<noteq> []" "job \<noteq> []"
  defines "k \<equiv> (mf_installation_id m, backend_of m backend, user, job)"
  shows "if mf_writable m
    then (\<exists>m' r. register_resources user job resources backend m = (m', Inr r) \<and> manifest_wf m'
            \<and> resource_map m' = (resource_map m)(k \<mapsto> resources))
       \<and> (\<exists>m'. remove_resources user job backend m = (m', Inr ()) \<and> manifest_wf m' \<and> resource_map m' = (resource_map m)(k := None))
    else register_resources user job resources backend m = (m, Inl SbOSError) \<and> remove_resources user job backend m = (m, Inl SbOSError)"
proof (cases "mf_writable m")
  case True
  obtain m1 r where m1: "register_resources user job resources backend m = (m1, Inr r)" "manifest_wf m1" "record_key r = k"
      "rr_resources r = resources" "records m1 = filter (\<lambda>x. record_key x \<noteq> k) (records m) @ [r]"
    using register_records [OF assms(1) True assms(2,3)] unfolding k_def by blast
  obtain m2 where m2: "remove_resources user job backend m = (m2, Inr ())" "manifest_wf m2" "records m2 = filter (\<lambda>x. record_key x \<noteq> k) (records m)"
    using remove_records [OF assms(1) True] unfolding k_def by blast
  have "resource_map m1 = (resource_map m)(k \<mapsto> resources)"
    using m1(3-5) by (auto simp: resource_map_def map_of_append map_of_drop_key map_add_def fun_eq_iff split: option.splits)
  moreover have "resource_map m2 = (resource_map m)(k := None)" by (simp add: resource_map_def m2(3) map_of_drop_key)
  ultimately show ?thesis using True m1 m2 by auto
next
  case False
  then show ?thesis by (simp add: register_resources_def remove_resources_def write_records_def Let_def bind_action_def)
qed

theorem manifest_refines_map_witness:
  "\<exists>m' r. register_resources ''u'' ''j'' [(''pid'', PInt 4)] None (empty_manifest ''i'' ''b'') = (m', Inr r)
    \<and> resource_map m' = [(''i'', ''b'', ''u'', ''j'') \<mapsto> [(''pid'', PInt 4)]]"
proof -
  have "mf_installation_id (empty_manifest ''i'' ''b'') \<noteq> []" "''j'' \<noteq> []" "mf_writable (empty_manifest ''i'' ''b'')"
    "backend_of (empty_manifest ''i'' ''b'') None = ''b''" "mf_installation_id (empty_manifest ''i'' ''b'') = ''i''"
    by (simp_all add: empty_manifest_def backend_of_def)
  with manifest_refines_map [OF empty_manifest_wf(1) [of "''i''" "''b''"], where job = "''j''" and backend = None and user = "''u''" and resources = "[(''pid'', PInt 4)]"]
  show ?thesis by (auto simp: empty_manifest_wf(2))
qed

text \<open>A manifest that cannot be read is taken for an empty one: registering one job replaces the file, and
  the records of all other jobs are gone.\<close>

theorem unreadable_manifest_is_overwritten:
  assumes "mf_writable m" "mf_installation_id m \<noteq> []" "job \<noteq> []"
  shows "\<exists>m' r. register_resources user job resources backend (m\<lparr>mf_file := Unreadable\<rparr>) = (m', Inr r) \<and> records m' = [r]"
proof -
  let ?m = "m\<lparr>mf_file := Unreadable\<rparr>"
  have "records ?m = []" "manifest_wf ?m" by (simp_all add: records_def manifest_wf_def)
  with register_records [of ?m job] assms show ?thesis by fastforce
qed

theorem unreadable_manifest_is_overwritten_witness:
  "\<exists>m' r. register_resources ''u'' ''j'' [] None ((empty_manifest ''i'' ''b'')\<lparr>mf_file := Unreadable\<rparr>) = (m', Inr r) \<and> records m' = [r]"
  using unreadable_manifest_is_overwritten [of "empty_manifest ''i'' ''b''" "''j''"] by (simp add: empty_manifest_def)

end
