(* ===== verification/BrokerService.thy ===== *)
theory BrokerService
  imports SandboxManifest
begin

text \<open>
  \<open>sandbox/broker_service/service.py\<close>: the dispatcher of authenticated broker requests, with the
  resource manifest it keeps, the nonces it has seen and the releases that wait for a retry.

  A request arrives as the JSON value it decodes to (\<open>None\<close> when it does not decode); the clock reading
  \<open>int(self._clock())\<close> is an argument. Parameters stand for the keyed hash, the key store, the process
  adapter (an injected protocol, with a state of its own) and the texts of error messages after redaction.
  Audit records carry the fields of the code except the timestamp and the exception's class.
\<close>

section \<open>Parameters and state\<close>

datatype broker_error = BrokerError (be_code: string) (be_message: string)

abbreviation init_error :: "string \<Rightarrow> broker_error" where
  "init_error m \<equiv> BrokerError ''init_failed'' m"

type_synonym ('a, 'r) adapter_call = "'a \<Rightarrow> 'a \<times> (broker_error + 'r)"

record 'a adapter_ops =
  op_reserve :: "pydict \<Rightarrow> ('a, pydict) adapter_call"
  op_launch :: "pydict \<Rightarrow> ('a, pydict) adapter_call"
  op_reclaim :: "pydict \<Rightarrow> ('a, string list) adapter_call"
  op_release :: "pydict \<Rightarrow> ('a, bool) adapter_call"
  op_control :: "string \<Rightarrow> pydict \<Rightarrow> ('a, pydict) adapter_call"
  op_recover :: "ResourceRecord \<Rightarrow> ('a, bool) adapter_call"

record 'a broker_host =
  bh_mac :: "string \<Rightarrow> string \<Rightarrow> string"
  bh_load_key :: "broker_error + string"
  bh_redact :: "string \<Rightarrow> string"
  bh_os_message :: string
  bh_adapter :: "'a adapter_ops"

record audit_record =
  au_operation :: string
  au_status :: string
  au_installation_id :: string
  au_backend_instance_id :: string
  au_user_id :: string
  au_job_id :: string
  au_failure :: "string option"

type_synonym job_identity = "string \<times> string \<times> string"

record 'a broker =
  br_installed :: bool
  br_key :: "string option"
  br_ready :: "pydict option"
  br_adapter :: "'a option"
  br_manifest :: manifest
  br_nonces :: "(string, int) dict"
  br_pending :: "(job_identity, pydict) dict"
  br_wake :: bool
  br_audit :: "audit_record list"

definition MAX_REQUEST_TTL_SECONDS :: int where
  "MAX_REQUEST_TTL_SECONDS = 60"

definition MAX_CLOCK_SKEW_SECONDS :: int where
  "MAX_CLOCK_SKEW_SECONDS = 5"

definition BROKER_VERSION :: string where
  "BROKER_VERSION = ''3''"

definition canonical :: "pydict \<Rightarrow> string" where
  "canonical d = ascii_text (PDict d)"

text \<open>\<open>hmac.compare_digest\<close> of two strings raises for text that is not ASCII.\<close>

definition compare_digest :: "string \<Rightarrow> string \<Rightarrow> broker_error + bool" where
  "compare_digest a b =
     (if \<forall>c \<in> set a \<union> set b. (of_char c :: nat) < 128 then Inr (a = b)
      else Inl (init_error ''comparing strings with non-ASCII characters is not supported''))"

definition broker_key :: "'a broker_host \<Rightarrow> 'a broker \<Rightarrow> broker_error + string" where
  "broker_key h s = (case br_key s of Some k \<Rightarrow> Inr k | None \<Rightarrow> bh_load_key h)"

definition resource_signature :: "'a broker_host \<Rightarrow> 'a broker \<Rightarrow> string \<Rightarrow> string \<Rightarrow> string \<Rightarrow> pydict \<Rightarrow> broker_error + string" where
  "resource_signature h s backend user job resources =
     bind_result (broker_key h s) (\<lambda>key. Inr (bh_mac h key (canonical
       [(''installation_id'', PStr (mf_installation_id (br_manifest s))), (''backend_instance_id'', PStr backend),
        (''user_id'', PStr user), (''job_id'', PStr job),
        (''resources'', PDict (filter (\<lambda>(k, v). k \<noteq> ''owner_signature'') resources))])))"

section \<open>Calls to the adapter and the manifest\<close>

definition call_adapter :: "('a, 'r) adapter_call \<Rightarrow> ('a broker, broker_error, 'r) raising" where
  "call_adapter f s = (case br_adapter s of
      None \<Rightarrow> (s, Inl (init_error ''Broker process adapter is unavailable''))
    | Some a \<Rightarrow> (case f a of (a', r) \<Rightarrow> (s\<lparr>br_adapter := Some a'\<rparr>, r)))"

text \<open>\<open>bool(call())\<close> with every exception read as failure; without an adapter nothing is called.\<close>

definition try_adapter :: "('a, bool) adapter_call \<Rightarrow> 'a broker \<Rightarrow> 'a broker \<times> bool" where
  "try_adapter f s = (case br_adapter s of
      None \<Rightarrow> (s, False)
    | Some a \<Rightarrow> (case f a of (a', r) \<Rightarrow> (s\<lparr>br_adapter := Some a'\<rparr>, case r of Inr b \<Rightarrow> b | Inl _ \<Rightarrow> False)))"

definition on_manifest :: "'a broker_host \<Rightarrow> (manifest, sandbox_error, 'r) raising \<Rightarrow> ('a broker, broker_error, 'r) raising" where
  "on_manifest h f s = (case f (br_manifest s) of (m, r) \<Rightarrow>
     (s\<lparr>br_manifest := m\<rparr>, case r of Inl _ \<Rightarrow> Inl (init_error (bh_os_message h)) | Inr x \<Rightarrow> Inr x))"

definition text_field :: "pydict \<Rightarrow> string \<Rightarrow> string option" where
  "text_field d k = (case map_of d k of Some (PStr s) \<Rightarrow> if s = [] then None else Some s | _ \<Rightarrow> None)"

section \<open>Dispatch\<close>

definition dispatch_status :: "'a broker \<Rightarrow> pydict" where
  "dispatch_status s = (let ready = (case br_ready s of None \<Rightarrow> [] | Some d \<Rightarrow> d) in
     [(''installed'', PBool (br_installed s)), (''healthy'', PBool (br_installed s \<and> br_key s \<noteq> None \<and> br_ready s \<noteq> None)),
      (''version'', PStr BROKER_VERSION), (''installation_id'', PStr (mf_installation_id (br_manifest s))),
      (''generation'', py_get ready ''generation''), (''proxy_port'', py_get ready ''proxy_port''), (''token_model'', py_get ready ''token_model'')])"

definition dispatch_reserve :: "'a broker_host \<Rightarrow> pydict \<Rightarrow> ('a broker, broker_error, pydict) raising" where
  "dispatch_reserve h body s =
     (if \<not> br_installed s \<or> br_adapter s = None then (s, Inl (init_error ''Broker is not ready to reserve jobs''))
      else call_adapter (op_reserve (bh_adapter h) body) s)"

definition register_launch :: "'a broker_host \<Rightarrow> pydict \<Rightarrow> ('a broker, broker_error, unit) raising" where
  "register_launch h result s =
     (case (text_field result ''job_id'', text_field result ''backend_instance_id'', text_field result ''user_id'') of
        (Some job, Some backend, Some user) \<Rightarrow>
          (let resources = (case map_of result ''resources'' of Some (PDict r) \<Rightarrow> r | _ \<Rightarrow> []) in
           case resource_signature h s backend user job resources of
             Inl e \<Rightarrow> (s, Inl e)
           | Inr sig \<Rightarrow> bind_action (on_manifest h (register_resources user job (AList.update ''owner_signature'' (PStr sig) resources) (Some backend)))
               (\<lambda>_. lift_action (Inr ())) s)
      | _ \<Rightarrow> (s, Inl (init_error ''Broker launch resource identity is invalid'')))"

definition dispatch_launch :: "'a broker_host \<Rightarrow> pydict \<Rightarrow> ('a broker, broker_error, pydict) raising" where
  "dispatch_launch h body s =
     (if \<not> br_installed s \<or> br_adapter s = None then (s, Inl (init_error ''Broker is not ready to launch jobs''))
      else bind_action (call_adapter (op_launch (bh_adapter h) body)) (\<lambda>result.
        if truthy (case map_of result ''accepted'' of Some v \<Rightarrow> v | None \<Rightarrow> PBool False)
        then bind_action (register_launch h result) (\<lambda>_. lift_action (Inr result))
        else lift_action (Inr result)) s)"

fun remove_each :: "'a broker_host \<Rightarrow> ResourceRecord list \<Rightarrow> ('a broker, broker_error, unit) raising" where
  "remove_each h [] = lift_action (Inr ())"
| "remove_each h (r # rs) = bind_action (on_manifest h (remove_resources (rr_user_id r) (rr_job_id r) (Some (rr_backend_instance_id r))))
     (\<lambda>_. remove_each h rs)"

definition dispatch_reclaim :: "'a broker_host \<Rightarrow> pydict \<Rightarrow> ('a broker, broker_error, pydict) raising" where
  "dispatch_reclaim h body s =
     (if br_adapter s = None then (s, Inl (init_error ''Broker process adapter is unavailable''))
      else case text_field body ''backend_instance_id'' of
          None \<Rightarrow> (s, Inl (init_error ''Broker reclaim owner is invalid''))
        | Some current_backend \<Rightarrow>
            bind_action (call_adapter (op_reclaim (bh_adapter h) body)) (\<lambda>reclaimed t.
              bind_action (remove_each h (filter (\<lambda>r. rr_backend_instance_id r \<noteq> current_backend) (records (br_manifest t))))
                (\<lambda>_. lift_action (Inr [(''reclaimed'', PList (map PStr reclaimed))])) t) s)"

definition dispatch_release :: "'a broker_host \<Rightarrow> pydict \<Rightarrow> ('a broker, broker_error, pydict) raising" where
  "dispatch_release h body s =
     (case (text_field body ''backend_instance_id'', text_field body ''user_id'', text_field body ''job_id'') of
        (Some backend, Some user, Some job) \<Rightarrow>
          (case try_adapter (op_release (bh_adapter h) body) s of (t, ok) \<Rightarrow>
             if \<not> ok then (t\<lparr>br_pending := AList.update (backend, user, job) body (br_pending t), br_wake := True\<rparr>,
                Inl (BrokerError ''cleanup_pending'' ''Broker Job resource cleanup is pending''))
             else bind_action (on_manifest h (remove_resources user job (Some backend))) (\<lambda>_. lift_action (Inr [(''released'', PBool True)]))
                (t\<lparr>br_pending := AList.delete (backend, user, job) (br_pending t)\<rparr>))
      | _ \<Rightarrow> (s, Inl (init_error ''Broker release job id is invalid'')))"

definition broker_dispatch :: "'a broker_host \<Rightarrow> string \<Rightarrow> pydict \<Rightarrow> ('a broker, broker_error, pydict) raising" where
  "broker_dispatch h operation body s =
     (if operation = ''status'' then (s, Inr (dispatch_status s))
      else if operation = ''reserve'' then dispatch_reserve h body s
      else if operation = ''launch'' then dispatch_launch h body s
      else if operation = ''reclaim'' then dispatch_reclaim h body s
      else if operation = ''release'' then dispatch_release h body s
      else if prefix ''process_'' operation then call_adapter (op_control (bh_adapter h) operation body) s
      else (s, Inl (init_error ''Broker operation is unsupported'')))"

section \<open>Requests\<close>

definition audit :: "'a broker_host \<Rightarrow> string \<Rightarrow> string \<Rightarrow> pydict \<Rightarrow> broker_error option \<Rightarrow> 'a broker \<Rightarrow> 'a broker" where
  "audit h operation status body error s =
     (let job = (case map_of body ''policy'' of Some (PDict p) \<Rightarrow> get_str p ''job_id'' | _ \<Rightarrow> get_str body ''job_id'') in
      s\<lparr>br_audit := br_audit s @ [\<lparr>au_operation = operation, au_status = status,
          au_installation_id = mf_installation_id (br_manifest s), au_backend_instance_id = get_str body ''backend_instance_id'',
          au_user_id = get_str body ''user_id'', au_job_id = job,
          au_failure = map_option (\<lambda>e. bh_redact h (be_message e)) error\<rparr>]\<rparr>)"

record broker_request =
  rq_operation :: string
  rq_nonce :: string
  rq_issued_at :: int
  rq_expires_at :: int
  rq_signature :: string
  rq_body :: pydict

text \<open>The envelope checks of \<open>handle\<close>, in its order.\<close>

definition parse_request :: "pyval option \<Rightarrow> broker_error + broker_request" where
  "parse_request payload = (case payload of
      Some (PDict d) \<Rightarrow>
        (case (text_field d ''operation'', text_field d ''nonce'') of
           (Some operation, Some nonce) \<Rightarrow>
             (case (map_of d ''hmac'', case map_of d ''body'' of None \<Rightarrow> PDict [] | Some b \<Rightarrow> b, map_of d ''issued_at'', map_of d ''expires_at'') of
                (Some (PStr sig), PDict body, Some (PInt issued), Some (PInt expires)) \<Rightarrow>
                  Inr \<lparr>rq_operation = operation, rq_nonce = nonce, rq_issued_at = issued, rq_expires_at = expires, rq_signature = sig, rq_body = body\<rparr>
              | _ \<Rightarrow> Inl (init_error ''Broker request authentication is invalid''))
         | _ \<Rightarrow> Inl (init_error ''Broker request envelope is invalid''))
    | _ \<Rightarrow> Inl (init_error ''Broker request is invalid''))"

definition check_times :: "int \<Rightarrow> broker_request \<Rightarrow> broker_error + unit" where
  "check_times now q =
     bind_result (ensure (\<not> rq_issued_at q > now + MAX_CLOCK_SKEW_SECONDS) (init_error ''Broker request timestamp is invalid'')) (\<lambda>_.
     bind_result (ensure (\<not> (rq_expires_at q < now \<or> rq_expires_at q \<le> rq_issued_at q)) (init_error ''Broker request has expired'')) (\<lambda>_.
       ensure (\<not> rq_expires_at q - rq_issued_at q > MAX_REQUEST_TTL_SECONDS) (init_error ''Broker request lifetime is invalid'')))"

definition unsigned_request :: "broker_request \<Rightarrow> pydict" where
  "unsigned_request q = [(''operation'', PStr (rq_operation q)), (''nonce'', PStr (rq_nonce q)), (''issued_at'', PInt (rq_issued_at q)),
     (''expires_at'', PInt (rq_expires_at q)), (''body'', PDict (rq_body q))]"

definition authenticate :: "'a broker_host \<Rightarrow> string \<Rightarrow> broker_request \<Rightarrow> broker_error + unit" where
  "authenticate h key q =
     bind_result (compare_digest (rq_signature q) (bh_mac h key (canonical (unsigned_request q)))) (\<lambda>ok.
       ensure ok (init_error ''Broker request authentication failed''))"

definition claim_nonce :: "int \<Rightarrow> broker_request \<Rightarrow> ('a broker, broker_error, unit) raising" where
  "claim_nonce now q s =
     (let live = filter (\<lambda>(n, expiry). expiry \<ge> now) (br_nonces s) in
      if rq_nonce q \<in> keys live then (s\<lparr>br_nonces := live\<rparr>, Inl (init_error ''Broker request replay detected''))
      else (s\<lparr>br_nonces := AList.update (rq_nonce q) (rq_expires_at q) live\<rparr>, Inr ()))"

definition sign_response :: "'a broker_host \<Rightarrow> string \<Rightarrow> string \<Rightarrow> pydict \<Rightarrow> pydict" where
  "sign_response h key nonce result =
     (let response = foldl (\<lambda>d (k, v). AList.update k v d) [(''nonce'', PStr nonce)] result in
      AList.update ''hmac'' (PStr (bh_mac h key (canonical (filter (\<lambda>(k, v). k \<noteq> ''hmac'') response)))) response)"

text \<open>The work of an accepted request: dispatch, audit, and the result or the error in the response.\<close>

definition perform :: "'a broker_host \<Rightarrow> broker_request \<Rightarrow> 'a broker \<Rightarrow> 'a broker \<times> pydict" where
  "perform h q s = (case broker_dispatch h (rq_operation q) (rq_body q) s of
      (t, Inr result) \<Rightarrow> (audit h (rq_operation q) ''succeeded'' (rq_body q) None t, result)
    | (t, Inl e) \<Rightarrow> (audit h (rq_operation q) ''failed'' (rq_body q) (Some e) t,
        [(''error'', PDict [(''code'', PStr (be_code e)), (''message'', PStr (bh_redact h (be_message e)))])]))"

definition admit_request :: "'a broker_host \<Rightarrow> int \<Rightarrow> pyval option \<Rightarrow> ('a broker, broker_error, string \<times> broker_request) raising" where
  "admit_request h now payload s =
     bind_action (lift_action (bind_result (parse_request payload) (\<lambda>q.
         bind_result (check_times now q) (\<lambda>_. bind_result (broker_key h s) (\<lambda>key.
         bind_result (authenticate h key q) (\<lambda>_. Inr (key, q))))))) (\<lambda>(key, q).
     bind_action (claim_nonce now q) (\<lambda>_. lift_action (Inr (key, q)))) s"

definition handle :: "'a broker_host \<Rightarrow> int \<Rightarrow> pyval option \<Rightarrow> ('a broker, broker_error, pydict) raising" where
  "handle h now payload =
     bind_action (admit_request h now payload) (\<lambda>(key, q) s.
       case perform h q s of (t, result) \<Rightarrow> (t, Inr (sign_response h key (rq_nonce q) result)))"

section \<open>Recovery\<close>

definition verified :: "'a broker_host \<Rightarrow> 'a broker \<Rightarrow> ResourceRecord \<Rightarrow> broker_error + bool" where
  "verified h s r = (case map_of (rr_resources r) ''owner_signature'' of
      Some (PStr sig) \<Rightarrow>
        bind_result (resource_signature h s (rr_backend_instance_id r) (rr_user_id r) (rr_job_id r) (rr_resources r)) (compare_digest sig)
    | _ \<Rightarrow> Inr False)"

fun recover_records :: "'a broker_host \<Rightarrow> string set \<Rightarrow> (ResourceRecord \<Rightarrow> ('a, bool) adapter_call) \<Rightarrow> ResourceRecord list
    \<Rightarrow> string list \<Rightarrow> ('a broker, broker_error, string list) raising" where
  "recover_records h live clean [] removed s = (s, Inr removed)"
| "recover_records h live clean (r # rs) removed s =
     (if rr_installation_id r \<noteq> mf_installation_id (br_manifest s) \<or> rr_job_id r \<in> live then recover_records h live clean rs removed s
      else case verified h s r of
          Inl e \<Rightarrow> (s, Inl e)
        | Inr False \<Rightarrow> recover_records h live clean rs removed s
        | Inr True \<Rightarrow> (case try_adapter (clean r) s of (t, cleaned) \<Rightarrow>
            if cleaned then bind_action (on_manifest h (remove_resources (rr_user_id r) (rr_job_id r) (Some (rr_backend_instance_id r))))
              (\<lambda>_ u. recover_records h live clean rs (removed @ [rr_job_id r]) u) t
            else recover_records h live clean rs removed t))"

definition recover_orphans :: "'a broker_host \<Rightarrow> string set \<Rightarrow> ('a broker, broker_error, string list) raising" where
  "recover_orphans h live s = (if br_adapter s = None then (s, Inr [])
     else recover_records h live (op_recover (bh_adapter h)) (records (br_manifest s)) [] s)"

fun retry_releases :: "'a broker_host \<Rightarrow> (job_identity \<times> pydict) list \<Rightarrow> string list \<Rightarrow> ('a broker, broker_error, string list) raising" where
  "retry_releases h [] removed s = (s, Inr removed)"
| "retry_releases h (((backend, user, job), body) # pending) removed s =
     (case try_adapter (op_release (bh_adapter h) body) s of (t, released) \<Rightarrow>
        if \<not> released then retry_releases h pending removed t
        else bind_action (on_manifest h (remove_resources user job (Some backend))) (\<lambda>_ u.
          retry_releases h pending (removed @ [job]) (u\<lparr>br_pending := AList.delete (backend, user, job) (br_pending u)\<rparr>)) t)"

definition recover_pending_releases :: "'a broker_host \<Rightarrow> ('a broker, broker_error, string list) raising" where
  "recover_pending_releases h s = (if br_adapter s = None then (s, Inr []) else retry_releases h (br_pending s) [] s)"

section \<open>What the dispatcher leaves alone\<close>

definition auth_state :: "(string, int) dict \<Rightarrow> string option \<Rightarrow> 'a broker \<Rightarrow> bool" where
  "auth_state nonces key s \<longleftrightarrow> br_nonces s = nonces \<and> br_key s = key"

lemma auth_state_updates [simp]:
  "auth_state n k (s\<lparr>br_adapter := a\<rparr>) = auth_state n k s" "auth_state n k (s\<lparr>br_manifest := m\<rparr>) = auth_state n k s"
  "auth_state n k (s\<lparr>br_pending := p\<rparr>) = auth_state n k s" "auth_state n k (s\<lparr>br_wake := w\<rparr>) = auth_state n k s"
  "auth_state n k (s\<lparr>br_audit := l\<rparr>) = auth_state n k s"
  by (simp_all add: auth_state_def)

lemma keeps_call_adapter [keeps_intros]: "keeps (auth_state n k) (call_adapter f)"
  by (rule keepsI) (simp add: call_adapter_def split: option.splits prod.splits)

lemma keeps_on_manifest [keeps_intros]: "keeps (auth_state n k) (on_manifest h f)"
  by (rule keepsI) (simp add: on_manifest_def split: prod.splits)

lemma auth_try_adapter: "auth_state n k s \<Longrightarrow> auth_state n k (fst (try_adapter f s))"
  by (simp add: try_adapter_def split: option.splits prod.splits)

lemma keeps_remove_each [keeps_intros]: "keeps (auth_state n k) (remove_each h rs)"
proof (induction rs)
  case Nil
  show ?case by (rule keepsI) simp
qed (auto intro: keeps_intros)

lemma keeps_register_launch [keeps_intros]:
  fixes h :: "'a broker_host"
  shows "keeps (auth_state n k) (register_launch h result)"
proof (rule keepsI)
  fix s :: "'a broker" assume "auth_state n k s"
  moreover have "keeps (auth_state n k) (bind_action (on_manifest h f) (\<lambda>_. lift_action (Inr ())))" for f :: "(manifest, sandbox_error, ResourceRecord) raising"
    by (intro keeps_intros)
  ultimately show "auth_state n k (fst (register_launch h result s))"
    by (auto simp: register_launch_def Let_def keeps_def split: option.splits sum.splits)
qed

lemma broker_dispatch_keeps_auth: "auth_state n k s \<Longrightarrow> auth_state n k (fst (broker_dispatch h operation body s))"
proof -
  assume a: "auth_state n k s"
  have launch: "keeps (auth_state n k) (bind_action (call_adapter (op_launch (bh_adapter h) body)) (\<lambda>result.
        if truthy (case map_of result ''accepted'' of Some v \<Rightarrow> v | None \<Rightarrow> PBool False)
        then bind_action (register_launch h result) (\<lambda>_. lift_action (Inr result)) else lift_action (Inr result)))"
    by (auto intro!: keeps_intros)
  have reclaim: "keeps (auth_state n k) (bind_action (call_adapter (op_reclaim (bh_adapter h) body)) (\<lambda>reclaimed t.
      bind_action (remove_each h (filter (\<lambda>r. rr_backend_instance_id r \<noteq> b) (records (br_manifest t))))
        (\<lambda>_. lift_action (Inr [(''reclaimed'', PList (map PStr reclaimed))])) t))" for b
    by (intro keeps_bind keeps_call_adapter keepsI) (blast intro: keepsD keeps_intros)
  have release: "keeps (auth_state n k) (bind_action (on_manifest h f) (\<lambda>_. lift_action (Inr [(''released'', PBool True)])))"
    for f :: "(manifest, sandbox_error, unit) raising" by (intro keeps_intros)
  have "auth_state n k (fst (dispatch_release h body s))"
    using a auth_try_adapter [OF a, of "op_release (bh_adapter h) body"] release
    by (auto simp: dispatch_release_def keeps_def split: option.splits prod.splits)
  moreover have "auth_state n k (fst (dispatch_launch h body s))" "auth_state n k (fst (dispatch_reclaim h body s))"
    using a launch reclaim by (auto simp: dispatch_launch_def dispatch_reclaim_def keeps_def split: option.splits)
  moreover have "auth_state n k (fst (dispatch_reserve h body s))" "auth_state n k (fst (call_adapter f s))" for f :: "('a, pydict) adapter_call"
    using a keepsD [OF keeps_call_adapter] by (auto simp: dispatch_reserve_def)
  ultimately show ?thesis using a by (simp add: broker_dispatch_def)
qed

lemma perform_keeps_auth: "auth_state n k s \<Longrightarrow> auth_state n k (fst (perform h q s))"
  using broker_dispatch_keeps_auth [of n k s h "rq_operation q" "rq_body q"]
  by (auto simp: perform_def audit_def Let_def split: prod.splits sum.splits)

lemma recover_records_auth: "auth_state n k s \<Longrightarrow> auth_state n k (fst (recover_records h live clean rs removed s))"
proof (induction rs arbitrary: removed s)
  case (Cons r rs)
  have t: "auth_state n k (fst (try_adapter (clean r) s))" by (rule auth_try_adapter [OF Cons.prems])
  have "keeps (auth_state n k) (bind_action (on_manifest h f) (\<lambda>_ u. recover_records h live clean rs rm u))"
    for f :: "(manifest, sandbox_error, unit) raising" and rm
    by (intro keeps_intros keepsI Cons.IH)
  with t Cons show ?case by (auto simp: keeps_def split: sum.splits bool.splits prod.splits)
qed simp

lemma retry_releases_auth: "auth_state n k s \<Longrightarrow> auth_state n k (fst (retry_releases h pending removed s))"
proof (induction pending arbitrary: removed s)
  case (Cons p pending)
  obtain b u j body where p: "p = ((b, u, j), body)" by (cases p) auto
  have t: "auth_state n k (fst (try_adapter (op_release (bh_adapter h) body) s))" by (rule auth_try_adapter [OF Cons.prems])
  have "keeps (auth_state n k) (bind_action (on_manifest h f) (\<lambda>_ u. retry_releases h pending rm (u\<lparr>br_pending := g u\<rparr>)))"
    for f :: "(manifest, sandbox_error, unit) raising" and rm g
    by (intro keeps_intros keepsI Cons.IH) simp
  with t Cons show ?case by (auto simp: p keeps_def split: prod.splits)
qed simp

section \<open>Only authenticated, fresh requests are performed\<close>

lemma compare_digest_True: "compare_digest a b = Inr True \<Longrightarrow> a = b"
  by (simp add: compare_digest_def split: if_splits)

lemma admit_request_Inr:
  "admit_request h now payload s = (s', Inr (key, q)) \<longleftrightarrow>
     parse_request payload = Inr q \<and> check_times now q = Inr () \<and> broker_key h s = Inr key \<and> authenticate h key q = Inr ()
     \<and> claim_nonce now q s = (s', Inr ())"
  by (auto simp: admit_request_def bind_action_Inr bind_result_Inr lift_action_def)

lemma admit_request_Inl:
  assumes "admit_request h now payload s = (s', Inl e)"
  shows "s' = s\<lparr>br_nonces := br_nonces s'\<rparr> \<and> (br_nonces s' = br_nonces s \<or> br_nonces s' = filter (\<lambda>(n, x). x \<ge> now) (br_nonces s))"
proof (cases "bind_result (parse_request payload) (\<lambda>q. bind_result (check_times now q) (\<lambda>_. bind_result (broker_key h s) (\<lambda>key.
         bind_result (authenticate h key q) (\<lambda>_. Inr (key, q)))))")
  case (Inl e')
  with assms show ?thesis by (simp add: admit_request_def)
next
  case (Inr kq)
  with assms show ?thesis
    by (cases kq) (auto simp: admit_request_def bind_action_def claim_nonce_def Let_def split: prod.splits if_splits sum.splits)
qed

lemma handle_cases:
  assumes "handle h now payload s = (s', r)"
  obtains (refused) e where "r = Inl e" "admit_request h now payload s = (s', Inl e)"
    | (performed) key q t result where "admit_request h now payload s = (t, Inr (key, q))" "perform h q t = (s', result)"
        "r = Inr (sign_response h key (rq_nonce q) result)"
  using assms that by (auto simp: handle_def bind_action_def split: prod.splits sum.splits)

lemma filter_update_same: "filter (\<lambda>(x, v). x \<noteq> k) (AList.update k w d) = filter (\<lambda>(x, v). x \<noteq> k) d"
  by (induction d) auto

text \<open>C12. The broker acts only on authenticated requests: when it answers, the request carried the keyed hash of
  its own fields under the broker's key and was inside its lifetime, and the answer carries the keyed hash of
  everything else in it. A refused request reaches neither the adapter nor the manifest nor the audit trail: at
  most expired nonces are forgotten.\<close>

theorem broker_authenticates:
  assumes "handle h now payload s = (s', r)"
  shows "(case r of
      Inr response \<Rightarrow> (\<exists>key q. parse_request payload = Inr q \<and> broker_key h s = Inr key
        \<and> rq_signature q = bh_mac h key (canonical (unsigned_request q))
        \<and> rq_issued_at q \<le> now + 5 \<and> now \<le> rq_expires_at q \<and> rq_issued_at q < rq_expires_at q \<and> rq_expires_at q \<le> rq_issued_at q + 60
        \<and> map_of response ''hmac'' = Some (PStr (bh_mac h key (canonical (filter (\<lambda>(k, v). k \<noteq> ''hmac'') response)))))
    | Inl e \<Rightarrow> s' = s\<lparr>br_nonces := br_nonces s'\<rparr> \<and> (br_nonces s' = br_nonces s \<or> br_nonces s' = filter (\<lambda>(n, x). x \<ge> now) (br_nonces s)))"
  using assms
proof (cases rule: handle_cases)
  case (refused e)
  then show ?thesis using admit_request_Inl [OF refused(2)] by simp
next
  case (performed key q t result)
  then have a: "parse_request payload = Inr q" "check_times now q = Inr ()" "broker_key h s = Inr key" "authenticate h key q = Inr ()"
    by (simp_all add: admit_request_Inr)
  have "rq_signature q = bh_mac h key (canonical (unsigned_request q))"
    using a(4) by (auto simp: authenticate_def bind_result_Inr dest: compare_digest_True)
  moreover have "rq_issued_at q \<le> now + 5 \<and> now \<le> rq_expires_at q \<and> rq_issued_at q < rq_expires_at q \<and> rq_expires_at q \<le> rq_issued_at q + 60"
    using a(2) by (auto simp: check_times_def bind_result_Inr MAX_CLOCK_SKEW_SECONDS_def MAX_REQUEST_TTL_SECONDS_def)
  moreover have "map_of (sign_response h key (rq_nonce q) result) ''hmac'' =
      Some (PStr (bh_mac h key (canonical (filter (\<lambda>(k, v). k \<noteq> ''hmac'') (sign_response h key (rq_nonce q) result)))))"
    by (simp add: sign_response_def Let_def update_conv' filter_update_same)
  ultimately show ?thesis using performed(3) a(1,3) by auto
qed

section \<open>Replays\<close>

text \<open>Runs of the broker: requests at clock readings that do not go back, and the reclaimer's rounds in between.
  The list holds the requests that were performed.\<close>

inductive broker_run :: "'a broker_host \<Rightarrow> 'a broker \<Rightarrow> broker_request list \<Rightarrow> int \<Rightarrow> 'a broker \<Rightarrow> bool" for h s0 where
  run_start: "broker_run h s0 [] t0 s0"
| run_refused: "broker_run h s0 acc t s \<Longrightarrow> t \<le> now \<Longrightarrow> handle h now payload s = (s', Inl e) \<Longrightarrow> broker_run h s0 acc now s'"
| run_performed: "broker_run h s0 acc t s \<Longrightarrow> t \<le> now \<Longrightarrow> handle h now payload s = (s', Inr response) \<Longrightarrow>
    parse_request payload = Inr q \<Longrightarrow> broker_run h s0 (acc @ [q]) now s'"
| run_retry: "broker_run h s0 acc t s \<Longrightarrow> broker_run h s0 acc t (fst (recover_pending_releases h s))"
| run_orphans: "broker_run h s0 acc t s \<Longrightarrow> broker_run h s0 acc t (fst (recover_orphans h live s))"

definition remembers :: "int \<Rightarrow> (string, int) dict \<Rightarrow> broker_request \<Rightarrow> bool" where
  "remembers t nonces q \<longleftrightarrow> rq_expires_at q < t \<or> map_of nonces (rq_nonce q) = Some (rq_expires_at q)"

lemma map_of_live: "map_of d k = Some e \<Longrightarrow> now \<le> e \<Longrightarrow> map_of (filter (\<lambda>(n, x). x \<ge> now) d) k = Some e"
  by (induction d) (auto split: if_splits)

lemma remembers_prune:
  assumes "remembers t d q" "t \<le> now"
  shows "remembers now (filter (\<lambda>(n, x). x \<ge> now) d) q"
  using assms map_of_live [of d "rq_nonce q" "rq_expires_at q" now] by (cases "now \<le> rq_expires_at q") (auto simp: remembers_def)

lemma claim_nonce_remembers:
  assumes "claim_nonce now q' s = (s', Inr ())" "remembers t (br_nonces s) q" "t \<le> now"
  shows "remembers now (br_nonces s') q" "now \<le> rq_expires_at q' \<Longrightarrow> q \<noteq> q'"
proof -
  let ?live = "filter (\<lambda>(n, x). x \<ge> now) (br_nonces s)"
  from assms(1) have fresh: "rq_nonce q' \<notin> keys ?live" and s': "br_nonces s' = AList.update (rq_nonce q') (rq_expires_at q') ?live"
    by (auto simp: claim_nonce_def Let_def split: if_splits)
  have p: "remembers now ?live q" by (rule remembers_prune [OF assms(2,3)])
  have nn: "map_of ?live (rq_nonce q') = None" using fresh by (simp only: map_of_eq_None_iff) simp
  show "remembers now (br_nonces s') q"
    using p nn unfolding s' remembers_def update_conv' by (auto split: if_splits)
  show "q \<noteq> q'" if "now \<le> rq_expires_at q'" using p nn that unfolding remembers_def by auto
qed

lemma recover_nonces: "br_nonces (fst (recover_pending_releases h s)) = br_nonces s" "br_nonces (fst (recover_orphans h live s)) = br_nonces s"
  using retry_releases_auth [of "br_nonces s" "br_key s" s] recover_records_auth [of "br_nonces s" "br_key s" s]
  by (auto simp: recover_pending_releases_def recover_orphans_def auth_state_def)

lemma run_remembers: "broker_run h s0 acc t s \<Longrightarrow> distinct acc \<and> (\<forall>q \<in> set acc. remembers t (br_nonces s) q)"
proof (induction rule: broker_run.induct)
  case (run_start t0)
  show ?case by simp
next
  case (run_refused acc t s now payload s' e)
  have "admit_request h now payload s = (s', Inl e)"
    using run_refused(3) by (cases rule: handle_cases) auto
  from admit_request_Inl [OF this] have "br_nonces s' = br_nonces s \<or> br_nonces s' = filter (\<lambda>(n, x). x \<ge> now) (br_nonces s)" by blast
  moreover have "remembers now (br_nonces s) q" if "remembers t (br_nonces s) q" for q
    using that run_refused(2) by (auto simp: remembers_def)
  ultimately show ?case using run_refused(2,4) remembers_prune by metis
next
  case (run_performed acc t s now payload s' response q)
  from run_performed(3) obtain key q1 t1 result where a: "admit_request h now payload s = (t1, Inr (key, q1))" "perform h q1 t1 = (s', result)"
    by (cases rule: handle_cases) auto
  then have q1: "q1 = q" using run_performed(4) by (simp add: admit_request_Inr)
  have c: "check_times now q = Inr ()" "claim_nonce now q s = (t1, Inr ())" using a q1 by (simp_all add: admit_request_Inr)
  have e: "now \<le> rq_expires_at q" using c(1) by (auto simp: check_times_def bind_result_Inr)
  have n: "br_nonces s' = br_nonces t1"
    using perform_keeps_auth [of "br_nonces t1" "br_key t1" t1 h q] a(2) q1 by (simp add: auth_state_def)
  have "remembers now (br_nonces s') q"
    using c(2) by (auto simp: n remembers_def claim_nonce_def Let_def update_conv' split: if_splits)
  moreover have "remembers now (br_nonces s') p \<and> p \<noteq> q" if "p \<in> set acc" for p
    using claim_nonce_remembers [OF c(2)] run_performed(2,5) that e unfolding n by blast
  ultimately show ?case using run_performed(5) by auto
qed (simp_all add: recover_nonces)

text \<open>C11. No replay: in every run with a clock that does not go back, no request is performed twice, and a
  request that was performed is refused when it is presented again at any later time, with no effect but the
  forgetting of expired nonces.\<close>

theorem no_request_performed_twice:
  assumes "broker_run h s0 acc t s" "q \<in> set acc" "t \<le> now" "parse_request payload = Inr q"
  shows "distinct acc \<and> (\<exists>e s'. handle h now payload s = (s', Inl e) \<and> s' = s\<lparr>br_nonces := br_nonces s'\<rparr>)"
proof -
  note r = run_remembers [OF assms(1)]
  obtain s' res where hd: "handle h now payload s = (s', res)" by (cases "handle h now payload s")
  have "\<exists>e. res = Inl e"
  proof (rule ccontr)
    assume "\<nexists>e. res = Inl e"
    then obtain response where "res = Inr response" by (cases res) auto
    then have "broker_run h s0 (acc @ [q]) now s'" using run_performed assms hd by blast
    then show False using run_remembers assms(2) by fastforce
  qed
  then obtain e where e: "res = Inl e" by blast
  with broker_run.run_refused hd have "admit_request h now payload s = (s', Inl e)" by (cases rule: handle_cases [OF hd]) auto
  with admit_request_Inl have "s' = s\<lparr>br_nonces := br_nonces s'\<rparr>" by blast
  then show ?thesis using hd e r by auto
qed

definition sample_adapter :: "nat adapter_ops" where
  "sample_adapter = \<lparr>op_reserve = (\<lambda>_ a. (a, Inr [])),
     op_launch = (\<lambda>_ a. (a + 1, Inr [(''accepted'', PBool True), (''job_id'', PStr ''j''), (''backend_instance_id'', PStr ''b''), (''user_id'', PStr ''u'')])),
     op_reclaim = (\<lambda>_ a. (a, Inr [])), op_release = (\<lambda>_ a. (a, Inr (a > 0))), op_control = (\<lambda>_ _ a. (a, Inr [])), op_recover = (\<lambda>_ a. (a, Inr True))\<rparr>"

definition sample_broker_host :: "nat broker_host" where
  "sample_broker_host = \<lparr>bh_mac = (\<lambda>key m. key), bh_load_key = Inr ''k'', bh_redact = id, bh_os_message = ''disk'', bh_adapter = sample_adapter\<rparr>"

definition sample_broker :: "nat broker" where
  "sample_broker = \<lparr>br_installed = True, br_key = Some ''k'', br_ready = Some [], br_adapter = Some 0, br_manifest = empty_manifest ''i'' ''b'',
     br_nonces = [], br_pending = [], br_wake = False, br_audit = []\<rparr>"

definition sample_payload :: "string \<Rightarrow> pydict \<Rightarrow> pyval option" where
  "sample_payload operation body = Some (PDict [(''operation'', PStr operation), (''nonce'', PStr ''n1''), (''issued_at'', PInt 100),
     (''expires_at'', PInt 130), (''hmac'', PStr ''k''), (''body'', PDict body)])"

definition sample_request :: "string \<Rightarrow> pydict \<Rightarrow> broker_request" where
  "sample_request operation body = \<lparr>rq_operation = operation, rq_nonce = ''n1'', rq_issued_at = 100, rq_expires_at = 130, rq_signature = ''k'', rq_body = body\<rparr>"

lemma sample_parse: "operation \<noteq> [] \<Longrightarrow> parse_request (sample_payload operation body) = Inr (sample_request operation body)"
  by (simp add: parse_request_def sample_payload_def sample_request_def text_field_def)

lemma sample_admit:
  assumes "operation \<noteq> []"
  shows "admit_request sample_broker_host 101 (sample_payload operation body) sample_broker =
    (sample_broker\<lparr>br_nonces := [(''n1'', 130)]\<rparr>, Inr (''k'', sample_request operation body))"
  unfolding admit_request_Inr using sample_parse [OF assms]
  by (simp add: check_times_def sample_request_def MAX_CLOCK_SKEW_SECONDS_def MAX_REQUEST_TTL_SECONDS_def broker_key_def sample_broker_def
      authenticate_def compare_digest_def sample_broker_host_def claim_nonce_def)

lemma sample_handle:
  assumes "operation \<noteq> []"
  shows "\<exists>s' response. handle sample_broker_host 101 (sample_payload operation body) sample_broker = (s', Inr response)"
  using sample_admit [OF assms, of body] by (simp add: handle_def bind_action_def split: prod.splits)

theorem broker_authenticates_witness:
  "\<exists>s' response key q. handle sample_broker_host 101 (sample_payload ''status'' []) sample_broker = (s', Inr response)
    \<and> rq_signature q = bh_mac sample_broker_host key (canonical (unsigned_request q))"
proof -
  obtain s' response where *: "handle sample_broker_host 101 (sample_payload ''status'' []) sample_broker = (s', Inr response)"
    using sample_handle by blast
  show ?thesis using broker_authenticates [OF *] * by auto
qed

theorem no_request_performed_twice_witness:
  "\<exists>s. broker_run sample_broker_host sample_broker [sample_request ''launch'' []] 101 s
    \<and> (\<exists>e s'. handle sample_broker_host 102 (sample_payload ''launch'' []) s = (s', Inl e))"
proof -
  obtain s response where h: "handle sample_broker_host 101 (sample_payload ''launch'' []) sample_broker = (s, Inr response)"
    using sample_handle by blast
  have p: "parse_request (sample_payload ''launch'' []) = Inr (sample_request ''launch'' [])" by (rule sample_parse) simp
  have r: "broker_run sample_broker_host sample_broker [sample_request ''launch'' []] 101 s"
    using run_performed [OF run_start [of sample_broker_host sample_broker 101] _ h p] by simp
  show ?thesis using no_request_performed_twice [OF r _ _ p, of 102] r by auto
qed

section \<open>Ownership of resources\<close>

definition owned_manifest :: "manifest \<Rightarrow> bool" where
  "owned_manifest m \<longleftrightarrow> manifest_wf m \<and> mf_writable m \<and> (\<forall>r \<in> set (records m). rr_backend_instance_id r \<noteq> [])"

text \<open>Removing the resources of a record takes out exactly the records with its key.\<close>

lemma remove_record:
  assumes "owned_manifest (br_manifest s)" "backend \<noteq> []"
  shows "\<exists>m. on_manifest h (remove_resources user job (Some backend)) s = (s\<lparr>br_manifest := m\<rparr>, Inr ()) \<and> owned_manifest m
    \<and> mf_installation_id m = mf_installation_id (br_manifest s) \<and> mf_backend_instance_id m = mf_backend_instance_id (br_manifest s)
    \<and> records m = filter (\<lambda>x. record_key x \<noteq> (mf_installation_id (br_manifest s), backend, user, job)) (records (br_manifest s))"
proof -
  have "backend_of (br_manifest s) (Some backend) = backend" using assms(2) by (simp add: backend_of_def)
  then obtain m where m: "remove_resources user job (Some backend) (br_manifest s) = (m, Inr ())" "manifest_wf m" "mf_writable m"
      "records m = filter (\<lambda>x. record_key x \<noteq> (mf_installation_id (br_manifest s), backend, user, job)) (records (br_manifest s))"
      "mf_installation_id m = mf_installation_id (br_manifest s)" "mf_backend_instance_id m = mf_backend_instance_id (br_manifest s)"
    using remove_records [of "br_manifest s" user job "Some backend"] assms(1) unfolding owned_manifest_def by auto
  then have "owned_manifest m" using assms(1) by (auto simp: owned_manifest_def)
  moreover have "on_manifest h (remove_resources user job (Some backend)) s = (s\<lparr>br_manifest := m\<rparr>, Inr ())"
    using m(1) by (simp add: on_manifest_def)
  ultimately show ?thesis using m(4-6) by blast
qed

lemma remove_each_records:
  assumes "owned_manifest (br_manifest s)" "\<forall>r \<in> set rs. rr_backend_instance_id r \<noteq> []"
  shows "\<exists>m. remove_each h rs s = (s\<lparr>br_manifest := m\<rparr>, Inr ()) \<and> owned_manifest m \<and> mf_installation_id m = mf_installation_id (br_manifest s)
    \<and> records m = filter (\<lambda>x. \<not> (\<exists>r \<in> set rs. record_key x = (mf_installation_id (br_manifest s), rr_backend_instance_id r, rr_user_id r, rr_job_id r)))
        (records (br_manifest s))"
  using assms
proof (induction rs arbitrary: s)
  case (Cons r rs)
  from Cons.prems obtain m where m: "on_manifest h (remove_resources (rr_user_id r) (rr_job_id r) (Some (rr_backend_instance_id r))) s
      = (s\<lparr>br_manifest := m\<rparr>, Inr ())" "owned_manifest m" "mf_installation_id m = mf_installation_id (br_manifest s)"
      "records m = filter (\<lambda>x. record_key x \<noteq> (mf_installation_id (br_manifest s), rr_backend_instance_id r, rr_user_id r, rr_job_id r)) (records (br_manifest s))"
    using remove_record [of s "rr_backend_instance_id r" h "rr_user_id r" "rr_job_id r"] by auto
  from Cons.IH [of "s\<lparr>br_manifest := m\<rparr>"] Cons.prems(2) m(2) obtain m' where m':
      "remove_each h rs (s\<lparr>br_manifest := m\<rparr>) = (s\<lparr>br_manifest := m'\<rparr>, Inr ())" "owned_manifest m'"
      "mf_installation_id m' = mf_installation_id m"
      "records m' = filter (\<lambda>x. \<not> (\<exists>r \<in> set rs. record_key x = (mf_installation_id m, rr_backend_instance_id r, rr_user_id r, rr_job_id r))) (records m)"
    by auto
  have "remove_each h (r # rs) s = (s\<lparr>br_manifest := m'\<rparr>, Inr ())" using m(1) m'(1) by (simp add: bind_action_ok)
  moreover have "records m' = filter (\<lambda>x. \<not> (\<exists>q \<in> set (r # rs). record_key x = (mf_installation_id (br_manifest s), rr_backend_instance_id q, rr_user_id q, rr_job_id q)))
      (records (br_manifest s))"
    unfolding m'(4) m(3,4) filter_filter by (rule filter_cong) auto
  ultimately show ?case using m(3) m'(2,3) by auto
next
  case Nil
  then show ?case by (intro exI [of _ "br_manifest s"]) simp
qed

lemma text_field_nonempty: "text_field d k = Some v \<Longrightarrow> v \<noteq> []"
  by (auto simp: text_field_def split: option.splits pyval.splits if_splits)

lemma resource_signature_cong:
  "br_key s = br_key t \<Longrightarrow> mf_installation_id (br_manifest s) = mf_installation_id (br_manifest t) \<Longrightarrow>
    resource_signature h s b u j res = resource_signature h t b u j res"
  by (simp add: resource_signature_def broker_key_def)

text \<open>An accepted launch leaves a record of the job that the broker can later verify as its own: the resources
  the adapter reported together with a signature over the owner and the resources, and recovery accepts it.\<close>

theorem launch_is_recorded:
  assumes "owned_manifest (br_manifest s)" "mf_installation_id (br_manifest s) \<noteq> []"
    and "register_launch h result s = (s', Inr ())" "\<forall>key m. \<forall>c \<in> set (bh_mac h key m). (of_char c :: nat) < 128"
  shows "owned_manifest (br_manifest s') \<and> (\<exists>r \<in> set (records (br_manifest s')).
    text_field result ''job_id'' = Some (rr_job_id r) \<and> text_field result ''user_id'' = Some (rr_user_id r)
    \<and> text_field result ''backend_instance_id'' = Some (rr_backend_instance_id r)
    \<and> rr_installation_id r = mf_installation_id (br_manifest s) \<and> verified h s' r = Inr True)"
proof -
  from assms(3) obtain job backend user where f: "text_field result ''job_id'' = Some job" "text_field result ''backend_instance_id'' = Some backend"
      "text_field result ''user_id'' = Some user"
    by (auto simp: register_launch_def split: option.splits)
  define res where "res = (case map_of result ''resources'' of Some (PDict r) \<Rightarrow> r | _ \<Rightarrow> [])"
  from assms(3) f obtain sig where sig: "resource_signature h s backend user job res = Inr sig"
    by (auto simp: register_launch_def Let_def res_def split: sum.splits)
  let ?res = "AList.update ''owner_signature'' (PStr sig) res" and ?k = "(mf_installation_id (br_manifest s), backend, user, job)"
  have ne: "job \<noteq> []" "backend \<noteq> []" using f text_field_nonempty by blast+
  then have b: "backend_of (br_manifest s) (Some backend) = backend" by (simp add: backend_of_def)
  obtain m r where m: "register_resources user job ?res (Some backend) (br_manifest s) = (m, Inr r)" "manifest_wf m" "mf_writable m"
      "record_key r = ?k" "rr_resources r = ?res" "records m = filter (\<lambda>x. record_key x \<noteq> ?k) (records (br_manifest s)) @ [r]"
      "mf_installation_id m = mf_installation_id (br_manifest s)"
    using register_records [where m = "br_manifest s" and job = job and backend = "Some backend" and user = user and resources = ?res] assms(1,2) ne(1) unfolding b owned_manifest_def by auto
  have s': "s' = s\<lparr>br_manifest := m\<rparr>"
    using assms(3) f sig m(1) by (simp add: register_launch_def Let_def res_def on_manifest_def bind_action_def)
  have rk: "rr_installation_id r = mf_installation_id (br_manifest s)" "rr_backend_instance_id r = backend" "rr_user_id r = user" "rr_job_id r = job"
    using m(4) by (simp_all add: record_key_def)
  have "resource_signature h s' backend user job ?res = Inr sig"
    using sig m(7) by (simp add: s' resource_signature_def broker_key_def filter_update_same)
  moreover have "\<forall>c \<in> set sig. (of_char c :: nat) < 128"
    using sig assms(4) by (auto simp: resource_signature_def bind_result_Inr)
  ultimately have "verified h s' r = Inr True"
    by (simp add: verified_def m(5) rk update_conv' compare_digest_def)
  moreover have "owned_manifest (br_manifest s')"
    using assms(1) m(2,3,6) rk(2) ne(2) by (auto simp: s' owned_manifest_def)
  ultimately show ?thesis using f rk m(6) by (auto simp: s')
qed

definition sample_launch :: pydict where
  "sample_launch = [(''accepted'', PBool True), (''job_id'', PStr ''j''), (''backend_instance_id'', PStr ''b''), (''user_id'', PStr ''u'')]"

definition ascii_host :: "nat broker_host" where
  "ascii_host = sample_broker_host\<lparr>bh_mac := (\<lambda>_ _. ''sig'')\<rparr>"

lemma empty_owned: "owned_manifest (empty_manifest i b)"
  using empty_manifest_wf(1) by (simp add: owned_manifest_def records_def empty_manifest_def)

lemma sample_register: "\<exists>s'. register_launch ascii_host sample_launch sample_broker = (s', Inr ())"
proof -
  have m: "br_manifest sample_broker = empty_manifest ''i'' ''b''" "br_key sample_broker = Some ''k''" by (simp_all add: sample_broker_def)
  have "mf_writable (empty_manifest ''i'' ''b'')" by (simp add: empty_manifest_def)
  then show ?thesis
    by (simp add: register_launch_def sample_launch_def text_field_def resource_signature_def broker_key_def m bind_action_def on_manifest_def
        register_resources_def write_records_def Let_def)
qed

theorem launch_is_recorded_witness:
  "\<exists>s' r. register_launch ascii_host sample_launch sample_broker = (s', Inr ()) \<and> rr_job_id r = ''j'' \<and> verified ascii_host s' r = Inr True"
proof -
  obtain s' where s': "register_launch ascii_host sample_launch sample_broker = (s', Inr ())" using sample_register by blast
  have "owned_manifest (br_manifest sample_broker)" "mf_installation_id (br_manifest sample_broker) \<noteq> []"
    using empty_owned [of "''i''" "''b''"] by (simp_all add: sample_broker_def empty_manifest_def)
  moreover have "\<forall>key m. \<forall>c \<in> set (bh_mac ascii_host key m). (of_char c :: nat) < 128" by (simp add: ascii_host_def)
  moreover have "text_field sample_launch ''job_id'' = Some ''j''" by (simp add: sample_launch_def text_field_def)
  ultimately show ?thesis using launch_is_recorded [OF _ _ s'] s' by fastforce
qed

section \<open>Releases that wait\<close>

lemma try_adapter_manifest: "try_adapter f s = (t, ok) \<Longrightarrow> br_manifest t = br_manifest s \<and> br_pending t = br_pending s \<and> br_key t = br_key s"
  by (auto simp: try_adapter_def split: option.splits prod.splits)

text \<open>A release that fails is kept for a retry and the job's record stays in the manifest; a release that
  succeeds takes the record and a pending retry of exactly that job away and leaves every other one.\<close>

theorem release_pending_or_done:
  assumes "owned_manifest (br_manifest s)" "text_field body ''backend_instance_id'' = Some b" "text_field body ''user_id'' = Some u"
    "text_field body ''job_id'' = Some j"
  shows "(\<exists>s'. dispatch_release h body s = (s', Inl (BrokerError ''cleanup_pending'' ''Broker Job resource cleanup is pending''))
        \<and> br_manifest s' = br_manifest s \<and> br_pending s' = AList.update (b, u, j) body (br_pending s) \<and> br_wake s')
    \<or> (\<exists>s'. dispatch_release h body s = (s', Inr [(''released'', PBool True)]) \<and> owned_manifest (br_manifest s')
        \<and> br_pending s' = AList.delete (b, u, j) (br_pending s)
        \<and> records (br_manifest s') = filter (\<lambda>r. record_key r \<noteq> (mf_installation_id (br_manifest s), b, u, j)) (records (br_manifest s)))"
proof -
  obtain t ok where t: "try_adapter (op_release (bh_adapter h) body) s = (t, ok)" by (cases "try_adapter (op_release (bh_adapter h) body) s")
  note tm = try_adapter_manifest [OF t]
  show ?thesis
  proof (cases ok)
    case False
    then show ?thesis using assms t tm by (simp add: dispatch_release_def)
  next
    case True
    let ?t = "t\<lparr>br_pending := AList.delete (b, u, j) (br_pending t)\<rparr>"
    have "owned_manifest (br_manifest ?t)" "b \<noteq> []" using assms(1,2) tm text_field_nonempty by auto
    from remove_record [OF this, of h u j] obtain m where m: "on_manifest h (remove_resources u j (Some b)) ?t = (?t\<lparr>br_manifest := m\<rparr>, Inr ())"
        "owned_manifest m" "records m = filter (\<lambda>x. record_key x \<noteq> (mf_installation_id (br_manifest ?t), b, u, j)) (records (br_manifest ?t))" by blast
    then show ?thesis using assms t tm True by (simp add: dispatch_release_def bind_action_def)
  qed
qed

definition sample_release :: pydict where
  "sample_release = [(''backend_instance_id'', PStr ''b''), (''user_id'', PStr ''u''), (''job_id'', PStr ''j'')]"

theorem release_pending_or_done_witness:
  "\<exists>s'. dispatch_release sample_broker_host sample_release sample_broker =
      (s', Inl (BrokerError ''cleanup_pending'' ''Broker Job resource cleanup is pending'')) \<and> br_pending s' = [((''b'', ''u'', ''j''), sample_release)]"
proof -
  have "owned_manifest (br_manifest sample_broker)" using empty_owned by (simp add: sample_broker_def)
  moreover have "text_field sample_release ''backend_instance_id'' = Some ''b''" "text_field sample_release ''user_id'' = Some ''u''"
    "text_field sample_release ''job_id'' = Some ''j''" by (simp_all add: sample_release_def text_field_def)
  moreover have "snd (dispatch_release sample_broker_host sample_release sample_broker) \<noteq> Inr [(''released'', PBool True)]"
    by (simp add: dispatch_release_def sample_release_def text_field_def try_adapter_def sample_broker_def sample_broker_host_def sample_adapter_def)
  moreover have "br_pending sample_broker = []" by (simp add: sample_broker_def)
  ultimately show ?thesis using release_pending_or_done [of sample_broker sample_release "''b''" "''u''" "''j''" sample_broker_host]
    by (auto simp: prod_eq_iff)
qed

section \<open>Orphans\<close>

definition provably_owned :: "'a broker_host \<Rightarrow> 'a broker \<Rightarrow> string set \<Rightarrow> ResourceRecord \<Rightarrow> bool" where
  "provably_owned h s live r \<longleftrightarrow> rr_installation_id r = mf_installation_id (br_manifest s) \<and> rr_job_id r \<notin> live \<and> verified h s r = Inr True"

text \<open>What a round of recovery depends on.\<close>

definition same_owner :: "'a broker \<Rightarrow> 'a broker \<Rightarrow> bool" where
  "same_owner s t \<longleftrightarrow> br_key t = br_key s \<and> mf_installation_id (br_manifest t) = mf_installation_id (br_manifest s)"

lemma provably_owned_cong: "same_owner s t \<Longrightarrow> provably_owned h t live r = provably_owned h s live r"
  by (simp add: provably_owned_def same_owner_def verified_def resource_signature_def broker_key_def split: option.splits pyval.splits)

lemma recover_records_safe:
  assumes "owned_manifest (br_manifest s)" "recover_records h live clean rs removed s = (s', res)"
    "\<forall>r \<in> set rs. rr_backend_instance_id r \<noteq> []"
  shows "owned_manifest (br_manifest s') \<and> {r \<in> set (records (br_manifest s)). record_key r \<notin> record_key ` {r \<in> set rs. provably_owned h s live r}}
      \<subseteq> set (records (br_manifest s'))"
  using assms
proof (induction rs arbitrary: s removed)
  case (Cons r rs)
  show ?case
  proof (cases "provably_owned h s live r")
    case False
    have eq: "{q \<in> set (r # rs). provably_owned h s live q} = {q \<in> set rs. provably_owned h s live q}" using False by auto
    from False Cons.prems(2) have "recover_records h live clean rs removed s = (s', res) \<or> s' = s"
      by (auto simp: provably_owned_def split: sum.splits bool.splits if_splits)
    then show ?thesis
    proof
      assume "recover_records h live clean rs removed s = (s', res)"
      from Cons.IH [OF Cons.prems(1) this] Cons.prems(3) show ?thesis unfolding eq by auto
    qed (use Cons.prems(1) in auto)
  next
    case own: True
    obtain t cleaned where t: "try_adapter (clean r) s = (t, cleaned)" by (cases "try_adapter (clean r) s")
    note tm = try_adapter_manifest [OF t]
    have st: "same_owner s t" using tm by (simp add: same_owner_def)
    show ?thesis
    proof (cases cleaned)
      case False
      then have "recover_records h live clean rs removed t = (s', res)"
        using Cons.prems(2) own t by (simp add: provably_owned_def)
      from Cons.IH [OF _ this] Cons.prems(1,3) tm provably_owned_cong [OF st, of h live] show ?thesis by auto
    next
      case True
      obtain m where m: "on_manifest h (remove_resources (rr_user_id r) (rr_job_id r) (Some (rr_backend_instance_id r))) t = (t\<lparr>br_manifest := m\<rparr>, Inr ())"
          "owned_manifest m" "mf_installation_id m = mf_installation_id (br_manifest t)"
          "records m = filter (\<lambda>x. record_key x \<noteq> (mf_installation_id (br_manifest t), rr_backend_instance_id r, rr_user_id r, rr_job_id r)) (records (br_manifest t))"
        using remove_record [of t "rr_backend_instance_id r" h "rr_user_id r" "rr_job_id r"] Cons.prems(1,3) tm by auto
      let ?t = "t\<lparr>br_manifest := m\<rparr>"
      have key: "record_key r = (mf_installation_id (br_manifest t), rr_backend_instance_id r, rr_user_id r, rr_job_id r)"
        using own tm by (simp add: provably_owned_def record_key_def)
      have "same_owner s ?t" using tm m(3) by (simp add: same_owner_def)
      note cong = provably_owned_cong [OF this, of h live]
      have "recover_records h live clean rs (removed @ [rr_job_id r]) ?t = (s', res)"
        using Cons.prems(2) own t True m(1) by (simp add: provably_owned_def bind_action_def)
      from Cons.IH [OF _ this] m(2,4) Cons.prems(3) cong own tm show ?thesis unfolding key [symmetric] by auto
    qed
  qed
qed simp

lemma recover_records_clean_cong:
  assumes "\<And>q t. q \<in> set rs \<Longrightarrow> same_owner s t \<Longrightarrow> provably_owned h t live q \<Longrightarrow> clean q = clean' q"
    "owned_manifest (br_manifest s)" "\<forall>r \<in> set rs. rr_backend_instance_id r \<noteq> []"
  shows "recover_records h live clean rs removed s = recover_records h live clean' rs removed s"
  using assms
proof (induction rs arbitrary: s removed)
  case (Cons r rs)
  have self: "same_owner s s" by (simp add: same_owner_def)
  have step: "recover_records h live clean rs rm t = recover_records h live clean' rs rm t"
    if "same_owner s t" "owned_manifest (br_manifest t)" for t rm
    using that Cons.prems by (intro Cons.IH) (auto simp: same_owner_def)
  show ?case
  proof (cases "provably_owned h s live r")
    case False
    then show ?thesis using step [OF self Cons.prems(2)] by (auto simp: provably_owned_def split: sum.splits bool.splits)
  next
    case own: True
    then have c: "clean r = clean' r" using Cons.prems(1) self by auto
    obtain t cleaned where t: "try_adapter (clean' r) s = (t, cleaned)" by (cases "try_adapter (clean' r) s")
    note tm = try_adapter_manifest [OF t]
    have ot: "owned_manifest (br_manifest t)" using Cons.prems(2) tm by simp
    have st: "same_owner s t" using tm by (simp add: same_owner_def)
    obtain m where m: "on_manifest h (remove_resources (rr_user_id r) (rr_job_id r) (Some (rr_backend_instance_id r))) t = (t\<lparr>br_manifest := m\<rparr>, Inr ())"
        "owned_manifest m" "mf_installation_id m = mf_installation_id (br_manifest t)"
      using remove_record [OF ot, of "rr_backend_instance_id r" h "rr_user_id r" "rr_job_id r"] Cons.prems(3) by auto
    have "same_owner s (t\<lparr>br_manifest := m\<rparr>)" using tm m(3) by (simp add: same_owner_def)
    then show ?thesis using own c t m(1,2) step [OF st ot] step [of "t\<lparr>br_manifest := m\<rparr>"]
      by (simp add: provably_owned_def bind_action_def)
  qed
qed simp

text \<open>Recovery is conservative: records of another installation, of a live job or without a valid signature are
  kept in the manifest, and what recovery does is independent of what cleaning up such a record would do,
  that is, the cleanup is never run for one of them.\<close>

theorem recovery_only_cleans_owned:
  assumes "owned_manifest (br_manifest s)" "recover_records h live clean (records (br_manifest s)) [] s = (s', res)"
    and "\<And>r. provably_owned h s live r \<Longrightarrow> clean' r = clean r"
  shows "{r \<in> set (records (br_manifest s)). \<not> provably_owned h s live r} \<subseteq> set (records (br_manifest s'))
    \<and> recover_records h live clean' (records (br_manifest s)) [] s = (s', res)"
proof -
  have b: "\<forall>r \<in> set (records (br_manifest s)). rr_backend_instance_id r \<noteq> []" using assms(1) by (simp add: owned_manifest_def)
  have inj: "inj_on record_key (set (records (br_manifest s)))"
    using assms(1) by (simp add: owned_manifest_def manifest_wf_def distinct_map)
  have "{r \<in> set (records (br_manifest s)). \<not> provably_owned h s live r} \<subseteq>
      {r \<in> set (records (br_manifest s)). record_key r \<notin> record_key ` {r \<in> set (records (br_manifest s)). provably_owned h s live r}}"
    using inj by (auto dest: inj_onD)
  moreover have "recover_records h live clean' (records (br_manifest s)) [] s = recover_records h live clean (records (br_manifest s)) [] s"
    using assms(1,3) b by (intro recover_records_clean_cong) (auto simp: provably_owned_cong)
  ultimately show ?thesis using recover_records_safe [OF assms(1,2) b] assms(2) by auto
qed

theorem recovery_only_cleans_owned_witness:
  "\<exists>s' res. recover_records sample_broker_host {} (op_recover sample_adapter) (records (br_manifest sample_broker)) [] sample_broker = (s', res)
    \<and> {r \<in> set (records (br_manifest sample_broker)). \<not> provably_owned sample_broker_host sample_broker {} r} \<subseteq> set (records (br_manifest s'))"
proof -
  have o: "owned_manifest (br_manifest sample_broker)" using empty_owned by (simp add: sample_broker_def)
  obtain s' res where r: "recover_records sample_broker_host {} (op_recover sample_adapter) (records (br_manifest sample_broker)) [] sample_broker = (s', res)"
    by (cases "recover_records sample_broker_host {} (op_recover sample_adapter) (records (br_manifest sample_broker)) [] sample_broker")
  show ?thesis using recovery_only_cleans_owned [OF o r, of "op_recover sample_adapter"] r by blast
qed

text \<open>A reclaim request makes the broker forget the records of every other backend of this installation,
  whatever the adapter has really reclaimed: also of a job whose cleanup was pending, or whose processes an
  earlier broker process started and this one does not know.\<close>

theorem reclaim_forgets_other_backends:
  assumes "owned_manifest (br_manifest s)" "text_field body ''backend_instance_id'' = Some b" "br_adapter s = Some a"
    "op_reclaim (bh_adapter h) body a = (a', Inr reclaimed)"
  shows "\<exists>s'. dispatch_reclaim h body s = (s', Inr [(''reclaimed'', PList (map PStr reclaimed))])
    \<and> records (br_manifest s') = filter (\<lambda>r. rr_backend_instance_id r = b \<or> rr_installation_id r \<noteq> mf_installation_id (br_manifest s)) (records (br_manifest s))"
proof -
  let ?s = "s\<lparr>br_adapter := Some a'\<rparr>" and ?others = "filter (\<lambda>r. rr_backend_instance_id r \<noteq> b) (records (br_manifest s))"
  have "owned_manifest (br_manifest ?s)" "\<forall>r \<in> set ?others. rr_backend_instance_id r \<noteq> []"
    using assms(1) by (auto simp: owned_manifest_def)
  from remove_each_records [OF this, of h] obtain m where m: "remove_each h ?others ?s = (?s\<lparr>br_manifest := m\<rparr>, Inr ())"
      "records m = filter (\<lambda>x. \<not> (\<exists>r \<in> set ?others. record_key x = (mf_installation_id (br_manifest s), rr_backend_instance_id r, rr_user_id r, rr_job_id r)))
        (records (br_manifest s))" by auto
  have "dispatch_reclaim h body s = (?s\<lparr>br_manifest := m\<rparr>, Inr [(''reclaimed'', PList (map PStr reclaimed))])"
    using assms(2-4) m(1) by (simp add: dispatch_reclaim_def call_adapter_def bind_action_def)
  moreover have "records m = filter (\<lambda>r. rr_backend_instance_id r = b \<or> rr_installation_id r \<noteq> mf_installation_id (br_manifest s)) (records (br_manifest s))"
    unfolding m(2) by (rule filter_cong) (auto simp: record_key_def)
  ultimately show ?thesis by auto
qed

theorem reclaim_forgets_other_backends_witness:
  "\<exists>s'. dispatch_reclaim sample_broker_host [(''backend_instance_id'', PStr ''b2'')] sample_broker = (s', Inr [(''reclaimed'', PList [])])"
proof -
  have "owned_manifest (br_manifest sample_broker)" using empty_owned by (simp add: sample_broker_def)
  from reclaim_forgets_other_backends [OF this, of "[(''backend_instance_id'', PStr ''b2'')]" "''b2''" 0 sample_broker_host 0 "[]"] show ?thesis
    by (auto simp: text_field_def sample_broker_def sample_broker_host_def sample_adapter_def)
qed

end
