(* ===== verification/Base64.thy ===== *)
theory Base64
  imports PyValue "HOL-Library.Word"
begin

text \<open>
  The two functions of Python's \<open>base64\<close> module the broker uses to carry process input and output in JSON:
  \<open>b64encode\<close> and \<open>b64decode\<close> (with and without \<open>validate\<close>), the latter as the state machine of
  \<open>binascii.a2b_base64\<close>. Bytes are 8-bit words. The theory shows that decoding gives back what was encoded in
  either mode, for byte strings of any length.
\<close>

type_synonym bytes = "8 word list"

section \<open>The alphabet\<close>

definition B64_ALPHABET :: string where
  "B64_ALPHABET = ''ABCDEFGHIJKLMNOPQRSTUVWXYZabcdefghijklmnopqrstuvwxyz0123456789+/''"

definition b64_char :: "nat \<Rightarrow> char" where
  "b64_char i = B64_ALPHABET ! i"

definition b64_value :: "char \<Rightarrow> nat option" where
  "b64_value c = (let n = of_char c :: nat in
     if 65 \<le> n \<and> n \<le> 90 then Some (n - 65)
     else if 97 \<le> n \<and> n \<le> 122 then Some (n - 71)
     else if 48 \<le> n \<and> n \<le> 57 then Some (n + 4)
     else if c = CHR ''+'' then Some 62 else if c = CHR ''/'' then Some 63 else None)"

section \<open>Encoding and decoding\<close>

fun b64encode :: "bytes \<Rightarrow> string" where
  "b64encode [] = []"
| "b64encode [a] = [b64_char (unat a div 4), b64_char (unat a mod 4 * 16), CHR ''='', CHR ''='']"
| "b64encode [a, b] = [b64_char (unat a div 4), b64_char (unat a mod 4 * 16 + unat b div 16), b64_char (unat b mod 16 * 4), CHR ''='']"
| "b64encode (a # b # c # rest) = b64_char (unat a div 4) # b64_char (unat a mod 4 * 16 + unat b div 16)
     # b64_char (unat b mod 16 * 4 + unat c div 64) # b64_char (unat c mod 64) # b64encode rest"

text \<open>The decoder's state: the position in the group of four, the bits left over, the padding characters counted since the
  last digit and whether any padding was seen. \<open>None\<close> is \<open>binascii.Error\<close>.\<close>

fun b64_loop :: "bool \<Rightarrow> nat \<Rightarrow> nat \<Rightarrow> nat \<Rightarrow> bool \<Rightarrow> string \<Rightarrow> bytes option" where
  "b64_loop strict quad left pads padded [] = (if quad = 0 then Some [] else None)"
| "b64_loop strict quad left pads padded (c # cs) =
     (if c = CHR ''='' then
        (if quad \<ge> 2 \<and> quad + (pads + 1) \<ge> 4 then (if strict \<and> cs \<noteq> [] then None else Some [])
         else b64_loop strict quad left (if quad \<ge> 2 then pads + 1 else pads) True cs)
      else case b64_value c of
          None \<Rightarrow> if strict then None else b64_loop strict quad left pads padded cs
        | Some v \<Rightarrow>
            if strict \<and> padded then None
            else if quad = 0 then b64_loop strict 1 v 0 padded cs
            else if quad = 1 then map_option ((#) (of_nat (left * 4 + v div 16))) (b64_loop strict 2 (v mod 16) 0 padded cs)
            else if quad = 2 then map_option ((#) (of_nat (left * 16 + v div 4))) (b64_loop strict 3 (v mod 4) 0 padded cs)
            else map_option ((#) (of_nat (left * 64 + v))) (b64_loop strict 0 0 0 padded cs))"

definition b64decode :: "bool \<Rightarrow> string \<Rightarrow> bytes option" where
  "b64decode strict s = (if strict \<and> s \<noteq> [] \<and> hd s = CHR ''='' then None else b64_loop strict 0 0 0 False s)"

section \<open>The round trip\<close>

lemma b64_alphabet_values: "map b64_value B64_ALPHABET = map Some [0..<64]"
  by (simp add: B64_ALPHABET_def b64_value_def upt_rec)

lemma b64_value_char: "i < 64 \<Longrightarrow> b64_value (b64_char i) = Some i"
  using b64_alphabet_values nth_map [of i B64_ALPHABET b64_value] by (simp add: b64_char_def B64_ALPHABET_def)

lemma b64_char_not_pad: "i < 64 \<Longrightarrow> b64_char i \<noteq> CHR ''=''"
  using b64_value_char [of i] by (auto simp: b64_value_def)

lemma unat_byte: "unat (a :: 8 word) < 256"
  using unsigned_less [of a] by simp

lemma byte_parts: fixes a :: "8 word"
  shows "unat a div 4 < 64" "unat a div 16 < 16" "unat a div 64 < 4" "unat a mod 4 < 4" "unat a mod 16 < 16" "unat a mod 64 < 64"
  using unat_byte [of a] by (simp_all add: less_mult_imp_div_less)

lemma sextets [simp]: fixes a b :: "8 word"
  shows "unat a div 4 < 64" "unat a mod 4 * 16 < 64" "unat a mod 4 * 16 + unat b div 16 < 64" "unat a mod 16 * 4 < 64"
    "unat a mod 16 * 4 + unat b div 64 < 64" "unat a mod 64 < 64"
  using byte_parts [of a] byte_parts [of b] by linarith+

lemma joined_bytes: fixes a b c :: "8 word"
  shows "unat a div 4 * 4 + (unat a mod 4 * 16) div 16 = unat a"
    "unat a div 4 * 4 + (unat a mod 4 * 16 + unat b div 16) div 16 = unat a"
    "(unat a mod 4 * 16 + unat b div 16) mod 16 * 16 + (unat b mod 16 * 4) div 4 = unat b"
    "(unat a mod 4 * 16 + unat b div 16) mod 16 * 16 + (unat b mod 16 * 4 + unat c div 64) div 4 = unat b"
    "(unat b mod 16 * 4 + unat c div 64) mod 4 * 64 + unat c mod 64 = unat c"
  using byte_parts [of b] byte_parts [of c] by simp_all

lemma joined_nibbles: "word_of_nat (unat b div 16 mod 16) * 16 + word_of_nat (unat b mod 16) = (b :: 8 word)"
proof -
  have "unat b div 16 mod 16 * 16 + unat b mod 16 = unat b" using byte_parts [of b] by simp
  then have "word_of_nat (unat b div 16 mod 16 * 16 + unat b mod 16) = b" by simp
  then show ?thesis by simp
qed

lemma b64_loop_char:
  assumes "v < 64"
  shows "b64_loop strict quad left pads False (b64_char v # cs) =
     (if quad = 0 then b64_loop strict 1 v 0 False cs
      else if quad = 1 then map_option ((#) (of_nat (left * 4 + v div 16))) (b64_loop strict 2 (v mod 16) 0 False cs)
      else if quad = 2 then map_option ((#) (of_nat (left * 16 + v div 4))) (b64_loop strict 3 (v mod 4) 0 False cs)
      else map_option ((#) (of_nat (left * 64 + v))) (b64_loop strict 0 0 0 False cs))"
  using b64_value_char [OF assms] b64_char_not_pad [OF assms] by simp

lemma b64_loop_encode: "b64_loop strict 0 left 0 False (b64encode bs) = Some bs"
  by (induction bs arbitrary: left rule: b64encode.induct)
    (simp_all add: b64_loop_char joined_bytes del: b64_loop.simps(2) of_nat_add of_nat_mult div_mult_self1 div_mult_self2 div_mult_self3 mod_mult_self1 mod_mult_self2 mod_mult_self3,
     simp_all add: joined_nibbles)

text \<open>What was encoded is decoded again, with and without validation.\<close>

theorem b64_round_trip: "b64decode strict (b64encode bs) = Some bs"
proof -
  have "b64encode bs \<noteq> [] \<Longrightarrow> hd (b64encode bs) \<noteq> CHR ''=''" by (cases bs rule: b64encode.cases) (simp_all add: b64_char_not_pad)
  then show ?thesis by (auto simp: b64decode_def b64_loop_encode)
qed

lemma b64encode_ascii: "\<forall>c \<in> set (b64encode bs). (of_char c :: nat) < 128"
proof -
  have "\<forall>i < 64. (of_char (b64_char i) :: nat) < 128"
  proof (intro allI impI)
    fix i :: nat assume "i < 64"
    then show "(of_char (b64_char i) :: nat) < 128" using b64_value_char [of i] by (auto simp: b64_value_def Let_def split: if_splits)
  qed
  then show ?thesis by (induction bs rule: b64encode.induct) simp_all
qed

end
