(* ===== verification/BrokerClient.thy ===== *)
theory BrokerClient
  imports BrokerService Base64
begin

text \<open>
  \<open>sandbox/control/broker.py\<close>: the backend's client of the broker, and its composition with the service of
  \<open>BrokerService\<close>.

  A message on the wire is represented by the JSON value it encodes: the client sends the signed envelope, the
  answer arrives as the value it decodes to, or \<open>None\<close> when it does not decode. Dictionaries are looked up by key or
  rendered with sorted keys, so the order in which a decoder lists them plays no part. The random nonce, the clock
  reading, the transport and the decoders of base64 data are arguments. Exceptions that are no sandbox errors carry
  their class in the code field.
\<close>

section \<open>Status\<close>

datatype BrokerStatusFailureCode = UNAVAILABLE | NOT_INSTALLED | SERVICE_CONFIGURATION_INVALID | READY_MARKER_UNAVAILABLE
  | READY_MARKER_INVALID | PROXY_CONFIGURATION_INVALID | INSTALLATION_KEY_MISSING | PIPE_UNAVAILABLE | PROTOCOL_INCOMPATIBLE
  | TOKEN_MODEL_INCOMPATIBLE | GENERATION_MISMATCH | RESPONSE_INVALID | RESPONSE_AUTHENTICATION_FAILED | UNHEALTHY | STATUS_FAILED

fun failure_code_value :: "BrokerStatusFailureCode \<Rightarrow> string" where
  "failure_code_value UNAVAILABLE = ''broker_unavailable''"
| "failure_code_value NOT_INSTALLED = ''broker_not_installed''"
| "failure_code_value SERVICE_CONFIGURATION_INVALID = ''broker_service_configuration_invalid''"
| "failure_code_value READY_MARKER_UNAVAILABLE = ''broker_ready_marker_unavailable''"
| "failure_code_value READY_MARKER_INVALID = ''broker_ready_marker_invalid''"
| "failure_code_value PROXY_CONFIGURATION_INVALID = ''broker_proxy_configuration_invalid''"
| "failure_code_value INSTALLATION_KEY_MISSING = ''broker_installation_key_missing''"
| "failure_code_value PIPE_UNAVAILABLE = ''broker_pipe_unavailable''"
| "failure_code_value PROTOCOL_INCOMPATIBLE = ''broker_protocol_incompatible''"
| "failure_code_value TOKEN_MODEL_INCOMPATIBLE = ''broker_token_model_incompatible''"
| "failure_code_value GENERATION_MISMATCH = ''broker_generation_mismatch''"
| "failure_code_value RESPONSE_INVALID = ''broker_response_invalid''"
| "failure_code_value RESPONSE_AUTHENTICATION_FAILED = ''broker_response_authentication_failed''"
| "failure_code_value UNHEALTHY = ''broker_unhealthy''"
| "failure_code_value STATUS_FAILED = ''broker_status_failed''"

definition EXACT_CODES :: "(string \<times> BrokerStatusFailureCode) list" where
  "EXACT_CODES =
     [(''Windows Broker is unavailable'', UNAVAILABLE), (''Windows Broker is not installed'', NOT_INSTALLED),
      (''Broker service configuration requires repair'', SERVICE_CONFIGURATION_INVALID),
      (''Broker ready marker is unavailable'', READY_MARKER_UNAVAILABLE), (''Broker proxy port requires repair'', PROXY_CONFIGURATION_INVALID),
      (''Broker installation key is missing'', INSTALLATION_KEY_MISSING), (''Broker installation key is unavailable'', INSTALLATION_KEY_MISSING),
      (''Windows Broker pipe is unavailable'', PIPE_UNAVAILABLE), (''Broker protocol version requires repair'', PROTOCOL_INCOMPATIBLE),
      (''Broker token model requires repair'', TOKEN_MODEL_INCOMPATIBLE), (''Broker generation requires repair'', GENERATION_MISMATCH)]"

definition broker_status_failure_code :: "string \<Rightarrow> BrokerStatusFailureCode" where
  "broker_status_failure_code detail = (case map_of EXACT_CODES detail of
      Some c \<Rightarrow> c
    | None \<Rightarrow>
        if prefix ''Broker ready marker '' detail \<or> detail = ''Broker credential generation is invalid'' then READY_MARKER_INVALID
        else if detail \<in> {''Windows Broker returned invalid data'', ''Windows Broker response replay detected'',
            ''Windows Broker returned an invalid error'', ''Windows Broker returned an unknown error''} then RESPONSE_INVALID
        else if detail = ''Windows Broker response authentication failed'' then RESPONSE_AUTHENTICATION_FAILED
        else STATUS_FAILED)"

record BrokerStatus =
  bst_installed :: bool
  bst_healthy :: bool
  bst_code :: "BrokerStatusFailureCode option"
  bst_version :: "string option"
  bst_installation_id :: "string option"
  bst_detail :: "string option"
  bst_generation :: "string option"
  bst_proxy_port :: "int option"
  bst_token_model :: "string option"

definition opt_str :: "string option \<Rightarrow> pyval" where
  "opt_str v = (case v of None \<Rightarrow> PNone | Some s \<Rightarrow> PStr s)"

definition status_to_dict :: "BrokerStatus \<Rightarrow> pydict" where
  "status_to_dict b = [(''installed'', PBool (bst_installed b)), (''healthy'', PBool (bst_healthy b)),
     (''code'', opt_str (map_option failure_code_value (bst_code b))), (''version'', opt_str (bst_version b)),
     (''installation_id'', opt_str (bst_installation_id b)), (''detail'', opt_str (bst_detail b)), (''generation'', opt_str (bst_generation b)),
     (''proxy_port'', case bst_proxy_port b of None \<Rightarrow> PNone | Some i \<Rightarrow> PInt i), (''token_model'', opt_str (bst_token_model b))]"

definition failed_status :: "bool \<Rightarrow> BrokerStatusFailureCode \<Rightarrow> string \<Rightarrow> BrokerStatus" where
  "failed_status installed code detail = \<lparr>bst_installed = installed, bst_healthy = False, bst_code = Some code, bst_version = None,
     bst_installation_id = None, bst_detail = Some detail, bst_generation = None, bst_proxy_port = None, bst_token_model = None\<rparr>"

section \<open>Requests\<close>

record client =
  cl_key :: "string option"
  cl_has_transport :: bool
  cl_is_windows :: bool
  cl_backend_instance_id :: string
  cl_ttl :: int
  cl_seen_nonces :: "string set"

definition new_client :: "string option \<Rightarrow> bool \<Rightarrow> bool \<Rightarrow> string \<Rightarrow> int \<Rightarrow> broker_error + client" where
  "new_client key transport windows backend ttl =
     bind_result (ensure (1 \<le> ttl \<and> ttl \<le> 60) (BrokerError ''ValueError'' ''request_ttl_seconds must be between 1 and 60'')) (\<lambda>_.
       Inr \<lparr>cl_key = key, cl_has_transport = transport, cl_is_windows = windows, cl_backend_instance_id = backend, cl_ttl = ttl,
            cl_seen_nonces = {}\<rparr>)"

definition available :: "client \<Rightarrow> bool" where
  "available c \<longleftrightarrow> cl_has_transport c \<or> cl_is_windows c"

text \<open>What the client needs of its surroundings for one request: the way to the broker, the keyed hash, the redaction of
  texts, and the next nonce and clock reading.\<close>

record 's wire =
  wr_send :: "pydict \<Rightarrow> 's \<Rightarrow> 's \<times> (broker_error + pyval option)"
  wr_mac :: "string \<Rightarrow> string \<Rightarrow> string"
  wr_redact :: "string \<Rightarrow> string"
  wr_nonce :: string
  wr_clock :: int

definition client_sign :: "'s wire \<Rightarrow> client \<Rightarrow> string \<Rightarrow> broker_error + string" where
  "client_sign x c text = (case cl_key c of None \<Rightarrow> Inl (init_error ''Broker installation key is missing'') | Some k \<Rightarrow> Inr (wr_mac x k text))"

definition FAILURE_CODES :: "string list" where
  "FAILURE_CODES = [''init_failed'', ''policy_failed'', ''resource_exceeded'', ''admission_timeout'', ''cleanup_pending'']"

definition raise_remote_error :: "'s wire \<Rightarrow> pyval \<Rightarrow> broker_error" where
  "raise_remote_error x v = (case v of
      PDict d \<Rightarrow>
        if py_str (py_get d ''code'') \<notin> set FAILURE_CODES then init_error ''Windows Broker returned an unknown error''
        else BrokerError (py_str (py_get d ''code''))
          (wr_redact x (let m = get_str d ''message'' in if m = [] then ''Windows Broker operation failed'' else m))
    | _ \<Rightarrow> init_error ''Windows Broker returned an invalid error'')"

definition envelope :: "string \<Rightarrow> string \<Rightarrow> int \<Rightarrow> int \<Rightarrow> pydict \<Rightarrow> pydict" where
  "envelope operation nonce issued ttl body = [(''operation'', PStr operation), (''nonce'', PStr nonce), (''issued_at'', PInt issued),
     (''expires_at'', PInt (issued + ttl)), (''body'', PDict body)]"

text \<open>The checks on the decoded answer.\<close>

definition accept_response :: "'s wire \<Rightarrow> client \<Rightarrow> string \<Rightarrow> pyval option \<Rightarrow> broker_error + pydict" where
  "accept_response x c nonce answer = (case answer of
      None \<Rightarrow> Inl (init_error ''Windows Broker returned invalid data'')
    | Some (PDict d) \<Rightarrow>
        if py_get d ''nonce'' \<noteq> PStr nonce then Inl (init_error ''Windows Broker response replay detected'')
        else let response = AList.delete ''hmac'' d in
          (case map_of d ''hmac'' of
             Some (PStr sig) \<Rightarrow>
               bind_result (client_sign x c (canonical response)) (\<lambda>expected.
               bind_result (compare_digest sig expected) (\<lambda>ok.
               bind_result (ensure ok (init_error ''Windows Broker response authentication failed'')) (\<lambda>_.
                 if py_get response ''error'' \<noteq> PNone then Inl (raise_remote_error x (py_get response ''error'')) else Inr response)))
           | _ \<Rightarrow> Inl (init_error ''Windows Broker response authentication failed''))
    | Some _ \<Rightarrow> Inl (init_error ''Windows Broker response replay detected''))"

type_synonym ('s, 'r) client_call = "client \<times> 's \<Rightarrow> (client \<times> 's) \<times> (broker_error + 'r)"

definition request :: "'s wire \<Rightarrow> string \<Rightarrow> pydict \<Rightarrow> ('s, pydict) client_call" where
  "request x operation body = (\<lambda>(c, s).
     if \<not> available c then ((c, s), Inl (init_error ''Windows Broker is not installed''))
     else if wr_nonce x \<in> cl_seen_nonces c then ((c, s), Inl (init_error ''Broker nonce collision''))
     else
       let c1 = c\<lparr>cl_seen_nonces := insert (wr_nonce x) (cl_seen_nonces c)\<rparr>;
           e = envelope operation (wr_nonce x) (wr_clock x) (cl_ttl c) body in
       case client_sign x c1 (canonical e) of
         Inl err \<Rightarrow> ((c1, s), Inl err)
       | Inr sig \<Rightarrow> (case wr_send x (e @ [(''hmac'', PStr sig)]) s of
             (s', Inl err) \<Rightarrow> ((c1, s'), Inl err)
           | (s', Inr answer) \<Rightarrow> ((c1, s'), accept_response x c1 (wr_nonce x) answer)))"

section \<open>Operations\<close>

definition check_answer :: "(pydict \<Rightarrow> bool) \<Rightarrow> string \<Rightarrow> ('s, pydict) client_call \<Rightarrow> ('s, pydict) client_call" where
  "check_answer ok msg call st = (case call st of (st', Inr r) \<Rightarrow> (st', if ok r then Inr r else Inl (init_error msg)) | (st', Inl e) \<Rightarrow> (st', Inl e))"

definition is_text :: "pyval \<Rightarrow> bool" where
  "is_text v = (case v of PStr _ \<Rightarrow> True | _ \<Rightarrow> False)"

definition reservation_ok :: "pydict \<Rightarrow> bool" where
  "reservation_ok r \<longleftrightarrow> truthy (py_get r ''reserved'') \<and> is_text (py_get r ''reservation_id'') \<and> is_text (py_get r ''logon_sid'')
     \<and> (case py_get r ''capability_sids'' of PDict d \<Rightarrow> is_text (py_get d ''workspace'') \<and> is_text (py_get d ''temp'') | _ \<Rightarrow> False)
     \<and> text_field r ''capability_digest'' \<noteq> None"

definition client_reserve :: "'s wire \<Rightarrow> pydict \<Rightarrow> string \<Rightarrow> string \<Rightarrow> ('s, pydict) client_call" where
  "client_reserve x policy digest user st = check_answer reservation_ok ''Windows Broker did not return a reservation''
     (request x ''reserve'' [(''policy'', PDict policy), (''policy_hash'', PStr digest),
       (''backend_instance_id'', PStr (cl_backend_instance_id (fst st))), (''user_id'', PStr user)]) st"

record managed_process =
  mp_process_id :: string
  mp_pid :: int
  mp_stdin :: bool
  mp_stdout :: bool
  mp_stderr :: bool
  mp_returncode :: "int option"

definition managed_of :: "pydict \<Rightarrow> broker_error + managed_process" where
  "managed_of r =
     (if \<not> truthy (py_get r ''accepted'') then Inl (init_error ''Windows Broker rejected sandbox launch'')
      else case (text_field r ''process_id'', py_get r ''pid'') of
          (Some pid_text, PInt pid) \<Rightarrow>
            Inr \<lparr>mp_process_id = pid_text, mp_pid = pid, mp_stdin = (py_get r ''stdin'' = PStr ''pipe''), mp_stdout = (py_get r ''stdout'' = PStr ''pipe''),
                 mp_stderr = (py_get r ''stderr'' = PStr ''pipe''), mp_returncode = None\<rparr>
        | _ \<Rightarrow> Inl (init_error ''Windows Broker did not return a process handle''))"

record launch_args =
  la_argv :: "string list"
  la_cwd :: string
  la_environment :: "(string \<times> string) list"
  la_reservation_id :: string
  la_policy_hash :: string
  la_capability_digest :: string
  la_user_id :: string

definition client_launch :: "'s wire \<Rightarrow> launch_args \<Rightarrow> ('s, managed_process) client_call" where
  "client_launch x a st =
     (case request x ''launch'' [(''argv'', PList (map PStr (la_argv a))), (''cwd'', PStr (la_cwd a)),
         (''environment'', PDict (map (\<lambda>(k, v). (k, PStr v)) (la_environment a))), (''reservation_id'', PStr (la_reservation_id a)),
         (''policy_hash'', PStr (la_policy_hash a)), (''capability_digest'', PStr (la_capability_digest a)),
         (''backend_instance_id'', PStr (cl_backend_instance_id (fst st))), (''user_id'', PStr (la_user_id a))] st of
        (st', Inl e) \<Rightarrow> (st', Inl e)
      | (st', Inr r) \<Rightarrow> (st', managed_of r))"

definition reclaim_stale :: "'s wire \<Rightarrow> ('s, string list) client_call" where
  "reclaim_stale x st = (case request x ''reclaim'' [(''backend_instance_id'', PStr (cl_backend_instance_id (fst st)))] st of
      (st', Inl e) \<Rightarrow> (st', Inl e)
    | (st', Inr r) \<Rightarrow> (st', case py_get r ''reclaimed'' of
          PList xs \<Rightarrow> if list_all is_text xs then Inr (map py_str xs) else Inl (init_error ''Windows Broker returned invalid reclaim data'')
        | _ \<Rightarrow> Inl (init_error ''Windows Broker returned invalid reclaim data'')))"

definition client_release :: "'s wire \<Rightarrow> string \<Rightarrow> string \<Rightarrow> ('s, pydict) client_call" where
  "client_release x job user st = check_answer (\<lambda>r. truthy (py_get r ''released'')) ''Windows Broker did not release the Job''
     (request x ''release'' [(''backend_instance_id'', PStr (cl_backend_instance_id (fst st))), (''user_id'', PStr user), (''job_id'', PStr job)]) st"

text \<open>The installer's answers and the ready marker: \<open>None\<close> where the client has no installer or no marker path.\<close>

record install_probe =
  ip_installed :: "(broker_error + bool) option"
  ip_configuration :: "(broker_error + bool) option"
  ip_marker :: "(broker_error + pydict) option"
  ip_has_installer :: bool

definition opt_text :: "pydict \<Rightarrow> string \<Rightarrow> string option" where
  "opt_text d k = (if truthy (py_get d k) then Some (py_str (py_get d k)) else None)"

text \<open>The part of \<open>status\<close> inside its \<open>try\<close>, after the installation check.\<close>

definition status_of_payload :: "bool \<Rightarrow> install_probe \<Rightarrow> pydict \<Rightarrow> pydict \<Rightarrow> broker_error + BrokerStatus" where
  "status_of_payload installed p marker payload =
     bind_result (ensure (py_eq (py_get payload ''version'') (PStr ''3'')) (init_error ''Broker protocol version requires repair'')) (\<lambda>_.
     bind_result (ensure (py_eq (py_get payload ''token_model'') (PStr ''capability_sid_v3'')) (init_error ''Broker token model requires repair'')) (\<lambda>_.
     bind_result (ensure (marker = [] \<or> py_eq (py_get payload ''generation'') (py_get marker ''generation'')) (init_error ''Broker generation requires repair'')) (\<lambda>_.
     let healthy = truthy (py_get payload ''healthy'') in
     Inr \<lparr>bst_installed = (if ip_has_installer p then installed else truthy (py_get payload ''installed'')), bst_healthy = healthy,
          bst_code = (if healthy then None else Some UNHEALTHY), bst_version = opt_text payload ''version'',
          bst_installation_id = opt_text payload ''installation_id'',
          bst_detail = (if healthy then None else Some (case opt_text payload ''detail'' of Some d \<Rightarrow> if d = [] then ''Broker reported unhealthy status'' else d | None \<Rightarrow> ''Broker reported unhealthy status'')),
          bst_generation = opt_text payload ''generation'',
          bst_proxy_port = (case py_get payload ''proxy_port'' of PInt i \<Rightarrow> Some i | PBool b \<Rightarrow> Some (if b then 1 else 0) | _ \<Rightarrow> None),
          bst_token_model = opt_text payload ''token_model''\<rparr>)))"

definition status_failure :: "'s wire \<Rightarrow> bool \<Rightarrow> broker_error \<Rightarrow> BrokerStatus" where
  "status_failure x installed e = failed_status installed (broker_status_failure_code (be_message e)) (wr_redact x (be_message e))"

definition configuration_error :: "install_probe \<Rightarrow> broker_error + unit" where
  "configuration_error p = (case ip_configuration p of None \<Rightarrow> Inr () | Some (Inl e) \<Rightarrow> Inl e
     | Some (Inr ok) \<Rightarrow> ensure ok (init_error ''Broker service configuration requires repair''))"

definition client_status :: "'s wire \<Rightarrow> install_probe \<Rightarrow> client \<times> 's \<Rightarrow> (client \<times> 's) \<times> BrokerStatus" where
  "client_status x p st =
     (if \<not> available (fst st) then (st, failed_status False UNAVAILABLE ''Windows Broker is unavailable'')
      else case ip_installed p of
          Some (Inl e) \<Rightarrow> (st, status_failure x True e)
        | Some (Inr False) \<Rightarrow> (st, failed_status False NOT_INSTALLED ''Windows Broker is not installed'')
        | _ \<Rightarrow>
            (case bind_result (configuration_error p) (\<lambda>_. case ip_marker p of None \<Rightarrow> Inr [] | Some r \<Rightarrow> r) of
               Inl e \<Rightarrow> (st, status_failure x True e)
             | Inr marker \<Rightarrow>
                 (case request x ''status'' [] st of
                    (st', Inl e) \<Rightarrow> (st', status_failure x True e)
                  | (st', Inr payload) \<Rightarrow> (st', case status_of_payload True p marker payload of Inl e \<Rightarrow> status_failure x True e | Inr b \<Rightarrow> b))))"

section \<open>A process behind the broker\<close>

definition merge_values :: "pydict \<Rightarrow> pydict \<Rightarrow> pydict" where
  "merge_values d vals = foldl (\<lambda>acc (k, v). AList.update k v acc) d vals"

definition process_control :: "'s wire \<Rightarrow> managed_process \<Rightarrow> string \<Rightarrow> pydict \<Rightarrow> ('s, pydict) client_call" where
  "process_control x p operation vals st = request x operation
     (merge_values [(''process_id'', PStr (mp_process_id p)), (''backend_instance_id'', PStr (cl_backend_instance_id (fst st)))] vals) st"

definition capture_returncode :: "pydict \<Rightarrow> managed_process \<Rightarrow> managed_process \<times> (broker_error + int option)" where
  "capture_returncode r p = (case py_get r ''returncode'' of
      PNone \<Rightarrow> (p, Inr None)
    | PInt i \<Rightarrow> (p\<lparr>mp_returncode := Some i\<rparr>, Inr (Some i))
    | _ \<Rightarrow> (p, Inl (BrokerError ''OSError'' ''Broker process returned an invalid exit code'')))"

definition process_poll :: "'s wire \<Rightarrow> managed_process \<Rightarrow> client \<times> 's \<Rightarrow> (client \<times> 's) \<times> managed_process \<times> (broker_error + int option)" where
  "process_poll x p st = (case process_control x p ''process_poll'' [] st of
      (st', Inl e) \<Rightarrow> (st', p, Inl e) | (st', Inr r) \<Rightarrow> (st', capture_returncode r p))"

definition process_wait :: "'s wire \<Rightarrow> managed_process \<Rightarrow> pyval \<Rightarrow> client \<times> 's \<Rightarrow> (client \<times> 's) \<times> managed_process \<times> (broker_error + int)" where
  "process_wait x p timeout st = (case process_control x p ''process_wait'' [(''timeout'', timeout)] st of
      (st', Inl e) \<Rightarrow> (st', p, Inl e)
    | (st', Inr r) \<Rightarrow> (case capture_returncode r p of
          (p', Inl e) \<Rightarrow> (st', p', Inl e)
        | (p', Inr None) \<Rightarrow> (st', p', Inl (BrokerError ''TimeoutExpired'' ''sandbox-process''))
        | (p', Inr (Some i)) \<Rightarrow> (st', p', Inr i)))"

definition process_stop :: "'s wire \<Rightarrow> managed_process \<Rightarrow> string \<Rightarrow> client \<times> 's \<Rightarrow> (client \<times> 's) \<times> managed_process \<times> (broker_error + unit)" where
  "process_stop x p operation st = (case process_control x p operation [] st of
      (st', Inl e) \<Rightarrow> (st', p, Inl e)
    | (st', Inr r) \<Rightarrow> (case capture_returncode r p of (p', res) \<Rightarrow> (st', p', case res of Inl e \<Rightarrow> Inl e | Inr _ \<Rightarrow> Inr ())))"

text \<open>\<open>b64decode\<close> of the ASCII bytes of a field, without validation; what is not ASCII or not base64 raises.\<close>

definition decode_field :: "string \<Rightarrow> broker_error + bytes" where
  "decode_field s = (if \<exists>c \<in> set s. (of_char c :: nat) \<ge> 128 then Inl (BrokerError ''ValueError'' ''ordinal not in range(128)'')
     else case b64decode False s of None \<Rightarrow> Inl (BrokerError ''ValueError'' ''Incorrect padding'') | Some bs \<Rightarrow> Inr bs)"

definition stream_data :: "pydict \<Rightarrow> broker_error + bytes" where
  "stream_data r = (case py_get r ''data'' of PStr s \<Rightarrow> decode_field s | _ \<Rightarrow> Inl (BrokerError ''OSError'' ''Broker process stream returned invalid data''))"

definition read_values :: "string \<Rightarrow> int option \<Rightarrow> pydict" where
  "read_values stream n = [(''stream'', PStr stream), (''size'', PInt (case n of Some k \<Rightarrow> if k < 0 then 65536 else k | None \<Rightarrow> 65536))]"

definition stream_read :: "'s wire \<Rightarrow> managed_process \<Rightarrow> string \<Rightarrow> int option \<Rightarrow> ('s, bytes) client_call" where
  "stream_read x p stream n st = (case process_control x p ''process_read'' (read_values stream n) st of
      (st', Inl e) \<Rightarrow> (st', Inl e) | (st', Inr r) \<Rightarrow> (st', stream_data r))"

definition write_values :: "bytes \<Rightarrow> pydict" where
  "write_values bs = [(''data'', PStr (b64encode bs))]"

definition stream_write :: "'s wire \<Rightarrow> managed_process \<Rightarrow> bytes \<Rightarrow> ('s, int) client_call" where
  "stream_write x p bs st = (case process_control x p ''process_write'' (write_values bs) st of
      (st', Inl e) \<Rightarrow> (st', Inl e)
    | (st', Inr r) \<Rightarrow> (st', case py_int (case map_of r ''written'' of None \<Rightarrow> PInt (int (length bs)) | Some v \<Rightarrow> v) of
          Some i \<Rightarrow> Inr i | None \<Rightarrow> Inl (BrokerError ''ValueError'' ''written is not a number'')))"

definition stream_close :: "'s wire \<Rightarrow> managed_process \<Rightarrow> ('s, pydict) client_call" where
  "stream_close x p = process_control x p ''process_close_stdin'' []"

definition communicate_values :: "bytes option \<Rightarrow> pyval \<Rightarrow> pydict" where
  "communicate_values inp timeout = [(''input'', case inp of None \<Rightarrow> PNone | Some bs \<Rightarrow> PStr (b64encode bs)), (''timeout'', timeout)]"

definition output_field :: "pydict \<Rightarrow> string \<Rightarrow> broker_error + bytes option" where
  "output_field r name = (case py_get r name of PStr s \<Rightarrow> bind_result (decode_field s) (\<lambda>bs. Inr (Some bs)) | _ \<Rightarrow> Inr None)"

definition process_communicate :: "'s wire \<Rightarrow> managed_process \<Rightarrow> bytes option \<Rightarrow> pyval \<Rightarrow> client \<times> 's
    \<Rightarrow> (client \<times> 's) \<times> managed_process \<times> (broker_error + (bytes option \<times> bytes option))" where
  "process_communicate x p inp timeout st = (case process_control x p ''process_communicate'' (communicate_values inp timeout) st of
      (st', Inl e) \<Rightarrow> (st', p, Inl e)
    | (st', Inr r) \<Rightarrow> (case capture_returncode r p of
          (p', Inl e) \<Rightarrow> (st', p', Inl e)
        | (p', Inr None) \<Rightarrow> (st', p', Inl (BrokerError ''TimeoutExpired'' ''sandbox-process''))
        | (p', Inr (Some _)) \<Rightarrow> (st', p',
            bind_result (output_field r ''stdout'') (\<lambda>out. bind_result (output_field r ''stderr'') (\<lambda>err. Inr (out, err))))))"

section \<open>The client against the service\<close>

text \<open>The service as the other end of the wire.\<close>

definition service_wire :: "'a broker_host \<Rightarrow> int \<Rightarrow> string \<Rightarrow> int \<Rightarrow> 'a broker wire" where
  "service_wire h now nonce clock = \<lparr>wr_send = (\<lambda>d s. case handle h now (Some (PDict d)) s of (s', Inl e) \<Rightarrow> (s', Inl e)
       | (s', Inr response) \<Rightarrow> (s', Inr (Some (PDict response)))),
     wr_mac = bh_mac h, wr_redact = bh_redact h, wr_nonce = nonce, wr_clock = clock\<rparr>"

definition ascii_mac :: "(string \<Rightarrow> string \<Rightarrow> string) \<Rightarrow> bool" where
  "ascii_mac mac \<longleftrightarrow> (\<forall>key m. \<forall>c \<in> set (mac key m). (of_char c :: nat) < 128)"

lemma compare_digest_same: "ascii_mac mac \<Longrightarrow> compare_digest (mac k m) (mac k m) = Inr True"
  by (simp add: ascii_mac_def compare_digest_def)

definition request_of :: "string \<Rightarrow> string \<Rightarrow> int \<Rightarrow> int \<Rightarrow> pydict \<Rightarrow> string \<Rightarrow> broker_request" where
  "request_of operation nonce clock ttl body sig = \<lparr>rq_operation = operation, rq_nonce = nonce, rq_issued_at = clock, rq_expires_at = clock + ttl,
     rq_signature = sig, rq_body = body\<rparr>"

lemma parse_envelope:
  assumes "operation \<noteq> []" "nonce \<noteq> []"
  shows "parse_request (Some (PDict (envelope operation nonce clock ttl body @ [(''hmac'', PStr sig)]))) = Inr (request_of operation nonce clock ttl body sig)"
  using assms by (simp add: parse_request_def envelope_def text_field_def request_of_def)

lemma update_new: "k \<notin> keys d \<Longrightarrow> AList.update k v d = d @ [(k, v)]"
  by (induction d) auto

lemma foldl_update_new:
  "distinct (map fst kvs) \<Longrightarrow> keys d \<inter> keys kvs = {} \<Longrightarrow> foldl (\<lambda>d (k, v). AList.update k v d) d kvs = d @ kvs"
proof (induction kvs arbitrary: d)
  case (Cons p kvs)
  obtain k v where p: "p = (k, v)" by (cases p)
  have "AList.update k v d = d @ [(k, v)]" using Cons.prems(2) p by (intro update_new) auto
  moreover have "keys (d @ [(k, v)]) \<inter> keys kvs = {}" using Cons.prems p by auto
  ultimately show ?case using Cons.IH [of "d @ [(k, v)]"] Cons.prems(1) p by simp
qed simp

lemma delete_last: "k \<notin> keys d \<Longrightarrow> AList.delete k (d @ [(k, v)]) = d"
  by (induction d) auto

lemma accept_response_ok:
  assumes "py_get d ''nonce'' = PStr nonce" "map_of d ''hmac'' = Some (PStr sig)" "AList.delete ''hmac'' d = r"
    "client_sign x c (canonical r) = Inr sig" "compare_digest sig sig = Inr True"
  shows "accept_response x c nonce (Some (PDict d)) =
    (if py_get r ''error'' \<noteq> PNone then Inl (raise_remote_error x (py_get r ''error'')) else Inr r)"
  using assms by (simp add: accept_response_def Let_def)

text \<open>The broker's answer, as the client sees it.\<close>

lemma accept_signed:
  assumes "cl_key c = Some k" "ascii_mac mac" "wr_mac x = mac" "bh_mac h = mac"
    and "distinct (map fst result)" "''nonce'' \<notin> keys result" "''hmac'' \<notin> keys result"
  shows "accept_response x c nonce (Some (PDict (sign_response h k nonce result))) =
    (if py_get result ''error'' \<noteq> PNone then Inl (raise_remote_error x (py_get result ''error'')) else Inr ((''nonce'', PStr nonce) # result))"
proof -
  let ?r = "(''nonce'', PStr nonce) # result"
  have m: "foldl (\<lambda>d (k, v). AList.update k v d) [(''nonce'', PStr nonce)] result = ?r"
    using foldl_update_new [of result "[(''nonce'', PStr nonce)]"] assms(5,6) by auto
  have h: "''hmac'' \<notin> keys ?r" using assms(7) by auto
  have f: "filter (\<lambda>(k, v). k \<noteq> ''hmac'') ?r = ?r" using h by (force simp: filter_id_conv)
  let ?sig = "mac k (canonical ?r)"
  have s: "sign_response h k nonce result = ?r @ [(''hmac'', PStr ?sig)]"
    unfolding sign_response_def m Let_def f assms(4) by (rule update_new [OF h])
  have d: "AList.delete ''hmac'' (?r @ [(''hmac'', PStr ?sig)]) = ?r"
    by (rule delete_last [OF h])
  have "map_of (?r @ [(''hmac'', PStr ?sig)]) ''hmac'' = Some (PStr ?sig)"
    using h by (simp add: map_of_append map_add_def map_of_eq_None_iff [THEN iffD2])
  moreover have "py_get (?r @ [(''hmac'', PStr ?sig)]) ''nonce'' = PStr nonce" by (simp add: py_get_def)
  moreover have "client_sign x c (canonical ?r) = Inr ?sig" using assms(1,3) by (simp add: client_sign_def)
  moreover have "py_get ?r ''error'' = py_get result ''error''" by (simp add: py_get_def)
  ultimately show ?thesis
    unfolding s using accept_response_ok [OF _ _ d] compare_digest_same [OF assms(2), of k "canonical ?r"] by metis
qed

text \<open>C20. Client and broker agree: with the same key, clocks that differ by at most the allowed skew and lifetime and a
  fresh nonce, a request of the client passes every check of the broker and the broker's answer passes every check of
  the client; the operation is performed exactly once, and the client returns its result, or raises the error the
  broker reported.\<close>

theorem request_end_to_end:
  assumes "cl_key c = Some k" "broker_key h s = Inr k" "ascii_mac (bh_mac h)" "available c"
    and "operation \<noteq> []" "nonce \<noteq> []" "nonce \<notin> cl_seen_nonces c" "nonce \<notin> keys (filter (\<lambda>(n, x). x \<ge> now) (br_nonces s))"
    and "1 \<le> cl_ttl c" "cl_ttl c \<le> 60" "clock \<le> now + 5" "now \<le> clock + cl_ttl c"
    and "perform h (request_of operation nonce clock (cl_ttl c) body (bh_mac h k (canonical (envelope operation nonce clock (cl_ttl c) body))))
        (s\<lparr>br_nonces := AList.update nonce (clock + cl_ttl c) (filter (\<lambda>(n, x). x \<ge> now) (br_nonces s))\<rparr>) = (s', result)"
    and "distinct (map fst result)" "''nonce'' \<notin> keys result" "''hmac'' \<notin> keys result"
  shows "request (service_wire h now nonce clock) operation body (c, s) =
    ((c\<lparr>cl_seen_nonces := insert nonce (cl_seen_nonces c)\<rparr>, s'),
     if py_get result ''error'' \<noteq> PNone then Inl (raise_remote_error (service_wire h now nonce clock) (py_get result ''error''))
     else Inr ((''nonce'', PStr nonce) # result))"
proof -
  let ?x = "service_wire h now nonce clock" and ?e = "envelope operation nonce clock (cl_ttl c) body"
  let ?sig = "bh_mac h k (canonical ?e)"
  let ?q = "request_of operation nonce clock (cl_ttl c) body ?sig" and ?c = "c\<lparr>cl_seen_nonces := insert nonce (cl_seen_nonces c)\<rparr>"
  let ?s = "s\<lparr>br_nonces := AList.update nonce (clock + cl_ttl c) (filter (\<lambda>(n, x). x \<ge> now) (br_nonces s))\<rparr>"
  have u: "unsigned_request ?q = ?e" by (simp add: unsigned_request_def request_of_def envelope_def)
  have "check_times now ?q = Inr ()"
    using assms(9-12) by (simp add: check_times_def request_of_def MAX_CLOCK_SKEW_SECONDS_def MAX_REQUEST_TTL_SECONDS_def)
  moreover have "authenticate h k ?q = Inr ()"
    unfolding authenticate_def u using compare_digest_same [OF assms(3)] by (simp add: request_of_def)
  moreover have "claim_nonce now ?q s = (?s, Inr ())" using assms(8) by (simp add: claim_nonce_def request_of_def Let_def)
  ultimately have "admit_request h now (Some (PDict (?e @ [(''hmac'', PStr ?sig)]))) s = (?s, Inr (k, ?q))"
    unfolding admit_request_Inr using parse_envelope [OF assms(5,6)] assms(2) by simp
  then have hd: "handle h now (Some (PDict (?e @ [(''hmac'', PStr ?sig)]))) s = (s', Inr (sign_response h k nonce result))"
    using assms(13) by (simp add: handle_def bind_action_def request_of_def)
  have "client_sign ?x ?c (canonical ?e) = Inr ?sig" using assms(1) by (simp add: client_sign_def service_wire_def)
  moreover have "wr_send ?x (?e @ [(''hmac'', PStr ?sig)]) s = (s', Inr (Some (PDict (sign_response h k nonce result))))"
    using hd by (simp add: service_wire_def)
  moreover have "accept_response ?x ?c nonce (Some (PDict (sign_response h k nonce result))) =
      (if py_get result ''error'' \<noteq> PNone then Inl (raise_remote_error ?x (py_get result ''error'')) else Inr ((''nonce'', PStr nonce) # result))"
    using assms(1,3,14-16) by (intro accept_signed [where mac = "bh_mac h"]) (simp_all add: service_wire_def)
  moreover have "wr_nonce ?x = nonce" "wr_clock ?x = clock" by (simp_all add: service_wire_def)
  moreover have "available ?c" using assms(4) by (simp add: available_def)
  ultimately show ?thesis using assms(4,7) by (simp add: request_def Let_def)
qed

definition sample_client :: client where
  "sample_client = \<lparr>cl_key = Some ''k'', cl_has_transport = True, cl_is_windows = False, cl_backend_instance_id = ''b'', cl_ttl = 30, cl_seen_nonces = {}\<rparr>"

theorem request_end_to_end_witness:
  "\<exists>s' result. request (service_wire ascii_host 101 ''n1'' 100) ''status'' [] (sample_client, sample_broker) =
      ((sample_client\<lparr>cl_seen_nonces := {''n1''}\<rparr>, s'), Inr ((''nonce'', PStr ''n1'') # result)) \<and> map_of result ''healthy'' = Some (PBool True)"
proof -
  let ?q = "request_of ''status'' ''n1'' 100 (cl_ttl sample_client) [] (bh_mac ascii_host ''k'' (canonical (envelope ''status'' ''n1'' 100 (cl_ttl sample_client) [])))"
  let ?s = "sample_broker\<lparr>br_nonces := AList.update ''n1'' (100 + cl_ttl sample_client) (filter (\<lambda>(n, x). x \<ge> 101) (br_nonces sample_broker))\<rparr>"
  have st: "dispatch_status ?s = dispatch_status sample_broker" by (simp add: dispatch_status_def)
  obtain s' where p: "perform ascii_host ?q ?s = (s', dispatch_status sample_broker)"
    by (auto simp: perform_def broker_dispatch_def request_of_def st)
  have "cl_key sample_client = Some ''k''" "broker_key ascii_host sample_broker = Inr ''k''" "ascii_mac (bh_mac ascii_host)" "available sample_client"
    "''n1'' \<notin> cl_seen_nonces sample_client" "''n1'' \<notin> keys (filter (\<lambda>(n, x). x \<ge> 101) (br_nonces sample_broker))"
    "1 \<le> cl_ttl sample_client" "cl_ttl sample_client \<le> 60" "101 \<le> 100 + cl_ttl sample_client"
    by (simp_all add: sample_client_def broker_key_def sample_broker_def ascii_mac_def ascii_host_def available_def)
  moreover have d: "distinct (map fst (dispatch_status sample_broker))" "''nonce'' \<notin> keys (dispatch_status sample_broker)"
    "''hmac'' \<notin> keys (dispatch_status sample_broker)" "py_get (dispatch_status sample_broker) ''error'' = PNone"
    "map_of (dispatch_status sample_broker) ''healthy'' = Some (PBool True)"
    by (simp_all add: dispatch_status_def sample_broker_def py_get_def Let_def)
  ultimately have "request (service_wire ascii_host 101 ''n1'' 100) ''status'' [] (sample_client, sample_broker) =
      ((sample_client\<lparr>cl_seen_nonces := insert ''n1'' (cl_seen_nonces sample_client)\<rparr>, s'), Inr ((''nonce'', PStr ''n1'') # dispatch_status sample_broker))"
    using request_end_to_end [OF _ _ _ _ _ _ _ _ _ _ _ _ p] by simp
  then show ?thesis using d(5) by (auto simp: sample_client_def)
qed

text \<open>The client returns only authentic answers: a value it returns was signed under its key, carries the nonce of
  this very request and no error; a nonce is never used for a second request.\<close>

theorem client_returns_authentic:
  assumes "request x operation body (c, s) = ((c', s'), Inr r)"
  shows "\<exists>k sent d. cl_key c = Some k \<and> wr_nonce x \<notin> cl_seen_nonces c \<and> wr_nonce x \<in> cl_seen_nonces c'
    \<and> wr_send x sent s = (s', Inr (Some (PDict d))) \<and> map_of sent ''nonce'' = Some (PStr (wr_nonce x)) \<and> r = AList.delete ''hmac'' d
    \<and> map_of d ''hmac'' = Some (PStr (wr_mac x k (canonical r))) \<and> py_get d ''nonce'' = PStr (wr_nonce x) \<and> py_get r ''error'' = PNone"
proof -
  let ?c = "c\<lparr>cl_seen_nonces := insert (wr_nonce x) (cl_seen_nonces c)\<rparr>"
  let ?e = "envelope operation (wr_nonce x) (wr_clock x) (cl_ttl c) body"
  from assms have n: "wr_nonce x \<notin> cl_seen_nonces c" by (auto simp: request_def split: if_splits)
  from assms obtain sig0 where sg: "client_sign x ?c (canonical ?e) = Inr sig0"
    by (auto simp: request_def Let_def split: if_splits sum.splits)
  from assms sg obtain answer where w: "wr_send x (?e @ [(''hmac'', PStr sig0)]) s = (s', Inr answer)" "c' = ?c"
      and a: "accept_response x ?c (wr_nonce x) answer = Inr r"
    by (auto simp: request_def Let_def split: if_splits sum.splits prod.splits)
  from a obtain d where d: "answer = Some (PDict d)"
    by (auto simp: accept_response_def split: option.splits pyval.splits)
  from a d obtain sig where sig: "map_of d ''hmac'' = Some (PStr sig)" "py_get d ''nonce'' = PStr (wr_nonce x)"
    by (auto simp: accept_response_def Let_def split: if_splits option.splits pyval.splits)
  from a d sig obtain expected where "client_sign x ?c (canonical (AList.delete ''hmac'' d)) = Inr expected" "compare_digest sig expected = Inr True"
      and r: "r = AList.delete ''hmac'' d" "py_get r ''error'' = PNone"
    by (auto simp: accept_response_def Let_def bind_result_Inr split: if_splits)
  then have "client_sign x ?c (canonical r) = Inr sig" using compare_digest_True by metis
  then obtain k where "cl_key c = Some k" "sig = wr_mac x k (canonical r)" by (auto simp: client_sign_def split: option.splits)
  moreover have "map_of (?e @ [(''hmac'', PStr sig0)]) ''nonce'' = Some (PStr (wr_nonce x))" by (simp add: envelope_def)
  ultimately show ?thesis using n w d sig r
    by (intro exI [of _ k] exI [of _ "?e @ [(''hmac'', PStr sig0)]"] exI [of _ d]) simp
qed

definition echo_wire :: "unit wire" where
  "echo_wire = \<lparr>wr_send = (\<lambda>_ s. (s, Inr (Some (PDict [(''nonce'', PStr ''n''), (''hmac'', PStr ''sig'')])))), wr_mac = (\<lambda>_ _. ''sig''),
     wr_redact = id, wr_nonce = ''n'', wr_clock = 0\<rparr>"

lemma echo_request: "request echo_wire ''status'' [] (sample_client, ()) = ((sample_client\<lparr>cl_seen_nonces := {''n''}\<rparr>, ()), Inr [(''nonce'', PStr ''n'')])"
  by (simp add: request_def echo_wire_def sample_client_def available_def client_sign_def accept_response_def py_get_def compare_digest_def Let_def)

theorem client_returns_authentic_witness:
  "\<exists>k d. cl_key sample_client = Some k \<and> map_of d ''hmac'' = Some (PStr (wr_mac echo_wire k (canonical [(''nonce'', PStr ''n'')])))"
  using client_returns_authentic [OF echo_request] by blast

end
