(* ===== verification/NativeProcess.thy ===== *)
theory NativeProcess
  imports BrokerService Base64
begin

text \<open>
  \<open>sandbox/native_broker_adapter/process.py\<close>: the restricted child process with its pipes and job object, and the
  command line it is created with.

  The Win32 calls are parameters that act on a world of their own, so that the same call may fail once and
  succeed later. Handles are numbers; an attribute the code sets to \<open>None\<close> is an option. The reader threads started by
  \<open>communicate\<close> are interleaved explicitly: a schedule says which reader completes an iteration before the output is
  joined. \<open>subprocess.list2cmdline\<close> and \<open>PureWindowsPath.name\<close> are modelled as the standard library defines them.
\<close>

section \<open>The process object\<close>

datatype win_error = WinError (winerror: "int option") (win_message: string)

record 'w process_host =
  ph_wait :: "nat option \<Rightarrow> int option \<Rightarrow> ('w, win_error, bool) raising"
  ph_exit_code :: "nat option \<Rightarrow> ('w, win_error, int) raising"
  ph_read :: "nat option \<Rightarrow> int \<Rightarrow> ('w, win_error, bytes) raising"
  ph_write :: "nat option \<Rightarrow> bytes \<Rightarrow> ('w, win_error, int option) raising"
  ph_close :: "nat \<Rightarrow> ('w, win_error, unit) raising"
  ph_job_terminate :: "nat \<Rightarrow> ('w, win_error, unit) raising"
  ph_job_close :: "nat \<Rightarrow> ('w, win_error, unit) raising"

record 'w win_process =
  wp_world :: 'w
  wp_stdin :: "nat option"
  wp_stdout :: "nat option"
  wp_stderr :: "nat option"
  wp_thread :: "nat option"
  wp_process :: "nat option"
  wp_job :: "nat option"
  wp_returncode :: "int option"
  wp_stdin_closed :: bool
  wp_output_bytes :: nat
  wp_readers :: bool
  wp_chunks_stdout :: "bytes list"
  wp_chunks_stderr :: "bytes list"

type_synonym ('w, 'r) process_call = "('w win_process, broker_error, 'r) raising"

text \<open>A call of the host; what it raises passes through (the broker reports it as an initialization failure).\<close>

definition win_call :: "('w, win_error, 'r) raising \<Rightarrow> ('w, 'r) process_call" where
  "win_call f p = (case f (wp_world p) of (w, r) \<Rightarrow>
     (p\<lparr>wp_world := w\<rparr>, case r of Inl e \<Rightarrow> Inl (init_error (win_message e)) | Inr x \<Rightarrow> Inr x))"

definition proc_poll :: "'w process_host \<Rightarrow> ('w, int option) process_call" where
  "proc_poll h p = (case wp_returncode p of
      Some c \<Rightarrow> (p, Inr (Some c))
    | None \<Rightarrow> bind_action (win_call (ph_wait h (wp_process p) (Some 0))) (\<lambda>signalled q.
        if \<not> signalled then (q, Inr None)
        else bind_action (win_call (ph_exit_code h (wp_process q))) (\<lambda>c r. (r\<lparr>wp_returncode := Some c\<rparr>, Inr (Some c))) q) p)"

definition wait_milliseconds :: "pyfloat option \<Rightarrow> broker_error + int option" where
  "wait_milliseconds timeout = (case timeout of
      None \<Rightarrow> Inr None
    | Some (Finite t) \<Rightarrow> Inr (Some (max 0 \<lfloor>t * 1000\<rfloor>))
    | Some NaN \<Rightarrow> Inl (init_error ''cannot convert float NaN to integer'')
    | Some _ \<Rightarrow> Inl (init_error ''cannot convert float infinity to integer''))"

definition proc_wait :: "'w process_host \<Rightarrow> pyfloat option \<Rightarrow> ('w, int option) process_call" where
  "proc_wait h timeout p =
     bind_action (lift_action (wait_milliseconds timeout)) (\<lambda>ms.
     bind_action (win_call (ph_wait h (wp_process p) ms)) (\<lambda>signalled q.
       if \<not> signalled then (q, Inr None) else proc_poll h q)) p"

definition proc_read :: "'w process_host \<Rightarrow> string \<Rightarrow> int \<Rightarrow> ('w, bytes) process_call" where
  "proc_read h stream n p =
     (case ph_read h (if stream = ''stdout'' then wp_stdout p else wp_stderr p) (max 1 (min n (1024 * 1024))) (wp_world p) of
        (w, Inr bs) \<Rightarrow> (p\<lparr>wp_world := w, wp_output_bytes := wp_output_bytes p + length bs\<rparr>, Inr bs)
      | (w, Inl e) \<Rightarrow> (p\<lparr>wp_world := w\<rparr>, if winerror e \<in> {Some 109, Some 232} then Inr [] else Inl (init_error ''Broker process stream read failed'')))"

definition proc_write :: "'w process_host \<Rightarrow> bytes \<Rightarrow> ('w, int) process_call" where
  "proc_write h bs p =
     (if wp_stdin_closed p then (p, Inl (init_error ''Broker process stdin is closed''))
      else case ph_write h (wp_stdin p) bs (wp_world p) of
          (w, Inr n) \<Rightarrow> (p\<lparr>wp_world := w\<rparr>, Inr (case n of Some k \<Rightarrow> k | None \<Rightarrow> int (length bs)))
        | (w, Inl _) \<Rightarrow> (p\<lparr>wp_world := w\<rparr>, Inl (init_error ''Broker process stream write failed'')))"

text \<open>\<open>CloseHandle\<close> on an attribute that may be \<open>None\<close>: without a handle the call fails.\<close>

definition close_attr :: "'w process_host \<Rightarrow> nat option \<Rightarrow> ('w, unit) process_call" where
  "close_attr h x = (case x of Some n \<Rightarrow> win_call (ph_close h n) | None \<Rightarrow> lift_action (Inl (init_error ''handle is None'')))"

definition proc_close_stdin :: "'w process_host \<Rightarrow> ('w, unit) process_call" where
  "proc_close_stdin h p =
     (if wp_stdin_closed p then (p, Inr ())
      else bind_action (close_attr h (wp_stdin p)) (\<lambda>_ q. (q\<lparr>wp_stdin_closed := True, wp_stdin := None\<rparr>, Inr ())) p)"

text \<open>One iteration of \<open>drain\<close>; reading nothing or failing ends the thread, which leaves the state as the read left it.\<close>

definition drain_step :: "'w process_host \<Rightarrow> string \<Rightarrow> 'w win_process \<Rightarrow> 'w win_process" where
  "drain_step h stream p = (case proc_read h stream 65536 p of
      (q, Inr bs) \<Rightarrow> if bs = [] then q
        else if stream = ''stdout'' then q\<lparr>wp_chunks_stdout := wp_chunks_stdout q @ [bs]\<rparr>
        else q\<lparr>wp_chunks_stderr := wp_chunks_stderr q @ [bs]\<rparr>
    | (q, Inl _) \<Rightarrow> q)"

definition proc_communicate :: "'w process_host \<Rightarrow> string list \<Rightarrow> bytes option \<Rightarrow> pyfloat option \<Rightarrow> ('w, int option \<times> bytes \<times> bytes) process_call" where
  "proc_communicate h schedule inp timeout =
     bind_action (case inp of Some (b # bs) \<Rightarrow> bind_action (proc_write h (b # bs)) (\<lambda>_. lift_action (Inr ())) | _ \<Rightarrow> lift_action (Inr ())) (\<lambda>_.
     bind_action (proc_close_stdin h) (\<lambda>_ p.
     bind_action (proc_wait h timeout) (\<lambda>code q.
       let r = fold (drain_step h) schedule q in
       (r, Inr (code, concat (wp_chunks_stdout r), concat (wp_chunks_stderr r)))) (p\<lparr>wp_readers := True\<rparr>)))"

definition proc_terminate :: "'w process_host \<Rightarrow> ('w, int option) process_call" where
  "proc_terminate h p = (case wp_job p of
      None \<Rightarrow> (p, Inr (wp_returncode p))
    | Some j \<Rightarrow> bind_action (win_call (ph_job_terminate h j)) (\<lambda>_. proc_wait h (Some (Finite 5))) p)"

text \<open>One attribute of the loop in \<open>close\<close>: the handle is dropped only when it was closed. The result is whether
  nothing failed.\<close>

definition try_close :: "'w process_host \<Rightarrow> ('w win_process \<Rightarrow> nat option) \<Rightarrow> ('w win_process \<Rightarrow> 'w win_process) \<Rightarrow> 'w win_process \<Rightarrow> 'w win_process \<times> bool" where
  "try_close h get clear p = (case get p of
      None \<Rightarrow> (p, True)
    | Some n \<Rightarrow> (case win_call (ph_close h n) p of (q, Inr _) \<Rightarrow> (clear q, True) | (q, Inl _) \<Rightarrow> (q, False)))"

definition proc_close :: "'w process_host \<Rightarrow> ('w, unit) process_call" where
  "proc_close h p =
     (case proc_terminate h p of (p0, r0) \<Rightarrow>
      case try_close h wp_stdin (\<lambda>q. q\<lparr>wp_stdin := None, wp_stdin_closed := True\<rparr>) p0 of (p1, k1) \<Rightarrow>
      case try_close h wp_stdout (\<lambda>q. q\<lparr>wp_stdout := None\<rparr>) p1 of (p2, k2) \<Rightarrow>
      case try_close h wp_stderr (\<lambda>q. q\<lparr>wp_stderr := None\<rparr>) p2 of (p3, k3) \<Rightarrow>
      case try_close h wp_thread (\<lambda>q. q\<lparr>wp_thread := None\<rparr>) p3 of (p4, k4) \<Rightarrow>
      case try_close h wp_process (\<lambda>q. q\<lparr>wp_process := None\<rparr>) p4 of (p5, k5) \<Rightarrow>
      case (case wp_job p5 of None \<Rightarrow> (p5, True)
          | Some j \<Rightarrow> (case win_call (ph_job_close h j) p5 of (q, Inr _) \<Rightarrow> (q\<lparr>wp_job := None\<rparr>, True) | (q, Inl _) \<Rightarrow> (q, False))) of (p6, k6) \<Rightarrow>
        (p6, if (case r0 of Inr _ \<Rightarrow> True | Inl _ \<Rightarrow> False) \<and> k1 \<and> k2 \<and> k3 \<and> k4 \<and> k5 \<and> k6 then Inr ()
             else Inl (init_error ''Broker process handles could not be closed'')))"

section \<open>The command line\<close>

definition needs_quotes :: "string \<Rightarrow> bool" where
  "needs_quotes arg \<longleftrightarrow> CHR '' '' \<in> set arg \<or> CHR 0x09 \<in> set arg \<or> arg = []"

text \<open>The inner loop of \<open>list2cmdline\<close>; the first argument counts the backslashes in \<open>bs_buf\<close>.\<close>

fun quote_chars :: "nat \<Rightarrow> bool \<Rightarrow> string \<Rightarrow> string" where
  "quote_chars n q [] = replicate n CHR 0x5C @ (if q then replicate n CHR 0x5C @ [CHR 0x22] else [])"
| "quote_chars n q (c # cs) =
     (if c = CHR 0x5C then quote_chars (n + 1) q cs
      else if c = CHR 0x22 then replicate (n * 2) CHR 0x5C @ [CHR 0x5C, CHR 0x22] @ quote_chars 0 q cs
      else replicate n CHR 0x5C @ [c] @ quote_chars 0 q cs)"

definition quote_arg :: "string \<Rightarrow> string" where
  "quote_arg arg = (if needs_quotes arg then CHR 0x22 # quote_chars 0 True arg else quote_chars 0 False arg)"

fun list2cmdline :: "string list \<Rightarrow> string" where
  "list2cmdline [] = []"
| "list2cmdline [a] = quote_arg a"
| "list2cmdline (a # as) = quote_arg a @ [CHR '' ''] @ list2cmdline as"

fun split_sep :: "string \<Rightarrow> string list" where
  "split_sep [] = [[]]"
| "split_sep (c # cs) = (if c = CHR 0x5C then [] # split_sep cs else (case split_sep cs of [] \<Rightarrow> [[c]] | w # ws \<Rightarrow> (c # w) # ws))"

text \<open>The part of a Windows path after its drive or UNC share and its root (\<open>ntpath.splitroot\<close>), on text whose
  slashes were replaced by backslashes.\<close>

definition after_root :: "string \<Rightarrow> string" where
  "after_root s =
     (if prefix [CHR 0x5C, CHR 0x5C] s then
        (let start = (if map (\<lambda>c. if c = CHR ''u'' then CHR ''U'' else if c = CHR ''n'' then CHR ''N'' else if c = CHR ''c'' then CHR ''C'' else c) (take 8 s)
                        = [CHR 0x5C, CHR 0x5C, CHR ''?'', CHR 0x5C, CHR ''U'', CHR ''N'', CHR ''C'', CHR 0x5C] then 8 else 2) in
         (case dropWhile (\<lambda>c. c \<noteq> CHR 0x5C) (drop start s) of
            [] \<Rightarrow> [] | _ # share \<Rightarrow> (case dropWhile (\<lambda>c. c \<noteq> CHR 0x5C) share of [] \<Rightarrow> [] | _ # rest \<Rightarrow> rest)))
      else if prefix [CHR 0x5C] s then drop 1 s
      else if length s \<ge> 2 \<and> s ! 1 = CHR '':'' then (if prefix [CHR 0x5C] (drop 2 s) then drop 3 s else drop 2 s)
      else s)"

definition windows_name :: "string \<Rightarrow> string" where
  "windows_name path =
     (let parts = filter (\<lambda>w. w \<noteq> [] \<and> w \<noteq> ''.'') (split_sep (after_root (map (\<lambda>c. if c = CHR ''/'' then CHR 0x5C else c) path))) in
      if parts = [] then [] else last parts)"

definition shell_command :: "string list \<Rightarrow> bool" where
  "shell_command argv \<longleftrightarrow> casefold (windows_name (hd argv)) \<in> {''cmd'', ''cmd.exe''} \<and> length argv \<ge> 3
     \<and> casefold (last (butlast argv)) \<in> {''/c'', ''/k''}"

definition windows_command_line :: "string list \<Rightarrow> broker_error + string" where
  "windows_command_line argv =
     (if shell_command argv then
        (if CHR 0x00 \<in> set (last argv) then Inl (init_error ''Broker command contains an invalid character'')
         else Inr (list2cmdline (butlast argv) @ [CHR '' '', CHR 0x22] @ last argv @ [CHR 0x22]))
      else Inr (list2cmdline argv))"

section \<open>What the child sees\<close>

text \<open>The rules by which the Microsoft C runtime splits a command line (as the documentation of \<open>list2cmdline\<close> gives them):
  white space separates arguments outside quotes, \<open>2n\<close> backslashes before a quote stand for \<open>n\<close> and the quote is a
  delimiter, \<open>2n + 1\<close> stand for \<open>n\<close> and a literal quote, other backslashes are literal. The first argument counts the
  backslashes just read, the second says whether a quote is open, the third is the argument begun.\<close>

fun crt_split :: "nat \<Rightarrow> bool \<Rightarrow> string option \<Rightarrow> string \<Rightarrow> string list" where
  "crt_split n q cur [] = (case cur of None \<Rightarrow> [] | Some acc \<Rightarrow> [acc @ replicate n CHR 0x5C])"
| "crt_split n q cur (c # cs) = (let acc = (case cur of None \<Rightarrow> [] | Some a \<Rightarrow> a) in
     if c = CHR 0x5C then crt_split (n + 1) q (Some acc) cs
     else if c = CHR 0x22 then
       (if even n then crt_split 0 (\<not> q) (Some (acc @ replicate (n div 2) CHR 0x5C)) cs
        else crt_split 0 q (Some (acc @ replicate (n div 2) CHR 0x5C @ [CHR 0x22])) cs)
     else if (c = CHR '' '' \<or> c = CHR 0x09) \<and> \<not> q then
       (case cur of None \<Rightarrow> crt_split 0 q None cs | Some a \<Rightarrow> (a @ replicate n CHR 0x5C) # crt_split 0 q None cs)
     else crt_split 0 q (Some (acc @ replicate n CHR 0x5C @ [c])) cs)"

definition crt_argv :: "string \<Rightarrow> string list" where
  "crt_argv s = crt_split 0 False None s"

definition rest_split :: "string \<Rightarrow> string list" where
  "rest_split s = (case s of [] \<Rightarrow> [] | _ # r \<Rightarrow> crt_split 0 False None r)"

definition separated :: "string \<Rightarrow> bool" where
  "separated s \<longleftrightarrow> s = [] \<or> hd s = CHR '' ''"

lemma crt_split_backslashes: "crt_split m q (Some acc) (replicate n CHR 0x5C @ s) = crt_split (m + n) q (Some acc) s"
  by (induction n arbitrary: m) simp_all

lemma crt_split_end: "separated s \<Longrightarrow> crt_split n False (Some acc) s = (acc @ replicate n CHR 0x5C) # rest_split s"
  by (cases s) (simp_all add: separated_def rest_split_def)

lemma crt_split_quote_chars:
  assumes "separated s"
  shows "(\<not> q \<longrightarrow> CHR '' '' \<notin> set cs \<and> CHR 0x09 \<notin> set cs)
     \<Longrightarrow> crt_split 0 q (Some acc) (quote_chars n q cs @ s) = (acc @ replicate n CHR 0x5C @ cs) # rest_split s"
proof (induction cs arbitrary: n acc)
  case Nil
  then show ?case
    using assms by (cases q) (simp_all add: crt_split_backslashes crt_split_end replicate_add [symmetric])
next
  case (Cons c cs)
  then show ?case
    by (auto simp: crt_split_backslashes replicate_append_same [symmetric] simp del: replicate_append_same)
qed

lemma quote_chars_start: "arg \<noteq> [] \<Longrightarrow> \<not> needs_quotes arg
    \<Longrightarrow> \<exists>c cs. quote_chars n False arg = c # cs \<and> c \<noteq> CHR '' '' \<and> c \<noteq> CHR 0x09"
proof (induction arg arbitrary: n)
  case (Cons c cs)
  show ?case
  proof (cases "c = CHR 0x5C \<and> cs \<noteq> []")
    case True
    then show ?thesis using Cons.IH [of "n + 1"] Cons.prems by (simp add: needs_quotes_def)
  next
    case False
    then show ?thesis using Cons.prems by (cases n) (auto simp: needs_quotes_def)
  qed
qed simp

lemma crt_split_begin: "c \<noteq> CHR '' '' \<Longrightarrow> c \<noteq> CHR 0x09 \<Longrightarrow> crt_split 0 False None (c # cs) = crt_split 0 False (Some []) (c # cs)"
  by simp

lemma crt_split_quote_arg: "separated s \<Longrightarrow> crt_split 0 False None (quote_arg a @ s) = a # rest_split s"
proof (cases "needs_quotes a")
  case False
  assume s: "separated s"
  from False have "a \<noteq> []" by (simp add: needs_quotes_def)
  then obtain c cs where c: "quote_chars 0 False a = c # cs" "c \<noteq> CHR '' ''" "c \<noteq> CHR 0x09"
    using quote_chars_start [of a 0] False by blast
  have "crt_split 0 False None (quote_arg a @ s) = crt_split 0 False (Some []) (quote_chars 0 False a @ s)"
    using False c crt_split_begin [of c "cs @ s"] by (simp add: quote_arg_def del: crt_split.simps)
  then show ?thesis using crt_split_quote_chars [OF s, of False a "[]" 0] False by (simp add: needs_quotes_def)
next
  case True
  assume s: "separated s"
  show ?thesis using crt_split_quote_chars [OF s, of True a "[]" 0] True by (simp add: quote_arg_def)
qed

lemma crt_list2cmdline: "crt_argv (list2cmdline argv) = argv"
proof (induction argv rule: list2cmdline.induct)
  case (2 a)
  show ?case using crt_split_quote_arg [of "[]" a] by (simp add: crt_argv_def separated_def rest_split_def)
next
  case (3 a b as)
  then show ?case
    using crt_split_quote_arg [of "CHR '' '' # list2cmdline (b # as)" a] by (simp add: crt_argv_def separated_def rest_split_def)
qed (simp add: crt_argv_def)

text \<open>C21. The command line says what was asked for: split by the rules of the runtime it gives back the arguments, and for a
  command of the Windows shell the command stands verbatim between the last two quotes, after arguments that split back.\<close>

theorem command_line_round_trip:
  assumes "windows_command_line argv = Inr line"
  shows "if shell_command argv
    then \<exists>front. crt_argv front = butlast argv \<and> line = front @ [CHR '' '', CHR 0x22] @ last argv @ [CHR 0x22] \<and> CHR 0x00 \<notin> set (last argv)
    else crt_argv line = argv"
  using assms crt_list2cmdline by (auto simp: windows_command_line_def split: if_splits)

theorem command_line_round_trip_witness:
  "windows_command_line [''a b'', [CHR 0x5C, CHR 0x22], []] = Inr [CHR 0x22, CHR ''a'', CHR '' '', CHR ''b'', CHR 0x22, CHR '' '',
      CHR 0x5C, CHR 0x5C, CHR 0x5C, CHR 0x22, CHR '' '', CHR 0x22, CHR 0x22]
   \<and> crt_argv [CHR 0x22, CHR ''a'', CHR '' '', CHR ''b'', CHR 0x22, CHR '' '', CHR 0x5C, CHR 0x5C, CHR 0x5C, CHR 0x22, CHR '' '', CHR 0x22, CHR 0x22]
     = [''a b'', [CHR 0x5C, CHR 0x22], []]"
proof -
  let ?argv = "[''a b'', [CHR 0x5C, CHR 0x22], []]"
  let ?line = "[CHR 0x22, CHR ''a'', CHR '' '', CHR ''b'', CHR 0x22, CHR '' '', CHR 0x5C, CHR 0x5C, CHR 0x5C, CHR 0x22, CHR '' '', CHR 0x22, CHR 0x22]"
  have no_shell: "\<not> shell_command ?argv" by (simp add: shell_command_def casefold_def fold_char_def)
  have line: "windows_command_line ?argv = Inr ?line"
    using no_shell by (simp add: windows_command_line_def quote_arg_def needs_quotes_def numeral_2_eq_2)
  show ?thesis using command_line_round_trip [OF line] line no_shell by simp
qed

section \<open>Handles are closed once\<close>

text \<open>The host with a log of the handles that were closed.\<close>

definition unlogged :: "('w, win_error, 'r) raising \<Rightarrow> ('w \<times> nat list, win_error, 'r) raising" where
  "unlogged f wl = (case f (fst wl) of (w, r) \<Rightarrow> ((w, snd wl), r))"

definition log_closes :: "'w process_host \<Rightarrow> ('w \<times> nat list) process_host" where
  "log_closes h = \<lparr>ph_wait = (\<lambda>x t. unlogged (ph_wait h x t)), ph_exit_code = (\<lambda>x. unlogged (ph_exit_code h x)),
     ph_read = (\<lambda>x n. unlogged (ph_read h x n)), ph_write = (\<lambda>x b. unlogged (ph_write h x b)),
     ph_close = (\<lambda>n wl. case ph_close h n (fst wl) of (w, r) \<Rightarrow> ((w, case r of Inr _ \<Rightarrow> n # snd wl | Inl _ \<Rightarrow> snd wl), r)),
     ph_job_terminate = (\<lambda>j. unlogged (ph_job_terminate h j)), ph_job_close = (\<lambda>j. unlogged (ph_job_close h j))\<rparr>"

definition opt_list :: "'b option \<Rightarrow> 'b list" where
  "opt_list x = (case x of None \<Rightarrow> [] | Some y \<Rightarrow> [y])"

lemma opt_list_simps [simp]: "opt_list None = []" "opt_list (Some y) = [y]"
  by (simp_all add: opt_list_def)

definition held_handles :: "'w win_process \<Rightarrow> nat list" where
  "held_handles p = opt_list (wp_stdin p) @ opt_list (wp_stdout p) @ opt_list (wp_stderr p) @ opt_list (wp_thread p) @ opt_list (wp_process p)"

definition closed_once :: "('w \<times> nat list) win_process \<Rightarrow> bool" where
  "closed_once p \<longleftrightarrow> distinct (held_handles p @ snd (wp_world p))"

definition output_counted :: "'w win_process \<Rightarrow> bool" where
  "output_counted p \<longleftrightarrow> length (concat (wp_chunks_stdout p)) + length (concat (wp_chunks_stderr p)) \<le> wp_output_bytes p"

definition final_code :: "int \<Rightarrow> 'w win_process \<Rightarrow> bool" where
  "final_code c p \<longleftrightarrow> wp_returncode p = Some c"

text \<open>The calls the adapter makes on a process.\<close>

datatype process_op = Poll | Wait "pyfloat option" | Read string int | Write bytes | CloseStdin
  | Communicate "string list" "bytes option" "pyfloat option" | Terminate | Close

fun run_op :: "'w process_host \<Rightarrow> process_op \<Rightarrow> 'w win_process \<Rightarrow> 'w win_process" where
  "run_op h Poll p = fst (proc_poll h p)"
| "run_op h (Wait t) p = fst (proc_wait h t p)"
| "run_op h (Read s n) p = fst (proc_read h s n p)"
| "run_op h (Write b) p = fst (proc_write h b p)"
| "run_op h CloseStdin p = fst (proc_close_stdin h p)"
| "run_op h (Communicate ss i t) p = fst (proc_communicate h ss i t p)"
| "run_op h Terminate p = fst (proc_terminate h p)"
| "run_op h Close p = fst (proc_close h p)"

text \<open>A property of a process that the single effects of the code keep is kept by every call.\<close>

locale process_invariant =
  fixes h :: "'w process_host" and inv :: "'w win_process \<Rightarrow> bool"
  assumes wait_keeps: "keeps inv (win_call (ph_wait h x t))"
    and exit_code_keeps: "keeps inv (win_call (ph_exit_code h x))"
    and set_code_keeps: "inv p \<Longrightarrow> wp_returncode p = None \<Longrightarrow> inv (p\<lparr>wp_returncode := Some c\<rparr>)"
    and read_keeps: "keeps inv (proc_read h s n)"
    and drain_keeps: "inv p \<Longrightarrow> inv (drain_step h s p)"
    and write_keeps: "keeps inv (proc_write h b)"
    and readers_keeps: "inv p \<Longrightarrow> inv (p\<lparr>wp_readers := True\<rparr>)"
    and job_terminate_keeps: "keeps inv (win_call (ph_job_terminate h j))"
    and job_close_keeps: "inv p \<Longrightarrow> win_call (ph_job_close h j) p = (q, r) \<Longrightarrow> inv q \<and> inv (q\<lparr>wp_job := None\<rparr>)"
    and close_stdin_keeps: "keeps inv (proc_close_stdin h)"
    and try_close_keeps: "inv p \<Longrightarrow> inv (fst (try_close h wp_stdin (\<lambda>q. q\<lparr>wp_stdin := None, wp_stdin_closed := True\<rparr>) p))"
      "inv p \<Longrightarrow> inv (fst (try_close h wp_stdout (\<lambda>q. q\<lparr>wp_stdout := None\<rparr>) p))"
      "inv p \<Longrightarrow> inv (fst (try_close h wp_stderr (\<lambda>q. q\<lparr>wp_stderr := None\<rparr>) p))"
      "inv p \<Longrightarrow> inv (fst (try_close h wp_thread (\<lambda>q. q\<lparr>wp_thread := None\<rparr>) p))"
      "inv p \<Longrightarrow> inv (fst (try_close h wp_process (\<lambda>q. q\<lparr>wp_process := None\<rparr>) p))"
begin

lemma win_call_returncode: "win_call f p = (q, r) \<Longrightarrow> wp_returncode q = wp_returncode p"
  by (auto simp: win_call_def split: prod.splits)

lemma poll_keeps: "keeps inv (proc_poll h)"
proof (rule keepsI)
  fix p assume p: "inv p"
  show "inv (fst (proc_poll h p))"
  proof (cases "wp_returncode p")
    case None
    obtain q r where w: "win_call (ph_wait h (wp_process p) (Some 0)) p = (q, r)" by fastforce
    then have q: "inv q" "wp_returncode q = None" using keepsD [OF wait_keeps p] win_call_returncode None by (metis fst_conv)+
    obtain q' r' where e: "win_call (ph_exit_code h (wp_process q)) q = (q', r')" by fastforce
    then have "inv q'" "wp_returncode q' = None" using keepsD [OF exit_code_keeps q(1)] win_call_returncode q(2) by (metis fst_conv)+
    then show ?thesis using q w e set_code_keeps by (auto simp: proc_poll_def None bind_action_def split: sum.split)
  qed (simp add: proc_poll_def p)
qed

lemma wait_call_keeps: "keeps inv (proc_wait h t)"
proof (rule keepsI)
  fix p assume p: "inv p"
  have "keeps inv (\<lambda>p. bind_action (win_call (ph_wait h x ms)) (\<lambda>signalled q. if \<not> signalled then (q, Inr None) else proc_poll h q) p)" for x ms
    by (intro keeps_bind wait_keeps keepsI) (simp add: keepsD [OF poll_keeps])
  from keepsD [OF this p] p show "inv (fst (proc_wait h t p))"
    by (cases "wait_milliseconds t") (simp_all add: proc_wait_def)
qed

lemma fold_drain_keeps: "inv p \<Longrightarrow> inv (fold (drain_step h) ss p)"
  by (induction ss arbitrary: p) (simp_all add: drain_keeps)

lemma communicate_keeps: "keeps inv (proc_communicate h ss i t)"
proof -
  have "keeps inv (case i of Some (b # bs) \<Rightarrow> bind_action (proc_write h (b # bs)) (\<lambda>_. lift_action (Inr ())) | _ \<Rightarrow> lift_action (Inr ()))"
    by (auto intro: keeps_intros write_keeps split: option.split list.split)
  moreover have "keeps inv (\<lambda>p. bind_action (proc_wait h t) (\<lambda>code q. let r = fold (drain_step h) ss q in
      (r, Inr (code, concat (wp_chunks_stdout r), concat (wp_chunks_stderr r)))) (p\<lparr>wp_readers := True\<rparr>))"
  proof (rule keepsI)
    fix p assume "inv p"
    then have "inv (fst (proc_wait h t (p\<lparr>wp_readers := True\<rparr>)))" by (rule keepsD [OF wait_call_keeps readers_keeps])
    then show "inv (fst (bind_action (proc_wait h t) (\<lambda>code q. let r = fold (drain_step h) ss q in
      (r, Inr (code, concat (wp_chunks_stdout r), concat (wp_chunks_stderr r)))) (p\<lparr>wp_readers := True\<rparr>)))"
      by (auto simp: bind_action_def Let_def fold_drain_keeps split: prod.split sum.split)
  qed
  ultimately show ?thesis
    unfolding proc_communicate_def by (intro keeps_bind close_stdin_keeps) auto
qed

lemma terminate_keeps: "keeps inv (proc_terminate h)"
proof (rule keepsI)
  fix p assume p: "inv p"
  show "inv (fst (proc_terminate h p))"
    by (cases "wp_job p") (simp_all add: proc_terminate_def p keepsD [OF keeps_bind [OF job_terminate_keeps wait_call_keeps] p])
qed

lemma inv_case_prod: "inv (fst x) \<Longrightarrow> (\<And>a b. inv a \<Longrightarrow> inv (fst (f a b))) \<Longrightarrow> inv (fst (case x of (a, b) \<Rightarrow> f a b))"
  by (cases x) simp

lemma job_step_keeps: "inv p \<Longrightarrow> inv (fst (case wp_job p of None \<Rightarrow> (p, True)
    | Some j \<Rightarrow> (case win_call (ph_job_close h j) p of (q, Inr _) \<Rightarrow> (q\<lparr>wp_job := None\<rparr>, True) | (q, Inl _) \<Rightarrow> (q, False))))"
  by (auto split: option.split prod.split sum.split dest: job_close_keeps)

lemma close_keeps: "keeps inv (proc_close h)"
proof (rule keepsI)
  fix p assume "inv p"
  then have "inv (fst (proc_terminate h p))" by (rule keepsD [OF terminate_keeps])
  then show "inv (fst (proc_close h p))"
    unfolding proc_close_def by (rule inv_case_prod) (intro inv_case_prod try_close_keeps job_step_keeps, simp_all)
qed

lemma run_op_keeps: "inv p \<Longrightarrow> inv (run_op h op p)"
  by (cases op) (simp_all add: keepsD [OF poll_keeps] keepsD [OF wait_call_keeps] keepsD [OF read_keeps] keepsD [OF write_keeps]
    keepsD [OF close_stdin_keeps] keepsD [OF communicate_keeps] keepsD [OF terminate_keeps] keepsD [OF close_keeps])

lemma run_ops_keep: "inv p \<Longrightarrow> inv (fold (run_op h) ops p)"
  by (induction ops arbitrary: p) (simp_all add: run_op_keeps)

end

text \<open>Every effect of a host call on the process, by cases.\<close>

lemma win_call_cases:
  "win_call f p = (q, r) \<Longrightarrow> \<exists>w. q = p\<lparr>wp_world := w\<rparr>"
  by (auto simp: win_call_def split: prod.splits)

lemmas log_simps = log_closes_def unlogged_def closed_once_def held_handles_def win_call_def

interpretation final: process_invariant h "final_code c" for h :: "'w process_host" and c
proof unfold_locales
  fix p q :: "'w win_process" and j r
  assume "final_code c p" "win_call (ph_job_close h j) p = (q, r)"
  then show "final_code c q \<and> final_code c (q\<lparr>wp_job := None\<rparr>)" by (auto simp: final_code_def dest: win_call_cases)
qed (auto simp: keeps_def final_code_def win_call_def proc_read_def proc_write_def drain_step_def proc_close_stdin_def close_attr_def
       bind_action_def try_close_def split: prod.split sum.split option.split)

interpretation counted: process_invariant h output_counted for h :: "'w process_host"
proof unfold_locales
  fix p q :: "'w win_process" and j r
  assume "output_counted p" "win_call (ph_job_close h j) p = (q, r)"
  then show "output_counted q \<and> output_counted (q\<lparr>wp_job := None\<rparr>)" by (auto simp: output_counted_def dest: win_call_cases)
qed (auto simp: keeps_def output_counted_def win_call_def proc_read_def proc_write_def drain_step_def proc_close_stdin_def close_attr_def
       bind_action_def try_close_def split: prod.split sum.split option.split)

interpretation once: process_invariant "log_closes h" closed_once for h :: "'w process_host"
proof unfold_locales
  fix p q :: "('w \<times> nat list) win_process" and j r
  assume "closed_once p" "win_call (ph_job_close (log_closes h) j) p = (q, r)"
  then show "closed_once q \<and> closed_once (q\<lparr>wp_job := None\<rparr>)" by (auto simp: log_simps split: prod.splits)
qed (auto simp: keeps_def log_simps proc_read_def proc_write_def drain_step_def proc_close_stdin_def close_attr_def
       bind_action_def try_close_def split: prod.split sum.split option.split)

text \<open>No sequence of calls on a process closes a handle twice, whichever of the calls of the host fail and however often
  \<open>close\<close> is retried: the handles closed so far and those still held are pairwise different.\<close>

theorem handles_closed_once:
  assumes "distinct (held_handles p)" "snd (wp_world p) = []"
  shows "distinct (held_handles (fold (run_op (log_closes h)) ops p) @ snd (wp_world (fold (run_op (log_closes h)) ops p)))"
  using once.run_ops_keep [of p h ops] assms by (simp add: closed_once_def)

text \<open>A recorded exit code is final, and what the readers have collected is never more than what was counted against the
  output limit.\<close>

theorem exit_code_final: "wp_returncode p = Some c \<Longrightarrow> wp_returncode (fold (run_op h) ops p) = Some c"
  using final.run_ops_keep [of c p h ops] by (simp add: final_code_def)

theorem output_is_counted:
  assumes "wp_chunks_stdout p = []" "wp_chunks_stderr p = []"
  shows "length (concat (wp_chunks_stdout (fold (run_op h) ops p))) + length (concat (wp_chunks_stderr (fold (run_op h) ops p)))
    \<le> wp_output_bytes (fold (run_op h) ops p)"
  using counted.run_ops_keep [of p h ops] assms by (simp add: output_counted_def)

text \<open>A host on which closing handle 2 fails the first time and works afterwards.\<close>

definition flaky_host :: "nat process_host" where
  "flaky_host = \<lparr>ph_wait = (\<lambda>x t w. (w, Inr True)), ph_exit_code = (\<lambda>x w. (w, Inr 0)), ph_read = (\<lambda>x n w. (w, Inr [])),
     ph_write = (\<lambda>x b w. (w, Inr None)), ph_close = (\<lambda>n w. if n = 2 \<and> w = 0 then (w + 1, Inl (WinError None ''busy'')) else (w, Inr ())),
     ph_job_terminate = (\<lambda>j w. (w, Inr ())), ph_job_close = (\<lambda>j w. (w, Inr ()))\<rparr>"

definition fresh_process :: "(nat \<times> nat list) win_process" where
  "fresh_process = \<lparr>wp_world = (0, []), wp_stdin = Some 1, wp_stdout = Some 2, wp_stderr = Some 3, wp_thread = Some 4, wp_process = Some 5,
     wp_job = Some 6, wp_returncode = None, wp_stdin_closed = False, wp_output_bytes = 0, wp_readers = False, wp_chunks_stdout = [], wp_chunks_stderr = []\<rparr>"

lemmas process_simps = proc_close_def proc_terminate_def proc_wait_def wait_milliseconds_def proc_poll_def proc_close_stdin_def close_attr_def try_close_def
  win_call_def bind_action_def log_closes_def unlogged_def

theorem handles_closed_once_witness:
  "distinct (held_handles (fold (run_op (log_closes flaky_host)) [CloseStdin, Close, Close] fresh_process)
      @ snd (wp_world (fold (run_op (log_closes flaky_host)) [CloseStdin, Close, Close] fresh_process)))
   \<and> snd (wp_world (fold (run_op (log_closes flaky_host)) [CloseStdin, Close, Close] fresh_process)) = [2, 5, 4, 3, 1]"
proof -
  have "distinct (held_handles fresh_process)" "snd (wp_world fresh_process) = []" by (simp_all add: fresh_process_def held_handles_def)
  from handles_closed_once [OF this, of flaky_host "[CloseStdin, Close, Close]"]
  show ?thesis by (simp add: process_simps fresh_process_def flaky_host_def held_handles_def)
qed

lemma try_close_ok: "try_close h get clear p = (q, True) \<Longrightarrow> (\<And>r. get (clear r) = None) \<Longrightarrow> get q = None"
  by (auto simp: try_close_def split: option.splits prod.splits sum.splits)

lemma try_close_frame:
  assumes "try_close h get clear p = (q, k)" "\<And>r w. g (r\<lparr>wp_world := w\<rparr>) = g r" "\<And>r. g (clear r) = g r"
  shows "g q = g p"
  using assms by (auto simp: try_close_def win_call_def split: option.splits prod.splits sum.splits)

text \<open>When \<open>close\<close> returns, nothing is held any more, and closing again is harmless.\<close>

theorem close_releases_everything:
  assumes "proc_close h p = (q, Inr ())"
  shows "held_handles q = [] \<and> wp_job q = None \<and> proc_close h q = (q, Inr ())"
proof -
  obtain p0 r0 where t0: "proc_terminate h p = (p0, r0)" by fastforce
  obtain p1 k1 where t1: "try_close h wp_stdin (\<lambda>q. q\<lparr>wp_stdin := None, wp_stdin_closed := True\<rparr>) p0 = (p1, k1)" by fastforce
  obtain p2 k2 where t2: "try_close h wp_stdout (\<lambda>q. q\<lparr>wp_stdout := None\<rparr>) p1 = (p2, k2)" by fastforce
  obtain p3 k3 where t3: "try_close h wp_stderr (\<lambda>q. q\<lparr>wp_stderr := None\<rparr>) p2 = (p3, k3)" by fastforce
  obtain p4 k4 where t4: "try_close h wp_thread (\<lambda>q. q\<lparr>wp_thread := None\<rparr>) p3 = (p4, k4)" by fastforce
  obtain p5 k5 where t5: "try_close h wp_process (\<lambda>q. q\<lparr>wp_process := None\<rparr>) p4 = (p5, k5)" by fastforce
  have all: "k1 \<and> k2 \<and> k3 \<and> k4 \<and> k5" "wp_job q = None" "q = p5 \<or> (\<exists>w. q = p5\<lparr>wp_world := w, wp_job := None\<rparr>)"
    using assms by (simp_all add: proc_close_def t0 t1 t2 t3 t4 t5)
      (auto simp: win_call_def split: option.splits prod.splits sum.splits if_splits)
  have n: "wp_stdin p1 = None" "wp_stdout p2 = None" "wp_stderr p3 = None" "wp_thread p4 = None" "wp_process p5 = None"
    using try_close_ok [of h wp_stdin _ p0 p1] try_close_ok [of h wp_stdout _ p1 p2] try_close_ok [of h wp_stderr _ p2 p3]
      try_close_ok [of h wp_thread _ p3 p4] try_close_ok [of h wp_process _ p4 p5] t1 t2 t3 t4 t5 all(1) by auto
  have "wp_stdin p5 = wp_stdin p1" "wp_stdout p5 = wp_stdout p2" "wp_stderr p5 = wp_stderr p3" "wp_thread p5 = wp_thread p4"
    using try_close_frame [OF t2, of wp_stdin] try_close_frame [OF t3, of wp_stdin] try_close_frame [OF t4, of wp_stdin] try_close_frame [OF t5, of wp_stdin]
      try_close_frame [OF t3, of wp_stdout] try_close_frame [OF t4, of wp_stdout] try_close_frame [OF t5, of wp_stdout]
      try_close_frame [OF t4, of wp_stderr] try_close_frame [OF t5, of wp_stderr] try_close_frame [OF t5, of wp_thread] by simp_all
  with n all have held: "wp_stdin q = None" "wp_stdout q = None" "wp_stderr q = None" "wp_thread q = None" "wp_process q = None" "wp_job q = None"
    by auto
  then have "proc_close h q = (q, Inr ())" by (simp add: proc_close_def proc_terminate_def try_close_def)
  with held show ?thesis by (simp add: held_handles_def)
qed

end
