(* ===== verification/BrokerAdapter.thy ===== *)
theory BrokerAdapter
  imports NativeProcess
begin

text \<open>
  \<open>sandbox/native_broker_adapter/adapter.py\<close>: the adapter behind the broker service, which owns reservations (a
  restricted token and a private desktop each), launched processes and their jobs.

  The host is a parameter: the token factory, the creation of desktops and job objects, the start of a process, closing
  a token or a desktop (which may fail), the lexical operations on paths, the hash and the random identifiers. Tokens and
  desktops are numbered and the open ones are kept in a list, so that one that is never closed is visible. A running
  process is the object of \<open>NativeProcess\<close>, with its own handles. Calls run one after the other, which is a
  restriction for \<open>launch\<close>, \<open>control\<close> and \<open>release\<close>: the code gives up its lock between taking a reservation or
  process out of its table and working on it, so what is shown here is about calls that do not overlap. The clock is an
  argument, and so is the order in which the readers of a process make progress.
\<close>

section \<open>State\<close>

datatype os_handle = TokenHandle nat | DesktopHandle nat

record WindowsSandboxAccount =
  wa_name :: string
  wa_sid :: string
  wa_password :: string

record BrokerCredentialPackage =
  bc_generation :: string
  bc_offline_name :: string
  bc_offline_sid :: string
  bc_offline_password :: string
  bc_online_name :: string
  bc_online_sid :: string
  bc_online_password :: string

record 'w native_host =
  nh_credentials :: BrokerCredentialPackage
  nh_reserve_token :: "WindowsSandboxAccount \<Rightarrow> FileAccessMode \<Rightarrow> broker_error + (string \<times> string \<times> string \<times> string)"
  nh_desktop :: "string \<Rightarrow> broker_error option"
  nh_job_object :: "string \<Rightarrow> ResourceLimits \<Rightarrow> broker_error option"
  nh_start :: "string list \<Rightarrow> string \<Rightarrow> (string \<times> string) list \<Rightarrow> broker_error + (int \<times> 'w win_process)"
  nh_process :: "'w process_host"
  nh_close :: "os_handle \<Rightarrow> bool"
  nh_stop_monitor :: "string \<Rightarrow> bool"
  nh_terminate_pid :: "int \<Rightarrow> bool"
  nh_absolute :: "string \<Rightarrow> bool"
  nh_canonical :: "string \<Rightarrow> string"
  nh_within :: "string \<Rightarrow> string \<Rightarrow> bool"
  nh_sha256 :: "string \<Rightarrow> string"
  nh_uuid :: "nat \<Rightarrow> string"
  nh_seconds_text :: "rat \<Rightarrow> string"
  nh_service_sid :: string
  nh_ttl :: int

record reservation =
  re_id :: string
  re_backend :: string
  re_user :: string
  re_job :: string
  re_policy_hash :: string
  re_policy :: pydict
  re_token :: "nat option"
  re_logon_sid :: string
  re_account_sid :: string
  re_workspace_cap_sid :: string
  re_temp_cap_sid :: string
  re_capability_digest :: string
  re_desktop :: nat
  re_expires_at :: rat

record 'w native_lease =
  nl_process_id :: string
  nl_backend :: string
  nl_user :: string
  nl_job :: string
  nl_process :: "'w win_process"
  nl_desktop :: nat
  nl_failure_code :: "string option"

record 'w native =
  nt_next :: nat
  nt_open :: "os_handle list"
  nt_reservations :: "(string, reservation) dict"
  nt_processes :: "(string, 'w native_lease) dict"
  nt_jobs :: "(job_identity, string) dict"

definition new_native :: "'w native" where
  "new_native = \<lparr>nt_next = 0, nt_open = [], nt_reservations = [], nt_processes = [], nt_jobs = []\<rparr>"

definition reservation_identity :: "reservation \<Rightarrow> job_identity" where
  "reservation_identity r = (re_backend r, re_user r, re_job r)"

section \<open>Fields and paths\<close>

definition required_text :: "pydict \<Rightarrow> string \<Rightarrow> broker_error + string" where
  "required_text d name = (case text_field d name of Some s \<Rightarrow> Inr s | None \<Rightarrow> Inl (init_error (''Broker '' @ name @ '' is invalid'')))"

definition canonical_absolute_path :: "'w native_host \<Rightarrow> string \<Rightarrow> broker_error + string" where
  "canonical_absolute_path h v = (if nh_absolute h v then Inr (nh_canonical h v) else Inl (init_error ''Broker launch path must be absolute''))"

definition required_path :: "'w native_host \<Rightarrow> pydict \<Rightarrow> string \<Rightarrow> broker_error + string" where
  "required_path h d name = bind_result (required_text d name) (canonical_absolute_path h)"

fun absolute_paths :: "'w native_host \<Rightarrow> string \<Rightarrow> pyval list \<Rightarrow> string list \<Rightarrow> broker_error + string list" where
  "absolute_paths h name [] acc = Inr acc"
| "absolute_paths h name (v # vs) acc = (case v of
      PStr s \<Rightarrow> if s = [] then Inl (init_error (''Broker '' @ name @ '' is invalid''))
        else bind_result (canonical_absolute_path h s) (\<lambda>p. absolute_paths h name vs (if p \<in> set acc then acc else acc @ [p]))
    | _ \<Rightarrow> Inl (init_error (''Broker '' @ name @ '' is invalid'')))"

definition required_absolute_paths :: "'w native_host \<Rightarrow> pydict \<Rightarrow> string \<Rightarrow> broker_error + string list" where
  "required_absolute_paths h d name = (case py_get d name of
      PList (v # vs) \<Rightarrow> absolute_paths h name (v # vs) []
    | _ \<Rightarrow> Inl (init_error (''Broker '' @ name @ '' is invalid'')))"

definition native_policy_hash :: "'w native_host \<Rightarrow> pydict \<Rightarrow> string" where
  "native_policy_hash h p = nh_sha256 h (canonical p)"

definition capability_digest :: "'w native_host \<Rightarrow> string \<Rightarrow> string \<Rightarrow> string list \<Rightarrow> string \<Rightarrow> string \<Rightarrow> string \<Rightarrow> string \<Rightarrow> rat \<Rightarrow> string" where
  "capability_digest h rid digest ws temp account wcap tcap expires = nh_sha256 h (canonical
     [(''reservation_id'', PStr rid), (''policy_hash'', PStr digest), (''workspaces'', PList (map PStr ws)), (''temp_dir'', PStr temp),
      (''account_sid'', PStr account), (''capability_sids'', PDict [(''workspace'', PStr wcap), (''temp'', PStr tcap)]),
      (''expires_at'', PStr (nh_seconds_text h expires))])"

section \<open>Handles\<close>

definition close_handle :: "'w native_host \<Rightarrow> os_handle \<Rightarrow> 'w native \<Rightarrow> 'w native \<times> bool" where
  "close_handle h x a = (if nh_close h x then (a\<lparr>nt_open := removeAll x (nt_open a)\<rparr>, True) else (a, False))"

text \<open>\<open>_close_reservation\<close>: both parts are tried and a token that was closed is forgotten, so that a retry does not
  close it again; a failure of either part raises. The reservation comes back as the code leaves the object.\<close>

definition close_parts :: "'w native_host \<Rightarrow> reservation \<Rightarrow> 'w native \<Rightarrow> 'w native \<times> reservation \<times> bool" where
  "close_parts h r a =
     (case (case re_token r of None \<Rightarrow> (a, r, True)
          | Some t \<Rightarrow> (case close_handle h (TokenHandle t) a of (b, ok) \<Rightarrow> (b, if ok then r\<lparr>re_token := None\<rparr> else r, ok))) of (a1, r1, ok1) \<Rightarrow>
      case close_handle h (DesktopHandle (re_desktop r)) a1 of (a2, ok2) \<Rightarrow> (a2, r1, ok1 \<and> ok2))"

definition close_reservation :: "'w native_host \<Rightarrow> reservation \<Rightarrow> ('w native, broker_error, unit) raising" where
  "close_reservation h r a = (case close_parts h r a of (b, _, ok) \<Rightarrow>
     (b, if ok then Inr () else Inl (init_error ''Broker reservation cleanup failed'')))"

fun purge_each :: "'w native_host \<Rightarrow> string list \<Rightarrow> ('w native, broker_error, unit) raising" where
  "purge_each h [] a = (a, Inr ())"
| "purge_each h (k # ks) a = (case map_of (nt_reservations a) k of
      None \<Rightarrow> purge_each h ks a
    | Some r \<Rightarrow> bind_action (close_reservation h r) (\<lambda>_ b. purge_each h ks b) (a\<lparr>nt_reservations := AList.delete k (nt_reservations a)\<rparr>))"

definition purge_expired :: "'w native_host \<Rightarrow> rat \<Rightarrow> ('w native, broker_error, unit) raising" where
  "purge_expired h now a = purge_each h (map fst (filter (\<lambda>(k, r). re_expires_at r \<le> now) (nt_reservations a))) a"

text \<open>Raising after the handle was closed, if it could be; otherwise the failure to close it is raised.\<close>

definition close_and_raise :: "'w native_host \<Rightarrow> os_handle \<Rightarrow> broker_error \<Rightarrow> ('w native, broker_error, 'r) raising" where
  "close_and_raise h x e a = (case close_handle h x a of (b, ok) \<Rightarrow> (b, Inl (if ok then e else init_error ''Broker handle could not be closed'')))"

definition drop_and_raise :: "'w native_host \<Rightarrow> reservation \<Rightarrow> broker_error \<Rightarrow> ('w native, broker_error, 'r) raising" where
  "drop_and_raise h r e = bind_action (close_reservation h r) (\<lambda>_. lift_action (Inl e))"

section \<open>Reservations\<close>

definition mode_of :: "('m \<Rightarrow> string) \<Rightarrow> 'm list \<Rightarrow> string \<Rightarrow> string \<Rightarrow> broker_error + 'm" where
  "mode_of val members dflt s = (let v = (if s = [] then dflt else s) in
     case enum_of val members v of Some m \<Rightarrow> Inr m | None \<Rightarrow> Inl (BrokerError ''init_failed'' (str_repr v @ '' is not a valid mode'')))"

record reserve_fields =
  rf_policy :: pydict
  rf_policy_hash :: string
  rf_backend :: string
  rf_user :: string
  rf_job :: string
  rf_file_mode :: FileAccessMode
  rf_network_mode :: NetworkMode

definition reserve_fields_of :: "'w native_host \<Rightarrow> pydict \<Rightarrow> broker_error + reserve_fields" where
  "reserve_fields_of h req = (case py_get req ''policy'' of
      PDict policy \<Rightarrow>
        bind_result (required_text req ''policy_hash'') (\<lambda>digest.
        bind_result (compare_digest digest (native_policy_hash h policy)) (\<lambda>same.
        bind_result (ensure same (init_error ''Broker reserve policy hash is invalid'')) (\<lambda>_.
        bind_result (required_text req ''backend_instance_id'') (\<lambda>backend.
        bind_result (required_text req ''user_id'') (\<lambda>user.
        bind_result (required_text policy ''job_id'') (\<lambda>job.
        bind_result (mode_of FileAccessMode_value [READ_ONLY, WORKSPACE_WRITE, FULL_ACCESS] ''read_only'' (get_str policy ''file_mode'')) (\<lambda>fm.
        bind_result (mode_of NetworkMode_value [NO_NETWORK, RESTRICTED_NETWORK, FULL_NETWORK] ''no_network'' (get_str policy ''network_mode'')) (\<lambda>nm.
          Inr \<lparr>rf_policy = policy, rf_policy_hash = digest, rf_backend = backend, rf_user = user, rf_job = job, rf_file_mode = fm, rf_network_mode = nm\<rparr>))))))))
    | _ \<Rightarrow> Inl (init_error ''Broker reserve policy is invalid''))"

definition reserve_paths :: "'w native_host \<Rightarrow> pydict \<Rightarrow> broker_error + (string list \<times> string \<times> string)" where
  "reserve_paths h policy =
     bind_result (required_absolute_paths h policy ''workspaces'') (\<lambda>ws.
     bind_result (required_path h policy ''temp_dir'') (\<lambda>temp.
     bind_result (required_path h policy ''cwd'') (\<lambda>cwd. Inr (ws, temp, cwd))))"

definition account_for :: "'w native_host \<Rightarrow> NetworkMode \<Rightarrow> WindowsSandboxAccount" where
  "account_for h m = (let c = nh_credentials h in
     if m = FULL_NETWORK then \<lparr>wa_name = bc_online_name c, wa_sid = bc_online_sid c, wa_password = bc_online_password c\<rparr>
     else \<lparr>wa_name = bc_offline_name c, wa_sid = bc_offline_sid c, wa_password = bc_offline_password c\<rparr>)"

definition store_reservation :: "'w native_host \<Rightarrow> rat \<Rightarrow> reservation \<Rightarrow> ('w native, broker_error, unit) raising" where
  "store_reservation h now r =
     bind_action (purge_expired h now) (\<lambda>_ a.
       if reservation_identity r \<in> keys (nt_jobs a) \<or> reservation_identity r \<in> reservation_identity ` set (dict_values (nt_reservations a))
       then drop_and_raise h r (init_error ''Broker job already exists'') a
       else (a\<lparr>nt_reservations := AList.update (re_id r) r (nt_reservations a)\<rparr>, Inr ()))"

definition reservation_answer :: "'w native_host \<Rightarrow> reservation \<Rightarrow> pydict" where
  "reservation_answer h r = [(''reserved'', PBool True), (''reservation_id'', PStr (re_id r)), (''logon_sid'', PStr (re_logon_sid r)),
     (''account_sid'', PStr (re_account_sid r)), (''service_sid'', PStr (nh_service_sid h)),
     (''capability_sids'', PDict [(''workspace'', PStr (re_workspace_cap_sid r)), (''temp'', PStr (re_temp_cap_sid r))]),
     (''capability_digest'', PStr (re_capability_digest r)), (''expires_in'', PInt (nh_ttl h))]"

definition native_reserve :: "'w native_host \<Rightarrow> rat \<Rightarrow> pydict \<Rightarrow> ('w native, broker_error, pydict) raising" where
  "native_reserve h now req a =
     (case reserve_fields_of h req of
        Inl e \<Rightarrow> (a, Inl e)
      | Inr f \<Rightarrow>
          (case nh_reserve_token h (account_for h (rf_network_mode f)) (rf_file_mode f) of
             Inl e \<Rightarrow> (a, Inl e)
           | Inr (logon, account, wcap, tcap) \<Rightarrow>
               (let n = nt_next a; rid = ''reservation-'' @ nh_uuid h n;
                    a1 = a\<lparr>nt_next := n + 1, nt_open := TokenHandle n # nt_open a\<rparr> in
                case reserve_paths h (rf_policy f) of
                  Inl e \<Rightarrow> (a1, Inl e)
                | Inr (ws, temp, cwd) \<Rightarrow>
                    if \<not> list_ex (nh_within h cwd) ws
                    then close_and_raise h (TokenHandle n) (init_error ''Broker reserve cwd is outside the workspaces'') a1
                    else
                      let expires = now + of_int (nh_ttl h) in
                      (case nh_desktop h logon of
                         Some e \<Rightarrow> close_and_raise h (TokenHandle n) e a1
                       | None \<Rightarrow>
                           (let r = \<lparr>re_id = rid, re_backend = rf_backend f, re_user = rf_user f, re_job = rf_job f, re_policy_hash = rf_policy_hash f,
                                     re_policy = rf_policy f, re_token = Some n, re_logon_sid = logon, re_account_sid = account,
                                     re_workspace_cap_sid = wcap, re_temp_cap_sid = tcap,
                                     re_capability_digest = capability_digest h rid (rf_policy_hash f) ws temp account wcap tcap expires,
                                     re_desktop = n, re_expires_at = expires\<rparr> in
                            bind_action (store_reservation h now r) (\<lambda>_. lift_action (Inr (reservation_answer h r)))
                              (a1\<lparr>nt_open := DesktopHandle n # nt_open a1\<rparr>))))))"

section \<open>Launch\<close>

record launch_fields =
  lf_reservation :: string
  lf_backend :: string
  lf_user :: string
  lf_policy_hash :: string
  lf_digest :: string

definition launch_fields_of :: "pydict \<Rightarrow> broker_error + launch_fields" where
  "launch_fields_of req =
     bind_result (required_text req ''reservation_id'') (\<lambda>rid.
     bind_result (required_text req ''backend_instance_id'') (\<lambda>backend.
     bind_result (required_text req ''user_id'') (\<lambda>user.
     bind_result (required_text req ''policy_hash'') (\<lambda>digest.
     bind_result (required_text req ''capability_digest'') (\<lambda>cap.
       Inr \<lparr>lf_reservation = rid, lf_backend = backend, lf_user = user, lf_policy_hash = digest, lf_digest = cap\<rparr>)))))"

definition argv_of :: "pyval \<Rightarrow> string list option" where
  "argv_of v = (case v of PList xs \<Rightarrow> if xs \<noteq> [] \<and> list_all (\<lambda>x. case x of PStr s \<Rightarrow> s \<noteq> [] | _ \<Rightarrow> False) xs then Some (map py_str xs) else None | _ \<Rightarrow> None)"

text \<open>Ownership: the short-circuit comparisons of \<open>launch\<close>; a digest that is not ASCII raises.\<close>

definition owns :: "reservation \<Rightarrow> launch_fields \<Rightarrow> broker_error + bool" where
  "owns r f = (if re_backend r \<noteq> lf_backend f \<or> re_user r \<noteq> lf_user f then Inr False
     else bind_result (compare_digest (re_policy_hash r) (lf_policy_hash f)) (\<lambda>b1.
       if \<not> b1 then Inr False else compare_digest (re_capability_digest r) (lf_digest f)))"

text \<open>The comparison of the working directory and of TEMP and TMP with the reservation. \<open>Inr e\<close> is a mismatch the code
  answers by closing the reservation, \<open>Inl e\<close> an exception it lets pass.\<close>

definition temp_matches :: "'w native_host \<Rightarrow> string \<Rightarrow> pydict \<Rightarrow> string \<Rightarrow> broker_error + bool" where
  "temp_matches h expected env name = (case py_get env name of
      PStr v \<Rightarrow> bind_result (canonical_absolute_path h v) (\<lambda>p. Inr (p = expected)) | _ \<Rightarrow> Inr False)"

definition launch_paths :: "'w native_host \<Rightarrow> pydict \<Rightarrow> pydict \<Rightarrow> pydict \<Rightarrow> broker_error + (broker_error + string)" where
  "launch_paths h policy req env =
     bind_result (required_absolute_paths h policy ''workspaces'') (\<lambda>ws.
     bind_result (required_path h req ''cwd'') (\<lambda>cwd.
     bind_result (required_path h policy ''cwd'') (\<lambda>expected_cwd.
     bind_result (required_path h policy ''temp_dir'') (\<lambda>expected_temp.
     if cwd \<noteq> expected_cwd \<or> \<not> list_ex (nh_within h cwd) ws then Inr (Inl (init_error ''Broker launch cwd does not match the reservation''))
     else
       bind_result (temp_matches h expected_temp env ''TEMP'') (\<lambda>t1.
         if \<not> t1 then Inr (Inl (init_error ''Broker launch TEMP does not match the reservation'')) else
       bind_result (temp_matches h expected_temp env ''TMP'') (\<lambda>t2.
         if \<not> t2 then Inr (Inl (init_error ''Broker launch TEMP does not match the reservation'')) else Inr (Inr cwd)))))))"

definition limits_of_policy :: "pydict \<Rightarrow> broker_error + ResourceLimits" where
  "limits_of_policy policy = (case limits_from_mapping (case py_get policy ''limits'' of PDict d \<Rightarrow> Some d | _ \<Rightarrow> None) of
      Inr l \<Rightarrow> Inr l
    | Inl (PolicyFailed m) \<Rightarrow> Inl (BrokerError ''policy_failed'' m)
    | Inl _ \<Rightarrow> Inl (BrokerError ''init_failed'' ''limits are invalid''))"

definition launch_answer :: "reservation \<Rightarrow> string \<Rightarrow> int \<Rightarrow> pydict" where
  "launch_answer r process_id pid = [(''accepted'', PBool True), (''process_id'', PStr process_id), (''pid'', PInt pid),
     (''backend_instance_id'', PStr (re_backend r)), (''user_id'', PStr (re_user r)), (''job_id'', PStr (re_job r)),
     (''stdin'', py_get (re_policy r) ''stdin''), (''stdout'', py_get (re_policy r) ''stdout''), (''stderr'', py_get (re_policy r) ''stderr''),
     (''resources'', PDict [(''process_id'', PStr process_id), (''pid'', PInt pid)])]"

text \<open>Starting the process: on failure the desktop is closed and the token in any case (\<open>finally\<close>).\<close>

definition start_process :: "'w native_host \<Rightarrow> reservation \<Rightarrow> string list \<Rightarrow> string \<Rightarrow> (string \<times> string) list \<Rightarrow> ('w native, broker_error, pydict) raising" where
  "start_process h r argv cwd env a =
     (let close_token = (\<lambda>b. case re_token r of None \<Rightarrow> (b, True) | Some t \<Rightarrow> close_handle h (TokenHandle t) b);
          not_closed = init_error ''Broker handle could not be closed'' in
      case nh_start h argv cwd env of
        Inl e \<Rightarrow> (case close_handle h (DesktopHandle (re_desktop r)) a of (b, ok1) \<Rightarrow>
            (case close_token b of (b', ok2) \<Rightarrow> (b', Inl (if ok1 \<and> ok2 then e else not_closed))))
      | Inr (pid, process) \<Rightarrow>
          (case close_token a of (b, ok) \<Rightarrow>
             if \<not> ok then (b, Inl not_closed)
             else let n = nt_next b; process_id = ''process-'' @ nh_uuid h n in
                  (b\<lparr>nt_next := n + 1,
                     nt_processes := AList.update process_id \<lparr>nl_process_id = process_id, nl_backend = re_backend r, nl_user = re_user r,
                        nl_job = re_job r, nl_process = process, nl_desktop = re_desktop r, nl_failure_code = None\<rparr> (nt_processes b),
                     nt_jobs := AList.update (reservation_identity r) process_id (nt_jobs b)\<rparr>,
                   Inr (launch_answer r process_id pid))))"

definition launch_checked :: "'w native_host \<Rightarrow> reservation \<Rightarrow> pydict \<Rightarrow> string list \<Rightarrow> pydict \<Rightarrow> ('w native, broker_error, pydict) raising" where
  "launch_checked h r req argv env a =
     (case launch_paths h (re_policy r) req env of
        Inl e \<Rightarrow> (a, Inl e)
      | Inr (Inl e) \<Rightarrow> drop_and_raise h r e a
      | Inr (Inr cwd) \<Rightarrow>
          (case limits_of_policy (re_policy r) of
             Inl e \<Rightarrow> drop_and_raise h r e a
           | Inr limits \<Rightarrow>
               (case nh_job_object h (''mini-agent-'' @ re_job r) limits of
                  Some e \<Rightarrow> drop_and_raise h r e a
                | None \<Rightarrow> start_process h r argv cwd (map (\<lambda>(k, v). (k, py_str v)) env) a)))"

definition launch_reserved :: "'w native_host \<Rightarrow> launch_fields \<Rightarrow> reservation \<Rightarrow> pydict \<Rightarrow> ('w native, broker_error, pydict) raising" where
  "launch_reserved h f r req a =
     (case owns r f of
        Inl e \<Rightarrow> (a, Inl e)
      | Inr ok \<Rightarrow>
          if \<not> ok then drop_and_raise h r (init_error ''Broker reservation ownership is invalid'') a
          else (case argv_of (py_get req ''argv'') of
              None \<Rightarrow> drop_and_raise h r (init_error ''Broker launch argv is invalid'') a
            | Some argv \<Rightarrow> (case py_get req ''environment'' of
                  PDict env \<Rightarrow> launch_checked h r req argv env a
                | _ \<Rightarrow> drop_and_raise h r (init_error ''Broker launch environment is invalid'') a)))"

text \<open>\<open>launch\<close> when no other call runs between its two acquisitions of the lock.\<close>

definition native_launch :: "'w native_host \<Rightarrow> rat \<Rightarrow> pydict \<Rightarrow> ('w native, broker_error, pydict) raising" where
  "native_launch h now req =
     bind_action (lift_action (launch_fields_of req)) (\<lambda>f.
     bind_action (purge_expired h now) (\<lambda>_ a.
       case map_of (nt_reservations a) (lf_reservation f) of
         None \<Rightarrow> (a, Inl (init_error ''Broker reservation is unavailable''))
       | Some r \<Rightarrow> launch_reserved h f r req (a\<lparr>nt_reservations := AList.delete (lf_reservation f) (nt_reservations a)\<rparr>)))"

section \<open>Release, reclaim, recovery and control\<close>

fun close_reservations :: "'w native_host \<Rightarrow> (string \<times> reservation) list \<Rightarrow> 'w native \<Rightarrow> 'w native \<times> bool" where
  "close_reservations h [] a = (a, True)"
| "close_reservations h ((k, r) # rs) a = (case close_parts h r a of
      (b, r', False) \<Rightarrow> (case close_reservations h rs (b\<lparr>nt_reservations := AList.map_entry k (\<lambda>_. r') (nt_reservations b)\<rparr>) of (c, _) \<Rightarrow> (c, False))
    | (b, r', True) \<Rightarrow> close_reservations h rs (b\<lparr>nt_reservations := AList.delete k (nt_reservations b)\<rparr>))"

definition store_process :: "string \<Rightarrow> 'w win_process \<Rightarrow> 'w native \<Rightarrow> 'w native" where
  "store_process pid p a = a\<lparr>nt_processes := AList.map_entry pid (nl_process_update (\<lambda>_. p)) (nt_processes a)\<rparr>"

text \<open>The monitor, the process and the desktop are each tried; the process remembers what of it is closed.\<close>

definition close_lease :: "'w native_host \<Rightarrow> string \<Rightarrow> 'w native_lease \<Rightarrow> 'w native \<Rightarrow> 'w native \<times> bool" where
  "close_lease h pid l a =
     (case proc_close (nh_process h) (nl_process l) of (p, r) \<Rightarrow>
      case close_handle h (DesktopHandle (nl_desktop l)) (store_process pid p a) of (b, ok) \<Rightarrow>
        (b, nh_stop_monitor h (nl_process_id l) \<and> (case r of Inr _ \<Rightarrow> True | Inl _ \<Rightarrow> False) \<and> ok))"

definition native_release :: "'w native_host \<Rightarrow> pydict \<Rightarrow> ('w native, broker_error, bool) raising" where
  "native_release h req =
     bind_action (lift_action (required_text req ''backend_instance_id'')) (\<lambda>backend.
     bind_action (lift_action (required_text req ''user_id'')) (\<lambda>user.
     bind_action (lift_action (required_text req ''job_id'')) (\<lambda>job a.
       let key = (backend, user, job);
           mine = filter (\<lambda>(k, r). reservation_identity r = key) (nt_reservations a);
           pid = map_of (nt_jobs a) key;
           lease = (case pid of None \<Rightarrow> None | Some p \<Rightarrow> map_of (nt_processes a) p) in
       case close_reservations h mine a of (b, ok1) \<Rightarrow>
       case (case (pid, lease) of (Some p, Some l) \<Rightarrow> close_lease h p l b | _ \<Rightarrow> (b, True)) of (c, ok2) \<Rightarrow>
         if \<not> ok1 \<or> \<not> ok2 then (c, Inl (init_error ''Broker Job cleanup failed''))
         else (case (pid, lease) of
             (Some p, Some l) \<Rightarrow> (c\<lparr>nt_processes := AList.delete p (nt_processes c), nt_jobs := AList.delete key (nt_jobs c)\<rparr>, Inr True)
           | _ \<Rightarrow> (c, Inr True)))))"

definition identity_request :: "job_identity \<Rightarrow> pydict" where
  "identity_request k = (case k of (b, u, j) \<Rightarrow> [(''backend_instance_id'', PStr b), (''user_id'', PStr u), (''job_id'', PStr j)])"

fun release_each :: "'w native_host \<Rightarrow> job_identity list \<Rightarrow> ('w native, broker_error, unit) raising" where
  "release_each h [] a = (a, Inr ())"
| "release_each h (k # ks) a = bind_action (native_release h (identity_request k)) (\<lambda>_ b. release_each h ks b) a"

definition native_reclaim :: "'w native_host \<Rightarrow> pydict \<Rightarrow> ('w native, broker_error, string list) raising" where
  "native_reclaim h req =
     bind_action (lift_action (required_text req ''backend_instance_id'')) (\<lambda>current a.
       let stale = filter (\<lambda>l. nl_backend l \<noteq> current) (dict_values (nt_processes a));
           stale_reservations = filter (\<lambda>r. re_backend r \<noteq> current) (dict_values (nt_reservations a)) in
       bind_action (release_each h (map reservation_identity stale_reservations @ map (\<lambda>l. (nl_backend l, nl_user l, nl_job l)) stale))
         (\<lambda>_. lift_action (Inr (map nl_job stale))) a)"

definition native_recover :: "'w native_host \<Rightarrow> ResourceRecord \<Rightarrow> ('w native, broker_error, bool) raising" where
  "native_recover h r a = (a, Inr (case py_get (rr_resources r) ''pid'' of PInt pid \<Rightarrow> pid \<le> 0 \<or> nh_terminate_pid h pid | _ \<Rightarrow> True))"

section \<open>Control\<close>

definition timeout_of :: "pyval \<Rightarrow> broker_error + pyfloat option" where
  "timeout_of v = (let invalid = init_error ''Broker process timeout is invalid'' in case v of
      PNone \<Rightarrow> Inr None
    | PInt i \<Rightarrow> if i < 0 \<or> i > 300 then Inl invalid else Inr (Some (Finite (of_int i)))
    | PFloat (Finite r) \<Rightarrow> if r < 0 \<or> r > 300 then Inl invalid else Inr (Some (Finite r))
    | PFloat NaN \<Rightarrow> Inr (Some NaN)
    | _ \<Rightarrow> Inl invalid)"

text \<open>\<open>b64decode(value.encode("ascii"), validate=True)\<close>.\<close>

definition decode_input :: "string \<Rightarrow> broker_error + bytes" where
  "decode_input s = (if \<exists>c \<in> set s. (of_char c :: nat) \<ge> 128 then Inl (init_error ''ordinal not in range(128)'')
     else case b64decode True s of None \<Rightarrow> Inl (init_error ''invalid base64 data'') | Some bs \<Rightarrow> Inr bs)"

definition code_value :: "int option \<Rightarrow> pyval" where
  "code_value c = (case c of None \<Rightarrow> PNone | Some i \<Rightarrow> PInt i)"

definition read_request :: "pydict \<Rightarrow> broker_error + (string \<times> int)" where
  "read_request req = (let stream = get_str req ''stream'' in
     if stream \<notin> {''stdout'', ''stderr''} then Inl (init_error ''Broker process stream is invalid'')
     else case (case map_of req ''size'' of None \<Rightarrow> PInt 65536 | Some v \<Rightarrow> v) of
         PInt n \<Rightarrow> if 1 \<le> n \<and> n \<le> 1024 * 1024 then Inr (stream, n) else Inl (init_error ''Broker process read size is invalid'')
       | _ \<Rightarrow> Inl (init_error ''Broker process read size is invalid''))"

text \<open>The dispatch of \<open>control\<close> on the process object.\<close>

definition process_operation :: "'w process_host \<Rightarrow> string list \<Rightarrow> string \<Rightarrow> pydict \<Rightarrow> ('w, pydict) process_call" where
  "process_operation h schedule operation req =
     (if operation = ''process_poll'' then bind_action (proc_poll h) (\<lambda>c. lift_action (Inr [(''returncode'', code_value c)]))
      else if operation = ''process_wait'' then
        bind_action (lift_action (timeout_of (py_get req ''timeout''))) (\<lambda>t.
        bind_action (proc_wait h t) (\<lambda>c. lift_action (Inr [(''returncode'', code_value c)])))
      else if operation = ''process_read'' then
        bind_action (lift_action (read_request req)) (\<lambda>(stream, n).
        bind_action (proc_read h stream n) (\<lambda>bs. lift_action (Inr [(''data'', PStr (b64encode bs))])))
      else if operation = ''process_write'' then
        (case py_get req ''data'' of
           PStr s \<Rightarrow> bind_action (lift_action (decode_input s)) (\<lambda>bs. bind_action (proc_write h bs) (\<lambda>n. lift_action (Inr [(''written'', PInt n)])))
         | _ \<Rightarrow> lift_action (Inl (init_error ''Broker process input is invalid'')))
      else if operation = ''process_close_stdin'' then bind_action (proc_close_stdin h) (\<lambda>_. lift_action (Inr [(''closed'', PBool True)]))
      else if operation = ''process_communicate'' then
        bind_action (lift_action (case py_get req ''input'' of PStr s \<Rightarrow> bind_result (decode_input s) (\<lambda>bs. Inr (Some bs)) | _ \<Rightarrow> Inr None)) (\<lambda>inp.
        bind_action (lift_action (timeout_of (py_get req ''timeout''))) (\<lambda>t.
        bind_action (proc_communicate h schedule inp t) (\<lambda>(code, out, err).
          lift_action (Inr [(''returncode'', code_value code), (''stdout'', PStr (b64encode out)), (''stderr'', PStr (b64encode err))]))))
      else if operation \<in> {''process_terminate'', ''process_kill''} then bind_action (proc_terminate h) (\<lambda>c. lift_action (Inr [(''returncode'', code_value c)]))
      else lift_action (Inl (init_error ''Broker process operation is unsupported'')))"

definition native_control :: "'w native_host \<Rightarrow> string list \<Rightarrow> string \<Rightarrow> pydict \<Rightarrow> ('w native, broker_error, pydict) raising" where
  "native_control h schedule operation req =
     bind_action (lift_action (required_text req ''process_id'')) (\<lambda>pid.
     bind_action (lift_action (required_text req ''backend_instance_id'')) (\<lambda>backend a.
       case map_of (nt_processes a) pid of
         None \<Rightarrow> (a, Inl (init_error ''Broker process is unavailable''))
       | Some l \<Rightarrow>
           if nl_backend l \<noteq> backend then (a, Inl (init_error ''Broker process is unavailable''))
           else if nl_failure_code l \<noteq> None then (a, Inl (BrokerError ''resource_exceeded'' ''Broker process exceeded a sandbox resource limit''))
           else (case process_operation (nh_process h) schedule operation req (nl_process l) of (p, r) \<Rightarrow> (store_process pid p a, r))))"

definition resource_exceeded :: "'w native_host \<Rightarrow> string \<Rightarrow> 'w native \<Rightarrow> 'w native" where
  "resource_exceeded h pid a = (case map_of (nt_processes a) pid of
      None \<Rightarrow> a
    | Some l \<Rightarrow> a\<lparr>nt_processes := AList.map_entry pid (\<lambda>l. l\<lparr>nl_failure_code := Some ''resource_exceeded'',
         nl_process := fst (proc_terminate (nh_process h) (nl_process l))\<rparr>) (nt_processes a)\<rparr>)"

section \<open>Shutdown\<close>

fun close_all_reservations :: "'w native_host \<Rightarrow> reservation list \<Rightarrow> ('w native, broker_error, unit) raising" where
  "close_all_reservations h [] a = (a, Inr ())"
| "close_all_reservations h (r # rs) a = bind_action (close_reservation h r) (\<lambda>_. close_all_reservations h rs) a"

fun close_all_leases :: "'w native_host \<Rightarrow> 'w native_lease list \<Rightarrow> ('w native, broker_error, unit) raising" where
  "close_all_leases h [] a = (a, Inr ())"
| "close_all_leases h (l # ls) a =
     (case proc_close (nh_process h) (nl_process l) of (_, r) \<Rightarrow>
      case close_handle h (DesktopHandle (nl_desktop l)) a of (b, ok) \<Rightarrow>
        if (case r of Inr _ \<Rightarrow> True | Inl _ \<Rightarrow> False) \<and> ok then close_all_leases h ls b
        else (b, Inl (init_error ''Broker adapter cleanup failed'')))"

definition native_close :: "'w native_host \<Rightarrow> ('w native, broker_error, unit) raising" where
  "native_close h a = bind_action (close_all_reservations h (dict_values (nt_reservations a))) (\<lambda>_. close_all_leases h (dict_values (nt_processes a)))
     (a\<lparr>nt_reservations := [], nt_processes := [], nt_jobs := []\<rparr>)"

text \<open>The adapter as the service sees it.\<close>

definition native_ops :: "'w native_host \<Rightarrow> string list \<Rightarrow> rat \<Rightarrow> 'w native adapter_ops" where
  "native_ops h schedule now = \<lparr>op_reserve = native_reserve h now, op_launch = native_launch h now, op_reclaim = native_reclaim h,
     op_release = native_release h, op_control = native_control h schedule, op_recover = native_recover h\<rparr>"

section \<open>A launch is authorised by its reservation, once\<close>

lemma close_parts_tables:
  "close_parts h r a = (b, r', ok) \<Longrightarrow> nt_reservations b = nt_reservations a \<and> nt_processes b = nt_processes a \<and> nt_jobs b = nt_jobs a \<and> nt_next b = nt_next a"
  by (auto simp: close_parts_def close_handle_def split: option.splits prod.splits if_splits)

lemma close_reservation_tables:
  "close_reservation h r a = (b, res) \<Longrightarrow> nt_reservations b = nt_reservations a \<and> nt_processes b = nt_processes a \<and> nt_jobs b = nt_jobs a \<and> nt_next b = nt_next a"
  by (auto simp: close_reservation_def dest: close_parts_tables split: prod.splits)

lemma delete_filter: "AList.delete k d = filter (\<lambda>(x, v). x \<noteq> k) d"
  by (induction d) auto

lemma purge_each_ok:
  "purge_each h ks a = (b, Inr u) \<Longrightarrow> nt_reservations b = filter (\<lambda>(k, r). k \<notin> set ks) (nt_reservations a)"
proof (induction ks arbitrary: a)
  case Nil
  then show ?case by (simp add: case_prod_beta)
next
  case (Cons k ks)
  show ?case
  proof (cases "map_of (nt_reservations a) k")
    case None
    then have "\<forall>(x, r) \<in> set (nt_reservations a). x \<noteq> k" by (force simp: map_of_eq_None_iff)
    moreover have "nt_reservations b = filter (\<lambda>(x, r). x \<notin> set ks) (nt_reservations a)" using Cons None by simp
    ultimately show ?thesis by (auto intro!: filter_cong)
  next
    case (Some r)
    let ?a = "a\<lparr>nt_reservations := AList.delete k (nt_reservations a)\<rparr>"
    from Cons.prems Some obtain c v where "close_reservation h r ?a = (c, Inr v)" "purge_each h ks c = (b, Inr u)"
      by (auto simp: bind_action_Inr)
    with Cons.IH [of c] close_reservation_tables [of h r ?a c] show ?thesis
      by (simp add: delete_filter) (auto intro!: filter_cong)
  qed
qed

lemma map_of_filter_kept: "P k \<Longrightarrow> map_of (filter (\<lambda>(x, v). P x) d) k = map_of d k"
  by (induction d) auto

lemma purge_expired_ok:
  assumes "purge_expired h now a = (b, Inr u)" "map_of (nt_reservations b) k = Some r"
  shows "map_of (nt_reservations a) k = Some r \<and> now < re_expires_at r"
proof -
  let ?ks = "map fst (filter (\<lambda>(k, r). re_expires_at r \<le> now) (nt_reservations a))"
  have b: "nt_reservations b = filter (\<lambda>(x, r). x \<notin> set ?ks) (nt_reservations a)"
    using purge_each_ok assms(1) unfolding purge_expired_def by blast
  have in_b: "(k, r) \<in> set (nt_reservations b)" using assms(2) by (rule map_of_SomeD)
  then have not_expired: "k \<notin> set ?ks" "(k, r) \<in> set (nt_reservations a)" unfolding b by auto
  then have "\<not> re_expires_at r \<le> now" by force
  with not_expired(1) assms(2) show ?thesis unfolding b by (simp add: map_of_filter_kept [where P = "\<lambda>x. x \<notin> set ?ks"] del: set_map set_filter)
qed

definition same_path :: "'w native_host \<Rightarrow> string \<Rightarrow> string \<Rightarrow> bool" where
  "same_path h v w \<longleftrightarrow> nh_absolute h v \<and> nh_absolute h w \<and> nh_canonical h v = nh_canonical h w"

definition text_of :: "pydict \<Rightarrow> string \<Rightarrow> string" where
  "text_of d k = (case py_get d k of PStr s \<Rightarrow> s | _ \<Rightarrow> [])"

lemma required_text_Inr: "required_text d k = Inr s \<Longrightarrow> text_of d k = s"
  by (auto simp: required_text_def text_field_def text_of_def py_get_def split: option.splits pyval.splits if_splits)

lemma canonical_path_Inr: "canonical_absolute_path h v = Inr p \<longleftrightarrow> nh_absolute h v \<and> p = nh_canonical h v"
  by (auto simp: canonical_absolute_path_def)

lemma required_path_Inr: "required_path h d k = Inr p \<Longrightarrow> nh_absolute h (text_of d k) \<and> p = nh_canonical h (text_of d k)"
  by (auto simp: required_path_def bind_result_Inr canonical_path_Inr dest!: required_text_Inr)

lemma temp_matches_True: "temp_matches h expected env k = Inr True \<Longrightarrow> nh_absolute h (text_of env k) \<and> nh_canonical h (text_of env k) = expected"
  by (auto simp: temp_matches_def text_of_def bind_result_Inr canonical_path_Inr split: pyval.splits)

lemma launch_paths_Inr:
  assumes "launch_paths h policy req env = Inr (Inr cwd)"
  shows "cwd = nh_canonical h (text_of req ''cwd'') \<and> same_path h (text_of req ''cwd'') (text_of policy ''cwd'')
    \<and> same_path h (text_of env ''TEMP'') (text_of policy ''temp_dir'') \<and> same_path h (text_of env ''TMP'') (text_of policy ''temp_dir'')"
proof -
  from assms obtain temp where "required_path h req ''cwd'' = Inr cwd" "required_path h policy ''cwd'' = Inr cwd" "required_path h policy ''temp_dir'' = Inr temp"
    "temp_matches h temp env ''TEMP'' = Inr True" "temp_matches h temp env ''TMP'' = Inr True"
    by (auto simp: launch_paths_def bind_result_Inr split: if_splits)
  then show ?thesis by (auto simp: same_path_def dest!: required_path_Inr temp_matches_True)
qed

lemma start_process_Inr:
  "start_process h r argv cwd env a = (b, Inr ans) \<Longrightarrow> nt_reservations b = nt_reservations a
     \<and> (\<exists>pid p. nh_start h argv cwd env = Inr (pid, p))"
  by (auto simp: start_process_def close_handle_def Let_def split: sum.splits option.splits prod.splits if_splits)

lemma drop_and_raise_not_Inr: "drop_and_raise h r e a \<noteq> (b, Inr x)"
  by (auto simp: drop_and_raise_def bind_action_def split: prod.splits sum.splits)

lemma owns_Inr: "owns r f = Inr True \<Longrightarrow> re_backend r = lf_backend f \<and> re_user r = lf_user f \<and> re_policy_hash r = lf_policy_hash f \<and> re_capability_digest r = lf_digest f"
  by (auto simp: owns_def bind_result_Inr dest!: compare_digest_True split: if_splits)

lemma launch_checked_Inr:
  assumes "launch_checked h r req argv env a = (b, Inr answer)"
  obtains cwd where "launch_paths h (re_policy r) req env = Inr (Inr cwd)"
    "start_process h r argv cwd (map (\<lambda>(k, v). (k, py_str v)) env) a = (b, Inr answer)"
  using assms unfolding launch_checked_def by (auto simp: drop_and_raise_not_Inr split: sum.splits option.splits)

lemma launch_reserved_Inr:
  assumes "launch_reserved h f r req a = (b, Inr answer)"
  obtains argv env where "owns r f = Inr True" "py_get req ''environment'' = PDict env" "launch_checked h r req argv env a = (b, Inr answer)"
  using assms unfolding launch_reserved_def by (auto simp: drop_and_raise_not_Inr split: sum.splits option.splits pyval.splits if_splits)

lemma native_launch_Inr:
  assumes "native_launch h now req a = (a', Inr answer)"
  obtains f a0 r argv env cwd
  where "launch_fields_of req = Inr f" "purge_expired h now a = (a0, Inr ())" "map_of (nt_reservations a0) (lf_reservation f) = Some r"
    "owns r f = Inr True" "py_get req ''environment'' = PDict env" "launch_paths h (re_policy r) req env = Inr (Inr cwd)"
    "start_process h r argv cwd (map (\<lambda>(k, v). (k, py_str v)) env) (a0\<lparr>nt_reservations := AList.delete (lf_reservation f) (nt_reservations a0)\<rparr>) = (a', Inr answer)"
proof -
  from assms obtain f a0 r where f: "launch_fields_of req = Inr f" "purge_expired h now a = (a0, Inr ())" "map_of (nt_reservations a0) (lf_reservation f) = Some r"
    and l: "launch_reserved h f r req (a0\<lparr>nt_reservations := AList.delete (lf_reservation f) (nt_reservations a0)\<rparr>) = (a', Inr answer)"
    unfolding native_launch_def by (auto simp: bind_action_Inr split: option.splits)
  from l show thesis by (elim launch_reserved_Inr launch_checked_Inr) (rule that [OF f])
qed

text \<open>C18. A process starts only for a reservation that is stored and not expired, for the backend, the user, the policy hash and
  the capability digest it was made for, in the working directory and with the temporary directory its policy names. The
  reservation is consumed: no later launch with its identifier succeeds unless it is reserved again.\<close>

theorem launch_authorised:
  assumes "native_launch h now req a = (a', Inr answer)"
  shows "\<exists>r rid env. text_of req ''reservation_id'' = rid \<and> map_of (nt_reservations a) rid = Some r \<and> now < re_expires_at r
    \<and> re_backend r = text_of req ''backend_instance_id'' \<and> re_user r = text_of req ''user_id''
    \<and> re_policy_hash r = text_of req ''policy_hash'' \<and> re_capability_digest r = text_of req ''capability_digest''
    \<and> same_path h (text_of req ''cwd'') (text_of (re_policy r) ''cwd'')
    \<and> py_get req ''environment'' = PDict env
    \<and> same_path h (text_of env ''TEMP'') (text_of (re_policy r) ''temp_dir'') \<and> same_path h (text_of env ''TMP'') (text_of (re_policy r) ''temp_dir'')
    \<and> rid \<notin> keys (nt_reservations a')
    \<and> (\<forall>now' req'. text_of req' ''reservation_id'' = rid \<longrightarrow> (\<exists>e. snd (native_launch h now' req' a') = Inl e))"
proof -
  from assms obtain f a0 r argv env cwd where l: "launch_fields_of req = Inr f" "purge_expired h now a = (a0, Inr ())"
      "map_of (nt_reservations a0) (lf_reservation f) = Some r" "owns r f = Inr True" "py_get req ''environment'' = PDict env"
      "launch_paths h (re_policy r) req env = Inr (Inr cwd)"
    and s: "start_process h r argv cwd (map (\<lambda>(k, v). (k, py_str v)) env) (a0\<lparr>nt_reservations := AList.delete (lf_reservation f) (nt_reservations a0)\<rparr>) = (a', Inr answer)"
    by (rule native_launch_Inr)
  have f: "text_of req ''reservation_id'' = lf_reservation f" "text_of req ''backend_instance_id'' = lf_backend f" "text_of req ''user_id'' = lf_user f"
      "text_of req ''policy_hash'' = lf_policy_hash f" "text_of req ''capability_digest'' = lf_digest f"
    using l(1) by (auto simp: launch_fields_of_def bind_result_Inr dest!: required_text_Inr)
  have gone: "lf_reservation f \<notin> keys (nt_reservations a')" using start_process_Inr [OF s] by (simp add: delete_filter) auto
  have once: "\<exists>e. snd (native_launch h now' req' a') = Inl e" if "text_of req' ''reservation_id'' = lf_reservation f" for now' req'
  proof (cases "snd (native_launch h now' req' a')")
    case (Inr ans)
    then obtain b where "native_launch h now' req' a' = (b, Inr ans)" by (metis prod.collapse)
    then obtain f' a1 r' where "launch_fields_of req' = Inr f'" "purge_expired h now' a' = (a1, Inr ())" "map_of (nt_reservations a1) (lf_reservation f') = Some r'"
      by (rule native_launch_Inr)
    moreover then have "lf_reservation f' = lf_reservation f"
      using that by (auto simp: launch_fields_of_def bind_result_Inr dest!: required_text_Inr)
    ultimately have "map_of (nt_reservations a') (lf_reservation f) = Some r'" using purge_expired_ok by metis
    with gone show ?thesis by (metis map_of_eq_None_iff option.distinct(1))
  qed simp
  show ?thesis
    using purge_expired_ok [OF l(2,3)] owns_Inr [OF l(4)] launch_paths_Inr [OF l(6)] l(5) gone once f by auto
qed

end
