(* ===== verification/BrokerHandles.thy ===== *)
theory BrokerHandles
  imports BrokerAdapter
begin

text \<open>
  Ownership of the tokens and desktops of the native broker adapter. Every open token or desktop belongs to a stored
  reservation or to a running process, in every state reached by calls whose paths are valid, on a host where
  closing succeeds; a released job leaves nothing behind. The one way a token or a desktop is dropped without being
  closed is a path that is refused: the theory states both places of the code where that happens.
\<close>

section \<open>Held handles\<close>

definition reservation_handles :: "reservation \<Rightarrow> os_handle set" where
  "reservation_handles r = insert (DesktopHandle (re_desktop r)) (case re_token r of None \<Rightarrow> {} | Some t \<Rightarrow> {TokenHandle t})"

definition held :: "'w native \<Rightarrow> os_handle set" where
  "held a = \<Union> (reservation_handles ` snd ` set (nt_reservations a)) \<union> (\<lambda>l. DesktopHandle (nl_desktop l)) ` snd ` set (nt_processes a)"

definition lease_identity :: "'w native_lease \<Rightarrow> job_identity" where
  "lease_identity l = (nl_backend l, nl_user l, nl_job l)"

definition reservation_key :: "'w native_host \<Rightarrow> nat \<Rightarrow> string" where
  "reservation_key h n = ''reservation-'' @ nh_uuid h n"

definition process_key :: "'w native_host \<Rightarrow> nat \<Rightarrow> string" where
  "process_key h n = ''process-'' @ nh_uuid h n"

text \<open>The tables fit together: identifiers are fresh, a job and its process name each other, and no job has two entries.\<close>

definition tables_ok :: "'w native_host \<Rightarrow> 'w native \<Rightarrow> bool" where
  "tables_ok h a \<longleftrightarrow> wf_dict (nt_reservations a) \<and> wf_dict (nt_processes a) \<and> wf_dict (nt_jobs a)
     \<and> keys (nt_reservations a) \<subseteq> reservation_key h ` {..<nt_next a}
     \<and> keys (nt_processes a) \<subseteq> process_key h ` {..<nt_next a}
     \<and> (\<forall>(p, l) \<in> set (nt_processes a). map_of (nt_jobs a) (lease_identity l) = Some p)
     \<and> (\<forall>(i, p) \<in> set (nt_jobs a). \<exists>l. map_of (nt_processes a) p = Some l \<and> lease_identity l = i)
     \<and> (\<forall>(k, r) \<in> set (nt_reservations a). \<forall>(k', r') \<in> set (nt_reservations a). reservation_identity r = reservation_identity r' \<longrightarrow> k = k')
     \<and> (\<forall>(k, r) \<in> set (nt_reservations a). reservation_identity r \<notin> keys (nt_jobs a))"

definition owned_upto :: "'w native_host \<Rightarrow> os_handle set \<Rightarrow> 'w native \<Rightarrow> bool" where
  "owned_upto h X a \<longleftrightarrow> tables_ok h a \<and> set (nt_open a) \<subseteq> held a \<union> X"

definition closing :: "'w native_host \<Rightarrow> bool" where
  "closing h \<longleftrightarrow> (\<forall>x. nh_close h x) \<and> inj (nh_uuid h)"

section \<open>Closing\<close>

lemma close_handle_closing: "closing h \<Longrightarrow> close_handle h x a = (a\<lparr>nt_open := removeAll x (nt_open a)\<rparr>, True)"
  by (simp add: close_handle_def closing_def)

lemma close_parts_closing:
  assumes "closing h"
  shows "close_parts h r a = (a\<lparr>nt_open := filter (\<lambda>x. x \<notin> reservation_handles r) (nt_open a)\<rparr>, r\<lparr>re_token := None\<rparr>, True)"
proof (cases "re_token r")
  case None
  then show ?thesis
    using assms by (simp add: close_parts_def close_handle_closing reservation_handles_def removeAll_filter_not_eq eq_commute)
next
  case (Some t)
  then show ?thesis
    using assms by (simp add: close_parts_def close_handle_closing reservation_handles_def removeAll_filter_not_eq eq_commute conj_commute)
qed

lemma close_reservation_closing:
  "closing h \<Longrightarrow> close_reservation h r a = (a\<lparr>nt_open := filter (\<lambda>x. x \<notin> reservation_handles r) (nt_open a)\<rparr>, Inr ())"
  by (simp add: close_reservation_def close_parts_closing)

lemma drop_and_raise_closing:
  "closing h \<Longrightarrow> drop_and_raise h r e a = (a\<lparr>nt_open := filter (\<lambda>x. x \<notin> reservation_handles r) (nt_open a)\<rparr>, Inl e)"
  by (simp add: drop_and_raise_def bind_action_def close_reservation_closing)

lemma tables_ok_open [simp]: "tables_ok h (a\<lparr>nt_open := os\<rparr>) = tables_ok h a" "held (a\<lparr>nt_open := os\<rparr>) = held a"
  by (simp_all add: tables_ok_def held_def)

lemma owned_upto_open:
  "owned_upto h X a \<Longrightarrow> set os \<subseteq> set (nt_open a) - Y \<Longrightarrow> X \<subseteq> Y \<union> Z \<Longrightarrow> owned_upto h Z (a\<lparr>nt_open := os\<rparr>)"
  by (auto simp: owned_upto_def)

lemma owned_upto_close:
  "owned_upto h (X \<union> reservation_handles r) a
     \<Longrightarrow> owned_upto h X (a\<lparr>nt_open := filter (\<lambda>x. x \<notin> reservation_handles r) (nt_open a)\<rparr>)"
  by (rule owned_upto_open [where Y = "reservation_handles r"]) auto

lemma set_delete: "set (AList.delete k d) = {(k', v) \<in> set d. k' \<noteq> k}"
  by (auto simp: delete_filter)

text \<open>A reservation that is taken out of the table leaves its handles unowned.\<close>

lemma take_reservation:
  assumes "owned_upto h X a" "map_of (nt_reservations a) k = Some r"
  shows "owned_upto h (X \<union> reservation_handles r) (a\<lparr>nt_reservations := AList.delete k (nt_reservations a)\<rparr>)"
proof -
  let ?b = "a\<lparr>nt_reservations := AList.delete k (nt_reservations a)\<rparr>"
  have t: "tables_ok h a" using assms by (simp add: owned_upto_def)
  then have "tables_ok h ?b" unfolding tables_ok_def by (auto simp: set_delete)
  moreover have same: "r' = r" if "(k, r') \<in> set (nt_reservations a)" for r'
    using that t assms(2) by (simp add: tables_ok_def wf_dict_map_of_iff [symmetric])
  then have "held a \<subseteq> held ?b \<union> reservation_handles r" by (fastforce simp: held_def set_delete)
  ultimately show ?thesis using assms(1) by (auto simp: owned_upto_def)
qed

lemma unique_identity:
  assumes "tables_ok h a" "(k, r) \<in> set (nt_reservations a)" "(k', r') \<in> set (nt_reservations a)" "reservation_identity r = reservation_identity r'"
  shows "k = k'"
proof -
  have "\<forall>(k, r) \<in> set (nt_reservations a). \<forall>(k', r') \<in> set (nt_reservations a). reservation_identity r = reservation_identity r' \<longrightarrow> k = k'"
    using assms(1) unfolding tables_ok_def by blast
  with assms(2-4) show ?thesis by blast
qed

lemma taken_identity:
  assumes "owned_upto h X a" "map_of (nt_reservations a) k = Some r" "(k', r') \<in> set (AList.delete k (nt_reservations a))"
  shows "reservation_identity r' \<noteq> reservation_identity r"
proof
  assume "reservation_identity r' = reservation_identity r"
  moreover have "(k', r') \<in> set (nt_reservations a)" "k' \<noteq> k" using assms(3) by (auto simp: set_delete)
  moreover have "(k, r) \<in> set (nt_reservations a)" using assms(2) by (rule map_of_SomeD)
  ultimately show False using assms(1) unique_identity unfolding owned_upto_def by metis
qed

lemma taken_not_job: "owned_upto h X a \<Longrightarrow> map_of (nt_reservations a) k = Some r \<Longrightarrow> reservation_identity r \<notin> keys (nt_jobs a)"
  by (auto simp: owned_upto_def tables_ok_def dest!: map_of_SomeD)

lemma purge_each_owned:
  assumes "closing h"
  shows "owned_upto h X a \<Longrightarrow> owned_upto h X (fst (purge_each h ks a)) \<and> snd (purge_each h ks a) = Inr ()
    \<and> keys (nt_reservations (fst (purge_each h ks a))) \<subseteq> keys (nt_reservations a)
    \<and> nt_next (fst (purge_each h ks a)) = nt_next a"
proof (induction ks arbitrary: a)
  case (Cons k ks)
  show ?case
  proof (cases "map_of (nt_reservations a) k")
    case (Some r)
    let ?a = "a\<lparr>nt_reservations := AList.delete k (nt_reservations a)\<rparr>"
    have "owned_upto h X (?a\<lparr>nt_open := filter (\<lambda>x. x \<notin> reservation_handles r) (nt_open ?a)\<rparr>)"
      by (rule owned_upto_close [OF take_reservation [OF Cons.prems Some]])
    from Cons.IH [OF this] Some show ?thesis
      by (auto simp: bind_action_def close_reservation_closing [OF assms] set_delete)
  qed (use Cons in simp)
qed simp

lemma purge_expired_owned:
  assumes "closing h" "owned_upto h X a"
  shows "owned_upto h X (fst (purge_expired h now a))" "snd (purge_expired h now a) = Inr ()"
    "keys (nt_reservations (fst (purge_expired h now a))) \<subseteq> keys (nt_reservations a)"
    "nt_next (fst (purge_expired h now a)) = nt_next a"
  using purge_each_owned [OF assms] unfolding purge_expired_def by blast+

section \<open>Reserving\<close>

definition reserve_valid :: "'w native_host \<Rightarrow> pydict \<Rightarrow> bool" where
  "reserve_valid h req = (case reserve_fields_of h req of Inl _ \<Rightarrow> True
     | Inr f \<Rightarrow> (case reserve_paths h (rf_policy f) of Inl _ \<Rightarrow> False | Inr _ \<Rightarrow> True))"

lemma add_reservation:
  assumes "owned_upto h (reservation_handles r) a" "re_id r = reservation_key h n" "n < nt_next a" "re_id r \<notin> keys (nt_reservations a)"
    "reservation_identity r \<notin> keys (nt_jobs a)" "reservation_identity r \<notin> reservation_identity ` set (dict_values (nt_reservations a))"
  shows "owned_upto h {} (a\<lparr>nt_reservations := AList.update (re_id r) r (nt_reservations a)\<rparr>)"
proof -
  let ?b = "a\<lparr>nt_reservations := AList.update (re_id r) r (nt_reservations a)\<rparr>"
  have new: "nt_reservations ?b = nt_reservations a @ [(re_id r, r)]" using assms(4) by (simp add: update_new_append)
  have t: "tables_ok h a" using assms(1) by (simp add: owned_upto_def)
  have other: "(k, r') \<in> set (nt_reservations a) \<Longrightarrow> reservation_identity r' \<noteq> reservation_identity r" for k r'
    using assms(6) by (metis image_eqI set_map snd_conv)
  have "tables_ok h ?b"
    unfolding tables_ok_def
  proof (intro conjI)
    show "wf_dict (nt_reservations ?b)" "wf_dict (nt_processes ?b)" "wf_dict (nt_jobs ?b)"
      "keys (nt_processes ?b) \<subseteq> process_key h ` {..<nt_next ?b}"
      "\<forall>(p, l) \<in> set (nt_processes ?b). map_of (nt_jobs ?b) (lease_identity l) = Some p"
      "\<forall>(i, p) \<in> set (nt_jobs ?b). \<exists>l. map_of (nt_processes ?b) p = Some l \<and> lease_identity l = i"
      using t by (simp_all add: tables_ok_def)
    show "keys (nt_reservations ?b) \<subseteq> reservation_key h ` {..<nt_next ?b}" using t assms(2,3) by (auto simp: tables_ok_def)
    show "\<forall>(k, r) \<in> set (nt_reservations ?b). reservation_identity r \<notin> keys (nt_jobs ?b)"
      using t assms(5) unfolding new by (auto simp: tables_ok_def)
    show "\<forall>(k, r) \<in> set (nt_reservations ?b). \<forall>(k', r') \<in> set (nt_reservations ?b). reservation_identity r = reservation_identity r' \<longrightarrow> k = k'"
      unfolding new using other unique_identity [OF t] by (auto, metis+)
  qed
  moreover have "held a \<union> reservation_handles r \<subseteq> held ?b" unfolding held_def new by auto
  ultimately show ?thesis using assms(1) by (auto simp: owned_upto_def)
qed

lemma store_reservation_owned:
  assumes "closing h" "owned_upto h (reservation_handles r) a" "re_id r = reservation_key h n" "n < nt_next a" "re_id r \<notin> keys (nt_reservations a)"
  shows "owned_upto h {} (fst (store_reservation h now r a))"
proof -
  obtain b u where p: "purge_expired h now a = (b, u)" by fastforce
  with purge_expired_owned [OF assms(1,2), of now]
  have b: "owned_upto h (reservation_handles r) b" "u = Inr ()" "keys (nt_reservations b) \<subseteq> keys (nt_reservations a)" "nt_next b = nt_next a" by simp_all
  show ?thesis
    using add_reservation [OF b(1) assms(3)] b assms(4,5) owned_upto_close [of h "{}" r b]
    by (auto simp: store_reservation_def bind_action_def p drop_and_raise_closing [OF assms(1)])
qed

lemma owned_upto_new: "owned_upto h {} a \<Longrightarrow> owned_upto h (insert x X) (a\<lparr>nt_next := Suc (nt_next a), nt_open := x # nt_open a\<rparr>)"
  unfolding owned_upto_def tables_ok_def held_def by auto

lemma fresh_keys:
  assumes "closing h" "tables_ok h a"
  shows "reservation_key h (nt_next a) \<notin> keys (nt_reservations a)" "process_key h (nt_next a) \<notin> keys (nt_processes a)"
proof -
  have "inj (reservation_key h)" "inj (process_key h)"
    using assms(1) by (simp_all add: closing_def inj_def reservation_key_def process_key_def)
  then have "reservation_key h (nt_next a) \<notin> reservation_key h ` {..<nt_next a}" "process_key h (nt_next a) \<notin> process_key h ` {..<nt_next a}"
    by (simp_all add: inj_image_mem_iff)
  moreover have "keys (nt_reservations a) \<subseteq> reservation_key h ` {..<nt_next a}" "keys (nt_processes a) \<subseteq> process_key h ` {..<nt_next a}"
    using assms(2) unfolding tables_ok_def by blast+
  ultimately show "reservation_key h (nt_next a) \<notin> keys (nt_reservations a)" "process_key h (nt_next a) \<notin> keys (nt_processes a)" by blast+
qed

lemma native_reserve_owned:
  assumes "closing h" "owned_upto h {} a" "reserve_valid h req"
  shows "owned_upto h {} (fst (native_reserve h now req a))"
proof (cases "reserve_fields_of h req")
  case f: (Inr f)
  show ?thesis
  proof (cases "nh_reserve_token h (account_for h (rf_network_mode f)) (rf_file_mode f)")
    case tok: (Inr t)
    obtain logon acct wcap tcap where t: "t = (logon, acct, wcap, tcap)" by (metis prod_cases4)
    obtain ws temp cwd where p: "reserve_paths h (rf_policy f) = Inr (ws, temp, cwd)"
      using assms(3) f by (auto simp: reserve_valid_def split: sum.splits)
    let ?n = "nt_next a"
    let ?a1 = "a\<lparr>nt_next := Suc ?n, nt_open := TokenHandle ?n # nt_open a\<rparr>"
    have "set (removeAll (TokenHandle ?n) (nt_open ?a1)) \<subseteq> set (nt_open ?a1) - {TokenHandle ?n}" by auto
    from owned_upto_open [OF owned_upto_new [OF assms(2), of "TokenHandle ?n" "{}"] this, of "{}"]
    have drop: "owned_upto h {} (fst (close_and_raise h (TokenHandle ?n) e ?a1 :: 'a native \<times> (broker_error + pydict)))" for e
      by (simp add: close_and_raise_def close_handle_closing [OF assms(1)])
    have keyfresh: "reservation_key h ?n \<notin> keys (nt_reservations a)" using fresh_keys [OF assms(1)] assms(2) by (simp add: owned_upto_def)
    let ?a2 = "a\<lparr>nt_next := Suc ?n, nt_open := DesktopHandle ?n # TokenHandle ?n # nt_open a\<rparr>"
    have a2: "owned_upto h {DesktopHandle ?n, TokenHandle ?n} ?a2"
      using owned_upto_new [OF assms(2), of "TokenHandle ?n" "{}"] unfolding owned_upto_def by (auto simp: tables_ok_def held_def)
    have store: "owned_upto h {} (fst (store_reservation h now r ?a2))" if "re_id r = reservation_key h ?n" "re_token r = Some ?n" "re_desktop r = ?n" for r
      by (rule store_reservation_owned [OF assms(1) _ that(1)]) (use a2 that keyfresh in \<open>simp_all add: reservation_handles_def\<close>)
    have bound: "owned_upto h {} (fst (bind_action m (\<lambda>_. lift_action (Inr x)) s))" if "owned_upto h {} (fst (m s))" for m s and x :: pydict
      using that by (auto simp: bind_action_def split: prod.splits sum.splits)
    show ?thesis
      using drop by (auto simp: native_reserve_def f tok t p Let_def reservation_key_def split: option.split intro!: bound store)
  qed (use assms f in \<open>simp add: native_reserve_def\<close>)
qed (use assms in \<open>simp add: native_reserve_def\<close>)

section \<open>Launching\<close>

text \<open>The comparisons and the path checks of \<open>launch\<close> do not raise for the reservation the request names.\<close>

definition launch_valid :: "'w native_host \<Rightarrow> pydict \<Rightarrow> 'w native \<Rightarrow> bool" where
  "launch_valid h req a = (case launch_fields_of req of Inl _ \<Rightarrow> True
     | Inr f \<Rightarrow> (case map_of (nt_reservations a) (lf_reservation f) of None \<Rightarrow> True
        | Some r \<Rightarrow> (case owns r f of Inl _ \<Rightarrow> False | Inr _ \<Rightarrow>
            (case py_get req ''environment'' of PDict env \<Rightarrow> (case launch_paths h (re_policy r) req env of Inl _ \<Rightarrow> False | Inr _ \<Rightarrow> True) | _ \<Rightarrow> True))))"

lemma process_job:
  assumes "tables_ok h a" "(p, l) \<in> set (nt_processes a)"
  shows "map_of (nt_jobs a) (lease_identity l) = Some p"
proof -
  have "\<forall>(p, l) \<in> set (nt_processes a). map_of (nt_jobs a) (lease_identity l) = Some p" using assms(1) by (simp add: tables_ok_def)
  with assms(2) show ?thesis by blast
qed

lemma job_process:
  assumes "tables_ok h a" "(i, p) \<in> set (nt_jobs a)"
  shows "\<exists>l. map_of (nt_processes a) p = Some l \<and> lease_identity l = i"
proof -
  have "\<forall>(i, p) \<in> set (nt_jobs a). \<exists>l. map_of (nt_processes a) p = Some l \<and> lease_identity l = i" using assms(1) by (simp add: tables_ok_def)
  with assms(2) show ?thesis by blast
qed

lemma job_key: "map_of d k = Some v \<Longrightarrow> k \<in> keys d"
  by (metis fst_conv image_eqI map_of_SomeD)

lemma add_process:
  assumes "closing h" "owned_upto h {DesktopHandle (nl_desktop l)} a" "lease_identity l \<notin> keys (nt_jobs a)"
    "\<And>k r. (k, r) \<in> set (nt_reservations a) \<Longrightarrow> reservation_identity r \<noteq> lease_identity l"
  shows "owned_upto h {} (a\<lparr>nt_next := Suc (nt_next a), nt_processes := AList.update (process_key h (nt_next a)) l (nt_processes a),
     nt_jobs := AList.update (lease_identity l) (process_key h (nt_next a)) (nt_jobs a)\<rparr>)" (is "owned_upto h {} ?b")
proof -
  let ?p = "process_key h (nt_next a)"
  have t: "tables_ok h a" using assms(2) by (simp add: owned_upto_def)
  have fresh: "?p \<notin> keys (nt_processes a)" by (rule fresh_keys(2) [OF assms(1) t])
  have new: "nt_processes ?b = nt_processes a @ [(?p, l)]" "nt_jobs ?b = nt_jobs a @ [(lease_identity l, ?p)]"
    using fresh assms(3) by (simp_all add: update_new_append)
  note procs = process_job [OF t] and jobs = job_process [OF t]
  have "tables_ok h ?b"
    unfolding tables_ok_def
  proof (intro conjI)
    show "wf_dict (nt_reservations ?b)" "wf_dict (nt_processes ?b)" "wf_dict (nt_jobs ?b)" using t by (simp_all add: tables_ok_def)
    have "keys (nt_reservations a) \<subseteq> reservation_key h ` {..<nt_next a}" "keys (nt_processes a) \<subseteq> process_key h ` {..<nt_next a}"
      using t unfolding tables_ok_def by blast+
    then show "keys (nt_reservations ?b) \<subseteq> reservation_key h ` {..<nt_next ?b}" "keys (nt_processes ?b) \<subseteq> process_key h ` {..<nt_next ?b}"
      by (auto simp: less_Suc_eq)
    show "\<forall>(p, l) \<in> set (nt_processes ?b). map_of (nt_jobs ?b) (lease_identity l) = Some p"
      unfolding new(1) using procs assms(3) by (fastforce dest: job_key)
    show "\<forall>(i, p) \<in> set (nt_jobs ?b). \<exists>l. map_of (nt_processes ?b) p = Some l \<and> lease_identity l = i"
      unfolding new(2) using jobs fresh by (fastforce dest: job_key)
    show "\<forall>(k, r) \<in> set (nt_reservations ?b). \<forall>(k', r') \<in> set (nt_reservations ?b). reservation_identity r = reservation_identity r' \<longrightarrow> k = k'"
      using unique_identity [OF t] by auto
    have "\<forall>(k, r) \<in> set (nt_reservations a). reservation_identity r \<notin> keys (nt_jobs a)" using t unfolding tables_ok_def by blast
    then show "\<forall>(k, r) \<in> set (nt_reservations ?b). reservation_identity r \<notin> keys (nt_jobs ?b)" using assms(4) by auto
  qed
  moreover have "held a \<union> {DesktopHandle (nl_desktop l)} \<subseteq> held ?b" unfolding held_def new by auto
  ultimately show ?thesis using assms(2) by (auto simp: owned_upto_def)
qed

lemma start_process_owned:
  assumes "closing h" "owned_upto h (reservation_handles r) a" "reservation_identity r \<notin> keys (nt_jobs a)"
    "\<And>k r'. (k, r') \<in> set (nt_reservations a) \<Longrightarrow> reservation_identity r' \<noteq> reservation_identity r"
  shows "owned_upto h {} (fst (start_process h r argv cwd env a))"
proof -
  define close_token where "close_token = (\<lambda>b :: 'a native. case re_token r of None \<Rightarrow> (b, True) | Some t \<Rightarrow> close_handle h (TokenHandle t) b)"
  have tok: "\<exists>os. close_token b = (b\<lparr>nt_open := os\<rparr>, True) \<and> set os = set (nt_open b) - (case re_token r of None \<Rightarrow> {} | Some t \<Rightarrow> {TokenHandle t})" for b
    by (cases "re_token r") (auto simp: close_token_def close_handle_closing [OF assms(1)] intro: exI [of _ "nt_open b"])
  show ?thesis
  proof (cases "nh_start h argv cwd env")
    case (Inl e)
    obtain os where os: "close_token (a\<lparr>nt_open := removeAll (DesktopHandle (re_desktop r)) (nt_open a)\<rparr>) = (a\<lparr>nt_open := os\<rparr>, True)"
      "set os = set (nt_open a) - {DesktopHandle (re_desktop r)} - (case re_token r of None \<Rightarrow> {} | Some t \<Rightarrow> {TokenHandle t})"
      using tok [of "a\<lparr>nt_open := removeAll (DesktopHandle (re_desktop r)) (nt_open a)\<rparr>"] by auto
    have "owned_upto h {} (a\<lparr>nt_open := os\<rparr>)"
      by (rule owned_upto_open [OF assms(2), of _ "reservation_handles r"]) (use os(2) in \<open>auto simp: reservation_handles_def\<close>)
    then show ?thesis using os(1) by (simp add: start_process_def Inl close_token_def [symmetric] close_handle_closing [OF assms(1)] Let_def)
  next
    case (Inr x)
    obtain pid p where x: "x = (pid, p)" by fastforce
    obtain os where os: "close_token a = (a\<lparr>nt_open := os\<rparr>, True)" "set os = set (nt_open a) - (case re_token r of None \<Rightarrow> {} | Some t \<Rightarrow> {TokenHandle t})"
      using tok [of a] by blast
    let ?l = "\<lparr>nl_process_id = process_key h (nt_next a), nl_backend = re_backend r, nl_user = re_user r, nl_job = re_job r, nl_process = p,
      nl_desktop = re_desktop r, nl_failure_code = None\<rparr>"
    have l: "lease_identity ?l = reservation_identity r" by (simp add: lease_identity_def reservation_identity_def)
    have "owned_upto h {DesktopHandle (nl_desktop ?l)} (a\<lparr>nt_open := os\<rparr>)"
      by (rule owned_upto_open [OF assms(2), of _ "case re_token r of None \<Rightarrow> {} | Some t \<Rightarrow> {TokenHandle t}"]) (use os(2) in \<open>auto simp: reservation_handles_def\<close>)
    from add_process [OF assms(1) this] assms(3,4) have "owned_upto h {} (a\<lparr>nt_open := os, nt_next := Suc (nt_next a),
        nt_processes := AList.update (process_key h (nt_next a)) ?l (nt_processes a),
        nt_jobs := AList.update (reservation_identity r) (process_key h (nt_next a)) (nt_jobs a)\<rparr>)" unfolding l by simp
    then show ?thesis using os(1) by (simp add: start_process_def Inr x close_token_def [symmetric] Let_def process_key_def)
  qed
qed

lemma launch_reserved_owned:
  assumes "closing h" "owned_upto h (reservation_handles r) a" "reservation_identity r \<notin> keys (nt_jobs a)"
    "\<And>k r'. (k, r') \<in> set (nt_reservations a) \<Longrightarrow> reservation_identity r' \<noteq> reservation_identity r"
    "owns r f = Inr b" "\<And>env. py_get req ''environment'' = PDict env \<Longrightarrow> \<exists>x. launch_paths h (re_policy r) req env = Inr x"
  shows "owned_upto h {} (fst (launch_reserved h f r req a))"
proof -
  have drop: "owned_upto h {} (fst (drop_and_raise h r e a :: 'a native \<times> (broker_error + pydict)))" for e
    using owned_upto_close [of h "{}" r a] assms(2) by (simp add: drop_and_raise_closing [OF assms(1)])
  have "owned_upto h {} (fst (launch_checked h r req argv env a))" if "py_get req ''environment'' = PDict env" for argv env
    using assms(6) [OF that] drop start_process_owned [OF assms(1-4)]
    by (auto simp: launch_checked_def split: sum.splits option.splits)
  then show ?thesis using drop assms(5) by (auto simp: launch_reserved_def split: option.splits pyval.splits)
qed

lemma native_launch_owned:
  assumes "closing h" "owned_upto h {} a" "launch_valid h req a"
  shows "owned_upto h {} (fst (native_launch h now req a))"
proof (cases "launch_fields_of req")
  case f: (Inr f)
  obtain b where p: "purge_expired h now a = (b, Inr ())" using purge_expired_owned(2) [OF assms(1,2), of now] by (metis prod.collapse)
  then have b: "owned_upto h {} b" using purge_expired_owned(1) [OF assms(1,2), of now] by simp
  show ?thesis
  proof (cases "map_of (nt_reservations b) (lf_reservation f)")
    case None
    then show ?thesis using b by (simp add: native_launch_def f bind_action_def p)
  next
    case (Some r)
    then have "map_of (nt_reservations a) (lf_reservation f) = Some r" using purge_expired_ok [OF p Some] by simp
    then obtain ok where ok: "owns r f = Inr ok" "\<And>env. py_get req ''environment'' = PDict env \<Longrightarrow> \<exists>x. launch_paths h (re_policy r) req env = Inr x"
      using assms(3) f by (cases "py_get req ''environment''") (auto simp: launch_valid_def split: sum.splits)
    have "owned_upto h {} (fst (launch_reserved h f r req (b\<lparr>nt_reservations := AList.delete (lf_reservation f) (nt_reservations b)\<rparr>)))"
      by (rule launch_reserved_owned [OF assms(1) _ _ _ ok])
        (use take_reservation [OF b Some] taken_identity [OF b Some] taken_not_job [OF b Some] in simp_all)
    then show ?thesis by (simp add: native_launch_def f bind_action_def p Some)
  qed
qed (use assms in \<open>simp add: native_launch_def\<close>)

section \<open>Releasing\<close>

lemma close_reservations_owned:
  assumes "closing h"
  shows "owned_upto h X a \<Longrightarrow> (\<And>k r. (k, r) \<in> set ms \<Longrightarrow> map_of (nt_reservations a) k = Some r) \<Longrightarrow> distinct (map fst ms)
    \<Longrightarrow> \<exists>b. close_reservations h ms a = (b, True) \<and> owned_upto h X b \<and> nt_processes b = nt_processes a \<and> nt_jobs b = nt_jobs a
      \<and> nt_reservations b = filter (\<lambda>(k, r). k \<notin> fst ` set ms) (nt_reservations a)"
proof (induction ms arbitrary: a)
  case Nil
  then show ?case by (simp add: case_prod_beta)
next
  case (Cons m ms)
  obtain k r where m: "m = (k, r)" by fastforce
  let ?a = "a\<lparr>nt_open := filter (\<lambda>x. x \<notin> reservation_handles r) (nt_open a), nt_reservations := AList.delete k (nt_reservations a)\<rparr>"
  have k: "map_of (nt_reservations a) k = Some r" using Cons.prems(2) m by simp
  have a: "owned_upto h X ?a" using owned_upto_close [OF take_reservation [OF Cons.prems(1) k]] by (cases a) simp
  have keep: "map_of (nt_reservations ?a) k' = Some r'" if "(k', r') \<in> set ms" for k' r'
    using that Cons.prems(2) [of k' r'] Cons.prems(3) m by force
  obtain b where "close_reservations h ms ?a = (b, True)" "owned_upto h X b" "nt_processes b = nt_processes a" "nt_jobs b = nt_jobs a"
      "nt_reservations b = filter (\<lambda>(x, r). x \<notin> fst ` set ms) (AList.delete k (nt_reservations a))"
    using Cons.IH [OF a keep] Cons.prems(3) by auto
  then show ?case by (auto simp: m close_parts_closing [OF assms] delete_filter intro!: exI [of _ b] filter_cong)
qed

lemma map_entry_owned:
  assumes "owned_upto h X a" "\<And>l. nl_desktop (f l) = nl_desktop l" "\<And>l. lease_identity (f l) = lease_identity l"
  shows "owned_upto h X (a\<lparr>nt_processes := AList.map_entry pid f (nt_processes a)\<rparr>)"
proof -
  let ?b = "a\<lparr>nt_processes := AList.map_entry pid f (nt_processes a)\<rparr>"
  have t: "tables_ok h a" using assms(1) by (simp add: owned_upto_def)
  have entries: "(p, l) \<in> set (AList.map_entry pid f d) \<Longrightarrow> \<exists>l'. (p, l') \<in> set d \<and> (l = l' \<or> l = f l')" for p l d
    by (induction d) (auto split: if_splits)
  have lookup: "map_of d p = Some l \<Longrightarrow> \<exists>l'. map_of (AList.map_entry pid f d) p = Some l' \<and> lease_identity l' = lease_identity l" for p l d
    using assms(3) by (auto simp: map_of_map_entry)
  have desktops: "(\<lambda>l. DesktopHandle (nl_desktop l)) ` snd ` set (AList.map_entry pid f d) = (\<lambda>l. DesktopHandle (nl_desktop l)) ` snd ` set d" for d
    using assms(2) by (induction d) auto
  have "tables_ok h ?b"
    unfolding tables_ok_def
  proof (intro conjI)
    show "\<forall>(p, l) \<in> set (nt_processes ?b). map_of (nt_jobs ?b) (lease_identity l) = Some p"
      using entries process_job [OF t] assms(3) by fastforce
    show "\<forall>(i, p) \<in> set (nt_jobs ?b). \<exists>l. map_of (nt_processes ?b) p = Some l \<and> lease_identity l = i"
      using lookup job_process [OF t] by fastforce
  qed (use t in \<open>simp_all add: tables_ok_def\<close>)
  then show ?thesis using assms(1) by (simp add: owned_upto_def held_def desktops)
qed

lemma remove_process:
  assumes "owned_upto h X a" "map_of (nt_jobs a) key = Some p" "map_of (nt_processes a) p = Some l"
  shows "owned_upto h (insert (DesktopHandle (nl_desktop l)) X)
    (a\<lparr>nt_processes := AList.delete p (nt_processes a), nt_jobs := AList.delete key (nt_jobs a)\<rparr>)" (is "owned_upto h _ ?b")
    and "(p', l') \<in> set (AList.delete p (nt_processes a)) \<Longrightarrow> lease_identity l' \<noteq> key"
proof -
  have t: "tables_ok h a" using assms(1) by (simp add: owned_upto_def)
  have key: "lease_identity l = key" using job_process [OF t map_of_SomeD [OF assms(2)]] assms(3) by simp
  have other: "(p', l') \<in> set (nt_processes a) \<Longrightarrow> p' \<noteq> p \<Longrightarrow> lease_identity l' \<noteq> key" for p' l'
    using process_job [OF t] assms(2) by force
  then show "(p', l') \<in> set (AList.delete p (nt_processes a)) \<Longrightarrow> lease_identity l' \<noteq> key" by (auto simp: set_delete)
  have "tables_ok h ?b"
    unfolding tables_ok_def
  proof (intro conjI)
    show "\<forall>(p, l) \<in> set (nt_processes ?b). map_of (nt_jobs ?b) (lease_identity l) = Some p"
      using other process_job [OF t] by (auto simp: set_delete)
    show "\<forall>(i, p) \<in> set (nt_jobs ?b). \<exists>l. map_of (nt_processes ?b) p = Some l \<and> lease_identity l = i"
    proof clarify
      fix i p' assume "(i, p') \<in> set (nt_jobs ?b)"
      then have i: "(i, p') \<in> set (nt_jobs a)" "i \<noteq> key" by (auto simp: set_delete)
      from job_process [OF t i(1)] obtain l' where "map_of (nt_processes a) p' = Some l'" "lease_identity l' = i" by blast
      moreover with i(2) key assms(3) have "p' \<noteq> p" by auto
      ultimately show "\<exists>l. map_of (nt_processes ?b) p' = Some l \<and> lease_identity l = i" by simp
    qed
    have "\<forall>(k, r) \<in> set (nt_reservations a). reservation_identity r \<notin> keys (nt_jobs a)" using t by (simp add: tables_ok_def)
    then show "\<forall>(k, r) \<in> set (nt_reservations ?b). reservation_identity r \<notin> keys (nt_jobs ?b)" by (auto simp: set_delete)
    have "keys (nt_processes a) \<subseteq> process_key h ` {..<nt_next a}" using t by (simp add: tables_ok_def)
    then show "keys (nt_processes ?b) \<subseteq> process_key h ` {..<nt_next ?b}" by (auto simp: set_delete)
  qed (use t in \<open>simp_all add: tables_ok_def\<close>)
  moreover have "l' = l" if "(p, l') \<in> set (nt_processes a)" for l'
    using that t assms(3) by (simp add: tables_ok_def wf_dict_map_of_iff [symmetric])
  then have "held a \<subseteq> insert (DesktopHandle (nl_desktop l)) (held ?b)" by (fastforce simp: held_def set_delete)
  ultimately show "owned_upto h (insert (DesktopHandle (nl_desktop l)) X) ?b" using assms(1) by (auto simp: owned_upto_def)
qed

definition job_free :: "job_identity \<Rightarrow> 'w native \<Rightarrow> bool" where
  "job_free key a \<longleftrightarrow> (\<forall>(k, r) \<in> set (nt_reservations a). reservation_identity r \<noteq> key) \<and> (\<forall>(p, l) \<in> set (nt_processes a). lease_identity l \<noteq> key)"

lemma close_lease_owned:
  assumes "closing h" "owned_upto h {} a" "map_of (nt_processes a) pid = Some l" "close_lease h pid l a = (b, ok)"
  shows "owned_upto h {} b" "DesktopHandle (nl_desktop l) \<notin> set (nt_open b)" "nt_jobs b = nt_jobs a" "nt_reservations b = nt_reservations a"
    "\<exists>l'. map_of (nt_processes b) pid = Some l' \<and> nl_desktop l' = nl_desktop l"
proof -
  let ?p = "fst (proc_close (nh_process h) (nl_process l))"
  have b: "b = (store_process pid ?p a)\<lparr>nt_open := removeAll (DesktopHandle (nl_desktop l)) (nt_open a)\<rparr>"
    using assms(4) by (auto simp: close_lease_def close_handle_closing [OF assms(1)] store_process_def split: prod.splits)
  have "owned_upto h {} (store_process pid ?p a)"
    unfolding store_process_def by (rule map_entry_owned [OF assms(2)]) (simp_all add: lease_identity_def)
  then show "owned_upto h {} b" unfolding b by (rule owned_upto_open [where Y = "{}"]) (auto simp: store_process_def)
  show "DesktopHandle (nl_desktop l) \<notin> set (nt_open b)" "nt_jobs b = nt_jobs a" "nt_reservations b = nt_reservations a"
    by (simp_all add: b store_process_def)
  show "\<exists>l'. map_of (nt_processes b) pid = Some l' \<and> nl_desktop l' = nl_desktop l" using assms(3) by (simp add: b store_process_def map_of_map_entry)
qed

lemma native_release_owned:
  assumes "closing h" "owned_upto h {} a" "native_release h req a = (b, res)"
  shows "owned_upto h {} b"
    and "res = Inr x \<Longrightarrow> job_free (text_of req ''backend_instance_id'', text_of req ''user_id'', text_of req ''job_id'') b"
proof -
  have "owned_upto h {} b \<and> (res = Inr x \<longrightarrow> job_free (text_of req ''backend_instance_id'', text_of req ''user_id'', text_of req ''job_id'') b)"
  proof (cases "\<exists>backend user job. required_text req ''backend_instance_id'' = Inr backend \<and> required_text req ''user_id'' = Inr user \<and> required_text req ''job_id'' = Inr job")
    case False
    then have "b = a \<and> (\<forall>x. res \<noteq> Inr x)"
      using assms(3) by (cases "required_text req ''backend_instance_id''"; cases "required_text req ''user_id''"; cases "required_text req ''job_id''")
        (auto simp: native_release_def)
    then show ?thesis using assms(2) by simp
  next
    case True
    then obtain backend user job where req: "required_text req ''backend_instance_id'' = Inr backend" "required_text req ''user_id'' = Inr user" "required_text req ''job_id'' = Inr job"
      by blast
    define key where "key = (backend, user, job)"
    let ?mine = "filter (\<lambda>(k, r). reservation_identity r = key) (nt_reservations a)"
    have t: "tables_ok h a" using assms(2) by (simp add: owned_upto_def)
    then have wf: "wf_dict (nt_reservations a)" by (simp add: tables_ok_def)
    have mine: "map_of (nt_reservations a) k = Some r" if "(k, r) \<in> set ?mine" for k r using that wf by (simp add: wf_dict_map_of_iff)
    have "distinct (map fst ?mine)" using wf by (simp add: wf_dict_def distinct_map_filter)
    from close_reservations_owned [OF assms(1,2) mine this] obtain c where c: "close_reservations h ?mine a = (c, True)" "owned_upto h {} c"
      "nt_processes c = nt_processes a" "nt_jobs c = nt_jobs a" "nt_reservations c = filter (\<lambda>(k, r). k \<notin> fst ` set ?mine) (nt_reservations a)" by blast
    have none: "reservation_identity r \<noteq> key" if "(k, r) \<in> set (nt_reservations c)" for k r using that unfolding c(5) by force
    have free: "job_free key d" if "nt_reservations d = nt_reservations c" "\<And>p l. (p, l) \<in> set (nt_processes d) \<Longrightarrow> lease_identity l \<noteq> key" for d
      using that none unfolding job_free_def by auto
    have k: "key = (text_of req ''backend_instance_id'', text_of req ''user_id'', text_of req ''job_id'')"
      using req by (simp add: key_def required_text_Inr)
    show ?thesis
    proof (cases "map_of (nt_jobs a) key")
      case None
      then have "lease_identity l \<noteq> key" if "(p, l) \<in> set (nt_processes a)" for p l using process_job [OF t that] by auto
      moreover have "b = c" using assms(3) None c(1) by (simp add: native_release_def req key_def [symmetric] Let_def)
      ultimately show ?thesis using free [of c] c(2,3) k by simp
    next
      case (Some p)
      then obtain l where l: "map_of (nt_processes a) p = Some l" using job_process [OF t map_of_SomeD [OF Some]] by blast
      obtain d ok where d: "close_lease h p l c = (d, ok)" by fastforce
      note cl = close_lease_owned [OF assms(1) c(2) _ d]
      have lc: "map_of (nt_processes c) p = Some l" using l c(3) by simp
      obtain l' where l': "map_of (nt_processes d) p = Some l'" "nl_desktop l' = nl_desktop l" using cl(5) [OF lc] by blast
      have key: "map_of (nt_jobs d) key = Some p" using cl(3) [OF lc] c(4) Some by simp
      let ?e = "d\<lparr>nt_processes := AList.delete p (nt_processes d), nt_jobs := AList.delete key (nt_jobs d)\<rparr>"
      have "owned_upto h {DesktopHandle (nl_desktop l')} ?e" by (rule remove_process(1) [OF cl(1) [OF lc] key l'(1)])
      then have e: "owned_upto h {} ?e" using cl(2) [OF lc] l'(2) by (auto simp: owned_upto_def)
      have "job_free key ?e" using remove_process(2) [OF cl(1) [OF lc] key l'(1)] cl(4) [OF lc] by (intro free) auto
      moreover have "(b, res) = (if ok then (?e, Inr True) else (d, Inl (init_error ''Broker Job cleanup failed'')))"
        using assms(3) Some l c(1) d by (cases ok) (simp_all add: native_release_def req key_def Let_def)
      ultimately show ?thesis using e cl(1) [OF lc] k by (auto split: if_splits)
    qed
  qed
  then show "owned_upto h {} b" "res = Inr x \<Longrightarrow> job_free (text_of req ''backend_instance_id'', text_of req ''user_id'', text_of req ''job_id'') b" by blast+
qed

lemma release_each_owned: "closing h \<Longrightarrow> owned_upto h {} a \<Longrightarrow> owned_upto h {} (fst (release_each h ks a))"
proof (induction ks arbitrary: a)
  case (Cons k ks)
  obtain b r where r: "native_release h (identity_request k) a = (b, r)" by fastforce
  then have "owned_upto h {} b" using native_release_owned(1) Cons.prems by blast
  then show ?case using Cons r by (cases r) (simp_all add: bind_action_def)
qed simp

lemma fst_bind_lift [simp]: "fst (bind_action m (\<lambda>_. lift_action r) s) = fst (m s)"
  by (auto simp: bind_action_def split: prod.splits sum.splits)

lemma native_reclaim_owned: "closing h \<Longrightarrow> owned_upto h {} a \<Longrightarrow> owned_upto h {} (fst (native_reclaim h req a))"
  by (cases "required_text req ''backend_instance_id''") (simp_all add: native_reclaim_def release_each_owned Let_def)

lemma native_control_owned: "owned_upto h {} a \<Longrightarrow> owned_upto h {} (fst (native_control h schedule operation req a))"
  by (cases "required_text req ''process_id''"; cases "required_text req ''backend_instance_id''")
    (auto simp: native_control_def store_process_def lease_identity_def intro!: map_entry_owned split: option.split prod.split)

lemma resource_exceeded_owned: "owned_upto h {} a \<Longrightarrow> owned_upto h {} (resource_exceeded h pid a)"
  by (auto simp: resource_exceeded_def lease_identity_def intro!: map_entry_owned split: option.split)

section \<open>Runs of the adapter\<close>

inductive native_run :: "'w native_host \<Rightarrow> 'w native \<Rightarrow> bool" for h where
  start: "native_run h new_native"
| reserve: "native_run h a \<Longrightarrow> reserve_valid h req \<Longrightarrow> native_run h (fst (native_reserve h now req a))"
| launch: "native_run h a \<Longrightarrow> launch_valid h req a \<Longrightarrow> native_run h (fst (native_launch h now req a))"
| release: "native_run h a \<Longrightarrow> native_run h (fst (native_release h req a))"
| reclaim: "native_run h a \<Longrightarrow> native_run h (fst (native_reclaim h req a))"
| expire: "native_run h a \<Longrightarrow> native_run h (fst (purge_expired h now a))"
| control: "native_run h a \<Longrightarrow> native_run h (fst (native_control h schedule operation req a))"
| exceeded: "native_run h a \<Longrightarrow> native_run h (resource_exceeded h pid a)"

lemma native_run_owned: "native_run h a \<Longrightarrow> closing h \<Longrightarrow> owned_upto h {} a"
proof (induction rule: native_run.induct)
  case start
  show ?case by (simp add: owned_upto_def tables_ok_def new_native_def)
next
  case (release a req)
  then show ?case using native_release_owned(1) [of h a req] by (metis prod.collapse)
qed (simp_all add: native_reserve_owned native_launch_owned native_reclaim_owned purge_expired_owned native_control_owned resource_exceeded_owned)

text \<open>C19. On a host where handles can be closed, no run of the adapter whose requests pass the path checks loses a handle: every
  open token or desktop belongs to a stored reservation or to a running process, and a release that returns leaves
  neither for its job.\<close>

theorem no_handle_lost:
  assumes "native_run h a" "closing h"
  shows "set (nt_open a) \<subseteq> held a \<and> (\<forall>req b x. native_release h req a = (b, Inr x)
    \<longrightarrow> set (nt_open b) \<subseteq> held b \<and> job_free (text_of req ''backend_instance_id'', text_of req ''user_id'', text_of req ''job_id'') b)"
proof -
  note o = native_run_owned [OF assms]
  have "set (nt_open b) \<subseteq> held b \<and> job_free (text_of req ''backend_instance_id'', text_of req ''user_id'', text_of req ''job_id'') b"
    if "native_release h req a = (b, Inr x)" for req b x
    using native_release_owned [OF assms(2) o that] by (simp add: owned_upto_def)
  then show ?thesis using o by (auto simp: owned_upto_def)
qed

section \<open>Refused paths\<close>

text \<open>A reservation whose policy names a path the adapter refuses raises after the token was made: the token stays open and
  belongs to no reservation and no process.\<close>

theorem refused_path_loses_token:
  assumes "reserve_fields_of h req = Inr f" "nh_reserve_token h (account_for h (rf_network_mode f)) (rf_file_mode f) = Inr t"
    "reserve_paths h (rf_policy f) = Inl e" "tables_ok h a" "TokenHandle (nt_next a) \<notin> held a"
  shows "\<exists>b. native_reserve h now req a = (b, Inl e) \<and> TokenHandle (nt_next a) \<in> set (nt_open b) - held b
    \<and> nt_reservations b = nt_reservations a \<and> nt_processes b = nt_processes a"
  using assms by (cases t) (auto simp: native_reserve_def Let_def held_def)

text \<open>Likewise a launch that names a path the adapter refuses drops the reservation it has taken out of the table without
  closing its token and its desktop.\<close>

theorem refused_launch_path_loses_reservation:
  assumes "launch_fields_of req = Inr f" "purge_expired h now a = (a, Inr ())" "map_of (nt_reservations a) (lf_reservation f) = Some r"
    "owns r f = Inr True" "argv_of (py_get req ''argv'') = Some argv" "py_get req ''environment'' = PDict env"
    "launch_paths h (re_policy r) req env = Inl e"
  shows "native_launch h now req a = (a\<lparr>nt_reservations := AList.delete (lf_reservation f) (nt_reservations a)\<rparr>, Inl e)"
  using assms by (simp add: native_launch_def bind_action_def launch_reserved_def launch_checked_def)

section \<open>A concrete run\<close>

definition adapter_host :: "(nat \<times> nat list) native_host" where
  "adapter_host = \<lparr>nh_credentials = \<lparr>bc_generation = ''1'', bc_offline_name = ''off'', bc_offline_sid = ''S-1'', bc_offline_password = ''p'',
       bc_online_name = ''on'', bc_online_sid = ''S-2'', bc_online_password = ''q''\<rparr>,
     nh_reserve_token = (\<lambda>a m. Inr (''logon'', wa_sid a, ''cap-w'', ''cap-t'')), nh_desktop = (\<lambda>_. None), nh_job_object = (\<lambda>_ _. None),
     nh_start = (\<lambda>_ _ _. Inr (7, fresh_process)), nh_process = log_closes flaky_host, nh_close = (\<lambda>_. True), nh_stop_monitor = (\<lambda>_. True),
     nh_terminate_pid = (\<lambda>_. True), nh_absolute = prefix ''/'', nh_canonical = id, nh_within = (\<lambda>c w. prefix w c), nh_sha256 = (\<lambda>_. ''digest''),
     nh_uuid = str_nat, nh_seconds_text = (\<lambda>_. ''0''), nh_service_sid = ''svc'', nh_ttl = 30\<rparr>"

definition adapter_policy :: pydict where
  "adapter_policy = [(''job_id'', PStr ''j''), (''workspaces'', PList [PStr ''/w'']), (''temp_dir'', PStr ''/t''), (''cwd'', PStr ''/w/x'')]"

definition sample_reserve :: "pydict \<Rightarrow> pydict" where
  "sample_reserve policy = [(''policy'', PDict policy), (''policy_hash'', PStr ''digest''), (''backend_instance_id'', PStr ''b''), (''user_id'', PStr ''u'')]"

definition adapter_launch :: pydict where
  "adapter_launch = [(''reservation_id'', PStr (''reservation-'' @ str_nat 0)), (''backend_instance_id'', PStr ''b''), (''user_id'', PStr ''u''),
     (''policy_hash'', PStr ''digest''), (''capability_digest'', PStr ''digest''), (''cwd'', PStr ''/w/x''), (''argv'', PList [PStr ''run'']),
     (''environment'', PDict [(''TEMP'', PStr ''/t''), (''TMP'', PStr ''/t'')])]"

definition sample_reservation :: reservation where
  "sample_reservation = \<lparr>re_id = ''reservation-'' @ str_nat 0, re_backend = ''b'', re_user = ''u'', re_job = ''j'', re_policy_hash = ''digest'', re_policy = adapter_policy,
     re_token = Some 0, re_logon_sid = ''logon'', re_account_sid = ''S-1'', re_workspace_cap_sid = ''cap-w'', re_temp_cap_sid = ''cap-t'',
     re_capability_digest = ''digest'', re_desktop = 0, re_expires_at = 30\<rparr>"

definition sample_reserved :: "(nat \<times> nat list) native" where
  "sample_reserved = \<lparr>nt_next = 1, nt_open = [DesktopHandle 0, TokenHandle 0], nt_reservations = [(''reservation-'' @ str_nat 0, sample_reservation)],
     nt_processes = [], nt_jobs = []\<rparr>"

lemma sample_host_simps [simp]:
  "nh_credentials adapter_host = \<lparr>bc_generation = ''1'', bc_offline_name = ''off'', bc_offline_sid = ''S-1'', bc_offline_password = ''p'',
       bc_online_name = ''on'', bc_online_sid = ''S-2'', bc_online_password = ''q''\<rparr>"
  "nh_reserve_token adapter_host acct m = Inr (''logon'', wa_sid acct, ''cap-w'', ''cap-t'')" "nh_desktop adapter_host s = None" "nh_job_object adapter_host s l = None"
  "nh_start adapter_host argv cwd env = Inr (7, fresh_process)" "nh_close adapter_host x" "nh_absolute adapter_host s = prefix ''/'' s" "nh_canonical adapter_host s = s"
  "nh_within adapter_host c w = prefix w c" "nh_sha256 adapter_host s = ''digest''" "nh_uuid adapter_host n = str_nat n" "nh_ttl adapter_host = 30"
  by (simp_all add: adapter_host_def)

lemmas sample_fields = adapter_policy_def sample_reserve_def required_text_def text_field_def py_get_def get_str_def compare_digest_def
  native_policy_hash_def mode_of_def enum_of_def required_path_def required_absolute_paths_def canonical_absolute_path_def

lemma sample_fields_of:
  "reserve_fields_of adapter_host (sample_reserve adapter_policy) = Inr \<lparr>rf_policy = adapter_policy, rf_policy_hash = ''digest'', rf_backend = ''b'', rf_user = ''u'',
     rf_job = ''j'', rf_file_mode = READ_ONLY, rf_network_mode = NO_NETWORK\<rparr>"
  by (simp add: reserve_fields_of_def sample_fields)

lemma sample_paths: "reserve_paths adapter_host adapter_policy = Inr ([''/w''], ''/t'', ''/w/x'')"
  by (simp add: reserve_paths_def sample_fields)

lemma sample_reserve_run: "fst (native_reserve adapter_host 0 (sample_reserve adapter_policy) new_native) = sample_reserved"
  by (simp add: native_reserve_def sample_fields_of sample_paths Let_def new_native_def store_reservation_def purge_expired_def bind_action_def account_for_def
      sample_reservation_def sample_reserved_def capability_digest_def reservation_identity_def)

theorem no_handle_lost_witness:
  "nt_open sample_reserved = [DesktopHandle 0, TokenHandle 0] \<and> set (nt_open sample_reserved) \<subseteq> held sample_reserved"
proof -
  have "closing adapter_host" by (simp add: closing_def inj_def)
  moreover have "native_run adapter_host sample_reserved"
    unfolding sample_reserve_run [symmetric] by (rule native_run.reserve [OF native_run.start]) (simp add: reserve_valid_def sample_fields_of sample_paths)
  ultimately have "set (nt_open sample_reserved) \<subseteq> held sample_reserved" using no_handle_lost by blast
  then show ?thesis by (simp add: sample_reserved_def)
qed

lemma sample_launch_paths: "launch_paths adapter_host adapter_policy adapter_launch [(''TEMP'', PStr ''/t''), (''TMP'', PStr ''/t'')] = Inr (Inr ''/w/x'')"
  by (simp add: launch_paths_def adapter_launch_def temp_matches_def sample_fields)

lemma sample_limits: "limits_of_policy adapter_policy = Inr default_limits"
  by (simp add: limits_of_policy_def adapter_policy_def py_get_def limits_from_mapping_def value_or_def default_limits_def limits_validate_def
    require_range_def in_range_def write_io_ok_def)

lemma sample_launch_run: "\<exists>b answer. native_launch adapter_host 1 adapter_launch sample_reserved = (b, Inr answer)"
proof -
  let ?f = "\<lparr>lf_reservation = ''reservation-'' @ str_nat 0, lf_backend = ''b'', lf_user = ''u'', lf_policy_hash = ''digest'', lf_digest = ''digest''\<rparr>"
  have f: "launch_fields_of adapter_launch = Inr ?f" by (simp add: launch_fields_of_def adapter_launch_def required_text_def text_field_def)
  have purge: "purge_expired adapter_host 1 sample_reserved = (sample_reserved, Inr ())"
    by (simp add: purge_expired_def sample_reserved_def sample_reservation_def)
  have find: "map_of (nt_reservations sample_reserved) (''reservation-'' @ str_nat 0) = Some sample_reservation" by (simp add: sample_reserved_def)
  have owns: "owns sample_reservation ?f = Inr True" by (simp add: owns_def sample_reservation_def compare_digest_def)
  have policy: "re_policy sample_reservation = adapter_policy" "re_token sample_reservation = Some 0" by (simp_all add: sample_reservation_def)
  have args: "argv_of (py_get adapter_launch ''argv'') = Some [''run'']" "py_get adapter_launch ''environment'' = PDict [(''TEMP'', PStr ''/t''), (''TMP'', PStr ''/t'')]"
    by (simp_all add: adapter_launch_def py_get_def argv_of_def)
  show ?thesis
    by (simp add: native_launch_def f bind_action_def purge find launch_reserved_def owns args launch_checked_def policy sample_launch_paths sample_limits
      start_process_def close_handle_def Let_def del: append.simps)
qed

theorem launch_authorised_witness:
  "\<exists>b answer. native_launch adapter_host 1 adapter_launch sample_reserved = (b, Inr answer) \<and> ''reservation-'' @ str_nat 0 \<notin> keys (nt_reservations b)"
proof -
  obtain b answer where "native_launch adapter_host 1 adapter_launch sample_reserved = (b, Inr answer)" using sample_launch_run by blast
  moreover have "text_of adapter_launch ''reservation_id'' = ''reservation-'' @ str_nat 0" by (simp add: text_of_def adapter_launch_def py_get_def)
  ultimately show ?thesis using launch_authorised [of adapter_host 1 adapter_launch sample_reserved b answer] by metis
qed

text \<open>A relative temporary directory in the policy of a reservation.\<close>

definition relative_policy :: pydict where
  "relative_policy = [(''job_id'', PStr ''j''), (''workspaces'', PList [PStr ''/w'']), (''temp_dir'', PStr ''t''), (''cwd'', PStr ''/w/x'')]"

theorem refused_path_loses_token_witness:
  "\<exists>b e. native_reserve adapter_host 0 (sample_reserve relative_policy) new_native = (b, Inl e) \<and> TokenHandle 0 \<in> set (nt_open b) - held b"
proof -
  have f: "reserve_fields_of adapter_host (sample_reserve relative_policy) = Inr \<lparr>rf_policy = relative_policy, rf_policy_hash = ''digest'', rf_backend = ''b'',
      rf_user = ''u'', rf_job = ''j'', rf_file_mode = READ_ONLY, rf_network_mode = NO_NETWORK\<rparr>"
    by (simp add: reserve_fields_of_def relative_policy_def sample_fields)
  let ?a = "new_native :: (nat \<times> nat list) native"
  let ?e = "init_error ''Broker launch path must be absolute''"
  have "reserve_paths adapter_host relative_policy = Inl ?e"
    by (simp add: reserve_paths_def relative_policy_def sample_fields)
  moreover have "tables_ok adapter_host new_native" "TokenHandle (nt_next ?a) \<notin> held ?a" "nt_next ?a = 0"
    by (simp_all add: tables_ok_def held_def new_native_def)
  moreover have "nh_reserve_token adapter_host (account_for adapter_host NO_NETWORK) READ_ONLY = Inr (''logon'', ''S-1'', ''cap-w'', ''cap-t'')"
    by (simp add: account_for_def)
  ultimately have "\<exists>b. native_reserve adapter_host 0 (sample_reserve relative_policy) new_native = (b, Inl ?e) \<and> TokenHandle 0 \<in> set (nt_open b) - held b"
    using refused_path_loses_token [OF f, of "(''logon'', ''S-1'', ''cap-w'', ''cap-t'')" ?e new_native 0] by auto
  then show ?thesis by blast
qed

end
