(* ===== verification/BrokerStreams.thy ===== *)
theory BrokerStreams
  imports BrokerClient BrokerHandles
begin

text \<open>
  The two ends of a process behind the broker together: what \<open>_BrokerWriteStream\<close>, \<open>_BrokerReadStream\<close> and
  \<open>communicate\<close> of the client put into a request, and what \<open>control\<close> of the adapter makes of it. The bytes the
  client writes are the bytes the process gets, and what the process wrote is what the client reads.
\<close>

lemma decode_input_encoded: "decode_input (b64encode bs) = Inr bs"
  using b64encode_ascii [of bs] by (auto simp: decode_input_def b64_round_trip)

lemma decode_field_encoded: "decode_field (b64encode bs) = Inr bs"
  using b64encode_ascii [of bs] by (auto simp: decode_field_def b64_round_trip)

text \<open>The request a client builds for a process, as the adapter reads its fields.\<close>

definition control_body :: "managed_process \<Rightarrow> string \<Rightarrow> pydict \<Rightarrow> pydict" where
  "control_body p backend vals = merge_values [(''process_id'', PStr (mp_process_id p)), (''backend_instance_id'', PStr backend)] vals"

text \<open>Writing, reading and communicating through the broker: the adapter calls the process with exactly the bytes, the
  stream and the size the client asked for, and the client decodes exactly the bytes the process gave.\<close>

theorem process_io_faithful:
  "process_operation h schedule ''process_write'' (control_body m backend (write_values bs)) p
     = bind_action (proc_write h bs) (\<lambda>n. lift_action (Inr [(''written'', PInt n)])) p \<and>
   (stream \<in> {''stdout'', ''stderr''} \<longrightarrow> 1 \<le> n \<longrightarrow> n \<le> 1024 * 1024 \<longrightarrow>
     process_operation h schedule ''process_read'' (control_body m backend (read_values stream (Some n))) p
       = bind_action (proc_read h stream n) (\<lambda>d. lift_action (Inr [(''data'', PStr (b64encode d))])) p) \<and>
   stream_data [(''data'', PStr (b64encode d))] = Inr d \<and>
   process_operation h schedule ''process_communicate'' (control_body m backend (communicate_values inp PNone)) p
     = bind_action (proc_communicate h schedule inp None) (\<lambda>(code, out, err).
         lift_action (Inr [(''returncode'', code_value code), (''stdout'', PStr (b64encode out)), (''stderr'', PStr (b64encode err))])) p \<and>
   output_field [(''returncode'', code_value c), (''stdout'', PStr (b64encode out)), (''stderr'', PStr (b64encode err))] ''stdout'' = Inr (Some out) \<and>
   output_field [(''returncode'', code_value c), (''stdout'', PStr (b64encode out)), (''stderr'', PStr (b64encode err))] ''stderr'' = Inr (Some err)"
proof (intro conjI impI)
  show "process_operation h schedule ''process_write'' (control_body m backend (write_values bs)) p
     = bind_action (proc_write h bs) (\<lambda>n. lift_action (Inr [(''written'', PInt n)])) p"
    by (simp add: process_operation_def control_body_def merge_values_def write_values_def py_get_def decode_input_encoded)
  show "process_operation h schedule ''process_communicate'' (control_body m backend (communicate_values inp PNone)) p
     = bind_action (proc_communicate h schedule inp None) (\<lambda>(code, out, err).
         lift_action (Inr [(''returncode'', code_value code), (''stdout'', PStr (b64encode out)), (''stderr'', PStr (b64encode err))])) p"
    by (cases inp) (simp_all add: process_operation_def control_body_def merge_values_def communicate_values_def py_get_def timeout_of_def decode_input_encoded)
next
  assume n: "stream \<in> {''stdout'', ''stderr''}" "1 \<le> n" "n \<le> 1024 * 1024"
  then have "read_request (control_body m backend (read_values stream (Some n))) = Inr (stream, n)"
    by (auto simp: read_request_def control_body_def merge_values_def read_values_def get_str_def)
  then show "process_operation h schedule ''process_read'' (control_body m backend (read_values stream (Some n))) p
       = bind_action (proc_read h stream n) (\<lambda>d. lift_action (Inr [(''data'', PStr (b64encode d))])) p"
    by (simp add: process_operation_def)
qed (simp_all add: stream_data_def output_field_def py_get_def decode_field_encoded)

definition sample_proxy :: managed_process where
  "sample_proxy = \<lparr>mp_process_id = ''p'', mp_pid = 7, mp_stdin = True, mp_stdout = True, mp_stderr = True, mp_returncode = None\<rparr>"

theorem process_io_faithful_witness:
  "process_operation (log_closes flaky_host) [] ''process_read'' (control_body sample_proxy ''b'' (read_values ''stdout'' (Some 10))) fresh_process
     = bind_action (proc_read (log_closes flaky_host) ''stdout'' 10) (\<lambda>d. lift_action (Inr [(''data'', PStr (b64encode d))])) fresh_process"
  using process_io_faithful [of "log_closes flaky_host" "[]" sample_proxy "''b''" _ fresh_process "''stdout''" 10] by simp

section \<open>What fits through the pipe\<close>

text \<open>The client reads at most this much of an answer (\<open>pipe.read\<close> in \<open>_send\<close>), and the service's pipe has the same size.\<close>

definition PIPE_READ_LIMIT :: nat where
  "PIPE_READ_LIMIT = 1024 * 1024"

lemma length_b64encode: "length (b64encode bs) = 4 * ((length bs + 2) div 3)"
  by (induction bs rule: b64encode.induct) (simp_all, presburger)

text \<open>A read of the largest size the adapter accepts can give an answer whose data alone is longer than what the client
  takes from the pipe; a full answer arrives whole only up to three quarters of that size.\<close>

theorem largest_read_exceeds_pipe:
  "read_request (control_body sample_proxy ''b'' (read_values ''stdout'' (Some (1024 * 1024)))) = Inr (''stdout'', 1024 * 1024) \<and>
   (\<forall>bs. length bs = 1024 * 1024 \<longrightarrow> length (b64encode bs) > PIPE_READ_LIMIT) \<and>
   (\<forall>bs. length (b64encode bs) \<le> PIPE_READ_LIMIT \<longleftrightarrow> 4 * length bs \<le> 3 * PIPE_READ_LIMIT)"
proof (intro conjI allI impI)
  show "read_request (control_body sample_proxy ''b'' (read_values ''stdout'' (Some (1024 * 1024)))) = Inr (''stdout'', 1024 * 1024)"
    by (simp add: read_request_def control_body_def merge_values_def read_values_def get_str_def sample_proxy_def)
  show "length (b64encode bs) \<le> PIPE_READ_LIMIT \<longleftrightarrow> 4 * length bs \<le> 3 * PIPE_READ_LIMIT" for bs
  proof -
    define q where "q = (length bs + 2) div 3"
    have "3 * q \<le> length bs + 2" "length bs + 2 < 3 * q + 3" unfolding q_def by simp_all
    then show ?thesis unfolding length_b64encode PIPE_READ_LIMIT_def q_def [symmetric] by presburger
  qed
qed (simp add: length_b64encode PIPE_READ_LIMIT_def)

end
