(* ===== verification/ChatMessages.thy ===== *)
theory ChatMessages
  imports PyValue
begin

text \<open>
  \<open>domain/messages.py\<close>: the provider-neutral messages of a conversation, the tool calls an assistant message carries and
  their dictionary form. Messages that were stored can be loaded again unchanged.
\<close>

section \<open>Messages\<close>

datatype ToolStatus = Pending | Succeeded | Failed | Indeterminate

fun ToolStatus_value :: "ToolStatus \<Rightarrow> string" where
  "ToolStatus_value Pending = ''pending''" | "ToolStatus_value Succeeded = ''succeeded''"
| "ToolStatus_value Failed = ''failed''" | "ToolStatus_value Indeterminate = ''indeterminate''"

record ToolMessage =
  tm_name :: string
  tm_content :: "string option"
  tm_call_id :: string
  tm_arguments :: pydict
  tm_status :: ToolStatus
  tm_retryable :: "bool option"
  tm_failure_code :: "string option"
  tm_options :: pydict

text \<open>\<open>am_ref\<close> is the identity of the object, which the code compares with \<open>is\<close>; it is not part of the dictionary form.\<close>

record AssistantMessage =
  am_ref :: nat
  am_name :: string
  am_content :: "string option"
  am_reasoning :: "string option"
  am_logprobs :: "pydict option"
  am_tools :: "ToolMessage list"
  am_options :: pydict

datatype ChatMessage = SystemMessage string "string option" pydict | UserMessage string "string option" pydict | Assistant AssistantMessage

datatype message_error = MessageValueError string

definition CHECKPOINT_PREAMBLE :: string where
  "CHECKPOINT_PREAMBLE = ''This is an automatically generated checkpoint condensing an earlier span of the conversation to free up '' @
     ''context. Treat the captured context as established background and build on it without restating it. Continue '' @
     ''the task directly from the messages that follow, without acknowledging this checkpoint.''"

text \<open>\<open>ToolMessage.__post_init__\<close>.\<close>

definition tool_post_init :: "ToolMessage \<Rightarrow> message_error + ToolMessage" where
  "tool_post_init t =
     (if tm_name t = [] then Inl (MessageValueError ''ToolMessage.name must not be empty.'')
      else if tm_call_id t = [] then Inl (MessageValueError ''ToolMessage.call_id must not be empty.'')
      else if tm_status t = Pending \<and> tm_content t \<noteq> None then Inl (MessageValueError ''A pending ToolMessage cannot contain a result.'')
      else if tm_status t \<noteq> Pending \<and> tm_content t = None then Inl (MessageValueError ''A completed ToolMessage must contain a result.'')
      else Inr t)"

definition user_text :: "string \<Rightarrow> ChatMessage" where
  "user_text s = UserMessage ''user'' (Some s) []"

definition assistant_text :: "nat \<Rightarrow> string \<Rightarrow> AssistantMessage" where
  "assistant_text ref s = \<lparr>am_ref = ref, am_name = ''assistant'', am_content = Some s, am_reasoning = None, am_logprobs = None, am_tools = [], am_options = []\<rparr>"

section \<open>Dictionary form\<close>

definition is_mapping :: "pyval \<Rightarrow> bool" where
  "is_mapping v = (case v of PDict _ \<Rightarrow> True | _ \<Rightarrow> False)"

definition normalize_provider_options :: "pyval \<Rightarrow> pydict" where
  "normalize_provider_options raw = (case raw of
      PDict d \<Rightarrow>
        (let result = filter (\<lambda>(k, v). is_mapping v) d; rest = AList.delete ''deepseek'' result in
         case map_of result ''deepseek'' of
           Some legacy \<Rightarrow> if ''chat_completions'' \<in> keys rest then rest else AList.update ''chat_completions'' legacy rest
         | None \<Rightarrow> rest)
    | _ \<Rightarrow> [])"

definition provider_options_of :: "pydict \<Rightarrow> pydict" where
  "provider_options_of d = normalize_provider_options (py_get d ''provider_options'')"

definition text_or_none :: "string option \<Rightarrow> pyval" where
  "text_or_none x = (case x of None \<Rightarrow> PNone | Some s \<Rightarrow> PStr s)"

definition flag_or_none :: "bool option \<Rightarrow> pyval" where
  "flag_or_none x = (case x of None \<Rightarrow> PNone | Some b \<Rightarrow> PBool b)"

definition tool_message_to_dict :: "ToolMessage \<Rightarrow> pydict" where
  "tool_message_to_dict t = [(''name'', PStr (tm_name t)), (''role'', PStr ''tool''), (''content'', text_or_none (tm_content t)), (''call_id'', PStr (tm_call_id t)),
     (''arguments'', PDict (tm_arguments t)), (''status'', PStr (ToolStatus_value (tm_status t))), (''retryable'', flag_or_none (tm_retryable t)),
     (''failure_code'', text_or_none (tm_failure_code t)), (''provider_options'', PDict (tm_options t))]"

definition content_text :: "pydict \<Rightarrow> string option" where
  "content_text d = (case py_get d ''content'' of PNone \<Rightarrow> None | v \<Rightarrow> Some (py_str v))"

definition string_or_none :: "pydict \<Rightarrow> string \<Rightarrow> string option" where
  "string_or_none d k = (case py_get d k of PStr s \<Rightarrow> Some s | _ \<Rightarrow> None)"

text \<open>\<open>str(data.get(a) or dflt)\<close>.\<close>

definition text_or :: "pydict \<Rightarrow> string \<Rightarrow> string \<Rightarrow> string" where
  "text_or d k dflt = (let v = py_get d k in if truthy v then py_str v else dflt)"

definition status_of :: "pydict \<Rightarrow> ToolStatus" where
  "status_of d = (case find (\<lambda>s. py_get d ''status'' = PStr (ToolStatus_value s)) [Pending, Succeeded, Failed, Indeterminate] of
      Some s \<Rightarrow> s
    | None \<Rightarrow> if py_get d ''content'' = PNone then Pending else Succeeded)"

text \<open>\<open>dict(data.get("arguments") or {})\<close>; something that is neither empty nor a mapping raises.\<close>

definition arguments_of :: "pydict \<Rightarrow> message_error + pydict" where
  "arguments_of d = (let v = py_get d ''arguments'' in if \<not> truthy v then Inr []
     else case v of PDict a \<Rightarrow> Inr a | _ \<Rightarrow> Inl (MessageValueError ''arguments must be a mapping''))"

definition tool_message_from_dict :: "pydict \<Rightarrow> string option \<Rightarrow> message_error + ToolMessage" where
  "tool_message_from_dict d fallback =
     (case (if truthy (py_get d ''call_id'') then py_get d ''call_id'' else if truthy (py_get d ''tool_call_id'') then py_get d ''tool_call_id'' else text_or_none fallback) of
        PStr c \<Rightarrow>
          if c = [] then Inl (MessageValueError ''Serialized ToolMessage is missing call_id.'')
          else bind_result (arguments_of d) (\<lambda>args. tool_post_init
            \<lparr>tm_name = text_or d ''name'' (text_or d ''tool'' ''unknown''), tm_content = content_text d, tm_call_id = c, tm_arguments = args,
             tm_status = status_of d,
             tm_retryable = (case py_get d ''retryable'' of PBool b \<Rightarrow> Some b | _ \<Rightarrow> None), tm_failure_code = string_or_none d ''failure_code'',
             tm_options = provider_options_of d\<rparr>)
      | _ \<Rightarrow> Inl (MessageValueError ''Serialized ToolMessage is missing call_id.''))"

definition message_to_dict :: "ChatMessage \<Rightarrow> pydict" where
  "message_to_dict m = (case m of
      SystemMessage n c opts \<Rightarrow> [(''name'', PStr n), (''role'', PStr ''system''), (''content'', text_or_none c), (''provider_options'', PDict opts)]
    | UserMessage n c opts \<Rightarrow> [(''name'', PStr n), (''role'', PStr ''user''), (''content'', text_or_none c), (''provider_options'', PDict opts)]
    | Assistant a \<Rightarrow> [(''name'', PStr (am_name a)), (''role'', PStr ''assistant''), (''content'', text_or_none (am_content a)), (''provider_options'', PDict (am_options a)),
        (''reasoning'', text_or_none (am_reasoning a)), (''logprobs'', case am_logprobs a of None \<Rightarrow> PNone | Some d \<Rightarrow> PDict d),
        (''tool_messages'', PList (map (\<lambda>t. PDict (tool_message_to_dict t)) (am_tools a)))])"

text \<open>The entries of \<open>tool_messages\<close> that are mappings; a missing field is the empty list.\<close>

definition tool_entries :: "pydict \<Rightarrow> pydict list" where
  "tool_entries d = (case py_get d ''tool_messages'' of PList xs \<Rightarrow> concat (map (\<lambda>v. case v of PDict e \<Rightarrow> [e] | _ \<Rightarrow> []) xs) | _ \<Rightarrow> [])"

text \<open>\<open>message_from_dict\<close>; the new object gets the identity it is loaded with.\<close>

definition message_from_dict :: "nat \<Rightarrow> pydict \<Rightarrow> message_error + ChatMessage" where
  "message_from_dict ref d =
     (if py_get d ''role'' = PStr ''system'' then Inr (SystemMessage (text_or d ''name'' ''system'') (content_text d) (provider_options_of d))
      else if py_get d ''role'' = PStr ''user'' then Inr (UserMessage (text_or d ''name'' ''user'') (content_text d) (provider_options_of d))
      else if py_get d ''role'' = PStr ''assistant'' then
        bind_result (map_result (\<lambda>e. tool_message_from_dict e None) (tool_entries d)) (\<lambda>tools.
          Inr (Assistant \<lparr>am_ref = ref, am_name = text_or d ''name'' ''assistant'', am_content = content_text d, am_reasoning = string_or_none d ''reasoning'',
            am_logprobs = (case py_get d ''logprobs'' of PDict l \<Rightarrow> Some l | _ \<Rightarrow> None), am_tools = tools, am_options = provider_options_of d\<rparr>))
      else if py_get d ''role'' = PStr ''artifact'' then Inl (MessageValueError ''Unsupported message role: artifact'')
      else if py_get d ''role'' = PStr ''tool'' then
        Inr (Assistant \<lparr>am_ref = ref, am_name = text_or d ''name'' ''tool'', am_content = content_text d, am_reasoning = None, am_logprobs = None, am_tools = [],
          am_options = provider_options_of d\<rparr>)
      else Inl (MessageValueError (''Unknown serialized message role: '' @ py_repr (py_get d ''role'') @ ''.'')))"

section \<open>The round trip\<close>

definition options_ok :: "pydict \<Rightarrow> bool" where
  "options_ok d \<longleftrightarrow> list_all (\<lambda>(k, v). is_mapping v \<and> k \<noteq> ''deepseek'') d"

definition tool_ok :: "ToolMessage \<Rightarrow> bool" where
  "tool_ok t \<longleftrightarrow> tool_post_init t = Inr t \<and> options_ok (tm_options t)"

definition chat_message_ok :: "ChatMessage \<Rightarrow> bool" where
  "chat_message_ok m = (case m of
      SystemMessage n c opts \<Rightarrow> n \<noteq> [] \<and> options_ok opts
    | UserMessage n c opts \<Rightarrow> n \<noteq> [] \<and> options_ok opts
    | Assistant a \<Rightarrow> am_name a \<noteq> [] \<and> options_ok (am_options a) \<and> list_all tool_ok (am_tools a))"

definition ref_of :: "ChatMessage \<Rightarrow> nat" where
  "ref_of m = (case m of Assistant a \<Rightarrow> am_ref a | _ \<Rightarrow> 0)"

lemma normalize_ok: "options_ok d \<Longrightarrow> normalize_provider_options (PDict d) = d"
proof -
  assume ok: "options_ok d"
  then have f: "filter (\<lambda>(k, v). is_mapping v) d = d" by (auto simp: options_ok_def filter_id_conv list_all_iff)
  have "''deepseek'' \<notin> keys d" using ok by (auto simp: options_ok_def list_all_iff)
  then have "map_of d ''deepseek'' = None" "AList.delete ''deepseek'' d = d" by (auto simp: map_of_eq_None_iff delete_id)
  then show ?thesis by (simp add: normalize_provider_options_def f)
qed

lemma tool_round_trip: "tool_ok t \<Longrightarrow> tool_message_from_dict (tool_message_to_dict t) None = Inr t"
proof -
  assume ok: "tool_ok t"
  then have n: "tm_name t \<noteq> []" "tm_call_id t \<noteq> []" "tool_post_init t = Inr t" "options_ok (tm_options t)"
    by (auto simp: tool_ok_def tool_post_init_def split: if_splits)
  have s: "status_of (tool_message_to_dict t) = tm_status t"
    by (cases "tm_status t") (simp_all add: status_of_def tool_message_to_dict_def py_get_def)
  have o: "provider_options_of (tool_message_to_dict t) = tm_options t"
    using n(4) by (simp add: provider_options_of_def tool_message_to_dict_def py_get_def normalize_ok)
  have c: "content_text (tool_message_to_dict t) = tm_content t"
    by (cases "tm_content t") (simp_all add: content_text_def tool_message_to_dict_def py_get_def text_or_none_def)
  have a: "arguments_of (tool_message_to_dict t) = Inr (tm_arguments t)"
    by (simp add: arguments_of_def tool_message_to_dict_def py_get_def)
  have r: "(case py_get (tool_message_to_dict t) ''retryable'' of PBool b \<Rightarrow> Some b | _ \<Rightarrow> None) = tm_retryable t"
    by (cases "tm_retryable t") (simp_all add: tool_message_to_dict_def py_get_def flag_or_none_def)
  have e: "string_or_none (tool_message_to_dict t) ''failure_code'' = tm_failure_code t"
    by (cases "tm_failure_code t") (simp_all add: string_or_none_def tool_message_to_dict_def py_get_def text_or_none_def)
  have m: "text_or (tool_message_to_dict t) ''name'' (text_or (tool_message_to_dict t) ''tool'' ''unknown'') = tm_name t"
    "py_get (tool_message_to_dict t) ''call_id'' = PStr (tm_call_id t)"
    using n(1) by (simp_all add: text_or_def tool_message_to_dict_def py_get_def)
  show ?thesis unfolding tool_message_from_dict_def s o c a r e m using n(2,3) by (cases t) simp
qed

text \<open>A well-formed message survives being stored and loaded.\<close>

theorem message_round_trip: "chat_message_ok m \<Longrightarrow> message_from_dict (ref_of m) (message_to_dict m) = Inr m"
proof (cases m)
  case (Assistant a)
  assume ok: "chat_message_ok m"
  let ?d = "message_to_dict m"
  have "tool_entries ?d = map tool_message_to_dict (am_tools a)"
    by (simp add: Assistant message_to_dict_def tool_entries_def py_get_def comp_def)
  moreover have "map_result (\<lambda>e. tool_message_from_dict e None) (map tool_message_to_dict (am_tools a)) = Inr (am_tools a)"
    using ok Assistant by (intro map_result_Inr tool_round_trip) (simp add: chat_message_ok_def list_all_iff)
  moreover have "content_text ?d = am_content a" "string_or_none ?d ''reasoning'' = am_reasoning a"
    by (cases "am_content a"; cases "am_reasoning a"; simp add: Assistant message_to_dict_def content_text_def string_or_none_def py_get_def text_or_none_def)+
  moreover have "(case py_get ?d ''logprobs'' of PDict l \<Rightarrow> Some l | _ \<Rightarrow> None) = am_logprobs a"
    by (cases "am_logprobs a") (simp_all add: Assistant message_to_dict_def py_get_def)
  moreover have "provider_options_of ?d = am_options a" "text_or ?d ''name'' ''assistant'' = am_name a" "py_get ?d ''role'' = PStr ''assistant''"
    using ok Assistant by (simp_all add: message_to_dict_def provider_options_of_def text_or_def py_get_def normalize_ok chat_message_ok_def)
  ultimately show ?thesis using Assistant by (simp add: message_from_dict_def ref_of_def)
qed (auto simp: message_from_dict_def message_to_dict_def chat_message_ok_def ref_of_def text_or_def content_text_def provider_options_of_def py_get_def normalize_ok
  text_or_none_def split: option.split)

end
