(* ===== verification/HookManager.thy ===== *)
theory HookManager
  imports PyValue
begin

text \<open>
  \<open>runtime/core/hooks.py\<close> and \<open>runtime/core/hook_contracts.py\<close>: the sequential hook managers around
  runs, model calls and tool calls, and the results their operations return.

  An operation is a name and a function of the context; it may change the world (it can ask the user, write
  records), raise, or return something that is not a hook result (\<open>None\<close>). An exception is its class and
  its message after redaction. The events handed to the publisher are collected in a list.
\<close>

section \<open>Contracts\<close>

datatype HookLifecycle = RunLifecycle | ModelLifecycle | ToolLifecycle

fun lifecycle_value :: "HookLifecycle \<Rightarrow> string" where
  "lifecycle_value RunLifecycle = ''run''" | "lifecycle_value ModelLifecycle = ''model''" | "lifecycle_value ToolLifecycle = ''tool''"

datatype HookPhase = Before | After

fun phase_value :: "HookPhase \<Rightarrow> string" where
  "phase_value Before = ''before''" | "phase_value After = ''after''"

datatype HookDecision = ContinueCall | RejectCall

fun decision_value :: "HookDecision \<Rightarrow> string" where
  "decision_value ContinueCall = ''continue''" | "decision_value RejectCall = ''reject''"

record 'v HookOperationResult =
  ho_decision :: HookDecision
  ho_data :: "(string, 'v) dict"
  ho_reason :: "string option"

datatype hook_error =
    HookException (hx_class: string) (hx_message: string)
  | HookExecutionError HookLifecycle HookPhase string string string

text \<open>\<open>HookOperationResult.__post_init__\<close>.\<close>

definition hook_result :: "HookDecision \<Rightarrow> (string, 'v) dict \<Rightarrow> string option \<Rightarrow> hook_error + 'v HookOperationResult" where
  "hook_result d data reason =
     (if d = RejectCall \<and> strip (case reason of None \<Rightarrow> [] | Some r \<Rightarrow> r) = []
      then Inl (HookException ''ValueError'' ''A rejected hook operation requires a reason.'')
      else if d = ContinueCall \<and> reason \<noteq> None
      then Inl (HookException ''ValueError'' ''A continuing hook operation cannot carry a rejection reason.'')
      else Inr \<lparr>ho_decision = d, ho_data = data, ho_reason = reason\<rparr>)"

definition continue_execution :: "(string, 'v) dict \<Rightarrow> hook_error + 'v HookOperationResult" where
  "continue_execution data = hook_result ContinueCall data None"

definition reject_call :: "string \<Rightarrow> (string, 'v) dict \<Rightarrow> hook_error + 'v HookOperationResult" where
  "reject_call reason data = hook_result RejectCall data (Some reason)"

record RuntimeEvent =
  ev_kind :: string
  ev_message :: string
  ev_data :: pydict

section \<open>The manager\<close>

type_synonym ('c, 'w, 'v) hook_body = "'c \<Rightarrow> 'w \<Rightarrow> 'w \<times> (hook_error + 'v HookOperationResult option)"

record ('c, 'w, 'v) hook_operation =
  hk_name :: string
  hk_body :: "('c, 'w, 'v) hook_body"

record ('c, 'w, 'v) hook_manager =
  hm_phase :: HookPhase
  hm_lifecycle :: HookLifecycle
  hm_operations :: "('c, 'w, 'v) hook_operation list"

definition new_hook_manager :: "HookPhase \<Rightarrow> HookLifecycle \<Rightarrow> ('c, 'w, 'v) hook_manager" where
  "new_hook_manager p l = \<lparr>hm_phase = p, hm_lifecycle = l, hm_operations = []\<rparr>"

text \<open>\<open>register\<close>; what is not callable is \<open>None\<close>.\<close>

definition register_hook :: "('c, 'w, 'v) hook_operation option \<Rightarrow> ('c, 'w, 'v) hook_manager \<Rightarrow> hook_error + ('c, 'w, 'v) hook_manager" where
  "register_hook operation m = (case operation of
      None \<Rightarrow> Inl (HookException ''TypeError'' ''Hook operation must be callable.'')
    | Some f \<Rightarrow> Inr (m\<lparr>hm_operations := hm_operations m @ [f]\<rparr>))"

text \<open>\<open>_name\<close>: the explicit name, the function's name or the class, in this order.\<close>

definition hook_name :: "string option \<Rightarrow> string option \<Rightarrow> string \<Rightarrow> string" where
  "hook_name explicit function_name class_name =
     (case explicit of Some n \<Rightarrow> if n \<noteq> [] then n else (case function_name of Some f \<Rightarrow> if f \<noteq> [] then f else class_name | None \<Rightarrow> class_name)
      | None \<Rightarrow> (case function_name of Some f \<Rightarrow> if f \<noteq> [] then f else class_name | None \<Rightarrow> class_name))"

definition event_data :: "HookPhase \<Rightarrow> HookLifecycle \<Rightarrow> string \<Rightarrow> pydict" where
  "event_data p l n = [(''hook'', PStr n), (''operation'', PStr n), (''phase'', PStr (phase_value p)), (''lifecycle'', PStr (lifecycle_value l))]"

definition event_name :: "HookPhase \<Rightarrow> HookLifecycle \<Rightarrow> string" where
  "event_name p l = phase_value p @ ''_'' @ lifecycle_value l"

definition hook_started :: "HookPhase \<Rightarrow> HookLifecycle \<Rightarrow> string \<Rightarrow> RuntimeEvent" where
  "hook_started p l n = \<lparr>ev_kind = ''hook_started'', ev_message = event_name p l, ev_data = event_data p l n\<rparr>"

definition hook_failed :: "HookPhase \<Rightarrow> HookLifecycle \<Rightarrow> string \<Rightarrow> hook_error \<Rightarrow> RuntimeEvent" where
  "hook_failed p l n e = (case e of HookException c m \<Rightarrow>
       \<lparr>ev_kind = ''hook_failed'', ev_message = m, ev_data = event_data p l n @ [(''error_type'', PStr c), (''error'', PStr m)]\<rparr>
     | HookExecutionError l' p' n' c m \<Rightarrow>
       \<lparr>ev_kind = ''hook_failed'', ev_message = m, ev_data = event_data p l n @ [(''error_type'', PStr ''HookExecutionError''), (''error'', PStr m)]\<rparr>)"

definition hook_completed :: "HookPhase \<Rightarrow> HookLifecycle \<Rightarrow> string \<Rightarrow> HookDecision \<Rightarrow> RuntimeEvent" where
  "hook_completed p l n d = \<lparr>ev_kind = ''hook_completed'', ev_message = event_name p l,
     ev_data = event_data p l n @ [(''decision'', PStr (decision_value d))]\<rparr>"

definition execution_error :: "HookLifecycle \<Rightarrow> HookPhase \<Rightarrow> string \<Rightarrow> hook_error \<Rightarrow> hook_error" where
  "execution_error l p n e = (case e of HookException c m \<Rightarrow> HookExecutionError l p n c m
     | HookExecutionError l' p' n' c m \<Rightarrow> HookExecutionError l p n ''HookExecutionError'' m)"

text \<open>An operation's answer, with the type check of \<open>execute\<close>.\<close>

definition call_hook :: "('c, 'w, 'v) hook_operation \<Rightarrow> 'c \<Rightarrow> 'w \<Rightarrow> 'w \<times> (hook_error + 'v HookOperationResult)" where
  "call_hook f c w = (case hk_body f c w of (w', r) \<Rightarrow> (w', case r of
      Inl e \<Rightarrow> Inl e
    | Inr None \<Rightarrow> Inl (HookException ''TypeError'' ''Hook operation must return HookOperationResult.'')
    | Inr (Some x) \<Rightarrow> Inr x))"

definition merge_data :: "(string, 'v) dict \<Rightarrow> (string, 'v) dict \<Rightarrow> (string, 'v) dict" where
  "merge_data d e = foldl (\<lambda>acc (k, v). AList.update k v acc) d e"

fun execute_loop :: "HookPhase \<Rightarrow> HookLifecycle \<Rightarrow> ('c, 'w, 'v) hook_operation list \<Rightarrow> 'c \<Rightarrow> (string, 'v) dict \<Rightarrow> RuntimeEvent list \<Rightarrow> 'w
    \<Rightarrow> 'w \<times> RuntimeEvent list \<times> (hook_error + 'v HookOperationResult)" where
  "execute_loop p l [] c acc evs w = (w, evs, continue_execution acc)"
| "execute_loop p l (f # fs) c acc evs w =
     (let n = hk_name f; evs1 = evs @ [hook_started p l n] in
      case call_hook f c w of
        (w', Inl e) \<Rightarrow> (w', evs1 @ [hook_failed p l n e], Inl (execution_error l p n e))
      | (w', Inr r) \<Rightarrow>
          (let acc' = merge_data acc (ho_data r); evs2 = evs1 @ [hook_completed p l n (ho_decision r)] in
           if ho_decision r = RejectCall
           then (w', evs2, reject_call (case ho_reason r of Some x \<Rightarrow> if x \<noteq> [] then x else ''Hook operation rejected.'' | None \<Rightarrow> ''Hook operation rejected.'') acc')
           else execute_loop p l fs c acc' evs2 w'))"

definition execute_hooks :: "('c, 'w, 'v) hook_manager \<Rightarrow> 'c \<Rightarrow> 'w \<Rightarrow> 'w \<times> RuntimeEvent list \<times> (hook_error + 'v HookOperationResult)" where
  "execute_hooks m c w = execute_loop (hm_phase m) (hm_lifecycle m) (hm_operations m) c [] [] w"

section \<open>What a manager guarantees\<close>

text \<open>A result that was constructed carries a reason exactly when it rejects.\<close>

definition result_ok :: "'v HookOperationResult \<Rightarrow> bool" where
  "result_ok r \<longleftrightarrow> (case ho_decision r of RejectCall \<Rightarrow> \<exists>x. ho_reason r = Some x \<and> strip x \<noteq> [] | ContinueCall \<Rightarrow> ho_reason r = None)"

lemma hook_result_ok: "hook_result d data reason = Inr r \<Longrightarrow> result_ok r \<and> ho_decision r = d \<and> ho_data r = data \<and> ho_reason r = reason"
  by (auto simp: hook_result_def result_ok_def split: if_splits option.splits HookDecision.splits)

text \<open>Operations run one after the other while they let the call continue.\<close>

inductive continued :: "('c, 'w, 'v) hook_operation list \<Rightarrow> 'c \<Rightarrow> 'w \<Rightarrow> (string, 'v) dict list \<Rightarrow> 'w \<Rightarrow> bool" where
  continued_Nil: "continued [] c w [] w"
| continued_Cons: "call_hook f c w = (w1, Inr r) \<Longrightarrow> ho_decision r = ContinueCall \<Longrightarrow> continued fs c w1 ds w2 \<Longrightarrow>
    continued (f # fs) c w (ho_data r # ds) w2"

definition bracket :: "HookPhase \<Rightarrow> HookLifecycle \<Rightarrow> string \<Rightarrow> RuntimeEvent list" where
  "bracket p l n = [hook_started p l n, hook_completed p l n ContinueCall]"

lemma execute_continued:
  assumes "continued fs c w ds w'"
  shows "execute_loop p l (fs @ gs) c acc evs w =
    execute_loop p l gs c (foldl merge_data acc ds) (evs @ concat (map (bracket p l \<circ> hk_name) fs)) w'"
  using assms by (induction arbitrary: acc evs) (simp_all add: Let_def bracket_def)

lemma continued_or_stops:
  "(\<exists>ds w'. continued fs c w ds w') \<or>
   (\<exists>pre f post ds w1 w2 r. fs = pre @ f # post \<and> continued pre c w ds w1 \<and> call_hook f c w1 = (w2, r)
     \<and> (case r of Inl _ \<Rightarrow> True | Inr x \<Rightarrow> ho_decision x = RejectCall))"
proof (induction fs arbitrary: w)
  case Nil
  show ?case by (blast intro: continued_Nil)
next
  case (Cons f fs)
  obtain w1 r where r: "call_hook f c w = (w1, r)" by (cases "call_hook f c w")
  show ?case
  proof (cases "case r of Inl _ \<Rightarrow> True | Inr x \<Rightarrow> ho_decision x = RejectCall")
    case True
    then show ?thesis using r continued_Nil by (intro disjI2 exI [of _ "[]"] exI [of _ f] exI [of _ fs]) fastforce
  next
    case False
    then obtain x where x: "r = Inr x" "ho_decision x = ContinueCall"
      by (cases r) (auto intro: HookDecision.exhaust)
    note step = continued_Cons [OF r [unfolded x(1)] x(2)]
    from Cons.IH [of w1] show ?thesis
    proof
      assume "\<exists>ds w'. continued fs c w1 ds w'"
      then show ?thesis using step by blast
    next
      assume "\<exists>pre g post ds u v q. fs = pre @ g # post \<and> continued pre c w1 ds u \<and> call_hook g c u = (v, q)
        \<and> (case q of Inl _ \<Rightarrow> True | Inr x \<Rightarrow> ho_decision x = RejectCall)"
      then obtain pre g post ds u v q where g: "fs = pre @ g # post" "continued pre c w1 ds u" "call_hook g c u = (v, q)"
        "case q of Inl _ \<Rightarrow> True | Inr x \<Rightarrow> ho_decision x = RejectCall" by blast
      have "f # fs = (f # pre) @ g # post" "continued (f # pre) c w (ho_data x # ds) u" using g(1,2) step by simp_all
      with g(3,4) show ?thesis by blast
    qed
  qed
qed

text \<open>Results come from the constructor of their class, which checks the reason.\<close>

definition hooks_construct_results :: "('c, 'w, 'v) hook_manager \<Rightarrow> 'c \<Rightarrow> bool" where
  "hooks_construct_results m c \<longleftrightarrow> (\<forall>f \<in> set (hm_operations m). \<forall>w w' r. call_hook f c w = (w', Inr r) \<longrightarrow> result_ok r)"

text \<open>C30. A hook manager runs its operations in registration order and stops at the first that rejects or raises:
  the operations after it are not run and the call does not continue; a rejection carries a reason and the data
  collected so far; a failure is reported under the name of the operation. When no operation rejects or raises,
  the call continues with the merged data. Every operation that ran is announced and completed, once, in order.\<close>

theorem hooks_stop_at_first_refusal:
  assumes "execute_hooks m c w = (w', evs, res)"
    and "hooks_construct_results m c"
  defines "p \<equiv> hm_phase m" and "l \<equiv> hm_lifecycle m"
  shows "(\<exists>ds. continued (hm_operations m) c w ds w' \<and> res = continue_execution (foldl merge_data [] ds)
        \<and> evs = concat (map (bracket p l \<circ> hk_name) (hm_operations m)))
    \<or> (\<exists>pre f post ds w1 r. hm_operations m = pre @ f # post \<and> continued pre c w ds w1 \<and> call_hook f c w1 = (w', r)
        \<and> (case r of
            Inl e \<Rightarrow> res = Inl (execution_error l p (hk_name f) e)
              \<and> evs = concat (map (bracket p l \<circ> hk_name) pre) @ [hook_started p l (hk_name f), hook_failed p l (hk_name f) e]
          | Inr x \<Rightarrow> ho_decision x = RejectCall
              \<and> res = Inr \<lparr>ho_decision = RejectCall, ho_data = merge_data (foldl merge_data [] ds) (ho_data x), ho_reason = ho_reason x\<rparr>
              \<and> evs = concat (map (bracket p l \<circ> hk_name) pre) @ [hook_started p l (hk_name f), hook_completed p l (hk_name f) RejectCall]))"
  using continued_or_stops [of "hm_operations m" c w]
proof
  assume "\<exists>ds w'. continued (hm_operations m) c w ds w'"
  then obtain ds u where c: "continued (hm_operations m) c w ds u" by blast
  have "execute_hooks m c w = (u, concat (map (bracket p l \<circ> hk_name) (hm_operations m)), continue_execution (foldl merge_data [] ds))"
    using execute_continued [OF c, where gs = "[]" and acc = "[]" and evs = "[]"] by (simp add: execute_hooks_def p_def l_def)
  with assms(1) c show ?thesis by auto
next
  assume "\<exists>pre f post ds w1 w2 r. hm_operations m = pre @ f # post \<and> continued pre c w ds w1 \<and> call_hook f c w1 = (w2, r)
     \<and> (case r of Inl _ \<Rightarrow> True | Inr x \<Rightarrow> ho_decision x = RejectCall)"
  then obtain pre f post ds w1 w2 r where s: "hm_operations m = pre @ f # post" "continued pre c w ds w1" "call_hook f c w1 = (w2, r)"
    "case r of Inl _ \<Rightarrow> True | Inr x \<Rightarrow> ho_decision x = RejectCall" by blast
  note ex = execute_continued [OF s(2), where gs = "f # post" and acc = "[]" and evs = "[]" and p = p and l = l]
  have res: "(w', evs, res) = execute_loop p l (f # post) c (foldl merge_data [] ds) (concat (map (bracket p l \<circ> hk_name) pre)) w1"
    using assms(1) ex s(1) by (simp add: execute_hooks_def p_def l_def)
  show ?thesis
  proof (cases r)
    case (Inl e)
    with s(3) res have "w' = w2" "res = Inl (execution_error l p (hk_name f) e)"
        "evs = concat (map (bracket p l \<circ> hk_name) pre) @ [hook_started p l (hk_name f), hook_failed p l (hk_name f) e]"
      by (simp_all add: Let_def)
    with s Inl show ?thesis by (intro disjI2 exI [of _ pre] exI [of _ f] exI [of _ post] exI [of _ ds] exI [of _ w1] exI [of _ r]) simp
  next
    case (Inr x)
    then have x: "ho_decision x = RejectCall" using s(4) by simp
    have "result_ok x" using assms(2) s(1,3) Inr by (auto simp: hooks_construct_results_def)
    then obtain y where y: "ho_reason x = Some y" "strip y \<noteq> []" by (auto simp: result_ok_def x)
    then have "y \<noteq> []" by (auto simp: strip_Nil)
    with y have rej: "reject_call (case ho_reason x of Some z \<Rightarrow> if z \<noteq> [] then z else ''Hook operation rejected.'' | None \<Rightarrow> ''Hook operation rejected.'') d
        = Inr \<lparr>ho_decision = RejectCall, ho_data = d, ho_reason = ho_reason x\<rparr>" for d
      by (simp add: reject_call_def hook_result_def)
    with s(3) res Inr x have "w' = w2" "res = Inr \<lparr>ho_decision = RejectCall, ho_data = merge_data (foldl merge_data [] ds) (ho_data x), ho_reason = ho_reason x\<rparr>"
        "evs = concat (map (bracket p l \<circ> hk_name) pre) @ [hook_started p l (hk_name f), hook_completed p l (hk_name f) RejectCall]"
      by (simp_all add: Let_def)
    with s Inr x show ?thesis by (intro disjI2 exI [of _ pre] exI [of _ f] exI [of _ post] exI [of _ ds] exI [of _ w1] exI [of _ r]) simp
  qed
qed

text \<open>Two operations of which the first rejects.\<close>

definition deny_hook :: "(nat, nat, string) hook_operation" where
  "deny_hook = \<lparr>hk_name = ''deny'', hk_body = (\<lambda>c w. (w + 1, Inr (Some \<lparr>ho_decision = RejectCall, ho_data = [(''k'', ''v'')], ho_reason = Some ''no''\<rparr>)))\<rparr>"

definition count_hook :: "(nat, nat, string) hook_operation" where
  "count_hook = \<lparr>hk_name = ''count'', hk_body = (\<lambda>c w. (w + 100, Inr (Some \<lparr>ho_decision = ContinueCall, ho_data = [], ho_reason = None\<rparr>)))\<rparr>"

definition sample_manager :: "(nat, nat, string) hook_manager" where
  "sample_manager = \<lparr>hm_phase = Before, hm_lifecycle = ToolLifecycle, hm_operations = [deny_hook, count_hook]\<rparr>"

lemma sample_execute:
  "execute_hooks sample_manager 0 0 = (1, [hook_started Before ToolLifecycle ''deny'', hook_completed Before ToolLifecycle ''deny'' RejectCall],
     Inr \<lparr>ho_decision = RejectCall, ho_data = [(''k'', ''v'')], ho_reason = Some ''no''\<rparr>)"
  by (simp add: execute_hooks_def sample_manager_def deny_hook_def call_hook_def merge_data_def reject_call_def hook_result_def strip_def lstrip_def is_space_def Let_def)

theorem hooks_stop_at_first_refusal_witness:
  "\<exists>pre f post ds w1 r. hm_operations sample_manager = pre @ f # post \<and> continued pre 0 0 ds w1 \<and> call_hook f 0 w1 = (1, r)"
proof -
  have ok: "hooks_construct_results sample_manager 0"
    by (auto simp: hooks_construct_results_def sample_manager_def deny_hook_def count_hook_def call_hook_def result_ok_def strip_def lstrip_def is_space_def)
  have "continued (hm_operations sample_manager) 0 0 ds 1 \<Longrightarrow> False" for ds
    by (auto simp: sample_manager_def deny_hook_def call_hook_def elim: continued.cases)
  with hooks_stop_at_first_refusal [OF sample_execute ok] show ?thesis by metis
qed

end
