(* ===== verification/RuntimeConfig.thy ===== *)
theory RuntimeConfig
  imports HookManager SandboxPolicy
begin

text \<open>
  \<open>AgentRuntime.apply_pending_runtime_config\<close> (\<open>runtime/core/context/runtime.py\<close>): a configuration change made in the user
  interface is applied at the next boundary of the running turn. The resolver of named providers is a parameter.
\<close>

section \<open>The configuration of a run\<close>

record model_config =
  mc_provider :: string
  mc_provider_name :: string
  mc_model :: string
  mc_snapshot :: pydict
  mc_parameters :: pydict
  mc_permission_mode :: string
  mc_running_mode :: string

record resolved_provider =
  rp_provider :: pyval
  rp_model :: pyval
  rp_context_size :: pyval
  rp_max_tokens :: pyval
  rp_temperature :: pyval

definition nonempty_text :: "pyval \<Rightarrow> bool" where
  "nonempty_text v = (case v of PStr s \<Rightarrow> s \<noteq> [] | _ \<Rightarrow> False)"

text \<open>\<open>isinstance(v, int) and v > 0\<close>; a Boolean is an integer to Python.\<close>

definition positive_int :: "pyval \<Rightarrow> bool" where
  "positive_int v = (case v of PInt i \<Rightarrow> 0 < i | PBool b \<Rightarrow> b | _ \<Rightarrow> False)"

definition number_value :: "pyval \<Rightarrow> bool" where
  "number_value v = (case v of PInt _ \<Rightarrow> True | PFloat _ \<Rightarrow> True | _ \<Rightarrow> False)"

definition pick :: "(pyval \<Rightarrow> bool) \<Rightarrow> pyval \<Rightarrow> pyval \<Rightarrow> pyval" where
  "pick ok v dflt = (if ok v then v else dflt)"

text \<open>A named provider is a complete model configuration.\<close>

definition provider_defaults :: "resolved_provider \<Rightarrow> pydict" where
  "provider_defaults r = [(''reasoning_effort'', PStr ''medium''), (''current_model'', pick nonempty_text (rp_model r) (PStr ''unknown'')),
     (''context_length'', pick positive_int (rp_context_size r) (PInt 128000)), (''output_length'', pick positive_int (rp_max_tokens r) (PInt 8192)),
     (''thinking'', PStr ''enable''), (''temperature'', pick number_value (rp_temperature r) (PFloat (Finite 0)))]"

definition no_provider :: resolved_provider where
  "no_provider = \<lparr>rp_provider = PNone, rp_model = PNone, rp_context_size = PNone, rp_max_tokens = PNone, rp_temperature = PNone\<rparr>"

definition set_if :: "bool \<Rightarrow> string \<Rightarrow> pyval \<Rightarrow> pydict \<Rightarrow> pydict" where
  "set_if b k v d = (if b then AList.update k v d else d)"

text \<open>Reselecting the same provider refreshes the fields its record has.\<close>

definition refresh_snapshot :: "resolved_provider \<Rightarrow> pydict \<Rightarrow> pydict" where
  "refresh_snapshot r d = set_if (number_value (rp_temperature r)) ''temperature'' (rp_temperature r)
     (set_if (positive_int (rp_max_tokens r)) ''output_length'' (rp_max_tokens r)
     (set_if (positive_int (rp_context_size r)) ''context_length'' (rp_context_size r)
     (set_if (nonempty_text (rp_model r)) ''current_model'' (rp_model r) d)))"

definition select_provider :: "(string \<Rightarrow> resolved_provider) option \<Rightarrow> pyval \<Rightarrow> model_config \<Rightarrow> model_config \<times> bool" where
  "select_provider resolver name c =
     (if name = PNone then (c, False)
      else let selected = py_str name; changed = casefold selected \<noteq> casefold (mc_provider_name c); c1 = c\<lparr>mc_provider_name := selected\<rparr> in
        (case resolver of
           Some f \<Rightarrow>
             (let r = f selected;
                  c2 = (case rp_provider r of PStr p \<Rightarrow> if p \<noteq> [] then c1\<lparr>mc_provider := p\<rparr> else c1 | _ \<Rightarrow> c1) in
              (c2\<lparr>mc_snapshot := if changed then provider_defaults r else refresh_snapshot r (mc_snapshot c2)\<rparr>, changed))
         | None \<Rightarrow> (if changed then c1\<lparr>mc_snapshot := provider_defaults no_provider\<rparr> else c1, changed)))"

definition patch_model :: "pydict \<Rightarrow> model_config \<Rightarrow> model_config" where
  "patch_model model c =
     (let snap = merge_data (mc_snapshot c) model;
          current = py_get snap ''current_model'';
          name = (case current of PStr s \<Rightarrow> if s \<noteq> [] then s else mc_model c | _ \<Rightarrow> mc_model c);
          output = py_get snap ''output_length'';
          p1 = set_if (positive_int output) ''max_tokens'' output (mc_parameters c);
          p2 = set_if (number_value (py_get snap ''temperature'')) ''temperature'' (py_get snap ''temperature'') p1;
          thinking = py_get snap ''thinking'';
          p3 = (if thinking = PStr ''disable'' then AList.update ''thinking'' (PDict [(''type'', PStr ''disabled'')]) (AList.delete ''reasoning_effort'' p2)
                else if thinking = PStr ''enable'' then
                  AList.update ''thinking'' (PDict [(''type'', PStr ''enabled'')])
                    (set_if (py_get snap ''reasoning_effort'' \<noteq> PNone) ''reasoning_effort'' (py_get snap ''reasoning_effort'') p2)
                else p2) in
      c\<lparr>mc_snapshot := snap, mc_model := name, mc_parameters := p3\<rparr>)"

definition get_or :: "pydict \<Rightarrow> string \<Rightarrow> pyval \<Rightarrow> pyval" where
  "get_or d k v = (case map_of d k of None \<Rightarrow> v | Some w \<Rightarrow> w)"

definition adopt_provider :: "model_config \<Rightarrow> model_config" where
  "adopt_provider c =
     (let snap = mc_snapshot c; output = py_get snap ''output_length'';
          p1 = set_if (positive_int output) ''max_tokens'' output (mc_parameters c);
          p2 = AList.update ''temperature'' (get_or snap ''temperature'' (PFloat (Finite 0))) p1;
          p3 = AList.update ''reasoning_effort'' (get_or snap ''reasoning_effort'' (PStr ''medium'')) p2 in
      c\<lparr>mc_model := (let v = py_get snap ''current_model'' in if truthy v then py_str v else ''unknown''),
        mc_parameters := AList.update ''thinking'' (PDict [(''type'', PStr ''enabled'')]) p3\<rparr>)"

definition apply_runtime_config :: "(string \<Rightarrow> resolved_provider) option \<Rightarrow> pydict \<Rightarrow> model_config \<Rightarrow> model_config" where
  "apply_runtime_config resolver pending c =
     (case select_provider resolver (py_get pending ''provider_name'') c of (c1, changed) \<Rightarrow>
      let c2 = (case py_get pending ''model'' of PDict m \<Rightarrow> patch_model m c1 | _ \<Rightarrow> if changed then adopt_provider c1 else c1);
          c3 = (case py_get pending ''permission_mode'' of PNone \<Rightarrow> c2 | v \<Rightarrow> c2\<lparr>mc_permission_mode := py_str v\<rparr>) in
      (case py_get pending ''running_mode'' of PNone \<Rightarrow> c3 | v \<Rightarrow> c3\<lparr>mc_running_mode := py_str v\<rparr>))"

section \<open>A provider switch starts clean\<close>

definition MANAGED :: "string list" where
  "MANAGED = [''max_tokens'', ''temperature'', ''reasoning_effort'', ''thinking'']"

lemma set_if_get [simp]: "map_of (set_if b k v d) x = (if b \<and> x = k then Some v else map_of d x)"
  by (simp add: set_if_def)

lemma provider_defaults_get [simp]:
  "py_get (provider_defaults r) ''output_length'' = pick positive_int (rp_max_tokens r) (PInt 8192)"
  "py_get (provider_defaults r) ''current_model'' = pick nonempty_text (rp_model r) (PStr ''unknown'')"
  "get_or (provider_defaults r) ''temperature'' v = pick number_value (rp_temperature r) (PFloat (Finite 0))"
  "get_or (provider_defaults r) ''reasoning_effort'' v = PStr ''medium''"
  by (simp_all add: provider_defaults_def py_get_def get_or_def)

lemma pick_positive: "positive_int (pick positive_int v (PInt 8192))"
  by (simp add: pick_def positive_int_def)

lemma select_changed:
  assumes "py_get pending ''provider_name'' = PStr name" "casefold name \<noteq> casefold (mc_provider_name c)"
  obtains r c' where "select_provider resolver (py_get pending ''provider_name'') c = (c', True)" "mc_snapshot c' = provider_defaults r"
    "mc_parameters c' = mc_parameters c"
proof (cases resolver)
  case None
  then show thesis using assms that [of _ no_provider] by (simp add: select_provider_def)
next
  case (Some f)
  let ?c = "fst (select_provider resolver (py_get pending ''provider_name'') c)"
  have "select_provider resolver (py_get pending ''provider_name'') c = (?c, True)" "mc_snapshot ?c = provider_defaults (f name)" "mc_parameters ?c = mc_parameters c"
    using assms Some by (auto simp: select_provider_def Let_def split: pyval.split)
  then show thesis by (rule that)
qed

text \<open>Switching to another named provider without a model patch leaves nothing of the old model behind: the snapshot, the model
  and every managed request parameter are those of the new provider, whatever they were; other parameters stay.\<close>

theorem provider_switch_is_clean:
  assumes "py_get pending ''provider_name'' = PStr name" "casefold name \<noteq> casefold (mc_provider_name c)" "\<And>m. py_get pending ''model'' \<noteq> PDict m"
  shows "\<exists>r. mc_snapshot (apply_runtime_config resolver pending c) = provider_defaults r
    \<and> mc_model (apply_runtime_config resolver pending c) = py_str (pick nonempty_text (rp_model r) (PStr ''unknown''))
    \<and> map_of (mc_parameters (apply_runtime_config resolver pending c)) ''max_tokens'' = Some (pick positive_int (rp_max_tokens r) (PInt 8192))
    \<and> map_of (mc_parameters (apply_runtime_config resolver pending c)) ''temperature'' = Some (pick number_value (rp_temperature r) (PFloat (Finite 0)))
    \<and> map_of (mc_parameters (apply_runtime_config resolver pending c)) ''reasoning_effort'' = Some (PStr ''medium'')
    \<and> map_of (mc_parameters (apply_runtime_config resolver pending c)) ''thinking'' = Some (PDict [(''type'', PStr ''enabled'')])
    \<and> (\<forall>k. k \<notin> set MANAGED \<longrightarrow> map_of (mc_parameters (apply_runtime_config resolver pending c)) k = map_of (mc_parameters c) k)"
proof -
  obtain r c' where c': "select_provider resolver (py_get pending ''provider_name'') c = (c', True)" "mc_snapshot c' = provider_defaults r"
    "mc_parameters c' = mc_parameters c" using select_changed [OF assms(1,2)] by metis
  let ?d = "adopt_provider c'"
  have nodict: "(case py_get pending ''model'' of PDict m \<Rightarrow> patch_model m c' | _ \<Rightarrow> ?d) = ?d"
  proof (cases "py_get pending ''model''")
    case (PDict m)
    then show ?thesis using assms(3) by blast
  qed simp_all
  have "apply_runtime_config resolver pending c = (let c3 = (case py_get pending ''permission_mode'' of PNone \<Rightarrow> ?d | v \<Rightarrow> ?d\<lparr>mc_permission_mode := py_str v\<rparr>) in
      (case py_get pending ''running_mode'' of PNone \<Rightarrow> c3 | v \<Rightarrow> c3\<lparr>mc_running_mode := py_str v\<rparr>))"
    by (simp add: apply_runtime_config_def c'(1) nodict) (simp add: Let_def)
  then have same: "mc_snapshot (apply_runtime_config resolver pending c) = mc_snapshot ?d" "mc_model (apply_runtime_config resolver pending c) = mc_model ?d"
    "mc_parameters (apply_runtime_config resolver pending c) = mc_parameters ?d"
    by (auto simp: Let_def split: pyval.split)
  have m: "truthy (pick nonempty_text (rp_model r) (PStr ''unknown''))"
    by (auto simp: pick_def nonempty_text_def split: pyval.split)
  show ?thesis
    unfolding same by (rule exI [of _ r]) (auto simp: adopt_provider_def Let_def c' pick_positive m MANAGED_def)
qed

text \<open>Selecting the provider again under its own name refreshes the snapshot and leaves the model that is sent and the request
  parameters as they were.\<close>

theorem reselected_provider_keeps_model:
  assumes "pending = [(''provider_name'', PStr (mc_provider_name c))]" "rp_model (f (mc_provider_name c)) = PStr m" "m \<noteq> []"
  shows "py_get (mc_snapshot (apply_runtime_config (Some f) pending c)) ''current_model'' = PStr m
    \<and> mc_model (apply_runtime_config (Some f) pending c) = mc_model c \<and> mc_parameters (apply_runtime_config (Some f) pending c) = mc_parameters c"
  using assms by (auto simp: apply_runtime_config_def select_provider_def Let_def py_get_def refresh_snapshot_def nonempty_text_def split: pyval.split)

section \<open>An example\<close>

definition sample_config :: model_config where
  "sample_config = \<lparr>mc_provider = ''openai'', mc_provider_name = ''Work'', mc_model = ''old'', mc_snapshot = [(''current_model'', PStr ''old''), (''thinking'', PStr ''disable'')],
     mc_parameters = [(''thinking'', PDict [(''type'', PStr ''disabled'')]), (''seed'', PInt 1)], mc_permission_mode = ''read_only'', mc_running_mode = ''agent''\<rparr>"

theorem provider_switch_is_clean_witness:
  "map_of (mc_parameters (apply_runtime_config None [(''provider_name'', PStr ''Home'')] sample_config)) ''thinking'' = Some (PDict [(''type'', PStr ''enabled'')])
   \<and> map_of (mc_parameters (apply_runtime_config None [(''provider_name'', PStr ''Home'')] sample_config)) ''seed'' = Some (PInt 1)"
proof -
  have "py_get [(''provider_name'', PStr ''Home'')] ''provider_name'' = PStr ''Home''" "\<And>m. py_get [(''provider_name'', PStr ''Home'')] ''model'' \<noteq> PDict m"
    by (simp_all add: py_get_def)
  moreover have "casefold ''Home'' \<noteq> casefold (mc_provider_name sample_config)" by (simp add: sample_config_def casefold_def fold_char_def)
  ultimately have "\<exists>r. map_of (mc_parameters (apply_runtime_config None [(''provider_name'', PStr ''Home'')] sample_config)) ''thinking'' = Some (PDict [(''type'', PStr ''enabled'')])
    \<and> (\<forall>k. k \<notin> set MANAGED \<longrightarrow> map_of (mc_parameters (apply_runtime_config None [(''provider_name'', PStr ''Home'')] sample_config)) k = map_of (mc_parameters sample_config) k)"
    using provider_switch_is_clean [of "[(''provider_name'', PStr ''Home'')]" "''Home''" sample_config None] by blast
  then show ?thesis by (auto simp: MANAGED_def sample_config_def)
qed

end
