(* ===== verification/SandboxApproval.thy ===== *)
theory SandboxApproval
  imports SandboxPolicy HookManager
begin

text \<open>
  \<open>sandbox/control/approvals.py\<close>, \<open>sandbox/control/operation.py\<close> and \<open>sandbox/control/decision.py\<close>:
  the approvals of a session, and the hook that stands before every tool call and decides whether the user is
  asked, whether the call goes on and under which sandbox decision.

  The hash function is \<open>ph_sha256\<close> of the host. The repository behind the approval store is the list of rows of
  its table (\<open>storage/sqlite_approvals.py\<close>, one row per session, request and permission target; an unknown
  session is refused by it). The user's answer is the interrupt handler of the context.
\<close>

section \<open>Approvals\<close>

datatype ApprovalDecision = DENY | ALLOW_ONCE | ALLOW_SESSION

fun ApprovalDecision_value :: "ApprovalDecision \<Rightarrow> string" where
  "ApprovalDecision_value DENY = ''deny''" | "ApprovalDecision_value ALLOW_ONCE = ''allow_once''"
| "ApprovalDecision_value ALLOW_SESSION = ''allow_session''"

record approval_request =
  ar_session_id :: string
  ar_command :: string
  ar_cwd :: string
  ar_permission_target :: string
  ar_network_target :: string

definition authorization_hash :: "policy_host \<Rightarrow> approval_request \<Rightarrow> string" where
  "authorization_hash h r = ph_sha256 h (ascii_text (PDict
     [(''session_id'', PStr (ar_session_id r)), (''command'', PStr (ar_command r)), (''cwd'', PStr (ar_cwd r)),
      (''permission_target'', PStr (ar_permission_target r)), (''network_target'', PStr (ar_network_target r))]))"

definition field_hash :: "policy_host \<Rightarrow> string \<Rightarrow> string" where
  "field_hash h v = ph_sha256 h v"

definition redacted_summary :: "policy_host \<Rightarrow> string \<Rightarrow> string" where
  "redacted_summary h v = ''sha256:'' @ take 16 (field_hash h v) @ '':length:'' @ str_int (int (length v))"

record ApprovalGrant =
  ag_session_id :: string
  ag_request_hash :: string
  ag_permission_target :: string
  ag_decision :: ApprovalDecision
  ag_command_hash :: string
  ag_cwd_hash :: string

definition grant_to_public :: "ApprovalGrant \<Rightarrow> (string \<times> string) list" where
  "grant_to_public g = [(''session_id'', ag_session_id g), (''request_hash'', ag_request_hash g),
     (''permission_target'', ag_permission_target g), (''decision'', ApprovalDecision_value (ag_decision g))]"

text \<open>A row: session, request hash, target, and the redacted remainder of the request.\<close>

record approval_row =
  row_session_id :: string
  row_request_hash :: string
  row_permission_target :: string
  row_command_hash :: string
  row_cwd_hash :: string
  row_network_hash :: string
  row_command_summary :: string
  row_cwd_summary :: string

record repository =
  rp_sessions :: "string set"
  rp_rows :: "approval_row list"

definition save_sandbox_approval :: "approval_row \<Rightarrow> (repository, sandbox_error, unit) raising" where
  "save_sandbox_approval row p =
     (if row_session_id row \<notin> rp_sessions p then (p, Inl (SbValueError (''Unknown session: '' @ row_session_id row)))
      else if \<exists>r \<in> set (rp_rows p). row_session_id r = row_session_id row \<and> row_request_hash r = row_request_hash row then (p, Inr ())
      else (p\<lparr>rp_rows := rp_rows p @ [row]\<rparr>, Inr ()))"

definition has_sandbox_approval :: "repository \<Rightarrow> string \<Rightarrow> string \<Rightarrow> string \<Rightarrow> bool" where
  "has_sandbox_approval p session digest target \<longleftrightarrow>
     (\<exists>r \<in> set (rp_rows p). row_session_id r = session \<and> row_request_hash r = digest \<and> row_permission_target r = target)"

record approval_store =
  as_grants :: "(string \<times> string \<times> string, ApprovalGrant) dict"
  as_repository :: "repository option"

definition new_approval_store :: "repository option \<Rightarrow> approval_store" where
  "new_approval_store p = \<lparr>as_grants = [], as_repository = p\<rparr>"

definition persist_grant :: "policy_host \<Rightarrow> approval_request \<Rightarrow> string \<Rightarrow> (approval_store, sandbox_error, unit) raising" where
  "persist_grant h r digest s = (case as_repository s of
      None \<Rightarrow> (s, Inr ())
    | Some p \<Rightarrow> (case save_sandbox_approval
          \<lparr>row_session_id = ar_session_id r, row_request_hash = digest, row_permission_target = ar_permission_target r,
           row_command_hash = field_hash h (ar_command r), row_cwd_hash = field_hash h (ar_cwd r),
           row_network_hash = field_hash h (ar_network_target r), row_command_summary = redacted_summary h (ar_command r),
           row_cwd_summary = redacted_summary h (ar_cwd r)\<rparr> p of (p', res) \<Rightarrow> (s\<lparr>as_repository := Some p'\<rparr>, res)))"

definition decide :: "policy_host \<Rightarrow> approval_request \<Rightarrow> string \<Rightarrow> (approval_store, sandbox_error, ApprovalGrant option) raising" where
  "decide h r decision s = (case enum_of ApprovalDecision_value [DENY, ALLOW_ONCE, ALLOW_SESSION] decision of
      None \<Rightarrow> (s, Inl (SbValueError (str_repr decision @ '' is not a valid ApprovalDecision'')))
    | Some DENY \<Rightarrow> (s, Inr None)
    | Some choice \<Rightarrow>
        (let digest = authorization_hash h r;
             grant = \<lparr>ag_session_id = ar_session_id r, ag_request_hash = digest, ag_permission_target = ar_permission_target r,
               ag_decision = choice, ag_command_hash = field_hash h (ar_command r), ag_cwd_hash = field_hash h (ar_cwd r)\<rparr> in
         if choice = ALLOW_SESSION
         then bind_action (persist_grant h r digest) (\<lambda>_. lift_action (Inr (Some grant)))
                (s\<lparr>as_grants := AList.update (ar_session_id r, digest, ar_permission_target r) grant (as_grants s)\<rparr>)
         else (s, Inr (Some grant))))"

definition allowed :: "policy_host \<Rightarrow> approval_request \<Rightarrow> approval_store \<Rightarrow> bool" where
  "allowed h r s = (let digest = authorization_hash h r in
     if (ar_session_id r, digest, ar_permission_target r) \<in> keys (as_grants s) then True
     else case as_repository s of None \<Rightarrow> False
       | Some p \<Rightarrow> has_sandbox_approval p (ar_session_id r) digest (ar_permission_target r))"

section \<open>The hash identifies the request\<close>

lemma ascii_unchar_char: "json_unchar (ascii_char c @ r) = (c, r)"
proof (cases "127 \<le> (of_char c :: nat)")
  case True
  let ?n = "of_char c :: nat"
  have "ascii_char c = [CHR 0x5C, CHR ''u'', CHR ''0'', CHR ''0''] @ hex2 ?n" using True by (simp add: ascii_char_def)
  moreover have "?n div 16 < 16" "?n mod 16 < 16" using nat_of_char_less_256 [of c] by (simp_all add: div_less_iff_less_mult)
  moreover have "16 * (?n div 16) + ?n mod 16 = ?n" by simp
  ultimately show ?thesis by (simp add: json_unchar_def hex2_def hex_value_digit del: mult_div_mod_eq)
next
  case False
  then show ?thesis by (simp add: ascii_char_def json_unchar_char)
qed

lemma ascii_char_hd: "ascii_char c \<noteq> [] \<and> hd (ascii_char c) \<noteq> CHR 0x22"
  using json_char_hd [of c] by (simp add: ascii_char_def Let_def)

lemma ascii_str_body:
  "concat (map ascii_char s) @ CHR 0x22 # r = concat (map ascii_char t) @ CHR 0x22 # u \<Longrightarrow> s = t \<and> r = u"
proof (induction s arbitrary: t)
  case Nil
  then show ?case
  proof (cases t)
    case (Cons d v)
    with Nil show ?thesis using ascii_char_hd [of d] by (cases "ascii_char d") auto
  qed simp
next
  case (Cons c s)
  show ?case
  proof (cases t)
    case Nil
    with Cons.prems show ?thesis using ascii_char_hd [of c] by (cases "ascii_char c") auto
  next
    case t: (Cons d v)
    with Cons.prems have "ascii_char c @ (concat (map ascii_char s) @ CHR 0x22 # r)
        = ascii_char d @ (concat (map ascii_char v) @ CHR 0x22 # u)" by simp
    from this [THEN arg_cong [where f = json_unchar]]
    have "c = d" "concat (map ascii_char s) @ CHR 0x22 # r = concat (map ascii_char v) @ CHR 0x22 # u"
      by (simp_all add: ascii_unchar_char)
    with Cons.IH t show ?thesis by blast
  qed
qed

lemma ascii_str_prefix: "ascii_str s @ r = ascii_str t @ u \<longleftrightarrow> s = t \<and> r = u"
  using ascii_str_body [of s r t u] by (auto simp: ascii_str_def)

lemma request_key_order: "''command'' < ''cwd''" "''cwd'' < ''network_target''" "''network_target'' < ''permission_target''" "''permission_target'' < ''session_id''"
  by code_simp+

lemma sort_five:
  assumes "k1 < k2" "k2 < k3" "k3 < k4" "k4 < (k5 :: 'k :: linorder)"
  shows "sort_key fst [(k5, a), (k1, b), (k2, c), (k4, d), (k3, e)] = [(k1, b), (k2, c), (k3, e), (k4, d), (k5, a)]"
proof -
  have "k1 \<le> k3" "k1 \<le> k4" "k1 \<le> k5" "k2 \<le> k4" "k2 \<le> k5" "k3 \<le> k5" "\<not> k4 \<le> k3" "\<not> k5 \<le> k1" "\<not> k5 \<le> k2" "\<not> k5 \<le> k3" "\<not> k5 \<le> k4"
    "k1 \<le> k2" "k2 \<le> k3" using assms by auto
  then show ?thesis by simp
qed

lemma request_text:
  "ascii_text (PDict [(''session_id'', PStr a), (''command'', PStr b), (''cwd'', PStr c), (''permission_target'', PStr d), (''network_target'', PStr e)])
   = ''{'' @ ascii_str ''command'' @ '':'' @ ascii_str b @ '','' @ ascii_str ''cwd'' @ '':'' @ ascii_str c @ '','' @ ascii_str ''network_target'' @ '':'' @ ascii_str e
     @ '','' @ ascii_str ''permission_target'' @ '':'' @ ascii_str d @ '','' @ ascii_str ''session_id'' @ '':'' @ ascii_str a @ ''}''"
  using sort_five [OF request_key_order] by simp

definition collision_free :: "policy_host \<Rightarrow> bool" where
  "collision_free h \<longleftrightarrow> inj (ph_sha256 h)"

lemma authorization_hash_inj:
  assumes "collision_free h" "authorization_hash h r = authorization_hash h q"
  shows "r = q"
proof -
  from assms have "ascii_text (PDict [(''session_id'', PStr (ar_session_id r)), (''command'', PStr (ar_command r)), (''cwd'', PStr (ar_cwd r)),
      (''permission_target'', PStr (ar_permission_target r)), (''network_target'', PStr (ar_network_target r))]) =
    ascii_text (PDict [(''session_id'', PStr (ar_session_id q)), (''command'', PStr (ar_command q)), (''cwd'', PStr (ar_cwd q)),
      (''permission_target'', PStr (ar_permission_target q)), (''network_target'', PStr (ar_network_target q))])"
    by (simp add: authorization_hash_def collision_free_def inj_eq)
  then have "ar_command r = ar_command q \<and> ar_cwd r = ar_cwd q \<and> ar_network_target r = ar_network_target q
      \<and> ar_permission_target r = ar_permission_target q \<and> ar_session_id r = ar_session_id q"
    unfolding request_text same_append_eq ascii_str_prefix by simp
  then show ?thesis by (cases r; cases q) simp
qed

text \<open>A sequence of decisions.\<close>

fun decide_all :: "policy_host \<Rightarrow> (approval_request \<times> string) list \<Rightarrow> approval_store \<Rightarrow> approval_store" where
  "decide_all h [] s = s"
| "decide_all h ((r, d) # rest) s = decide_all h rest (fst (decide h r d s))"

lemma decide_noop: "d \<noteq> ''allow_session'' \<Longrightarrow> fst (decide h r d s) = s"
  by (auto simp: decide_def enum_of_def Let_def split: option.splits ApprovalDecision.splits if_splits)

lemma has_after_save:
  assumes "save_sandbox_approval row p = (p', res)"
  shows "has_sandbox_approval p' session digest target \<longleftrightarrow> has_sandbox_approval p session digest target
    \<or> (res = Inr () \<and> session = row_session_id row \<and> digest = row_request_hash row \<and> target = row_permission_target row
       \<and> \<not> (\<exists>r \<in> set (rp_rows p). row_session_id r = row_session_id row \<and> row_request_hash r = row_request_hash row))"
  using assms by (auto simp: save_sandbox_approval_def has_sandbox_approval_def split: if_splits)

lemma decide_session_grants:
  assumes "fst (decide h r ''allow_session'' s) = s'"
  shows "as_grants s' = AList.update (ar_session_id r, authorization_hash h r, ar_permission_target r)
      \<lparr>ag_session_id = ar_session_id r, ag_request_hash = authorization_hash h r, ag_permission_target = ar_permission_target r,
       ag_decision = ALLOW_SESSION, ag_command_hash = field_hash h (ar_command r), ag_cwd_hash = field_hash h (ar_cwd r)\<rparr> (as_grants s)"
    and "\<And>p'. as_repository s' = Some p' \<Longrightarrow> has_sandbox_approval p' session digest target \<Longrightarrow>
      (\<exists>p. as_repository s = Some p \<and> has_sandbox_approval p session digest target)
      \<or> session = ar_session_id r \<and> digest = authorization_hash h r \<and> target = ar_permission_target r"
    and "\<And>p. as_repository s = Some p \<Longrightarrow> has_sandbox_approval p session digest target \<Longrightarrow>
      \<exists>p'. as_repository s' = Some p' \<and> has_sandbox_approval p' session digest target"
    and "as_repository s = None \<longleftrightarrow> as_repository s' = None"
  using assms has_after_save
  by (fastforce simp: decide_def enum_of_def Let_def bind_action_def persist_grant_def split: option.splits prod.splits sum.splits)+

lemma allowed_iff:
  "allowed h r s \<longleftrightarrow> (ar_session_id r, authorization_hash h r, ar_permission_target r) \<in> keys (as_grants s)
     \<or> (\<exists>p. as_repository s = Some p \<and> has_sandbox_approval p (ar_session_id r) (authorization_hash h r) (ar_permission_target r))"
  by (auto simp: allowed_def Let_def split: option.splits)

lemma decide_allowed:
  assumes "collision_free h"
  shows "allowed h q (fst (decide h r d s)) \<longleftrightarrow> allowed h q s \<or> (d = ''allow_session'' \<and> q = r)"
proof (cases "d = ''allow_session''")
  case False
  then show ?thesis by (simp add: decide_noop)
next
  case True
  let ?s = "fst (decide h r ''allow_session'' s)"
  note g = decide_session_grants [where h = h and r = r and s = s, OF refl]
  have hash: "authorization_hash h q = authorization_hash h r \<longleftrightarrow> q = r" using authorization_hash_inj [OF assms] by blast
  show ?thesis
  proof
    assume "allowed h q (fst (decide h r d s))"
    then show "allowed h q s \<or> d = ''allow_session'' \<and> q = r"
      using hash unfolding allowed_iff True g(1) keys_update by (auto dest: g(2))
  next
    assume "allowed h q s \<or> d = ''allow_session'' \<and> q = r"
    then show "allowed h q (fst (decide h r d s))"
      unfolding allowed_iff True g(1) keys_update by (auto dest: g(3))
  qed
qed

text \<open>C23. Approvals are exact: after any sequence of decisions a request is allowed without asking precisely
  when it was known before or the very same request (session, command, directory, permission and network target)
  was allowed for the session. A denial or a single permission never allows a later call, and a permission
  never carries over to another command, directory, target or session.\<close>

theorem approvals_exact:
  assumes "collision_free h"
  shows "allowed h q (decide_all h ds s) \<longleftrightarrow> allowed h q s \<or> (q, ''allow_session'') \<in> set ds"
proof (induction ds arbitrary: s)
  case (Cons x ds)
  obtain r d where x: "x = (r, d)" by (cases x)
  show ?case using Cons.IH [of "fst (decide h r d s)"] decide_allowed [OF assms, of q r d s] by (auto simp: x)
qed simp

definition sample_approval :: approval_request where
  "sample_approval = \<lparr>ar_session_id = ''s'', ar_command = ''dir'', ar_cwd = ''C:/w'', ar_permission_target = ''read_only'', ar_network_target = []\<rparr>"

theorem approvals_exact_witness:
  "allowed sample_policy_host sample_approval (decide_all sample_policy_host [(sample_approval, ''allow_once''), (sample_approval, ''allow_session'')] (new_approval_store None))
   \<and> \<not> allowed sample_policy_host (sample_approval\<lparr>ar_command := ''del''\<rparr>)
       (decide_all sample_policy_host [(sample_approval, ''allow_once''), (sample_approval, ''allow_session'')] (new_approval_store None))"
proof -
  have "collision_free sample_policy_host" by (simp add: collision_free_def sample_policy_host_def)
  note exact = approvals_exact [OF this]
  have "\<not> allowed sample_policy_host q (new_approval_store None)" for q by (simp add: allowed_iff new_approval_store_def)
  then show ?thesis unfolding exact by (simp add: sample_approval_def)
qed

section \<open>The decision for a command\<close>

record SandboxExecutionDecision =
  xd_workspaces :: "string list"
  xd_session_id :: string
  xd_user_id :: string
  xd_file_mode :: FileAccessMode
  xd_network_mode :: NetworkMode
  xd_network_allowlist :: "NetworkRule list"
  xd_proxy_port :: int
  xd_limits :: ResourceLimits

definition command_policy :: "policy_host \<Rightarrow> SandboxExecutionDecision \<Rightarrow> string \<Rightarrow> TerminalKind \<Rightarrow> sandbox_error + SandboxPolicy" where
  "command_policy h x job terminal = sandbox_policy h \<lparr>pa_workspaces = xd_workspaces x, pa_session_id = xd_session_id x, pa_job_id = job,
     pa_file_mode = PStr (FileAccessMode_value (xd_file_mode x)), pa_network_mode = PStr (NetworkMode_value (xd_network_mode x)),
     pa_network_allowlist = xd_network_allowlist x, pa_limits = xd_limits x, pa_terminal = PStr (TerminalKind_value terminal),
     pa_proxy_port = PInt (xd_proxy_port x)\<rparr>"

record RunHookInfo =
  ri_session_id :: string
  ri_run_id :: string
  ri_task :: string
  ri_mode :: string

record InterruptRequest =
  ir_kind :: string
  ir_message :: string
  ir_data :: pydict

record InterruptDecision =
  id_choice :: string
  id_supplement :: "string option"

record ToolHookContext =
  tc_run :: RunHookInfo
  tc_call_id :: string
  tc_name :: string
  tc_arguments :: pydict
  tc_workspace_root :: string
  tc_project_cwd :: string
  tc_permission_mode :: string
  tc_requires_confirmation :: bool
  tc_read_only :: bool
  tc_workspace_confined :: bool
  tc_launcher :: bool
  tc_sandbox_config :: pydict
  tc_sandbox_user_id :: "string option"
  tc_interrupt :: "(InterruptRequest \<Rightarrow> InterruptDecision) option"
  tc_record_event :: bool
  tc_publish :: bool
  tc_outcome :: bool

text \<open>What the data of a hook result can hold here.\<close>

datatype hook_value = HvInterrupt InterruptDecision | HvText string | HvDecision SandboxExecutionDecision

text \<open>What the operation does besides returning: it records an event of the run, publishes one, asks the user.\<close>

datatype hook_action = Recorded string string pydict | Published RuntimeEvent | Asked InterruptRequest

definition WEB_NETWORK_TOOLS :: "string list" where
  "WEB_NETWORK_TOOLS = [''web_search'', ''web_fetch'']"

definition config_network_mode :: "ToolHookContext \<Rightarrow> string" where
  "config_network_mode c = (let v = get_str (tc_sandbox_config c) ''network_mode'' in if v = [] then ''no_network'' else v)"

definition requires_approval :: "ToolHookContext \<Rightarrow> bool" where
  "requires_approval c =
     (if tc_name c \<in> set WEB_NETWORK_TOOLS then config_network_mode c \<noteq> ''full_network''
      else let workspace_write_allowed = tc_permission_mode c = ''workspace_write'' \<and> tc_workspace_confined c in
        tc_requires_confirmation c \<and> tc_permission_mode c \<noteq> ''full_access'' \<and> \<not> workspace_write_allowed)"

text \<open>The request shown to the user. The configured allowlist is a sequence (a number there would raise).\<close>

definition approval_interrupt :: "ToolHookContext \<Rightarrow> InterruptRequest" where
  "approval_interrupt c = \<lparr>ir_kind = ''tool'', ir_message = ''Call tool '' @ tc_name c @ ''?'',
     ir_data = [(''run_id'', PStr (ri_run_id (tc_run c))), (''tool'', PStr (tc_name c)), (''call_id'', PStr (tc_call_id c)),
       (''arguments'', PDict (tc_arguments c)), (''session_id'', PStr (ri_session_id (tc_run c))),
       (''command'', case py_get (tc_arguments c) ''command'' of PStr s \<Rightarrow> PStr s | _ \<Rightarrow> PStr (tc_name c)),
       (''cwd'', PStr (tc_workspace_root c)), (''permission_target'', PStr (tc_permission_mode c)),
       (''network_target'', if tc_name c = ''run_command''
          then PDict [(''mode'', PStr (config_network_mode c)),
            (''allowlist'', PList (let v = py_get (tc_sandbox_config c) ''network_allowlist'' in
              if truthy v then (case py_iter v of Some xs \<Rightarrow> xs | None \<Rightarrow> []) else []))]
          else PNone)]\<rparr>"

definition record_action :: "ToolHookContext \<Rightarrow> string \<Rightarrow> string \<Rightarrow> InterruptRequest \<Rightarrow> hook_action list" where
  "record_action c kind msg q = (if tc_record_event c then [Recorded kind msg ((''interrupt_kind'', PStr ''tool'') # ir_data q)] else [])"

definition publish_action :: "ToolHookContext \<Rightarrow> string \<Rightarrow> string \<Rightarrow> pydict \<Rightarrow> hook_action list" where
  "publish_action c kind msg d = (if tc_publish c then [Published \<lparr>ev_kind = kind, ev_message = msg, ev_data = d\<rparr>] else [])"

text \<open>The network part of \<open>_command_decision\<close>. Entries of the allowlist that are no mappings are skipped; a port must
  be absent or an integer before any rule is built.\<close>

definition config_invalid :: sandbox_error where
  "config_invalid = SbValueError ''run_command sandbox configuration is invalid''"

definition rule_entries :: "pyval \<Rightarrow> pydict list" where
  "rule_entries v = (case v of PList xs \<Rightarrow> dict_items xs | _ \<Rightarrow> [])"

definition port_typed :: "pydict \<Rightarrow> bool" where
  "port_typed d = (case py_get d ''port'' of PNone \<Rightarrow> True | PInt _ \<Rightarrow> True | _ \<Rightarrow> False)"

definition config_port :: "pydict \<Rightarrow> sandbox_error + int" where
  "config_port d = (case map_of d ''proxy_port'' of
      None \<Rightarrow> Inr 17831
    | Some (PFloat PosInf) \<Rightarrow> Inl SbOverflow
    | Some (PFloat NegInf) \<Rightarrow> Inl SbOverflow
    | Some v \<Rightarrow> (case py_int v of Some i \<Rightarrow> Inr i | None \<Rightarrow> Inl config_invalid))"

definition command_decision :: "policy_host \<Rightarrow> ToolHookContext \<Rightarrow> sandbox_error + SandboxExecutionDecision" where
  "command_decision h c =
     (let cfg = tc_sandbox_config c; rules = rule_entries (py_get cfg ''network_allowlist'') in
      bind_result (limits_from_mapping (case py_get cfg ''limits'' of PDict d \<Rightarrow> Some d | _ \<Rightarrow> None)) (\<lambda>limits.
      bind_result (case enum_of FileAccessMode_value [READ_ONLY, WORKSPACE_WRITE, FULL_ACCESS] (tc_permission_mode c) of
          Some m \<Rightarrow> Inr m | None \<Rightarrow> Inl config_invalid) (\<lambda>fm.
      bind_result (case enum_of NetworkMode_value [NO_NETWORK, RESTRICTED_NETWORK, FULL_NETWORK] (config_network_mode c) of
          Some m \<Rightarrow> Inr m | None \<Rightarrow> Inl config_invalid) (\<lambda>nm.
      bind_result (config_port cfg) (\<lambda>port.
      bind_result (ensure (list_all port_typed rules) config_invalid) (\<lambda>_.
      bind_result (map_result (\<lambda>d. network_rule h (get_str d ''host'') (py_get d ''port'')) rules) (\<lambda>allowlist.
      let w = ph_resolve h (tc_workspace_root c);
          p = ph_resolve h (tc_project_cwd c);
          ws = (if tc_project_cwd c = [] \<or> ph_path_key h p = ph_path_key h w then [w] else [w, p]) in
      Inr \<lparr>xd_workspaces = ws, xd_session_id = ri_session_id (tc_run c),
           xd_user_id = (case tc_sandbox_user_id c of Some u \<Rightarrow> if u = [] then ''local'' else u | None \<Rightarrow> ''local''),
           xd_file_mode = fm, xd_network_mode = nm, xd_network_allowlist = allowlist, xd_proxy_port = port, xd_limits = limits\<rparr>)))))))"

section \<open>The hook before a tool call\<close>

text \<open>\<open>HookOperationResult\<close> raises for a malformed result; the results of this operation are well formed.\<close>

type_synonym tool_result = "hook_value HookOperationResult"

definition go_on :: "(string, hook_value) dict \<Rightarrow> tool_result" where
  "go_on d = \<lparr>ho_decision = ContinueCall, ho_data = d, ho_reason = None\<rparr>"

definition turn_down :: "string \<Rightarrow> (string, hook_value) dict \<Rightarrow> tool_result" where
  "turn_down reason d = \<lparr>ho_decision = RejectCall, ho_data = d, ho_reason = Some reason\<rparr>"

text \<open>The approval part: the actions taken and, when the call must not go on, the rejection.\<close>

definition ask_approval :: "ToolHookContext \<Rightarrow> hook_action list \<times> tool_result option" where
  "ask_approval c =
     (let q = approval_interrupt c;
          asked = record_action c ''approval_requested'' ''Tool approval requested'' q @ publish_action c ''approval_requested'' (ir_message q) (ir_data q) in
      case tc_interrupt c of
        None \<Rightarrow> (asked, Some (turn_down ''Tool approval cancelled because no interrupt handler is available.''
            [(''interrupt'', HvInterrupt \<lparr>id_choice = ''cancel'', id_supplement = None\<rparr>)]))
      | Some f \<Rightarrow>
          (let d = f q; asked = asked @ [Asked q] in
           if id_choice d = ''deny'' then (asked, Some (turn_down (''The user denied this '' @ tc_name c @ '' tool call.'')
               [(''interrupt'', HvInterrupt d), (''failure_code'', HvText ''user_denied'')]))
           else if id_choice d \<noteq> ''continue'' then (asked, Some (turn_down ''Tool approval was not granted.'' [(''interrupt'', HvInterrupt d)]))
           else (asked @ record_action c ''approval_granted'' ''Tool approval granted'' q @ publish_action c ''approval_granted'' (ir_message q) (ir_data q), None)))"

definition run_command_data :: "policy_host \<Rightarrow> ToolHookContext \<Rightarrow> sandbox_error + tool_result" where
  "run_command_data h c =
     (if tc_name c \<noteq> ''run_command'' then Inr (go_on [])
      else if \<not> tc_launcher c then Inr (turn_down ''Command execution is unavailable because the Sandbox runtime is not healthy.''
        [(''failure_code'', HvText ''sandbox_unavailable'')])
      else bind_result (command_decision h c) (\<lambda>x. Inr (go_on [(''sandbox_decision'', HvDecision x)])))"

definition sandbox_operation :: "policy_host \<Rightarrow> ToolHookContext \<Rightarrow> hook_action list \<times> (sandbox_error + tool_result)" where
  "sandbox_operation h c =
     (if tc_outcome c then ([], Inr (go_on []))
      else if requires_approval c
      then (case ask_approval c of (acts, Some r) \<Rightarrow> (acts, Inr r) | (acts, None) \<Rightarrow> (acts, run_command_data h c))
      else ([], run_command_data h c))"

section \<open>No tool call without its approval\<close>

lemma enum_of_Some: "enum_of val members s = Some x \<Longrightarrow> val x = s \<and> x \<in> set members"
  by (auto simp: enum_of_def find_Some_iff)

lemma ask_approval_granted:
  assumes "ask_approval c = (acts, None)"
  shows "\<exists>f. tc_interrupt c = Some f \<and> id_choice (f (approval_interrupt c)) = ''continue'' \<and> Asked (approval_interrupt c) \<in> set acts"
  using assms by (auto simp: ask_approval_def Let_def split: option.splits if_splits)

lemma ask_approval_refused: "ask_approval c = (acts, Some r) \<Longrightarrow> ho_decision r = RejectCall"
  by (auto simp: ask_approval_def Let_def turn_down_def split: option.splits if_splits)

lemma run_command_continues:
  assumes "run_command_data h c = Inr r" "ho_decision r = ContinueCall" "tc_name c = ''run_command''"
  shows "tc_launcher c \<and> (\<exists>x. command_decision h c = Inr x \<and> ho_data r = [(''sandbox_decision'', HvDecision x)])"
  using assms by (auto simp: run_command_data_def go_on_def turn_down_def bind_result_Inr split: if_splits)

lemma command_decision_Inr:
  assumes "command_decision h c = Inr x"
  shows "FileAccessMode_value (xd_file_mode x) = tc_permission_mode c \<and> NetworkMode_value (xd_network_mode x) = config_network_mode c
    \<and> limits_bounded (xd_limits x) \<and> ph_resolve h (tc_workspace_root c) \<in> set (xd_workspaces x)
    \<and> set (xd_workspaces x) \<subseteq> {ph_resolve h (tc_workspace_root c), ph_resolve h (tc_project_cwd c)}
    \<and> xd_session_id x = ri_session_id (tc_run c)"
proof -
  let ?cfg = "tc_sandbox_config c"
  from assms obtain limits fm nm where l: "limits_from_mapping (case py_get ?cfg ''limits'' of PDict d \<Rightarrow> Some d | _ \<Rightarrow> None) = Inr limits"
      "enum_of FileAccessMode_value [READ_ONLY, WORKSPACE_WRITE, FULL_ACCESS] (tc_permission_mode c) = Some fm"
      "enum_of NetworkMode_value [NO_NETWORK, RESTRICTED_NETWORK, FULL_NETWORK] (config_network_mode c) = Some nm"
      and x: "xd_limits x = limits" "xd_file_mode x = fm" "xd_network_mode x = nm" "xd_session_id x = ri_session_id (tc_run c)"
        "xd_workspaces x = (if tc_project_cwd c = [] \<or> ph_path_key h (ph_resolve h (tc_project_cwd c)) = ph_path_key h (ph_resolve h (tc_workspace_root c))
          then [ph_resolve h (tc_workspace_root c)] else [ph_resolve h (tc_workspace_root c), ph_resolve h (tc_project_cwd c)])"
    by (auto simp: command_decision_def Let_def bind_result_Inr split: option.splits)
  have "limits_validate limits = Inr ()" using l(1) by (auto simp: limits_from_mapping_def Let_def bind_result_Inr)
  then show ?thesis using enum_of_Some [OF l(2)] enum_of_Some [OF l(3)] limits_validate_bounded x by auto
qed

lemma FileAccessMode_roundtrip: "normalize_permission_mode dflt (PStr (FileAccessMode_value m)) = Inr m"
  by (cases m) (simp_all add: normalize_permission_mode_def unhashable_def)

lemma NetworkMode_roundtrip: "enum_of NetworkMode_value [NO_NETWORK, RESTRICTED_NETWORK, FULL_NETWORK] (NetworkMode_value m) = Some m"
  by (cases m) (simp_all add: enum_of_def)

lemma command_policy_modes:
  assumes "command_policy h x job terminal = Inr p"
  shows "pol_file_mode p = xd_file_mode x \<and> pol_network_mode p = xd_network_mode x \<and> pol_network_allowlist p = xd_network_allowlist x
    \<and> pol_limits p = xd_limits x \<and> pol_session_id p = xd_session_id x \<and> pol_job_id p = job"
  using assms by (auto simp: command_policy_def sandbox_policy_def bind_result_Inr Let_def FileAccessMode_roundtrip NetworkMode_roundtrip)

text \<open>C13. A tool call that needs approval goes on only when the user was asked for exactly this call and answered
  \<open>continue\<close>; a call that needs none goes on without a question. The web tools need approval in every mode but
  full network access, whatever the permission mode; other tools are exempt only under full access, or when
  they are confined to a writable workspace, or need no confirmation.\<close>

theorem tool_call_needs_approval:
  assumes "sandbox_operation h c = (acts, Inr r)" "ho_decision r = ContinueCall" "\<not> tc_outcome c"
  shows "(if requires_approval c
      then \<exists>f. tc_interrupt c = Some f \<and> id_choice (f (approval_interrupt c)) = ''continue'' \<and> Asked (approval_interrupt c) \<in> set acts
      else acts = [])
    \<and> (tc_name c \<in> {''web_search'', ''web_fetch''} \<and> acts = [] \<longrightarrow> config_network_mode c = ''full_network'')
    \<and> (tc_name c \<notin> {''web_search'', ''web_fetch''} \<and> acts = [] \<and> tc_requires_confirmation c \<longrightarrow>
        tc_permission_mode c = ''full_access'' \<or> tc_permission_mode c = ''workspace_write'' \<and> tc_workspace_confined c)"
proof (cases "requires_approval c")
  case True
  obtain acts' res where a: "ask_approval c = (acts', res)" by (cases "ask_approval c")
  have "res = None" using a assms True ask_approval_refused by (cases res) (auto simp: sandbox_operation_def)
  with a assms True have "ask_approval c = (acts, None)" by (simp add: sandbox_operation_def)
  from ask_approval_granted [OF this] show ?thesis using True by auto
next
  case False
  then have "acts = []" using assms(1,3) by (simp add: sandbox_operation_def)
  then show ?thesis using False by (auto simp: requires_approval_def WEB_NETWORK_TOOLS_def Let_def)
qed

text \<open>C14. A command is executed only inside the sandbox and with the permissions of the run: when the hook lets a
  \<open>run_command\<close> call continue, a launcher is present and the call carries a decision whose file and network modes
  are those of the context, whose limits are in range and whose workspaces are the run's directories; every policy
  built from the decision has these modes and limits.\<close>

theorem command_runs_in_its_sandbox:
  assumes "sandbox_operation h c = (acts, Inr r)" "ho_decision r = ContinueCall" "\<not> tc_outcome c" "tc_name c = ''run_command''"
  shows "tc_launcher c \<and> (\<exists>x. map_of (ho_data r) ''sandbox_decision'' = Some (HvDecision x)
    \<and> FileAccessMode_value (xd_file_mode x) = tc_permission_mode c \<and> NetworkMode_value (xd_network_mode x) = config_network_mode c
    \<and> limits_bounded (xd_limits x) \<and> set (xd_workspaces x) \<subseteq> {ph_resolve h (tc_workspace_root c), ph_resolve h (tc_project_cwd c)}
    \<and> (\<forall>job terminal p. command_policy h x job terminal = Inr p \<longrightarrow>
        FileAccessMode_value (pol_file_mode p) = tc_permission_mode c \<and> NetworkMode_value (pol_network_mode p) = config_network_mode c
        \<and> pol_limits p = xd_limits x \<and> pol_session_id p = ri_session_id (tc_run c)))"
proof -
  have "run_command_data h c = Inr r"
    using assms by (auto simp: sandbox_operation_def dest: ask_approval_refused split: if_splits prod.splits option.splits)
  from run_command_continues [OF this assms(2,4)] obtain x where x: "tc_launcher c" "command_decision h c = Inr x"
      "ho_data r = [(''sandbox_decision'', HvDecision x)]" by blast
  show ?thesis using x command_decision_Inr [OF x(2)] command_policy_modes by (intro conjI exI [of _ x]) auto
qed

definition sample_context :: ToolHookContext where
  "sample_context = \<lparr>tc_run = \<lparr>ri_session_id = ''s'', ri_run_id = ''r'', ri_task = ''t'', ri_mode = ''agent''\<rparr>, tc_call_id = ''c1'', tc_name = ''run_command'',
     tc_arguments = [(''command'', PStr ''dir'')], tc_workspace_root = ''/w/link'', tc_project_cwd = [], tc_permission_mode = ''read_only'',
     tc_requires_confirmation = True, tc_read_only = False, tc_workspace_confined = False, tc_launcher = True, tc_sandbox_config = [],
     tc_sandbox_user_id = None, tc_interrupt = Some (\<lambda>q. \<lparr>id_choice = ''continue'', id_supplement = None\<rparr>), tc_record_event = False,
     tc_publish = False, tc_outcome = False\<rparr>"

lemma sample_sandbox_operation: "\<exists>acts r. sandbox_operation sample_policy_host sample_context = (acts, Inr r) \<and> ho_decision r = ContinueCall"
proof -
  have l: "limits_from_mapping None = Inr default_limits"
    using default_limits_valid by (simp add: limits_from_mapping_def Let_def value_or_def default_limits_def)
  have "\<exists>x. command_decision sample_policy_host sample_context = Inr x"
    by (simp add: command_decision_def sample_context_def py_get_def l enum_of_def config_network_mode_def get_str_def config_port_def rule_entries_def Let_def)
  then show ?thesis
    by (auto simp: sandbox_operation_def requires_approval_def ask_approval_def run_command_data_def go_on_def sample_context_def WEB_NETWORK_TOOLS_def Let_def)
qed

theorem tool_call_needs_approval_witness:
  "\<exists>acts r. sandbox_operation sample_policy_host sample_context = (acts, Inr r) \<and> Asked (approval_interrupt sample_context) \<in> set acts"
proof -
  obtain acts r where s: "sandbox_operation sample_policy_host sample_context = (acts, Inr r)" "ho_decision r = ContinueCall"
    using sample_sandbox_operation by blast
  have "\<not> tc_outcome sample_context" "requires_approval sample_context"
    by (simp_all add: sample_context_def requires_approval_def WEB_NETWORK_TOOLS_def)
  then show ?thesis using tool_call_needs_approval [OF s] s(1) by auto
qed

theorem command_runs_in_its_sandbox_witness:
  "\<exists>acts r x. sandbox_operation sample_policy_host sample_context = (acts, Inr r) \<and> map_of (ho_data r) ''sandbox_decision'' = Some (HvDecision x)
    \<and> FileAccessMode_value (xd_file_mode x) = ''read_only''"
proof -
  obtain acts r where s: "sandbox_operation sample_policy_host sample_context = (acts, Inr r)" "ho_decision r = ContinueCall"
    using sample_sandbox_operation by blast
  have "\<not> tc_outcome sample_context" "tc_name sample_context = ''run_command''" "tc_permission_mode sample_context = ''read_only''"
    by (simp_all add: sample_context_def)
  then show ?thesis using command_runs_in_its_sandbox [OF s] s(1) by fastforce
qed

section \<open>The operation in front of its manager\<close>

text \<open>The operation as a hook; the world is the list of actions.\<close>

definition error_class :: "sandbox_error \<Rightarrow> string" where
  "error_class e = (case e of PolicyFailed _ \<Rightarrow> ''SandboxPolicyError'' | SbValueError _ \<Rightarrow> ''ValueError'' | SbOverflow \<Rightarrow> ''OverflowError'' | _ \<Rightarrow> ''SandboxError'')"

definition sandbox_hook :: "policy_host \<Rightarrow> (sandbox_error \<Rightarrow> string) \<Rightarrow> (ToolHookContext, hook_action list, hook_value) hook_operation" where
  "sandbox_hook h msg = \<lparr>hk_name = ''sandbox_operation'', hk_body = (\<lambda>c w. case sandbox_operation h c of (acts, res) \<Rightarrow>
     (w @ acts, case res of Inl e \<Rightarrow> Inl (HookException (error_class e) (msg e)) | Inr r \<Rightarrow> Inr (Some r)))\<rparr>"

text \<open>With the sandbox operation registered first, a call that is not approved ends there: whatever is registered
  behind it is not run, and the manager's answer is not to continue.\<close>

theorem refused_call_stops_hooks:
  assumes "hm_operations m = sandbox_hook h msg # others" "requires_approval c" "\<not> tc_outcome c"
    and "\<And>f. tc_interrupt c = Some f \<Longrightarrow> id_choice (f (approval_interrupt c)) \<noteq> ''continue''"
  shows "\<exists>acts evs r. execute_hooks m c w = (w @ acts, evs, Inr r) \<and> ho_decision r = RejectCall \<and> length evs = 2"
proof -
  obtain acts r where a: "ask_approval c = (acts, r)" by (cases "ask_approval c")
  have "r \<noteq> None"
  proof
    assume "r = None"
    with a ask_approval_granted obtain f where "tc_interrupt c = Some f" "id_choice (f (approval_interrupt c)) = ''continue''" by blast
    with assms(4) show False by blast
  qed
  then obtain x where x: "r = Some x" by blast
  with a have rej: "ho_decision x = RejectCall" by (simp add: ask_approval_refused)
  have "\<exists>t. ho_reason x = Some t \<and> strip t \<noteq> []"
    using a x by (auto simp: ask_approval_def Let_def turn_down_def strip_def lstrip_def is_space_def split: option.splits if_splits)
  then obtain t where t: "ho_reason x = Some t" "strip t \<noteq> []" "t \<noteq> []" by (metis strip_Nil)
  have "call_hook (sandbox_hook h msg) c w = (w @ acts, Inr x)"
    using a x assms(2,3) by (simp add: call_hook_def sandbox_hook_def sandbox_operation_def)
  then show ?thesis
    using assms(1) rej t by (simp add: execute_hooks_def Let_def reject_call_def hook_result_def)
qed

theorem refused_call_stops_hooks_witness:
  "\<exists>acts evs r. execute_hooks \<lparr>hm_phase = Before, hm_lifecycle = ToolLifecycle, hm_operations = [sandbox_hook sample_policy_host (\<lambda>_. []), sandbox_hook sample_policy_host (\<lambda>_. [])]\<rparr>
      (sample_context\<lparr>tc_interrupt := None\<rparr>) [] = ([] @ acts, evs, Inr r) \<and> ho_decision r = RejectCall \<and> length evs = 2"
  by (rule refused_call_stops_hooks [where others = "[sandbox_hook sample_policy_host (\<lambda>_. [])]"])
    (simp_all add: sample_context_def requires_approval_def WEB_NETWORK_TOOLS_def)

end
