(* ===== verification/AgentState.thy ===== *)
theory AgentState
  imports ChatMessages RuntimeConfig SandboxApproval TodoStore FilePaths
begin

text \<open>
  The state of an agent turn and its transitions: \<open>runtime/core/context/runtime.py\<close> (\<open>AgentRuntime\<close>),
  \<open>runtime/execution/lifecycle/outcomes.py\<close> and \<open>runtime/execution/lifecycle/cancellation.py\<close>.

  Assistant messages are shared objects: the same message is the planner's response, the active message, an entry of the
  history, and its tool calls are entries of \<open>run.actions\<close>. They live in \<open>ag_heap\<close> and are named by their index, so that a change made
  through one name is seen through the others, as in the code. \<open>run.history\<close> is always the list \<open>state.messages\<close> itself.

  What is outside the loop is the record \<open>services\<close> of callbacks over a world: the planner, the tools, the
  user's signals, the stores. A raised exception is its class and its message as \<open>safe_error_message\<close> shows it. Time stamps
  and durations are left out of the events.
\<close>

section \<open>State and services\<close>

text \<open>An entry of the history: a system or user message, or an assistant message by its name.\<close>

datatype entry = Said ChatMessage | Obj nat

text \<open>The fields \<open>rn_\<close> are those of the current run.\<close>

record 'w agent =
  ag_world :: 'w
  ag_heap :: "AssistantMessage list"
  ag_messages :: "entry list"
  ag_active :: "nat option"
  ag_tool_index :: "nat option"
  ag_config :: model_config
  ag_session_id :: string
  ag_workspace_root :: "string option"
  ag_project_cwd :: "string option"
  ag_max_tool_calls :: nat
  ag_suffix :: "ChatMessage list"
  ag_pause :: bool
  ag_todo :: "memory_todo option"
  ag_events :: "RuntimeEvent list"
  rn_task :: string
  rn_mode :: string
  rn_run_id :: string
  rn_thread_id :: string
  rn_turn_id :: string
  rn_turn_start :: int
  rn_actions :: "(nat \<times> nat) list"
  rn_completed_steps :: "nat list"
  rn_final_answer :: "string option"
  rn_model_turns :: nat
  rn_status :: string
  rn_stop_reason :: "string option"

text \<open>What a planner does while it decides: it streams reasoning and content, it publishes events, it may replace completed
  history by a summary (its text, the number of entries it replaces, the new start of the turn), and it
  answers with a message or raises.\<close>

datatype emission = Reasoning string | Content string | Emit RuntimeEvent

datatype planner_error = PlanningFailed string pydict | PlannerRaised string string

record 'w answer =
  aw_world :: 'w
  aw_history :: "(string \<times> nat \<times> int) option"
  aw_output :: "emission list"
  aw_result :: "planner_error + AssistantMessage"

text \<open>What an invoked tool leaves: the world, the todo store, whether it asked for a pause of the turn, and the result or
  the message of the exception.\<close>

record 'w invocation =
  iv_world :: 'w
  iv_todo :: "memory_todo option"
  iv_pause :: bool
  iv_result :: "string + string"

text \<open>\<open>ToolInvocationContext\<close>.\<close>

record tool_context =
  ic_session_id :: string
  ic_turn_id :: string
  ic_call_id :: string
  ic_sandbox_decision :: "SandboxExecutionDecision option"

datatype 'w steering_input = Input pydict "('w \<Rightarrow> 'w) option" | Words pyval

record subagent_report =
  ra_content :: string
  ra_delivery_id :: string
  ra_status :: pyval
  ra_known :: bool

record 'w turn_store =
  tu_has_delivery :: "(string \<Rightarrow> string \<Rightarrow> 'w \<Rightarrow> bool) option"
  tu_append_input :: "string \<Rightarrow> string \<Rightarrow> string \<Rightarrow> string option \<Rightarrow> 'w \<Rightarrow> 'w"
  tu_register_report :: "(string \<Rightarrow> string \<Rightarrow> string \<Rightarrow> 'w \<Rightarrow> 'w) option"

record 'w services =
  sv_planner_name :: string
  sv_decide :: "('w agent \<Rightarrow> 'w answer) option"
  sv_finalize :: "('w agent \<Rightarrow> string \<Rightarrow> 'w \<times> RuntimeEvent list \<times> (string + AssistantMessage)) option"
  sv_repairs :: "('w \<Rightarrow> 'w \<times> pyval list) option"
  sv_cancel :: "('w \<Rightarrow> 'w \<times> bool) option"
  sv_suspend :: "('w \<Rightarrow> 'w \<times> bool) option"
  sv_complete :: "('w \<Rightarrow> 'w \<times> bool) option"
  sv_steering :: "('w \<Rightarrow> 'w \<times> 'w steering_input list) option"
  sv_reports :: "('w \<Rightarrow> 'w \<times> subagent_report list) option"
  sv_pending :: "'w \<Rightarrow> 'w \<times> pydict option"
  sv_resolver :: "(string \<Rightarrow> resolved_provider) option"
  sv_read_only :: "string \<Rightarrow> string + bool"
  sv_requires_confirmation :: "string \<Rightarrow> string + bool"
  sv_workspace_confined :: "string \<Rightarrow> string + bool"
  sv_retryable :: "string \<Rightarrow> string + bool"
  sv_validate :: "(string \<Rightarrow> pydict \<Rightarrow> string + unit) option"
  sv_subagents :: "((string \<Rightarrow> bool) \<times> (string \<Rightarrow> pydict \<Rightarrow> 'w agent \<Rightarrow> 'w invocation)) option"
  sv_invoke :: "string \<Rightarrow> pydict \<Rightarrow> tool_context \<Rightarrow> 'w \<Rightarrow> memory_todo option \<Rightarrow> 'w invocation"
  sv_before :: "(ToolHookContext, 'w, hook_value) hook_manager"
  sv_after :: "(ToolHookContext, 'w, hook_value) hook_manager"
  sv_interrupt :: "(InterruptRequest \<Rightarrow> InterruptDecision) option"
  sv_launcher :: bool
  sv_sandbox_config :: pydict
  sv_sandbox_user_id :: "string option"
  sv_store :: "'w turn_store option"
  sv_save :: "'w agent \<Rightarrow> 'w"
  sv_redact :: "string \<Rightarrow> string"
  sv_posix :: "string \<Rightarrow> string"
  sv_is_absolute :: "string \<Rightarrow> bool"

datatype agent_exn = WorkflowModeChanged string | HookRaised hook_error | Raised string string

section \<open>Basic actions\<close>

definition publish_event :: "string \<Rightarrow> string \<Rightarrow> pydict \<Rightarrow> 'w agent \<Rightarrow> 'w agent" where
  "publish_event kind message data a = a\<lparr>ag_events := ag_events a @ [\<lparr>ev_kind = kind, ev_message = message, ev_data = data\<rparr>]\<rparr>"

definition save :: "'w services \<Rightarrow> 'w agent \<Rightarrow> 'w agent" where
  "save sv a = a\<lparr>ag_world := sv_save sv a\<rparr>"

text \<open>A new object; its identity is its place.\<close>

definition alloc :: "AssistantMessage \<Rightarrow> 'w agent \<Rightarrow> 'w agent" where
  "alloc m a = a\<lparr>ag_heap := ag_heap a @ [m\<lparr>am_ref := length (ag_heap a)\<rparr>]\<rparr>"

definition obj :: "'w agent \<Rightarrow> nat \<Rightarrow> AssistantMessage" where
  "obj a r = ag_heap a ! r"

definition change_obj :: "nat \<Rightarrow> (AssistantMessage \<Rightarrow> AssistantMessage) \<Rightarrow> 'w agent \<Rightarrow> 'w agent" where
  "change_obj r f a = a\<lparr>ag_heap := (ag_heap a)[r := f (ag_heap a ! r)]\<rparr>"

definition append_entry :: "entry \<Rightarrow> 'w agent \<Rightarrow> 'w agent" where
  "append_entry e a = a\<lparr>ag_messages := ag_messages a @ [e]\<rparr>"

definition append_new :: "AssistantMessage \<Rightarrow> 'w agent \<Rightarrow> 'w agent" where
  "append_new m a = append_entry (Obj (length (ag_heap a))) (alloc m a)"

definition clear_active :: "'w agent \<Rightarrow> 'w agent" where
  "clear_active a = a\<lparr>ag_active := None, ag_tool_index := None\<rparr>"

text \<open>The entries of the current turn: \<open>messages[min(max(turn_start_index, 0), len(messages)):]\<close>.\<close>

definition turn_entries :: "'w agent \<Rightarrow> entry list" where
  "turn_entries a = drop (nat (rn_turn_start a)) (ag_messages a)"

definition occurs_in :: "string \<Rightarrow> string \<Rightarrow> bool" where
  "occurs_in s t \<longleftrightarrow> (\<exists>i \<in> set [0..<Suc (length t)]. take (length s) (drop i t) = s)"

definition PARAGRAPH :: string where
  "PARAGRAPH = [CHR 0x0A, CHR 0x0A]"

text \<open>\<open>AgentRuntime.apply_pending_runtime_config\<close> on the agent; the run follows the new running mode.\<close>

definition apply_pending :: "'w services \<Rightarrow> 'w agent \<Rightarrow> 'w agent" where
  "apply_pending sv a = (case sv_pending sv (ag_world a) of (w, pending) \<Rightarrow>
     let a1 = a\<lparr>ag_world := w\<rparr> in
     case pending of None \<Rightarrow> a1 | Some p \<Rightarrow>
       if p = [] then a1
       else a1\<lparr>ag_config := apply_runtime_config (sv_resolver sv) p (ag_config a1),
               rn_mode := (case py_get p ''running_mode'' of PNone \<Rightarrow> rn_mode a1 | v \<Rightarrow> py_str v)\<rparr>)"

definition ask_flag :: "('w \<Rightarrow> 'w \<times> bool) option \<Rightarrow> 'w agent \<Rightarrow> 'w agent \<times> bool" where
  "ask_flag h a = (case h of None \<Rightarrow> (a, False) | Some f \<Rightarrow> (case f (ag_world a) of (w, b) \<Rightarrow> (a\<lparr>ag_world := w\<rparr>, b)))"

definition stop_requested :: "'w services \<Rightarrow> 'w agent \<Rightarrow> 'w agent \<times> bool" where
  "stop_requested sv a = (case ask_flag (sv_cancel sv) a of (a1, c) \<Rightarrow>
     if c then (a1, True) else (case ask_flag (sv_suspend sv) a1 of (a2, s) \<Rightarrow>
     if s then (a2, True) else ask_flag (sv_complete sv) a2))"

section \<open>Outcomes\<close>

definition complete_run :: "nat \<Rightarrow> string option \<Rightarrow> string option \<Rightarrow> bool \<Rightarrow> 'w agent \<Rightarrow> 'w agent" where
  "complete_run r final_answer event_kind streamed a =
     (let a1 = (if Obj r \<in> set (ag_messages a) then a else append_entry (Obj r) a);
          final = (case final_answer of None \<Rightarrow> (case am_content (obj a r) of None \<Rightarrow> [] | Some c \<Rightarrow> c) | Some f \<Rightarrow> f);
          kind = (case event_kind of None \<Rightarrow> if rn_mode a = ''plan'' then ''plan'' else ''response'' | Some k \<Rightarrow> k) in
      publish_event kind final [(''streamed'', PBool streamed)] (a1\<lparr>rn_status := ''completed'', rn_final_answer := Some final\<rparr>))"

definition recorded_as :: "string \<Rightarrow> 'w agent \<Rightarrow> entry \<Rightarrow> bool" where
  "recorded_as visible a e = (case e of Obj r \<Rightarrow> am_tools (obj a r) = [] \<and> am_content (obj a r) = Some visible | Said _ \<Rightarrow> False)"

text \<open>\<open>fail_run\<close>; \<open>visible\<close> is the redacted message or the safe message of an exception.\<close>

definition fail_run :: "string \<Rightarrow> pydict \<Rightarrow> 'w agent \<Rightarrow> 'w agent" where
  "fail_run visible data a =
     (let a1 = (if list_ex (recorded_as visible a) (turn_entries a) then a else append_new (assistant_text 0 visible) a) in
      publish_event ''error'' visible data (a1\<lparr>rn_status := ''failed'', rn_stop_reason := Some ''execution_failed'', rn_final_answer := Some visible\<rparr>))"

fun last_assistant :: "entry list \<Rightarrow> nat option" where
  "last_assistant [] = None"
| "last_assistant (e # es) = (case last_assistant es of Some r \<Rightarrow> Some r | None \<Rightarrow> (case e of Obj r \<Rightarrow> Some r | Said _ \<Rightarrow> None))"

text \<open>The text of \<open>f"{assistant.content}\<dots>"\<close>: a missing content is shown as \<open>None\<close>.\<close>

definition with_reason :: "string \<Rightarrow> AssistantMessage \<Rightarrow> AssistantMessage" where
  "with_reason reason m = (if occurs_in reason (case am_content m of None \<Rightarrow> [] | Some c \<Rightarrow> c) then m
     else m\<lparr>am_content := Some (strip ((case am_content m of None \<Rightarrow> ''None'' | Some c \<Rightarrow> c) @ PARAGRAPH @ reason))\<rparr>)"

definition cancel_reason :: "string \<Rightarrow> string \<Rightarrow> string" where
  "cancel_reason stop_reason message =
     (let detail = (if message \<notin> {''Run cancelled by user'', ''Run paused by user''} then message else []) in
      if detail \<noteq> [] then detail else if stop_reason = ''user_paused'' then ''The run was paused at the user's request.'' else message)"

definition cancel_run :: "string \<Rightarrow> string \<Rightarrow> 'w agent \<Rightarrow> 'w agent" where
  "cancel_run stop_reason message a =
     (let reason = cancel_reason stop_reason message;
          a1 = (case last_assistant (turn_entries a) of
              None \<Rightarrow> append_new (assistant_text 0 reason) a
            | Some r \<Rightarrow> change_obj r (with_reason reason) a) in
      publish_event ''cancelled'' reason [(''stop_reason'', PStr stop_reason)]
        (a1\<lparr>rn_status := ''cancelled'', rn_stop_reason := Some stop_reason, rn_final_answer := Some reason\<rparr>))"

definition pause_run :: "'w agent \<Rightarrow> 'w agent" where
  "pause_run a = cancel_run ''user_paused'' ''Run paused by user'' a"

definition record_plan_feedback :: "'w services \<Rightarrow> string option \<Rightarrow> 'w agent \<Rightarrow> 'w agent" where
  "record_plan_feedback sv supplement a =
     (let feedback = strip (case supplement of None \<Rightarrow> [] | Some s \<Rightarrow> s) in
      if feedback = [] then fail_run (sv_redact sv ''Supplement must contain plan feedback.'') [] a
      else save sv (publish_event ''feedback_received'' feedback []
        (append_entry (Said (user_text (''[Plan feedback]'' @ [CHR 0x0A] @ feedback))) a)))"

section \<open>Cancellation\<close>

definition settle_tool :: "string \<Rightarrow> ToolMessage \<Rightarrow> ToolMessage" where
  "settle_tool why t = (if tm_status t = Pending then t\<lparr>tm_status := Failed, tm_content := Some why, tm_retryable := Some False\<rparr> else t)"

definition settle_all :: "(ToolMessage \<Rightarrow> ToolMessage) \<Rightarrow> AssistantMessage \<Rightarrow> AssistantMessage" where
  "settle_all f m = m\<lparr>am_tools := map f (am_tools m)\<rparr>"

definition pending_tools :: "AssistantMessage \<Rightarrow> ToolMessage list" where
  "pending_tools m = filter (\<lambda>t. tm_status t = Pending) (am_tools m)"

text \<open>The turn is marked successful: the active message, or an empty one, is its answer.\<close>

definition complete_requested_run :: "'w agent \<Rightarrow> 'w agent" where
  "complete_requested_run a =
     (let r = (case ag_active a of Some r \<Rightarrow> r | None \<Rightarrow> length (ag_heap a));
          a1 = (case ag_active a of Some r \<Rightarrow> a | None \<Rightarrow> alloc (assistant_text 0 []) a);
          a2 = clear_active (change_obj r (settle_all (settle_tool ''Not executed because the Agent Turn was marked successful.'')) a1) in
      complete_run r (Some (case am_content (obj a2 r) of None \<Rightarrow> [] | Some c \<Rightarrow> c)) None False a2)"

definition tool_failed_event :: "string \<Rightarrow> ToolMessage \<Rightarrow> 'w agent \<Rightarrow> 'w agent" where
  "tool_failed_event why t = publish_event ''tool_failed'' why [(''tool'', PStr (tm_name t)), (''call_id'', PStr (tm_call_id t))]"

definition settle_active :: "'w agent \<Rightarrow> 'w agent" where
  "settle_active a = (case ag_active a of None \<Rightarrow> a | Some r \<Rightarrow>
     (let why = ''Not executed because the run was cancelled.'';
          a1 = fold (tool_failed_event why) (pending_tools (obj a r)) (change_obj r (settle_all (settle_tool why)) a) in
      clear_active (if Obj r \<in> set (ag_messages a1) then a1 else append_entry (Obj r) a1)))"

definition cancel_signal :: "'w services \<Rightarrow> 'w agent \<Rightarrow> 'w agent \<times> bool" where
  "cancel_signal sv a = (case ask_flag (sv_cancel sv) a of (a1, c) \<Rightarrow>
     if \<not> c then (a1, False)
     else if rn_status a1 = ''cancelled'' then (a1, True)
     else if rn_status a1 \<noteq> ''running'' then (a1, False)
     else (cancel_run ''user_cancelled'' ''Run cancelled by user'' (settle_active a1), True))"

definition suspend_signal :: "'w services \<Rightarrow> 'w agent \<Rightarrow> 'w agent \<times> bool" where
  "suspend_signal sv a = (case ask_flag (sv_suspend sv) a of (a1, s) \<Rightarrow>
     if s \<and> rn_status a1 = ''cancelled'' \<and> rn_stop_reason a1 = Some ''user_paused'' then (a1, True)
     else if s \<and> rn_status a1 = ''running'' then (pause_run a1, True)
     else cancel_signal sv a1)"

definition complete_signal :: "'w services \<Rightarrow> 'w agent \<Rightarrow> 'w agent \<times> bool" where
  "complete_signal sv a = (case ask_flag (sv_complete sv) a of (a1, c) \<Rightarrow>
     if c \<and> rn_status a1 = ''completed'' then (a1, True)
     else if c \<and> rn_status a1 = ''running'' then (complete_requested_run a1, True)
     else suspend_signal sv a1)"

definition cancel_if_requested :: "'w services \<Rightarrow> 'w agent \<Rightarrow> 'w agent \<times> bool" where
  "cancel_if_requested sv a =
     (if ag_pause a then
        (let a1 = a\<lparr>ag_pause := False\<rparr> in if rn_status a1 \<noteq> ''running'' then (a1, True) else (pause_run a1, True))
      else complete_signal sv a)"

end
