(* ===== verification/AgentInputs.thy ===== *)
theory AgentInputs
  imports AgentState
begin

text \<open>
  What reaches a running turn from outside, and what it streams: \<open>runtime/conversation/steering.py\<close>,
  \<open>consume_runtime_reports\<close> of \<open>runtime/subagent/reports.py\<close>, \<open>runtime/execution/todo_finalization.py\<close> and the
  text stream and event helpers of \<open>runtime/execution/workflows/common.py\<close>.
\<close>

section \<open>Steering\<close>

record 'w SteeringUpdate =
  su_content :: string
  su_message_count :: nat
  su_delivery_id :: string
  su_references :: "(string, string) dict list"
  su_ack :: "('w \<Rightarrow> 'w) option"
  su_source_thread_id :: string
  su_need_reply :: bool

definition reference_line :: "'w services \<Rightarrow> (string, string) dict \<Rightarrow> string" where
  "reference_line sv ref = ''- @'' @ sv_posix sv (case map_of ref ''path'' of Some p \<Rightarrow> p | None \<Rightarrow> []) @
     (case map_of ref ''source'' of Some s \<Rightarrow> if s \<noteq> [] then '' ('' @ s @ '')'' else [] | None \<Rightarrow> [])"

definition content_with_references :: "'w services \<Rightarrow> string \<Rightarrow> (string, string) dict list \<Rightarrow> string" where
  "content_with_references sv content refs =
     (if refs = [] then content else content @ PARAGRAPH @ ''File references:'' @ [CHR 0x0A] @ join [CHR 0x0A] (map (reference_line sv) refs))"

text \<open>What the loop of \<open>collect_steering\<close> carries along.\<close>

record 'w steering =
  sg_messages :: "string list"
  sg_delivery_id :: string
  sg_ack :: "('w \<Rightarrow> 'w) option"
  sg_references :: "(string, string) dict list"
  sg_seen :: "(string \<times> string) list"
  sg_source :: string
  sg_need_reply :: bool

definition no_steering :: "'w steering" where
  "no_steering = \<lparr>sg_messages = [], sg_delivery_id = [], sg_ack = None, sg_references = [], sg_seen = [], sg_source = [], sg_need_reply = False\<rparr>"

definition take_reference :: "'w services \<Rightarrow> pyval \<Rightarrow> 'w steering \<Rightarrow> 'w steering" where
  "take_reference sv v g = (case v of
      PDict d \<Rightarrow>
        (let source = text_or d ''source'' []; path = text_or d ''path'' []; display = text_or d ''display_path'' [] in
         if (source \<in> FILE_SOURCES \<and> display \<noteq> [] \<or> source = []) \<and> is_reference_path (sv_is_absolute sv) (PStr path) \<and> path \<noteq> []
            \<and> (source, path) \<notin> set (sg_seen g)
         then g\<lparr>sg_seen := sg_seen g @ [(source, path)],
                sg_references := sg_references g @ [if source \<noteq> [] then [(''source'', source), (''path'', path), (''display_path'', display)] else [(''path'', path)]]\<rparr>
         else g)
    | _ \<Rightarrow> g)"

definition take_message :: "string \<Rightarrow> 'w steering \<Rightarrow> 'w steering" where
  "take_message content g = (if content \<noteq> [] \<or> sg_references g \<noteq> [] then g\<lparr>sg_messages := sg_messages g @ [content]\<rparr> else g)"

definition take_input :: "'w services \<Rightarrow> 'w steering_input \<Rightarrow> 'w steering \<Rightarrow> agent_exn + 'w steering" where
  "take_input sv raw g = (case raw of
      Words v \<Rightarrow> Inr (take_message (strip (py_str v)) g)
    | Input d ack \<Rightarrow>
        (let g1 = g\<lparr>sg_delivery_id := (if sg_delivery_id g \<noteq> [] then sg_delivery_id g else text_or d ''delivery_id'' []),
                    sg_ack := (case sg_ack g of Some f \<Rightarrow> Some f | None \<Rightarrow> ack),
                    sg_source := (if sg_source g \<noteq> [] then sg_source g else text_or d ''source_thread_id'' []),
                    sg_need_reply := (sg_need_reply g \<or> truthy (py_get d ''need_reply''))\<rparr> in
         case (case map_of d ''references'' of None \<Rightarrow> Some [] | Some v \<Rightarrow> py_iter v) of
           None \<Rightarrow> Inl (Raised ''TypeError'' ''object is not iterable'')
         | Some refs \<Rightarrow> Inr (take_message (strip (text_or d ''content'' [])) (fold (take_reference sv) refs g1))))"

fun take_inputs :: "'w services \<Rightarrow> 'w steering_input list \<Rightarrow> 'w steering \<Rightarrow> agent_exn + 'w steering" where
  "take_inputs sv [] g = Inr g"
| "take_inputs sv (raw # rest) g = bind_result (take_input sv raw g) (take_inputs sv rest)"

definition collect_steering :: "'w services \<Rightarrow> ('w agent, agent_exn, 'w SteeringUpdate option) raising" where
  "collect_steering sv a = (case sv_steering sv of
      None \<Rightarrow> (a, Inr None)
    | Some handler \<Rightarrow> (case handler (ag_world a) of (w, raws) \<Rightarrow>
        (a\<lparr>ag_world := w\<rparr>, bind_result (take_inputs sv raws no_steering) (\<lambda>g.
           if sg_messages g = [] then Inr None
           else Inr (Some \<lparr>su_content = join PARAGRAPH (sg_messages g), su_message_count = length (sg_messages g), su_delivery_id = sg_delivery_id g,
              su_references = sg_references g, su_ack = sg_ack g, su_source_thread_id = sg_source g, su_need_reply = sg_need_reply g\<rparr>)))))"

definition steering_data :: "string \<Rightarrow> 'w SteeringUpdate \<Rightarrow> pydict" where
  "steering_data phase u = [(''message_count'', PInt (int (su_message_count u))), (''phase'', PStr phase), (''delivery_id'', PStr (su_delivery_id u)),
     (''references'', PList (map (\<lambda>ref. PDict (map (\<lambda>(k, v). (k, PStr v)) ref)) (su_references u)))]"

definition already_applied :: "'w services \<Rightarrow> 'w SteeringUpdate \<Rightarrow> 'w agent \<Rightarrow> bool" where
  "already_applied sv u a = (su_delivery_id u \<noteq> [] \<and> (case sv_store sv of None \<Rightarrow> False | Some st \<Rightarrow>
     (case tu_has_delivery st of None \<Rightarrow> False | Some has \<Rightarrow> has (ag_session_id a) (su_delivery_id u) (ag_world a))))"

definition append_steering :: "'w services \<Rightarrow> 'w SteeringUpdate \<Rightarrow> 'w agent \<Rightarrow> 'w agent" where
  "append_steering sv u a =
     (let a1 = (if already_applied sv u a then a else append_entry (Said (user_text (content_with_references sv (su_content u) (su_references u)))) a) in
      case sv_store sv of None \<Rightarrow> a1
      | Some st \<Rightarrow> a1\<lparr>ag_world := tu_append_input st (ag_session_id a) (rn_run_id a) (su_content u)
          (if su_delivery_id u \<noteq> [] then Some (su_delivery_id u) else None) (ag_world a1)\<rparr>)"

definition register_reply :: "'w services \<Rightarrow> 'w SteeringUpdate \<Rightarrow> ('w agent, agent_exn, unit) raising" where
  "register_reply sv u a =
     (if \<not> su_need_reply u then (a, Inr ())
      else case sv_store sv of
        None \<Rightarrow> (a, Inl (Raised ''RuntimeError'' ''A reply-requesting Agent message has no canonical report registration path.''))
      | Some st \<Rightarrow> (case tu_register_report st of
          Some register \<Rightarrow>
            if su_source_thread_id u = [] then (a, Inl (Raised ''RuntimeError'' ''A reply-requesting Agent message has no canonical report registration path.''))
            else (a\<lparr>ag_world := register (rn_turn_id a) (rn_thread_id a) (su_source_thread_id u) (ag_world a)\<rparr>, Inr ())
        | None \<Rightarrow> (a, Inl (Raised ''RuntimeError'' ''A reply-requesting Agent message has no canonical report registration path.''))))"

definition acknowledge :: "'w SteeringUpdate \<Rightarrow> 'w agent \<Rightarrow> 'w agent" where
  "acknowledge u a = (case su_ack u of None \<Rightarrow> a | Some f \<Rightarrow> a\<lparr>ag_world := f (ag_world a)\<rparr>)"

definition apply_steering :: "'w services \<Rightarrow> string \<Rightarrow> 'w SteeringUpdate \<Rightarrow> ('w agent, agent_exn, unit) raising" where
  "apply_steering sv phase u a =
     (let data = steering_data phase u;
          a1 = append_steering sv u (publish_event ''steering_received'' ''In-run user input received'' data a);
          a2 = publish_event ''steering_applied'' ''In-run user input applied'' (data @ [(''content'', PStr (su_content u))]) a1 in
      bind_action (register_reply sv u) (\<lambda>_ a3. (acknowledge u (save sv a3), Inr ())) a2)"

definition consume_steering :: "'w services \<Rightarrow> string \<Rightarrow> ('w agent, agent_exn, bool) raising" where
  "consume_steering sv phase = bind_action (collect_steering sv) (\<lambda>update. case update of
      None \<Rightarrow> lift_action (Inr False)
    | Some u \<Rightarrow> bind_action (apply_steering sv phase u) (\<lambda>_. lift_action (Inr True)))"

section \<open>Reports of subagents\<close>

text \<open>The claimed reports come as a list; the claims, the durable copy and the acknowledgement happen in the world.\<close>

definition take_report :: "subagent_report \<Rightarrow> 'w agent \<Rightarrow> 'w agent" where
  "take_report p a = (if ra_known p then a else
     append_new ((assistant_text 0 (ra_content p))\<lparr>am_name := ''subagent_report''\<rparr>)
       (publish_event ''subagent_report'' (ra_content p)
         [(''reply_content'', PStr (ra_content p)), (''delivery_id'', PStr (ra_delivery_id p)), (''report_status'', ra_status p)] a))"

definition consume_reports :: "'w services \<Rightarrow> 'w agent \<Rightarrow> 'w agent \<times> bool" where
  "consume_reports sv a = (case sv_reports sv of
      None \<Rightarrow> (a, False)
    | Some claim \<Rightarrow>
        if rn_status a \<noteq> ''running'' \<or> (rn_thread_id a = [] \<and> ag_session_id a = []) \<or> rn_turn_id a = [] then (a, False)
        else (case claim (ag_world a) of (w, reports) \<Rightarrow>
          let a1 = fold take_report reports (a\<lparr>ag_world := w\<rparr>) in
          if reports = [] then (a1, False) else (save sv a1, True)))"

section \<open>Finalisation of the todo list\<close>

definition TODO_FINALIZATION_INSTRUCTION :: string where
  "TODO_FINALIZATION_INSTRUCTION = ''The current Turn still has unfinished Todo items. This is the single finalization pass: update the Todo list '' @
     ''to reflect work actually completed, then give the final answer. Do not mark unfinished work as completed.''"

text \<open>The store of the turn, when there is one and the turn has an id.\<close>

definition turn_todo :: "'w agent \<Rightarrow> memory_todo option" where
  "turn_todo a = (if rn_turn_id a = [] then None else ag_todo a)"

definition unfinished_todos :: "'w agent \<Rightarrow> memory_todo \<Rightarrow> TodoItem list" where
  "unfinished_todos a st = unfinished (memory_snapshot (ag_session_id a) (rn_turn_id a) st)"

definition finalization_pending :: "'w agent \<Rightarrow> memory_todo \<Rightarrow> bool" where
  "finalization_pending a st \<longleftrightarrow> \<not> memory_finalization_claimed (ag_session_id a) (rn_turn_id a) st"

definition should_defer_todo_content :: "'w agent \<Rightarrow> bool" where
  "should_defer_todo_content a = (case turn_todo a of None \<Rightarrow> False | Some st \<Rightarrow> unfinished_todos a st \<noteq> [] \<and> finalization_pending a st)"

definition refresh_todo_finalization :: "'w agent \<Rightarrow> 'w agent" where
  "refresh_todo_finalization a = (case turn_todo a of None \<Rightarrow> a\<lparr>ag_suffix := []\<rparr>
    | Some st \<Rightarrow> a\<lparr>ag_suffix := (if unfinished_todos a st \<noteq> [] \<and> \<not> finalization_pending a st then [user_text TODO_FINALIZATION_INSTRUCTION] else [])\<rparr>)"

definition unfinished_disclosure :: "TodoItem list \<Rightarrow> string" where
  "unfinished_disclosure todos = join [CHR 0x0A] ([[], [], ''Unfinished Todo items:''] @
     map (\<lambda>t. ''- '' @ todo_id t @ '' ['' @ todo_status t @ ''] '' @ todo_content t) todos)"

definition disclose :: "nat \<Rightarrow> bool \<Rightarrow> string \<Rightarrow> 'w agent \<Rightarrow> 'w agent" where
  "disclose r streamed text1 a =
     (let a1 = change_obj r (\<lambda>m. m\<lparr>am_content := Some ((case am_content m of None \<Rightarrow> [] | Some c \<Rightarrow> c) @ text1)\<rparr>) a in
      if streamed then publish_event ''response_end'' [] [] (publish_event ''response_delta'' text1 [] (publish_event ''response_start'' [] [] a1)) else a1)"

definition check_todo_finalization :: "nat \<Rightarrow> bool \<Rightarrow> 'w agent \<Rightarrow> 'w agent \<times> bool" where
  "check_todo_finalization r streamed a = (case turn_todo a of
      None \<Rightarrow> (a, False)
    | Some st \<Rightarrow>
        if unfinished_todos a st = [] then (a\<lparr>ag_suffix := []\<rparr>, False)
        else (case memory_claim_finalization (ag_session_id a) (rn_turn_id a) st of (st1, won) \<Rightarrow>
          let a1 = a\<lparr>ag_todo := Some st1\<rparr> in
          if won then (a1\<lparr>ag_suffix := [user_text TODO_FINALIZATION_INSTRUCTION]\<rparr>, True)
          else (let todos = unfinished_todos a1 st1;
                    a2 = (if todos \<noteq> [] then disclose r streamed (unfinished_disclosure todos) a1 else a1) in
                (a2\<lparr>ag_suffix := []\<rparr>, False))))"

section \<open>The text stream\<close>

record stream =
  tx_reasoning_open :: bool
  tx_response_open :: bool
  tx_reasoning_streamed :: bool
  tx_content_streamed :: bool
  tx_deferred :: "string list"

definition new_stream :: stream where
  "new_stream = \<lparr>tx_reasoning_open = False, tx_response_open = False, tx_reasoning_streamed = False, tx_content_streamed = False, tx_deferred = []\<rparr>"

definition plain_event :: "string \<Rightarrow> string \<Rightarrow> RuntimeEvent" where
  "plain_event kind message = \<lparr>ev_kind = kind, ev_message = message, ev_data = []\<rparr>"

definition close_reasoning :: "stream \<Rightarrow> stream \<times> RuntimeEvent list" where
  "close_reasoning x = (if tx_reasoning_open x then (x\<lparr>tx_reasoning_open := False\<rparr>, [plain_event ''thinking_end'' []]) else (x, []))"

definition close_response :: "stream \<Rightarrow> stream \<times> RuntimeEvent list" where
  "close_response x = (if tx_response_open x then (x\<lparr>tx_response_open := False\<rparr>, [plain_event ''response_end'' []]) else (x, []))"

definition on_reasoning :: "string \<Rightarrow> stream \<Rightarrow> stream \<times> RuntimeEvent list" where
  "on_reasoning chunk x =
     (if chunk = [] then (x, []) else case close_response x of (x1, e1) \<Rightarrow>
        let opening = (if tx_reasoning_open x1 then [] else [plain_event ''thinking_start'' []]);
            x2 = (if tx_reasoning_open x1 then x1 else x1\<lparr>tx_reasoning_open := True, tx_reasoning_streamed := True\<rparr>) in
        (x2, e1 @ opening @ [plain_event ''thinking_delta'' chunk]))"

definition on_content :: "bool \<Rightarrow> string \<Rightarrow> stream \<Rightarrow> stream \<times> RuntimeEvent list" where
  "on_content defer chunk x =
     (if chunk = [] then (x, [])
      else if defer then (x\<lparr>tx_deferred := tx_deferred x @ [chunk]\<rparr>, [])
      else case close_reasoning x of (x1, e1) \<Rightarrow>
        let opening = (if tx_response_open x1 then [] else [plain_event ''response_start'' []]);
            x2 = (if tx_response_open x1 then x1 else x1\<lparr>tx_response_open := True, tx_content_streamed := True\<rparr>) in
        (x2, e1 @ opening @ [plain_event ''response_delta'' chunk]))"

definition emit_one :: "bool \<Rightarrow> emission \<Rightarrow> stream \<Rightarrow> stream \<times> RuntimeEvent list" where
  "emit_one defer e x = (case e of Reasoning s \<Rightarrow> on_reasoning s x | Content s \<Rightarrow> on_content defer s x | Emit ev \<Rightarrow> (x, [ev]))"

fun emit_all :: "bool \<Rightarrow> emission list \<Rightarrow> stream \<Rightarrow> stream \<times> RuntimeEvent list" where
  "emit_all defer [] x = (x, [])"
| "emit_all defer (e # es) x = (case emit_one defer e x of (x1, evs) \<Rightarrow> (case emit_all defer es x1 of (x2, evs') \<Rightarrow> (x2, evs @ evs')))"

definition close_stream :: "bool \<Rightarrow> bool \<Rightarrow> stream \<Rightarrow> stream \<times> RuntimeEvent list" where
  "close_stream defer publish_deferred x = (case close_reasoning x of (x1, e1) \<Rightarrow> (case close_response x1 of (x2, e2) \<Rightarrow>
     if defer \<and> publish_deferred \<and> tx_deferred x2 \<noteq> []
     then (x2\<lparr>tx_content_streamed := True\<rparr>, e1 @ e2 @ [plain_event ''response_start'' []] @ map (plain_event ''response_delta'') (tx_deferred x2) @ [plain_event ''response_end'' []])
     else (x2, e1 @ e2)))"

section \<open>Events of messages and tools\<close>

definition publish_repair :: "pyval \<Rightarrow> 'w agent \<Rightarrow> 'w agent" where
  "publish_repair v a = (case v of
      PDict d \<Rightarrow> publish_event ''model_repair'' (if py_eq (py_get d ''outcome'') (PStr ''repaired'') then ''Malformed model output was repaired automatically.''
        else ''Malformed model output could not be repaired automatically.'') d a
    | _ \<Rightarrow> a)"

definition publish_repairs :: "'w services \<Rightarrow> 'w agent \<Rightarrow> 'w agent" where
  "publish_repairs sv a = (case sv_repairs sv of None \<Rightarrow> a | Some consume \<Rightarrow>
     (case consume (ag_world a) of (w, repairs) \<Rightarrow> fold publish_repair repairs (a\<lparr>ag_world := w\<rparr>)))"

text \<open>\<open>_publish_assistant_message\<close>, without the identifier and the token usage of the exchange.\<close>

definition publish_assistant_message :: "nat \<Rightarrow> stream \<Rightarrow> 'w agent \<Rightarrow> 'w agent" where
  "publish_assistant_message r x a = publish_event ''assistant_message'' [] [(''message'', PDict (message_to_dict (Assistant (obj a r)))),
     (''reasoning_streamed'', PBool (tx_reasoning_streamed x)), (''content_streamed'', PBool (tx_content_streamed x))] a"

definition MAX_TOOL_CONTEXT_CHARS :: nat where
  "MAX_TOOL_CONTEXT_CHARS = 2000"

text \<open>\<open>_truncate\<close>; the ellipsis is its UTF-8 bytes.\<close>

definition truncate_text :: "string \<Rightarrow> string" where
  "truncate_text value = (if length value \<le> MAX_TOOL_CONTEXT_CHARS then value
     else take MAX_TOOL_CONTEXT_CHARS value @ [CHR 0xE2, CHR 0x80, CHR 0xA6] @ '' ('' @ str_nat (length value - MAX_TOOL_CONTEXT_CHARS) @ '' characters omitted)'')"

definition publish_tool_recovery :: "ToolMessage \<Rightarrow> string \<Rightarrow> 'w agent \<Rightarrow> 'w agent" where
  "publish_tool_recovery t err a = publish_event ''tool_recovery'' (truncate_text err)
     [(''tool'', PStr (tm_name t)), (''call_id'', PStr (tm_call_id t)), (''attempt'', PInt (int (length (rn_actions a))))] a"

definition close_tool :: "string \<Rightarrow> string option \<Rightarrow> ToolMessage \<Rightarrow> ToolMessage" where
  "close_tool err code t = (if tm_status t = Pending
     then t\<lparr>tm_status := Failed, tm_content := Some err, tm_retryable := Some False, tm_failure_code := code\<rparr> else t)"

definition closed_event :: "string \<Rightarrow> string option \<Rightarrow> ToolMessage \<Rightarrow> 'w agent \<Rightarrow> 'w agent" where
  "closed_event err code t = (case code of None \<Rightarrow> tool_failed_event err t
     | Some c \<Rightarrow> publish_event ''tool_failed'' err [(''tool'', PStr (tm_name t)), (''call_id'', PStr (tm_call_id t)), (''error'', PStr err), (''failure_code'', PStr c)])"

definition fail_pending_tools :: "nat \<Rightarrow> string \<Rightarrow> string option \<Rightarrow> 'w agent \<Rightarrow> 'w agent" where
  "fail_pending_tools r err code a = fold (closed_event err code) (pending_tools (obj a r)) (change_obj r (settle_all (close_tool err code)) a)"

definition start_assistant :: "'w services \<Rightarrow> nat \<Rightarrow> 'w agent \<Rightarrow> 'w agent" where
  "start_assistant sv r a = save sv (a\<lparr>ag_active := Some r, ag_tool_index := None\<rparr>)"

definition finish_assistant :: "'w services \<Rightarrow> 'w agent \<Rightarrow> 'w agent" where
  "finish_assistant sv a = (case ag_active a of None \<Rightarrow> a | Some r \<Rightarrow> save sv (clear_active (append_entry (Obj r) a)))"

definition apply_tool_batch_reports :: "'w services \<Rightarrow> 'w agent \<Rightarrow> 'w agent" where
  "apply_tool_batch_reports sv a = (case ag_active a of
      Some r \<Rightarrow> finish_assistant sv (fail_pending_tools r ''Not executed because a subagent report arrived.'' None a)
    | None \<Rightarrow> a\<lparr>ag_tool_index := None\<rparr>)"

definition apply_tool_batch_steering :: "'w services \<Rightarrow> 'w SteeringUpdate \<Rightarrow> nat \<Rightarrow> string \<Rightarrow> ('w agent, agent_exn, unit) raising" where
  "apply_tool_batch_steering sv u next_index phase a = apply_steering sv phase u
     (case ag_active a of
        Some r \<Rightarrow> if next_index > 0 then finish_assistant sv (fail_pending_tools r ''Not executed because the user supplied new instructions.'' None a)
          else clear_active a
      | None \<Rightarrow> clear_active a)"

end
