(* ===== verification/AgentTools.thy ===== *)
theory AgentTools
  imports AgentInputs
begin

text \<open>
  \<open>runtime/execution/steps.py\<close>: the execution of one tool call of the active message, between the hooks before and
  after it.
\<close>

section \<open>One tool call\<close>

definition USER_DENIED_FAILURE_CODE :: string where "USER_DENIED_FAILURE_CODE = ''user_denied''"
definition USER_DENIED_BATCH_FAILURE_CODE :: string where "USER_DENIED_BATCH_FAILURE_CODE = ''user_denied_batch''"

record ToolStepResult =
  sr_success :: bool
  sr_output :: "string option"
  sr_error :: "string option"
  sr_interrupt :: "InterruptDecision option"
  sr_retryable :: "bool option"

definition failed_step :: "string \<Rightarrow> InterruptDecision option \<Rightarrow> bool option \<Rightarrow> ToolStepResult" where
  "failed_step err interrupt retryable = \<lparr>sr_success = False, sr_output = None, sr_error = Some err, sr_interrupt = interrupt, sr_retryable = retryable\<rparr>"

text \<open>The tool call the runtime points at.\<close>

definition current_call :: "'w agent \<Rightarrow> (nat \<times> nat) option" where
  "current_call a = (case (ag_active a, ag_tool_index a) of
      (Some r, Some i) \<Rightarrow> if i < length (am_tools (obj a r)) then Some (r, i) else None
    | _ \<Rightarrow> None)"

definition tool_at :: "'w agent \<Rightarrow> nat \<Rightarrow> nat \<Rightarrow> ToolMessage" where
  "tool_at a r i = am_tools (obj a r) ! i"

definition change_tool :: "nat \<Rightarrow> nat \<Rightarrow> (ToolMessage \<Rightarrow> ToolMessage) \<Rightarrow> 'w agent \<Rightarrow> 'w agent" where
  "change_tool r i f = change_obj r (\<lambda>m. m\<lparr>am_tools := (am_tools m)[i := f (am_tools m ! i)]\<rparr>)"

text \<open>\<open>_failure\<close>.\<close>

definition step_failure :: "'w services \<Rightarrow> string \<Rightarrow> string \<Rightarrow> bool option \<Rightarrow> 'w agent \<Rightarrow> 'w agent \<times> ToolStepResult" where
  "step_failure sv tool err retryable a =
     (let a1 = (case current_call a of None \<Rightarrow> a
          | Some (r, i) \<Rightarrow> change_tool r i (\<lambda>t. t\<lparr>tm_status := Failed, tm_content := Some err, tm_retryable := retryable\<rparr>) a);
          call_id = (case current_call a of None \<Rightarrow> [] | Some (r, i) \<Rightarrow> tm_call_id (tool_at a r i)) in
      (save sv (publish_event ''tool_failed'' err [(''tool'', PStr tool), (''call_id'', PStr call_id), (''error'', PStr err)] a1),
       failed_step err None retryable))"

text \<open>\<open>_denied\<close>.\<close>

definition step_denied :: "'w services \<Rightarrow> nat \<Rightarrow> nat \<Rightarrow> string \<Rightarrow> InterruptDecision \<Rightarrow> 'w agent \<Rightarrow> 'w agent \<times> ToolStepResult" where
  "step_denied sv r i tool decision a =
     (let err = ''The user denied this '' @ tool @ '' tool call.'';
          a1 = change_tool r i (\<lambda>t. t\<lparr>tm_status := Failed, tm_content := Some err, tm_retryable := Some False, tm_failure_code := Some USER_DENIED_FAILURE_CODE\<rparr>) a in
      (save sv (publish_event ''tool_failed'' err [(''tool'', PStr tool), (''call_id'', PStr (tm_call_id (tool_at a r i))), (''error'', PStr err),
         (''failure_code'', PStr USER_DENIED_FAILURE_CODE)] a1),
       failed_step err (Some decision) (Some False)))"

definition call_tool :: "'w services \<Rightarrow> ToolMessage \<Rightarrow> SandboxExecutionDecision option \<Rightarrow> 'w agent \<Rightarrow> 'w invocation" where
  "call_tool sv t decision a =
     (let plain_call = sv_invoke sv (tm_name t) (tm_arguments t) \<lparr>ic_session_id = ag_session_id a, ic_turn_id = rn_turn_id a, ic_call_id = tm_call_id t,
          ic_sandbox_decision = decision\<rparr> (ag_world a) (ag_todo a) in
      case sv_subagents sv of None \<Rightarrow> plain_call
      | Some (handles, invoke) \<Rightarrow> if handles (tm_name t) then invoke (tm_name t) (tm_arguments t) a else plain_call)"

text \<open>\<open>_invoke\<close>; every exception of a tool becomes a failed step.\<close>

definition invoke_tool :: "'w services \<Rightarrow> nat \<Rightarrow> nat \<Rightarrow> bool \<Rightarrow> SandboxExecutionDecision option \<Rightarrow> 'w agent \<Rightarrow> 'w agent \<times> ToolStepResult" where
  "invoke_tool sv r i retryable decision a =
     (let t = tool_at a r i;
          a1 = publish_event ''tool_call'' (tm_name t) [(''call_id'', PStr (tm_call_id t)), (''arguments'', PDict (tm_arguments t)), (''attempt'', PInt 1)] a;
          v = call_tool sv t decision a1;
          a2 = a1\<lparr>ag_world := iv_world v, ag_todo := iv_todo v, ag_pause := (ag_pause a1 \<or> iv_pause v)\<rparr> in
      case iv_result v of
        Inl err \<Rightarrow> step_failure sv (tm_name t) err (Some retryable) a2
      | Inr result \<Rightarrow> (case stop_requested sv a2 of (a3, stop) \<Rightarrow>
          if stop then step_failure sv (tm_name t) (sv_redact sv ''Tool invocation cancelled.'') (Some retryable) a3
          else (let a4 = change_tool r i (\<lambda>t. t\<lparr>tm_status := Succeeded, tm_content := Some result, tm_retryable := Some retryable\<rparr>) a3;
                    a5 = a4\<lparr>rn_completed_steps := rn_completed_steps a4 @ [length (rn_actions a4)]\<rparr> in
                (save sv (publish_event ''tool_result'' result [(''tool'', PStr (tm_name t)), (''call_id'', PStr (tm_call_id t)), (''attempts'', PInt 1)] a5),
                 \<lparr>sr_success = True, sr_output = Some result, sr_error = None, sr_interrupt = None, sr_retryable = Some retryable\<rparr>))))"

record tool_facts =
  tf_requires_confirmation :: bool
  tf_read_only :: bool
  tf_workspace_confined :: bool
  tf_retryable :: bool

text \<open>The checks before the hooks; \<open>Inl\<close> is the message the call fails with.\<close>

definition tool_checks :: "'w services \<Rightarrow> string \<Rightarrow> string \<Rightarrow> pydict \<Rightarrow> string + tool_facts" where
  "tool_checks sv mode tool args =
     bind_result (if mode = ''plan'' then bind_result (sv_read_only sv tool) (\<lambda>ro. if ro then Inr () else Inl (''Read-only Plan mode blocked tool: '' @ tool)) else Inr ()) (\<lambda>_.
     bind_result (sv_requires_confirmation sv tool) (\<lambda>confirm.
     bind_result (sv_read_only sv tool) (\<lambda>ro.
     bind_result (sv_workspace_confined sv tool) (\<lambda>confined.
     bind_result (sv_retryable sv tool) (\<lambda>retryable.
     bind_result (case sv_validate sv of None \<Rightarrow> Inr () | Some validate \<Rightarrow> validate tool args) (\<lambda>_.
       Inr \<lparr>tf_requires_confirmation = confirm, tf_read_only = ro, tf_workspace_confined = confined, tf_retryable = retryable\<rparr>))))))"

definition hook_context :: "'w services \<Rightarrow> 'w agent \<Rightarrow> ToolMessage \<Rightarrow> tool_facts \<Rightarrow> ToolHookContext" where
  "hook_context sv a t facts =
     \<lparr>tc_run = \<lparr>ri_session_id = ag_session_id a, ri_run_id = rn_run_id a, ri_task = rn_task a, ri_mode = rn_mode a\<rparr>,
      tc_call_id = tm_call_id t, tc_name = tm_name t, tc_arguments = tm_arguments t,
      tc_workspace_root = (case ag_workspace_root a of None \<Rightarrow> [] | Some p \<Rightarrow> p), tc_project_cwd = (case ag_project_cwd a of None \<Rightarrow> [] | Some p \<Rightarrow> p),
      tc_permission_mode = mc_permission_mode (ag_config a), tc_requires_confirmation = tf_requires_confirmation facts, tc_read_only = tf_read_only facts,
      tc_workspace_confined = tf_workspace_confined facts, tc_launcher = sv_launcher sv, tc_sandbox_config = sv_sandbox_config sv,
      tc_sandbox_user_id = sv_sandbox_user_id sv, tc_interrupt = sv_interrupt sv, tc_record_event = True, tc_publish = True, tc_outcome = False\<rparr>"

definition run_hooks :: "(ToolHookContext, 'w, hook_value) hook_manager \<Rightarrow> ToolHookContext \<Rightarrow> ('w agent, agent_exn, hook_value HookOperationResult) raising" where
  "run_hooks m c a = (case execute_hooks m c (ag_world a) of (w, evs, res) \<Rightarrow>
     (a\<lparr>ag_world := w, ag_events := ag_events a @ evs\<rparr>, case res of Inl e \<Rightarrow> Inl (HookRaised e) | Inr x \<Rightarrow> Inr x))"

text \<open>What a rejecting hook asks for; a rejection without a decision cancels.\<close>

definition rejection :: "hook_value HookOperationResult \<Rightarrow> InterruptDecision" where
  "rejection x = (case map_of (ho_data x) ''interrupt'' of Some (HvInterrupt d) \<Rightarrow> d | _ \<Rightarrow> \<lparr>id_choice = ''cancel'', id_supplement = None\<rparr>)"

definition granted_sandbox :: "hook_value HookOperationResult \<Rightarrow> SandboxExecutionDecision option" where
  "granted_sandbox x = (case map_of (ho_data x) ''sandbox_decision'' of Some (HvDecision d) \<Rightarrow> Some d | _ \<Rightarrow> None)"

definition step_rejected :: "'w services \<Rightarrow> nat \<Rightarrow> nat \<Rightarrow> string \<Rightarrow> hook_value HookOperationResult \<Rightarrow> 'w agent \<Rightarrow> 'w agent \<times> ToolStepResult" where
  "step_rejected sv r i tool x a =
     (if id_choice (rejection x) = ''deny'' then step_denied sv r i tool (rejection x) a
      else (let err = (case ho_reason x of Some s \<Rightarrow> if s \<noteq> [] then s else ''Tool call rejected by hook.'' | None \<Rightarrow> ''Tool call rejected by hook.'') in
            (fst (step_failure sv tool err (Some False) a), failed_step err (Some (rejection x)) (Some False))))"

text \<open>The call behind the checks: the hooks, the tool, the hooks after it.\<close>

definition guarded_call :: "'w services \<Rightarrow> nat \<Rightarrow> nat \<Rightarrow> tool_facts \<Rightarrow> ('w agent, agent_exn, ToolStepResult) raising" where
  "guarded_call sv r i facts a =
     (let t = tool_at a r i; c = hook_context sv a t facts in
      bind_action (run_hooks (sv_before sv) c) (\<lambda>before a1.
        if ho_decision before = RejectCall then (case step_rejected sv r i (tm_name t) before a1 of (a2, res) \<Rightarrow> (a2, Inr res))
        else (case invoke_tool sv r i (tf_retryable facts) (granted_sandbox before) a1 of (a2, res) \<Rightarrow>
          bind_action (run_hooks (sv_after sv) (c\<lparr>tc_outcome := True\<rparr>)) (\<lambda>_ a3. (a3, Inr res)) a2)) a)"

definition follow_mode :: "'w agent \<Rightarrow> 'w agent" where
  "follow_mode a = (if mc_running_mode (ag_config a) \<in> {''agent'', ''plan''} then a\<lparr>rn_mode := mc_running_mode (ag_config a)\<rparr> else a)"

definition execute_step :: "'w services \<Rightarrow> ('w agent, agent_exn, ToolStepResult) raising" where
  "execute_step sv a =
     (let previous = rn_mode a; a1 = follow_mode (apply_pending sv a) in
      if rn_mode a1 \<noteq> previous then (a1, Inl (WorkflowModeChanged (''Workflow mode changed from '' @ previous @ '' to '' @ rn_mode a1 @ ''.'')))
      else case current_call a1 of
        None \<Rightarrow> (case step_failure sv ''unknown'' ''Runtime does not identify an active tool call.'' None a1 of (a2, res) \<Rightarrow> (a2, Inr res))
      | Some (r, i) \<Rightarrow>
          (let t = tool_at a1 r i in
           case tool_checks sv (rn_mode a1) (tm_name t) (tm_arguments t) of
             Inl err \<Rightarrow> (case step_failure sv (tm_name t) err None a1 of (a2, res) \<Rightarrow> (a2, Inr res))
           | Inr facts \<Rightarrow> guarded_call sv r i facts a1))"

text \<open>\<open>_execute_tool\<close>.\<close>

definition execute_tool :: "'w services \<Rightarrow> nat \<Rightarrow> nat \<Rightarrow> ('w agent, agent_exn, ToolStepResult) raising" where
  "execute_tool sv r i a = execute_step sv (a\<lparr>ag_tool_index := Some i, rn_actions := rn_actions a @ [(r, i)]\<rparr>)"

end
