(* ===== verification/AgentLoop.thy ===== *)
theory AgentLoop
  imports AgentTools
begin

text \<open>
  \<open>runtime/execution/workflows/budgets.py\<close> and \<open>runtime/execution/workflows/execution.py\<close>: the loop of a
  turn in agent mode. It asks the planner, executes the tool calls of the answer one after another and goes on until the
  planner answers without one, the budget is spent, or the user stops it.

  The \<open>while True\<close> loop takes its number of rounds as fuel and is \<open>None\<close> when the fuel runs out.
\<close>

section \<open>Budgets\<close>

definition tool_label :: "'w agent \<Rightarrow> nat \<times> nat \<Rightarrow> string" where
  "tool_label a c = (case c of (r, i) \<Rightarrow> tm_name (tool_at a r i) @ '' ('' @ ToolStatus_value (tm_status (tool_at a r i)) @ '')'')"

definition budget_fallback :: "string \<Rightarrow> 'w agent \<Rightarrow> string" where
  "budget_fallback reason a =
     (let n = length (rn_actions a);
          recent = join '', '' (map (tool_label a) (drop (n - 3) (rn_actions a)));
          details = (if recent \<noteq> [] then '' Recent tool calls: '' @ recent @ ''.'' else []) in
      ''Execution budget exhausted: '' @ reason @ '' The run completed '' @ str_nat n @ '' tool calls before stopping.'' @ details
        @ '' Continue the task in a new turn if more work is required.'')"

text \<open>The finaliser's answer is kept when it is a text without tool calls.\<close>

definition finalizer_output :: "'w services \<Rightarrow> string + AssistantMessage \<Rightarrow> string + AssistantMessage" where
  "finalizer_output sv res = bind_result res (\<lambda>m.
     if am_tools m \<noteq> [] \<or> strip (case am_content m of None \<Rightarrow> [] | Some c \<Rightarrow> c) = []
     then Inl (sv_redact sv ''Budget finalizer returned invalid output.'') else Inr m)"

definition budget_data :: "string \<Rightarrow> string \<Rightarrow> string option \<Rightarrow> 'w agent \<Rightarrow> pydict" where
  "budget_data limit_type source err a = [(''limit_type'', PStr limit_type), (''limit'', PInt (int (ag_max_tool_calls a))), (''model_turns'', PInt (int (rn_model_turns a))),
     (''tool_calls'', PInt (int (length (rn_actions a)))), (''finalizer'', PStr source)] @ (case err of None \<Rightarrow> [] | Some e \<Rightarrow> [(''finalization_error'', PStr e)])"

definition fail_for_budget :: "'w services \<Rightarrow> string \<Rightarrow> string \<Rightarrow> 'w agent \<Rightarrow> 'w agent" where
  "fail_for_budget sv limit_type reason a = (case sv_finalize sv of
      None \<Rightarrow> fail_run (sv_redact sv (budget_fallback reason a)) (budget_data limit_type ''fallback'' None a) a
    | Some f \<Rightarrow> (case f a reason of (w, evs, res) \<Rightarrow>
        let a1 = a\<lparr>ag_world := w, ag_events := ag_events a @ evs\<rparr> in
        case finalizer_output sv res of
          Inr m \<Rightarrow>
            (let a2 = save sv (append_new m a1); answer = strip (case am_content m of None \<Rightarrow> [] | Some c \<Rightarrow> c) in
             fail_run (sv_redact sv answer) (budget_data limit_type ''planner'' None a2) a2)
        | Inl err \<Rightarrow>
            (let a2 = publish_repairs sv a1 in
             fail_run (sv_redact sv (budget_fallback reason a2)) (budget_data limit_type ''fallback'' (Some (truncate_text err)) a2) a2)))"

definition claim_model_turn :: "'w services \<Rightarrow> 'w agent \<Rightarrow> 'w agent" where
  "claim_model_turn sv a = save sv (a\<lparr>rn_model_turns := rn_model_turns a + 1\<rparr>)"

definition tool_batch_fits :: "nat \<Rightarrow> 'w agent \<Rightarrow> bool" where
  "tool_batch_fits r a \<longleftrightarrow> length (rn_actions a) + length (am_tools (obj a r)) \<le> ag_max_tool_calls a"

definition reject_over_budget_tools :: "'w services \<Rightarrow> nat \<Rightarrow> 'w agent \<Rightarrow> 'w agent" where
  "reject_over_budget_tools sv r a =
     (let limit = ag_max_tool_calls a;
          reason = ''the model requested '' @ str_nat (length (am_tools (obj a r))) @ '' tool calls, but only '' @ str_nat (limit - length (rn_actions a))
            @ '' of '' @ str_nat limit @ '' tool calls remained.'' in
      fail_for_budget sv ''tool_calls'' reason (finish_assistant sv (fail_pending_tools r (''Not executed because '' @ reason) None (start_assistant sv r a))))"

definition ensure_tool_budget :: "'w services \<Rightarrow> 'w agent \<Rightarrow> 'w agent \<times> bool" where
  "ensure_tool_budget sv a =
     (if length (rn_actions a) < ag_max_tool_calls a then (a, True)
      else (fail_for_budget sv ''tool_calls'' (''the maximum of '' @ str_nat (ag_max_tool_calls a) @ '' tool calls was reached before a final answer.'') a, False))"

section \<open>A batch of tool calls\<close>

datatype batch_end = Returned | Steered | Denied | Finished

text \<open>An interrupt that is neither a denial nor a cancellation is feedback.\<close>

definition interrupted :: "'w services \<Rightarrow> nat \<Rightarrow> InterruptDecision \<Rightarrow> 'w agent \<Rightarrow> 'w agent \<times> batch_end" where
  "interrupted sv r d a =
     (let why = ''Not executed because tool execution was interrupted.'' in
      if id_choice d = ''deny'' then (finish_assistant sv (fail_pending_tools r why (Some USER_DENIED_BATCH_FAILURE_CODE) a), Denied)
      else (let a1 = clear_active (fail_pending_tools r why None a) in
            (if id_choice d = ''cancel'' then cancel_run ''user_cancelled'' ''Run cancelled by user'' a1 else record_plan_feedback sv (id_supplement d) a1, Returned)))"

text \<open>A failed call keeps its error as its content and is reported to the planner.\<close>

definition recover_tool :: "nat \<Rightarrow> nat \<Rightarrow> ToolStepResult \<Rightarrow> 'w agent \<Rightarrow> 'w agent" where
  "recover_tool r i outcome a =
     (if sr_success outcome then a
      else (let err = (case sr_error outcome of Some e \<Rightarrow> if e \<noteq> [] then e else ''Tool execution failed without an error message.'' | None \<Rightarrow> ''Tool execution failed without an error message.'') in
            publish_tool_recovery (tool_at a r i) err (change_tool r i (\<lambda>t. t\<lparr>tm_content := Some (truncate_text err)\<rparr>) a)))"

definition steering_point :: "'w services \<Rightarrow> nat \<Rightarrow> string \<Rightarrow> ('w agent, agent_exn, bool) raising" where
  "steering_point sv next_index phase = bind_action (collect_steering sv) (\<lambda>update. case update of
      None \<Rightarrow> lift_action (Inr False)
    | Some u \<Rightarrow> bind_action (apply_tool_batch_steering sv u next_index phase) (\<lambda>_. lift_action (Inr True)))"

text \<open>A safe point between tool calls: stop signals, then reports. \<open>None\<close> lets the batch go on.\<close>

definition safe_point :: "'w services \<Rightarrow> 'w agent \<Rightarrow> 'w agent \<times> batch_end option" where
  "safe_point sv a = (case cancel_if_requested sv a of (a1, stop) \<Rightarrow>
     if stop then (a1, Some Returned)
     else (case consume_reports sv a1 of (a2, reports) \<Rightarrow>
       if reports then (apply_tool_batch_reports sv a2, Some Steered) else (a2, None)))"

text \<open>A change of mode closes the message before it leaves the workflow; other exceptions leave it at once.\<close>

definition execute_in_batch :: "'w services \<Rightarrow> nat \<Rightarrow> nat \<Rightarrow> ('w agent, agent_exn, ToolStepResult) raising" where
  "execute_in_batch sv r i a = (case execute_tool sv r i a of
      (a1, Inl (WorkflowModeChanged m)) \<Rightarrow>
        (finish_assistant sv (fail_pending_tools r ''Not executed because the workflow mode changed.'' None a1), Inl (WorkflowModeChanged m))
    | res \<Rightarrow> res)"

definition after_tool :: "'w services \<Rightarrow> nat \<Rightarrow> nat \<Rightarrow> ToolStepResult \<Rightarrow> ('w agent, agent_exn, batch_end option) raising" where
  "after_tool sv r i outcome a = (case safe_point sv a of
      (a1, Some e) \<Rightarrow> (a1, Inr (Some e))
    | (a1, None) \<Rightarrow> (case sr_interrupt outcome of
        Some d \<Rightarrow> (case interrupted sv r d a1 of (a2, e) \<Rightarrow> (a2, Inr (Some e)))
      | None \<Rightarrow> bind_action (steering_point sv (Suc i) ''after_tool'') (\<lambda>steered a2.
          if steered then (a2, Inr (Some Steered)) else (recover_tool r i outcome a2, Inr None)) a1))"

fun tool_batch :: "'w services \<Rightarrow> nat \<Rightarrow> nat list \<Rightarrow> ('w agent, agent_exn, batch_end) raising" where
  "tool_batch sv r [] a = (a, Inr Finished)"
| "tool_batch sv r (i # is) a = (case safe_point sv a of
      (a1, Some e) \<Rightarrow> (a1, Inr e)
    | (a1, None) \<Rightarrow> bind_action (steering_point sv i ''before_tool'') (\<lambda>steered a2.
        if steered then (a2, Inr Steered)
        else bind_action (execute_in_batch sv r i) (\<lambda>outcome. bind_action (after_tool sv r i outcome) (\<lambda>stop a4.
          case stop of Some e \<Rightarrow> (a4, Inr e) | None \<Rightarrow> tool_batch sv r is a4)) a2) a1)"

section \<open>The loop\<close>

definition adopt_answer :: "'w answer \<Rightarrow> 'w agent \<Rightarrow> 'w agent" where
  "adopt_answer an a = (let a1 = a\<lparr>ag_world := aw_world an\<rparr> in case aw_history an of
      None \<Rightarrow> a1
    | Some (summary, n, start) \<Rightarrow>
        a1\<lparr>ag_messages := Said (SystemMessage ''context_summary'' (Some (CHECKPOINT_PREAMBLE @ PARAGRAPH @ summary)) []) # drop n (ag_messages a),
           rn_turn_start := start\<rparr>)"

definition add_events :: "RuntimeEvent list \<Rightarrow> 'w agent \<Rightarrow> 'w agent" where
  "add_events evs a = a\<lparr>ag_events := ag_events a @ evs\<rparr>"

text \<open>The model call with its stream. The response becomes a new object; its name is the result.\<close>

definition ask_planner :: "bool \<Rightarrow> ('w agent \<Rightarrow> 'w answer) \<Rightarrow> 'w agent \<Rightarrow> 'w agent \<times> (planner_error + nat \<times> stream)" where
  "ask_planner defer f a =
     (let an = f a; a1 = adopt_answer an a in
      case emit_all defer (aw_output an) new_stream of (x, evs) \<Rightarrow>
        (case aw_result an of
           Inl e \<Rightarrow> (case close_stream defer False x of (x1, evs1) \<Rightarrow> (add_events (evs @ evs1) a1, Inl e))
         | Inr m \<Rightarrow> (case close_stream defer (am_tools m \<noteq> [] \<or> \<not> defer) x of (x1, evs1) \<Rightarrow>
             (add_events (evs @ evs1) (alloc m a1), Inr (length (ag_heap a1), x1)))))"

definition planning_failure_data :: "pydict \<Rightarrow> string \<Rightarrow> pydict" where
  "planning_failure_data diagnostics planner = [(''planner'', PStr planner)] @ (if diagnostics \<noteq> [] then [(''provider_diagnostics'', PDict diagnostics)] else [])"

definition planning_failed :: "'w services \<Rightarrow> string \<Rightarrow> pydict \<Rightarrow> 'w agent \<Rightarrow> 'w agent" where
  "planning_failed sv message diagnostics a = (case cancel_if_requested sv (publish_repairs sv a) of (a1, stop) \<Rightarrow>
     if stop then a1 else fail_run message (planning_failure_data diagnostics (sv_planner_name sv)) a1)"

text \<open>What is done with a response; the result is whether the workflow returns.\<close>

definition run_batch :: "'w services \<Rightarrow> nat \<Rightarrow> ('w agent, agent_exn, bool) raising" where
  "run_batch sv r a = bind_action (tool_batch sv r [0..<length (am_tools (obj a r))]) (\<lambda>e a1. case e of
      Returned \<Rightarrow> (a1, Inr True)
    | Finished \<Rightarrow> (finish_assistant sv a1, Inr False)
    | _ \<Rightarrow> (a1, Inr False)) (start_assistant sv r a)"

definition use_response :: "'w services \<Rightarrow> nat \<Rightarrow> bool \<Rightarrow> bool \<Rightarrow> ('w agent, agent_exn, bool) raising" where
  "use_response sv r todo_retry streamed a =
     (if am_tools (obj a r) = [] then (if todo_retry then (a, Inr False) else (complete_run r None None streamed a, Inr True))
      else if \<not> tool_batch_fits r a then (reject_over_budget_tools sv r a, Inr True)
      else run_batch sv r a)"

definition after_response :: "'w services \<Rightarrow> nat \<Rightarrow> bool \<Rightarrow> bool \<Rightarrow> ('w agent, agent_exn, bool) raising" where
  "after_response sv r todo_retry streamed a = (case cancel_if_requested sv a of (a1, stop) \<Rightarrow>
     if stop then (fail_pending_tools r ''Not executed because the run was cancelled.'' None a1, Inr True)
     else (case consume_reports sv a1 of (a2, reports) \<Rightarrow>
       if reports then (fail_pending_tools r ''Not executed because a subagent report arrived.'' None a2, Inr False)
       else bind_action (consume_steering sv ''after_model_response'') (\<lambda>steered a3.
         if steered then (fail_pending_tools r ''Not executed because the user supplied new instructions.'' None a3, Inr False)
         else use_response sv r todo_retry streamed a3) a2))"

definition handle_response :: "'w services \<Rightarrow> nat \<Rightarrow> stream \<Rightarrow> ('w agent, agent_exn, bool) raising" where
  "handle_response sv r x a =
     (let a1 = publish_repairs sv a in
      case (if am_tools (obj a1 r) = [] then check_todo_finalization r (tx_content_streamed x) a1 else (a1, False)) of (a2, todo_retry) \<Rightarrow>
        after_response sv r todo_retry (tx_content_streamed x) (if todo_retry then a2 else publish_assistant_message r x a2))"

definition decide_round :: "'w services \<Rightarrow> ('w agent \<Rightarrow> 'w answer) \<Rightarrow> ('w agent, agent_exn, bool) raising" where
  "decide_round sv f a =
     (let a1 = claim_model_turn sv a in
      case ask_planner (should_defer_todo_content a1) f a1 of
        (a2, Inr (r, x)) \<Rightarrow> handle_response sv r x a2
      | (a2, Inl (PlanningFailed m d)) \<Rightarrow> (planning_failed sv m d a2, Inr True)
      | (a2, Inl (PlannerRaised c m)) \<Rightarrow> (a2, Inl (Raised c m)))"

text \<open>One round of the loop.\<close>

definition workflow_round :: "'w services \<Rightarrow> ('w agent \<Rightarrow> 'w answer) \<Rightarrow> ('w agent, agent_exn, bool) raising" where
  "workflow_round sv f a =
     (let a1 = refresh_todo_finalization (apply_pending sv a) in
      if rn_mode a1 \<noteq> ''agent'' then (a1, Inl (WorkflowModeChanged ''Agent workflow changed to Plan mode.''))
      else case cancel_if_requested sv (fst (consume_reports sv a1)) of (a2, stop) \<Rightarrow>
        if stop then (a2, Inr True)
        else (case ensure_tool_budget sv a2 of (a3, ok) \<Rightarrow> if \<not> ok then (a3, Inr True) else decide_round sv f a3))"

fun workflow_loop :: "nat \<Rightarrow> 'w services \<Rightarrow> ('w agent \<Rightarrow> 'w answer) \<Rightarrow> 'w agent \<Rightarrow> ('w agent \<times> (agent_exn + unit)) option" where
  "workflow_loop 0 sv f a = None"
| "workflow_loop (Suc n) sv f a = (case workflow_round sv f a of
      (a1, Inl e) \<Rightarrow> Some (a1, Inl e)
    | (a1, Inr True) \<Rightarrow> Some (a1, Inr ())
    | (a1, Inr False) \<Rightarrow> workflow_loop n sv f a1)"

definition run_workflow :: "nat \<Rightarrow> 'w services \<Rightarrow> 'w agent \<Rightarrow> ('w agent \<times> (agent_exn + unit)) option" where
  "run_workflow n sv a = (case sv_decide sv of
      None \<Rightarrow> Some (fail_run (sv_redact sv (''Planner '' @ str_repr (sv_planner_name sv) @ '' does not support decisions.'')) [] a, Inr ())
    | Some f \<Rightarrow> workflow_loop n sv f a)"

end
