(* ===== verification/AgentFrame.thy ===== *)
theory AgentFrame
  imports AgentLoop
begin

text \<open>
  How the operations of a turn may change its state. Between two tool calls they leave the executed actions, the budget and
  the identity of the turn alone; they add objects, never take them away; a tool call that has a result keeps having one;
  and a message enters the history only when all its tool calls have results. \<open>evolves\<close> says this of two states; it is
  reflexive and transitive and every operation is shown to respect it once.
\<close>

section \<open>Evolution\<close>

definition tool_wf :: "ToolMessage \<Rightarrow> bool" where
  "tool_wf t \<longleftrightarrow> (tm_status t = Pending \<longleftrightarrow> tm_content t = None)"

definition message_wf :: "AssistantMessage \<Rightarrow> bool" where
  "message_wf m \<longleftrightarrow> list_all tool_wf (am_tools m)"

definition tool_done :: "ToolMessage \<Rightarrow> bool" where
  "tool_done t \<longleftrightarrow> tm_status t \<noteq> Pending"

definition message_done :: "AssistantMessage \<Rightarrow> bool" where
  "message_done m \<longleftrightarrow> list_all tool_done (am_tools m)"

definition tool_step :: "ToolMessage \<Rightarrow> ToolMessage \<Rightarrow> bool" where
  "tool_step t u \<longleftrightarrow> (tool_done t \<longrightarrow> tool_done u) \<and> (tool_wf t \<longrightarrow> tool_wf u)"

definition message_step :: "AssistantMessage \<Rightarrow> AssistantMessage \<Rightarrow> bool" where
  "message_step m n \<longleftrightarrow> list_all2 tool_step (am_tools m) (am_tools n)"

definition heap_step :: "AssistantMessage list \<Rightarrow> AssistantMessage list \<Rightarrow> bool" where
  "heap_step h k \<longleftrightarrow> length h \<le> length k \<and> list_all2 message_step h (take (length h) k) \<and> list_all message_wf (drop (length h) k)"

definition done_ref :: "'w agent \<Rightarrow> nat \<Rightarrow> bool" where
  "done_ref a r \<longleftrightarrow> r < length (ag_heap a) \<and> message_done (obj a r)"

definition refs :: "'w agent \<Rightarrow> nat set" where
  "refs a = {r. Obj r \<in> set (ag_messages a)}"

definition evolves :: "'w agent \<Rightarrow> 'w agent \<Rightarrow> bool" where
  "evolves a b \<longleftrightarrow> rn_actions b = rn_actions a \<and> ag_max_tool_calls b = ag_max_tool_calls a \<and> ag_session_id b = ag_session_id a \<and> rn_turn_id b = rn_turn_id a
     \<and> heap_step (ag_heap a) (ag_heap b) \<and> (\<forall>r \<in> refs b. r \<in> refs a \<or> done_ref b r)
     \<and> (\<forall>r. ag_active b = Some r \<longrightarrow> ag_active a = Some r)"

lemma tool_step_refl [simp]: "tool_step t t"
  by (simp add: tool_step_def)

lemma message_step_refl [simp]: "message_step m m"
  by (simp add: message_step_def list_all2_same)

lemma message_step_trans: "message_step l m \<Longrightarrow> message_step m n \<Longrightarrow> message_step l n"
  unfolding message_step_def by (rule list_all2_trans [where ?P1.0 = tool_step and ?P2.0 = tool_step]) (auto simp: tool_step_def)

lemma message_step_done: "message_step m n \<Longrightarrow> message_done m \<Longrightarrow> message_done n"
  by (auto simp: message_step_def message_done_def list_all_length list_all2_conv_all_nth tool_step_def)

lemma message_step_wf: "message_step m n \<Longrightarrow> message_wf m \<Longrightarrow> message_wf n"
  by (auto simp: message_step_def message_wf_def list_all_length list_all2_conv_all_nth tool_step_def)

lemma heap_step_nth: "heap_step h k \<Longrightarrow> r < length h \<Longrightarrow> message_step (h ! r) (k ! r)"
  by (auto simp: heap_step_def list_all2_conv_all_nth)

lemma heap_step_iff:
  "heap_step h k \<longleftrightarrow> length h \<le> length k \<and> (\<forall>r < length h. message_step (h ! r) (k ! r)) \<and> (\<forall>r. length h \<le> r \<longrightarrow> r < length k \<longrightarrow> message_wf (k ! r))"
proof -
  have "list_all message_wf (drop (length h) k) \<longleftrightarrow> (\<forall>r. length h \<le> r \<longrightarrow> r < length k \<longrightarrow> message_wf (k ! r))" if "length h \<le> length k"
  proof -
    have "(\<forall>i < length k - length h. message_wf (k ! (length h + i))) \<longleftrightarrow> (\<forall>r. length h \<le> r \<longrightarrow> r < length k \<longrightarrow> message_wf (k ! r))"
      using that by (metis add_diff_inverse_nat diff_less_mono le_add1 less_diff_conv add.commute linorder_not_less)
    then show ?thesis using that by (simp add: list_all_length)
  qed
  then show ?thesis by (auto simp: heap_step_def list_all2_conv_all_nth)
qed

lemma heap_step_refl [simp]: "heap_step h h"
  by (simp add: heap_step_iff)

lemma heap_step_trans: "heap_step h k \<Longrightarrow> heap_step k l \<Longrightarrow> heap_step h l"
  unfolding heap_step_iff by (meson leI le_trans less_le_trans message_step_trans message_step_wf)

lemma heap_step_append: "message_wf m \<Longrightarrow> heap_step h (h @ [m])"
  by (auto simp: heap_step_iff nth_append)

lemma heap_step_update: "message_step (h ! r) m \<Longrightarrow> heap_step h (h[r := m])"
  by (cases "r < length h") (auto simp: heap_step_iff nth_list_update)

lemma evolves_done: "evolves a b \<Longrightarrow> done_ref a r \<Longrightarrow> done_ref b r"
  unfolding evolves_def done_ref_def obj_def by (metis heap_step_iff le_trans not_less message_step_done)

lemma evolves_refl [simp]: "evolves a a"
  by (simp add: evolves_def)

lemma evolves_trans: "evolves a b \<Longrightarrow> evolves b c \<Longrightarrow> evolves a c"
  using evolves_done [of b c] unfolding evolves_def by (metis heap_step_trans)

text \<open>A change that touches neither messages nor objects nor the bookkeeping.\<close>

lemma evolves_quiet:
  "rn_actions b = rn_actions a \<Longrightarrow> ag_max_tool_calls b = ag_max_tool_calls a \<Longrightarrow> ag_session_id b = ag_session_id a \<Longrightarrow> rn_turn_id b = rn_turn_id a \<Longrightarrow>
   ag_heap b = ag_heap a \<Longrightarrow> ag_messages b = ag_messages a \<Longrightarrow> ag_active b = ag_active a \<or> ag_active b = None \<Longrightarrow> evolves a b"
  by (auto simp: evolves_def refs_def)

definition active_ok :: "'w agent \<Rightarrow> bool" where
  "active_ok a \<longleftrightarrow> (\<forall>r. ag_active a = Some r \<longrightarrow> r < length (ag_heap a))"

lemma evolves_active: "evolves a b \<Longrightarrow> active_ok a \<Longrightarrow> active_ok b"
  by (auto simp: evolves_def active_ok_def heap_step_def)

section \<open>Operations\<close>

lemmas basics = publish_event_def save_def clear_active_def add_events_def append_entry_def append_new_def alloc_def change_obj_def

lemma evolves_basic:
  "evolves a (publish_event k msg d a)" "evolves a (save sv a)" "evolves a (clear_active a)" "evolves a (add_events evs a)"
  by (rule evolves_quiet; simp add: basics)+

lemma evolves_alloc: "message_wf m \<Longrightarrow> evolves a (alloc m a)"
  by (simp add: evolves_def alloc_def refs_def heap_step_append message_wf_def)

lemma evolves_change: "message_step (obj a r) (f (obj a r)) \<Longrightarrow> evolves a (change_obj r f a)"
  by (simp add: evolves_def change_obj_def refs_def heap_step_update obj_def)

lemma evolves_append: "(\<And>r. e = Obj r \<Longrightarrow> done_ref a r) \<Longrightarrow> evolves a (append_entry e a)"
  by (auto simp: evolves_def append_entry_def refs_def done_ref_def obj_def)

lemma evolves_new: "am_tools m = [] \<Longrightarrow> evolves a (append_new m a)"
  unfolding append_new_def
  by (rule evolves_trans [OF evolves_alloc evolves_append])
    (auto simp: message_wf_def done_ref_def alloc_def obj_def message_done_def)

lemma assistant_text_tools [simp]: "am_tools (assistant_text n s) = []"
  by (simp add: assistant_text_def)

text \<open>Setting fields of the run or the configuration changes nothing that evolves.\<close>

lemma evolves_fields:
  "evolves a b \<Longrightarrow> evolves a (b\<lparr>rn_status := s, rn_final_answer := f\<rparr>)"
  "evolves a b \<Longrightarrow> evolves a (b\<lparr>rn_status := s, rn_stop_reason := z, rn_final_answer := f\<rparr>)"
  by (rule evolves_trans, assumption, rule evolves_quiet; simp)+

lemma evolves_fail: "evolves a (fail_run v d a)"
  unfolding fail_run_def Let_def by (rule evolves_trans [OF evolves_fields(2) evolves_basic(1)]) (auto intro: evolves_new)

lemma with_reason_step: "message_step m (with_reason x m)"
  by (simp add: with_reason_def message_step_def list_all2_same)

lemma evolves_cancel: "evolves a (cancel_run z m a)"
  unfolding cancel_run_def Let_def
  by (rule evolves_trans [OF evolves_fields(2) evolves_basic(1)]) (auto intro: evolves_new evolves_change with_reason_step split: option.split)

lemma evolves_complete: "done_ref a r \<Longrightarrow> evolves a (complete_run r f k s a)"
  unfolding complete_run_def Let_def
  by (rule evolves_trans [OF evolves_fields(1) evolves_basic(1)]) (auto intro: evolves_append)

lemma evolves_feedback: "evolves a (record_plan_feedback sv x a)"
  unfolding record_plan_feedback_def Let_def
  by (auto intro!: evolves_fail evolves_trans [OF evolves_append evolves_trans [OF evolves_basic(1) evolves_basic(2)]])

section \<open>Closing tool calls\<close>

lemma settle_all_step: "(\<And>t. tool_step t (f t)) \<Longrightarrow> message_step m (settle_all f m)"
  by (simp add: message_step_def settle_all_def list_all2_map2 list_all2_same)

lemma settle_all_done: "(\<And>t. tool_done (f t)) \<Longrightarrow> message_done (settle_all f m)"
  by (simp add: message_done_def settle_all_def list_all_length)

lemma settle_tool_facts [simp]: "tool_step t (settle_tool x t)" "tool_done (settle_tool x t)"
  by (auto simp: settle_tool_def tool_step_def tool_done_def tool_wf_def)

lemma close_tool_facts [simp]: "tool_step t (close_tool x c t)" "tool_done (close_tool x c t)"
  by (auto simp: close_tool_def tool_step_def tool_done_def tool_wf_def)

lemma change_obj_at [simp]: "r < length (ag_heap a) \<Longrightarrow> obj (change_obj r f a) r = f (obj a r)" "length (ag_heap (change_obj r f a)) = length (ag_heap a)"
  by (simp_all add: obj_def change_obj_def)

lemma done_settled: "(\<And>t. tool_done (f t)) \<Longrightarrow> r < length (ag_heap a) \<Longrightarrow> done_ref (change_obj r (settle_all f) a) r"
  by (simp add: done_ref_def settle_all_done)

lemma evolves_fold: "(\<And>x b. evolves b (f x b)) \<Longrightarrow> evolves a (fold f xs a)"
  by (induction xs arbitrary: a) (auto intro: evolves_trans)

lemma evolves_failed_event: "evolves a (tool_failed_event x t a)"
  by (simp add: tool_failed_event_def evolves_basic)

lemma evolves_closed_event: "evolves a (closed_event x c t a)"
  by (simp add: closed_event_def evolves_basic evolves_failed_event split: option.split)

lemma evolves_fail_pending: "evolves a (fail_pending_tools r x c a)"
  unfolding fail_pending_tools_def
  by (rule evolves_trans [OF evolves_change evolves_fold]) (auto intro: settle_all_step evolves_closed_event)

lemma fail_pending_done: "r < length (ag_heap a) \<Longrightarrow> done_ref (fail_pending_tools r x c a) r"
  unfolding fail_pending_tools_def
  by (rule evolves_done [OF evolves_fold]) (auto intro: evolves_closed_event done_settled)

section \<open>Signals\<close>

lemma evolves_complete_requested: "active_ok a \<Longrightarrow> evolves a (complete_requested_run a)"
proof -
  assume ok: "active_ok a"
  let ?f = "settle_tool ''Not executed because the Agent Turn was marked successful.''"
  have wf: "message_wf (assistant_text 0 [])" by (simp add: message_wf_def)
  show ?thesis
  proof (cases "ag_active a")
    case (Some r)
    let ?b = "change_obj r (settle_all ?f) a"
    have "done_ref ?b r" using ok Some by (intro done_settled) (simp_all add: active_ok_def)
    then have "done_ref (clear_active ?b) r" by (rule evolves_done [OF evolves_basic(3)])
    moreover have "evolves a (clear_active ?b)" by (rule evolves_trans [OF evolves_change evolves_basic(3)]) (simp add: settle_all_step)
    ultimately show ?thesis using Some by (simp add: complete_requested_run_def Let_def evolves_trans [OF _ evolves_complete])
  next
    case None
    let ?r = "length (ag_heap a)"
    let ?b = "change_obj ?r (settle_all ?f) (alloc (assistant_text 0 []) a)"
    have "done_ref ?b ?r" by (intro done_settled) (simp_all add: alloc_def)
    then have "done_ref (clear_active ?b) ?r" by (rule evolves_done [OF evolves_basic(3)])
    moreover have "evolves a (clear_active ?b)"
      by (rule evolves_trans [OF evolves_alloc [OF wf] evolves_trans [OF evolves_change evolves_basic(3)]]) (simp add: settle_all_step)
    ultimately show ?thesis using None by (simp add: complete_requested_run_def Let_def evolves_trans [OF _ evolves_complete])
  qed
qed

lemma evolves_settle_active: "active_ok a \<Longrightarrow> evolves a (settle_active a)"
proof (cases "ag_active a")
  case (Some r)
  assume ok: "active_ok a"
  let ?why = "''Not executed because the run was cancelled.''"
  let ?b = "change_obj r (settle_all (settle_tool ?why)) a"
  let ?c = "fold (tool_failed_event ?why) (pending_tools (obj a r)) ?b"
  have ab: "evolves a ?b" by (rule evolves_change) (simp add: settle_all_step)
  have bc: "evolves ?b ?c" by (rule evolves_fold) (rule evolves_failed_event)
  have "done_ref ?b r" using ok Some by (intro done_settled) (simp_all add: active_ok_def)
  then have d: "done_ref ?c r" by (rule evolves_done [OF bc])
  have "evolves ?c (clear_active (if Obj r \<in> set (ag_messages ?c) then ?c else append_entry (Obj r) ?c))"
    using d by (auto intro!: evolves_basic(3) evolves_trans [OF evolves_append evolves_basic(3)])
  with ab bc show ?thesis unfolding settle_active_def Some option.case Let_def by (meson evolves_trans)
qed (simp add: settle_active_def)

lemma ask_flag_cases: "ask_flag h a = (b, x) \<Longrightarrow> \<exists>w. b = a\<lparr>ag_world := w\<rparr>"
  by (auto simp: ask_flag_def split: option.splits prod.splits) (metis agent.surjective agent.update_convs(1))

lemma evolves_world [simp]: "evolves a (a\<lparr>ag_world := w\<rparr>)"
  by (rule evolves_quiet) simp_all

lemma evolves_ask: "ask_flag h a = (b, x) \<Longrightarrow> evolves a b"
  using ask_flag_cases by fastforce

lemma evolves_cancel_signal:
  assumes "active_ok a" "cancel_signal sv a = (b, x)"
  shows "evolves a b"
proof -
  obtain a1 c where q: "ask_flag (sv_cancel sv) a = (a1, c)" by fastforce
  have e: "evolves a a1" and ok: "active_ok a1" using evolves_ask [OF q] evolves_active assms(1) by blast+
  have "evolves a1 b"
    using assms(2) by (auto simp: cancel_signal_def q split: if_splits intro: evolves_trans [OF evolves_settle_active [OF ok] evolves_cancel])
  with e show ?thesis by (rule evolves_trans)
qed

lemma evolves_suspend_signal:
  assumes "active_ok a" "suspend_signal sv a = (b, x)"
  shows "evolves a b"
proof -
  obtain a1 c where q: "ask_flag (sv_suspend sv) a = (a1, c)" by fastforce
  have e: "evolves a a1" and ok: "active_ok a1" using evolves_ask [OF q] evolves_active assms(1) by blast+
  have "evolves a1 b"
    using assms(2) by (auto simp: suspend_signal_def pause_run_def q split: if_splits intro: evolves_cancel evolves_cancel_signal [OF ok])
  with e show ?thesis by (rule evolves_trans)
qed

lemma evolves_complete_signal:
  assumes "active_ok a" "complete_signal sv a = (b, x)"
  shows "evolves a b"
proof -
  obtain a1 c where q: "ask_flag (sv_complete sv) a = (a1, c)" by fastforce
  have e: "evolves a a1" and ok: "active_ok a1" using evolves_ask [OF q] evolves_active assms(1) by blast+
  have "evolves a1 b"
    using assms(2) by (auto simp: complete_signal_def q split: if_splits intro: evolves_complete_requested [OF ok] evolves_suspend_signal [OF ok])
  with e show ?thesis by (rule evolves_trans)
qed

lemma evolves_cancel_if_requested: "active_ok a \<Longrightarrow> cancel_if_requested sv a = (b, x) \<Longrightarrow> evolves a b"
proof -
  have p: "evolves a (a\<lparr>ag_pause := False\<rparr>)" by (rule evolves_quiet) simp_all
  show "active_ok a \<Longrightarrow> cancel_if_requested sv a = (b, x) \<Longrightarrow> evolves a b"
    unfolding cancel_if_requested_def pause_run_def Let_def
    by (auto split: if_splits intro: p evolves_complete_signal evolves_trans [OF p evolves_cancel])
qed

section \<open>Inputs\<close>

lemma evolves_stop_requested: "stop_requested sv a = (b, x) \<Longrightarrow> evolves a b"
  unfolding stop_requested_def by (auto split: prod.splits if_splits dest!: evolves_ask intro: evolves_trans)

lemma evolves_collect: "collect_steering sv a = (b, x) \<Longrightarrow> evolves a b"
  by (auto simp: collect_steering_def split: option.splits prod.splits)

lemma evolves_append_steering: "evolves a (append_steering sv u a)"
  by (auto simp: append_steering_def Let_def split: option.split intro!: evolves_append evolves_trans [OF evolves_append evolves_world])

lemma evolves_register: "register_reply sv u a = (b, x) \<Longrightarrow> evolves a b"
  by (auto simp: register_reply_def split: if_splits option.splits)

lemma evolves_acknowledge: "evolves a (acknowledge u a)"
  by (simp add: acknowledge_def split: option.split)

lemma evolves_apply_steering: "apply_steering sv phase u a = (b, x) \<Longrightarrow> evolves a b"
  unfolding apply_steering_def Let_def bind_action_def
  by (auto split: prod.splits sum.splits dest!: evolves_register
      intro: evolves_trans [OF evolves_trans [OF evolves_trans [OF evolves_basic(1) evolves_append_steering] evolves_basic(1)]]
        evolves_trans [OF _ evolves_trans [OF evolves_basic(2) evolves_acknowledge]])

lemma evolves_consume_steering: "consume_steering sv phase a = (b, x) \<Longrightarrow> evolves a b"
  unfolding consume_steering_def bind_action_def
  by (auto split: prod.splits sum.splits option.splits dest!: evolves_collect evolves_apply_steering intro: evolves_trans)

lemma evolves_take_report: "evolves a (take_report p a)"
  by (auto simp: take_report_def assistant_text_def intro!: evolves_trans [OF evolves_basic(1) evolves_new])

lemma evolves_reports: "consume_reports sv a = (b, x) \<Longrightarrow> evolves a b"
  unfolding consume_reports_def Let_def
  by (auto split: option.splits prod.splits if_splits intro: evolves_trans [OF evolves_world evolves_trans [OF evolves_fold evolves_basic(2)]] evolves_take_report)

lemma evolves_repairs: "evolves a (publish_repairs sv a)"
proof -
  have "evolves b (publish_repair v b)" for v b by (simp add: publish_repair_def evolves_basic split: pyval.split)
  then show ?thesis by (auto simp: publish_repairs_def split: option.split prod.split intro: evolves_trans [OF evolves_world evolves_fold])
qed

lemma evolves_pending: "evolves a (apply_pending sv a)" "evolves a (follow_mode a)" "evolves a (refresh_todo_finalization a)"
  by (rule evolves_quiet; simp add: apply_pending_def follow_mode_def refresh_todo_finalization_def Let_def split: option.split prod.split)+

lemma evolves_check_todo: "check_todo_finalization r s a = (b, x) \<Longrightarrow> evolves a b"
proof -
  have d: "evolves a (disclose r s t (a\<lparr>ag_todo := z\<rparr>)\<lparr>ag_suffix := y\<rparr>)" for t z y
  proof -
    have "evolves a (disclose r s t (a\<lparr>ag_todo := z\<rparr>))"
      by (rule evolves_trans [of _ "a\<lparr>ag_todo := z\<rparr>"], rule evolves_quiet)
        (auto simp: disclose_def Let_def message_step_def list_all2_same
          intro!: evolves_change evolves_trans [OF evolves_change evolves_trans [OF evolves_basic(1) evolves_trans [OF evolves_basic(1) evolves_basic(1)]]])
    then show ?thesis by (rule evolves_trans) (rule evolves_quiet; simp)
  qed
  have q: "evolves a (a\<lparr>ag_todo := z, ag_suffix := y\<rparr>)" "evolves a (a\<lparr>ag_suffix := y\<rparr>)" for z y
    by (rule evolves_quiet; simp)+
  show "check_todo_finalization r s a = (b, x) \<Longrightarrow> evolves a b"
    by (auto simp: check_todo_finalization_def Let_def split: option.splits prod.splits if_splits intro: d q)
qed

lemma evolves_finish: "(\<And>r. ag_active a = Some r \<Longrightarrow> done_ref a r) \<Longrightarrow> evolves a (finish_assistant sv a)"
  by (auto simp: finish_assistant_def split: option.split intro!: evolves_trans [OF evolves_append evolves_trans [OF evolves_basic(3) evolves_basic(2)]])

lemma fail_pending_active [simp]: "ag_active (fail_pending_tools r x c a) = ag_active a"
proof -
  have "ag_active (fold (closed_event x c) ts b) = ag_active b" for ts and b :: "'a agent"
    by (induction ts arbitrary: b) (auto simp: closed_event_def tool_failed_event_def publish_event_def split: option.split)
  then show ?thesis by (simp add: fail_pending_tools_def change_obj_def)
qed

text \<open>Closing what is open and putting the message into the history.\<close>

lemma evolves_close_and_finish:
  assumes "active_ok a" "ag_active a = Some r"
  shows "evolves a (finish_assistant sv (fail_pending_tools r x c a))"
  using assms by (intro evolves_trans [OF evolves_fail_pending evolves_finish]) (simp add: fail_pending_done active_ok_def)

lemma evolves_batch_reports: "active_ok a \<Longrightarrow> evolves a (apply_tool_batch_reports sv a)"
  by (auto simp: apply_tool_batch_reports_def split: option.split intro: evolves_close_and_finish evolves_quiet)

lemma evolves_batch_steering: "active_ok a \<Longrightarrow> apply_tool_batch_steering sv u n phase a = (b, x) \<Longrightarrow> evolves a b"
  unfolding apply_tool_batch_steering_def
  by (auto split: option.splits if_splits dest!: evolves_apply_steering intro: evolves_trans [OF evolves_close_and_finish] evolves_trans [OF evolves_basic(3)])

lemma evolves_steering_point: "active_ok a \<Longrightarrow> steering_point sv n phase a = (b, x) \<Longrightarrow> evolves a b"
  unfolding steering_point_def bind_action_def
  by (auto split: prod.splits sum.splits option.splits dest!: evolves_collect intro: evolves_trans evolves_batch_steering evolves_active)

lemma evolves_safe_point:
  assumes "active_ok a" "safe_point sv a = (b, x)"
  shows "evolves a b"
proof -
  obtain a1 stop where q: "cancel_if_requested sv a = (a1, stop)" by fastforce
  obtain a2 rp where p: "consume_reports sv a1 = (a2, rp)" by fastforce
  have e: "evolves a a1" "evolves a a2" using evolves_cancel_if_requested [OF assms(1) q] evolves_reports [OF p] by (auto intro: evolves_trans)
  then have "active_ok a2" using assms(1) evolves_active by blast
  then show ?thesis using assms(2) e by (auto simp: safe_point_def q p split: if_splits intro: evolves_trans [OF e(2) evolves_batch_reports])
qed

section \<open>Tool calls\<close>

text \<open>The runtime points at call \<open>i\<close> of message \<open>r\<close>.\<close>

definition points_at :: "'w agent \<Rightarrow> nat \<Rightarrow> nat \<Rightarrow> bool" where
  "points_at a r i \<longleftrightarrow> ag_active a = Some r \<and> ag_tool_index a = Some i \<and> r < length (ag_heap a) \<and> i < length (am_tools (obj a r))"

text \<open>The effect of a step: the state evolves and the message stays the active one.\<close>

definition step_effect :: "nat \<Rightarrow> nat \<Rightarrow> 'w agent \<Rightarrow> 'w agent \<Rightarrow> bool" where
  "step_effect r i a b \<longleftrightarrow> evolves a b \<and> points_at b r i"

lemma points_at_call: "points_at a r i \<Longrightarrow> current_call a = Some (r, i)"
  by (simp add: points_at_def current_call_def)

lemma evolves_length: "evolves a b \<Longrightarrow> r < length (ag_heap a) \<Longrightarrow> length (am_tools (obj b r)) = length (am_tools (obj a r)) \<and> r < length (ag_heap b)"
  by (auto simp: evolves_def heap_step_iff obj_def message_step_def list_all2_lengthD)

lemma step_effectI: "points_at a r i \<Longrightarrow> evolves a b \<Longrightarrow> ag_active b = ag_active a \<Longrightarrow> ag_tool_index b = ag_tool_index a \<Longrightarrow> step_effect r i a b"
  using evolves_length [of a b r] by (auto simp: step_effect_def points_at_def)

lemma step_effect_trans: "step_effect r i a b \<Longrightarrow> step_effect r i b c \<Longrightarrow> step_effect r i a c"
  using evolves_trans by (auto simp: step_effect_def)

lemma tool_done_evolves: "evolves a b \<Longrightarrow> r < length (ag_heap a) \<Longrightarrow> i < length (am_tools (obj a r)) \<Longrightarrow> tool_done (tool_at a r i) \<Longrightarrow> tool_done (tool_at b r i)"
  by (auto simp: evolves_def heap_step_iff tool_at_def obj_def message_step_def list_all2_conv_all_nth tool_step_def)

lemma change_tool_effect:
  assumes "points_at a r i" "tool_step (tool_at a r i) (f (tool_at a r i))"
  shows "step_effect r i a (change_tool r i f a)"
proof (rule step_effectI [OF assms(1)])
  show "evolves a (change_tool r i f a)"
    unfolding change_tool_def using assms
    by (intro evolves_change) (auto simp: message_step_def list_all2_conv_all_nth nth_list_update tool_at_def points_at_def)
qed (simp_all add: change_tool_def change_obj_def)

lemma change_tool_at: "points_at a r i \<Longrightarrow> tool_at (change_tool r i f a) r i = f (tool_at a r i)"
  by (simp add: points_at_def tool_at_def change_tool_def)

lemma tool_at_basic [simp]: "tool_at (save sv a) r i = tool_at a r i" "tool_at (publish_event k m d a) r i = tool_at a r i"
  by (simp_all add: tool_at_def obj_def basics)

lemma quiet_effect: "points_at a r i \<Longrightarrow> step_effect r i a (save sv (publish_event k m d a))" "points_at a r i \<Longrightarrow> step_effect r i a (publish_event k m d a)"
  by (erule step_effectI; (intro evolves_trans [OF evolves_basic(1) evolves_basic(2)] evolves_basic)?; simp add: basics)+

text \<open>A call that the user denied.\<close>

definition user_denied :: "ToolMessage \<Rightarrow> bool" where
  "user_denied t \<longleftrightarrow> tm_status t = Failed \<and> tm_failure_code t = Some USER_DENIED_FAILURE_CODE"

lemma step_failure_fails:
  "points_at a r i \<Longrightarrow> step_failure sv tool err retry a = (b, x) \<Longrightarrow>
     tm_status (tool_at b r i) = Failed \<and> tm_content (tool_at b r i) = Some err \<and> tm_retryable (tool_at b r i) = retry \<and> sr_interrupt x = None"
  by (auto simp: step_failure_def points_at_call Let_def change_tool_at failed_step_def)

lemma step_denied_fails:
  "points_at a r i \<Longrightarrow> step_denied sv r i tool d a = (b, x) \<Longrightarrow>
     user_denied (tool_at b r i) \<and> tm_content (tool_at b r i) \<noteq> None \<and> tm_retryable (tool_at b r i) = Some False \<and> sr_interrupt x = Some d"
  by (auto simp: step_denied_def Let_def change_tool_at failed_step_def user_denied_def)

text \<open>A call that a hook rejects fails with an error, for good; denied by the user, it says so.\<close>

lemma step_rejected_fails:
  assumes "points_at a r i" "step_rejected sv r i tool h a = (b, x)"
  shows "tm_status (tool_at b r i) = Failed \<and> tm_content (tool_at b r i) \<noteq> None \<and> tm_retryable (tool_at b r i) = Some False
    \<and> sr_interrupt x = Some (rejection h) \<and> (id_choice (rejection h) = ''deny'' \<longrightarrow> user_denied (tool_at b r i))"
proof (cases "id_choice (rejection h) = ''deny''")
  case True
  then show ?thesis using assms(2) step_denied_fails [OF assms(1), of sv tool "rejection h" b x] by (simp add: step_rejected_def user_denied_def)
next
  case False
  then obtain err where "b = fst (step_failure sv tool err (Some False) a)" "x = failed_step err (Some (rejection h)) (Some False)"
    using assms(2) by (auto simp: step_rejected_def Let_def)
  then show ?thesis using False step_failure_fails [OF assms(1), of sv tool err "Some False" b] by (metis (no_types, lifting) ToolStepResult.select_convs(4) failed_step_def option.distinct(1) prod.collapse)
qed

lemma step_failure_effect:
  assumes "points_at a r i" "step_failure sv tool err retry a = (b, x)"
  shows "step_effect r i a b" "tool_done (tool_at b r i)"
proof -
  let ?f = "\<lambda>t. t\<lparr>tm_status := Failed, tm_content := Some err, tm_retryable := retry\<rparr>"
  have c: "step_effect r i a (change_tool r i ?f a)"
    by (rule change_tool_effect [OF assms(1)]) (simp add: tool_step_def tool_done_def tool_wf_def)
  obtain k m d where b: "b = save sv (publish_event k m d (change_tool r i ?f a))"
    using assms by (auto simp: step_failure_def points_at_call Let_def)
  show "step_effect r i a b" unfolding b by (rule step_effect_trans [OF c quiet_effect(1)]) (use c in \<open>simp add: step_effect_def\<close>)
  show "tool_done (tool_at b r i)" unfolding b by (simp add: change_tool_at [OF assms(1)] tool_done_def)
qed

lemma step_denied_effect:
  assumes "points_at a r i" "step_denied sv r i tool d a = (b, x)"
  shows "step_effect r i a b" "tool_done (tool_at b r i)"
proof -
  let ?f = "\<lambda>t. t\<lparr>tm_status := Failed, tm_content := Some (''The user denied this '' @ tool @ '' tool call.''), tm_retryable := Some False, tm_failure_code := Some USER_DENIED_FAILURE_CODE\<rparr>"
  have c: "step_effect r i a (change_tool r i ?f a)"
    by (rule change_tool_effect [OF assms(1)]) (simp add: tool_step_def tool_done_def tool_wf_def)
  obtain k m e where b: "b = save sv (publish_event k m e (change_tool r i ?f a))"
    using assms(2) unfolding step_denied_def Let_def by blast
  show "step_effect r i a b" unfolding b by (rule step_effect_trans [OF c quiet_effect(1)]) (use c in \<open>simp add: step_effect_def\<close>)
  show "tool_done (tool_at b r i)" unfolding b by (simp add: change_tool_at [OF assms(1)] tool_done_def)
qed

lemma stop_requested_fields: "stop_requested sv a = (b, x) \<Longrightarrow> \<exists>w. b = a\<lparr>ag_world := w\<rparr>"
  unfolding stop_requested_def by (auto split: prod.splits if_splits dest!: ask_flag_cases)

lemma invoke_tool_effect:
  assumes "points_at a r i" "invoke_tool sv r i retry d a = (b, x)"
  shows "step_effect r i a b" "tool_done (tool_at b r i)"
proof -
  let ?t = "tool_at a r i"
  let ?a1 = "publish_event ''tool_call'' (tm_name ?t) [(''call_id'', PStr (tm_call_id ?t)), (''arguments'', PDict (tm_arguments ?t)), (''attempt'', PInt 1)] a"
  let ?v = "call_tool sv ?t d ?a1"
  let ?a2 = "?a1\<lparr>ag_world := iv_world ?v, ag_todo := iv_todo ?v, ag_pause := (ag_pause ?a1 \<or> iv_pause ?v)\<rparr>"
  have a2: "step_effect r i a ?a2"
    by (rule step_effectI [OF assms(1)]) (rule evolves_quiet, simp_all add: basics)
  obtain a3 stop where st: "stop_requested sv ?a2 = (a3, stop)" by fastforce
  have a3: "step_effect r i a a3"
  proof -
    obtain w where w: "a3 = ?a2\<lparr>ag_world := w\<rparr>" using stop_requested_fields [OF st] by blast
    show ?thesis unfolding w by (rule step_effectI [OF assms(1)]) (rule evolves_quiet, simp_all add: basics)
  qed
  let ?f = "\<lambda>result t. t\<lparr>tm_status := Succeeded, tm_content := Some result, tm_retryable := Some retry\<rparr>"
  let ?a4 = "\<lambda>result. change_tool r i (?f result) a3"
  let ?a5 = "\<lambda>result. (?a4 result)\<lparr>rn_completed_steps := rn_completed_steps (?a4 result) @ [length (rn_actions (?a4 result))]\<rparr>"
  have p2: "points_at ?a2 r i" and p3: "points_at a3 r i" using a2 a3 by (simp_all add: step_effect_def)
  have a4: "step_effect r i a3 (?a4 result)" for result
    by (rule change_tool_effect [OF p3]) (simp add: tool_step_def tool_done_def tool_wf_def)
  have a5: "step_effect r i a3 (?a5 result)" for result
    by (rule step_effect_trans [OF a4 step_effectI]) (use a4 in \<open>auto simp: step_effect_def intro: evolves_quiet\<close>)
  have d5: "tool_done (tool_at (?a5 result) r i)" for result
    using change_tool_at [OF p3, of "?f result"] by (simp add: tool_done_def tool_at_def obj_def)
  have "step_effect r i a b \<and> tool_done (tool_at b r i)"
  proof (cases "iv_result ?v")
    case (Inl err)
    then have "step_failure sv (tm_name ?t) err (Some retry) ?a2 = (b, x)" using assms(2) by (simp add: invoke_tool_def Let_def)
    from step_failure_effect [OF p2 this] a2 show ?thesis by (blast intro: step_effect_trans)
  next
    case (Inr result)
    show ?thesis
    proof (cases stop)
      case True
      then have "step_failure sv (tm_name ?t) (sv_redact sv ''Tool invocation cancelled.'') (Some retry) a3 = (b, x)"
        using assms(2) Inr st by (simp add: invoke_tool_def Let_def)
      from step_failure_effect [OF p3 this] a3 show ?thesis by (blast intro: step_effect_trans)
    next
      case False
      then obtain k m e where b: "b = save sv (publish_event k m e (?a5 result))" using assms(2) Inr st by (simp add: invoke_tool_def Let_def) blast
      have "points_at (?a5 result) r i" using a5 by (simp add: step_effect_def)
      then have "step_effect r i (?a5 result) b" unfolding b by (rule quiet_effect)
      with a3 a5 have "step_effect r i a b" by (meson step_effect_trans)
      moreover have "tool_done (tool_at b r i)" using d5 [of result] unfolding b by simp
      ultimately show ?thesis ..
    qed
  qed
  then show "step_effect r i a b" "tool_done (tool_at b r i)" by simp_all
qed

lemma run_hooks_fields: "run_hooks m c a = (b, x) \<Longrightarrow> \<exists>w evs. b = a\<lparr>ag_world := w, ag_events := evs\<rparr>"
  by (auto simp: run_hooks_def split: prod.splits)

lemma run_hooks_effect: "points_at a r i \<Longrightarrow> run_hooks m c a = (b, x) \<Longrightarrow> step_effect r i a b \<and> tool_at b r i = tool_at a r i"
  by (drule run_hooks_fields) (auto intro!: step_effectI evolves_quiet simp: tool_at_def obj_def)

lemma guarded_call_effect:
  assumes "points_at a r i" "guarded_call sv r i facts a = (b, x)"
  shows "step_effect r i a b \<and> (\<forall>y. x = Inr y \<longrightarrow> tool_done (tool_at b r i))"
proof -
  let ?t = "tool_at a r i"
  let ?c = "hook_context sv a ?t facts"
  obtain a1 h where h: "run_hooks (sv_before sv) ?c a = (a1, h)" by fastforce
  have e1: "step_effect r i a a1" using run_hooks_effect [OF assms(1) h] by simp
  then have p1: "points_at a1 r i" by (simp add: step_effect_def)
  show ?thesis
  proof (cases h)
    case (Inl e)
    then show ?thesis using assms(2) h e1 by (auto simp: guarded_call_def bind_action_def Let_def)
  next
    case (Inr before)
    obtain a2 res where rj: "step_rejected sv r i (tm_name ?t) before a1 = (a2, res)" by fastforce
    obtain a3 res3 where iv: "invoke_tool sv r i (tf_retryable facts) (granted_sandbox before) a1 = (a3, res3)" by fastforce
    have "\<exists>z. step_denied sv r i (tm_name ?t) (rejection before) a1 = (a2, z) \<or> (\<exists>err. step_failure sv (tm_name ?t) err (Some False) a1 = (a2, z))"
    proof (cases "id_choice (rejection before) = ''deny''")
      case True
      then show ?thesis using rj by (auto simp: step_rejected_def)
    next
      case False
      then obtain err where "a2 = fst (step_failure sv (tm_name ?t) err (Some False) a1)" using rj by (auto simp: step_rejected_def Let_def)
      then show ?thesis by (metis prod.collapse)
    qed
    then have e2: "step_effect r i a1 a2 \<and> tool_done (tool_at a2 r i)"
      by (auto dest: step_denied_effect [OF p1] step_failure_effect [OF p1])
    note e3 = invoke_tool_effect [OF p1 iv]
    then have p3: "points_at a3 r i" by (simp add: step_effect_def)
    obtain a4 h4 where h4: "run_hooks (sv_after sv) (?c\<lparr>tc_outcome := True\<rparr>) a3 = (a4, h4)" by fastforce
    have e4: "step_effect r i a3 a4" "tool_at a4 r i = tool_at a3 r i" using run_hooks_effect [OF p3 h4] by auto
    have "b = (if ho_decision before = RejectCall then a2 else a4)"
      using assms(2) h Inr rj iv h4 by (auto simp: guarded_call_def bind_action_def Let_def split: sum.splits if_splits)
    then show ?thesis using e1 e2 e3 e4 by (auto intro: step_effect_trans)
  qed
qed

lemma execute_step_effect:
  assumes "points_at a r i" "execute_step sv a = (b, x)"
  shows "step_effect r i a b \<and> (\<forall>y. x = Inr y \<longrightarrow> tool_done (tool_at b r i))"
proof -
  let ?a1 = "follow_mode (apply_pending sv a)"
  have e1: "step_effect r i a ?a1"
  proof (rule step_effectI [OF assms(1)])
    show "evolves a ?a1" by (rule evolves_trans [OF evolves_pending(1) evolves_pending(2)])
  qed (simp_all add: follow_mode_def apply_pending_def Let_def split: option.split prod.split)
  then have p1: "points_at ?a1 r i" by (simp add: step_effect_def)
  consider "b = ?a1" "\<exists>e. x = Inl e" | err y where "step_failure sv (tm_name (tool_at ?a1 r i)) err None ?a1 = (b, y)" | facts where "guarded_call sv r i facts ?a1 = (b, x)"
    using assms(2) points_at_call [OF p1] by (fastforce simp: execute_step_def Let_def split: if_splits sum.splits prod.splits)
  then show ?thesis
  proof cases
    case 1
    then show ?thesis using e1 by auto
  next
    case 2
    from step_failure_effect [OF p1 2] e1 show ?thesis by (blast intro: step_effect_trans)
  next
    case 3
    from guarded_call_effect [OF p1 3] e1 show ?thesis by (blast intro: step_effect_trans)
  qed
qed

text \<open>A step that ends with the user's denial leaves the call marked with it.\<close>

lemma invoke_tool_no_interrupt: "invoke_tool sv r i retry d a = (b, x) \<Longrightarrow> sr_interrupt x = None"
  by (auto simp: invoke_tool_def step_failure_def failed_step_def Let_def split: sum.splits prod.splits if_splits)

lemma guarded_call_denied:
  assumes "points_at a r i" "guarded_call sv r i facts a = (b, Inr y)" "sr_interrupt y = Some d" "id_choice d = ''deny''"
  shows "user_denied (tool_at b r i)"
proof -
  obtain a1 h where h: "run_hooks (sv_before sv) (hook_context sv a (tool_at a r i) facts) a = (a1, Inr h)"
    using assms(2) by (auto simp: guarded_call_def bind_action_Inr Let_def)
  have p1: "points_at a1 r i" using run_hooks_effect [OF assms(1) h] by (simp add: step_effect_def)
  have "ho_decision h = RejectCall"
    using assms(2,3) h by (auto simp: guarded_call_def bind_action_def Let_def split: if_splits prod.splits sum.splits dest: invoke_tool_no_interrupt)
  then have "step_rejected sv r i (tm_name (tool_at a r i)) h a1 = (b, y)"
    using assms(2) h by (auto simp: guarded_call_def bind_action_def Let_def split: prod.splits)
  from step_rejected_fails [OF p1 this] show ?thesis using assms(3,4) by simp
qed

lemma execute_step_denied:
  assumes "points_at a r i" "execute_step sv a = (b, Inr y)" "sr_interrupt y = Some d" "id_choice d = ''deny''"
  shows "user_denied (tool_at b r i)"
proof -
  let ?a1 = "follow_mode (apply_pending sv a)"
  have p1: "points_at ?a1 r i"
    using step_effectI [OF assms(1) evolves_trans [OF evolves_pending(1) evolves_pending(2)], of sv]
    by (simp add: step_effect_def follow_mode_def apply_pending_def Let_def split: option.splits prod.splits if_splits)
  have "\<exists>facts. guarded_call sv r i facts ?a1 = (b, Inr y)"
    using assms(2,3) points_at_call [OF p1]
    by (auto simp: execute_step_def Let_def step_failure_def failed_step_def split: if_splits sum.splits prod.splits)
  then show ?thesis using guarded_call_denied [OF p1 _ assms(3,4)] by blast
qed

end
