(* ===== verification/AgentProps.thy ===== *)
theory AgentProps
  imports AgentFrame
begin

text \<open>
  The properties of a turn: the budget of tool calls holds whatever the planner and the tools do; the calls of an answer are
  executed in order; what is in the history has all its tool results; the loop ends; the text stream is well bracketed; a
  rejected tool call is never invoked.
\<close>

section \<open>Batches\<close>

text \<open>Like \<open>evolves\<close>, but calls may have been executed and another message may have become the active one.\<close>

definition advances :: "'w agent \<Rightarrow> 'w agent \<Rightarrow> bool" where
  "advances a b \<longleftrightarrow> ag_max_tool_calls b = ag_max_tool_calls a \<and> ag_session_id b = ag_session_id a \<and> rn_turn_id b = rn_turn_id a
     \<and> heap_step (ag_heap a) (ag_heap b) \<and> (\<forall>r \<in> refs b. r \<in> refs a \<or> done_ref b r)"

lemma evolves_advances: "evolves a b \<Longrightarrow> advances a b"
  by (simp add: evolves_def advances_def)

lemma advances_done: "advances a b \<Longrightarrow> done_ref a r \<Longrightarrow> done_ref b r"
  unfolding advances_def done_ref_def obj_def by (metis heap_step_iff le_trans not_less message_step_done)

lemma advances_trans: "advances a b \<Longrightarrow> advances b c \<Longrightarrow> advances a c"
  using advances_done [of b c] unfolding advances_def by (metis heap_step_trans)

lemma signal_off:
  "cancel_signal sv a = (b, False) \<Longrightarrow> \<exists>w. b = a\<lparr>ag_world := w\<rparr>"
  "suspend_signal sv a = (b, False) \<Longrightarrow> \<exists>w. b = a\<lparr>ag_world := w\<rparr>"
  "complete_signal sv a = (b, False) \<Longrightarrow> \<exists>w. b = a\<lparr>ag_world := w\<rparr>"
proof -
  show c: "cancel_signal sv a = (b, False) \<Longrightarrow> \<exists>w. b = a\<lparr>ag_world := w\<rparr>" for a :: "'a agent"
    by (auto simp: cancel_signal_def split: prod.splits if_splits dest!: ask_flag_cases)
  show s: "suspend_signal sv a = (b, False) \<Longrightarrow> \<exists>w. b = a\<lparr>ag_world := w\<rparr>" for a :: "'a agent"
    by (auto simp: suspend_signal_def split: prod.splits if_splits dest!: ask_flag_cases c)
  show "complete_signal sv a = (b, False) \<Longrightarrow> \<exists>w. b = a\<lparr>ag_world := w\<rparr>"
    by (auto simp: complete_signal_def split: prod.splits if_splits dest!: ask_flag_cases s)
qed

lemma cancel_off: "cancel_if_requested sv a = (b, False) \<Longrightarrow> \<exists>w. b = a\<lparr>ag_world := w\<rparr>"
  by (auto simp: cancel_if_requested_def Let_def split: if_splits dest: signal_off)

lemma reports_off: "consume_reports sv a = (b, False) \<Longrightarrow> \<exists>w. b = a\<lparr>ag_world := w\<rparr>"
proof -
  assume *: "consume_reports sv a = (b, False)"
  have "a = a\<lparr>ag_world := ag_world a\<rparr>" by simp
  then show ?thesis using * by (auto simp: consume_reports_def Let_def split: option.splits if_splits prod.splits intro: exI [of _ "ag_world a"])
qed

lemma safe_point_off: "safe_point sv a = (b, None) \<Longrightarrow> \<exists>w. b = a\<lparr>ag_world := w\<rparr>"
  by (auto simp: safe_point_def split: prod.splits if_splits dest!: cancel_off reports_off)

lemma safe_point_on: "safe_point sv a = (b, Some e) \<Longrightarrow> e = Returned \<or> e = Steered"
  by (auto simp: safe_point_def split: prod.splits if_splits)

lemma collect_fields: "collect_steering sv a = (b, x) \<Longrightarrow> \<exists>w. b = a\<lparr>ag_world := w\<rparr>"
proof -
  assume *: "collect_steering sv a = (b, x)"
  have "a = a\<lparr>ag_world := ag_world a\<rparr>" by simp
  then show ?thesis using * by (auto simp: collect_steering_def split: option.splits prod.splits intro: exI [of _ "ag_world a"])
qed

lemma steering_off: "steering_point sv n phase a = (b, Inr False) \<Longrightarrow> \<exists>w. b = a\<lparr>ag_world := w\<rparr>"
  unfolding steering_point_def bind_action_Inr
  by (auto split: option.splits dest!: collect_fields simp: bind_action_Inr)

lemma recover_effect:
  assumes "points_at a r i" "tool_done (tool_at a r i)"
  shows "step_effect r i a (recover_tool r i outcome a)"
proof (cases "sr_success outcome")
  case False
  have c: "step_effect r i a (change_tool r i (\<lambda>t. t\<lparr>tm_content := Some e\<rparr>) a)" for e
    by (rule change_tool_effect [OF assms(1)]) (use assms(2) in \<open>simp add: tool_step_def tool_done_def tool_wf_def\<close>)
  show ?thesis using False
    by (auto simp: recover_tool_def Let_def publish_tool_recovery_def intro!: step_effect_trans [OF c quiet_effect(2)] c [unfolded step_effect_def, THEN conjunct2])
qed (simp add: recover_tool_def step_effect_def assms)

lemma interrupted_effect:
  assumes "active_ok a" "ag_active a = Some r" "interrupted sv r d a = (b, e)"
  shows "evolves a b \<and> (e = Denied \<or> e = Returned)"
proof -
  have f: "evolves a (clear_active (fail_pending_tools r x c a))" for x c
    by (rule evolves_trans [OF evolves_fail_pending evolves_basic(3)])
  show ?thesis using assms
    by (auto simp: interrupted_def Let_def split: if_splits intro: evolves_close_and_finish evolves_trans [OF f evolves_cancel] evolves_trans [OF f evolves_feedback])
qed

lemma execute_in_batch_effect:
  assumes "active_ok a" "ag_active a = Some r" "i < length (am_tools (obj a r))" "execute_in_batch sv r i a = (b, x)"
  shows "advances a b" "rn_actions b = rn_actions a @ [(r, i)]" "active_ok b" "\<And>y. x = Inr y \<Longrightarrow> points_at b r i \<and> tool_done (tool_at b r i)"
proof -
  let ?a = "a\<lparr>ag_tool_index := Some i, rn_actions := rn_actions a @ [(r, i)]\<rparr>"
  have p: "points_at ?a r i" using assms by (simp add: points_at_def active_ok_def obj_def)
  obtain c y where c: "execute_step sv ?a = (c, y)" by fastforce
  note e = execute_step_effect [OF p c]
  then have pc: "points_at c r i" by (simp add: step_effect_def)
  have okc: "active_ok c" using pc by (simp add: points_at_def active_ok_def)
  have x: "x = y" and b: "b = c \<or> (\<exists>m w. x = Inl m \<and> b = finish_assistant sv (fail_pending_tools r w None c))"
    using assms(4) c by (auto simp: execute_in_batch_def execute_tool_def split: sum.splits agent_exn.splits)
  have "evolves c (finish_assistant sv (fail_pending_tools r w None c))" for w
    using pc by (intro evolves_close_and_finish [OF okc]) (simp add: points_at_def)
  then have cb: "evolves c b" using b by auto
  then have ab: "evolves ?a b" using e by (auto simp: step_effect_def intro: evolves_trans)
  have "advances a ?a" by (simp add: advances_def refs_def)
  then show "advances a b" by (rule advances_trans) (rule evolves_advances [OF ab])
  show "rn_actions b = rn_actions a @ [(r, i)]" using ab by (simp add: evolves_def)
  show "active_ok b" by (rule evolves_active [OF cb okc])
  show "points_at b r i \<and> tool_done (tool_at b r i)" if "x = Inr y'" for y'
    using that b pc e x by auto
qed

lemma after_tool_effect:
  assumes p: "points_at a r i" and d: "tool_done (tool_at a r i)" and q: "after_tool sv r i outcome a = (b, x)"
  shows "evolves a b" "x = Inr None \<Longrightarrow> ag_active b = Some r" "x \<noteq> Inr (Some Finished)"
proof -
  have ok: "active_ok a" using p by (simp add: points_at_def active_ok_def)
  obtain a1 e where s: "safe_point sv a = (a1, e)" by fastforce
  have e1: "evolves a a1" by (rule evolves_safe_point [OF ok s])
  have "evolves a b \<and> (x = Inr None \<longrightarrow> ag_active b = Some r) \<and> x \<noteq> Inr (Some Finished)"
  proof (cases e)
    case (Some e')
    then show ?thesis using q s e1 safe_point_on [of sv a a1 e'] by (auto simp: after_tool_def)
  next
    case None
    then obtain w where a1: "a1 = a\<lparr>ag_world := w\<rparr>" using s safe_point_off by blast
    have p1: "points_at a1 r i" and d1: "tool_done (tool_at a1 r i)" using p d by (simp_all add: a1 points_at_def tool_at_def obj_def)
    have ok1: "active_ok a1" using p1 by (simp add: points_at_def active_ok_def)
    have act1: "ag_active a1 = Some r" using p1 by (simp add: points_at_def)
    show ?thesis
    proof (cases "sr_interrupt outcome")
      case (Some dec)
      obtain a2 e2 where i: "interrupted sv r dec a1 = (a2, e2)" by fastforce
      then show ?thesis using q s None Some interrupted_effect [OF ok1 act1 i] e1 by (auto simp: after_tool_def intro: evolves_trans)
    next
      case none: None
      obtain a2 z where t: "steering_point sv (Suc i) ''after_tool'' a1 = (a2, z)" by fastforce
      have e2: "evolves a1 a2" by (rule evolves_steering_point [OF ok1 t])
      show ?thesis
      proof (cases "z = Inr False")
        case True
        then obtain w' where a2: "a2 = a1\<lparr>ag_world := w'\<rparr>" using t steering_off by blast
        have p2: "points_at a2 r i" "tool_done (tool_at a2 r i)" using p1 d1 by (simp_all add: a2 points_at_def tool_at_def obj_def)
        have "b = recover_tool r i outcome a2 \<and> x = Inr None" using q s None none t True by (auto simp: after_tool_def bind_action_def)
        then show ?thesis using recover_effect [OF p2, of outcome] e1 e2 by (auto simp: step_effect_def points_at_def intro: evolves_trans)
      next
        case False
        then have "b = a2 \<and> x \<noteq> Inr None \<and> x \<noteq> Inr (Some Finished)" using q s None none t by (auto simp: after_tool_def bind_action_def split: sum.splits if_splits)
        then show ?thesis using e1 e2 by (auto intro: evolves_trans)
      qed
    qed
  qed
  then show "evolves a b" "x = Inr None \<Longrightarrow> ag_active b = Some r" "x \<noteq> Inr (Some Finished)" by auto
qed

lemma execute_in_batch_denied:
  assumes "active_ok a" "ag_active a = Some r" "i < length (am_tools (obj a r))" "execute_in_batch sv r i a = (b, Inr y)"
    and "sr_interrupt y = Some d" "id_choice d = ''deny''"
  shows "user_denied (tool_at b r i)"
proof -
  let ?a = "a\<lparr>ag_tool_index := Some i, rn_actions := rn_actions a @ [(r, i)]\<rparr>"
  have p: "points_at ?a r i" using assms by (simp add: points_at_def active_ok_def obj_def)
  have "execute_step sv ?a = (b, Inr y)"
    using assms(4) by (auto simp: execute_in_batch_def execute_tool_def split: prod.splits sum.splits agent_exn.splits)
  from execute_step_denied [OF p this assms(5,6)] show ?thesis .
qed

lemma denied_tool_stays:
  assumes "points_at a r i" "user_denied (tool_at a r i)"
  shows "user_denied (tool_at (finish_assistant sv (fail_pending_tools r why code a)) r i)"
proof -
  have heap: "ag_heap (finish_assistant sv b) = ag_heap b" for b :: "'a agent"
    by (simp add: finish_assistant_def save_def clear_active_def append_entry_def split: option.split)
  have "ag_heap (fold (closed_event why code) ts b) = ag_heap b" for ts and b :: "'a agent"
    by (induction ts arbitrary: b) (auto simp: closed_event_def tool_failed_event_def publish_event_def split: option.split)
  then have "ag_heap (fail_pending_tools r why code a) = ag_heap (change_obj r (settle_all (close_tool why code)) a)"
    by (simp add: fail_pending_tools_def)
  then have "tool_at (finish_assistant sv (fail_pending_tools r why code a)) r i = close_tool why code (tool_at a r i)"
    using assms(1) by (simp add: tool_at_def obj_def heap change_obj_def settle_all_def points_at_def)
  then show ?thesis using assms(2) by (simp add: close_tool_def user_denied_def)
qed

lemma after_tool_denied:
  assumes p: "points_at a r i" and q: "after_tool sv r i outcome a = (b, Inr (Some Denied))"
    and d: "\<And>dec. sr_interrupt outcome = Some dec \<Longrightarrow> id_choice dec = ''deny'' \<Longrightarrow> user_denied (tool_at a r i)"
  shows "user_denied (tool_at b r i)"
proof -
  obtain a1 e where s: "safe_point sv a = (a1, e)" by fastforce
  have none: "e = None" using q s safe_point_on [of sv a a1] by (cases e) (auto simp: after_tool_def)
  then obtain w where a1: "a1 = a\<lparr>ag_world := w\<rparr>" using s safe_point_off by blast
  then have p1: "points_at a1 r i" using p by (simp add: points_at_def obj_def)
  obtain dec where dec: "sr_interrupt outcome = Some dec" "interrupted sv r dec a1 = (b, Denied)"
    using q s none by (auto simp: after_tool_def bind_action_def split: option.splits prod.splits sum.splits if_splits)
  then have deny: "id_choice dec = ''deny''" by (auto simp: interrupted_def Let_def split: if_splits)
  then have "user_denied (tool_at a1 r i)" using d [OF dec(1)] by (simp add: a1 tool_at_def obj_def)
  from denied_tool_stays [OF p1 this] show ?thesis using dec(2) deny by (auto simp: interrupted_def Let_def)
qed

text \<open>One call of a batch: it is not made, or it is the last one, or the batch goes on behind it.\<close>

lemma tool_batch_step:
  assumes "tool_batch sv r (i # is) a = (b, x)" "active_ok a" "ag_active a = Some r" "i < length (am_tools (obj a r))"
  shows "evolves a b \<and> x \<noteq> Inr Finished \<and> x \<noteq> Inr Denied
     \<or> advances a b \<and> active_ok b \<and> rn_actions b = rn_actions a @ [(r, i)] \<and> x \<noteq> Inr Finished \<and> (x = Inr Denied \<longrightarrow> user_denied (tool_at b r i))
     \<or> (\<exists>c. tool_batch sv r is c = (b, x) \<and> advances a c \<and> active_ok c \<and> ag_active c = Some r \<and> rn_actions c = rn_actions a @ [(r, i)] \<and> tool_done (tool_at c r i))"
proof -
  obtain a1 e where s: "safe_point sv a = (a1, e)" by fastforce
  have e1: "evolves a a1" by (rule evolves_safe_point [OF assms(2) s])
  show ?thesis
  proof (cases e)
    case (Some e')
    then show ?thesis using assms(1) s e1 safe_point_on [of sv a a1 e'] by auto
  next
    case None
    then obtain w where a1: "a1 = a\<lparr>ag_world := w\<rparr>" using s safe_point_off by blast
    obtain a2 z where t: "steering_point sv i ''before_tool'' a1 = (a2, z)" by fastforce
    have ok1: "active_ok a1" using assms by (simp add: a1 active_ok_def)
    have e2: "evolves a a2" by (rule evolves_trans [OF e1 evolves_steering_point [OF ok1 t]])
    show ?thesis
    proof (cases "z = Inr False")
      case False
      then show ?thesis using assms(1) s None t e2 by (auto simp: bind_action_def split: sum.splits if_splits)
    next
      case True
      then obtain w' where a2: "a2 = a\<lparr>ag_world := w'\<rparr>" using t steering_off a1 by fastforce
      have ok2: "active_ok a2" "ag_active a2 = Some r" "i < length (am_tools (obj a2 r))" using assms by (simp_all add: a2 active_ok_def obj_def)
      obtain a3 y where x3: "execute_in_batch sv r i a2 = (a3, y)" by fastforce
      note e3 = execute_in_batch_effect [OF ok2 x3]
      have adv3: "advances a a3" using e3(1) by (simp add: a2 advances_def refs_def done_ref_def obj_def)
      have act3: "rn_actions a3 = rn_actions a @ [(r, i)]" using e3(2) by (simp add: a2)
      show ?thesis
      proof (cases y)
        case (Inl exn)
        then have "b = a3 \<and> x = Inl exn" using assms(1) s None t True x3 by (simp add: bind_action_def)
        then show ?thesis using adv3 act3 e3(3) by auto
      next
        case (Inr outcome)
        have p3: "points_at a3 r i" "tool_done (tool_at a3 r i)" using e3(4) [OF Inr] by auto
        obtain a4 v where x4: "after_tool sv r i outcome a3 = (a4, v)" by fastforce
        note e4 = after_tool_effect [OF p3 x4]
        have c4: "advances a a4" "active_ok a4" "rn_actions a4 = rn_actions a @ [(r, i)]" "tool_done (tool_at a4 r i)"
          using advances_trans [OF adv3 evolves_advances [OF e4(1)]] evolves_active [OF e4(1) e3(3)] e4(1) act3 p3
          by (auto simp: evolves_def points_at_def intro: tool_done_evolves [OF e4(1)])
        have den: "v = Inr (Some Denied) \<Longrightarrow> user_denied (tool_at a4 r i)"
          using after_tool_denied [OF p3(1), of sv outcome a4] x4 execute_in_batch_denied [OF ok2, of sv a3 outcome] x3 Inr by blast
        have "tool_batch sv r (i # is) a = (case v of Inl e \<Rightarrow> (a4, Inl e) | Inr (Some e) \<Rightarrow> (a4, Inr e) | Inr None \<Rightarrow> tool_batch sv r is a4)"
          using s None t True x3 x4 Inr by (simp add: bind_action_def split: sum.split option.split)
        then show ?thesis using assms(1) c4 e4(2,3) den by (auto split: sum.splits option.splits)
      qed
    qed
  qed
qed

text \<open>A batch executes its calls one after another from the first; when it finishes, all of them have results.\<close>

lemma tool_batch_effect:
  assumes "tool_batch sv r is a = (b, x)" "active_ok a" "ag_active a = Some r" "\<forall>i \<in> set is. i < length (am_tools (obj a r))"
  shows "advances a b \<and> active_ok b \<and> (\<exists>k \<le> length is. rn_actions b = rn_actions a @ map (Pair r) (take k is) \<and> (x = Inr Denied \<longrightarrow> 0 < k \<and> user_denied (tool_at b r (is ! (k - 1)))) \<and> (x = Inr Finished \<longrightarrow> k = length is))
     \<and> (x = Inr Finished \<longrightarrow> ag_active b = Some r \<and> (\<forall>i \<in> set is. tool_done (tool_at b r i)))"
  using assms
proof (induction "is" arbitrary: a)
  case Nil
  then show ?case by (auto simp: advances_def)
next
  case (Cons i "is")
  have i: "i < length (am_tools (obj a r))" and r: "r < length (ag_heap a)" using Cons.prems by (simp_all add: active_ok_def)
  from tool_batch_step [OF Cons.prems(1-3) i] consider (zero) "evolves a b" "x \<noteq> Inr Finished" "x \<noteq> Inr Denied"
    | (one) "advances a b" "active_ok b" "rn_actions b = rn_actions a @ [(r, i)]" "x \<noteq> Inr Finished" "x = Inr Denied \<longrightarrow> user_denied (tool_at b r i)"
    | (next_call) c where "tool_batch sv r is c = (b, x)" "advances a c" "active_ok c" "ag_active c = Some r" "rn_actions c = rn_actions a @ [(r, i)]" "tool_done (tool_at c r i)"
    by blast
  then show ?case
  proof cases
    case zero
    then show ?thesis using evolves_advances [OF zero(1)] evolves_active [OF zero(1) Cons.prems(2)] by (auto simp: evolves_def intro: exI [of _ 0])
  next
    case one
    then show ?thesis by (auto intro!: exI [of _ 1])
  next
    case (next_call c)
    have len: "length (am_tools (obj c r)) = length (am_tools (obj a r))" using next_call(2) r by (auto simp: advances_def heap_step_iff obj_def message_step_def list_all2_lengthD)
    have "\<forall>j \<in> set is. j < length (am_tools (obj c r))" using Cons.prems(4) len by simp
    note IH = Cons.IH [OF next_call(1,3,4) this]
    then obtain k where k: "k \<le> length is" "rn_actions b = rn_actions c @ map (Pair r) (take k is)" "x = Inr Denied \<longrightarrow> 0 < k \<and> user_denied (tool_at b r (is ! (k - 1)))" "x = Inr Finished \<longrightarrow> k = length is" by blast
    have "rn_actions b = rn_actions a @ map (Pair r) (take (Suc k) (i # is))" using k(2) next_call(5) by simp
    moreover have "tool_done (tool_at b r i)"
    proof -
      have "message_step (obj c r) (obj b r)" using IH next_call(3,4) by (auto simp: advances_def heap_step_iff obj_def active_ok_def)
      then show ?thesis using next_call(6) i len by (auto simp: message_step_def list_all2_conv_all_nth tool_step_def tool_at_def)
    qed
    moreover have "advances a b" using IH next_call(2) advances_trans by blast
    ultimately show ?thesis using IH k by (auto simp: nth_Cons' intro!: exI [of _ "Suc k"])
  qed
qed

section \<open>Rounds\<close>

text \<open>The invariant of the loop: the active message exists, the history is complete, every tool call has a result exactly when it is no
  longer pending, and the budget \<open>L\<close> holds.\<close>

definition sound :: "nat \<Rightarrow> 'w agent \<Rightarrow> bool" where
  "sound L a \<longleftrightarrow> active_ok a \<and> (\<forall>r \<in> refs a. done_ref a r) \<and> list_all message_wf (ag_heap a) \<and> length (rn_actions a) \<le> L \<and> ag_max_tool_calls a = L"

text \<open>The tool calls of an answer are \<open>ToolMessage\<close> objects, which are only built with a result when they are not pending.\<close>

definition planner_ok :: "('w agent \<Rightarrow> 'w answer) \<Rightarrow> bool" where
  "planner_ok f \<longleftrightarrow> (\<forall>a m. aw_result (f a) = Inr m \<longrightarrow> message_wf m)"

lemma advances_sound: "advances a b \<Longrightarrow> sound L a \<Longrightarrow> active_ok b \<Longrightarrow> length (rn_actions b) \<le> ag_max_tool_calls a \<Longrightarrow> sound L b"
  using advances_done [of a b] unfolding sound_def advances_def heap_step_iff list_all_length by (metis linorder_not_less message_step_wf)

lemma evolves_sound: "evolves a b \<Longrightarrow> sound L a \<Longrightarrow> sound L b"
  by (rule advances_sound [OF evolves_advances]) (auto simp: sound_def evolves_active, simp add: evolves_def)

lemma evolves_fail_for_budget: "evolves a (fail_for_budget sv t reason a)"
proof -
  have q: "evolves a (a\<lparr>ag_world := w, ag_events := evs\<rparr>)" for w evs by (rule evolves_quiet) simp_all
  have n: "am_tools m = []" if "finalizer_output sv res = Inr m" for res m
    using that by (auto simp: finalizer_output_def bind_result_Inr split: if_splits)
  show ?thesis
    by (auto simp: fail_for_budget_def Let_def split: option.split prod.split sum.split dest: n
        intro!: evolves_fail evolves_trans [OF q evolves_trans [OF evolves_repairs evolves_fail]]
          evolves_trans [OF q evolves_trans [OF evolves_new evolves_trans [OF evolves_basic(2) evolves_fail]]])
qed

lemma adopt_answer_evolves: "evolves a (adopt_answer an a)"
proof (cases "aw_history an")
  case (Some h)
  obtain summary n start where h: "h = (summary, n, start)" by (cases h)
  show ?thesis using Some by (auto simp: h adopt_answer_def evolves_def refs_def Let_def dest: in_set_dropD)
qed (simp add: adopt_answer_def)

lemma ask_planner_effect:
  assumes "planner_ok f" "ask_planner defer f a = (b, x)"
  shows "evolves a b" "\<And>r s. x = Inr (r, s) \<Longrightarrow> r < length (ag_heap b)" "ag_todo b = ag_todo a"
proof -
  obtain y evs where em: "emit_all defer (aw_output (f a)) new_stream = (y, evs)" by fastforce
  have t: "ag_todo (adopt_answer (f a) a) = ag_todo a" by (simp add: adopt_answer_def Let_def split: option.split prod.split)
  have "evolves a b \<and> (\<forall>r s. x = Inr (r, s) \<longrightarrow> r < length (ag_heap b)) \<and> ag_todo b = ag_todo a"
  proof (cases "aw_result (f a)")
    case (Inl e)
    then obtain z where "b = add_events z (adopt_answer (f a) a)" "x = Inl e" using assms(2) em by (auto simp: ask_planner_def Let_def split: prod.splits)
    then show ?thesis using t evolves_trans [OF adopt_answer_evolves evolves_basic(4)] by (simp add: add_events_def)
  next
    case (Inr m)
    have w: "message_wf m" using assms(1) Inr by (simp add: planner_ok_def)
    obtain z s where "b = add_events z (alloc m (adopt_answer (f a) a))" "x = Inr (length (ag_heap (adopt_answer (f a) a)), s)"
      using assms(2) em Inr by (auto simp: ask_planner_def Let_def split: prod.splits)
    then show ?thesis using t evolves_trans [OF adopt_answer_evolves evolves_trans [OF evolves_alloc [OF w] evolves_basic(4)]] by (simp add: add_events_def alloc_def)
  qed
  then show "evolves a b" "\<And>r s. x = Inr (r, s) \<Longrightarrow> r < length (ag_heap b)" "ag_todo b = ag_todo a" by auto
qed

lemma start_assistant_sound: "sound L a \<Longrightarrow> r < length (ag_heap a) \<Longrightarrow> sound L (start_assistant sv r a)"
  by (simp add: sound_def start_assistant_def save_def active_ok_def refs_def done_ref_def obj_def)

lemma start_assistant_advances: "advances a (start_assistant sv r a)"
  by (simp add: advances_def start_assistant_def save_def refs_def)

lemma run_batch_effect:
  assumes "sound L a" "r < length (ag_heap a)" "tool_batch_fits r a" "run_batch sv r a = (b, x)"
  shows "sound L b" "\<exists>k \<le> length (am_tools (obj a r)). rn_actions b = rn_actions a @ map (Pair r) [0..<k]
      \<and> (k = length (am_tools (obj a r)) \<or> x = Inr True \<or> (\<exists>e. x = Inl e) \<or> 0 < k \<and> user_denied (tool_at b r (k - 1))
         \<or> (\<exists>c. tool_batch sv r [0..<length (am_tools (obj a r))] (start_assistant sv r a) = (c, Inr Steered)))
      \<and> (x = Inr False \<longrightarrow> am_tools (obj a r) \<noteq> [] \<longrightarrow>
      0 < k \<or> (\<exists>c. tool_batch sv r [0..<length (am_tools (obj a r))] (start_assistant sv r a) = (c, Inr Steered)))" "advances a b"
proof -
  let ?s = "start_assistant sv r a"
  let ?n = "length (am_tools (obj a r))"
  have s: "active_ok ?s" "ag_active ?s = Some r" "rn_actions ?s = rn_actions a" "obj ?s r = obj a r"
    using assms(2) by (simp_all add: start_assistant_def save_def active_ok_def obj_def)
  obtain c e where t: "tool_batch sv r [0..<?n] ?s = (c, e)" by fastforce
  have B: "advances ?s c \<and> active_ok c \<and> (\<exists>k \<le> length [0..<?n]. rn_actions c = rn_actions ?s @ map (Pair r) (take k [0..<?n])
      \<and> (e = Inr Denied \<longrightarrow> 0 < k \<and> user_denied (tool_at c r ([0..<?n] ! (k - 1)))) \<and> (e = Inr Finished \<longrightarrow> k = length [0..<?n])) \<and> (e = Inr Finished \<longrightarrow> ag_active c = Some r \<and> (\<forall>i \<in> set [0..<?n]. tool_done (tool_at c r i)))"
    by (rule tool_batch_effect [OF t s(1,2)]) (simp add: s(4))
  then obtain k where "k \<le> length [0..<?n]" "rn_actions c = rn_actions ?s @ map (Pair r) (take k [0..<?n])" "e = Inr Denied \<longrightarrow> 0 < k \<and> user_denied (tool_at c r ([0..<?n] ! (k - 1)))" "e = Inr Finished \<longrightarrow> k = length [0..<?n]" by blast
  then have k: "k \<le> ?n" "rn_actions c = rn_actions a @ map (Pair r) [0..<k]" "e = Inr Denied \<longrightarrow> 0 < k \<and> user_denied (tool_at c r (k - 1))" "e = Inr Finished \<longrightarrow> k = ?n" by (auto simp: s(3) take_upt)
  have "length (rn_actions c) \<le> ag_max_tool_calls a" using k assms(3) by (simp add: tool_batch_fits_def)
  moreover have "ag_max_tool_calls ?s = ag_max_tool_calls a" by (simp add: start_assistant_def save_def)
  ultimately have sc: "sound L c" using B by (intro advances_sound [OF _ start_assistant_sound [OF assms(1,2)]]) auto
  have cb: "evolves c b"
  proof (cases "e = Inr Finished")
    case True
    have "length (am_tools (obj c r)) = ?n" using B assms(2) by (auto simp: advances_def heap_step_iff obj_def message_step_def list_all2_lengthD start_assistant_def save_def)
    then have "done_ref c r" using B True by (auto simp: done_ref_def active_ok_def message_done_def list_all_length tool_at_def)
    then have "evolves c (finish_assistant sv c)" using B True by (intro evolves_finish) auto
    then show ?thesis using assms(4) t True by (simp add: run_batch_def bind_action_def)
  next
    case False
    then have "b = c" using assms(4) t by (auto simp: run_batch_def bind_action_def split: sum.splits batch_end.splits)
    then show ?thesis by simp
  qed
  show "sound L b" by (rule evolves_sound [OF cb sc])
  have "e = Inr Finished \<or> e = Inr Denied \<or> e = Inr Steered" if "x = Inr False"
    using that assms(4) t by (auto simp: run_batch_def bind_action_def split: sum.splits batch_end.splits)
  then have "0 < k \<or> (\<exists>c. tool_batch sv r [0..<?n] ?s = (c, Inr Steered))" if "x = Inr False" "am_tools (obj a r) \<noteq> []"
    using that k t by auto
  moreover have "rn_actions b = rn_actions c" using cb by (simp add: evolves_def)
  moreover have "k = ?n \<or> x = Inr True \<or> (\<exists>e. x = Inl e) \<or> 0 < k \<and> user_denied (tool_at b r (k - 1)) \<or> (\<exists>c. tool_batch sv r [0..<?n] ?s = (c, Inr Steered))"
    using k(3,4) t assms(4) by (auto simp: run_batch_def bind_action_def split: sum.splits batch_end.splits)
  ultimately show "\<exists>k \<le> ?n. rn_actions b = rn_actions a @ map (Pair r) [0..<k]
      \<and> (k = ?n \<or> x = Inr True \<or> (\<exists>e. x = Inl e) \<or> 0 < k \<and> user_denied (tool_at b r (k - 1)) \<or> (\<exists>c. tool_batch sv r [0..<?n] ?s = (c, Inr Steered)))
      \<and> (x = Inr False \<longrightarrow> am_tools (obj a r) \<noteq> [] \<longrightarrow>
      0 < k \<or> (\<exists>c. tool_batch sv r [0..<?n] ?s = (c, Inr Steered)))" using k(1,2) by (intro exI [of _ k]) auto
  show "advances a b" using B start_assistant_advances cb by (blast intro: advances_trans evolves_advances)
qed

lemma use_response_sound:
  assumes "sound L a" "r < length (ag_heap a)" "use_response sv r retry s a = (b, x)"
  shows "sound L b"
proof -
  let ?s = "start_assistant sv r a"
  have act: "ag_active ?s = Some r" by (simp add: start_assistant_def save_def)
  have "evolves ?s (finish_assistant sv (fail_pending_tools r w None ?s))" for w
    using start_assistant_sound [OF assms(1,2)] act by (intro evolves_close_and_finish) (simp_all add: sound_def)
  then have rj: "sound L (reject_over_budget_tools sv r a)"
    unfolding reject_over_budget_tools_def Let_def
    by (intro evolves_sound [OF evolves_trans [OF _ evolves_fail_for_budget] start_assistant_sound [OF assms(1,2)]]) simp
  have "done_ref a r" if "am_tools (obj a r) = []" using that assms(2) by (simp add: done_ref_def message_done_def)
  then show ?thesis
    using assms rj run_batch_effect(1) [OF assms(1,2)] by (auto simp: use_response_def split: if_splits intro: evolves_sound [OF evolves_complete])
qed

lemma after_response_sound:
  assumes "sound L a" "r < length (ag_heap a)" "after_response sv r retry s a = (b, x)"
  shows "sound L b"
proof -
  obtain a1 stop where c: "cancel_if_requested sv a = (a1, stop)" by fastforce
  obtain a2 rp where p: "consume_reports sv a1 = (a2, rp)" by fastforce
  obtain a3 z where t: "consume_steering sv ''after_model_response'' a2 = (a3, z)" by fastforce
  have e: "evolves a a1" using c assms(1) by (auto simp: sound_def intro: evolves_cancel_if_requested)
  have e2: "evolves a a2" using e evolves_reports [OF p] by (rule evolves_trans)
  have e3: "evolves a a3" using e2 evolves_consume_steering [OF t] by (rule evolves_trans)
  have s: "sound L a1" "sound L a2" "sound L a3" "r < length (ag_heap a3)"
    using e e2 e3 assms(1,2) evolves_sound evolves_length [OF e3 assms(2)] by blast+
  show ?thesis
    using assms(3) c p t s use_response_sound [OF s(3,4)]
    by (auto simp: after_response_def bind_action_def split: if_splits sum.splits intro: evolves_sound [OF evolves_fail_pending])
qed

lemma handle_response_sound:
  assumes "sound L a" "r < length (ag_heap a)" "handle_response sv r st a = (b, x)"
  shows "sound L b"
proof -
  let ?a1 = "publish_repairs sv a"
  obtain a2 retry where t: "(if am_tools (obj ?a1 r) = [] then check_todo_finalization r (tx_content_streamed st) ?a1 else (?a1, False)) = (a2, retry)" by fastforce
  let ?a3 = "if retry then a2 else publish_assistant_message r st a2"
  have "evolves ?a1 a2" using t by (auto split: if_splits dest: evolves_check_todo)
  moreover have "evolves a2 ?a3" by (simp add: publish_assistant_message_def evolves_basic)
  ultimately have e: "evolves a ?a3" using evolves_repairs by (blast intro: evolves_trans)
  have q: "after_response sv r retry (tx_content_streamed st) ?a3 = (b, x)" using assms(3) t by (simp add: handle_response_def Let_def)
  show ?thesis using evolves_sound [OF e assms(1)] evolves_length [OF e assms(2)] by (intro after_response_sound [OF _ _ q]) auto
qed

lemma planning_failed_evolves: "active_ok a \<Longrightarrow> evolves a (planning_failed sv m d a)"
proof -
  assume ok: "active_ok a"
  obtain a1 stop where c: "cancel_if_requested sv (publish_repairs sv a) = (a1, stop)" by fastforce
  have "evolves a a1" by (rule evolves_trans [OF evolves_repairs evolves_cancel_if_requested [OF evolves_active [OF evolves_repairs ok] c]])
  then show ?thesis using c by (auto simp: planning_failed_def intro: evolves_trans evolves_fail)
qed

lemma decide_round_sound:
  assumes "planner_ok f" "sound L a" "decide_round sv f a = (b, x)"
  shows "sound L b"
proof -
  have "evolves a (claim_model_turn sv a)" by (rule evolves_quiet) (simp_all add: claim_model_turn_def save_def)
  then have s: "sound L (claim_model_turn sv a)" using assms(2) by (rule evolves_sound)
  obtain a2 res where q: "ask_planner (should_defer_todo_content (claim_model_turn sv a)) f (claim_model_turn sv a) = (a2, res)" by fastforce
  note e = ask_planner_effect [OF assms(1) q]
  have s2: "sound L a2" by (rule evolves_sound [OF e(1) s])
  show ?thesis
  proof (cases res)
    case (Inl err)
    then show ?thesis using assms(3) q s2 evolves_sound [OF planning_failed_evolves s2]
      by (cases err) (auto simp: decide_round_def Let_def sound_def)
  next
    case (Inr y)
    obtain r st where y: "y = (r, st)" by (cases y)
    have "handle_response sv r st a2 = (b, x)" using assms(3) q Inr y by (simp add: decide_round_def Let_def)
    then show ?thesis using handle_response_sound [OF s2] e(2) Inr y by blast
  qed
qed

lemma workflow_round_sound:
  assumes "planner_ok f" "sound L a" "workflow_round sv f a = (b, x)"
  shows "sound L b"
proof -
  let ?a1 = "refresh_todo_finalization (apply_pending sv a)"
  have e1: "evolves a ?a1" by (rule evolves_trans [OF evolves_pending(1) evolves_pending(3)])
  obtain c z where p: "consume_reports sv ?a1 = (c, z)" by fastforce
  obtain a2 stop where q: "cancel_if_requested sv c = (a2, stop)" by fastforce
  have e2: "evolves a c" using e1 evolves_reports [OF p] by (rule evolves_trans)
  have ok: "active_ok c" using evolves_active [OF e2] assms(2) by (simp add: sound_def)
  have e3: "evolves a a2" using e2 evolves_cancel_if_requested [OF ok q] by (rule evolves_trans)
  have s: "sound L ?a1" "sound L a2" using evolves_sound e1 e3 assms(2) by blast+
  then show ?thesis
    using assms(3) p q decide_round_sound [OF assms(1) s(2)] evolves_sound [OF evolves_fail_for_budget s(2)]
    by (auto simp: workflow_round_def Let_def ensure_tool_budget_def split: if_splits)
qed

lemma workflow_loop_sound: "planner_ok f \<Longrightarrow> sound L a \<Longrightarrow> workflow_loop n sv f a = Some (b, x) \<Longrightarrow> sound L b"
  by (induction n arbitrary: a) (auto split: prod.splits sum.splits bool.splits dest: workflow_round_sound)

end
