(* ===== verification/AgentTheorems.thy ===== *)
theory AgentTheorems
  imports AgentProps
begin

text \<open>
  The theorems about a turn and the runs that show them at work.
\<close>

section \<open>The loop ends\<close>

text \<open>Nobody sends messages or reports into the turn.\<close>

definition quiet :: "'w services \<Rightarrow> bool" where
  "quiet sv \<longleftrightarrow> sv_steering sv = None \<and> sv_reports sv = None"

lemma quiet_reports: "quiet sv \<Longrightarrow> consume_reports sv a = (a, False)"
  by (simp add: quiet_def consume_reports_def)

lemma quiet_collect: "quiet sv \<Longrightarrow> collect_steering sv a = (a, Inr None)"
  by (simp add: quiet_def collect_steering_def)

lemma quiet_steering: "quiet sv \<Longrightarrow> steering_point sv n phase a = (a, Inr False)" "quiet sv \<Longrightarrow> consume_steering sv phase a = (a, Inr False)"
  by (simp_all add: steering_point_def consume_steering_def bind_action_def quiet_collect)

lemma quiet_safe_point: "quiet sv \<Longrightarrow> safe_point sv a = (b, e) \<Longrightarrow> e \<noteq> Some Steered"
  by (auto simp: safe_point_def quiet_reports split: prod.splits if_splits)

lemma quiet_after_tool: "quiet sv \<Longrightarrow> after_tool sv r i outcome a = (b, x) \<Longrightarrow> x \<noteq> Inr (Some Steered)"
  unfolding after_tool_def
  by (auto simp: bind_action_def quiet_steering interrupted_def Let_def split: prod.splits option.splits if_splits dest: quiet_safe_point)

lemma quiet_batch: "quiet sv \<Longrightarrow> tool_batch sv r is a = (b, x) \<Longrightarrow> x \<noteq> Inr Steered"
proof (induction "is" arbitrary: a)
  case (Cons i "is")
  then show ?case
    by (auto simp: bind_action_def quiet_steering split: prod.splits option.splits sum.splits dest: quiet_safe_point quiet_after_tool)
qed auto

text \<open>What is left: two rounds for every call of the budget, and the round that finalises the todo list.\<close>

definition todo_rounds :: "'w agent \<Rightarrow> nat" where
  "todo_rounds a = (case turn_todo a of None \<Rightarrow> 0 | Some st \<Rightarrow> if finalization_pending a st then 1 else 0)"

definition rounds_left :: "'w agent \<Rightarrow> nat" where
  "rounds_left a = 2 * (ag_max_tool_calls a - length (rn_actions a)) + todo_rounds a"

lemma todo_rounds_le: "todo_rounds a \<le> 1"
  by (simp add: todo_rounds_def split: option.split)

lemma todo_rounds_cong: "ag_todo b = ag_todo a \<Longrightarrow> ag_session_id b = ag_session_id a \<Longrightarrow> rn_turn_id b = rn_turn_id a \<Longrightarrow> todo_rounds b = todo_rounds a"
  by (simp add: todo_rounds_def turn_todo_def finalization_pending_def split: option.split)

lemma repairs_todo [simp]: "ag_todo (publish_repairs sv a) = ag_todo a"
proof -
  have "ag_todo (fold publish_repair rs b) = ag_todo b" for rs and b :: "'a agent"
    by (induction rs arbitrary: b) (auto simp: publish_repair_def publish_event_def split: pyval.split)
  then show ?thesis by (simp add: publish_repairs_def split: option.split prod.split)
qed

text \<open>The retry for the todo list claims it.\<close>

lemma check_todo_retry:
  assumes "check_todo_finalization r s a = (b, True)"
  shows "todo_rounds a = 1" "todo_rounds b = 0" "evolves a b"
proof -
  show "evolves a b" by (rule evolves_check_todo [OF assms])
  show "todo_rounds a = 1" "todo_rounds b = 0"
    using assms by (auto simp: check_todo_finalization_def Let_def todo_rounds_def finalization_pending_def memory_finalization_claimed_def memory_claim_finalization_def
        turn_todo_def unfinished_todos_def split: option.splits prod.splits if_splits)
qed

lemma use_response_progress:
  assumes "quiet sv" "sound L a" "r < length (ag_heap a)" "use_response sv r retry s a = (b, Inr False)"
  shows "retry \<and> b = a \<or> am_tools (obj a r) \<noteq> [] \<and> rounds_left b < 2 * (L - length (rn_actions a))"
proof (cases "am_tools (obj a r) = []")
  case True
  then show ?thesis using assms(4) by (auto simp: use_response_def split: if_splits)
next
  case False
  then have fits: "tool_batch_fits r a" and run: "run_batch sv r a = (b, Inr False)"
    using assms(4) by (auto simp: use_response_def split: if_splits)
  note e = run_batch_effect [OF assms(2,3) fits run]
  from e(2) obtain k where k: "k \<le> length (am_tools (obj a r))" "rn_actions b = rn_actions a @ map (Pair r) [0..<k]" "0 < k"
    using False quiet_batch [OF assms(1)] by blast
  have "length (rn_actions b) \<le> L" "ag_max_tool_calls b = L" using e(1) by (simp_all add: sound_def)
  then show ?thesis using k False todo_rounds_le [of b] by (auto simp: rounds_left_def)
qed

lemma world_rounds: "rounds_left (a\<lparr>ag_world := w\<rparr>) = rounds_left a"
  by (simp add: rounds_left_def todo_rounds_cong [of "a\<lparr>ag_world := w\<rparr>" a])

lemma after_response_progress:
  assumes "quiet sv" "sound L a" "r < length (ag_heap a)" "after_response sv r retry s a = (b, Inr False)"
  shows "retry \<and> rounds_left b = rounds_left a \<or> am_tools (obj a r) \<noteq> [] \<and> rounds_left b < 2 * (L - length (rn_actions a))"
proof -
  obtain a1 stop where c: "cancel_if_requested sv a = (a1, stop)" by fastforce
  then have off: "\<not> stop" using assms(4) by (auto simp: after_response_def)
  then obtain w where a1: "a1 = a\<lparr>ag_world := w\<rparr>" using c cancel_off [of sv a a1] by auto
  have u: "use_response sv r retry s a1 = (b, Inr False)"
    using assms(1,4) c off by (auto simp: after_response_def quiet_reports quiet_steering bind_action_def)
  have "sound L a1" "r < length (ag_heap a1)" using evolves_sound [OF _ assms(2), of a1] assms(3) by (simp_all add: a1)
  from use_response_progress [OF assms(1) this u] show ?thesis by (auto simp: a1 world_rounds obj_def)
qed

lemma handle_response_progress:
  assumes "quiet sv" "sound L a" "r < length (ag_heap a)" "handle_response sv r st a = (b, Inr False)"
  shows "rounds_left b < rounds_left a"
proof -
  let ?a1 = "publish_repairs sv a"
  obtain a2 retry where t: "(if am_tools (obj ?a1 r) = [] then check_todo_finalization r (tx_content_streamed st) ?a1 else (?a1, False)) = (a2, retry)" by fastforce
  let ?a3 = "if retry then a2 else publish_assistant_message r st a2"
  have q: "after_response sv r retry (tx_content_streamed st) ?a3 = (b, Inr False)" using assms(4) t by (simp add: handle_response_def Let_def)
  have e1: "evolves a ?a1" by (rule evolves_repairs)
  have e2: "evolves ?a1 a2" using t by (auto split: if_splits dest: evolves_check_todo)
  have "evolves a2 ?a3" by (simp add: publish_assistant_message_def evolves_basic)
  with e1 e2 have e: "evolves a ?a3" by (blast intro: evolves_trans)
  note s = evolves_sound [OF e assms(2)] conjunct2 [OF evolves_length [OF e assms(3)]]
  have acts: "rn_actions ?a3 = rn_actions a" "ag_max_tool_calls ?a3 = L" "ag_max_tool_calls a = L"
    using e assms(2) by (simp_all add: evolves_def sound_def)
  have t1: "todo_rounds ?a1 = todo_rounds a" using e1 by (intro todo_rounds_cong) (simp_all add: evolves_def)
  from after_response_progress [OF assms(1) s q] show ?thesis
  proof
    assume *: "retry \<and> rounds_left b = rounds_left ?a3"
    then have "check_todo_finalization r (tx_content_streamed st) ?a1 = (a2, True)" using t by (auto split: if_splits)
    from check_todo_retry [OF this] * acts t1 show ?thesis by (simp add: rounds_left_def)
  next
    assume "am_tools (obj ?a3 r) \<noteq> [] \<and> rounds_left b < 2 * (L - length (rn_actions ?a3))"
    then show ?thesis using acts by (simp add: rounds_left_def)
  qed
qed

lemma workflow_round_progress:
  assumes "quiet sv" "planner_ok f" "sound L a" "workflow_round sv f a = (b, Inr False)"
  shows "rounds_left b < rounds_left a"
proof -
  let ?a1 = "refresh_todo_finalization (apply_pending sv a)"
  obtain a2 stop where q: "cancel_if_requested sv ?a1 = (a2, stop)" by fastforce
  have off: "\<not> stop" using assms(1,4) q by (auto simp: workflow_round_def Let_def quiet_reports split: if_splits)
  then obtain w where a2: "a2 = ?a1\<lparr>ag_world := w\<rparr>" using q cancel_off [of sv ?a1 a2] by auto
  let ?a3 = "claim_model_turn sv a2"
  have d: "decide_round sv f a2 = (b, Inr False)"
    using assms(1,4) q off by (auto simp: workflow_round_def Let_def quiet_reports ensure_tool_budget_def split: if_splits)
  have e1: "evolves a ?a1" by (rule evolves_trans [OF evolves_pending(1) evolves_pending(3)])
  have e3: "evolves a ?a3" by (rule evolves_trans [OF e1], rule evolves_quiet) (simp_all add: a2 claim_model_turn_def save_def)
  have todo3: "ag_todo ?a3 = ag_todo a"
    by (simp add: a2 claim_model_turn_def save_def refresh_todo_finalization_def apply_pending_def Let_def split: option.split prod.split)
  obtain a4 res where p: "ask_planner (should_defer_todo_content ?a3) f ?a3 = (a4, res)" by fastforce
  note e4 = ask_planner_effect [OF assms(2) p]
  have e: "evolves a a4" by (rule evolves_trans [OF e3 e4(1)])
  have "rounds_left a4 = rounds_left a"
    using e e4(3) todo3 todo_rounds_cong [of a4 a] by (simp add: evolves_def rounds_left_def)
  moreover obtain r st where res: "res = Inr (r, st)" and h: "handle_response sv r st a4 = (b, Inr False)"
    using d p by (auto simp: decide_round_def Let_def split: sum.splits planner_error.splits prod.splits)
  ultimately show ?thesis
    using handle_response_progress [OF assms(1) evolves_sound [OF e assms(3)] e4(2) [OF res] h] by simp
qed

lemma workflow_loop_total:
  assumes "quiet sv" "planner_ok f" "sound L a" "rounds_left a < n"
  shows "\<exists>b x. workflow_loop n sv f a = Some (b, x)"
  using assms(3,4)
proof (induction n arbitrary: a)
  case (Suc n)
  obtain c y where c: "workflow_round sv f a = (c, y)" by fastforce
  show ?case
  proof (cases "y = Inr False")
    case True
    have "rounds_left c < n" using workflow_round_progress [OF assms(1,2) Suc.prems(1)] c True Suc.prems(2) by fastforce
    with Suc.IH workflow_round_sound [OF assms(2) Suc.prems(1) c] c True show ?thesis by simp
  next
    case False
    then show ?thesis using c by (auto split: sum.split bool.split)
  qed
qed simp

text \<open>C3. A turn nobody interferes with ends: after at most two rounds for every tool call left in its budget and one for the
  todo list, the workflow has returned or raised, whatever the planner answers and the tools do.\<close>

theorem workflow_ends:
  assumes "quiet sv" "planner_ok f" "sound L a" "2 * (L - length (rn_actions a)) + 1 < n"
  shows "\<exists>b x. workflow_loop n sv f a = Some (b, x)"
  using assms(3,4) todo_rounds_le [of a] by (intro workflow_loop_total [OF assms(1-3)]) (simp add: rounds_left_def sound_def)

section \<open>Budget, order and history\<close>

text \<open>C1. However the planner and the tools behave, a turn never executes more tool calls than its budget, and the budget stays what it
  was.\<close>

theorem tool_budget_respected:
  assumes "planner_ok f" "sound L a" "workflow_loop n sv f a = Some (b, x)"
  shows "length (rn_actions b) \<le> L \<and> ag_max_tool_calls b = L"
  using workflow_loop_sound [OF assms] by (simp add: sound_def)

text \<open>C2. When the workflow leaves the loop, by returning or by an exception, every tool call of every assistant message in the
  history has a result: cancellation, denial, steering, reports and budget all close what they do not execute.\<close>

theorem history_has_results:
  assumes "planner_ok f" "sound L a" "workflow_loop n sv f a = Some (b, x)" "Obj r \<in> set (ag_messages b)"
  shows "r < length (ag_heap b) \<and> (\<forall>t \<in> set (am_tools (obj b r)). tm_status t \<noteq> Pending \<and> tm_content t \<noteq> None)"
proof -
  have s: "sound L b" by (rule workflow_loop_sound [OF assms(1-3)])
  then have d: "done_ref b r" using assms(4) by (simp add: sound_def refs_def)
  then have "message_wf (obj b r)" using s by (simp add: sound_def done_ref_def obj_def list_all_length)
  then show ?thesis using d by (auto simp: done_ref_def message_done_def message_wf_def list_all_iff tool_done_def tool_wf_def)
qed

section \<open>How a turn ends\<close>

text \<open>A run has its outcome, or it was handed back with feedback of the user.\<close>

definition ended :: "'w agent \<Rightarrow> bool" where
  "ended a \<longleftrightarrow> rn_status a \<noteq> ''running'' \<or> (ag_events a \<noteq> [] \<and> ev_kind (last (ag_events a)) = ''feedback_received'')"

lemma outcome_status [simp]:
  "rn_status (fail_run v d a) = ''failed''" "rn_status (cancel_run z m a) = ''cancelled''" "rn_status (complete_run r f k s a) = ''completed''"
  "rn_status (pause_run a) = ''cancelled''" "rn_status (complete_requested_run a) = ''completed''"
  by (simp_all add: fail_run_def cancel_run_def complete_run_def publish_event_def pause_run_def complete_requested_run_def Let_def)

lemma cancel_on:
  assumes "cancel_if_requested sv a = (b, True)"
  shows "rn_status b \<noteq> ''running''"
  using assms
  by (auto simp: cancel_if_requested_def complete_signal_def suspend_signal_def cancel_signal_def Let_def split: if_splits prod.splits)

lemma fail_pending_status [simp]: "rn_status (fail_pending_tools r x c a) = rn_status a"
proof -
  have "rn_status (fold (closed_event x c) ts b) = rn_status b" for ts and b :: "'a agent"
    by (induction ts arbitrary: b) (auto simp: closed_event_def tool_failed_event_def publish_event_def split: option.split)
  then show ?thesis by (simp add: fail_pending_tools_def change_obj_def)
qed

lemma feedback_ended: "ended (record_plan_feedback sv s a)"
  by (simp add: ended_def record_plan_feedback_def Let_def save_def publish_event_def)

lemma safe_point_returned: "safe_point sv a = (b, Some Returned) \<Longrightarrow> ended b"
  by (auto simp: safe_point_def ended_def split: prod.splits if_splits dest: cancel_on)

lemma interrupted_returned: "interrupted sv r d a = (b, Returned) \<Longrightarrow> ended b"
  by (auto simp: interrupted_def Let_def feedback_ended split: if_splits) (simp add: ended_def)

lemma after_tool_returned:
  assumes "after_tool sv r i outcome a = (b, Inr (Some Returned))"
  shows "ended b"
proof -
  obtain a1 e where s: "safe_point sv a = (a1, e)" by fastforce
  show ?thesis
  proof (cases e)
    case (Some e')
    then show ?thesis using assms s safe_point_returned by (auto simp: after_tool_def)
  next
    case None
    then show ?thesis using assms s
      by (cases "sr_interrupt outcome") (auto simp: after_tool_def bind_action_def split: prod.splits sum.splits if_splits dest: interrupted_returned)
  qed
qed

lemma tool_batch_returned: "tool_batch sv r is a = (b, Inr Returned) \<Longrightarrow> ended b"
proof (induction "is" arbitrary: a)
  case (Cons i "is")
  obtain a1 e where s: "safe_point sv a = (a1, e)" by fastforce
  show ?case
  proof (cases e)
    case (Some e')
    then show ?thesis using Cons.prems s safe_point_returned by auto
  next
    case None
    then obtain outcome a3 a4 stop where "after_tool sv r i outcome a3 = (a4, Inr stop)" "(case stop of Some e \<Rightarrow> (a4, Inr e) | None \<Rightarrow> tool_batch sv r is a4) = (b, Inr Returned)"
      using Cons.prems s by (auto simp: bind_action_Inr split: if_splits)
    then show ?thesis using Cons.IH after_tool_returned by (auto split: option.splits)
  qed
qed simp

lemma fail_for_budget_status [simp]: "rn_status (fail_for_budget sv t reason a) = ''failed''"
  by (simp add: fail_for_budget_def Let_def split: option.split prod.split sum.split)

lemma run_batch_ended: "run_batch sv r a = (b, Inr True) \<Longrightarrow> ended b"
proof -
  assume *: "run_batch sv r a = (b, Inr True)"
  then obtain c e where "tool_batch sv r [0..<length (am_tools (obj a r))] (start_assistant sv r a) = (c, Inr e)" by (auto simp: run_batch_def bind_action_Inr)
  with * show ?thesis by (cases e) (auto simp: run_batch_def bind_action_def dest: tool_batch_returned)
qed








lemma use_response_ended: "use_response sv r retry s a = (b, Inr True) \<Longrightarrow> ended b"
  by (auto simp: use_response_def ended_def reject_over_budget_tools_def Let_def split: if_splits dest: run_batch_ended [unfolded ended_def])

lemma after_response_ended: "after_response sv r retry s a = (b, Inr True) \<Longrightarrow> ended b"
  by (auto simp: after_response_def bind_action_Inr split: prod.splits if_splits dest: use_response_ended cancel_on) (auto simp: ended_def dest: cancel_on)

lemma planning_failed_ended: "ended (planning_failed sv m d a)"
  by (auto simp: planning_failed_def ended_def split: prod.splits dest: cancel_on)

lemma decide_round_ended: "decide_round sv f a = (b, Inr True) \<Longrightarrow> ended b"
  by (auto simp: decide_round_def handle_response_def Let_def planning_failed_ended split: prod.splits sum.splits planner_error.splits dest: after_response_ended)

lemma workflow_round_ended:
  assumes "workflow_round sv f a = (b, Inr True)"
  shows "ended b"
  using assms
  by (auto simp: workflow_round_def Let_def ensure_tool_budget_def split: prod.splits if_splits dest: decide_round_ended cancel_on)
    (auto simp: ended_def dest: cancel_on)

text \<open>C16. A workflow that returns has completed, failed or cancelled the run, unless an interrupt handed back feedback.\<close>

theorem workflow_outcome:
  assumes "workflow_loop n sv f a = Some (b, Inr ())"
  shows "rn_status b \<noteq> ''running'' \<or> (ag_events b \<noteq> [] \<and> ev_kind (last (ag_events b)) = ''feedback_received'')"
proof -
  have "ended b" using assms
    by (induction n arbitrary: a) (auto split: prod.splits sum.splits bool.splits dest: workflow_round_ended)
  then show ?thesis by (simp add: ended_def)
qed

section \<open>Tool calls and their approval\<close>

text \<open>The tools a service bundle offers can be replaced.\<close>

definition with_tools :: "(string \<Rightarrow> pydict \<Rightarrow> tool_context \<Rightarrow> 'w \<Rightarrow> memory_todo option \<Rightarrow> 'w invocation) \<Rightarrow>
    ((string \<Rightarrow> bool) \<times> (string \<Rightarrow> pydict \<Rightarrow> 'w agent \<Rightarrow> 'w invocation)) option \<Rightarrow> 'w services \<Rightarrow> 'w services" where
  "with_tools invoke agents sv = sv\<lparr>sv_invoke := invoke, sv_subagents := agents\<rparr>"

lemma step_rejected_with_tools: "step_rejected (with_tools g h sv) = step_rejected sv"
  by (simp add: fun_eq_iff step_rejected_def step_denied_def step_failure_def save_def with_tools_def)

lemma rejected_not_invoked:
  assumes "run_hooks (sv_before sv) (hook_context sv a (tool_at a r i) facts) a = (c, Inr before)" "ho_decision before = RejectCall"
  shows "guarded_call (with_tools g h sv) r i facts a = guarded_call sv r i facts a"
proof -
  have "sv_before (with_tools g h sv) = sv_before sv" "hook_context (with_tools g h sv) = hook_context sv"
    by (simp_all add: with_tools_def fun_eq_iff hook_context_def)
  then show ?thesis using assms by (simp add: guarded_call_def bind_action_def Let_def step_rejected_with_tools)
qed

text \<open>C4. A tool call that needs the user's approval and does not get it is never made: with the sandbox operation first among the
  hooks, the step is the same whatever the tool would do, it does not succeed, and the call is left with the status failed, an
  error as its content and marked as not to be retried.\<close>

theorem unapproved_tool_never_invoked:
  assumes "hm_operations (sv_before sv) = sandbox_hook h msg # others" "requires_approval (hook_context sv a (tool_at a r i) facts)"
    and "\<And>f. sv_interrupt sv = Some f \<Longrightarrow> id_choice (f (approval_interrupt (hook_context sv a (tool_at a r i) facts))) \<noteq> ''continue''"
    and "points_at a r i"
  shows "guarded_call (with_tools g k sv) r i facts a = guarded_call sv r i facts a
    \<and> (\<exists>b res. guarded_call sv r i facts a = (b, Inr res) \<and> \<not> sr_success res
        \<and> tm_status (tool_at b r i) = Failed \<and> tm_content (tool_at b r i) \<noteq> None \<and> tm_retryable (tool_at b r i) = Some False)"
proof -
  let ?c = "hook_context sv a (tool_at a r i) facts"
  have "\<not> tc_outcome ?c" "tc_interrupt ?c = sv_interrupt sv" by (simp_all add: hook_context_def)
  then obtain acts evs before where "execute_hooks (sv_before sv) ?c (ag_world a) = (ag_world a @ acts, evs, Inr before)" "ho_decision before = RejectCall"
    using refused_call_stops_hooks [OF assms(1,2), of "ag_world a"] assms(3) by metis
  then have hooks: "run_hooks (sv_before sv) ?c a = (a\<lparr>ag_world := ag_world a @ acts, ag_events := ag_events a @ evs\<rparr>, Inr before)" (is "_ = (?d, _)")
    by (simp add: run_hooks_def)
  obtain b res where rj: "step_rejected sv r i (tm_name (tool_at a r i)) before ?d = (b, res)" by fastforce
  have run: "guarded_call sv r i facts a = (b, Inr res)"
    using hooks rj \<open>ho_decision before = RejectCall\<close> by (simp add: guarded_call_def bind_action_def Let_def)
  have "\<not> sr_success res" using rj by (auto simp: step_rejected_def step_denied_def failed_step_def Let_def split: if_splits)
  moreover have "points_at ?d r i" using run_hooks_effect [OF assms(4) hooks] by (simp add: step_effect_def)
  from step_rejected_fails [OF this rj] have "tm_status (tool_at b r i) = Failed" "tm_content (tool_at b r i) \<noteq> None" "tm_retryable (tool_at b r i) = Some False"
    by simp_all
  ultimately show ?thesis using run rejected_not_invoked [OF hooks \<open>ho_decision before = RejectCall\<close>] by blast
qed

section \<open>The text stream\<close>

text \<open>A reader of the stream: outside, in the reasoning or in the response. \<open>None\<close> is an event out of place; other events are
  passed over.\<close>

datatype reading = Outside | Thinking | Responding

fun read_event :: "string \<Rightarrow> reading \<Rightarrow> reading option" where
  "read_event kind q =
     (if kind = ''thinking_start'' then (if q = Outside then Some Thinking else None)
      else if kind = ''thinking_delta'' then (if q = Thinking then Some Thinking else None)
      else if kind = ''thinking_end'' then (if q = Thinking then Some Outside else None)
      else if kind = ''response_start'' then (if q = Outside then Some Responding else None)
      else if kind = ''response_delta'' then (if q = Responding then Some Responding else None)
      else if kind = ''response_end'' then (if q = Responding then Some Outside else None)
      else Some q)"

fun read_events :: "RuntimeEvent list \<Rightarrow> reading \<Rightarrow> reading option" where
  "read_events [] q = Some q"
| "read_events (e # es) q = (case read_event (ev_kind e) q of None \<Rightarrow> None | Some q' \<Rightarrow> read_events es q')"

definition STREAM_KINDS :: "string list" where
  "STREAM_KINDS = [''thinking_start'', ''thinking_delta'', ''thinking_end'', ''response_start'', ''response_delta'', ''response_end'']"

text \<open>The events the planner publishes itself are not those of the stream.\<close>

definition own_events_ok :: "emission list \<Rightarrow> bool" where
  "own_events_ok es \<longleftrightarrow> (\<forall>ev. Emit ev \<in> set es \<longrightarrow> ev_kind ev \<notin> set STREAM_KINDS)"

definition at_stream :: "stream \<Rightarrow> reading" where
  "at_stream x = (if tx_reasoning_open x then Thinking else if tx_response_open x then Responding else Outside)"

definition one_open :: "stream \<Rightarrow> bool" where
  "one_open x \<longleftrightarrow> \<not> (tx_reasoning_open x \<and> tx_response_open x)"

lemma read_events_append: "read_events (es @ fs) q = (case read_events es q of None \<Rightarrow> None | Some q' \<Rightarrow> read_events fs q')"
  by (induction es arbitrary: q) (auto split: option.split)

lemma emit_one_reads:
  assumes "emit_one defer e x = (y, evs)" "one_open x" "\<And>ev. e = Emit ev \<Longrightarrow> ev_kind ev \<notin> set STREAM_KINDS"
  shows "one_open y \<and> read_events evs (at_stream x) = Some (at_stream y)"
proof (cases e)
  case (Emit ev)
  then have "ev_kind ev \<notin> set STREAM_KINDS" by (rule assms(3))
  then show ?thesis using assms(1,2) Emit by (auto simp: emit_one_def STREAM_KINDS_def)
qed (use assms in \<open>auto simp: emit_one_def on_reasoning_def on_content_def close_response_def close_reasoning_def one_open_def at_stream_def plain_event_def Let_def split: if_splits\<close>)

lemma emit_all_reads: "emit_all defer es x = (y, evs) \<Longrightarrow> one_open x \<Longrightarrow> own_events_ok es \<Longrightarrow> one_open y \<and> read_events evs (at_stream x) = Some (at_stream y)"
proof (induction es arbitrary: x evs)
  case (Cons e es)
  obtain x1 e1 where 1: "emit_one defer e x = (x1, e1)" by fastforce
  obtain e2 where 2: "emit_all defer es x1 = (y, e2)" "evs = e1 @ e2" using Cons.prems(1) 1 by (auto split: prod.splits)
  have "one_open x1 \<and> read_events e1 (at_stream x) = Some (at_stream x1)"
    by (rule emit_one_reads [OF 1 Cons.prems(2)]) (use Cons.prems(3) in \<open>auto simp: own_events_ok_def\<close>)
  moreover have "own_events_ok es" using Cons.prems(3) by (auto simp: own_events_ok_def)
  ultimately show ?case using Cons.IH [OF 2(1)] by (simp add: 2(2) read_events_append)
qed auto

lemma deltas_read: "read_events (map (plain_event ''response_delta'') cs) Responding = Some Responding"
  by (induction cs) (simp_all add: plain_event_def)

lemma close_stream_reads: "close_stream defer p x = (y, evs) \<Longrightarrow> one_open x \<Longrightarrow> read_events evs (at_stream x) = Some Outside"
  by (auto simp: close_stream_def close_reasoning_def close_response_def one_open_def at_stream_def plain_event_def read_events_append deltas_read
      split: if_splits)

text \<open>The text a reader collects from the response.\<close>

definition response_text :: "RuntimeEvent list \<Rightarrow> string" where
  "response_text evs = concat (map ev_message (filter (\<lambda>e. ev_kind e = ''response_delta'') evs))"

definition content_of_output :: "emission list \<Rightarrow> string" where
  "content_of_output es = concat (map (\<lambda>e. case e of Content s \<Rightarrow> s | _ \<Rightarrow> []) es)"

lemma response_text_append [simp]: "response_text (es @ fs) = response_text es @ response_text fs"
  by (simp add: response_text_def)

text \<open>Content that is not deferred is published as it comes; deferred content is kept. The flag says whether any was published.\<close>

lemma emit_one_text:
  assumes "emit_one defer e x = (y, evs)" "\<And>ev. e = Emit ev \<Longrightarrow> ev_kind ev \<notin> set STREAM_KINDS"
  shows "response_text evs = (if defer then [] else content_of_output [e])"
    "concat (tx_deferred y) = concat (tx_deferred x) @ (if defer then content_of_output [e] else [])"
    "tx_response_open x \<longrightarrow> tx_content_streamed x \<Longrightarrow> tx_response_open y \<longrightarrow> tx_content_streamed y"
    "tx_response_open x \<longrightarrow> tx_content_streamed x \<Longrightarrow> tx_content_streamed y \<longleftrightarrow> tx_content_streamed x \<or> response_text evs \<noteq> []"
proof -
  have "ev_kind ev \<noteq> ''response_delta''" if "e = Emit ev" for ev using assms(2) [OF that] by (auto simp: STREAM_KINDS_def)
  then show "response_text evs = (if defer then [] else content_of_output [e])"
    "concat (tx_deferred y) = concat (tx_deferred x) @ (if defer then content_of_output [e] else [])"
    "tx_response_open x \<longrightarrow> tx_content_streamed x \<Longrightarrow> tx_response_open y \<longrightarrow> tx_content_streamed y"
    "tx_response_open x \<longrightarrow> tx_content_streamed x \<Longrightarrow> tx_content_streamed y \<longleftrightarrow> tx_content_streamed x \<or> response_text evs \<noteq> []"
    using assms(1) by (auto simp: emit_one_def on_reasoning_def on_content_def close_response_def close_reasoning_def plain_event_def Let_def response_text_def content_of_output_def
        split: if_splits emission.splits)
qed

lemma emit_all_text:
  assumes "emit_all defer es x = (y, evs)" "own_events_ok es" "tx_response_open x \<longrightarrow> tx_content_streamed x"
  shows "response_text evs = (if defer then [] else content_of_output es) \<and> concat (tx_deferred y) = concat (tx_deferred x) @ (if defer then content_of_output es else [])
    \<and> (tx_content_streamed y \<longleftrightarrow> tx_content_streamed x \<or> response_text evs \<noteq> [])"
  using assms
proof (induction es arbitrary: x evs)
  case (Cons e es)
  obtain x1 e1 where 1: "emit_one defer e x = (x1, e1)" by fastforce
  obtain e2 where 2: "emit_all defer es x1 = (y, e2)" "evs = e1 @ e2" using Cons.prems(1) 1 by (auto split: prod.splits)
  have ok: "own_events_ok es" "\<And>ev. e = Emit ev \<Longrightarrow> ev_kind ev \<notin> set STREAM_KINDS" using Cons.prems(2) by (auto simp: own_events_ok_def)
  have split: "content_of_output (e # es) = content_of_output [e] @ content_of_output es" by (simp add: content_of_output_def)
  note one = emit_one_text [OF 1 ok(2)]
  show ?case using Cons.IH [OF 2(1) ok(1) one(3)] one Cons.prems(3) by (auto simp: 2(2) split)
qed (auto simp: response_text_def content_of_output_def)

lemma deltas_text [simp]: "response_text (map (plain_event ''response_delta'') cs) = concat cs"
  by (induction cs) (simp_all add: response_text_def plain_event_def)

lemma deferred_nonempty: "emit_all defer es x = (y, evs) \<Longrightarrow> [] \<notin> set (tx_deferred x) \<Longrightarrow> [] \<notin> set (tx_deferred y)"
proof (induction es arbitrary: x evs)
  case (Cons e es)
  obtain x1 e1 where 1: "emit_one defer e x = (x1, e1)" by fastforce
  have "[] \<notin> set (tx_deferred x1)"
    using 1 Cons.prems(2) by (auto simp: emit_one_def on_reasoning_def on_content_def close_response_def close_reasoning_def Let_def split: emission.splits if_splits)
  then show ?case using Cons 1 by (auto split: prod.splits)
qed auto

lemma response_text_Cons: "response_text (e # es) = (if ev_kind e = ''response_delta'' then ev_message e else []) @ response_text es" "response_text [] = []"
  by (simp_all add: response_text_def)

lemma plain_event_fields: "ev_kind (plain_event k m) = k" "ev_message (plain_event k m) = m"
  by (simp_all add: plain_event_def)

lemma close_parts_text:
  "close_reasoning x = (y, evs) \<Longrightarrow> response_text evs = [] \<and> tx_deferred y = tx_deferred x \<and> tx_content_streamed y = tx_content_streamed x"
  "close_response x = (y, evs) \<Longrightarrow> response_text evs = [] \<and> tx_deferred y = tx_deferred x \<and> tx_content_streamed y = tx_content_streamed x"
  by (auto simp: close_reasoning_def close_response_def response_text_Cons plain_event_fields split: if_splits)

lemma close_stream_text:
  assumes "close_stream defer p x = (y, evs)" "[] \<notin> set (tx_deferred x)"
  shows "response_text evs = (if defer \<and> p then concat (tx_deferred x) else []) \<and> (tx_content_streamed y \<longleftrightarrow> tx_content_streamed x \<or> response_text evs \<noteq> [])"
proof -
  obtain x1 e1 where 1: "close_reasoning x = (x1, e1)" by fastforce
  obtain x2 e2 where 2: "close_response x1 = (x2, e2)" by fastforce
  have d: "tx_deferred x2 = tx_deferred x" "tx_content_streamed x2 = tx_content_streamed x" "response_text e1 = []" "response_text e2 = []"
    using close_parts_text(1) [OF 1] close_parts_text(2) [OF 2] by simp_all
  show ?thesis
  proof (cases "defer \<and> p \<and> tx_deferred x \<noteq> []")
    case True
    then have "concat (tx_deferred x) \<noteq> []" using assms(2) by (cases "tx_deferred x") auto
    then show ?thesis using assms(1) True 1 2 d by (auto simp: close_stream_def response_text_Cons plain_event_fields)
  next
    case False
    then show ?thesis using assms(1) 1 2 d by (auto simp: close_stream_def)
  qed
qed

text \<open>C17. What a model call streams is well bracketed: reasoning and response never overlap and every part that is opened is closed, also
  when the call fails. The response events carry exactly the content, in order, unless it was held back for the todo list; and the flag
  that goes into the records tells whether any content was shown.\<close>

theorem stream_faithful:
  assumes "own_events_ok es" "emit_all defer es new_stream = (x, e1)" "close_stream defer p x = (y, e2)"
  shows "read_events (e1 @ e2) Outside = Some Outside \<and> response_text (e1 @ e2) = (if defer \<and> \<not> p then [] else content_of_output es)
    \<and> (tx_content_streamed y \<longleftrightarrow> response_text (e1 @ e2) \<noteq> [])"
proof -
  have n: "one_open new_stream" "at_stream new_stream = Outside" "tx_deferred new_stream = []" "\<not> tx_content_streamed new_stream" "\<not> tx_response_open new_stream"
    by (simp_all add: new_stream_def one_open_def at_stream_def)
  note r = emit_all_reads [OF assms(2) n(1) assms(1)]
  have b: "read_events (e1 @ e2) Outside = Some Outside" using r close_stream_reads [OF assms(3)] n(2) by (simp add: read_events_append)
  have "tx_response_open new_stream \<longrightarrow> tx_content_streamed new_stream" using n(5) by simp
  note t = emit_all_text [OF assms(2,1) this]
  note c = close_stream_text [OF assms(3) deferred_nonempty [OF assms(2)]]
  show ?thesis using b t c n by auto
qed

section \<open>Examples\<close>

text \<open>A planner that asks for one tool call and then answers; a tool that echoes; hooks that let everything pass.\<close>

definition demo_call :: ToolMessage where
  "demo_call = \<lparr>tm_name = ''echo'', tm_content = None, tm_call_id = ''c1'', tm_arguments = [], tm_status = Pending, tm_retryable = None, tm_failure_code = None, tm_options = []\<rparr>"

definition demo_planner :: "hook_action list agent \<Rightarrow> hook_action list answer" where
  "demo_planner a = \<lparr>aw_world = ag_world a, aw_history = None, aw_output = [Reasoning ''r'', Content ''d''],
     aw_result = Inr (if ag_heap a = [] then (assistant_text 0 [])\<lparr>am_content := None, am_tools := [demo_call]\<rparr> else assistant_text 0 ''d'')\<rparr>"

definition demo_services :: "hook_action list services" where
  "demo_services = \<lparr>sv_planner_name = ''demo'', sv_decide = Some demo_planner, sv_finalize = None, sv_repairs = None, sv_cancel = None, sv_suspend = None, sv_complete = None,
     sv_steering = None, sv_reports = None, sv_pending = (\<lambda>w. (w, None)), sv_resolver = None, sv_read_only = (\<lambda>_. Inr False), sv_requires_confirmation = (\<lambda>_. Inr True),
     sv_workspace_confined = (\<lambda>_. Inr False), sv_retryable = (\<lambda>_. Inr False), sv_validate = None, sv_subagents = None,
     sv_invoke = (\<lambda>name args c w t. \<lparr>iv_world = w, iv_todo = t, iv_pause = False, iv_result = Inr name\<rparr>),
     sv_before = new_hook_manager Before ToolLifecycle, sv_after = new_hook_manager After ToolLifecycle, sv_interrupt = None, sv_launcher = False, sv_sandbox_config = [],
     sv_sandbox_user_id = None, sv_store = None, sv_save = ag_world, sv_redact = (\<lambda>s. s), sv_posix = (\<lambda>s. s), sv_is_absolute = (\<lambda>s. False)\<rparr>"

definition demo_agent :: "hook_action list agent" where
  "demo_agent = \<lparr>ag_world = [], ag_heap = [], ag_messages = [Said (user_text ''go'')], ag_active = None, ag_tool_index = None,
     ag_config = sample_config, ag_session_id = ''s'', ag_workspace_root = None, ag_project_cwd = None, ag_max_tool_calls = 2, ag_suffix = [], ag_pause = False, ag_todo = None, ag_events = [],
     rn_task = ''go'', rn_mode = ''agent'', rn_run_id = ''r'', rn_thread_id = ''t'', rn_turn_id = ''u'', rn_turn_start = 0, rn_actions = [], rn_completed_steps = [], rn_final_answer = None,
     rn_model_turns = 0, rn_status = ''running'', rn_stop_reason = None\<rparr>"

lemma demo_ok: "quiet demo_services" "planner_ok demo_planner" "sound 2 demo_agent"
  by (simp_all add: quiet_def demo_services_def planner_ok_def demo_planner_def message_wf_def tool_wf_def demo_call_def sound_def demo_agent_def active_ok_def refs_def)

lemma demo_run: "map_option (\<lambda>(b, x). (ag_messages b, rn_status b, rn_actions b)) (workflow_loop 3 demo_services demo_planner demo_agent)
    = Some ([Said (user_text ''go''), Obj 0, Obj 1], ''completed'', [(0, 0)])"
  by code_simp

lemma demo_result:
  obtains b x where "workflow_loop 3 demo_services demo_planner demo_agent = Some (b, x)" "ag_messages b = [Said (user_text ''go''), Obj 0, Obj 1]" "rn_status b = ''completed''" "rn_actions b = [(0, 0)]"
  using demo_run by (auto simp: map_option_case split: option.splits)

theorem workflow_ends_witness: "\<exists>b x. workflow_loop 6 demo_services demo_planner demo_agent = Some (b, x)"
  by (rule workflow_ends [OF demo_ok]) (simp add: demo_agent_def)

theorem tool_budget_respected_witness:
  "\<exists>b x. workflow_loop 3 demo_services demo_planner demo_agent = Some (b, x) \<and> rn_actions b = [(0, 0)] \<and> length (rn_actions b) \<le> 2 \<and> ag_max_tool_calls b = 2"
proof -
  obtain b x where b: "workflow_loop 3 demo_services demo_planner demo_agent = Some (b, x)" "rn_actions b = [(0, 0)]" using demo_result by metis
  with tool_budget_respected [OF demo_ok(2,3) b(1)] show ?thesis by blast
qed

theorem history_has_results_witness:
  "\<exists>b x. workflow_loop 3 demo_services demo_planner demo_agent = Some (b, x) \<and> (\<forall>t \<in> set (am_tools (obj b 0)). tm_status t \<noteq> Pending \<and> tm_content t \<noteq> None)"
proof -
  obtain b x where b: "workflow_loop 3 demo_services demo_planner demo_agent = Some (b, x)" "ag_messages b = [Said (user_text ''go''), Obj 0, Obj 1]" using demo_result by metis
  have "Obj 0 \<in> set (ag_messages b)" by (simp add: b(2))
  with history_has_results [OF demo_ok(2,3) b(1)] b(1) show ?thesis by blast
qed

text \<open>The demo agent with the planner's request.\<close>

definition demo_requested :: "hook_action list agent" where
  "demo_requested = alloc ((assistant_text 0 [])\<lparr>am_content := None, am_tools := [demo_call, demo_call]\<rparr>) demo_agent"



lemma demo_returns: "\<exists>b. workflow_loop 3 demo_services demo_planner demo_agent = Some (b, Inr ())"
proof -
  have "map_option (\<lambda>(b, x). case x of Inl _ \<Rightarrow> False | Inr u \<Rightarrow> True) (workflow_loop 3 demo_services demo_planner demo_agent) = Some True" by code_simp
  then show ?thesis by (auto simp: map_option_case split: option.splits sum.splits)
qed

theorem workflow_outcome_witness:
  "\<exists>b. workflow_loop 3 demo_services demo_planner demo_agent = Some (b, Inr ()) \<and> (rn_status b \<noteq> ''running'' \<or> (ag_events b \<noteq> [] \<and> ev_kind (last (ag_events b)) = ''feedback_received''))"
  using demo_returns workflow_outcome by blast

text \<open>The same services with the sandbox operation in front of the tools and a user who answers with \<open>choice\<close>.\<close>

definition asking_services :: "string \<Rightarrow> hook_action list services" where
  "asking_services choice = demo_services\<lparr>sv_before := \<lparr>hm_phase = Before, hm_lifecycle = ToolLifecycle, hm_operations = [sandbox_hook sample_policy_host (\<lambda>_. [])]\<rparr>,
     sv_interrupt := Some (\<lambda>_. \<lparr>id_choice = choice, id_supplement = Some ''first explain''\<rparr>)\<rparr>"

definition demo_pointing :: "hook_action list agent" where
  "demo_pointing = demo_requested\<lparr>ag_active := Some 0, ag_tool_index := Some 0\<rparr>"

definition demo_facts :: tool_facts where
  "demo_facts = \<lparr>tf_requires_confirmation = True, tf_read_only = False, tf_workspace_confined = False, tf_retryable = False\<rparr>"

theorem unapproved_tool_never_invoked_witness:
  "guarded_call (with_tools (\<lambda>_ _ _ _ _. \<lparr>iv_world = [], iv_todo = None, iv_pause = True, iv_result = Inl ''boom''\<rparr>) None (asking_services ''deny'')) 0 0 demo_facts demo_pointing
     = guarded_call (asking_services ''deny'') 0 0 demo_facts demo_pointing
   \<and> tm_status (tool_at (fst (guarded_call (asking_services ''deny'') 0 0 demo_facts demo_pointing)) 0 0) = Failed"
proof -
  have "requires_approval (hook_context (asking_services ''deny'') demo_pointing (tool_at demo_pointing 0 0) demo_facts)"
    by (simp add: requires_approval_def hook_context_def demo_facts_def WEB_NETWORK_TOOLS_def tool_at_def obj_def demo_pointing_def demo_requested_def alloc_def demo_agent_def sample_config_def demo_call_def
        assistant_text_def)
  moreover have "points_at demo_pointing 0 0"
    by (simp add: points_at_def demo_pointing_def demo_requested_def alloc_def demo_agent_def obj_def)
  ultimately show ?thesis
    using unapproved_tool_never_invoked [of "asking_services ''deny''" sample_policy_host "\<lambda>_. []" "[]" demo_pointing 0 0 demo_facts
        "\<lambda>_ _ _ _ _. \<lparr>iv_world = [], iv_todo = None, iv_pause = True, iv_result = Inl ''boom''\<rparr>" None]
    by (auto simp: asking_services_def)
qed

theorem stream_faithful_witness:
  "response_text (snd (emit_all False [Reasoning ''r'', Content ''a'', Content ''b''] new_stream) @ snd (close_stream False True (fst (emit_all False [Reasoning ''r'', Content ''a'', Content ''b''] new_stream)))) = ''ab''"
proof -
  let ?es = "[Reasoning ''r'', Content ''a'', Content ''b'']"
  have "own_events_ok ?es" by (simp add: own_events_ok_def)
  from stream_faithful [OF this, of False "fst (emit_all False ?es new_stream)" "snd (emit_all False ?es new_stream)" True
      "fst (close_stream False True (fst (emit_all False ?es new_stream)))" "snd (close_stream False True (fst (emit_all False ?es new_stream)))"]
  show ?thesis by (simp add: content_of_output_def del: emit_all.simps)
qed

section \<open>Two surprises\<close>

text \<open>A user who answers an approval with a supplement ends the workflow while the run is still marked as running: the call is not made,
  the feedback is recorded and nothing sets an outcome.\<close>

theorem supplement_leaves_running:
  "map_option (\<lambda>(b, x). (rn_status b, rn_stop_reason b, rn_final_answer b)) (workflow_loop 1 (asking_services ''supplement'') demo_planner demo_agent) = Some (''running'', None, None)"
  by code_simp

text \<open>Cancelling a turn whose last message is a tool request without text writes the word \<open>None\<close> into the message.\<close>

definition cancelling_services :: "hook_action list services" where
  "cancelling_services = demo_services\<lparr>sv_invoke := (\<lambda>name args c w t. \<lparr>iv_world = [Recorded [] [] []], iv_todo = t, iv_pause = False, iv_result = Inr name\<rparr>),
     sv_cancel := Some (\<lambda>w. (w, w \<noteq> []))\<rparr>"

theorem cancel_writes_none:
  "map_option (\<lambda>(b, x). (rn_status b, am_content (obj b 0))) (workflow_loop 1 cancelling_services demo_planner demo_agent)
     = Some (''cancelled'', Some (''None'' @ PARAGRAPH @ ''Run cancelled by user''))"
  by code_simp

end
