(* ===== verification/Spec2Isabelle.thy ===== *)
theory Spec2Isabelle
  imports JobRegistryInv FilePaths MailboxPort TodoStore NodeWriter SandboxGate SandboxAdmission SandboxLeases BrokerStreams AgentTheorems SandboxApproval
begin

text \<open>
  \<^bold>\<open>Verification of the mini-agent backend.\<close>

  The program is a local agent runtime (Python, under \<open>src/backend/src\<close>): a user's messages become turns, a
  turn runs a model and tools, tools start jobs, commands run in a Windows sandbox, and everything a turn does
  is recorded in a tree of turn nodes and streamed to the user interface. This development models the state
  and the decisions of that runtime. Each theory follows one group of source files; definitions keep the names
  of the code (leading underscores dropped, a prefix where two files use the same name), records are its
  classes, and every raise or early return is a branch.

  \<^bold>\<open>Shared ground.\<close>
  \<open>Prelude\<close> has Python dictionaries as association lists in insertion order, results \<open>error + value\<close>, stateful
  calls that may raise (\<open>raising\<close>: the state is returned also when the call raises) and the lemmas the components
  share. \<open>PyValue\<close> has untyped values (\<open>None\<close>, booleans, integers, floats as exact rationals with infinities and NaN,
  strings, lists, dictionaries), Python's equality, truth, \<open>str\<close>, \<open>int\<close> and \<open>json.dumps\<close> on them.

  \<^bold>\<open>Jobs.\<close>
  \<open>JobBase\<close> (\<open>jobs/base.py\<close>) is the state machine of one job; \<open>JobScope\<close> (\<open>jobs/scope.py\<close>, \<open>scheduling.py\<close>,
  \<open>errors.py\<close>) the scopes, owners, lanes and limits; \<open>JobRegistry\<close> (\<open>jobs/registry/*.py\<close>) admission, queues,
  slots, terminal handling, pruning and the closing of scopes. \<open>JobRegistryInv\<close> proves that in every reachable
  registry the slot counters are exactly the records that hold a slot, that limits are respected when calls do not
  interleave, and that a terminal job holds nothing. The loop over parent jobs is a partial function with
  \<open>None\<close> for not returning, and one theorem shows a configuration on which it never returns.

  \<^bold>\<open>Messages.\<close>
  \<open>FilePaths\<close> (\<open>domain/file_paths.py\<close>) resolves user paths inside the allowed roots; the file system is a record of
  functions. \<open>MessageQueue\<close> (\<open>domain/message_queue.py\<close>, \<open>storage/message_queue_support.py\<close>) has messages,
  envelopes and merging; \<open>MemoryQueue\<close> (\<open>storage/memory_message_queue.py\<close>) every operation of the queue;
  \<open>MemoryQueueInv\<close> proves that no sequence of operations loses an accepted message and that a delivery has
  one claimant; \<open>MailboxPort\<close> (\<open>storage/message_mailbox.py\<close>) states the delivery contract as a locale, proves the
  mailboxes against it and interprets it on the queue.

  \<^bold>\<open>Todo lists.\<close>
  \<open>Todo\<close> (\<open>domain/todo.py\<close>) has the batch interpreter, proved equal to replaying the operations by id;
  \<open>TodoStore\<close> (\<open>storage/todo_list.py\<close>, the in-memory store) the optimistic updates and the finalisation claim.

  \<^bold>\<open>Turns.\<close>
  \<open>TurnContract\<close> and \<open>TurnModels\<close> (\<open>domain/runtime_state/contract.py\<close>, \<open>models.py\<close>) normalise and validate turn
  data and nodes, with their round trips; \<open>NodeTree\<close> (\<open>tree.py\<close>) is the node store and the state tree: every stored
  node reaches the root of its session, ancestors and the model input are what the history says, compaction keeps the
  newest items; \<open>TurnFrames\<close> (\<open>frames.py\<close>) computes deltas and renders frames; \<open>NodeWriter\<close> (\<open>writer.py\<close>) is the
  streaming writer over the store interface (locale \<open>node_store\<close>, interpreted on the in-memory store): published
  revisions are consecutive, what is published replays to what is held, and the history stays complete.

  \<^bold>\<open>Hooks and the sandbox.\<close>
  \<open>HookManager\<close> (\<open>runtime/core/hooks.py\<close>, \<open>hook_contracts.py\<close>) runs the registered operations of a lifecycle boundary.
  \<open>SandboxPolicy\<close> (\<open>sandbox/policy.py\<close>, \<open>runtime/resources.py\<close>) has the policy of a command, its limits, its
  environment and the monitor's check; \<open>SandboxApproval\<close> (\<open>sandbox/control/approvals.py\<close>, \<open>operation.py\<close>,
  \<open>decision.py\<close>) the approvals of a session and the operation in front of every tool call, composed with the hook
  manager and with the policy; \<open>SandboxGate\<close> (\<open>control/maintenance.py\<close>) excludes commands and maintenance;
  \<open>SandboxAdmission\<close> (\<open>runtime/admission.py\<close>) is the quota gate; \<open>SandboxLeases\<close> (\<open>runtime/leases.py\<close>) the
  persistent ownership of access-control entries; \<open>SandboxManifest\<close> (\<open>runtime/manifest.py\<close>) the broker's record of
  resources, a finite map in a file; \<open>BrokerService\<close> (\<open>broker_service/service.py\<close>) the authenticated dispatcher over that
  manifest: no request is performed twice, nothing unauthenticated has an effect, recovery touches only what the
  broker can prove it owns.

  \<^bold>\<open>The broker's client and its native adapter.\<close>
  \<open>Base64\<close> is the encoding of the wire. \<open>BrokerClient\<close> (\<open>sandbox/control/broker.py\<close>) signs requests, checks answers and
  is the process proxy; composed with \<open>BrokerService\<close> a request comes back with what the service performed.
  \<open>NativeProcess\<close> (\<open>native_broker_adapter/process.py\<close>) is the process object, whose handles are closed once (locale
  \<open>process_invariant\<close>, interpreted on three invariants), and the command line, which splits back into its arguments.
  \<open>BrokerAdapter\<close> (\<open>native_broker_adapter/adapter.py\<close>) has reservations, launches, releases and process control;
  \<open>BrokerHandles\<close> proves that in every run whose requests pass the path checks each open handle belongs to a stored reservation
  or a running process, and shows what a refused path loses; \<open>BrokerStreams\<close> joins the proxy's streams with the process behind them.

  \<^bold>\<open>A turn of the agent.\<close>
  \<open>ChatMessages\<close> (\<open>domain/messages.py\<close>) and \<open>RuntimeConfig\<close> (\<open>AgentRuntime.apply_pending_runtime_config\<close>) are its data.
  \<open>AgentState\<close> (\<open>runtime/execution/lifecycle/outcomes.py\<close>, \<open>cancellation.py\<close>) has the state of a turn: assistant messages
  are objects on a heap, because the response, the active message, the history and the executed actions share them.
  \<open>AgentInputs\<close> (\<open>conversation/steering.py\<close>, \<open>execution/todo_finalization.py\<close>, \<open>execution/workflows/common.py\<close>) has steering,
  reports, the todo pass and the text stream; \<open>AgentTools\<close> (\<open>execution/steps.py\<close>) one tool call between the hooks of
  \<open>HookManager\<close>; \<open>AgentLoop\<close> (\<open>execution/workflows/budgets.py\<close>, \<open>execution.py\<close>) the batch and the loop.
  \<open>AgentFrame\<close> shows once for every operation how it may change the state, \<open>AgentProps\<close> the invariant of the loop, and
  \<open>AgentTheorems\<close> the properties: the budget of tool calls holds, calls run in order, the history has all results, the loop ends,
  it ends with an outcome, the stream is well bracketed, and, with the operation of \<open>SandboxApproval\<close> in front, an unapproved
  tool is never invoked. Planner, tools, the user's signals and the stores are callbacks over an arbitrary world.

  \<^bold>\<open>Parameters and bounds.\<close>
  What is not in the repository is an argument: the clock, random identifiers, the hash and the keyed hash, the
  file system and the Win32 calls, the IP and IDNA parsers, the process adapter of the broker. Where a theorem
  needs more of them than that they are functions it says so (an injective hash for exact approvals, ASCII
  digests for verifiable records). Calls run under the locks of the code, so a run is a sequence of calls; where the
  code gives a lock up in between (admission of jobs) the two halves are separate steps. Loops are structural
  recursions or have a measure (the ancestor walk: the stored nodes not yet seen); the only search with a fixed bound is
  that for the decimals of a float that is rendered. The loop of a turn takes its number of rounds as fuel; without messages
  from outside, two rounds per tool call of the budget and two more are enough, which is proved. Integers are unbounded as in
  Python.

  \<^bold>\<open>Not modelled.\<close>
  The web front end and the HTTP and streaming routes of \<open>api/\<close> (framework glue over the components above), the model
  providers and MCP clients (network protocols), the planning prompts, the SQLite and Redis stores (statements
  executed by a server, except the approval table), the native Windows layer (accounts, desktops, tokens, firewall
  rules, installer, service control), the proxy, the tools themselves, skills, settings, observability, scripts
  and tests. Of the execution of a turn the plan-mode workflow (the same loop with other controls), the runner that wires the
  services and the projection of stored nodes into messages are left out; time stamps and durations are left out of events.
\<close>

end
